(* ===== verification/Prelude.thy ===== *)
theory Prelude
  imports Main
begin

text \<open>
  The vocabulary every other theory shares.

  Go values: a Go \<open>string\<close> and a Go \<open>[]byte\<close> are both a list of bytes, an Isabelle
  \<open>string\<close>; \<open>len\<close> is \<open>length\<close>.  A Go \<open>error\<close> is a \<open>go_error\<close>: the package-level
  sentinel errors the code compares with \<open>errors.Is\<close> are constructors, every
  \<open>errors.New\<close> or \<open>fmt.Errorf\<close> that is only reported is \<open>Errorf\<close> with its constant
  text.  A function that returns \<open>(T, error)\<close> returns \<open>T result\<close>, one that returns only
  an \<open>error\<close> returns \<open>go_error option\<close>, with \<open>None\<close> for \<open>nil\<close>.

  SQL: a table is the list of its rows in rowid order, so that a statement reads as the
  list operation it is.  \<open>update_where\<close>, \<open>delete_where\<close>, \<open>count_where\<close> and \<open>upsert\<close> are
  \<open>UPDATE\<close>, \<open>DELETE\<close>, \<open>RowsAffected\<close> and \<open>INSERT ... ON CONFLICT DO UPDATE\<close>; \<open>uniq\<close> is a
  primary key or \<open>UNIQUE\<close> constraint.  The lemmas say what a statement does to membership,
  to a key and to a lookup; they are in the collections \<open>table_simps\<close> and
  \<open>table_intros\<close>.
\<close>

section \<open>Errors and results\<close>

datatype go_error =
    ErrGenerationFenced
  | ErrSequenceConflict
  | ErrMissingSequence
  | ErrPayloadConflict
  | ErrStateConflict
  | ErrNotFound
  | ErrInvalidStatus
  | ErrLeaseLost
  | Errorf string

type_synonym 'a result = "go_error + 'a"

text \<open>\<open>defer tx.Rollback()\<close>: an operation that returns an error leaves the store as it was.\<close>

definition run_tx :: "('s \<Rightarrow> ('s \<times> 'a) result) \<Rightarrow> 's \<Rightarrow> 's \<times> 'a result" where
  "run_tx op s = (case op s of Inl e \<Rightarrow> (s, Inl e) | Inr (s', a) \<Rightarrow> (s', Inr a))"

lemma run_tx_simps [simp]:
  "op s = Inl e \<Longrightarrow> run_tx op s = (s, Inl e)"
  "op s = Inr (s', a) \<Longrightarrow> run_tx op s = (s', Inr a)"
  by (simp_all add: run_tx_def)

text \<open>Statements of several parts.\<close>

lemma conj_2: "A \<Longrightarrow> B \<Longrightarrow> A \<and> B" by blast

lemma conj_3: "A \<Longrightarrow> B \<Longrightarrow> C \<Longrightarrow> A \<and> B \<and> C" by blast

lemma conj_4: "A \<Longrightarrow> B \<Longrightarrow> C \<Longrightarrow> D \<Longrightarrow> A \<and> B \<and> C \<and> D" by blast

section \<open>Tables\<close>

named_theorems table_simps
named_theorems table_intros

definition update_where :: "('r \<Rightarrow> bool) \<Rightarrow> ('r \<Rightarrow> 'r) \<Rightarrow> 'r list \<Rightarrow> 'r list" where
  "update_where P f t = map (\<lambda>r. if P r then f r else r) t"

definition delete_where :: "('r \<Rightarrow> bool) \<Rightarrow> 'r list \<Rightarrow> 'r list" where
  "delete_where P t = filter (\<lambda>r. \<not> P r) t"

definition count_where :: "('r \<Rightarrow> bool) \<Rightarrow> 'r list \<Rightarrow> nat" where
  "count_where P t = length (filter P t)"

definition exists_where :: "('r \<Rightarrow> bool) \<Rightarrow> 'r list \<Rightarrow> bool" where
  "exists_where P t = list_ex P t"

definition upsert :: "('r \<Rightarrow> 'k) \<Rightarrow> 'r \<Rightarrow> ('r \<Rightarrow> 'r) \<Rightarrow> 'r list \<Rightarrow> 'r list" where
  "upsert k new upd t =
     (if exists_where (\<lambda>r. k r = k new) t
      then update_where (\<lambda>r. k r = k new) upd t else t @ [new])"

definition uniq :: "('r \<Rightarrow> 'k) \<Rightarrow> 'r list \<Rightarrow> bool" where
  "uniq k t = distinct (map k t)"

text \<open>SQLite gives a new row the rowid after the largest one in use.\<close>

definition next_rowid :: "('r \<Rightarrow> int) \<Rightarrow> 'r list \<Rightarrow> int" where
  "next_rowid rid t = fold (\<lambda>r m. max (rid r) m) t 0 + 1"

text \<open>\<open>COALESCE(column, value)\<close> and \<open>CASE WHEN text='' THEN value ELSE text END\<close>.\<close>

definition coalesce :: "'a option \<Rightarrow> 'a \<Rightarrow> 'a option" where
  "coalesce c v = (case c of None \<Rightarrow> Some v | Some w \<Rightarrow> Some w)"

definition default_text :: "string \<Rightarrow> string \<Rightarrow> string" where
  "default_text t v = (if t = '''' then v else t)"

lemma coalesce_simps [simp]: "coalesce None v = Some v" "coalesce (Some w) v = Some w"
  by (simp_all add: coalesce_def)

lemma coalesce_not_None [simp]: "coalesce c v \<noteq> None"
  by (cases c) simp_all

subsection \<open>Membership\<close>

lemma set_update_where:
  "set (update_where P f t) = {r \<in> set t. \<not> P r} \<union> f ` {r \<in> set t. P r}"
  by (auto simp: update_where_def)

lemma update_where_E [elim]:
  assumes "r \<in> set (update_where P f t)"
  obtains "r \<in> set t" "\<not> P r" | r' where "r' \<in> set t" "P r'" "r = f r'"
  using assms by (auto simp: update_where_def split: if_splits)

lemma update_where_hit [table_intros]: "r \<in> set t \<Longrightarrow> P r \<Longrightarrow> f r \<in> set (update_where P f t)"
  by (auto simp: set_update_where)

lemma update_where_miss [table_intros]: "r \<in> set t \<Longrightarrow> \<not> P r \<Longrightarrow> r \<in> set (update_where P f t)"
  by (auto simp: set_update_where)

lemma set_delete_where: "set (delete_where P t) = {r \<in> set t. \<not> P r}"
  by (simp add: delete_where_def)

lemma exists_where_iff: "exists_where P t \<longleftrightarrow> (\<exists>r\<in>set t. P r)"
  by (auto simp: exists_where_def list_ex_iff)

lemma count_where_0: "count_where P t = 0 \<longleftrightarrow> (\<forall>r\<in>set t. \<not> P r)"
  by (auto simp: count_where_def filter_empty_conv)

lemma count_where_pos: "r \<in> set t \<Longrightarrow> P r \<Longrightarrow> 0 < count_where P t"
  by (auto simp: count_where_def filter_empty_conv)

lemma set_upsert:
  "set (upsert k new upd t) =
     (if \<exists>r\<in>set t. k r = k new
      then {r \<in> set t. k r \<noteq> k new} \<union> upd ` {r \<in> set t. k r = k new}
      else insert new (set t))"
  by (auto simp: upsert_def exists_where_iff set_update_where)

lemma length_update_where [simp]: "length (update_where P f t) = length t"
  by (simp add: update_where_def)

lemma update_where_Nil [simp]: "update_where P f [] = []"
  by (simp add: update_where_def)

lemma update_where_append [simp]:
  "update_where P f (t @ u) = update_where P f t @ update_where P f u"
  by (simp add: update_where_def)

lemma update_where_id: "\<forall>r\<in>set t. \<not> P r \<Longrightarrow> update_where P f t = t"
  by (simp add: update_where_def map_idI)

lemma delete_where_append [simp]: "delete_where P (t @ u) = delete_where P t @ delete_where P u"
  by (simp add: delete_where_def)

lemma delete_where_id: "\<forall>r\<in>set t. \<not> P r \<Longrightarrow> delete_where P t = t"
  by (simp add: delete_where_def filter_id_conv)

subsection \<open>Keys\<close>

lemma map_update_where [table_simps]:
  "(\<And>r. P r \<Longrightarrow> k (f r) = k r) \<Longrightarrow> map k (update_where P f t) = map k t"
  by (simp add: update_where_def)

lemma uniq_update_where [table_intros]:
  "uniq k t \<Longrightarrow> (\<And>r. P r \<Longrightarrow> k (f r) = k r) \<Longrightarrow> uniq k (update_where P f t)"
  by (simp add: uniq_def map_update_where)

lemma uniq_delete_where [table_intros]: "uniq k t \<Longrightarrow> uniq k (delete_where P t)"
  by (simp add: uniq_def delete_where_def distinct_map_filter)

lemma uniq_Nil [simp]: "uniq k []"
  by (simp add: uniq_def)

lemma uniq_snoc: "uniq k (t @ [r]) \<longleftrightarrow> uniq k t \<and> (\<forall>r'\<in>set t. k r' \<noteq> k r)"
  by (auto simp: uniq_def image_iff)

lemma uniq_append:
  "uniq k (t @ u) \<longleftrightarrow> uniq k t \<and> uniq k u \<and> (\<forall>r\<in>set t. \<forall>q\<in>set u. k r \<noteq> k q)"
  by (auto simp: uniq_def disjoint_iff)

lemma uniq_upsert [table_intros]:
  "uniq k t \<Longrightarrow> (\<And>r. k (upd r) = k r) \<Longrightarrow> uniq k (upsert k new upd t)"
  by (auto simp: upsert_def exists_where_iff uniq_snoc intro: uniq_update_where)

lemma uniqD: "uniq k t \<Longrightarrow> r \<in> set t \<Longrightarrow> r' \<in> set t \<Longrightarrow> k r = k r' \<Longrightarrow> r = r'"
  by (auto simp: uniq_def distinct_map inj_on_def)

lemma uniq_filter: "uniq k t \<Longrightarrow> uniq k (filter P t)"
  by (simp add: uniq_def distinct_map_filter)

lemma count_where_uniq:
  assumes "uniq k t" "r \<in> set t" "P r" "\<And>r'. r' \<in> set t \<Longrightarrow> P r' \<Longrightarrow> k r' = k r"
  shows "count_where P t = 1"
proof -
  have "filter P t \<noteq> []"
    using assms(2,3) by (auto simp: filter_empty_conv)
  moreover have "distinct (map k (filter P t))"
    using assms(1) by (simp add: uniq_def distinct_map_filter)
  moreover have "set (map k (filter P t)) \<subseteq> {k r}"
    using assms(4) by auto
  then have "card (set (map k (filter P t))) \<le> 1"
    by (metis card_mono card.empty card_insert_if finite.emptyI finite_insert empty_iff One_nat_def)
  ultimately have "length (map k (filter P t)) \<le> 1"
    by (metis distinct_card)
  then show ?thesis
    using \<open>filter P t \<noteq> []\<close> by (cases "filter P t") (auto simp: count_where_def)
qed

lemma count_where_oneE:
  assumes "count_where P t = 1"
  obtains r where "r \<in> set t" "P r"
proof -
  have "filter P t \<noteq> []" using assms by (auto simp: count_where_def)
  then show ?thesis using that by (auto simp: filter_empty_conv)
qed

text \<open>A statement that leaves a column alone leaves its column image alone.\<close>

lemma image_update_where [table_simps]:
  "(\<And>r. P r \<Longrightarrow> k (f r) = k r) \<Longrightarrow> k ` set (update_where P f t) = k ` set t"
  by (metis map_update_where list.set_map)

lemma uniq_update_where_iff [table_simps]:
  "(\<And>r. P r \<Longrightarrow> k (f r) = k r) \<Longrightarrow> uniq k (update_where P f t) = uniq k t"
  by (simp add: uniq_def map_update_where)

lemma image_upsert:
  "(\<And>r. k (upd r) = k r) \<Longrightarrow> k ` set (upsert k new upd t) = insert (k new) (k ` set t)"
  by (auto simp: upsert_def exists_where_iff image_update_where image_iff intro: sym)

lemma count_where_update: "count_where P t = 0 \<Longrightarrow> update_where P f t = t"
  by (simp add: count_where_0 update_where_id)

subsection \<open>Lookups\<close>

lemma find_SomeD: "find P t = Some r \<Longrightarrow> r \<in> set t \<and> P r"
  by (auto simp: find_Some_iff)

lemma find_NoneD: "find P t = None \<Longrightarrow> r \<in> set t \<Longrightarrow> \<not> P r"
  by (auto simp: find_None_iff)

lemma find_uniq:
  assumes "uniq k t" "r \<in> set t" "P r" "\<And>r'. r' \<in> set t \<Longrightarrow> P r' \<Longrightarrow> k r' = k r"
  shows "find P t = Some r"
proof (cases "find P t")
  case None
  then show ?thesis using assms(2,3) by (auto simp: find_None_iff)
next
  case (Some r')
  with assms show ?thesis by (auto dest!: find_SomeD dest: uniqD)
qed

lemma find_append: "find P (t @ u) = (case find P t of None \<Rightarrow> find P u | Some r \<Rightarrow> Some r)"
  by (induction t) simp_all

lemma find_update_where_same:
  "(\<And>r. Q (if P r then f r else r) = Q r) \<Longrightarrow>
   find Q (update_where P f t) = map_option (\<lambda>r. if P r then f r else r) (find Q t)"
  by (induction t) (auto simp: update_where_def)

subsection \<open>Rowids\<close>

lemma fold_max_ge:
  fixes rid :: "'r \<Rightarrow> int"
  shows "m \<le> fold (\<lambda>r m. max (rid r) m) t m \<and> (\<forall>r\<in>set t. rid r \<le> fold (\<lambda>r m. max (rid r) m) t m)"
proof (induction t arbitrary: m)
  case Nil
  then show ?case by simp
next
  case (Cons a t)
  from Cons.IH [of "max (rid a) m"] show ?case by auto
qed

lemma next_rowid_greater: "r \<in> set t \<Longrightarrow> rid r < next_rowid rid t"
  using fold_max_ge [of 0 rid t] by (auto simp: next_rowid_def)

lemma next_rowid_pos: "0 < next_rowid rid t"
  using fold_max_ge [of 0 rid t] by (auto simp: next_rowid_def)

lemma uniq_insert_rowid:
  "uniq rid t \<Longrightarrow> rid r = next_rowid rid t \<Longrightarrow> uniq rid (t @ [r])"
  using next_rowid_greater [of _ t rid] by (fastforce simp: uniq_snoc)

lemma next_rowid_fresh [simp]: "r \<in> set t \<Longrightarrow> (rid r = next_rowid rid t) = False"
  using next_rowid_greater [of r t rid] by simp

subsection \<open>Quantifiers over an updated table\<close>

lemma ball_update_where:
  "(\<forall>r\<in>set (update_where P f t). Q r) \<longleftrightarrow> (\<forall>r\<in>set t. Q (if P r then f r else r))"
  by (auto simp: update_where_def)

lemma image_update_where_if:
  "k ` set (update_where P f t) = (\<lambda>r. k (if P r then f r else r)) ` set t"
  by (auto simp: update_where_def)

lemma ball_snoc: "(\<forall>r\<in>set (t @ [x]). Q r) \<longleftrightarrow> (\<forall>r\<in>set t. Q r) \<and> Q x"
  by auto

lemma map_filter_update_where:
  "(\<And>r. P r \<Longrightarrow> k (f r) = k r \<and> p (f r) = p r) \<Longrightarrow>
   map k (filter p (update_where P f t)) = map k (filter p t)"
  by (induction t) (auto simp: update_where_def)

lemma fold_max_int_ge:
  fixes xs :: "int list"
  shows "m \<le> fold max xs m \<and> (\<forall>x\<in>set xs. x \<le> fold max xs m)"
proof (induction xs arbitrary: m)
  case Nil
  then show ?case by simp
next
  case (Cons a xs)
  from Cons.IH [of "max a m"] show ?case by auto
qed

lemma not_imageD: "x \<notin> k ` A \<Longrightarrow> y \<in> A \<Longrightarrow> k y \<noteq> x"
  by auto

lemma imageI_eq: "y \<in> A \<Longrightarrow> k y = x \<Longrightarrow> x \<in> k ` A"
  by auto

end
