(* ===== verification/GoStrings.thy ===== *)
theory GoStrings
  imports Prelude
begin

text \<open>
  The parts of Go's string library the program uses, on byte strings.  \<open>runes\<close> is what
  \<open>for index := range value\<close> visits: the UTF-8 decoder of \<open>unicode/utf8\<close>, with every
  invalid byte a replacement rune of width one.  \<open>utf8.RuneCountInString\<close>,
  \<open>utf8.ValidString\<close> and \<open>strings.TrimSpace\<close> are defined from it.  The last section
  models the two routines of the program that cut text at a byte limit:
  \<open>boundedText\<close> (internal/storage/store.go) and \<open>boundedOperationalError\<close>
  (supervisor.go).

  The central fact is that segmentation is stable: cutting a string at segment boundaries,
  or appending text that starts a new rune, does not change the other segments.
\<close>

section \<open>UTF-8\<close>

definition byte :: "char \<Rightarrow> nat" where
  "byte c = of_char c"

definition rune_error :: nat where
  "rune_error = 65533"

definition cont :: "nat \<Rightarrow> bool" where
  "cont b \<longleftrightarrow> 128 \<le> b \<and> b \<le> 191"

text \<open>For a lead byte: how many bytes follow, and the range of the first of them.\<close>

definition lead_range :: "nat \<Rightarrow> (nat \<times> nat \<times> nat) option" where
  "lead_range a =
     (if 194 \<le> a \<and> a \<le> 223 then Some (1, 128, 191)
      else if a = 224 then Some (2, 160, 191)
      else if a = 237 then Some (2, 128, 159)
      else if 225 \<le> a \<and> a \<le> 239 then Some (2, 128, 191)
      else if a = 240 then Some (3, 144, 191)
      else if a = 244 then Some (3, 128, 143)
      else if 241 \<le> a \<and> a \<le> 243 then Some (3, 128, 191)
      else None)"

definition tail_ok :: "nat \<Rightarrow> nat \<Rightarrow> nat \<Rightarrow> nat list \<Rightarrow> bool" where
  "tail_ok n lo hi r =
     (case take n r of [] \<Rightarrow> False
      | b # bs \<Rightarrow> length bs = n - 1 \<and> lo \<le> b \<and> b \<le> hi \<and> list_all cont bs)"

definition decode_rune :: "string \<Rightarrow> nat \<times> nat" where
  "decode_rune s =
     (case s of [] \<Rightarrow> (rune_error, 0)
      | c # r \<Rightarrow>
        (let a = byte c in
         if a < 128 then (a, 1)
         else case lead_range a of None \<Rightarrow> (rune_error, 1)
           | Some (n, lo, hi) \<Rightarrow>
             (if tail_ok n lo hi (map byte r)
              then (fold (\<lambda>b v. v * 64 + b mod 64) (take n (map byte r)) (a mod 2 ^ (6 - n)), Suc n)
              else (rune_error, 1))))"

lemma decode_rune_width_pos: "s \<noteq> [] \<Longrightarrow> 0 < snd (decode_rune s)"
  by (auto simp: decode_rune_def Let_def split: list.splits option.splits)

function runes :: "string \<Rightarrow> (nat \<times> string) list" where
  "runes s = (if s = [] then []
     else (fst (decode_rune s), take (snd (decode_rune s)) s) # runes (drop (snd (decode_rune s)) s))"
  by pat_completeness auto
termination
  by (relation "measure length") (auto simp: decode_rune_width_pos)

declare runes.simps [simp del]

definition rune_count :: "string \<Rightarrow> nat" where
  "rune_count s = length (runes s)"

definition bad_rune :: "nat \<times> string \<Rightarrow> bool" where
  "bad_rune p \<longleftrightarrow> fst p = rune_error \<and> length (snd p) = 1"

definition utf8_valid :: "string \<Rightarrow> bool" where
  "utf8_valid s \<longleftrightarrow> list_all (\<lambda>p. \<not> bad_rune p) (runes s)"

lemma runes_Nil [simp]: "runes [] = []"
  by (simp add: runes.simps)

lemma runes_nonempty: "s \<noteq> [] \<Longrightarrow> runes s =
    (fst (decode_rune s), take (snd (decode_rune s)) s) # runes (drop (snd (decode_rune s)) s)"
  by (subst runes.simps) simp

lemma concat_runes [simp]: "concat (map snd (runes s)) = s"
proof (induction s rule: runes.induct)
  case (1 s)
  then show ?case by (cases "s = []") (simp_all add: runes_nonempty)
qed

lemma runes_eq_Nil [simp]: "runes s = [] \<longleftrightarrow> s = []"
  by (cases "s = []") (simp_all add: runes_nonempty)

lemma utf8_valid_Nil [simp]: "utf8_valid []"
  by (simp add: utf8_valid_def)

subsection \<open>Stability of the segmentation\<close>

text \<open>The decoder reads at most the bytes of the rune it returns.\<close>

lemma tail_ok_append: "tail_ok n lo hi r \<Longrightarrow> take n (r @ x) = take n r \<and> tail_ok n lo hi (r @ x)"
  by (cases "n \<le> length r") (auto simp: tail_ok_def split: list.splits)

lemma tail_ok_take: "tail_ok n lo hi (take n r) = tail_ok n lo hi r"
  by (simp add: tail_ok_def)

lemma tail_ok_length: "tail_ok n lo hi r \<Longrightarrow> n \<le> length r"
  by (cases "take n r") (auto simp: tail_ok_def dest!: arg_cong [where f = length])

lemma tail_ok_diff [simp]: "tail_ok n lo hi (map byte r) \<Longrightarrow> n - length r = 0"
  using tail_ok_length [of n lo hi "map byte r"] by simp

lemma lead_range_bounds: "lead_range a = Some (n, lo, hi) \<Longrightarrow> 128 \<le> lo \<and> hi \<le> 191 \<and> 0 < n \<and> n \<le> 3"
  by (auto simp: lead_range_def split: if_splits)

definition starts_rune :: "string \<Rightarrow> bool" where
  "starts_rune x = (case x of [] \<Rightarrow> True | c # _ \<Rightarrow> \<not> cont (byte c))"

lemma tail_bad_append:
  assumes bad: "\<not> tail_ok n lo hi r" and lead: "128 \<le> lo" "hi \<le> 191" "0 < n"
    and x: "case x of [] \<Rightarrow> True | b # _ \<Rightarrow> \<not> cont b"
  shows "\<not> tail_ok n lo hi (r @ x)"
proof
  assume ok: "tail_ok n lo hi (r @ x)"
  show False
  proof (cases "n \<le> length r")
    case True
    with ok bad show False by (simp add: tail_ok_def)
  next
    case False
    with tail_ok_length [OF ok] obtain b x' where xb: "x = b # x'" by (cases x) auto
    with x have nb: "\<not> cont b" by simp
    obtain m where m: "n - length r = Suc m" using False by (cases "n - length r") auto
    then have tk: "take n (r @ x) = r @ b # take m x'" using False xb by simp
    show False
    proof (cases r)
      case Nil
      with tk ok nb lead show False by (auto simp: tail_ok_def cont_def)
    next
      case (Cons c r')
      with tk ok nb show False by (auto simp: tail_ok_def)
    qed
  qed
qed

lemma decode_rune_append_good:
  "s \<noteq> [] \<Longrightarrow> \<not> (decode_rune s = (rune_error, 1)) \<Longrightarrow> decode_rune (s @ x) = decode_rune s"
  by (cases s) (auto simp: decode_rune_def Let_def tail_ok_append split: option.splits if_splits)

lemma decode_rune_append_start:
  "s \<noteq> [] \<Longrightarrow> starts_rune x \<Longrightarrow> decode_rune (s @ x) = decode_rune s"
proof (cases s)
  case (Cons c r)
  assume st: "starts_rune x"
  then have x': "case map byte x of [] \<Rightarrow> True | b # _ \<Rightarrow> \<not> cont b"
    by (auto simp: starts_rune_def split: list.splits)
  show ?thesis
  proof (cases "lead_range (byte c)")
    case None
    then show ?thesis by (simp add: Cons decode_rune_def Let_def)
  next
    case (Some p)
    obtain n lo hi where p: "p = (n, lo, hi)" by (cases p) auto
    note b = lead_range_bounds [OF Some [unfolded p]]
    show ?thesis
    proof (cases "tail_ok n lo hi (map byte r)")
      case True
      then show ?thesis by (simp add: Cons Some p decode_rune_def Let_def tail_ok_append)
    next
      case False
      with b x' have "\<not> tail_ok n lo hi (map byte r @ map byte x)"
        by (intro tail_bad_append) auto
      with False show ?thesis by (simp add: Cons Some p decode_rune_def Let_def)
    qed
  qed
qed simp

lemma decode_rune_width_le: "snd (decode_rune s) \<le> length s"
proof (cases s)
  case (Cons c r)
  show ?thesis
    using tail_ok_length by (fastforce simp: Cons decode_rune_def Let_def split: option.splits)
qed (simp add: decode_rune_def)

lemma decode_rune_take:
  assumes "snd (decode_rune s) \<le> k" "s \<noteq> []" "0 < k"
  shows "decode_rune (take k s) = decode_rune s"
proof (cases "decode_rune (take k s) = (rune_error, 1)")
  case False
  then show ?thesis
    using assms decode_rune_append_good [of "take k s" "drop k s"] by simp
next
  case True
  show ?thesis
  proof (cases s)
    case (Cons c r)
    obtain j where j: "k = Suc j" using assms(3) by (cases k) auto
    show ?thesis
    proof (cases "byte c < 128 \<or> lead_range (byte c) = None")
      case True
      then show ?thesis by (auto simp: Cons j decode_rune_def Let_def)
    next
      case False
      then obtain n lo hi where l: "lead_range (byte c) = Some (n, lo, hi)" by auto
      show ?thesis
      proof (cases "tail_ok n lo hi (map byte r)")
        case ok: True
        then have "snd (decode_rune s) = Suc n"
          using False l by (simp add: Cons decode_rune_def Let_def)
        with assms(1) j have "n \<le> j" by simp
        then have "take n (take j (map byte r)) = take n (map byte r)" by (simp add: min_def)
        with ok have "tail_ok n lo hi (map byte (take j r))"
          by (simp add: tail_ok_def take_map)
        with ok False l \<open>n \<le> j\<close> show ?thesis
          by (simp add: Cons j decode_rune_def Let_def take_map min_def)
      next
        case bad: False
        then have "\<not> tail_ok n lo hi (map byte (take j r))"
          by (metis append_take_drop_id map_append tail_ok_append)
        with bad False l show ?thesis by (simp add: Cons j decode_rune_def Let_def)
      qed
    qed
  qed (use assms in simp)
qed

text \<open>Cutting at a segment boundary keeps the segments.\<close>

lemma runes_concat_take: "runes (concat (map snd (take k (runes s)))) = take k (runes s)"
proof (induction k arbitrary: s)
  case (Suc k)
  show ?case
  proof (cases "s = []")
    case False
    define w where "w = snd (decode_rune s)"
    define rest where "rest = concat (map snd (take k (runes (drop w s))))"
    have w: "0 < w" "w \<le> length s"
      using False by (simp_all add: w_def decode_rune_width_pos decode_rune_width_le)
    have pre: "rest = take (length rest) (drop w s)"
    proof -
      have "concat (map snd (runes (drop w s))) =
          rest @ concat (map snd (drop k (runes (drop w s))))"
        by (simp add: rest_def flip: concat_append map_append)
      then show ?thesis by (metis append_eq_conv_conj concat_runes)
    qed
    then have eq: "take w s @ rest = take (w + length rest) s"
      by (metis take_add)
    have dec: "decode_rune (take w s @ rest) = decode_rune s"
      unfolding eq using False w by (intro decode_rune_take) (auto simp: w_def)
    have "runes (take w s @ rest) = (fst (decode_rune s), take w s) # runes rest"
      using w False by (subst runes_nonempty) (auto simp: dec simp flip: w_def)
    then show ?thesis
      using False Suc.IH [of "drop w s"] by (simp add: runes_nonempty rest_def flip: w_def)
  qed simp
qed simp

lemma runes_concat_drop: "runes (concat (map snd (drop k (runes s)))) = drop k (runes s)"
proof (induction k arbitrary: s)
  case (Suc k)
  then show ?case
    by (cases "s = []") (simp_all add: runes_nonempty)
qed simp

text \<open>Text that starts a rune is segmented on its own.\<close>

lemma runes_append: "starts_rune x \<Longrightarrow> runes (s @ x) = runes s @ runes x"
proof (induction s rule: runes.induct)
  case (1 s)
  show ?case
  proof (cases "s = []")
    case False
    have d: "decode_rune (s @ x) = decode_rune s"
      using False "1.prems" by (rule decode_rune_append_start)
    have "runes (s @ x) = (fst (decode_rune s), take (snd (decode_rune s)) s) #
        runes (drop (snd (decode_rune s)) s @ x)"
      using False decode_rune_width_le [of s] by (subst runes_nonempty) (auto simp: d)
    with "1.IH" [OF False "1.prems"] show ?thesis
      using False by (simp add: runes_nonempty)
  qed simp
qed

lemma rune_count_append: "starts_rune x \<Longrightarrow> rune_count (s @ x) = rune_count s + rune_count x"
  by (simp add: rune_count_def runes_append)

lemma utf8_valid_append: "starts_rune x \<Longrightarrow> utf8_valid (s @ x) \<longleftrightarrow> utf8_valid s \<and> utf8_valid x"
  by (simp add: utf8_valid_def runes_append)

lemma runes_segment_nonempty: "p \<in> set (runes s) \<Longrightarrow> snd p \<noteq> []"
proof (induction s rule: runes.induct)
  case (1 s)
  show ?case
  proof (cases "s = []")
    case False
    then have "p = (fst (decode_rune s), take (snd (decode_rune s)) s) \<or>
        p \<in> set (runes (drop (snd (decode_rune s)) s))"
      using "1.prems" by (simp add: runes_nonempty)
    then show ?thesis
      using "1.IH" [OF False] decode_rune_width_pos [OF False] False by auto
  qed (use 1 in simp)
qed

lemma rune_count_le_length: "rune_count s \<le> length s"
proof -
  have "length ps \<le> length (concat (map snd ps))"
    if "\<And>p. p \<in> set ps \<Longrightarrow> snd p \<noteq> []" for ps :: "(nat \<times> string) list"
    using that
  proof (induction ps)
    case (Cons p ps)
    have "snd p \<noteq> []" using Cons.prems by simp
    then have "1 \<le> length (snd p)" by (cases "snd p") auto
    with Cons.IH Cons.prems show ?case by auto
  qed simp
  from this [of "runes s"] show ?thesis
    using runes_segment_nonempty by (simp add: rune_count_def)
qed


section \<open>Cutting text at a byte limit\<close>

text \<open>\<open>for !utf8.ValidString(v) { v = v[:len(v)-1] }\<close>\<close>

function shrink_valid :: "string \<Rightarrow> string" where
  "shrink_valid v = (if utf8_valid v then v else shrink_valid (butlast v))"
  by pat_completeness auto
termination
  by (relation "measure length") (auto simp: length_greater_0_conv intro: diff_less)

declare shrink_valid.simps [simp del]

definition boundedText :: "string \<Rightarrow> nat \<Rightarrow> string" where
  "boundedText v limit = (if length v \<le> limit then v else shrink_valid (take limit v))"

definition MaxOperationalErrorBytes :: nat where
  "MaxOperationalErrorBytes = 16 * 1024"

definition boundedOperationalError :: "string \<Rightarrow> string \<Rightarrow> string" where
  "boundedOperationalError err fallback =
     (let message = (if err = [] then fallback else err)
      in if length message > MaxOperationalErrorBytes
         then shrink_valid (take MaxOperationalErrorBytes message) else message)"

lemma boundedOperationalError_eq:
  "boundedOperationalError err fallback =
     boundedText (if err = [] then fallback else err) MaxOperationalErrorBytes"
  by (auto simp: boundedOperationalError_def boundedText_def Let_def)

lemma shrink_valid_valid: "utf8_valid (shrink_valid v)"
proof (induction v rule: shrink_valid.induct)
  case (1 v)
  then show ?case by (cases "utf8_valid v") (simp_all add: shrink_valid.simps [of v])
qed

lemma shrink_valid_prefix: "\<exists>r. v = shrink_valid v @ r"
proof (induction v rule: shrink_valid.induct)
  case (1 v)
  show ?case
  proof (cases "utf8_valid v")
    case False
    then obtain r where r: "butlast v = shrink_valid (butlast v) @ r" using "1.IH" by blast
    from False have "v \<noteq> []" by auto
    then have "v = shrink_valid (butlast v) @ (r @ [last v])"
      using r by (metis append.assoc append_butlast_last_id)
    with False show ?thesis by (metis shrink_valid.simps)
  qed (simp add: shrink_valid.simps [of v])
qed

lemma shrink_valid_length: "length (shrink_valid v) \<le> length v"
  using shrink_valid_prefix [of v] by (metis le_add1 length_append)

text \<open>It is the longest valid prefix.\<close>

lemma shrink_valid_longest: "utf8_valid p \<Longrightarrow> v = p @ r \<Longrightarrow> length p \<le> length (shrink_valid v)"
proof (induction v arbitrary: r rule: shrink_valid.induct)
  case (1 v)
  show ?case
  proof (cases "utf8_valid v")
    case True
    then have "shrink_valid v = v" by (simp add: shrink_valid.simps [of v])
    with "1.prems"(2) show ?thesis by (metis le_add1 length_append)
  next
    case False
    with "1.prems" have "r \<noteq> []" by auto
    then have "butlast v = p @ butlast r" using "1.prems"(2) by (simp add: butlast_append)
    then have "length p \<le> length (shrink_valid (butlast v))" using "1.IH" False "1.prems"(1) by blast
    with False show ?thesis by (metis shrink_valid.simps)
  qed
qed

lemma boundedText_length: "length (boundedText v limit) \<le> limit"
  using shrink_valid_length [of "take limit v"] by (auto simp: boundedText_def)

lemma boundedText_prefix: "\<exists>r. v = boundedText v limit @ r"
proof (cases "length v \<le> limit")
  case False
  then show ?thesis
    using shrink_valid_prefix [of "take limit v"]
    by (metis append.assoc append_take_drop_id boundedText_def)
qed (simp add: boundedText_def)

lemma boundedText_nonempty: "boundedText v limit \<noteq> [] \<Longrightarrow> v \<noteq> []"
  using boundedText_prefix [of v limit] by auto

lemma boundedText_Nil [simp]: "boundedText [] limit = []"
  by (simp add: boundedText_def)

lemma decode_rune_width_le4: "snd (decode_rune s) \<le> 4"
  by (auto simp: decode_rune_def Let_def dest: lead_range_bounds split: list.splits option.splits)

lemma runes_segment_le4: "p \<in> set (runes s) \<Longrightarrow> length (snd p) \<le> 4"
proof (induction s rule: runes.induct)
  case (1 s)
  show ?case
  proof (cases "s = []")
    case False
    then have "p = (fst (decode_rune s), take (snd (decode_rune s)) s) \<or>
        p \<in> set (runes (drop (snd (decode_rune s)) s))"
      using "1.prems" by (simp add: runes_nonempty)
    then show ?thesis
      using "1.IH" [OF False] decode_rune_width_le4 [of s] by auto
  qed (use 1 in simp)
qed

text \<open>A list of short pieces can be cut close to any limit.\<close>

lemma cut_pieces:
  assumes "\<And>p. p \<in> set ps \<Longrightarrow> length p \<le> Suc m" "limit < length (concat ps)"
  shows "\<exists>k. length (concat (take k ps)) \<le> limit \<and> limit \<le> length (concat (take k ps)) + m"
  using assms
proof (induction ps arbitrary: limit)
  case (Cons p ps)
  show ?case
  proof (cases "length p \<le> limit")
    case True
    have "\<exists>k. length (concat (take k ps)) \<le> limit - length p
        \<and> limit - length p \<le> length (concat (take k ps)) + m"
      by (rule Cons.IH) (use Cons.prems True in auto)
    then obtain k where "length (concat (take k ps)) \<le> limit - length p"
        "limit - length p \<le> length (concat (take k ps)) + m" by blast
    with True show ?thesis by (intro exI [of _ "Suc k"]) auto
  next
    case False
    have "length p \<le> Suc m" using Cons.prems(1) by simp
    with False show ?thesis by (intro exI [of _ 0]) auto
  qed
qed simp

text \<open>Of valid text at most three bytes below the limit are lost.\<close>

lemma boundedText_tight:
  assumes "utf8_valid v" "limit < length v"
  shows "limit \<le> length (boundedText v limit) + 3"
proof -
  have "limit < length (concat (map snd (runes v)))" using assms(2) by simp
  then have "\<exists>k. length (concat (take k (map snd (runes v)))) \<le> limit
      \<and> limit \<le> length (concat (take k (map snd (runes v)))) + 3"
    by (intro cut_pieces) (auto dest: runes_segment_le4)
  then obtain k where k: "length (concat (take k (map snd (runes v)))) \<le> limit"
      "limit \<le> length (concat (take k (map snd (runes v)))) + 3" by blast
  define p where "p = concat (map snd (take k (runes v)))"
  have p: "length p \<le> limit" "limit \<le> length p + 3" using k by (simp_all add: p_def take_map)
  have "utf8_valid p"
    using assms(1) set_take_subset [of k "runes v"]
    by (auto simp: utf8_valid_def p_def runes_concat_take list_all_iff)
  have "v = p @ concat (map snd (drop k (runes v)))"
    by (simp add: p_def flip: concat_append map_append)
  then have "take limit v = p @ take (limit - length p) (concat (map snd (drop k (runes v))))"
    using p(1) by (metis append_take_drop_id take_all take_append)
  then have "length p \<le> length (shrink_valid (take limit v))"
    using \<open>utf8_valid p\<close> shrink_valid_longest by blast
  with p(2) assms(2) show ?thesis by (simp add: boundedText_def)
qed

section \<open>Trimming, searching and numerals\<close>

definition is_space :: "nat \<Rightarrow> bool" where
  "is_space r \<longleftrightarrow> r \<in> {9, 10, 11, 12, 13, 32, 133, 160, 5760, 8232, 8233, 8239, 8287, 12288}
     \<or> (8192 \<le> r \<and> r \<le> 8202)"

text \<open>\<open>strings.TrimSpace\<close> (Unicode White\_Space on both ends).\<close>

definition trim_segs :: "(nat \<times> string) list \<Rightarrow> (nat \<times> string) list" where
  "trim_segs ps = rev (dropWhile (is_space \<circ> fst) (rev (dropWhile (is_space \<circ> fst) ps)))"

definition TrimSpace :: "string \<Rightarrow> string" where
  "TrimSpace s = concat (map snd (trim_segs (runes s)))"

text \<open>\<open>strings.ToLower\<close> on ASCII letters.\<close>

definition lower_char :: "char \<Rightarrow> char" where
  "lower_char c = (if 65 \<le> byte c \<and> byte c \<le> 90 then char_of (byte c + 32) else c)"

abbreviation lower :: "string \<Rightarrow> string" where "lower \<equiv> map lower_char"

fun has_prefix :: "string \<Rightarrow> string \<Rightarrow> bool" where
  "has_prefix [] s = True"
| "has_prefix (p # ps) [] = False"
| "has_prefix (p # ps) (c # cs) = (p = c \<and> has_prefix ps cs)"

text \<open>\<open>strings.Cut(s, sep)\<close> for a one-byte separator and \<open>strings.Split\<close>.\<close>

fun cut_at :: "char \<Rightarrow> string \<Rightarrow> (string \<times> string) option" where
  "cut_at sep [] = None"
| "cut_at sep (c # cs) =
     (if c = sep then Some ([], cs)
      else map_option (\<lambda>(a, b). (c # a, b)) (cut_at sep cs))"

fun split_on :: "char \<Rightarrow> string \<Rightarrow> string list" where
  "split_on sep [] = [[]]"
| "split_on sep (c # cs) =
     (if c = sep then [] # split_on sep cs
      else case split_on sep cs of [] \<Rightarrow> [[c]] | w # ws \<Rightarrow> (c # w) # ws)"

fun join_with :: "string \<Rightarrow> string list \<Rightarrow> string" where
  "join_with sep [] = []"
| "join_with sep [w] = w"
| "join_with sep (w # ws) = w @ sep @ join_with sep ws"

definition is_digit :: "char \<Rightarrow> bool" where
  "is_digit c \<longleftrightarrow> 48 \<le> byte c \<and> byte c \<le> 57"

section \<open>Numbers and hex\<close>

text \<open>\<open>strconv.Itoa\<close>.\<close>

function utoa :: "nat \<Rightarrow> string" where
  "utoa n = (if n < 10 then [char_of (48 + n)] else utoa (n div 10) @ [char_of (48 + n mod 10)])"
  by pat_completeness auto
termination by (relation "measure id") auto

declare utoa.simps [simp del]

definition itoa :: "int \<Rightarrow> string" where
  "itoa i = (if i < 0 then CHR ''-'' # utoa (nat (- i)) else utoa (nat i))"

definition atoi_step :: "nat \<Rightarrow> char \<Rightarrow> nat" where
  "atoi_step a c = 10 * a + (byte c - 48)"

lemma utoa_digits: "c \<in> set (utoa n) \<Longrightarrow> is_digit c"
proof (induction n rule: utoa.induct)
  case (1 n)
  then show ?case
    by (subst (asm) (2) utoa.simps) (auto simp: is_digit_def byte_def split: if_splits)
qed

lemma atoi_digit [simp]: "d < 10 \<Longrightarrow> atoi_step a (char_of (48 + d)) = 10 * a + d"
  by (simp add: atoi_step_def byte_def)

lemma foldl_utoa: "foldl atoi_step 0 (utoa n) = n"
proof (induction n rule: utoa.induct)
  case (1 n)
  show ?case
  proof (cases "n < 10")
    case True
    then show ?thesis by (simp add: utoa.simps [of n])
  next
    case False
    then show ?thesis using 1 by (subst utoa.simps) simp
  qed
qed

lemma utoa_inj [simp]: "utoa m = utoa n \<longleftrightarrow> m = n"
  by (metis foldl_utoa)

lemma utoa_nonempty [simp]: "utoa n \<noteq> []"
  by (subst utoa.simps) simp

lemma itoa_inj_nonneg: "0 \<le> i \<Longrightarrow> 0 \<le> j \<Longrightarrow> itoa i = itoa j \<longleftrightarrow> i = j"
  by (auto simp: itoa_def)

text \<open>\<open>hex.EncodeToString\<close> and \<open>hex.DecodeString\<close>, which also reads upper case.\<close>

definition hex_digit :: "nat \<Rightarrow> char" where
  "hex_digit n = (if n < 10 then char_of (48 + n) else char_of (87 + n))"

definition unhex :: "char \<Rightarrow> nat option" where
  "unhex c =
     (if 48 \<le> byte c \<and> byte c \<le> 57 then Some (byte c - 48)
      else if 97 \<le> byte c \<and> byte c \<le> 102 then Some (byte c - 87)
      else if 65 \<le> byte c \<and> byte c \<le> 70 then Some (byte c - 55)
      else None)"

definition hex_encode :: "string \<Rightarrow> string" where
  "hex_encode s = concat (map (\<lambda>c. [hex_digit (byte c div 16), hex_digit (byte c mod 16)]) s)"

fun hex_decode :: "string \<Rightarrow> string option" where
  "hex_decode [] = Some []"
| "hex_decode [c] = None"
| "hex_decode (a # b # cs) =
     (case (unhex a, unhex b, hex_decode cs) of
        (Some h, Some l, Some r) \<Rightarrow> Some (char_of (16 * h + l) # r)
      | _ \<Rightarrow> None)"

lemma unhex_hex_digit [simp]: "n < 16 \<Longrightarrow> unhex (hex_digit n) = Some n"
  by (auto simp: unhex_def hex_digit_def byte_def)

lemma byte_less [simp]: "byte c < 256"
  by (simp add: byte_def)

lemma hex_decode_encode [simp]: "hex_decode (hex_encode s) = Some s"
proof (induction s)
  case Nil
  then show ?case by (simp add: hex_encode_def)
next
  case (Cons c s)
  have "byte c div 16 < 16" using byte_less [of c] by (simp add: less_mult_imp_div_less)
  moreover have "char_of (16 * (byte c div 16) + byte c mod 16) = c"
    by (simp add: mult.commute byte_def)
  ultimately show ?case using Cons by (simp add: hex_encode_def)
qed

lemma length_hex_encode [simp]: "length (hex_encode s) = 2 * length s"
  by (induction s) (simp_all add: hex_encode_def)

lemma hex_encode_Nil [simp]: "hex_encode s = [] \<longleftrightarrow> s = []"
  by (metis length_0_conv length_hex_encode mult_is_0 zero_neq_numeral)

lemma hex_encode_inj [simp]: "hex_encode s = hex_encode t \<longleftrightarrow> s = t"
  by (metis hex_decode_encode option.inject)

lemma length_hex_decode: "hex_decode s = Some t \<Longrightarrow> length s = 2 * length t"
  by (induction s arbitrary: t rule: hex_decode.induct) (auto split: option.splits)

section \<open>ASCII text\<close>

lemma runes_ascii: "byte c < 128 \<Longrightarrow> runes (c # s) = (byte c, [c]) # runes s"
  by (subst runes.simps) (simp add: decode_rune_def)

lemma runes_ascii_all: "\<forall>c\<in>set s. byte c < 128 \<Longrightarrow> runes s = map (\<lambda>c. (byte c, [c])) s"
  by (induction s) (simp_all add: runes_ascii)

lemma utf8_valid_ascii: "\<forall>c\<in>set s. byte c < 128 \<Longrightarrow> utf8_valid s"
  by (auto simp: utf8_valid_def runes_ascii_all list_all_iff bad_rune_def rune_error_def)

lemma rune_count_ascii: "\<forall>c\<in>set s. byte c < 128 \<Longrightarrow> rune_count s = length s"
  by (simp add: rune_count_def runes_ascii_all)

end
