(* ===== verification/Message.thy ===== *)
theory Message
  imports GoStrings
begin

text \<open>
  The destination-neutral notification of \<open>internal/delivery/delivery.go\<close>, which storage
  persists, the daemon builds from an event and the delivery adapters render.

  \<open>Mentions\<close> distinguishes Go's nil slice (inherit the destination's mentions) from the
  empty one (suppress them), so it is an option.  \<open>Time\<close> is in milliseconds, \<open>None\<close> is the
  zero time.
\<close>

datatype Level = LevelUnset | LevelInfo | LevelSuccess | LevelWarn | LevelFailure | LevelCritical

record Field =
  fld_Name :: string
  fld_Value :: string
  fld_Inline :: bool

record Author =
  au_Name :: string
  au_URL :: string
  au_IconURL :: string

record Message =
  msg_Title :: string
  msg_Message :: string
  msg_Summary :: string
  msg_Details :: string
  msg_URL :: string
  msg_Image :: string
  msg_Thumbnail :: string
  msg_Author :: Author
  msg_Level :: Level
  msg_Color :: int
  msg_Fields :: "Field list"
  msg_Footer :: string
  msg_FooterIcon :: string
  msg_Mentions :: "string list option"
  msg_Time :: "int option"

definition empty_author :: Author where
  "empty_author = \<lparr>au_Name = '''', au_URL = '''', au_IconURL = ''''\<rparr>"

text \<open>Go's zero value, \<open>delivery.Message{}\<close>.\<close>

definition empty_message :: Message where
  "empty_message = \<lparr>msg_Title = '''', msg_Message = '''', msg_Summary = '''', msg_Details = '''',
     msg_URL = '''', msg_Image = '''', msg_Thumbnail = '''', msg_Author = empty_author,
     msg_Level = LevelUnset, msg_Color = 0, msg_Fields = [], msg_Footer = '''',
     msg_FooterIcon = '''', msg_Mentions = None, msg_Time = None\<rparr>"

end
