(* ===== verification/Json.thy ===== *)
theory Json
  imports GoStrings
begin

text \<open>
  \<open>json.Valid\<close> of Go's \<open>encoding/json\<close>, as its scanner is written: one state per expected
  token and a stack of the open arrays and objects, stepped byte by byte, with at most
  10000 open at a time.  The program calls it on every state, checkpoint and destination
  document before it stores or sends it.
\<close>

datatype json_mode =
    BeginValue | BeginValueOrEmpty | BeginString | BeginStringOrEmpty
  | EndValue | EndTop
  | InString | InStringEsc | InStringEscU nat
  | Neg | Zero | IntDigits | Dot | FracDigits | ExpMark | ExpSign | ExpDigits
  | Literal string

datatype json_ctx = ObjectKey | ObjectValue | ArrayValue

type_synonym json_scan = "json_mode \<times> json_ctx list"

definition json_ws :: "char \<Rightarrow> bool" where
  "json_ws c \<longleftrightarrow> byte c = 32 \<or> byte c = 9 \<or> byte c = 10 \<or> byte c = 13"

definition is_hex :: "char \<Rightarrow> bool" where
  "is_hex c \<longleftrightarrow> is_digit c \<or> (97 \<le> byte c \<and> byte c \<le> 102) \<or> (65 \<le> byte c \<and> byte c \<le> 70)"

definition json_max_depth :: nat where
  "json_max_depth = 10000"

definition push_ctx :: "json_ctx \<Rightarrow> json_mode \<Rightarrow> json_ctx list \<Rightarrow> json_scan option" where
  "push_ctx x m st = (if length st < json_max_depth then Some (m, x # st) else None)"

definition pop_ctx :: "json_ctx list \<Rightarrow> json_scan" where
  "pop_ctx st = (case tl st of [] \<Rightarrow> (EndTop, []) | st' \<Rightarrow> (EndValue, st'))"

text \<open>What may follow a complete value.\<close>

definition end_value :: "json_ctx list \<Rightarrow> char \<Rightarrow> json_scan option" where
  "end_value st c =
     (case st of
        [] \<Rightarrow> if json_ws c then Some (EndTop, []) else None
      | x # st' \<Rightarrow>
        if json_ws c then Some (EndValue, st)
        else case x of
          ObjectKey \<Rightarrow> if c = CHR '':'' then Some (BeginValue, ObjectValue # st') else None
        | ObjectValue \<Rightarrow>
            if c = CHR '','' then Some (BeginString, ObjectKey # st')
            else if c = CHR ''}'' then Some (pop_ctx st) else None
        | ArrayValue \<Rightarrow>
            if c = CHR '','' then Some (BeginValue, st)
            else if c = CHR '']'' then Some (pop_ctx st) else None)"

definition begin_value :: "json_ctx list \<Rightarrow> char \<Rightarrow> json_mode \<Rightarrow> json_scan option" where
  "begin_value st c stay =
     (if json_ws c then Some (stay, st)
      else if c = CHR ''{'' then push_ctx ObjectKey BeginStringOrEmpty st
      else if c = CHR ''['' then push_ctx ArrayValue BeginValueOrEmpty st
      else if byte c = 34 then Some (InString, st)
      else if c = CHR ''-'' then Some (Neg, st)
      else if c = CHR ''0'' then Some (Zero, st)
      else if is_digit c then Some (IntDigits, st)
      else if c = CHR ''t'' then Some (Literal ''rue'', st)
      else if c = CHR ''f'' then Some (Literal ''alse'', st)
      else if c = CHR ''n'' then Some (Literal ''ull'', st)
      else None)"

fun json_step :: "json_scan \<Rightarrow> char \<Rightarrow> json_scan option" where
  "json_step (BeginValue, st) c = begin_value st c BeginValue"
| "json_step (BeginValueOrEmpty, st) c =
     (if c = CHR '']'' then end_value st c else begin_value st c BeginValueOrEmpty)"
| "json_step (BeginString, st) c =
     (if json_ws c then Some (BeginString, st)
      else if byte c = 34 then Some (InString, st) else None)"
| "json_step (BeginStringOrEmpty, st) c =
     (if json_ws c then Some (BeginStringOrEmpty, st)
      else if c = CHR ''}'' then end_value (ObjectValue # tl st) c
      else if byte c = 34 then Some (InString, st) else None)"
| "json_step (EndValue, st) c = end_value st c"
| "json_step (EndTop, st) c = (if json_ws c then Some (EndTop, st) else None)"
| "json_step (InString, st) c =
     (if byte c = 34 then Some (EndValue, st)
      else if byte c = 92 then Some (InStringEsc, st)
      else if byte c < 32 then None else Some (InString, st))"
| "json_step (InStringEsc, st) c =
     (if c \<in> set ''bfnrt/'' \<or> byte c = 34 \<or> byte c = 92 then Some (InString, st)
      else if c = CHR ''u'' then Some (InStringEscU 3, st) else None)"
| "json_step (InStringEscU n, st) c =
     (if is_hex c then Some (case n of 0 \<Rightarrow> (InString, st) | Suc m \<Rightarrow> (InStringEscU m, st)) else None)"
| "json_step (Neg, st) c =
     (if c = CHR ''0'' then Some (Zero, st) else if is_digit c then Some (IntDigits, st) else None)"
| "json_step (Zero, st) c =
     (if c = CHR ''.'' then Some (Dot, st)
      else if c = CHR ''e'' \<or> c = CHR ''E'' then Some (ExpMark, st) else end_value st c)"
| "json_step (IntDigits, st) c =
     (if is_digit c then Some (IntDigits, st)
      else if c = CHR ''.'' then Some (Dot, st)
      else if c = CHR ''e'' \<or> c = CHR ''E'' then Some (ExpMark, st) else end_value st c)"
| "json_step (Dot, st) c = (if is_digit c then Some (FracDigits, st) else None)"
| "json_step (FracDigits, st) c =
     (if is_digit c then Some (FracDigits, st)
      else if c = CHR ''e'' \<or> c = CHR ''E'' then Some (ExpMark, st) else end_value st c)"
| "json_step (ExpMark, st) c =
     (if c = CHR ''+'' \<or> c = CHR ''-'' then Some (ExpSign, st)
      else if is_digit c then Some (ExpDigits, st) else None)"
| "json_step (ExpSign, st) c = (if is_digit c then Some (ExpDigits, st) else None)"
| "json_step (ExpDigits, st) c =
     (if is_digit c then Some (ExpDigits, st) else end_value st c)"
| "json_step (Literal [], st) c = end_value st c"
| "json_step (Literal (x # xs), st) c = (if c = x then Some (Literal xs, st) else None)"

fun json_scan_all :: "json_scan \<Rightarrow> string \<Rightarrow> json_scan option" where
  "json_scan_all x [] = Some x"
| "json_scan_all x (c # cs) =
     (case json_step x c of None \<Rightarrow> None | Some y \<Rightarrow> json_scan_all y cs)"

text \<open>At the end of the input the scanner is stepped over one space.\<close>

definition json_valid :: "string \<Rightarrow> bool" where
  "json_valid s =
     (case json_scan_all (BeginValue, []) (s @ '' '') of None \<Rightarrow> False
      | Some (m, st) \<Rightarrow> m = EndTop)"

lemma json_valid_nonempty: "json_valid s \<Longrightarrow> s \<noteq> []"
  by (auto simp: json_valid_def begin_value_def json_ws_def byte_def)

lemma json_scan_all_append:
  "json_scan_all x (a @ b) =
     (case json_scan_all x a of None \<Rightarrow> None | Some y \<Rightarrow> json_scan_all y b)"
  by (induction x a rule: json_scan_all.induct) (auto split: option.splits)

lemma json_valid_null: "json_valid ''null''"
  by (simp add: json_valid_def begin_value_def end_value_def json_ws_def byte_def is_digit_def)

lemma json_valid_braces: "json_valid ''{}''"
  by (simp add: json_valid_def begin_value_def end_value_def json_ws_def byte_def is_digit_def
      push_ctx_def pop_ctx_def json_max_depth_def)

end
