(* ===== verification/Store.thy ===== *)
theory Store
  imports Prelude Message Json
begin

text \<open>
  The durable state of \<open>internal/storage\<close>: one record per table of \<open>schema.sql\<close>, with the
  columns in the schema's order, and \<open>store\<close>, the database.  A \<open>NULL\<close>able column is an
  option; a time is its \<open>UnixMilli\<close>; a \<open>CHECK(... IN ...)\<close> column is a datatype.  The JSON
  ACK of a ledger row is stored as the value it encodes.

  The handlers of the component theories are functions of the store.  Here are the
  statements several of them share, with the lemmas about them, and \<open>store_inv\<close>, the
  invariant every handler keeps: the schema's keys and references, and the relations between
  tables that the fence, the ledger and the health state machine rely on.
\<close>

section \<open>Tables\<close>

datatype deployment_status = DepActive | DepInactive | DepArchived
datatype generation_status = GenActive | GenRetired
datatype health_status =
  HealthStarting | HealthHealthy | HealthFailing | HealthUnhealthy | HealthStopped
datatype run_status = RunSucceeded | RunFailed | RunDeferred
datatype delivery_status = DlvPending | DlvSending | DlvDelivered | DlvDead
datatype event_kind = KindMonitor | KindHealth
datatype sweep = SweepOutbox | SweepTransactions

record TransactionACK =
  ack_DeploymentID :: string
  ack_Generation :: int
  ack_Sequence :: int
  ack_PayloadHash :: string
  ack_ResultRevision :: int
  ack_Status :: string

record artifact_row =
  a_id :: string
  a_content_hash :: string
  a_path :: string
  a_describe :: string
  a_created_at :: int

record deployment_row =
  d_id :: string
  d_name :: string
  d_info_name :: string
  d_source_dir :: string
  d_status :: deployment_status
  d_artifact :: string
  d_config_revision :: int
  d_config_hash :: string
  d_threshold :: int
  d_max_events :: int
  d_retention_ms :: int
  d_active :: int
  d_state :: string
  d_state_revision :: int
  d_created_at :: int
  d_updated_at :: int
  d_expires_at :: "int option"
  d_archived_at :: "int option"

record generation_row =
  g_rowid :: int
  g_deployment :: string
  g_generation :: int
  g_token_hash :: string
  g_artifact :: string
  g_config_revision :: int
  g_fingerprint :: string
  g_status :: generation_status
  g_last_seq :: int
  g_started_at :: int
  g_ready_at :: "int option"
  g_stopped_at :: "int option"
  g_stop_reason :: string
  g_stop_error :: string
  g_retired_at :: "int option"

record health_row =
  h_deployment :: string
  h_generation :: int
  h_status :: health_status
  h_failures :: int
  h_last_run_status :: "run_status option"
  h_last_run_at :: "int option"
  h_last_duration_ms :: "int option"
  h_last_success_at :: "int option"
  h_last_failure_at :: "int option"
  h_last_error :: string
  h_notified :: bool
  h_updated_at :: int

record checkpoint_row =
  c_deployment :: string
  c_source :: string
  c_value :: string
  c_value_hash :: string
  c_generation :: int
  c_seq :: int
  c_updated_at :: int

record transaction_row =
  t_deployment :: string
  t_generation :: int
  t_seq :: int
  t_payload_hash :: string
  t_base :: int
  t_result :: int
  t_ack :: TransactionACK
  t_committed_at :: int

record binding_row =
  b_id :: string
  b_revision :: int
  b_deployment :: string
  b_config :: string
  b_config_hash :: string
  b_created_at :: int
  b_retired_at :: "int option"

record event_row =
  e_rowid :: int
  e_outbox :: string
  e_deployment :: string
  e_kind :: event_kind
  e_generation :: int
  e_seq :: "int option"
  e_event :: string
  e_payload :: string
  e_payload_hash :: string
  e_created_at :: int

record delivery_row =
  v_rowid :: int
  v_outbox :: string
  v_deployment :: string
  v_destination :: string
  v_revision :: int
  v_status :: delivery_status
  v_attempts :: int
  v_next_at :: int
  v_owner :: "string option"
  v_expires :: "int option"
  v_delivered_at :: "int option"
  v_error :: string
  v_dead_at :: "int option"

record cursor_row =
  m_name :: sweep
  m_after :: int
  m_through :: int
  m_next :: int
  m_generation :: int
  m_seq :: int

record store =
  artifacts :: "artifact_row list"
  deployments :: "deployment_row list"
  generations :: "generation_row list"
  healths :: "health_row list"
  checkpoints :: "checkpoint_row list"
  transactions :: "transaction_row list"
  bindings :: "binding_row list"
  events :: "event_row list"
  deliveries :: "delivery_row list"
  cursors :: "cursor_row list"

definition empty_store :: store where
  "empty_store = \<lparr>artifacts = [], deployments = [], generations = [], healths = [],
     checkpoints = [], transactions = [], bindings = [], events = [], deliveries = [],
     cursors = []\<rparr>"

text \<open>
  The two standard-library functions whose values the store only compares and keeps:
  \<open>crypto/sha256\<close> and \<open>json.Marshal\<close> of a message.  Every theorem holds for any functions in
  their place.
\<close>

record env =
  sha256 :: "string \<Rightarrow> string"
  marshal_message :: "Message \<Rightarrow> string"

section \<open>Keys\<close>

abbreviation gen_key :: "generation_row \<Rightarrow> string \<times> int" where
  "gen_key g \<equiv> (g_deployment g, g_generation g)"

abbreviation cp_key :: "checkpoint_row \<Rightarrow> string \<times> string" where
  "cp_key c \<equiv> (c_deployment c, c_source c)"

abbreviation tx_key :: "transaction_row \<Rightarrow> string \<times> int \<times> int" where
  "tx_key t \<equiv> (t_deployment t, t_generation t, t_seq t)"

abbreviation binding_key :: "binding_row \<Rightarrow> string \<times> string \<times> int" where
  "binding_key b \<equiv> (b_deployment b, b_id b, b_revision b)"

abbreviation event_key :: "event_row \<Rightarrow> string \<times> event_kind \<times> string" where
  "event_key e \<equiv> (e_deployment e, e_kind e, e_event e)"

abbreviation delivery_key :: "delivery_row \<Rightarrow> string \<times> string" where
  "delivery_key v \<equiv> (v_outbox v, v_destination v)"

section \<open>Shared statements\<close>

definition find_deployment :: "string \<Rightarrow> store \<Rightarrow> deployment_row option" where
  "find_deployment i s = find (\<lambda>d. d_id d = i) (deployments s)"

definition find_generation :: "string \<Rightarrow> int \<Rightarrow> store \<Rightarrow> generation_row option" where
  "find_generation i n s = find (\<lambda>g. g_deployment g = i \<and> g_generation g = n) (generations s)"

definition find_health :: "string \<Rightarrow> store \<Rightarrow> health_row option" where
  "find_health i s = find (\<lambda>h. h_deployment h = i) (healths s)"

definition find_transaction :: "string \<Rightarrow> int \<Rightarrow> int \<Rightarrow> store \<Rightarrow> transaction_row option" where
  "find_transaction i n q s =
     find (\<lambda>t. t_deployment t = i \<and> t_generation t = n \<and> t_seq t = q) (transactions s)"

text \<open>
  The fence: \<open>status='retired', retired_at=?, stopped_at=COALESCE(stopped_at,?),
  stop_reason=CASE WHEN stop_reason='' THEN ? ELSE stop_reason END\<close>.  Recovery and the
  checkpoint clear keep an earlier \<open>retired_at\<close>.
\<close>

definition retire :: "int \<Rightarrow> string \<Rightarrow> generation_row \<Rightarrow> generation_row" where
  "retire now reason g = g\<lparr>g_status := GenRetired, g_retired_at := Some now,
     g_stopped_at := coalesce (g_stopped_at g) now,
     g_stop_reason := default_text (g_stop_reason g) reason\<rparr>"

definition retire_once :: "int \<Rightarrow> string \<Rightarrow> generation_row \<Rightarrow> generation_row" where
  "retire_once now reason g = g\<lparr>g_status := GenRetired,
     g_retired_at := coalesce (g_retired_at g) now,
     g_stopped_at := coalesce (g_stopped_at g) now,
     g_stop_reason := default_text (g_stop_reason g) reason\<rparr>"

definition retire_active :: "string \<Rightarrow> int \<Rightarrow> string \<Rightarrow> store \<Rightarrow> store" where
  "retire_active i now reason s = s\<lparr>generations :=
     update_where (\<lambda>g. g_deployment g = i \<and> g_status g = GenActive) (retire now reason)
       (generations s)\<rparr>"

definition new_health :: "string \<Rightarrow> int \<Rightarrow> health_status \<Rightarrow> int \<Rightarrow> health_row" where
  "new_health i n st now = \<lparr>h_deployment = i, h_generation = n, h_status = st, h_failures = 0,
     h_last_run_status = None, h_last_run_at = None, h_last_duration_ms = None,
     h_last_success_at = None, h_last_failure_at = None, h_last_error = '''',
     h_notified = False, h_updated_at = now\<rparr>"

definition ensureDeploymentHealth :: "string \<Rightarrow> int \<Rightarrow> health_status \<Rightarrow> int \<Rightarrow> store \<Rightarrow> store" where
  "ensureDeploymentHealth i n st now s = s\<lparr>healths :=
     upsert h_deployment (new_health i n st now)
       (\<lambda>h. h\<lparr>h_generation := n, h_status := st, h_updated_at := now\<rparr>) (healths s)\<rparr>"

definition requireOneRow :: "nat \<Rightarrow> string \<Rightarrow> go_error option" where
  "requireOneRow rows operation =
     (if rows \<noteq> 1 then Some (Errorf (operation @ '': concurrent mutation'')) else None)"

text \<open>What makes an insert into \<open>outbox_events\<close> fail: its id, or its deployment, kind and event id.\<close>

definition event_conflict :: "string \<Rightarrow> string \<times> event_kind \<times> string \<Rightarrow> store \<Rightarrow> bool" where
  "event_conflict outbox key s = exists_where (\<lambda>e. e_outbox e = outbox \<or> event_key e = key) (events s)"

section \<open>What the statements keep\<close>

lemma retire_sel [simp]:
  "g_rowid (retire now r g) = g_rowid g" "g_deployment (retire now r g) = g_deployment g"
  "g_generation (retire now r g) = g_generation g" "g_last_seq (retire now r g) = g_last_seq g"
  "g_token_hash (retire now r g) = g_token_hash g" "g_status (retire now r g) = GenRetired"
  "g_retired_at (retire now r g) = Some now"
  by (simp_all add: retire_def)

lemma retire_once_sel [simp]:
  "g_rowid (retire_once now r g) = g_rowid g" "g_deployment (retire_once now r g) = g_deployment g"
  "g_generation (retire_once now r g) = g_generation g"
  "g_last_seq (retire_once now r g) = g_last_seq g"
  "g_token_hash (retire_once now r g) = g_token_hash g"
  "g_status (retire_once now r g) = GenRetired"
  "g_retired_at (retire_once now r g) = coalesce (g_retired_at g) now"
  by (simp_all add: retire_once_def)

lemma new_health_sel [simp]:
  "h_deployment (new_health i n st now) = i" "h_generation (new_health i n st now) = n"
  "h_status (new_health i n st now) = st" "h_failures (new_health i n st now) = 0"
  "\<not> h_notified (new_health i n st now)"
  by (simp_all add: new_health_def)

lemma retire_active_tables [simp]:
  "artifacts (retire_active i now r s) = artifacts s"
  "deployments (retire_active i now r s) = deployments s"
  "healths (retire_active i now r s) = healths s"
  "checkpoints (retire_active i now r s) = checkpoints s"
  "transactions (retire_active i now r s) = transactions s"
  "bindings (retire_active i now r s) = bindings s"
  "events (retire_active i now r s) = events s"
  "deliveries (retire_active i now r s) = deliveries s"
  "cursors (retire_active i now r s) = cursors s"
  by (simp_all add: retire_active_def)

lemma ensureDeploymentHealth_tables [simp]:
  "artifacts (ensureDeploymentHealth i n st now s) = artifacts s"
  "deployments (ensureDeploymentHealth i n st now s) = deployments s"
  "generations (ensureDeploymentHealth i n st now s) = generations s"
  "checkpoints (ensureDeploymentHealth i n st now s) = checkpoints s"
  "transactions (ensureDeploymentHealth i n st now s) = transactions s"
  "bindings (ensureDeploymentHealth i n st now s) = bindings s"
  "events (ensureDeploymentHealth i n st now s) = events s"
  "deliveries (ensureDeploymentHealth i n st now s) = deliveries s"
  "cursors (ensureDeploymentHealth i n st now s) = cursors s"
  by (simp_all add: ensureDeploymentHealth_def)

lemma find_deploymentD: "find_deployment i s = Some d \<Longrightarrow> d \<in> set (deployments s) \<and> d_id d = i"
  by (auto simp: find_deployment_def dest: find_SomeD)

lemma find_generationD:
  "find_generation i n s = Some g \<Longrightarrow>
   g \<in> set (generations s) \<and> g_deployment g = i \<and> g_generation g = n"
  by (auto simp: find_generation_def dest: find_SomeD)

lemma find_healthD: "find_health i s = Some h \<Longrightarrow> h \<in> set (healths s) \<and> h_deployment h = i"
  by (auto simp: find_health_def dest: find_SomeD)

lemma find_transactionD:
  "find_transaction i n q s = Some t \<Longrightarrow> t \<in> set (transactions s) \<and> tx_key t = (i, n, q)"
  by (auto simp: find_transaction_def dest: find_SomeD)

section \<open>The invariant\<close>

text \<open>Primary keys, \<open>UNIQUE\<close> constraints and rowids.\<close>

definition keys_ok :: "store \<Rightarrow> bool" where
  "keys_ok s \<longleftrightarrow>
     uniq d_id (deployments s) \<and> uniq d_name (deployments s) \<and>
     uniq gen_key (generations s) \<and> uniq g_rowid (generations s) \<and>
     uniq h_deployment (healths s) \<and> uniq cp_key (checkpoints s) \<and>
     uniq tx_key (transactions s) \<and> uniq binding_key (bindings s) \<and>
     uniq e_outbox (events s) \<and> uniq event_key (events s) \<and> uniq e_rowid (events s) \<and>
     uniq delivery_key (deliveries s) \<and> uniq v_rowid (deliveries s) \<and>
     uniq m_name (cursors s)"

text \<open>Foreign keys.\<close>

definition refs_ok :: "store \<Rightarrow> bool" where
  "refs_ok s \<longleftrightarrow>
     g_deployment ` set (generations s) \<subseteq> d_id ` set (deployments s) \<and>
     h_deployment ` set (healths s) = d_id ` set (deployments s) \<and>
     c_deployment ` set (checkpoints s) \<subseteq> d_id ` set (deployments s) \<and>
     b_deployment ` set (bindings s) \<subseteq> d_id ` set (deployments s) \<and>
     (\<lambda>t. (t_deployment t, t_generation t)) ` set (transactions s) \<subseteq> gen_key ` set (generations s) \<and>
     e_deployment ` set (events s) \<subseteq> d_id ` set (deployments s) \<and>
     (\<forall>e\<in>set (events s). (e_seq e = None \<longleftrightarrow> e_kind e = KindHealth) \<and>
        (\<forall>q. e_seq e = Some q \<longrightarrow>
           (e_deployment e, e_generation e, q) \<in> tx_key ` set (transactions s))) \<and>
     (\<lambda>v. (v_outbox v, v_deployment v)) ` set (deliveries s)
       \<subseteq> (\<lambda>e. (e_outbox e, e_deployment e)) ` set (events s) \<and>
     (\<lambda>v. (v_deployment v, v_destination v, v_revision v)) ` set (deliveries s)
       \<subseteq> binding_key ` set (bindings s)"

text \<open>
  The generation fence.  An active generation row is the one its deployment points at, so a
  deployment has at most one; a deployment that is not active points at none.
\<close>

definition fence_ok :: "store \<Rightarrow> bool" where
  "fence_ok s \<longleftrightarrow>
     (\<forall>d\<in>set (deployments s).
        0 \<le> d_active d \<and> (d_status d \<noteq> DepActive \<longrightarrow> d_active d = 0) \<and>
        (0 < d_active d \<longrightarrow> (d_id d, d_active d) \<in> gen_key ` set (generations s))) \<and>
     (\<forall>g\<in>set (generations s).
        0 < g_generation g \<and> (g_status g = GenActive \<longleftrightarrow> g_retired_at g = None) \<and>
        (g_status g = GenActive \<longrightarrow>
           (g_deployment g, g_generation g) \<in> (\<lambda>d. (d_id d, d_active d)) ` set (deployments s)))"

text \<open>
  The ledger.  A receipt is numbered within its generation's sequence, holds the ACK it
  answers, and ends at a revision its deployment has reached; no two receipts of a deployment
  end at the same revision; an active generation has a receipt for every number up to its last.
\<close>

definition ledger_ok :: "store \<Rightarrow> bool" where
  "ledger_ok s \<longleftrightarrow>
     (\<forall>d\<in>set (deployments s). 0 \<le> d_state_revision d) \<and>
     (\<forall>g\<in>set (generations s). 0 \<le> g_last_seq g \<and>
        (g_status g = GenActive \<longrightarrow>
           (\<forall>q. 1 \<le> q \<and> q \<le> g_last_seq g \<longrightarrow>
              (g_deployment g, g_generation g, q) \<in> tx_key ` set (transactions s)))) \<and>
     (\<forall>t\<in>set (transactions s).
        0 \<le> t_base t \<and> t_result t = t_base t + 1 \<and> 1 \<le> t_seq t \<and>
        (\<forall>g\<in>set (generations s). gen_key g = (t_deployment t, t_generation t) \<longrightarrow>
           t_seq t \<le> g_last_seq g) \<and>
        (\<forall>d\<in>set (deployments s). d_id d = t_deployment t \<longrightarrow>
           t_result t \<le> d_state_revision d) \<and>
        t_ack t = \<lparr>ack_DeploymentID = t_deployment t, ack_Generation = t_generation t,
          ack_Sequence = t_seq t, ack_PayloadHash = hex_encode (t_payload_hash t),
          ack_ResultRevision = t_result t, ack_Status = ''accepted''\<rparr>) \<and>
     uniq (\<lambda>t. (t_deployment t, t_result t)) (transactions s)"

text \<open>
  Health.  The row follows the fence, its status agrees with the failure counter and the
  deployment's threshold, and the notification latch is set only while there are failures.
\<close>

definition health_row_ok :: "deployment_row \<Rightarrow> health_row \<Rightarrow> bool" where
  "health_row_ok d h \<longleftrightarrow>
     0 \<le> h_failures h \<and> 0 < d_threshold d \<and>
     (h_generation h = 0 \<or> h_generation h = d_active d) \<and>
     (h_notified h \<longrightarrow> 0 < h_failures h) \<and>
     (d_status d \<noteq> DepActive \<longrightarrow> h_status h = HealthStopped) \<and>
     (h_status h = HealthHealthy \<longrightarrow> h_failures h = 0) \<and>
     (h_status h = HealthFailing \<longrightarrow> 0 < h_failures h \<and> h_failures h < d_threshold d) \<and>
     (h_status h = HealthUnhealthy \<longrightarrow> d_threshold d \<le> h_failures h)"

definition health_ok :: "store \<Rightarrow> bool" where
  "health_ok s \<longleftrightarrow>
     (\<forall>d\<in>set (deployments s). \<forall>h\<in>set (healths s). h_deployment h = d_id d \<longrightarrow> health_row_ok d h)"

text \<open>
  Deliveries and maintenance.  A lease is held exactly while a delivery is being sent;
  \<open>delivered_at\<close> and \<open>dead_at\<close> mark the two terminal states.
\<close>

definition delivery_row_ok :: "delivery_row \<Rightarrow> bool" where
  "delivery_row_ok v \<longleftrightarrow>
     0 \<le> v_attempts v \<and>
     (v_status v = DlvSending \<longleftrightarrow> v_owner v \<noteq> None) \<and> (v_status v = DlvSending \<longleftrightarrow> v_expires v \<noteq> None) \<and>
     (v_status v = DlvDelivered \<longleftrightarrow> v_delivered_at v \<noteq> None) \<and>
     (v_status v = DlvDead \<longleftrightarrow> v_dead_at v \<noteq> None)"

definition deliveries_ok :: "store \<Rightarrow> bool" where
  "deliveries_ok s \<longleftrightarrow> (\<forall>v\<in>set (deliveries s). delivery_row_ok v)"

definition store_inv :: "store \<Rightarrow> bool" where
  "store_inv s \<longleftrightarrow>
     keys_ok s \<and> refs_ok s \<and> fence_ok s \<and> ledger_ok s \<and> health_ok s \<and> deliveries_ok s"

lemmas store_parts = keys_ok_def refs_ok_def fence_ok_def ledger_ok_def health_ok_def
  deliveries_ok_def

lemma store_invD:
  assumes "store_inv s"
  shows "keys_ok s" "refs_ok s" "fence_ok s" "ledger_ok s" "health_ok s" "deliveries_ok s"
  using assms by (simp_all add: store_inv_def)

lemma store_inv_empty: "store_inv empty_store"
  by (simp add: store_inv_def store_parts empty_store_def)

text \<open>Which tables each part reads.\<close>

lemma part_frames [simp]:
  "fence_ok (s\<lparr>artifacts := a\<rparr>) = fence_ok s" "fence_ok (s\<lparr>healths := h\<rparr>) = fence_ok s"
  "fence_ok (s\<lparr>checkpoints := c\<rparr>) = fence_ok s" "fence_ok (s\<lparr>transactions := t\<rparr>) = fence_ok s"
  "fence_ok (s\<lparr>bindings := b\<rparr>) = fence_ok s" "fence_ok (s\<lparr>events := e\<rparr>) = fence_ok s"
  "fence_ok (s\<lparr>deliveries := v\<rparr>) = fence_ok s" "fence_ok (s\<lparr>cursors := m\<rparr>) = fence_ok s"
  "ledger_ok (s\<lparr>artifacts := a\<rparr>) = ledger_ok s" "ledger_ok (s\<lparr>healths := h\<rparr>) = ledger_ok s"
  "ledger_ok (s\<lparr>checkpoints := c\<rparr>) = ledger_ok s" "ledger_ok (s\<lparr>bindings := b\<rparr>) = ledger_ok s"
  "ledger_ok (s\<lparr>events := e\<rparr>) = ledger_ok s" "ledger_ok (s\<lparr>deliveries := v\<rparr>) = ledger_ok s"
  "ledger_ok (s\<lparr>cursors := m\<rparr>) = ledger_ok s"
  "health_ok (s\<lparr>artifacts := a\<rparr>) = health_ok s" "health_ok (s\<lparr>generations := g\<rparr>) = health_ok s"
  "health_ok (s\<lparr>checkpoints := c\<rparr>) = health_ok s" "health_ok (s\<lparr>transactions := t\<rparr>) = health_ok s"
  "health_ok (s\<lparr>bindings := b\<rparr>) = health_ok s" "health_ok (s\<lparr>events := e\<rparr>) = health_ok s"
  "health_ok (s\<lparr>deliveries := v\<rparr>) = health_ok s" "health_ok (s\<lparr>cursors := m\<rparr>) = health_ok s"
  "deliveries_ok (s\<lparr>artifacts := a\<rparr>) = deliveries_ok s"
  "deliveries_ok (s\<lparr>deployments := d\<rparr>) = deliveries_ok s"
  "deliveries_ok (s\<lparr>generations := g\<rparr>) = deliveries_ok s"
  "deliveries_ok (s\<lparr>healths := h\<rparr>) = deliveries_ok s"
  "deliveries_ok (s\<lparr>checkpoints := c\<rparr>) = deliveries_ok s"
  "deliveries_ok (s\<lparr>transactions := t\<rparr>) = deliveries_ok s"
  "deliveries_ok (s\<lparr>bindings := b\<rparr>) = deliveries_ok s"
  "deliveries_ok (s\<lparr>events := e\<rparr>) = deliveries_ok s"
  "deliveries_ok (s\<lparr>cursors := m\<rparr>) = deliveries_ok s"
  by (simp_all add: store_parts)

lemma find_deployment_iff:
  assumes "keys_ok s"
  shows "find_deployment i s = Some d \<longleftrightarrow> d \<in> set (deployments s) \<and> d_id d = i"
proof
  assume "d \<in> set (deployments s) \<and> d_id d = i"
  then show "find_deployment i s = Some d"
    using assms unfolding find_deployment_def keys_ok_def
    by (auto intro: find_uniq [where k = d_id])
qed (auto dest: find_deploymentD)

lemma find_generation_iff:
  assumes "keys_ok s"
  shows "find_generation i n s = Some g \<longleftrightarrow> g \<in> set (generations s) \<and> gen_key g = (i, n)"
proof
  assume "g \<in> set (generations s) \<and> gen_key g = (i, n)"
  then show "find_generation i n s = Some g"
    using assms unfolding find_generation_def keys_ok_def
    by (auto intro: find_uniq [where k = gen_key])
qed (auto dest: find_generationD)

lemma find_health_iff:
  assumes "keys_ok s"
  shows "find_health i s = Some h \<longleftrightarrow> h \<in> set (healths s) \<and> h_deployment h = i"
proof
  assume "h \<in> set (healths s) \<and> h_deployment h = i"
  then show "find_health i s = Some h"
    using assms unfolding find_health_def keys_ok_def
    by (auto intro: find_uniq [where k = h_deployment])
qed (auto dest: find_healthD)

lemma find_transaction_iff:
  assumes "keys_ok s"
  shows "find_transaction i n q s = Some t \<longleftrightarrow> t \<in> set (transactions s) \<and> tx_key t = (i, n, q)"
proof
  assume "t \<in> set (transactions s) \<and> tx_key t = (i, n, q)"
  then show "find_transaction i n q s = Some t"
    using assms unfolding find_transaction_def keys_ok_def
    by (auto intro: find_uniq [where k = tx_key])
qed (auto dest: find_transactionD)

lemma find_transaction_None:
  "find_transaction i n q s = None \<longleftrightarrow> (i, n, q) \<notin> tx_key ` set (transactions s)"
  by (auto simp: find_transaction_def find_None_iff image_iff)

text \<open>A statement that rewrites rows without touching a key or a reference keeps both parts.\<close>

lemma keys_frames [table_simps]:
  "map d_id D = map d_id (deployments s) \<Longrightarrow> map d_name D = map d_name (deployments s) \<Longrightarrow>
   keys_ok (s\<lparr>deployments := D\<rparr>) = keys_ok s"
  "map gen_key G = map gen_key (generations s) \<Longrightarrow> map g_rowid G = map g_rowid (generations s) \<Longrightarrow>
   keys_ok (s\<lparr>generations := G\<rparr>) = keys_ok s"
  "map h_deployment H = map h_deployment (healths s) \<Longrightarrow> keys_ok (s\<lparr>healths := H\<rparr>) = keys_ok s"
  "map binding_key B = map binding_key (bindings s) \<Longrightarrow> keys_ok (s\<lparr>bindings := B\<rparr>) = keys_ok s"
  "map delivery_key V = map delivery_key (deliveries s) \<Longrightarrow> map v_rowid V = map v_rowid (deliveries s) \<Longrightarrow>
   keys_ok (s\<lparr>deliveries := V\<rparr>) = keys_ok s"
  "keys_ok (s\<lparr>artifacts := A\<rparr>) = keys_ok s"
  by (simp_all add: keys_ok_def uniq_def)

lemma gen_key_image:
  assumes "gen_key ` set G = gen_key ` set G'"
  shows "g_deployment ` set G = g_deployment ` set G'"
proof -
  have "fst ` gen_key ` set G = fst ` gen_key ` set G'" by (simp only: assms)
  then show ?thesis by (simp only: image_image fst_conv)
qed

lemma binding_key_image:
  assumes "binding_key ` set B = binding_key ` set B'"
  shows "b_deployment ` set B = b_deployment ` set B'"
proof -
  have "fst ` binding_key ` set B = fst ` binding_key ` set B'" by (simp only: assms)
  then show ?thesis by (simp only: image_image fst_conv)
qed

lemma refs_frames [table_simps]:
  "d_id ` set D = d_id ` set (deployments s) \<Longrightarrow> refs_ok (s\<lparr>deployments := D\<rparr>) = refs_ok s"
  "gen_key ` set G = gen_key ` set (generations s) \<Longrightarrow> refs_ok (s\<lparr>generations := G\<rparr>) = refs_ok s"
  "h_deployment ` set H = h_deployment ` set (healths s) \<Longrightarrow> refs_ok (s\<lparr>healths := H\<rparr>) = refs_ok s"
  "binding_key ` set B = binding_key ` set (bindings s) \<Longrightarrow> refs_ok (s\<lparr>bindings := B\<rparr>) = refs_ok s"
  "(\<lambda>v. (v_outbox v, v_deployment v)) ` set V =
     (\<lambda>v. (v_outbox v, v_deployment v)) ` set (deliveries s) \<Longrightarrow>
   (\<lambda>v. (v_deployment v, v_destination v, v_revision v)) ` set V =
     (\<lambda>v. (v_deployment v, v_destination v, v_revision v)) ` set (deliveries s) \<Longrightarrow>
   refs_ok (s\<lparr>deliveries := V\<rparr>) = refs_ok s"
  "refs_ok (s\<lparr>artifacts := A\<rparr>) = refs_ok s" "refs_ok (s\<lparr>cursors := M\<rparr>) = refs_ok s"
  subgoal by (simp add: refs_ok_def)
  subgoal using gen_key_image [of G "generations s"] by (simp add: refs_ok_def)
  subgoal by (simp add: refs_ok_def)
  subgoal using binding_key_image [of B "bindings s"] by (simp add: refs_ok_def)
  subgoal by (simp add: refs_ok_def)
  subgoal by (simp add: refs_ok_def)
  subgoal by (simp add: refs_ok_def)
  done

lemma refs_add_transaction:
  "refs_ok s \<Longrightarrow> (t_deployment t, t_generation t) \<in> gen_key ` set (generations s) \<Longrightarrow>
   refs_ok (s\<lparr>transactions := transactions s @ [t]\<rparr>)"
  by (auto simp: refs_ok_def)

lemma refs_add_event:
  assumes "refs_ok s" "e_deployment e \<in> d_id ` set (deployments s)"
    "(e_seq e = None) = (e_kind e = KindHealth)"
    "\<And>q. e_seq e = Some q \<Longrightarrow> (e_deployment e, e_generation e, q) \<in> tx_key ` set (transactions s)"
  shows "refs_ok (s\<lparr>events := events s @ [e]\<rparr>)"
  using assms by (auto simp: refs_ok_def)

text \<open>The ledger invariant, table by table.\<close>

lemma ledger_okI:
  assumes "\<forall>d\<in>set (deployments s). 0 \<le> d_state_revision d"
    and "\<forall>g\<in>set (generations s). 0 \<le> g_last_seq g \<and>
        (g_status g = GenActive \<longrightarrow>
           (\<forall>q. 1 \<le> q \<and> q \<le> g_last_seq g \<longrightarrow>
              (g_deployment g, g_generation g, q) \<in> tx_key ` set (transactions s)))"
    and "\<forall>t\<in>set (transactions s). 0 \<le> t_base t \<and> t_result t = t_base t + 1 \<and> 1 \<le> t_seq t \<and>
        t_ack t = \<lparr>ack_DeploymentID = t_deployment t, ack_Generation = t_generation t,
          ack_Sequence = t_seq t, ack_PayloadHash = hex_encode (t_payload_hash t),
          ack_ResultRevision = t_result t, ack_Status = ''accepted''\<rparr>"
    and "\<And>t g. t \<in> set (transactions s) \<Longrightarrow> g \<in> set (generations s) \<Longrightarrow>
        gen_key g = (t_deployment t, t_generation t) \<Longrightarrow> t_seq t \<le> g_last_seq g"
    and "\<And>t d. t \<in> set (transactions s) \<Longrightarrow> d \<in> set (deployments s) \<Longrightarrow>
        d_id d = t_deployment t \<Longrightarrow> t_result t \<le> d_state_revision d"
    and "uniq (\<lambda>t. (t_deployment t, t_result t)) (transactions s)"
  shows "ledger_ok s"
proof -
  have "\<forall>t\<in>set (transactions s). \<forall>g\<in>set (generations s).
      gen_key g = (t_deployment t, t_generation t) \<longrightarrow> t_seq t \<le> g_last_seq g"
    using assms(4) by blast
  moreover have "\<forall>t\<in>set (transactions s). \<forall>d\<in>set (deployments s).
      d_id d = t_deployment t \<longrightarrow> t_result t \<le> d_state_revision d"
    using assms(5) by blast
  ultimately show ?thesis unfolding ledger_ok_def using assms(1-3,6) by simp
qed

lemma ledger_okD:
  assumes "ledger_ok s"
  shows "d \<in> set (deployments s) \<Longrightarrow> 0 \<le> d_state_revision d"
    and "g \<in> set (generations s) \<Longrightarrow> 0 \<le> g_last_seq g"
    and "g \<in> set (generations s) \<Longrightarrow> g_status g = GenActive \<Longrightarrow> 1 \<le> q \<Longrightarrow> q \<le> g_last_seq g \<Longrightarrow>
      (g_deployment g, g_generation g, q) \<in> tx_key ` set (transactions s)"
    and "t \<in> set (transactions s) \<Longrightarrow> g \<in> set (generations s) \<Longrightarrow>
      g_deployment g = t_deployment t \<Longrightarrow> g_generation g = t_generation t \<Longrightarrow> t_seq t \<le> g_last_seq g"
    and "t \<in> set (transactions s) \<Longrightarrow> d \<in> set (deployments s) \<Longrightarrow> d_id d = t_deployment t \<Longrightarrow>
      t_result t \<le> d_state_revision d"
  using assms unfolding ledger_ok_def by auto

lemma health_okD:
  "health_ok s \<Longrightarrow> d \<in> set (deployments s) \<Longrightarrow> h \<in> set (healths s) \<Longrightarrow> h_deployment h = d_id d \<Longrightarrow>
   health_row_ok d h"
  by (simp add: health_ok_def)

text \<open>Every health row belongs to a deployment, and every deployment has one.\<close>

lemma health_deployment:
  assumes "refs_ok s" "h \<in> set (healths s)"
  obtains d where "d \<in> set (deployments s)" "d_id d = h_deployment h"
proof -
  have "h_deployment h \<in> d_id ` set (deployments s)"
    using assms by (auto simp: refs_ok_def)
  then show ?thesis using that by auto
qed

lemma deployment_health:
  assumes "refs_ok s" "d \<in> set (deployments s)"
  obtains h where "h \<in> set (healths s)" "h_deployment h = d_id d"
proof -
  have "h_deployment ` set (healths s) = d_id ` set (deployments s)"
    using assms(1) by (simp add: refs_ok_def)
  then have "d_id d \<in> h_deployment ` set (healths s)" using assms(2) by simp
  then show ?thesis using that by auto
qed

lemma fence_okD:
  assumes "fence_ok s"
  shows "d \<in> set (deployments s) \<Longrightarrow> 0 \<le> d_active d"
    and "d \<in> set (deployments s) \<Longrightarrow> d_status d \<noteq> DepActive \<Longrightarrow> d_active d = 0"
    and "d \<in> set (deployments s) \<Longrightarrow> 0 < d_active d \<Longrightarrow>
      (d_id d, d_active d) \<in> gen_key ` set (generations s)"
    and "g \<in> set (generations s) \<Longrightarrow> 0 < g_generation g"
    and "g \<in> set (generations s) \<Longrightarrow> g_status g = GenActive \<longleftrightarrow> g_retired_at g = None"
    and "g \<in> set (generations s) \<Longrightarrow> g_status g = GenActive \<Longrightarrow>
      (g_deployment g, g_generation g) \<in> (\<lambda>d. (d_id d, d_active d)) ` set (deployments s)"
  using assms unfolding fence_ok_def by auto

text \<open>An active generation is the one its deployment points at, and that deployment is active.\<close>

lemma active_generation:
  assumes "fence_ok s" "g \<in> set (generations s)" "g_status g = GenActive"
  obtains d where "d \<in> set (deployments s)" "d_id d = g_deployment g" "d_active d = g_generation g"
    "d_status d = DepActive" "0 < g_generation g"
proof -
  obtain d where d: "d \<in> set (deployments s)" "d_id d = g_deployment g" "d_active d = g_generation g"
    using fence_okD(6) [OF assms] by auto
  moreover have "0 < g_generation g" using fence_okD(4) [OF assms(1,2)] .
  moreover have "d_status d = DepActive"
    using fence_okD(2) [OF assms(1) d(1)] d(3) calculation(4) by (cases "d_status d") auto
  ultimately show ?thesis using that by blast
qed

lemma health_ok_update:
  assumes row: "\<And>d h. d \<in> set (deployments s) \<Longrightarrow> h \<in> set (healths s) \<Longrightarrow>
      h_deployment h = d_id d \<Longrightarrow>
      health_row_ok (if P d then f d else d) (if Q h then k h else h)"
    and f: "\<And>d. d_id (f d) = d_id d" and k: "\<And>h. h_deployment (k h) = h_deployment h"
  shows "health_ok (s\<lparr>deployments := update_where P f (deployments s),
    healths := update_where Q k (healths s)\<rparr>)"
  unfolding health_ok_def
proof (intro ballI impI)
  fix d h
  assume "d \<in> set (deployments (s\<lparr>deployments := update_where P f (deployments s),
      healths := update_where Q k (healths s)\<rparr>))"
    and "h \<in> set (healths (s\<lparr>deployments := update_where P f (deployments s),
      healths := update_where Q k (healths s)\<rparr>))"
    and hd: "h_deployment h = d_id d"
  then obtain d0 h0 where d0: "d0 \<in> set (deployments s)" "d = (if P d0 then f d0 else d0)"
    and h0: "h0 \<in> set (healths s)" "h = (if Q h0 then k h0 else h0)"
    by (auto simp: update_where_def)
  have "h_deployment h0 = d_id d0" using hd d0(2) h0(2) f k by (simp split: if_splits)
  then show "health_row_ok d h" using row d0 h0 by blast
qed

lemma refs_okD:
  assumes "refs_ok s"
  shows "g \<in> set (generations s) \<Longrightarrow> g_deployment g \<in> d_id ` set (deployments s)"
    and "h \<in> set (healths s) \<Longrightarrow> h_deployment h \<in> d_id ` set (deployments s)"
    and "c \<in> set (checkpoints s) \<Longrightarrow> c_deployment c \<in> d_id ` set (deployments s)"
    and "b \<in> set (bindings s) \<Longrightarrow> b_deployment b \<in> d_id ` set (deployments s)"
    and "t \<in> set (transactions s) \<Longrightarrow> (t_deployment t, t_generation t) \<in> gen_key ` set (generations s)"
    and "e \<in> set (events s) \<Longrightarrow> e_deployment e \<in> d_id ` set (deployments s)"
    and "v \<in> set (deliveries s) \<Longrightarrow>
      (v_outbox v, v_deployment v) \<in> (\<lambda>e. (e_outbox e, e_deployment e)) ` set (events s)"
    and "v \<in> set (deliveries s) \<Longrightarrow>
      (v_deployment v, v_destination v, v_revision v) \<in> binding_key ` set (bindings s)"
proof -
  show "h \<in> set (healths s) \<Longrightarrow> h_deployment h \<in> d_id ` set (deployments s)"
    using assms imageI [of h "set (healths s)" h_deployment] by (simp add: refs_ok_def)
qed (use assms in \<open>simp_all add: refs_ok_def image_subset_iff\<close>)

lemma receipt_generation:
  assumes "refs_ok s" "t \<in> set (transactions s)"
  obtains g where "g \<in> set (generations s)" "g_deployment g = t_deployment t" "g_generation g = t_generation t"
  using refs_okD(5) [OF assms] that by auto

lemma receipt_deployment:
  assumes "refs_ok s" "t \<in> set (transactions s)"
  shows "t_deployment t \<in> d_id ` set (deployments s)"
proof -
  obtain g where "g \<in> set (generations s)" "g_deployment g = t_deployment t"
    by (rule receipt_generation [OF assms])
  then show ?thesis using refs_okD(1) [OF assms(1), of g] by simp
qed

end
