(* ===== verification/Advance.thy ===== *)
theory Advance
  imports Store
begin

text \<open>
  What a statement of the store may do to one deployment's history, whoever issues it.

  \<open>advances i s s'\<close> says it of the deployment \<open>i\<close>: it keeps its name and its state changes only with its
  revision, which never falls; a generation keeps its number and token, a retired one stays
  retired with its sequence frozen, and a new one has a larger number than all before it; a
  receipt disappears only once its generation is retired, and a receipt appears only for a
  free number of a generation that is active.  The relation is reflexive and transitive.

  The locale \<open>fenced_op\<close> is the contract of a store operation: it keeps \<open>store_inv\<close> and
  advances the deployment.  Each component interprets it on its own operations.
\<close>

section \<open>The relation, table by table\<close>

definition dep_adv :: "string \<Rightarrow> deployment_row list \<Rightarrow> deployment_row list \<Rightarrow> bool" where
  "dep_adv i D D' \<longleftrightarrow>
     (\<forall>d\<in>set D. d_id d = i \<longrightarrow>
        (\<exists>d'\<in>set D'. d_id d' = i \<and> d_name d' = d_name d \<and> d_state_revision d \<le> d_state_revision d' \<and>
           (d_state_revision d = d_state_revision d' \<longrightarrow> d_state d' = d_state d)))"

definition gen_later :: "generation_row \<Rightarrow> generation_row \<Rightarrow> bool" where
  "gen_later g g' \<longleftrightarrow>
     g_deployment g' = g_deployment g \<and> g_generation g' = g_generation g \<and>
     g_token_hash g' = g_token_hash g \<and> g_last_seq g \<le> g_last_seq g' \<and>
     (g_status g = GenRetired \<longrightarrow> g_status g' = GenRetired \<and> g_last_seq g' = g_last_seq g)"

lemma gen_later_refl [simp]: "gen_later g g"
  by (simp add: gen_later_def)

lemma gen_later_trans: "gen_later g g' \<Longrightarrow> gen_later g' g'' \<Longrightarrow> gen_later g g''"
  by (auto simp: gen_later_def)

lemma gen_later_key:
  "gen_later g g' \<Longrightarrow> g_deployment g' = g_deployment g \<and> g_generation g' = g_generation g"
  by (simp add: gen_later_def)

definition gen_adv :: "string \<Rightarrow> generation_row list \<Rightarrow> generation_row list \<Rightarrow> bool" where
  "gen_adv i G G' \<longleftrightarrow>
     (\<forall>g\<in>set G. g_deployment g = i \<longrightarrow>
        (\<exists>g'\<in>set G'. gen_later g g')) \<and>
     (\<forall>g'\<in>set G'. g_deployment g' = i \<longrightarrow>
        (\<exists>g\<in>set G. g_deployment g = i \<and> g_generation g = g_generation g') \<or>
        (\<forall>g\<in>set G. g_deployment g = i \<longrightarrow> g_generation g < g_generation g'))"

definition rec_adv :: "string \<Rightarrow> generation_row list \<Rightarrow> transaction_row list \<Rightarrow>
    generation_row list \<Rightarrow> transaction_row list \<Rightarrow> bool" where
  "rec_adv i G T G' T' \<longleftrightarrow>
     (\<forall>t\<in>set T. t_deployment t = i \<longrightarrow> t \<notin> set T' \<longrightarrow>
        (\<exists>g'\<in>set G'. gen_key g' = (i, t_generation t) \<and> g_status g' = GenRetired)) \<and>
     (\<forall>t'\<in>set T'. t_deployment t' = i \<longrightarrow> t' \<notin> set T \<longrightarrow>
        tx_key t' \<notin> tx_key ` set T \<and>
        (\<forall>g\<in>set G. gen_key g = (i, t_generation t') \<longrightarrow> g_status g = GenActive))"

definition advances :: "string \<Rightarrow> store \<Rightarrow> store \<Rightarrow> bool" where
  "advances i s s' \<longleftrightarrow>
     dep_adv i (deployments s) (deployments s') \<and>
     gen_adv i (generations s) (generations s') \<and>
     rec_adv i (generations s) (transactions s) (generations s') (transactions s')"

lemma dep_adv_refl [simp]: "dep_adv i D D"
  by (auto simp: dep_adv_def)

lemma gen_adv_refl [simp]: "gen_adv i G G"
  unfolding gen_adv_def by (blast intro: gen_later_refl)

lemma rec_adv_same [simp]: "rec_adv i G T G' T"
  by (auto simp: rec_adv_def)

lemma advances_refl [simp]: "advances i s s"
  by (simp add: advances_def)

lemma dep_adv_update:
  assumes "\<And>d. d \<in> set D \<Longrightarrow> P d \<Longrightarrow> d_id (f d) = d_id d \<and> d_name (f d) = d_name d \<and>
     (d_state_revision d < d_state_revision (f d) \<or>
      d_state_revision d = d_state_revision (f d) \<and> d_state (f d) = d_state d)"
  shows "dep_adv i D (update_where P f D)"
  unfolding dep_adv_def
proof (intro ballI impI)
  fix d assume d: "d \<in> set D" "d_id d = i"
  show "\<exists>d'\<in>set (update_where P f D). d_id d' = i \<and> d_name d' = d_name d \<and> d_state_revision d \<le> d_state_revision d' \<and>
      (d_state_revision d = d_state_revision d' \<longrightarrow> d_state d' = d_state d)"
  proof (cases "P d")
    case True
    then show ?thesis using d assms [OF d(1) True] by (intro bexI [of _ "f d"]) (auto intro: update_where_hit)
  next
    case False
    then show ?thesis using d by (intro bexI [of _ d]) (auto intro: update_where_miss)
  qed
qed

lemma gen_adv_update:
  assumes "\<And>g. g \<in> set G \<Longrightarrow> P g \<Longrightarrow> gen_later g (f g)"
  shows "gen_adv i G (update_where P f G)"
  unfolding gen_adv_def
proof (intro conjI ballI impI)
  fix g assume g: "g \<in> set G"
  show "\<exists>g'\<in>set (update_where P f G). gen_later g g'"
  proof (cases "P g")
    case True
    then show ?thesis using g assms [OF g True]
      by (intro bexI [of _ "f g"]) (simp_all add: update_where_hit)
  next
    case False
    then show ?thesis using g by (intro bexI [of _ g]) (simp_all add: update_where_miss)
  qed
next
  fix g' assume "g' \<in> set (update_where P f G)" "g_deployment g' = i"
  then have "\<exists>g\<in>set G. gen_later g g'"
    using assms by (blast elim: update_where_E intro: gen_later_refl)
  then show "(\<exists>g\<in>set G. g_deployment g = i \<and> g_generation g = g_generation g') \<or>
      (\<forall>g\<in>set G. g_deployment g = i \<longrightarrow> g_generation g < g_generation g')"
    using \<open>g_deployment g' = i\<close> by (auto dest!: gen_later_key)
qed

lemma gen_adv_retire [simp]:
  "gen_adv i G (update_where P (retire now r) G)"
  "gen_adv i G (update_where P (retire_once now r) G)"
  by (rule gen_adv_update; simp add: gen_later_def)+

section \<open>Composition\<close>

lemma gen_advE:
  assumes "gen_adv i G G'" "g \<in> set G" "g_deployment g = i"
  obtains g' where "g' \<in> set G'" "gen_later g g'" "g_deployment g' = i" "g_generation g' = g_generation g"
proof -
  obtain g' where "g' \<in> set G'" "gen_later g g'" using assms unfolding gen_adv_def by blast
  then show ?thesis using that [of g'] gen_later_key [of g g'] assms(3) by simp
qed

lemma rec_adv_lost:
  assumes "rec_adv i G T G' T'" "t \<in> set T" "t_deployment t = i" "t \<notin> set T'"
  obtains g' where "g' \<in> set G'" "g_deployment g' = i" "g_generation g' = t_generation t"
    "g_status g' = GenRetired"
  using assms unfolding rec_adv_def by auto

lemma rec_adv_new:
  assumes "rec_adv i G T G' T'" "t' \<in> set T'" "t_deployment t' = i" "t' \<notin> set T"
  shows "tx_key t' \<notin> tx_key ` set T"
    and "g \<in> set G \<Longrightarrow> g_deployment g = i \<Longrightarrow> g_generation g = t_generation t' \<Longrightarrow>
         g_status g = GenActive"
  using assms unfolding rec_adv_def by auto

lemma dep_adv_trans: "dep_adv i D D' \<Longrightarrow> dep_adv i D' D'' \<Longrightarrow> dep_adv i D D''"
  unfolding dep_adv_def by (metis order_antisym order_trans)

lemma gen_adv_trans:
  assumes "gen_adv i G G'" "gen_adv i G' G''"
  shows "gen_adv i G G''"
  unfolding gen_adv_def
proof (intro conjI ballI impI)
  fix g assume g: "g \<in> set G" "g_deployment g = i"
  then obtain g' where g': "g' \<in> set G'" "gen_later g g'"
    using assms(1) unfolding gen_adv_def by blast
  then have "g_deployment g' = i" using g(2) gen_later_key by fastforce
  then obtain g'' where "g'' \<in> set G''" "gen_later g' g''"
    using assms(2) g'(1) unfolding gen_adv_def by blast
  then show "\<exists>g''\<in>set G''. gen_later g g''" using g'(2) gen_later_trans by blast
next
  fix g'' assume g'': "g'' \<in> set G''" "g_deployment g'' = i"
  consider (old) g' where "g' \<in> set G'" "g_deployment g' = i" "g_generation g' = g_generation g''"
    | (new) "\<forall>g'\<in>set G'. g_deployment g' = i \<longrightarrow> g_generation g' < g_generation g''"
    using assms(2) g'' unfolding gen_adv_def by blast
  then show "(\<exists>g\<in>set G. g_deployment g = i \<and> g_generation g = g_generation g'') \<or>
      (\<forall>g\<in>set G. g_deployment g = i \<longrightarrow> g_generation g < g_generation g'')"
  proof cases
    case old
    then have "(\<exists>g\<in>set G. g_deployment g = i \<and> g_generation g = g_generation g') \<or>
        (\<forall>g\<in>set G. g_deployment g = i \<longrightarrow> g_generation g < g_generation g')"
      using assms(1) unfolding gen_adv_def by blast
    then show ?thesis using old(3) by simp
  next
    case new
    have "g_generation g < g_generation g''" if g: "g \<in> set G" "g_deployment g = i" for g
    proof -
      obtain g' where g': "g' \<in> set G'" "gen_later g g'"
        using assms(1) g unfolding gen_adv_def by blast
      have "g_deployment g' = i" "g_generation g' = g_generation g"
        using gen_later_key [OF g'(2)] g(2) by simp_all
      then show ?thesis using new g'(1) by fastforce
    qed
    then show ?thesis by blast
  qed
qed

lemma rec_adv_trans:
  assumes r1: "rec_adv i G T G' T'" and r2: "rec_adv i G' T' G'' T''"
    and g1: "gen_adv i G G'" and g2: "gen_adv i G' G''"
  shows "rec_adv i G T G'' T''"
proof -
  have lost: "\<exists>g''\<in>set G''. gen_key g'' = (i, t_generation t) \<and> g_status g'' = GenRetired"
    if t: "t \<in> set T" "t_deployment t = i" "t \<notin> set T''" for t
  proof (cases "t \<in> set T'")
    case True
    then show ?thesis using t by (auto elim: rec_adv_lost [OF r2])
  next
    case False
    then obtain g' where g': "g' \<in> set G'" "g_deployment g' = i" "g_generation g' = t_generation t"
      "g_status g' = GenRetired"
      using rec_adv_lost [OF r1 t(1,2)] by blast
    obtain g'' where "g'' \<in> set G''" "gen_later g' g''" "g_deployment g'' = i"
      "g_generation g'' = g_generation g'"
      by (rule gen_advE [OF g2 g'(1,2)])
    then show ?thesis using g' by (intro bexI [of _ g'']) (auto simp: gen_later_def)
  qed
  have key: "tx_key t' \<notin> tx_key ` set T"
    if t': "t' \<in> set T''" "t_deployment t' = i" "t' \<notin> set T" for t'
  proof (cases "t' \<in> set T'")
    case True
    then show ?thesis using rec_adv_new(1) [OF r1] t' by blast
  next
    case False
    have other: "tx_key t \<noteq> tx_key t'" if t: "t \<in> set T" for t
    proof
      assume same: "tx_key t = tx_key t'"
      then have "t \<notin> set T'" using rec_adv_new(1) [OF r2 t'(1,2) False] by (auto simp: image_iff)
      moreover have "t_deployment t = i" using same t'(2) by simp
      ultimately obtain g' where "g' \<in> set G'" "g_deployment g' = i"
        "g_generation g' = t_generation t" "g_status g' = GenRetired"
        using rec_adv_lost [OF r1 t] by blast
      then show False using rec_adv_new(2) [OF r2 t'(1,2) False, of g'] same by simp
    qed
    show ?thesis
    proof
      assume "tx_key t' \<in> tx_key ` set T"
      then obtain t where t: "tx_key t' = tx_key t" "t \<in> set T" by (rule imageE)
      then show False using other [OF t(2)] by simp
    qed
  qed
  have active: "g_status g = GenActive"
    if t': "t' \<in> set T''" "t_deployment t' = i" "t' \<notin> set T"
      and g: "g \<in> set G" "g_deployment g = i" "g_generation g = t_generation t'" for t' g
  proof (cases "t' \<in> set T'")
    case True
    then show ?thesis using rec_adv_new(2) [OF r1 _ t'(2,3) g] by blast
  next
    case False
    obtain g' where g': "g' \<in> set G'" "gen_later g g'" "g_deployment g' = i"
      "g_generation g' = g_generation g"
      by (rule gen_advE [OF g1 g(1,2)])
    then have "g_status g' = GenActive" using rec_adv_new(2) [OF r2 t'(1,2) False, of g'] g(3) by simp
    then show ?thesis using g'(2) by (cases "g_status g") (auto simp: gen_later_def)
  qed
  show ?thesis unfolding rec_adv_def
  proof (intro conjI ballI impI)
    fix t' g assume "t' \<in> set T''" "t_deployment t' = i" "t' \<notin> set T" "g \<in> set G"
      "gen_key g = (i, t_generation t')"
    then show "g_status g = GenActive" using active [of t' g] by simp
  qed (erule (2) lost, erule (2) key)
qed

lemma advances_trans: "advances i s s' \<Longrightarrow> advances i s' s'' \<Longrightarrow> advances i s s''"
  unfolding advances_def by (blast intro: dep_adv_trans gen_adv_trans rec_adv_trans)

section \<open>The contract of an operation\<close>

locale fenced_op =
  fixes step :: "store \<Rightarrow> store" and i :: string
  assumes keeps_inv: "store_inv s \<Longrightarrow> store_inv (step s)"
    and step_advances: "store_inv s \<Longrightarrow> advances i s (step s)"
begin

text \<open>A retired generation is never revived and its sequence never moves again.\<close>

lemma retired_stays:
  assumes "store_inv s" "find_generation i n s = Some g" "g_status g = GenRetired"
  shows "\<exists>g'. find_generation i n (step s) = Some g' \<and> g_status g' = GenRetired \<and>
    g_last_seq g' = g_last_seq g \<and> g_token_hash g' = g_token_hash g"
proof -
  have adv: "gen_adv i (generations s) (generations (step s))"
    using step_advances [OF assms(1)] by (simp add: advances_def)
  have g: "g \<in> set (generations s)" "g_deployment g = i" "g_generation g = n"
    using find_generationD [OF assms(2)] by simp_all
  obtain g' where "g' \<in> set (generations (step s))" "gen_later g g'"
    "g_deployment g' = i" "g_generation g' = g_generation g"
    by (rule gen_advE [OF adv g(1,2)])
  then show ?thesis
    using assms keeps_inv [OF assms(1)] g(3)
    by (intro exI [of _ g']) (auto simp: find_generation_iff store_inv_def gen_later_def)
qed

text \<open>The state revision never falls, and the state never changes without it; a name is never taken away.\<close>

lemma state_needs_revision:
  assumes "store_inv s" "find_deployment i s = Some d"
  shows "\<exists>d'. find_deployment i (step s) = Some d' \<and> d_name d' = d_name d \<and>
    d_state_revision d \<le> d_state_revision d' \<and>
    (d_state_revision d' = d_state_revision d \<longrightarrow> d_state d' = d_state d)"
proof -
  have "dep_adv i (deployments s) (deployments (step s))"
    using step_advances [OF assms(1)] by (simp add: advances_def)
  moreover have "d \<in> set (deployments s)" "d_id d = i"
    using find_deploymentD [OF assms(2)] by simp_all
  ultimately obtain d' where "d' \<in> set (deployments (step s))" "d_id d' = i" "d_name d' = d_name d"
    "d_state_revision d \<le> d_state_revision d'"
    "d_state_revision d = d_state_revision d' \<longrightarrow> d_state d' = d_state d"
    unfolding dep_adv_def by blast
  then show ?thesis
    using keeps_inv [OF assms(1)]
    by (intro exI [of _ d']) (simp add: find_deployment_iff store_inv_def)
qed

end

text \<open>Two operations in a row.\<close>

lemma fenced_op_comp:
  assumes "fenced_op a i" "fenced_op b i"
  shows "fenced_op (\<lambda>s. b (a s)) i"
proof
  fix s assume inv: "store_inv s"
  show "store_inv (b (a s))"
    using assms inv by (simp add: fenced_op_def)
  show "advances i s (b (a s))"
    using assms inv unfolding fenced_op_def by (blast intro: advances_trans)
qed

text \<open>Operations that leave the fence and the ledger alone.\<close>

lemma fenced_op_quiet:
  assumes "\<And>s. store_inv s \<Longrightarrow> store_inv (step s)"
    and "\<And>s. deployments (step s) = deployments s" "\<And>s. generations (step s) = generations s"
    and "\<And>s. transactions (step s) = transactions s"
  shows "fenced_op step i"
  by unfold_locales (simp_all add: assms advances_def)

section \<open>Fencing deployments\<close>

text \<open>
  Every handler that takes a deployment out of service does the same three things: it points
  the deployment at no generation, retires its active rows, and resets its health row.  The
  lemmas take the set \<open>I\<close> of deployments a statement fences.
\<close>

definition retires :: "(generation_row \<Rightarrow> generation_row) \<Rightarrow> bool" where
  "retires R \<longleftrightarrow> (\<forall>g. g_rowid (R g) = g_rowid g \<and> g_deployment (R g) = g_deployment g \<and>
     g_generation (R g) = g_generation g \<and> g_last_seq (R g) = g_last_seq g \<and>
     g_token_hash (R g) = g_token_hash g \<and>
     g_status (R g) = GenRetired \<and> g_retired_at (R g) \<noteq> None)"

lemma retires_retire [simp]: "retires (retire now r)" "retires (retire_once now r)"
  by (simp_all add: retires_def)

lemma retiresD:
  assumes "retires R"
  shows "g_rowid (R g) = g_rowid g" "g_deployment (R g) = g_deployment g"
    "g_generation (R g) = g_generation g" "g_last_seq (R g) = g_last_seq g"
    "g_token_hash (R g) = g_token_hash g" "g_status (R g) = GenRetired" "g_retired_at (R g) \<noteq> None"
  using assms by (auto simp: retires_def)

lemma retires_key: "retires R \<Longrightarrow> gen_key (R g) = gen_key g"
  by (simp add: retiresD)

lemma fence_ok_retire:
  assumes fence: "fence_ok s" and R: "retires R"
    and P: "\<And>d. d \<in> set (deployments s) \<Longrightarrow> P d \<Longrightarrow>
      d_id d \<in> I \<and> d_id (f d) = d_id d \<and> d_active (f d) = 0"
    and Q: "\<And>g. g \<in> set (generations s) \<Longrightarrow> Q g \<longleftrightarrow> g_status g = GenActive \<and> g_deployment g \<in> I"
  shows "fence_ok (s\<lparr>deployments := update_where P f (deployments s),
    generations := update_where Q R (generations s)\<rparr>)"
proof -
  have gens: "gen_key ` set (update_where Q R (generations s)) = gen_key ` set (generations s)"
    by (rule image_update_where) (simp add: retires_key [OF R])
  have "0 \<le> d_active d' \<and> (d_status d' \<noteq> DepActive \<longrightarrow> d_active d' = 0) \<and>
      (0 < d_active d' \<longrightarrow> (d_id d', d_active d') \<in> gen_key ` set (generations s))"
    if "d' \<in> set (update_where P f (deployments s))" for d'
    using that
  proof (cases rule: update_where_E)
    case 1
    then show ?thesis using fence by (simp add: fence_ok_def)
  next
    case (2 d)
    then show ?thesis using P by simp
  qed
  moreover have "0 < g_generation g' \<and> (g_status g' = GenActive \<longleftrightarrow> g_retired_at g' = None) \<and>
      (g_status g' = GenActive \<longrightarrow> (g_deployment g', g_generation g') \<in>
         (\<lambda>d. (d_id d, d_active d)) ` set (update_where P f (deployments s)))"
    if "g' \<in> set (update_where Q R (generations s))" for g'
    using that
  proof (cases rule: update_where_E)
    case 1
    then have old: "0 < g_generation g'" "g_status g' = GenActive \<longleftrightarrow> g_retired_at g' = None"
      "g_status g' = GenActive \<longrightarrow>
        (g_deployment g', g_generation g') \<in> (\<lambda>d. (d_id d, d_active d)) ` set (deployments s)"
      using fence by (auto simp: fence_ok_def)
    moreover have "(g_deployment g', g_generation g') \<in>
        (\<lambda>d. (d_id d, d_active d)) ` set (update_where P f (deployments s))"
      if act: "g_status g' = GenActive"
    proof -
      obtain d where d: "d \<in> set (deployments s)" "g_deployment g' = d_id d" "g_generation g' = d_active d"
        using old act by auto
      then have "\<not> P d" using P Q 1 act by auto
      then show ?thesis using d by (auto intro!: image_eqI [where x = d] update_where_miss)
    qed
    ultimately show ?thesis by blast
  next
    case (2 g)
    then show ?thesis using fence by (auto simp: retiresD [OF R] fence_ok_def)
  qed
  ultimately show ?thesis unfolding fence_ok_def by (simp add: gens)
qed

lemma ledger_ok_update:
  assumes ledger: "ledger_ok s"
    and P: "\<And>d. d \<in> set (deployments s) \<Longrightarrow> P d \<Longrightarrow>
      d_id (f d) = d_id d \<and> d_state_revision d \<le> d_state_revision (f d)"
    and Q: "\<And>g. g \<in> set (generations s) \<Longrightarrow> Q g \<Longrightarrow> gen_key (R g) = gen_key g \<and>
      g_last_seq (R g) = g_last_seq g \<and> (g_status (R g) = GenActive \<longrightarrow> g_status g = GenActive)"
  shows "ledger_ok (s\<lparr>deployments := update_where P f (deployments s),
    generations := update_where Q R (generations s)\<rparr>)"
proof (rule ledger_okI, goal_cases)
  case 1
  have "0 \<le> d_state_revision (if P d then f d else d)" if "d \<in> set (deployments s)" for d
    using ledger that P [OF that] by (fastforce simp: ledger_ok_def)
  then show ?case by (simp add: ball_update_where)
next
  case 2
  have "0 \<le> g_last_seq g' \<and> (g_status g' = GenActive \<longrightarrow> (\<forall>q. 1 \<le> q \<and> q \<le> g_last_seq g' \<longrightarrow>
      (g_deployment g', g_generation g', q) \<in> tx_key ` set (transactions s)))"
    if "g' \<in> set (update_where Q R (generations s))" for g'
    using that
  proof (cases rule: update_where_E)
    case 1
    then show ?thesis using ledger_okD [OF ledger] by blast
  next
    case (2 g)
    then show ?thesis using ledger_okD(2,3) [OF ledger 2(1)] Q [OF 2(1,2)] by simp
  qed
  then show ?case by simp
next
  case 3
  show ?case using ledger by (simp add: ledger_ok_def)
next
  case (4 t g')
  then have t: "t \<in> set (transactions s)" and "g' \<in> set (update_where Q R (generations s))" by simp_all
  from this(2) show ?case
  proof (cases rule: update_where_E)
    case 1
    then show ?thesis using ledger_okD(4) [OF ledger t] 4(3) by simp
  next
    case (2 g)
    then show ?thesis using ledger_okD(4) [OF ledger t 2(1)] 4(3) Q [OF 2(1,2)] by simp
  qed
next
  case (5 t d')
  then have t: "t \<in> set (transactions s)" and "d' \<in> set (update_where P f (deployments s))" by simp_all
  from this(2) show ?case
  proof (cases rule: update_where_E)
    case 1
    then show ?thesis using ledger_okD(5) [OF ledger t] 5(3) by simp
  next
    case (2 d)
    then show ?thesis using ledger_okD(5) [OF ledger t 2(1)] 5(3) P [OF 2(1,2)] by simp
  qed
next
  case 6
  show ?case using ledger by (simp add: ledger_ok_def)
qed

lemma ensureDeploymentHealth_rows:
  assumes "h \<in> set (healths (ensureDeploymentHealth i n st now s))"
  obtains (other) "h \<in> set (healths s)" "h_deployment h \<noteq> i"
  | (updated) h0 where "h0 \<in> set (healths s)" "h_deployment h0 = i"
      "h = h0\<lparr>h_generation := n, h_status := st, h_updated_at := now\<rparr>"
  | (inserted) "\<forall>h0\<in>set (healths s). h_deployment h0 \<noteq> i" "h = new_health i n st now"
  using assms by (auto simp: ensureDeploymentHealth_def set_upsert split: if_splits)

lemma ensureDeploymentHealth_ok:
  assumes health: "health_ok s" and refs: "refs_ok s" and st: "st = HealthStarting \<or> st = HealthStopped"
    and other: "\<And>d. d \<in> set D \<Longrightarrow> d_id d \<noteq> i \<Longrightarrow> d \<in> set (deployments s)"
    and here: "\<And>d. d \<in> set D \<Longrightarrow> d_id d = i \<Longrightarrow> 0 < d_threshold d \<and>
      (n = 0 \<or> n = d_active d) \<and> (d_status d \<noteq> DepActive \<longrightarrow> st = HealthStopped)"
  shows "health_ok (ensureDeploymentHealth i n st now (s\<lparr>deployments := D\<rparr>))"
  unfolding health_ok_def
proof (intro ballI impI)
  fix d h
  assume d: "d \<in> set (deployments (ensureDeploymentHealth i n st now (s\<lparr>deployments := D\<rparr>)))"
    and h: "h \<in> set (healths (ensureDeploymentHealth i n st now (s\<lparr>deployments := D\<rparr>)))"
    and hd: "h_deployment h = d_id d"
  have base: "0 \<le> h_failures h0 \<and> (h_notified h0 \<longrightarrow> 0 < h_failures h0)"
    if h0: "h0 \<in> set (healths s)" for h0
  proof -
    obtain d0 where "d0 \<in> set (deployments s)" "d_id d0 = h_deployment h0"
      by (rule health_deployment [OF refs h0])
    then show ?thesis using health_okD [OF health _ h0, of d0] by (simp add: health_row_ok_def)
  qed
  have d': "d \<in> set D" using d by simp
  from h show "health_row_ok d h"
  proof (cases rule: ensureDeploymentHealth_rows)
    case other
    then have "d \<in> set (deployments s)" using \<open>d \<in> set D\<close> hd assms(4) by simp
    then show ?thesis using health_okD [OF health] other hd by simp
  next
    case (updated h0)
    then have "d_id d = i" using hd by simp
    moreover have "h0 \<in> set (healths s)" using updated(1) by simp
    ultimately show ?thesis using here [OF d'] base [of h0] st
      by (auto simp: health_row_ok_def updated(3))
  next
    case inserted
    then have "d_id d = i" using hd by simp
    then show ?thesis using here [OF d'] st by (auto simp: health_row_ok_def inserted(2))
  qed
qed

lemma ensureDeploymentHealth_keys:
  "keys_ok s \<Longrightarrow> keys_ok (ensureDeploymentHealth i n st now s)"
  by (simp add: ensureDeploymentHealth_def keys_ok_def uniq_upsert)

lemma ensureDeploymentHealth_refs:
  assumes "refs_ok s" "i \<in> d_id ` set (deployments s)"
  shows "refs_ok (ensureDeploymentHealth i n st now s)"
proof -
  have "h_deployment ` set (healths (ensureDeploymentHealth i n st now s)) =
      insert i (h_deployment ` set (healths s))"
    using image_upsert [of h_deployment
        "\<lambda>h. h\<lparr>h_generation := n, h_status := st, h_updated_at := now\<rparr>" "new_health i n st now"]
    by (simp add: ensureDeploymentHealth_def)
  moreover have "i \<in> h_deployment ` set (healths s)"
    using assms by (simp add: refs_ok_def)
  ultimately have "h_deployment ` set (healths (ensureDeploymentHealth i n st now s)) =
      h_deployment ` set (healths s)" by (simp add: insert_absorb)
  then show ?thesis using assms(1) unfolding ensureDeploymentHealth_def by (simp add: refs_frames)
qed

lemma ensureDeploymentHealth_parts [simp]:
  "fence_ok (ensureDeploymentHealth i n st now s) = fence_ok s"
  "ledger_ok (ensureDeploymentHealth i n st now s) = ledger_ok s"
  "deliveries_ok (ensureDeploymentHealth i n st now s) = deliveries_ok s"
  by (simp_all add: ensureDeploymentHealth_def)

text \<open>The whole pattern on one deployment.\<close>

definition fence_update :: "string \<Rightarrow> (deployment_row \<Rightarrow> bool) \<Rightarrow> (deployment_row \<Rightarrow> deployment_row) \<Rightarrow>
    (generation_row \<Rightarrow> generation_row) \<Rightarrow> health_status \<Rightarrow> int \<Rightarrow> store \<Rightarrow> store" where
  "fence_update i P f R st now s = ensureDeploymentHealth i 0 st now
     (s\<lparr>deployments := update_where P f (deployments s),
        generations := update_where (\<lambda>g. g_deployment g = i \<and> g_status g = GenActive) R (generations s)\<rparr>)"

lemma fence_update_inv:
  assumes inv: "store_inv s" and i: "i \<in> d_id ` set (deployments s)" and R: "retires R"
    and st: "st = HealthStarting \<or> st = HealthStopped"
    and P: "\<And>d. d \<in> set (deployments s) \<Longrightarrow> P d \<Longrightarrow> d_id d = i \<and> d_active (f d) = 0 \<and>
      d_state_revision d \<le> d_state_revision (f d) \<and> 0 < d_threshold (f d) \<and>
      (d_status (f d) \<noteq> DepActive \<longrightarrow> st = HealthStopped)"
    and here: "\<And>d. d \<in> set (deployments s) \<Longrightarrow> d_id d = i \<Longrightarrow> P d"
    and f: "\<And>d. d_id (f d) = d_id d \<and> d_name (f d) = d_name d"
  shows "store_inv (fence_update i P f R st now s)"
proof -
  let ?D = "update_where P f (deployments s)"
  let ?G = "update_where (\<lambda>g. g_deployment g = i \<and> g_status g = GenActive) R (generations s)"
  let ?s = "s\<lparr>deployments := ?D, generations := ?G\<rparr>"
  have parts: "keys_ok s" "refs_ok s" "fence_ok s" "ledger_ok s" "health_ok s" "deliveries_ok s"
    using inv by (simp_all add: store_inv_def)
  have ids: "d_id ` set ?D = d_id ` set (deployments s)"
    by (rule image_update_where) (simp add: f)
  have "keys_ok ?s"
    using parts(1) by (simp add: table_simps f retiresD [OF R])
  moreover have "refs_ok ?s"
    using parts(2) by (simp add: table_simps f retiresD [OF R])
  moreover have "fence_ok ?s"
    by (rule fence_ok_retire [where I = "{i}", OF parts(3) R]) (use P f in auto)
  moreover have "ledger_ok ?s"
    by (rule ledger_ok_update [OF parts(4)]) (use P f in \<open>auto simp: retiresD [OF R]\<close>)
  moreover have "health_ok (ensureDeploymentHealth i 0 st now (s\<lparr>deployments := ?D\<rparr>))"
  proof (rule ensureDeploymentHealth_ok [OF parts(5,2) st])
    fix d assume d: "d \<in> set ?D" "d_id d \<noteq> i"
    from d(1) show "d \<in> set (deployments s)"
    proof (cases rule: update_where_E)
      case (2 d0)
      then show ?thesis using P f d(2) by auto
    qed
  next
    fix d assume d: "d \<in> set ?D" "d_id d = i"
    from d(1) show "0 < d_threshold d \<and> ((0::int) = 0 \<or> 0 = d_active d) \<and>
        (d_status d \<noteq> DepActive \<longrightarrow> st = HealthStopped)"
    proof (cases rule: update_where_E)
      case 1
      then show ?thesis using here d(2) by blast
    next
      case (2 d0)
      then show ?thesis using P by simp
    qed
  qed
  then have "health_ok (ensureDeploymentHealth i 0 st now ?s)"
    by (simp add: ensureDeploymentHealth_def health_ok_def)
  ultimately show ?thesis
    unfolding fence_update_def store_inv_def using parts(6) i ids
    by (simp add: ensureDeploymentHealth_keys ensureDeploymentHealth_refs)
qed

lemma fence_update_advances:
  assumes R: "retires R" and f: "\<And>d. d_id (f d) = d_id d \<and> d_name (f d) = d_name d"
    and P: "\<And>d. d \<in> set (deployments s) \<Longrightarrow> P d \<Longrightarrow>
      d_state_revision d < d_state_revision (f d) \<or>
      d_state_revision d = d_state_revision (f d) \<and> d_state (f d) = d_state d"
  shows "advances j s (fence_update i P f R st now s)"
proof -
  have "dep_adv j (deployments s) (update_where P f (deployments s))"
    by (rule dep_adv_update) (use P f in auto)
  moreover have "gen_adv j (generations s)
      (update_where (\<lambda>g. g_deployment g = i \<and> g_status g = GenActive) R (generations s))"
    by (rule gen_adv_update) (simp add: gen_later_def retiresD [OF R])
  ultimately show ?thesis by (simp add: advances_def fence_update_def)
qed

lemma ledger_ok_deployments:
  assumes "ledger_ok s" "\<And>d. d \<in> set (deployments s) \<Longrightarrow> P d \<Longrightarrow>
      d_id (f d) = d_id d \<and> d_state_revision d \<le> d_state_revision (f d)"
  shows "ledger_ok (s\<lparr>deployments := update_where P f (deployments s)\<rparr>)"
proof -
  have "update_where (\<lambda>_. False) id (generations s) = generations s" by (simp add: update_where_id)
  moreover have "ledger_ok (s\<lparr>deployments := update_where P f (deployments s),
      generations := update_where (\<lambda>_. False) id (generations s)\<rparr>)"
    by (rule ledger_ok_update) (use assms in auto)
  ultimately show ?thesis by simp
qed

end
