(* ===== verification/Transactions.thy ===== *)
theory Transactions
  imports Advance
begin

text \<open>
  \<open>internal/storage/transactions.go\<close>: the atomic commit of a worker's transaction frame.

  \<open>ApplyTransaction\<close> returns the store it leaves and its result, because a failed \<open>Commit\<close>
  may have been durable: \<open>commit_outcome\<close> says what the database did and \<open>readable\<close> whether
  the ledger could be read back afterwards.  \<open>now\<close> is the clock reading.  The lemmas give the
  precedence of the guards, the effect of a commit on each table, and that every part of the
  invariant survives it.
\<close>

section \<open>Frames\<close>

record CheckpointMutation =
  cm_Source :: string
  cm_Value :: string

record OutboxDelivery =
  od_DestinationID :: string
  od_DestinationRevision :: int

record OutboxEvent =
  oe_OutboxID :: string
  oe_EventID :: string
  oe_Message :: Message
  oe_Deliveries :: "OutboxDelivery list"

record TransactionFrame =
  fr_DeploymentID :: string
  fr_Generation :: int
  fr_WorkerToken :: string
  fr_Sequence :: int
  fr_BaseStateRevision :: int
  fr_NextState :: string
  fr_Checkpoints :: "CheckpointMutation list"
  fr_Events :: "OutboxEvent list"
  fr_PayloadHash :: string

section \<open>validateFrame\<close>

fun validateCheckpoints :: "string list \<Rightarrow> CheckpointMutation list \<Rightarrow> go_error option" where
  "validateCheckpoints seen [] = None"
| "validateCheckpoints seen (c # cs) =
     (if cm_Source c = '''' \<or> \<not> json_valid (cm_Value c)
      then Some (Errorf ''transaction frame contains an invalid checkpoint'')
      else if cm_Source c \<in> set seen
      then Some (Errorf (''transaction frame repeats checkpoint '' @ cm_Source c))
      else validateCheckpoints (cm_Source c # seen) cs)"

fun validateDeliveries :: "string \<Rightarrow> string list \<Rightarrow> OutboxDelivery list \<Rightarrow> go_error option" where
  "validateDeliveries event seen [] = None"
| "validateDeliveries event seen (d # ds) =
     (if od_DestinationID d = '''' \<or> od_DestinationRevision d < 1
      then Some (Errorf ''transaction frame contains an invalid delivery'')
      else if od_DestinationID d \<in> set seen
      then Some (Errorf (''event repeats destination '' @ event @ '' '' @ od_DestinationID d))
      else validateDeliveries event (od_DestinationID d # seen) ds)"

fun validateEvents :: "string list \<Rightarrow> string list \<Rightarrow> OutboxEvent list \<Rightarrow> go_error option" where
  "validateEvents eventIDs outboxIDs [] = None"
| "validateEvents eventIDs outboxIDs (e # es) =
     (if oe_OutboxID e = '''' \<or> oe_EventID e = '''' \<or> TrimSpace (msg_Title (oe_Message e)) = ''''
      then Some (Errorf ''transaction frame contains an invalid event'')
      else if oe_EventID e \<in> set eventIDs
      then Some (Errorf (''transaction frame repeats event '' @ oe_EventID e))
      else if oe_OutboxID e \<in> set outboxIDs
      then Some (Errorf (''transaction frame repeats outbox id '' @ oe_OutboxID e))
      else case validateDeliveries (oe_EventID e) [] (oe_Deliveries e) of
             Some err \<Rightarrow> Some err
           | None \<Rightarrow> validateEvents (oe_EventID e # eventIDs) (oe_OutboxID e # outboxIDs) es)"

definition zero_hash :: string where
  "zero_hash = replicate 32 (char_of (0::nat))"

definition validateFrame :: "TransactionFrame \<Rightarrow> go_error option" where
  "validateFrame frame =
     (if fr_DeploymentID frame = '''' \<or> fr_Generation frame < 1 \<or> fr_Sequence frame < 1
      then Some (Errorf ''transaction frame requires deployment, generation, and sequence'')
      else if length (fr_WorkerToken frame) < 16
      then Some (Errorf ''transaction frame worker token is missing'')
      else if length (fr_NextState frame) = 0 \<or> \<not> json_valid (fr_NextState frame)
      then Some (Errorf ''transaction frame state is not valid JSON'')
      else case validateCheckpoints [] (fr_Checkpoints frame) of
        Some err \<Rightarrow> Some err
      | None \<Rightarrow> (case validateEvents [] [] (fr_Events frame) of
          Some err \<Rightarrow> Some err
        | None \<Rightarrow>
            (if fr_PayloadHash frame = zero_hash
             then Some (Errorf ''transaction frame payload hash is missing'')
             else None)))"

section \<open>The ledger lookup\<close>

definition lookupTransaction :: "TransactionFrame \<Rightarrow> store \<Rightarrow> TransactionACK option result" where
  "lookupTransaction frame s =
     (case find_transaction (fr_DeploymentID frame) (fr_Generation frame) (fr_Sequence frame) s of
        None \<Rightarrow> Inr None
      | Some t \<Rightarrow>
          if t_payload_hash t \<noteq> fr_PayloadHash frame then Inl ErrPayloadConflict
          else Inr (Some (t_ack t)))"

text \<open>\<open>resolveTransaction\<close> reads the same row over the read-only pool.\<close>

definition resolveTransaction ::
    "bool \<Rightarrow> TransactionFrame \<Rightarrow> store \<Rightarrow> TransactionACK option result" where
  "resolveTransaction readable frame s =
     (if \<not> readable then Inl (Errorf ''resolve transaction ledger'')
      else case find_transaction (fr_DeploymentID frame) (fr_Generation frame) (fr_Sequence frame) s of
        None \<Rightarrow> Inr None
      | Some t \<Rightarrow>
          if t_payload_hash t \<noteq> fr_PayloadHash frame then Inl ErrPayloadConflict
          else Inr (Some (t_ack t)))"

section \<open>The outbox inserts\<close>

fun insertDeliveries ::
    "string \<Rightarrow> string \<Rightarrow> int \<Rightarrow> OutboxDelivery list \<Rightarrow> store \<Rightarrow> store result" where
  "insertDeliveries outbox dep now [] s = Inr s"
| "insertDeliveries outbox dep now (d # ds) s =
     (if exists_where (\<lambda>v. v_outbox v = outbox \<and> v_destination v = od_DestinationID d) (deliveries s)
         \<or> \<not> exists_where (\<lambda>b. binding_key b = (dep, od_DestinationID d, od_DestinationRevision d))
               (bindings s)
      then Inl (Errorf (''insert delivery '' @ od_DestinationID d))
      else insertDeliveries outbox dep now ds
        (s\<lparr>deliveries := deliveries s @ [\<lparr>v_rowid = next_rowid v_rowid (deliveries s),
             v_outbox = outbox, v_deployment = dep, v_destination = od_DestinationID d,
             v_revision = od_DestinationRevision d, v_status = DlvPending, v_attempts = 0,
             v_next_at = now, v_owner = None, v_expires = None, v_delivered_at = None,
             v_error = '''', v_dead_at = None\<rparr>]\<rparr>))"

definition insertOutboxEvent ::
    "env \<Rightarrow> TransactionFrame \<Rightarrow> int \<Rightarrow> OutboxEvent \<Rightarrow> store \<Rightarrow> store result" where
  "insertOutboxEvent E frame now event s =
     (let identityHash = sha256 E (marshal_message E (oe_Message event));
          payload = marshal_message E ((oe_Message event)\<lparr>msg_Time := Some now\<rparr>);
          key = (fr_DeploymentID frame, KindMonitor, oe_EventID event)
      in if event_conflict (oe_OutboxID event) key s
         then (case find (\<lambda>e. event_key e = key) (events s) of
                 Some e \<Rightarrow>
                   if e_payload_hash e = identityHash then Inr s else Inl ErrPayloadConflict
               | None \<Rightarrow> Inl (Errorf (''insert outbox event '' @ oe_EventID event)))
         else insertDeliveries (oe_OutboxID event) (fr_DeploymentID frame) now (oe_Deliveries event)
           (s\<lparr>events := events s @ [\<lparr>e_rowid = next_rowid e_rowid (events s),
                e_outbox = oe_OutboxID event, e_deployment = fr_DeploymentID frame,
                e_kind = KindMonitor, e_generation = fr_Generation frame,
                e_seq = Some (fr_Sequence frame), e_event = oe_EventID event,
                e_payload = payload, e_payload_hash = identityHash, e_created_at = now\<rparr>]\<rparr>))"

fun insertOutboxEvents ::
    "env \<Rightarrow> TransactionFrame \<Rightarrow> int \<Rightarrow> OutboxEvent list \<Rightarrow> store \<Rightarrow> store result" where
  "insertOutboxEvents E frame now [] s = Inr s"
| "insertOutboxEvents E frame now (e # es) s =
     (case insertOutboxEvent E frame now e s of
        Inl err \<Rightarrow> Inl err
      | Inr s' \<Rightarrow> insertOutboxEvents E frame now es s')"

fun writeCheckpoints :: "env \<Rightarrow> TransactionFrame \<Rightarrow> int \<Rightarrow> CheckpointMutation list \<Rightarrow> store \<Rightarrow> store" where
  "writeCheckpoints E frame now [] s = s"
| "writeCheckpoints E frame now (c # cs) s =
     writeCheckpoints E frame now cs
       (s\<lparr>checkpoints := upsert cp_key
            \<lparr>c_deployment = fr_DeploymentID frame, c_source = cm_Source c, c_value = cm_Value c,
             c_value_hash = sha256 E (cm_Value c), c_generation = fr_Generation frame,
             c_seq = fr_Sequence frame, c_updated_at = now\<rparr>
            (\<lambda>r. r\<lparr>c_value := cm_Value c, c_value_hash := sha256 E (cm_Value c),
                   c_generation := fr_Generation frame, c_seq := fr_Sequence frame,
                   c_updated_at := now\<rparr>)
            (checkpoints s)\<rparr>)"

section \<open>ApplyTransaction\<close>

text \<open>
  The \<open>SELECT ... JOIN deployment_generations ... WHERE g.status = 'active'\<close>: the active
  generation, the state revision, the last sequence and the token hash.
\<close>

definition loadActiveGeneration :: "string \<Rightarrow> store \<Rightarrow> (int \<times> int \<times> int \<times> string) option" where
  "loadActiveGeneration i s =
     (case find_deployment i s of
        None \<Rightarrow> None
      | Some d \<Rightarrow> (case find_generation i (d_active d) s of
          None \<Rightarrow> None
        | Some g \<Rightarrow>
            if g_status g = GenActive
            then Some (d_active d, d_state_revision d, g_last_seq g, g_token_hash g) else None))"

definition frame_ack :: "TransactionFrame \<Rightarrow> int \<Rightarrow> TransactionACK" where
  "frame_ack frame resultRevision =
     \<lparr>ack_DeploymentID = fr_DeploymentID frame, ack_Generation = fr_Generation frame,
      ack_Sequence = fr_Sequence frame, ack_PayloadHash = hex_encode (fr_PayloadHash frame),
      ack_ResultRevision = resultRevision, ack_Status = ''accepted''\<rparr>"

text \<open>The guards, between the ledger lookup and the first write.\<close>

definition guardFrame :: "env \<Rightarrow> TransactionFrame \<Rightarrow> store \<Rightarrow> (int \<times> int) result" where
  "guardFrame E frame s =
     (case loadActiveGeneration (fr_DeploymentID frame) s of
        None \<Rightarrow> Inl ErrGenerationFenced
      | Some (activeGeneration, stateRevision, lastSequence, tokenHash) \<Rightarrow>
          if activeGeneration \<noteq> fr_Generation frame \<or> tokenHash \<noteq> sha256 E (fr_WorkerToken frame)
          then Inl ErrGenerationFenced
          else if fr_Sequence frame \<noteq> lastSequence + 1
          then (if fr_Sequence frame \<le> lastSequence then Inl ErrMissingSequence
                else Inl ErrSequenceConflict)
          else if fr_BaseStateRevision frame \<noteq> stateRevision then Inl ErrStateConflict
          else Inr (stateRevision, lastSequence))"

definition state_hit :: "TransactionFrame \<Rightarrow> deployment_row \<Rightarrow> bool" where
  "state_hit frame d \<longleftrightarrow> d_id d = fr_DeploymentID frame \<and> d_active d = fr_Generation frame \<and>
     d_state_revision d = fr_BaseStateRevision frame"

definition seq_hit :: "TransactionFrame \<Rightarrow> int \<Rightarrow> generation_row \<Rightarrow> bool" where
  "seq_hit frame lastSequence g \<longleftrightarrow> g_deployment g = fr_DeploymentID frame \<and>
     g_generation g = fr_Generation frame \<and> g_last_seq g = lastSequence"

text \<open>The state, sequence and ledger writes.\<close>

definition writeLedger :: "TransactionFrame \<Rightarrow> int \<Rightarrow> int \<Rightarrow> int \<Rightarrow> store \<Rightarrow> store result" where
  "writeLedger frame stateRevision lastSequence now s =
     (let resultRevision = stateRevision + 1 in
      if count_where (state_hit frame) (deployments s) \<noteq> 1 then Inl ErrGenerationFenced
      else if count_where (seq_hit frame lastSequence) (generations s) \<noteq> 1
      then Inl ErrSequenceConflict
      else Inr (s\<lparr>deployments := update_where (state_hit frame)
                    (\<lambda>d. d\<lparr>d_state := fr_NextState frame, d_state_revision := resultRevision,
                           d_updated_at := now\<rparr>) (deployments s),
                  generations := update_where (seq_hit frame lastSequence)
                    (\<lambda>g. g\<lparr>g_last_seq := fr_Sequence frame\<rparr>) (generations s),
                  transactions := transactions s @
                    [\<lparr>t_deployment = fr_DeploymentID frame, t_generation = fr_Generation frame,
                      t_seq = fr_Sequence frame, t_payload_hash = fr_PayloadHash frame,
                      t_base = fr_BaseStateRevision frame, t_result = resultRevision,
                      t_ack = frame_ack frame resultRevision, t_committed_at = now\<rparr>]\<rparr>))"

text \<open>Everything between \<open>BeginTx\<close>'s lookup and \<open>Commit\<close>.\<close>

definition applyFrame ::
    "env \<Rightarrow> TransactionFrame \<Rightarrow> int \<Rightarrow> store \<Rightarrow> (store \<times> TransactionACK) result" where
  "applyFrame E frame now s =
     (case guardFrame E frame s of
        Inl err \<Rightarrow> Inl err
      | Inr (stateRevision, lastSequence) \<Rightarrow>
          (case writeLedger frame stateRevision lastSequence now s of
             Inl err \<Rightarrow> Inl err
           | Inr s1 \<Rightarrow>
               (case insertOutboxEvents E frame now (fr_Events frame)
                       (writeCheckpoints E frame now (fr_Checkpoints frame) s1) of
                  Inl err \<Rightarrow> Inl err
                | Inr s2 \<Rightarrow> Inr (s2, frame_ack frame (stateRevision + 1)))))"

text \<open>What \<open>tx.Commit\<close> did: succeed; fail with nothing written; fail after writing.\<close>

datatype commit_outcome = CommitOk | CommitRolledBack | CommitUnreported

definition ApplyTransaction ::
    "env \<Rightarrow> commit_outcome \<Rightarrow> bool \<Rightarrow> TransactionFrame \<Rightarrow> int \<Rightarrow> store \<Rightarrow> store \<times> TransactionACK result" where
  "ApplyTransaction E commit readable frame now s =
     (case validateFrame frame of
        Some err \<Rightarrow> (s, Inl err)
      | None \<Rightarrow>
          (case lookupTransaction frame s of
             Inl err \<Rightarrow> (s, Inl err)
           | Inr (Some ack) \<Rightarrow> (s, Inr ack)
           | Inr None \<Rightarrow>
               (case applyFrame E frame now s of
                  Inl err \<Rightarrow> (s, Inl err)
                | Inr (s', ack) \<Rightarrow>
                    if commit = CommitOk then (s', Inr ack)
                    else let durable = (if commit = CommitUnreported then s' else s) in
                      (durable,
                       case resolveTransaction readable frame durable of
                         Inr (Some resolved) \<Rightarrow> Inr resolved
                       | _ \<Rightarrow> Inl (Errorf ''commit transaction frame'')))))"

section \<open>What the inserts keep\<close>

lemma insertDeliveries_effect:
  assumes "insertDeliveries outbox dep now ds s = Inr s'"
  shows "\<exists>new. s' = s\<lparr>deliveries := deliveries s @ new\<rparr> \<and>
    map (\<lambda>v. (v_destination v, v_revision v)) new =
      map (\<lambda>d. (od_DestinationID d, od_DestinationRevision d)) ds \<and>
    (\<forall>v\<in>set new. v_outbox v = outbox \<and> v_deployment v = dep \<and> v_status v = DlvPending \<and>
       v_attempts v = 0 \<and> v_next_at v = now)"
  using assms
proof (induction ds arbitrary: s)
  case Nil
  then show ?case by (intro exI [of _ "[]"]) simp
next
  case (Cons d ds)
  let ?row = "\<lparr>v_rowid = next_rowid v_rowid (deliveries s),
     v_outbox = outbox, v_deployment = dep, v_destination = od_DestinationID d,
     v_revision = od_DestinationRevision d, v_status = DlvPending, v_attempts = 0,
     v_next_at = now, v_owner = None, v_expires = None, v_delivered_at = None,
     v_error = '''', v_dead_at = None\<rparr>"
  from Cons.prems have
    "insertDeliveries outbox dep now ds (s\<lparr>deliveries := deliveries s @ [?row]\<rparr>) = Inr s'"
    by (simp split: if_splits)
  from Cons.IH [OF this] obtain new where
    "s' = s\<lparr>deliveries := deliveries s @ ?row # new\<rparr>"
    "map (\<lambda>v. (v_destination v, v_revision v)) new =
     map (\<lambda>d. (od_DestinationID d, od_DestinationRevision d)) ds"
    "\<forall>v\<in>set new. v_outbox v = outbox \<and> v_deployment v = dep \<and> v_status v = DlvPending \<and>
       v_attempts v = 0 \<and> v_next_at v = now"
    by auto
  then show ?case by (intro exI [of _ "?row # new"]) simp
qed

lemma insertDeliveries_inv:
  assumes "insertDeliveries outbox dep now ds s = Inr s'" "store_inv s"
    "(outbox, dep) \<in> (\<lambda>e. (e_outbox e, e_deployment e)) ` set (events s)"
  shows "store_inv s'"
  using assms
proof (induction ds arbitrary: s)
  case Nil
  then show ?case by simp
next
  case (Cons d ds)
  let ?row = "\<lparr>v_rowid = next_rowid v_rowid (deliveries s),
     v_outbox = outbox, v_deployment = dep, v_destination = od_DestinationID d,
     v_revision = od_DestinationRevision d, v_status = DlvPending, v_attempts = 0,
     v_next_at = now, v_owner = None, v_expires = None, v_delivered_at = None,
     v_error = '''', v_dead_at = None\<rparr>"
  let ?s = "s\<lparr>deliveries := deliveries s @ [?row]\<rparr>"
  have new: "\<forall>v\<in>set (deliveries s). delivery_key v \<noteq> delivery_key ?row"
    and ref: "(dep, od_DestinationID d, od_DestinationRevision d) \<in> binding_key ` set (bindings s)"
    and step: "insertDeliveries outbox dep now ds ?s = Inr s'"
    using Cons.prems(1) by (auto split: if_splits simp: exists_where_iff image_iff)
  have "keys_ok ?s"
    using Cons.prems(2) new by (auto simp: store_inv_def keys_ok_def uniq_snoc uniq_insert_rowid)
  moreover have "refs_ok ?s"
    using Cons.prems(2,3) ref by (auto simp: store_inv_def refs_ok_def)
  moreover have "deliveries_ok ?s"
    using Cons.prems(2) by (auto simp: store_inv_def deliveries_ok_def delivery_row_ok_def)
  ultimately have "store_inv ?s" using Cons.prems(2) by (simp add: store_inv_def)
  then show ?case using Cons.IH [OF step] Cons.prems(3) by simp
qed

lemma insertOutboxEvent_inv:
  assumes "insertOutboxEvent E frame now event s = Inr s'" "store_inv s"
    "(fr_DeploymentID frame, fr_Generation frame, fr_Sequence frame) \<in> tx_key ` set (transactions s)"
    "fr_DeploymentID frame \<in> d_id ` set (deployments s)"
  shows "store_inv s'"
proof (cases "event_conflict (oe_OutboxID event)
    (fr_DeploymentID frame, KindMonitor, oe_EventID event) s")
  case True
  then show ?thesis using assms(1,2)
    by (auto simp: insertOutboxEvent_def Let_def split: option.splits if_splits)
next
  case False
  let ?row = "\<lparr>e_rowid = next_rowid e_rowid (events s), e_outbox = oe_OutboxID event,
     e_deployment = fr_DeploymentID frame, e_kind = KindMonitor, e_generation = fr_Generation frame,
     e_seq = Some (fr_Sequence frame), e_event = oe_EventID event,
     e_payload = marshal_message E ((oe_Message event)\<lparr>msg_Time := Some now\<rparr>),
     e_payload_hash = sha256 E (marshal_message E (oe_Message event)), e_created_at = now\<rparr>"
  let ?s = "s\<lparr>events := events s @ [?row]\<rparr>"
  have step: "insertDeliveries (oe_OutboxID event) (fr_DeploymentID frame) now
      (oe_Deliveries event) ?s = Inr s'"
    using assms(1) False by (simp add: insertOutboxEvent_def Let_def)
  have "keys_ok ?s"
    using assms(2) False
    by (auto simp: store_inv_def keys_ok_def uniq_snoc event_conflict_def exists_where_iff)
  moreover have "refs_ok ?s"
    using assms(2,3,4) by (auto simp: store_inv_def refs_ok_def)
  ultimately have "store_inv ?s" using assms(2) by (simp add: store_inv_def)
  then show ?thesis by (rule insertDeliveries_inv [OF step]) simp
qed

text \<open>The inserts touch the two outbox tables only.\<close>

lemma insertOutboxEvent_tables:
  assumes "insertOutboxEvent E frame now event s = Inr s'"
  shows "\<exists>es vs. s' = s\<lparr>events := events s @ es, deliveries := deliveries s @ vs\<rparr>"
proof (cases "event_conflict (oe_OutboxID event)
    (fr_DeploymentID frame, KindMonitor, oe_EventID event) s")
  case True
  then have "s' = s" using assms
    by (auto simp: insertOutboxEvent_def Let_def split: option.splits if_splits)
  then show ?thesis by (intro exI [of _ "[]"]) simp
next
  case False
  with assms obtain row where "insertDeliveries (oe_OutboxID event) (fr_DeploymentID frame) now
      (oe_Deliveries event) (s\<lparr>events := events s @ [row]\<rparr>) = Inr s'"
    by (auto simp: insertOutboxEvent_def Let_def)
  from insertDeliveries_effect [OF this] show ?thesis by auto
qed

lemma insertOutboxEvents_tables:
  "insertOutboxEvents E frame now es s = Inr s' \<Longrightarrow>
   \<exists>evs vs. s' = s\<lparr>events := events s @ evs, deliveries := deliveries s @ vs\<rparr>"
proof (induction es arbitrary: s)
  case Nil
  then show ?case by (intro exI [of _ "[]"]) simp
next
  case (Cons e es)
  then obtain s1 where "insertOutboxEvent E frame now e s = Inr s1"
    and "insertOutboxEvents E frame now es s1 = Inr s'"
    by (auto split: sum.splits)
  with Cons.IH [of s1] insertOutboxEvent_tables [of E frame now e s s1]
  obtain evs vs evs' vs' where
    "s' = s\<lparr>events := events s @ (evs @ evs'), deliveries := deliveries s @ (vs @ vs')\<rparr>"
    by auto
  then show ?case by blast
qed

lemma insertOutboxEvents_inv:
  assumes "insertOutboxEvents E frame now es s = Inr s'" "store_inv s"
    "(fr_DeploymentID frame, fr_Generation frame, fr_Sequence frame) \<in> tx_key ` set (transactions s)"
    "fr_DeploymentID frame \<in> d_id ` set (deployments s)"
  shows "store_inv s'"
  using assms
proof (induction es arbitrary: s)
  case Nil
  then show ?case by simp
next
  case (Cons e es)
  then obtain s1 where s1: "insertOutboxEvent E frame now e s = Inr s1"
    and rest: "insertOutboxEvents E frame now es s1 = Inr s'"
    by (auto split: sum.splits)
  have "store_inv s1" using insertOutboxEvent_inv [OF s1] Cons.prems by blast
  moreover obtain evs vs where "s1 = s\<lparr>events := events s @ evs, deliveries := deliveries s @ vs\<rparr>"
    using insertOutboxEvent_tables [OF s1] by blast
  ultimately show ?case using Cons.IH [OF rest] Cons.prems by simp
qed

lemma writeCheckpoints_tables:
  "\<exists>cps. writeCheckpoints E frame now cs s = s\<lparr>checkpoints := cps\<rparr>"
proof (induction cs arbitrary: s)
  case Nil
  then show ?case by (intro exI [of _ "checkpoints s"]) simp
next
  case (Cons c cs)
  then show ?case by (metis (no_types, lifting) writeCheckpoints.simps(2) store.fold_congs(5)
    store.surjective store.update_convs(5))
qed

lemma writeCheckpoints_sel [simp]:
  "artifacts (writeCheckpoints E frame now cs s) = artifacts s"
  "deployments (writeCheckpoints E frame now cs s) = deployments s"
  "generations (writeCheckpoints E frame now cs s) = generations s"
  "healths (writeCheckpoints E frame now cs s) = healths s"
  "transactions (writeCheckpoints E frame now cs s) = transactions s"
  "bindings (writeCheckpoints E frame now cs s) = bindings s"
  "events (writeCheckpoints E frame now cs s) = events s"
  "deliveries (writeCheckpoints E frame now cs s) = deliveries s"
  "cursors (writeCheckpoints E frame now cs s) = cursors s"
  by (induction cs arbitrary: s) simp_all

lemma writeCheckpoints_inv:
  "store_inv s \<Longrightarrow> fr_DeploymentID frame \<in> d_id ` set (deployments s) \<Longrightarrow>
   store_inv (writeCheckpoints E frame now cs s)"
proof (induction cs arbitrary: s)
  case Nil
  then show ?case by simp
next
  case (Cons c cs)
  let ?cps = "upsert cp_key
      \<lparr>c_deployment = fr_DeploymentID frame, c_source = cm_Source c, c_value = cm_Value c,
       c_value_hash = sha256 E (cm_Value c), c_generation = fr_Generation frame,
       c_seq = fr_Sequence frame, c_updated_at = now\<rparr>
      (\<lambda>r. r\<lparr>c_value := cm_Value c, c_value_hash := sha256 E (cm_Value c),
             c_generation := fr_Generation frame, c_seq := fr_Sequence frame,
             c_updated_at := now\<rparr>)
      (checkpoints s)"
  have "uniq cp_key ?cps"
    using Cons.prems by (intro uniq_upsert) (simp_all add: store_inv_def keys_ok_def)
  moreover have "c_deployment ` set ?cps \<subseteq> d_id ` set (deployments s)"
    using Cons.prems by (auto simp: store_inv_def refs_ok_def set_upsert)
  ultimately have "store_inv (s\<lparr>checkpoints := ?cps\<rparr>)"
    using Cons.prems(1) by (simp add: store_inv_def keys_ok_def refs_ok_def)
  then show ?case using Cons.IH [of "s\<lparr>checkpoints := ?cps\<rparr>"] Cons.prems(2) by simp
qed

section \<open>The guards and the ledger write\<close>

lemma loadActiveGeneration_Some:
  "loadActiveGeneration i s = Some (a, r, l, h) \<longleftrightarrow>
     (\<exists>d g. find_deployment i s = Some d \<and> find_generation i a s = Some g \<and>
        d_active d = a \<and> g_status g = GenActive \<and>
        d_state_revision d = r \<and> g_last_seq g = l \<and> g_token_hash g = h)"
  by (auto simp: loadActiveGeneration_def split: option.splits if_splits)

lemma guardFrame_loaded:
  "guardFrame E frame s = Inr (r, l) \<longleftrightarrow>
     loadActiveGeneration (fr_DeploymentID frame) s =
       Some (fr_Generation frame, r, l, sha256 E (fr_WorkerToken frame)) \<and>
     fr_BaseStateRevision frame = r \<and> fr_Sequence frame = l + 1"
  by (auto simp: guardFrame_def split: option.splits if_splits)

lemma guardFrame_Inr:
  "guardFrame E frame s = Inr (r, l) \<longleftrightarrow>
     (\<exists>d g. find_deployment (fr_DeploymentID frame) s = Some d \<and>
        find_generation (fr_DeploymentID frame) (fr_Generation frame) s = Some g \<and>
        d_active d = fr_Generation frame \<and> g_status g = GenActive \<and>
        g_token_hash g = sha256 E (fr_WorkerToken frame) \<and>
        d_state_revision d = r \<and> fr_BaseStateRevision frame = r \<and>
        g_last_seq g = l \<and> fr_Sequence frame = l + 1)"
  unfolding guardFrame_loaded loadActiveGeneration_Some by blast

lemma lookup_fresh:
  "lookupTransaction frame s = Inr None \<longleftrightarrow>
     (fr_DeploymentID frame, fr_Generation frame, fr_Sequence frame) \<notin> tx_key ` set (transactions s)"
  unfolding find_transaction_None [symmetric] lookupTransaction_def by (simp split: option.splits)

lemma writeLedger_Inr:
  assumes "keys_ok s" "guardFrame E frame s = Inr (r, l)"
  shows "writeLedger frame r l now s = Inr (s\<lparr>
    deployments := update_where (state_hit frame)
      (\<lambda>d. d\<lparr>d_state := fr_NextState frame, d_state_revision := r + 1, d_updated_at := now\<rparr>)
      (deployments s),
    generations := update_where (seq_hit frame l) (\<lambda>g. g\<lparr>g_last_seq := fr_Sequence frame\<rparr>)
      (generations s),
    transactions := transactions s @
      [\<lparr>t_deployment = fr_DeploymentID frame, t_generation = fr_Generation frame,
        t_seq = fr_Sequence frame, t_payload_hash = fr_PayloadHash frame,
        t_base = fr_BaseStateRevision frame, t_result = r + 1,
        t_ack = frame_ack frame (r + 1), t_committed_at = now\<rparr>]\<rparr>)"
proof -
  from assms obtain d g where
    d: "d \<in> set (deployments s)" "state_hit frame d" and
    g: "g \<in> set (generations s)" "seq_hit frame l g"
    by (auto simp: guardFrame_Inr find_deployment_iff find_generation_iff state_hit_def seq_hit_def)
  have "count_where (state_hit frame) (deployments s) = 1"
    using assms(1) d by (intro count_where_uniq [where k = d_id]) (auto simp: keys_ok_def state_hit_def)
  moreover have "count_where (seq_hit frame l) (generations s) = 1"
    using assms(1) g by (intro count_where_uniq [where k = gen_key]) (auto simp: keys_ok_def seq_hit_def)
  ultimately show ?thesis by (simp add: writeLedger_def Let_def)
qed

text \<open>The three parts of \<open>ledger_ok\<close> that relate the tables, when a generation takes its next receipt.\<close>

lemma extended_gens:
  assumes led: "ledger_ok s" and g: "g \<in> set (generations s)" "g_last_seq g = l"
    and hit: "\<And>g'. g' \<in> set (generations s) \<Longrightarrow> P g' \<longleftrightarrow> g' = g"
    and t: "tx_key t = (g_deployment g, g_generation g, l + 1)"
  shows "\<forall>g'\<in>set (update_where P (\<lambda>g. g\<lparr>g_last_seq := l + 1\<rparr>) (generations s)). 0 \<le> g_last_seq g' \<and>
    (g_status g' = GenActive \<longrightarrow> (\<forall>k. 1 \<le> k \<and> k \<le> g_last_seq g' \<longrightarrow>
       (g_deployment g', g_generation g', k) \<in> tx_key ` set (transactions s @ [t])))"
  unfolding ball_update_where
proof (intro ballI, goal_cases)
  case (1 g')
  have old: "0 \<le> g_last_seq g' \<and> (g_status g' = GenActive \<longrightarrow>
      (\<forall>k. 1 \<le> k \<and> k \<le> g_last_seq g' \<longrightarrow>
         (g_deployment g', g_generation g', k) \<in> tx_key ` set (transactions s)))"
    using led 1 by (simp add: ledger_ok_def)
  show ?case
  proof (cases "g' = g")
    case True
    then have "(g_deployment g, g_generation g, k) \<in> tx_key ` set (transactions s @ [t])"
      if "g_status g = GenActive" "1 \<le> k" "k \<le> l + 1" for k
      using old g(2) t that by (cases "k = l + 1") auto
    then show ?thesis using True g old hit [OF 1] by simp
  next
    case False
    then show ?thesis using old hit [OF 1] by auto
  qed
qed

lemma extended_last:
  assumes keys: "keys_ok s" and led: "ledger_ok s" and g: "g \<in> set (generations s)" "g_last_seq g = l"
    and hit: "\<And>g'. g' \<in> set (generations s) \<Longrightarrow> P g' \<longleftrightarrow> g' = g"
    and t: "tx_key t = (g_deployment g, g_generation g, l + 1)"
    and x: "x \<in> set (transactions s @ [t])" "g' \<in> set (update_where P (\<lambda>g. g\<lparr>g_last_seq := l + 1\<rparr>) (generations s))"
      "gen_key g' = (t_deployment x, t_generation x)"
  shows "t_seq x \<le> g_last_seq g'"
proof -
  from x(2) obtain g0 where g0: "g0 \<in> set (generations s)" "g' = (if g0 = g then g\<lparr>g_last_seq := l + 1\<rparr> else g0)"
    using hit by (auto simp: update_where_def split: if_splits)
  show ?thesis
  proof (cases "x = t")
    case True
    then have "gen_key g0 = gen_key g" using x(3) g0(2) t by (auto split: if_splits)
    then have "g0 = g" using keys g0(1) g(1) by (auto simp: keys_ok_def dest: uniqD)
    then show ?thesis using True g0(2) t by simp
  next
    case False
    then have "t_seq x \<le> g_last_seq g0"
      using x(1,3) g0 led by (auto simp: ledger_ok_def split: if_splits)
    then show ?thesis using g0(2) g(2) by (auto split: if_splits)
  qed
qed

lemma extended_reach:
  assumes keys: "keys_ok s" and led: "ledger_ok s" and d: "d \<in> set (deployments s)" "d_state_revision d = r"
    and hit: "\<And>d'. d' \<in> set (deployments s) \<Longrightarrow> P d' \<longleftrightarrow> d' = d"
    and f: "d_id (f d) = d_id d" "d_state_revision (f d) = r + 1"
    and t: "t_deployment t = d_id d" "t_result t = r + 1"
    and x: "x \<in> set (transactions s @ [t])" "d' \<in> set (update_where P f (deployments s))" "d_id d' = t_deployment x"
  shows "t_result x \<le> d_state_revision d'"
proof -
  from x(2) obtain d0 where d0: "d0 \<in> set (deployments s)" "d_id d' = d_id d0"
    "d_state_revision d' = (if d0 = d then r + 1 else d_state_revision d0)"
    using hit f by (auto simp: update_where_def split: if_splits)
  show ?thesis
  proof (cases "x = t")
    case True
    then have "d0 = d" using x(3) d0 d t keys by (auto simp: keys_ok_def dest: uniqD)
    then show ?thesis using True d0 t by simp
  next
    case False
    then have "t_result x \<le> d_state_revision d0"
      using x(1,3) d0 led by (auto simp: ledger_ok_def)
    then show ?thesis using d0 d by (auto split: if_splits)
  qed
qed

lemma writeLedger_inv:
  assumes inv: "store_inv s" and guard: "guardFrame E frame s = Inr (r, l)"
    and fresh: "lookupTransaction frame s = Inr None"
    and w: "writeLedger frame r l now s = Inr s'"
  shows "store_inv s'"
proof -
  let ?i = "fr_DeploymentID frame" and ?n = "fr_Generation frame" and ?q = "fr_Sequence frame"
  have keys: "keys_ok s" using inv by (simp add: store_inv_def)
  obtain d g where d: "d \<in> set (deployments s)" "d_id d = ?i" "d_active d = ?n" "d_state_revision d = r"
    and base: "fr_BaseStateRevision frame = r"
    and g: "g \<in> set (generations s)" "gen_key g = (?i, ?n)" "g_status g = GenActive" "g_last_seq g = l"
    and q: "?q = l + 1"
    using guard keys by (auto simp: guardFrame_Inr find_deployment_iff find_generation_iff)
  have dhit: "state_hit frame d' \<longleftrightarrow> d' = d" if "d' \<in> set (deployments s)" for d'
    using that d base keys by (auto simp: state_hit_def keys_ok_def dest: uniqD)
  have ghit: "seq_hit frame l g' \<longleftrightarrow> g' = g" if "g' \<in> set (generations s)" for g'
    using that g keys by (auto simp: seq_hit_def keys_ok_def dest: uniqD)
  have new: "(?i, ?n, ?q) \<notin> tx_key ` set (transactions s)"
    using fresh by (simp add: lookup_fresh)
  have s': "s' = s\<lparr>deployments := update_where (state_hit frame)
        (\<lambda>d. d\<lparr>d_state := fr_NextState frame, d_state_revision := r + 1, d_updated_at := now\<rparr>)
        (deployments s),
      generations := update_where (seq_hit frame l) (\<lambda>g. g\<lparr>g_last_seq := ?q\<rparr>) (generations s),
      transactions := transactions s @
        [\<lparr>t_deployment = ?i, t_generation = ?n, t_seq = ?q, t_payload_hash = fr_PayloadHash frame,
          t_base = fr_BaseStateRevision frame, t_result = r + 1,
          t_ack = frame_ack frame (r + 1), t_committed_at = now\<rparr>]\<rparr>"
    using writeLedger_Inr [OF keys guard, of now] w by simp
  let ?D = "update_where (state_hit frame)
      (\<lambda>d. d\<lparr>d_state := fr_NextState frame, d_state_revision := r + 1, d_updated_at := now\<rparr>)
      (deployments s)"
  let ?G = "update_where (seq_hit frame l) (\<lambda>g. g\<lparr>g_last_seq := ?q\<rparr>) (generations s)"
  let ?t = "\<lparr>t_deployment = ?i, t_generation = ?n, t_seq = ?q, t_payload_hash = fr_PayloadHash frame,
      t_base = fr_BaseStateRevision frame, t_result = r + 1,
      t_ack = frame_ack frame (r + 1), t_committed_at = now\<rparr>"
  have gen: "(?i, ?n) \<in> gen_key ` set (generations s)" using g(1,2) by (intro image_eqI [where x = g]) simp_all
  have "refs_ok (s\<lparr>deployments := ?D, generations := ?G\<rparr>)" using inv
    by (simp add: store_inv_def table_simps)
  then have "refs_ok s'" unfolding s'
    using refs_add_transaction [of "s\<lparr>deployments := ?D, generations := ?G\<rparr>" ?t] gen
    by (simp add: table_simps)
  moreover have "keys_ok s'"
  proof -
    have "keys_ok (s\<lparr>deployments := ?D, generations := ?G\<rparr>)" using keys by (simp add: table_simps)
    moreover have "\<forall>t\<in>set (transactions s). tx_key t \<noteq> tx_key ?t" using new by (auto simp: image_iff)
    ultimately show ?thesis unfolding s' by (simp add: keys_ok_def uniq_snoc)
  qed
  moreover have "fence_ok s'" using inv
    by (simp add: s' store_inv_def fence_ok_def image_update_where ball_update_where)
  moreover have "health_ok s'" using inv
    by (simp add: s' store_inv_def health_ok_def ball_update_where health_row_ok_def)
  moreover have "ledger_ok s'"
  proof -
    have led: "ledger_ok s" using inv by (simp add: store_inv_def)
    have bound: "t_result t \<le> r" if "t \<in> set (transactions s)" "t_deployment t = ?i" for t
      using led that d by (auto simp: ledger_ok_def)
    have pos: "0 \<le> r" "0 \<le> l" using led d g by (auto simp: ledger_ok_def)
    have deps: "\<forall>d'\<in>set ?D. 0 \<le> d_state_revision d'"
      using led pos(1) by (simp add: ball_update_where ledger_ok_def)
    have t: "tx_key ?t = (g_deployment g, g_generation g, l + 1)" using g(2) q by simp
    have gens: "\<forall>g'\<in>set ?G. 0 \<le> g_last_seq g' \<and> (g_status g' = GenActive \<longrightarrow> (\<forall>k. 1 \<le> k \<and> k \<le> g_last_seq g' \<longrightarrow>
           (g_deployment g', g_generation g', k) \<in> tx_key ` set (transactions s @ [?t])))"
      unfolding q by (rule extended_gens [OF led g(1,4) ghit]) (simp_all add: q g(2) [simplified])
    have last: "t_seq t \<le> g_last_seq g'"
      if "t \<in> set (transactions s @ [?t])" "g' \<in> set ?G" "gen_key g' = (t_deployment t, t_generation t)" for t g'
      by (rule extended_last [OF keys led g(1,4) ghit t that(1) that(2) [unfolded q] that(3)])
    have reach: "t_result t \<le> d_state_revision d'"
      if "t \<in> set (transactions s @ [?t])" "d' \<in> set ?D" "d_id d' = t_deployment t" for t d'
      by (rule extended_reach [OF keys led d(1,4) dhit _ _ _ _ that]) (simp_all add: d)
    have rows: "\<forall>t\<in>set (transactions s @ [?t]). 0 \<le> t_base t \<and> t_result t = t_base t + 1 \<and> 1 \<le> t_seq t \<and>
        t_ack t = \<lparr>ack_DeploymentID = t_deployment t, ack_Generation = t_generation t,
          ack_Sequence = t_seq t, ack_PayloadHash = hex_encode (t_payload_hash t),
          ack_ResultRevision = t_result t, ack_Status = ''accepted''\<rparr>"
      unfolding ball_snoc using led pos base q by (simp add: ledger_ok_def frame_ack_def)
    have results: "uniq (\<lambda>t. (t_deployment t, t_result t)) (transactions s @ [?t])"
      unfolding uniq_snoc using led bound by (force simp: ledger_ok_def)
    have sel: "deployments s' = ?D" "generations s' = ?G"
      "transactions s' = transactions s @ [?t]" by (simp_all add: s')
    show ?thesis
      by (rule ledger_okI, unfold sel)
        (fact deps, fact gens, fact rows, erule (2) last, erule (2) reach, fact results)
  qed
  ultimately show ?thesis using inv by (simp add: store_inv_def s')
qed

section \<open>ApplyTransaction\<close>

text \<open>The state after a committed frame, up to the new outbox rows.\<close>

definition ledger_row :: "TransactionFrame \<Rightarrow> int \<Rightarrow> transaction_row" where
  "ledger_row frame now =
     \<lparr>t_deployment = fr_DeploymentID frame, t_generation = fr_Generation frame,
      t_seq = fr_Sequence frame, t_payload_hash = fr_PayloadHash frame,
      t_base = fr_BaseStateRevision frame, t_result = fr_BaseStateRevision frame + 1,
      t_ack = frame_ack frame (fr_BaseStateRevision frame + 1), t_committed_at = now\<rparr>"

lemma applyFrame_Inr:
  assumes "keys_ok s" "applyFrame E frame now s = Inr (s', ack)"
  shows "\<exists>l cps evs vs. guardFrame E frame s = Inr (fr_BaseStateRevision frame, l) \<and>
    fr_Sequence frame = l + 1 \<and> ack = t_ack (ledger_row frame now) \<and>
    insertOutboxEvents E frame now (fr_Events frame)
      (writeCheckpoints E frame now (fr_Checkpoints frame)
        (s\<lparr>deployments := update_where (state_hit frame)
             (\<lambda>d. d\<lparr>d_state := fr_NextState frame,
                    d_state_revision := fr_BaseStateRevision frame + 1, d_updated_at := now\<rparr>)
             (deployments s),
           generations := update_where (seq_hit frame l)
             (\<lambda>g. g\<lparr>g_last_seq := fr_Sequence frame\<rparr>) (generations s),
           transactions := transactions s @ [ledger_row frame now]\<rparr>)) = Inr s' \<and>
    s' = s\<lparr>deployments := update_where (state_hit frame)
             (\<lambda>d. d\<lparr>d_state := fr_NextState frame,
                    d_state_revision := fr_BaseStateRevision frame + 1, d_updated_at := now\<rparr>)
             (deployments s),
           generations := update_where (seq_hit frame l)
             (\<lambda>g. g\<lparr>g_last_seq := fr_Sequence frame\<rparr>) (generations s),
           transactions := transactions s @ [ledger_row frame now],
           checkpoints := cps, events := events s @ evs, deliveries := deliveries s @ vs\<rparr>"
proof -
  obtain r l where guard: "guardFrame E frame s = Inr (r, l)"
    using assms(2) by (cases "guardFrame E frame s") (auto simp: applyFrame_def)
  then have r: "r = fr_BaseStateRevision frame" and l: "fr_Sequence frame = l + 1"
    by (simp_all add: guardFrame_loaded)
  let ?s1 = "s\<lparr>deployments := update_where (state_hit frame)
             (\<lambda>d. d\<lparr>d_state := fr_NextState frame,
                    d_state_revision := fr_BaseStateRevision frame + 1, d_updated_at := now\<rparr>)
             (deployments s),
           generations := update_where (seq_hit frame l)
             (\<lambda>g. g\<lparr>g_last_seq := fr_Sequence frame\<rparr>) (generations s),
           transactions := transactions s @ [ledger_row frame now]\<rparr>"
  have "writeLedger frame r l now s = Inr ?s1"
    using writeLedger_Inr [OF assms(1) guard] by (simp add: r ledger_row_def)
  then have ev: "insertOutboxEvents E frame now (fr_Events frame)
      (writeCheckpoints E frame now (fr_Checkpoints frame) ?s1) = Inr s'"
    and ack: "ack = t_ack (ledger_row frame now)"
    using assms(2) guard by (auto simp: applyFrame_def r ledger_row_def split: sum.splits)
  obtain cps where cps: "writeCheckpoints E frame now (fr_Checkpoints frame) ?s1 =
      ?s1\<lparr>checkpoints := cps\<rparr>"
    using writeCheckpoints_tables by blast
  obtain evs vs where "s' = ?s1\<lparr>checkpoints := cps, events := events s @ evs,
      deliveries := deliveries s @ vs\<rparr>"
    using insertOutboxEvents_tables [OF ev] by (auto simp: cps)
  then show ?thesis using guard r l ack ev by blast
qed

lemma applyFrame_inv:
  assumes inv: "store_inv s" and fresh: "lookupTransaction frame s = Inr None"
    and app: "applyFrame E frame now s = Inr (s', ack)"
  shows "store_inv s'"
proof -
  have keys: "keys_ok s" using inv by (simp add: store_inv_def)
  obtain l where guard: "guardFrame E frame s = Inr (fr_BaseStateRevision frame, l)"
    using applyFrame_Inr [OF keys app] by blast
  let ?r = "fr_BaseStateRevision frame"
  from writeLedger_Inr [OF keys guard] obtain s1 where w: "writeLedger frame ?r l now s = Inr s1"
    by blast
  have inv1: "store_inv s1" by (rule writeLedger_inv [OF inv guard fresh w])
  have s1_eq: "Inr s1 = writeLedger frame ?r l now s" by (simp add: w)
  have s1: "(fr_DeploymentID frame, fr_Generation frame, fr_Sequence frame) \<in> tx_key ` set (transactions s1)"
    "d_id ` set (deployments s1) = d_id ` set (deployments s)"
    using s1_eq unfolding writeLedger_Inr [OF keys guard] by (simp_all add: image_update_where)
  obtain d where "find_deployment (fr_DeploymentID frame) s = Some d"
    using guard unfolding guardFrame_Inr by blast
  then have dep: "fr_DeploymentID frame \<in> d_id ` set (deployments s1)"
    using s1(2) find_deploymentD [of "fr_DeploymentID frame" s d] by (metis imageI)
  have ev: "insertOutboxEvents E frame now (fr_Events frame)
      (writeCheckpoints E frame now (fr_Checkpoints frame) s1) = Inr s'"
    using app guard w by (auto simp: applyFrame_def split: sum.splits)
  have "store_inv (writeCheckpoints E frame now (fr_Checkpoints frame) s1)"
    using inv1 dep by (rule writeCheckpoints_inv)
  then show ?thesis using insertOutboxEvents_inv [OF ev] s1 dep by simp
qed

lemma applyFrame_advances:
  assumes inv: "store_inv s" and fresh: "lookupTransaction frame s = Inr None"
    and app: "applyFrame E frame now s = Inr (s', ack)"
  shows "advances i s s'"
proof -
  have keys: "keys_ok s" using inv by (simp add: store_inv_def)
  obtain l cps evs vs where guard: "guardFrame E frame s = Inr (fr_BaseStateRevision frame, l)"
    and l: "fr_Sequence frame = l + 1"
    and s': "s' = s\<lparr>deployments := update_where (state_hit frame)
             (\<lambda>d. d\<lparr>d_state := fr_NextState frame,
                    d_state_revision := fr_BaseStateRevision frame + 1, d_updated_at := now\<rparr>)
             (deployments s),
           generations := update_where (seq_hit frame l)
             (\<lambda>g. g\<lparr>g_last_seq := fr_Sequence frame\<rparr>) (generations s),
           transactions := transactions s @ [ledger_row frame now],
           checkpoints := cps, events := events s @ evs, deliveries := deliveries s @ vs\<rparr>"
    using applyFrame_Inr [OF keys app] by blast
  obtain g where g: "g \<in> set (generations s)" "g_deployment g = fr_DeploymentID frame"
    "g_generation g = fr_Generation frame" "g_status g = GenActive"
    using guard by (auto simp: guardFrame_Inr dest: find_generationD)
  have one: "g' = g" if "g' \<in> set (generations s)" "g_deployment g' = fr_DeploymentID frame"
    "g_generation g' = fr_Generation frame" for g'
    using that g keys by (auto simp: keys_ok_def dest: uniqD)
  have dep: "dep_adv i (deployments s) (deployments s')"
    unfolding s' by (simp, rule dep_adv_update) (simp add: state_hit_def)
  have gen: "gen_adv i (generations s) (generations s')"
    unfolding s' by (simp, rule gen_adv_update) (use g one l in \<open>auto simp: seq_hit_def gen_later_def\<close>)
  have key: "tx_key (ledger_row frame now) \<notin> tx_key ` set (transactions s)"
    using fresh by (simp add: lookup_fresh ledger_row_def)
  have act: "g_status g' = GenActive"
    if "g' \<in> set (generations s)" "gen_key g' = (i, t_generation (ledger_row frame now))"
      "t_deployment (ledger_row frame now) = i" for g'
    using that g one [of g'] by (simp add: ledger_row_def)
  have "rec_adv i (generations s) (transactions s) (generations s') (transactions s')"
    unfolding rec_adv_def using key act by (cases "t_deployment (ledger_row frame now) = i") (auto simp: s')
  with dep gen show ?thesis by (simp add: advances_def)
qed

text \<open>The three ways a call ends.\<close>

lemma ApplyTransaction_cases:
  obtains (unchanged) "fst (ApplyTransaction E commit readable frame now s) = s"
  | (applied) s' ack where "validateFrame frame = None" "lookupTransaction frame s = Inr None"
      "applyFrame E frame now s = Inr (s', ack)"
      "fst (ApplyTransaction E commit readable frame now s) = s'"
proof (cases "fst (ApplyTransaction E commit readable frame now s) = s")
  case False
  then show ?thesis
    by (auto simp: ApplyTransaction_def Let_def split: option.splits sum.splits if_splits
        intro: applied)
qed (rule unchanged)

lemma ApplyTransaction_keeps:
  assumes "store_inv s"
  shows "store_inv (fst (ApplyTransaction E commit readable frame now s))"
  by (cases rule: ApplyTransaction_cases [of E commit readable frame now s])
    (use assms applyFrame_inv in auto)

lemma ApplyTransaction_advances:
  assumes "store_inv s"
  shows "advances i s (fst (ApplyTransaction E commit readable frame now s))"
  by (cases rule: ApplyTransaction_cases [of E commit readable frame now s])
    (use assms applyFrame_advances in auto)

interpretation apply_op: fenced_op "\<lambda>s. fst (ApplyTransaction E commit readable frame now s)" i
  for E commit readable frame now i
  by unfold_locales (simp_all add: ApplyTransaction_keeps ApplyTransaction_advances)

section \<open>Answers\<close>

text \<open>The answer the ledger holds for a frame.\<close>

definition receipt_of :: "TransactionFrame \<Rightarrow> TransactionACK \<Rightarrow> transaction_row \<Rightarrow> bool" where
  "receipt_of frame ack t \<longleftrightarrow>
     tx_key t = (fr_DeploymentID frame, fr_Generation frame, fr_Sequence frame) \<and>
     t_payload_hash t = fr_PayloadHash frame \<and> t_ack t = ack"

lemma lookup_receipt:
  "lookupTransaction frame s = Inr (Some ack) \<Longrightarrow> \<exists>t\<in>set (transactions s). receipt_of frame ack t"
  by (auto simp: lookupTransaction_def receipt_of_def dest!: find_transactionD split: option.splits if_splits)

lemma resolve_receipt:
  "resolveTransaction readable frame s = Inr (Some ack) \<Longrightarrow>
   \<exists>t\<in>set (transactions s). receipt_of frame ack t"
  by (auto simp: resolveTransaction_def receipt_of_def dest!: find_transactionD split: option.splits if_splits)

lemma acknowledged_receipt:
  assumes inv: "store_inv s" and ok: "ApplyTransaction E commit readable frame now s = (s1, Inr ack)"
  shows "validateFrame frame = None" "\<exists>t\<in>set (transactions s1). receipt_of frame ack t"
proof -
  show valid: "validateFrame frame = None"
    using ok by (auto simp: ApplyTransaction_def split: option.splits)
  show "\<exists>t\<in>set (transactions s1). receipt_of frame ack t"
  proof (cases "lookupTransaction frame s")
    case (Inl e)
    then show ?thesis using ok valid by (simp add: ApplyTransaction_def)
  next
    case (Inr found)
    show ?thesis
    proof (cases found)
      case (Some a)
      then show ?thesis using ok valid Inr lookup_receipt [of frame s a] by (simp add: ApplyTransaction_def)
    next
      case None
      then obtain s' a where app: "applyFrame E frame now s = Inr (s', a)"
        using ok valid Inr by (auto simp: ApplyTransaction_def split: sum.splits)
      show ?thesis
      proof (cases "commit = CommitOk")
        case True
        then have "s1 = s'" "ack = a" using ok valid Inr None app by (simp_all add: ApplyTransaction_def)
        moreover have "a = t_ack (ledger_row frame now)" "ledger_row frame now \<in> set (transactions s')"
          using applyFrame_Inr [OF store_invD(1) [OF inv] app] by auto
        ultimately show ?thesis
          by (intro bexI [of _ "ledger_row frame now"]) (simp_all add: receipt_of_def ledger_row_def)
      next
        case False
        then have "resolveTransaction readable frame s1 = Inr (Some ack)"
          using ok valid Inr None app
          by (auto simp: ApplyTransaction_def Let_def split: sum.splits option.splits)
        then show ?thesis by (rule resolve_receipt)
      qed
    qed
  qed
qed

lemma replay_found:
  assumes "keys_ok s" "validateFrame frame = None" "t \<in> set (transactions s)" "receipt_of frame ack t"
  shows "ApplyTransaction E commit readable frame now s = (s, Inr ack)"
proof -
  have "find_transaction (fr_DeploymentID frame) (fr_Generation frame) (fr_Sequence frame) s = Some t"
    using assms by (simp add: find_transaction_iff receipt_of_def)
  then show ?thesis
    using assms by (simp add: ApplyTransaction_def lookupTransaction_def receipt_of_def)
qed

lemma retired_refused:
  assumes "validateFrame frame = None"
    "(fr_DeploymentID frame, fr_Generation frame, fr_Sequence frame) \<notin> tx_key ` set (transactions s)"
    "find_generation (fr_DeploymentID frame) (fr_Generation frame) s = Some g" "g_status g = GenRetired"
  shows "ApplyTransaction E commit readable frame now s = (s, Inl ErrGenerationFenced)"
proof -
  have "lookupTransaction frame s = Inr None" using assms(2) by (simp add: lookup_fresh)
  moreover have "guardFrame E frame s = Inl ErrGenerationFenced"
    using assms(3,4) by (auto simp: guardFrame_def loadActiveGeneration_def split: option.splits)
  ultimately show ?thesis using assms(1) by (simp add: ApplyTransaction_def applyFrame_def)
qed

end
