(* ===== verification/Generations.thy ===== *)
theory Generations
  imports Advance
begin

text \<open>
  \<open>internal/storage/generations.go\<close>: the generation fence.  \<open>RecoverGenerations\<close> fences what
  a previous daemon left running; \<open>ActivateGeneration\<close> moves a deployment to a fresh
  generation, with a token only whose hash is kept.  The random token and the clock readings
  are arguments.
\<close>

record GenerationActivation =
  ga_DeploymentID :: string
  ga_ArtifactID :: string
  ga_ConfigRevision :: int
  ga_StateRevision :: int
  ga_ActiveGeneration :: int
  ga_SecretFingerprint :: string

record ActiveGeneration =
  ag_DeploymentID :: string
  ag_Generation :: int
  ag_WorkerToken :: string

section \<open>Operations\<close>

definition RecoverGenerations :: "int \<Rightarrow> store \<Rightarrow> (store \<times> unit) result" where
  "RecoverGenerations at s =
     (let G = update_where (\<lambda>g. g_status g = GenActive) (retire_once at ''daemon restarted'')
                (generations s);
          D = update_where (\<lambda>d. d_status d = DepActive \<and> 0 < d_active d)
                (\<lambda>d. d\<lparr>d_active := 0, d_updated_at := at\<rparr>) (deployments s);
          ids = map d_id (filter (\<lambda>d. d_status d = DepActive) D);
          H = update_where (\<lambda>h. h_deployment h \<in> set ids)
                (\<lambda>h. h\<lparr>h_generation := 0, h_status := HealthStarting, h_updated_at := at\<rparr>)
                (healths s)
      in Inr (s\<lparr>deployments := D, generations := G, healths := H\<rparr>, ()))"

text \<open>\<open>SELECT COALESCE(MAX(generation),0) ... WHERE deployment_id=?\<close>.\<close>

definition maxGeneration :: "string \<Rightarrow> store \<Rightarrow> int" where
  "maxGeneration i s =
     fold max (map g_generation (filter (\<lambda>g. g_deployment g = i) (generations s))) 0"

definition activation_hit :: "GenerationActivation \<Rightarrow> int \<Rightarrow> deployment_row \<Rightarrow> bool" where
  "activation_hit a active d \<longleftrightarrow> d_id d = ga_DeploymentID a \<and> d_artifact d = ga_ArtifactID a \<and>
     d_active d = active \<and> d_config_revision d = ga_ConfigRevision a \<and>
     d_state_revision d = ga_StateRevision a"

definition new_generation ::
    "env \<Rightarrow> GenerationActivation \<Rightarrow> string \<Rightarrow> int \<Rightarrow> int \<Rightarrow> generation_row list \<Rightarrow> generation_row" where
  "new_generation E a workerToken next_gen now G =
     \<lparr>g_rowid = next_rowid g_rowid G, g_deployment = ga_DeploymentID a, g_generation = next_gen,
      g_token_hash = sha256 E workerToken, g_artifact = ga_ArtifactID a,
      g_config_revision = ga_ConfigRevision a, g_fingerprint = ga_SecretFingerprint a,
      g_status = GenActive, g_last_seq = 0, g_started_at = now, g_ready_at = None,
      g_stopped_at = None, g_stop_reason = [], g_stop_error = [], g_retired_at = None\<rparr>"

text \<open>The row that \<open>if activeGeneration > 0 { UPDATE ... }\<close> retires.\<close>

definition replaced :: "GenerationActivation \<Rightarrow> int \<Rightarrow> generation_row \<Rightarrow> bool" where
  "replaced a active g \<longleftrightarrow> 0 < active \<and> g_deployment g = ga_DeploymentID a \<and>
     g_generation g = active \<and> g_status g = GenActive"

definition advanceGeneration ::
    "env \<Rightarrow> GenerationActivation \<Rightarrow> string \<Rightarrow> int \<Rightarrow> int \<Rightarrow> store \<Rightarrow> (store \<times> ActiveGeneration) result" where
  "advanceGeneration E a workerToken active now s =
     (let i = ga_DeploymentID a;
          G1 = update_where (replaced a active) (retire now ''generation replaced'') (generations s);
          next_gen = maxGeneration i s + 1
      in case requireOneRow (count_where (activation_hit a active) (deployments s))
                ''advance deployment generation'' of
           Some err \<Rightarrow> Inl err
         | None \<Rightarrow>
             Inr (ensureDeploymentHealth i next_gen HealthStarting now
                    (s\<lparr>deployments := update_where (activation_hit a active)
                         (\<lambda>d. d\<lparr>d_active := next_gen, d_updated_at := now\<rparr>) (deployments s),
                       generations := G1 @ [new_generation E a workerToken next_gen now G1]\<rparr>),
                  \<lparr>ag_DeploymentID = i, ag_Generation = next_gen, ag_WorkerToken = workerToken\<rparr>))"

definition ActivateGeneration ::
    "env \<Rightarrow> GenerationActivation \<Rightarrow> string \<Rightarrow> int \<Rightarrow> int \<Rightarrow> store \<Rightarrow> (store \<times> ActiveGeneration) result" where
  "ActivateGeneration E a workerToken checkedAt now s =
     (if ga_DeploymentID a = '''' \<or> ga_ArtifactID a = '''' \<or> ga_ConfigRevision a < 1
      then Inl (Errorf ''generation activation requires deployment, artifact, and config revision'')
      else if length (ga_SecretFingerprint a) = 0
      then Inl (Errorf ''generation activation requires a secret fingerprint'')
      else case find (\<lambda>d. d_id d = ga_DeploymentID a \<and> d_status d = DepActive \<and>
                          (d_expires_at d = None \<or> checkedAt < the (d_expires_at d))) (deployments s) of
        None \<Rightarrow> Inl (Errorf (''active deployment not found: '' @ ga_DeploymentID a))
      | Some d \<Rightarrow>
          if d_config_revision d \<noteq> ga_ConfigRevision a then Inl (Errorf ''config revision changed'')
          else if d_artifact d \<noteq> ga_ArtifactID a \<or> d_state_revision d \<noteq> ga_StateRevision a \<or>
                  d_active d \<noteq> ga_ActiveGeneration a
          then Inl (Errorf ''deployment snapshot changed during generation activation'')
          else advanceGeneration E a workerToken (d_active d) now s)"

section \<open>Recovery\<close>

lemma RecoverGenerations_inv:
  assumes inv: "store_inv s" and op: "RecoverGenerations at s = Inr (s', u)"
  shows "store_inv s'"
proof -
  let ?P = "\<lambda>d. d_status d = DepActive \<and> 0 < d_active d"
  let ?f = "\<lambda>d. d\<lparr>d_active := 0, d_updated_at := at\<rparr>"
  let ?D = "update_where ?P ?f (deployments s)"
  let ?G = "update_where (\<lambda>g. g_status g = GenActive) (retire_once at ''daemon restarted'') (generations s)"
  let ?ids = "map d_id (filter (\<lambda>d. d_status d = DepActive) ?D)"
  let ?H = "update_where (\<lambda>h. h_deployment h \<in> set ?ids)
      (\<lambda>h. h\<lparr>h_generation := 0, h_status := HealthStarting, h_updated_at := at\<rparr>) (healths s)"
  have s': "s' = s\<lparr>deployments := ?D, generations := ?G, healths := ?H\<rparr>"
    using op by (simp add: RecoverGenerations_def Let_def)
  have parts: "keys_ok s" "refs_ok s" "fence_ok s" "ledger_ok s" "health_ok s" "deliveries_ok s"
    using inv by (simp_all add: store_inv_def)
  have "keys_ok s'" using parts(1) by (simp add: s' table_simps)
  moreover have "refs_ok s'" using parts(2) by (simp add: s' table_simps)
  moreover have "fence_ok (s\<lparr>deployments := ?D, generations := ?G\<rparr>)"
    by (rule fence_ok_retire [where I = "d_id ` {d \<in> set (deployments s). ?P d}", OF parts(3) retires_retire(2)])
      (use parts(3) in \<open>force simp: fence_ok_def\<close>)+
  then have "fence_ok s'" by (simp add: s')
  moreover have "ledger_ok (s\<lparr>deployments := ?D, generations := ?G\<rparr>)"
    by (rule ledger_ok_update [OF parts(4)]) simp_all
  then have "ledger_ok s'" by (simp add: s')
  moreover have "health_ok s'"
  proof -
    have "?ids = map d_id (filter (\<lambda>d. d_status d = DepActive) (deployments s))"
      by (rule map_filter_update_where) simp
    then have "set ?ids = d_id ` {d \<in> set (deployments s). d_status d = DepActive}" by simp
    then have ids: "d_id d \<in> set ?ids \<longleftrightarrow> d_status d = DepActive" if "d \<in> set (deployments s)" for d
      using that parts(1) by (auto simp: keys_ok_def dest: uniqD)
    have "health_row_ok (if ?P d then ?f d else d)
        (if h_deployment h \<in> set ?ids
         then h\<lparr>h_generation := 0, h_status := HealthStarting, h_updated_at := at\<rparr> else h)"
      if d: "d \<in> set (deployments s)" and h: "h \<in> set (healths s)" "h_deployment h = d_id d" for d h
      using health_okD [OF parts(5) d h] ids [OF d] fence_okD(1) [OF parts(3) d]
      by (cases "d_status d = DepActive") (auto simp: health_row_ok_def h(2) simp del: set_map)
    then have "health_ok (s\<lparr>deployments := ?D, healths := ?H\<rparr>)"
      by (rule health_ok_update) simp_all
    then show ?thesis unfolding s' health_ok_def by simp
  qed
  ultimately show ?thesis using parts(6) by (simp add: store_inv_def s')
qed

lemma RecoverGenerations_advances:
  assumes "RecoverGenerations at s = Inr (s', u)"
  shows "advances i s s'"
proof -
  have "dep_adv i (deployments s) (update_where (\<lambda>d. d_status d = DepActive \<and> 0 < d_active d)
      (\<lambda>d. d\<lparr>d_active := 0, d_updated_at := at\<rparr>) (deployments s))"
    by (rule dep_adv_update) simp
  then show ?thesis using assms by (auto simp: RecoverGenerations_def Let_def advances_def)
qed
section \<open>Activation\<close>

lemma maxGeneration_ge:
  "0 \<le> maxGeneration i s"
  "g \<in> set (generations s) \<Longrightarrow> g_deployment g = i \<Longrightarrow> g_generation g \<le> maxGeneration i s"
  using fold_max_int_ge [of 0 "map g_generation (filter (\<lambda>g. g_deployment g = i) (generations s))"]
  by (auto simp: maxGeneration_def)

lemma ActivateGeneration_Inr:
  assumes "keys_ok s" "ActivateGeneration E a token checkedAt now s = Inr (s', ag)"
  obtains d where "d \<in> set (deployments s)" "d_id d = ga_DeploymentID a" "d_status d = DepActive"
    "d_expires_at d = None \<or> checkedAt < the (d_expires_at d)"
    "d_state_revision d = ga_StateRevision a" "d_artifact d = ga_ArtifactID a"
    "d_config_revision d = ga_ConfigRevision a" "d_active d = ga_ActiveGeneration a"
    "\<And>d'. d' \<in> set (deployments s) \<Longrightarrow> activation_hit a (d_active d) d' \<longleftrightarrow> d' = d"
    "advanceGeneration E a token (d_active d) now s = Inr (s', ag)"
proof -
  obtain d where d: "d \<in> set (deployments s)" "d_id d = ga_DeploymentID a" "d_status d = DepActive"
    "d_expires_at d = None \<or> checkedAt < the (d_expires_at d)"
    "d_state_revision d = ga_StateRevision a" "d_artifact d = ga_ArtifactID a"
    "d_config_revision d = ga_ConfigRevision a" "d_active d = ga_ActiveGeneration a"
    "advanceGeneration E a token (d_active d) now s = Inr (s', ag)"
    using assms(2) by (auto simp: ActivateGeneration_def split: if_splits option.splits dest!: find_SomeD)
  moreover have "activation_hit a (d_active d) d' \<longleftrightarrow> d' = d" if "d' \<in> set (deployments s)" for d'
    using that d assms(1) by (auto simp: activation_hit_def keys_ok_def dest: uniqD)
  ultimately show ?thesis using that by blast
qed

text \<open>The fence after the deployment moved on to a new row.\<close>

lemma fence_ok_activate:
  assumes inv: "store_inv s" and d: "d \<in> set (deployments s)" "d_id d = i" "d_status d = DepActive"
    and hit: "\<And>d'. d' \<in> set (deployments s) \<Longrightarrow> P d' \<longleftrightarrow> d' = d"
    and f: "\<And>d. d_id (f d) = d_id d \<and> d_status (f d) = d_status d \<and> d_active (f d) = n" "0 < n"
    and Q: "\<And>g. g \<in> set (generations s) \<Longrightarrow>
      Q g \<longleftrightarrow> g_deployment g = i \<and> g_generation g = d_active d \<and> g_status g = GenActive"
    and R: "retires R"
    and row: "g_deployment row = i" "g_generation row = n" "g_status row = GenActive" "g_retired_at row = None"
  shows "fence_ok (s\<lparr>deployments := update_where P f (deployments s),
    generations := update_where Q R (generations s) @ [row]\<rparr>)"
proof -
  have fence: "fence_ok s" and keys: "keys_ok s" using inv by (simp_all add: store_inv_def)
  have gens: "gen_key ` set (update_where Q R (generations s)) = gen_key ` set (generations s)"
    by (rule image_update_where) (simp add: retires_key [OF R])
  have "0 \<le> d_active d' \<and> (d_status d' \<noteq> DepActive \<longrightarrow> d_active d' = 0) \<and>
      (0 < d_active d' \<longrightarrow> (d_id d', d_active d') \<in> insert (i, n) (gen_key ` set (generations s)))"
    if "d' \<in> set (update_where P f (deployments s))" for d'
    using that
  proof (cases rule: update_where_E)
    case 1
    then show ?thesis using fence_okD(1-3) [OF fence] by blast
  next
    case (2 d0)
    then have "d0 = d" using hit by blast
    then show ?thesis using 2 f d by simp
  qed
  moreover have "0 < g_generation g' \<and> (g_status g' = GenActive \<longleftrightarrow> g_retired_at g' = None) \<and>
      (g_status g' = GenActive \<longrightarrow> (g_deployment g', g_generation g') \<in>
         (\<lambda>d. (d_id d, d_active d)) ` set (update_where P f (deployments s)))"
    if "g' \<in> set (update_where Q R (generations s))" for g'
    using that
  proof (cases rule: update_where_E)
    case 1
    have "(g_deployment g', g_generation g') \<in>
        (\<lambda>d. (d_id d, d_active d)) ` set (update_where P f (deployments s))"
      if act: "g_status g' = GenActive"
    proof -
      obtain d' where d': "d' \<in> set (deployments s)" "d_id d' = g_deployment g'" "d_active d' = g_generation g'"
        using active_generation [OF fence 1(1) act] by blast
      have "d' \<noteq> d" using Q [OF 1(1)] 1(2) act d' d by auto
      then have "\<not> P d'" using hit d' by blast
      then show ?thesis using d' by (auto intro!: image_eqI [where x = d'] update_where_miss)
    qed
    then show ?thesis using fence_okD(4,5) [OF fence 1(1)] by blast
  next
    case (2 g)
    then show ?thesis using fence_okD(4) [OF fence 2(1)] by (auto simp: retiresD [OF R])
  qed
  moreover have "(i, n) \<in> (\<lambda>d. (d_id d, d_active d)) ` set (update_where P f (deployments s))"
    using d f(1) hit [OF d(1)] by (auto intro!: image_eqI [where x = "f d"] update_where_hit)
  ultimately show ?thesis
    unfolding fence_ok_def using row f(2) by (simp add: gens)
qed

lemma advanceGeneration_Inr:
  assumes "advanceGeneration E a token active now s = Inr (s', ag)"
  shows "ag = \<lparr>ag_DeploymentID = ga_DeploymentID a,
      ag_Generation = maxGeneration (ga_DeploymentID a) s + 1, ag_WorkerToken = token\<rparr> \<and>
    s' = ensureDeploymentHealth (ga_DeploymentID a) (maxGeneration (ga_DeploymentID a) s + 1)
       HealthStarting now
       (s\<lparr>deployments := update_where (activation_hit a active)
            (\<lambda>d. d\<lparr>d_active := maxGeneration (ga_DeploymentID a) s + 1, d_updated_at := now\<rparr>)
            (deployments s),
          generations := update_where (replaced a active) (retire now ''generation replaced'') (generations s) @
            [new_generation E a token (maxGeneration (ga_DeploymentID a) s + 1) now
              (update_where (replaced a active) (retire now ''generation replaced'') (generations s))]\<rparr>)"
  using assms by (simp add: advanceGeneration_def Let_def split: option.splits)

lemma ActivateGeneration_inv:
  assumes inv: "store_inv s" and op: "ActivateGeneration E a token checkedAt now s = Inr (s', ag)"
  shows "store_inv s'"
proof -
  let ?i = "ga_DeploymentID a" and ?R = "retire now ''generation replaced''"
  let ?n = "maxGeneration ?i s + 1"
  have parts: "keys_ok s" "refs_ok s" "fence_ok s" "ledger_ok s" "health_ok s" "deliveries_ok s"
    using inv by (simp_all add: store_inv_def)
  obtain d where d: "d \<in> set (deployments s)" "d_id d = ?i" "d_status d = DepActive"
    and hit: "\<And>d'. d' \<in> set (deployments s) \<Longrightarrow> activation_hit a (d_active d) d' \<longleftrightarrow> d' = d"
    and adv: "advanceGeneration E a token (d_active d) now s = Inr (s', ag)"
    using ActivateGeneration_Inr [OF parts(1) op] by metis
  define Q where "Q = replaced a (d_active d)"
  define row where "row = new_generation E a token ?n now (update_where Q ?R (generations s))"
  have Q: "Q g \<longleftrightarrow> g_deployment g = ?i \<and> g_generation g = d_active d \<and> g_status g = GenActive"
    if "g \<in> set (generations s)" for g
    using fence_okD(4) [OF parts(3) that] by (auto simp: Q_def replaced_def)
  have row: "g_deployment row = ?i" "g_generation row = ?n" "g_status row = GenActive"
    "g_retired_at row = None" "g_last_seq row = 0"
    "g_rowid row = next_rowid g_rowid (update_where Q ?R (generations s))"
    by (simp_all add: row_def new_generation_def)
  have s': "s' = ensureDeploymentHealth ?i ?n HealthStarting now
       (s\<lparr>deployments := update_where (activation_hit a (d_active d))
            (\<lambda>d. d\<lparr>d_active := ?n, d_updated_at := now\<rparr>) (deployments s),
          generations := update_where Q ?R (generations s) @ [row]\<rparr>)"
    using advanceGeneration_Inr [OF adv] by (simp add: Q_def row_def)
  let ?D = "update_where (activation_hit a (d_active d)) (\<lambda>d. d\<lparr>d_active := ?n, d_updated_at := now\<rparr>) (deployments s)"
  let ?G = "update_where Q ?R (generations s)"
  let ?s = "s\<lparr>deployments := ?D, generations := ?G @ [row]\<rparr>"
  have new: "g_deployment g = ?i \<Longrightarrow> g_generation g < ?n" if "g \<in> set (generations s)" for g
    using maxGeneration_ge(2) [OF that] by fastforce
  have keysG: "gen_key ` set ?G = gen_key ` set (generations s)"
    by (rule image_update_where) simp
  have fresh: "gen_key row \<notin> gen_key ` set (generations s)"
    using new row by force
  have "keys_ok (s\<lparr>deployments := ?D, generations := ?G\<rparr>)" using parts(1) by (simp add: table_simps)
  moreover have "\<forall>g\<in>set ?G. gen_key g \<noteq> gen_key row" using fresh unfolding keysG [symmetric] by (blast dest: not_imageD)
  ultimately have "keys_ok ?s"
    using row(6) next_rowid_fresh [of _ ?G g_rowid] by (auto simp: keys_ok_def uniq_snoc)
  moreover have "refs_ok (s\<lparr>deployments := ?D, generations := ?G\<rparr>)" using parts(2) by (simp add: table_simps)
  moreover have "?i \<in> d_id ` set ?D"
    using imageI_eq [of d _ d_id, OF d(1,2)] by (simp add: image_update_where)
  ultimately have kr: "keys_ok ?s" "refs_ok ?s" "?i \<in> d_id ` set (deployments ?s)"
    using row(1) by (auto simp: refs_ok_def)
  have "fence_ok ?s"
    by (rule fence_ok_activate [OF inv d hit _ _ Q retires_retire(1) row(1-4)])
      (use maxGeneration_ge(1) [of ?i s] in simp_all)
  moreover have "ledger_ok ?s"
  proof -
    have "ledger_ok (s\<lparr>deployments := ?D, generations := ?G\<rparr>)"
      by (rule ledger_ok_update [OF parts(4)]) simp_all
    moreover have "gen_key row \<noteq> (t_deployment t, t_generation t)" if t: "t \<in> set (transactions s)" for t
    proof -
      have "(t_deployment t, t_generation t) \<in> gen_key ` set (generations s)"
        using parts(2) t by (auto simp: refs_ok_def)
      then show ?thesis using fresh by auto
    qed
    ultimately show ?thesis using row by (auto simp: ledger_ok_def)
  qed
  moreover have "health_ok (ensureDeploymentHealth ?i ?n HealthStarting now (s\<lparr>deployments := ?D\<rparr>))"
  proof (rule ensureDeploymentHealth_ok [OF parts(5,2)])
    have "0 < d_threshold d"
    proof -
      obtain h where "h \<in> set (healths s)" "h_deployment h = d_id d"
        using deployment_health [OF parts(2) d(1)] .
      then show ?thesis using health_okD [OF parts(5) d(1)] by (simp add: health_row_ok_def)
    qed
    then show "0 < d_threshold d' \<and> (?n = 0 \<or> ?n = d_active d') \<and>
        (d_status d' \<noteq> DepActive \<longrightarrow> HealthStarting = HealthStopped)"
      if "d' \<in> set ?D" "d_id d' = ?i" for d'
      using that hit d parts(1)
      by (auto simp: update_where_def keys_ok_def split: if_splits dest: uniqD)
  qed (use hit d in \<open>auto simp: update_where_def split: if_splits\<close>)
  then have "health_ok s'" by (simp add: s' ensureDeploymentHealth_def health_ok_def)
  ultimately show ?thesis using kr parts(6)
    unfolding store_inv_def s' by (simp add: ensureDeploymentHealth_keys ensureDeploymentHealth_refs)
qed

lemma gen_adv_snoc:
  assumes "gen_adv i G G'"
    and "g_deployment row = i \<Longrightarrow> \<forall>g\<in>set G. g_deployment g = i \<longrightarrow> g_generation g < g_generation row"
  shows "gen_adv i G (G' @ [row])"
  using assms unfolding gen_adv_def by auto

lemma ActivateGeneration_advances:
  assumes inv: "store_inv s" and op: "ActivateGeneration E a token checkedAt now s = Inr (s', ag)"
  shows "advances i s s'"
proof -
  let ?i = "ga_DeploymentID a" and ?R = "retire now ''generation replaced''"
  let ?n = "maxGeneration ?i s + 1"
  have keys: "keys_ok s" using inv by (simp add: store_inv_def)
  obtain active where adv: "advanceGeneration E a token active now s = Inr (s', ag)"
    using op by (auto simp: ActivateGeneration_def split: if_splits option.splits)
  have "dep_adv i (deployments s) (deployments s')"
    unfolding conjunct2 [OF advanceGeneration_Inr [OF adv]] by (simp, rule dep_adv_update) simp
  moreover have "gen_adv i (generations s) (generations s')"
    unfolding conjunct2 [OF advanceGeneration_Inr [OF adv]]
  proof (simp, rule gen_adv_snoc, goal_cases)
    case 1
    show ?case by simp
  next
    case 2
    then show ?case using maxGeneration_ge(2) [of _ s ?i] by (fastforce simp: new_generation_def)
  qed
  moreover have "transactions s' = transactions s"
    unfolding conjunct2 [OF advanceGeneration_Inr [OF adv]] by simp
  ultimately show ?thesis by (simp add: advances_def)
qed

section \<open>The contract\<close>

text \<open>An operation that returns an error rolled back; \<open>run_tx\<close> is its effect on the store.\<close>

lemma fenced_op_tx:
  assumes "\<And>s s' a. store_inv s \<Longrightarrow> f s = Inr (s', a) \<Longrightarrow> store_inv s'"
    and "\<And>s s' a. store_inv s \<Longrightarrow> f s = Inr (s', a) \<Longrightarrow> advances i s s'"
  shows "fenced_op (\<lambda>s. fst (run_tx f s)) i"
proof
  fix s assume inv: "store_inv s"
  show "store_inv (fst (run_tx f s))"
    using assms(1) inv by (cases "f s") (auto simp: run_tx_def)
  show "advances i s (fst (run_tx f s))"
    using assms(2) inv by (cases "f s") (auto simp: run_tx_def)
qed

interpretation recover_op: fenced_op "\<lambda>s. fst (run_tx (RecoverGenerations at) s)" i for at i
  by (rule fenced_op_tx) (blast intro: RecoverGenerations_inv RecoverGenerations_advances)+

interpretation activate_op: fenced_op "\<lambda>s. fst (run_tx (ActivateGeneration E a token checkedAt now) s)" i
  for E a token checkedAt now i
  by (rule fenced_op_tx) (blast intro: ActivateGeneration_inv ActivateGeneration_advances)+

end
