(* ===== verification/Deployments.thy ===== *)
theory Deployments
  imports Generations
begin

text \<open>
  \<open>internal/storage/deployments.go\<close>, \<open>artifacts.go\<close>, \<open>bindings.go\<close> and the checkpoint clear of
  \<open>checkpoints.go\<close>: a deployment's life from \<open>Deploy\<close> to \<open>PurgeDeploymentSafe\<close>.  Random
  ids and clock readings are arguments; a duration is in nanoseconds, as in Go.
\<close>

record Artifact =
  art_ID :: string
  art_ContentHash :: string
  art_Path :: string
  art_Describe :: string
  art_CreatedAt :: "int option"

record DeployInput =
  di_Name :: string
  di_InfoName :: string
  di_SourceDir :: string
  di_ConfigHash :: string
  di_Artifact :: Artifact
  di_State :: string
  di_FailureThreshold :: int
  di_MaxEvents :: int
  di_EventRetention :: int
  di_ExpiresAt :: "int option"
  di_Destinations :: "string list"
  di_ExpectedStateRevision :: "int option"

section \<open>Deploy\<close>

definition putArtifact :: "Artifact \<Rightarrow> int \<Rightarrow> store \<Rightarrow> (store \<times> artifact_row) result" where
  "putArtifact a now s =
     (if art_ContentHash a = '''' \<or> art_Path a = '''' \<or> \<not> json_valid (art_Describe a)
      then Inl (Errorf ''artifact requires hash, path, and valid describe JSON'')
      else let row = \<lparr>a_id = default_text (art_ID a) (art_ContentHash a),
                      a_content_hash = art_ContentHash a, a_path = art_Path a,
                      a_describe = art_Describe a,
                      a_created_at = (case art_CreatedAt a of None \<Rightarrow> now | Some t \<Rightarrow> t)\<rparr>
      in case find (\<lambda>r. a_content_hash r = art_ContentHash a) (artifacts s) of
           Some r \<Rightarrow> Inr (s, r)
         | None \<Rightarrow>
             if exists_where (\<lambda>r. a_id r = a_id row) (artifacts s) then Inl (Errorf ''put artifact'')
             else Inr (s\<lparr>artifacts := artifacts s @ [row]\<rparr>, row))"

text \<open>\<open>time.Duration.Milliseconds\<close>: division toward zero.\<close>

definition Milliseconds :: "int \<Rightarrow> int" where
  "Milliseconds d = (if d < 0 then - ((- d) div 1000000) else d div 1000000)"

text \<open>\<open>randomID\<close>'s value is the argument \<open>newID\<close>; a collision or a failed \<open>CHECK\<close> is an SQL error.\<close>

definition insertDeployment ::
    "DeployInput \<Rightarrow> artifact_row \<Rightarrow> string \<Rightarrow> int \<Rightarrow> store \<Rightarrow> (store \<times> string) result" where
  "insertDeployment input art newID now s =
     (if exists_where (\<lambda>d. d_id d = newID) (deployments s) \<or> Milliseconds (di_EventRetention input) \<le> 0
      then Inl (Errorf ''deploy'')
      else Inr (s\<lparr>deployments := deployments s @
        [\<lparr>d_id = newID, d_name = di_Name input, d_info_name = di_InfoName input,
          d_source_dir = di_SourceDir input, d_status = DepActive, d_artifact = a_id art,
          d_config_revision = 1, d_config_hash = di_ConfigHash input,
          d_threshold = di_FailureThreshold input, d_max_events = di_MaxEvents input,
          d_retention_ms = Milliseconds (di_EventRetention input), d_active = 0,
          d_state = di_State input, d_state_revision = 0, d_created_at = now, d_updated_at = now,
          d_expires_at = di_ExpiresAt input, d_archived_at = None\<rparr>]\<rparr>, newID))"

definition updateDeployment ::
    "DeployInput \<Rightarrow> artifact_row \<Rightarrow> deployment_row \<Rightarrow> int \<Rightarrow> store \<Rightarrow> (store \<times> string) result" where
  "updateDeployment input art old now s =
     (if d_status old = DepArchived then Inl ErrInvalidStatus
      else if di_ExpectedStateRevision input \<noteq> Some (d_state_revision old) then Inl ErrStateConflict
      else if Milliseconds (di_EventRetention input) \<le> 0 then Inl (Errorf ''deploy'')
      else Inr (s\<lparr>deployments := update_where (\<lambda>d. d_id d = d_id old)
        (\<lambda>d. d\<lparr>d_info_name := di_InfoName input, d_source_dir := di_SourceDir input,
               d_artifact := a_id art, d_config_hash := di_ConfigHash input,
               d_config_revision := d_config_revision d +
                 (if d_config_hash old \<noteq> di_ConfigHash input then 1 else 0),
               d_threshold := di_FailureThreshold input, d_max_events := di_MaxEvents input,
               d_retention_ms := Milliseconds (di_EventRetention input), d_active := 0,
               d_state := di_State input, d_state_revision := d_state_revision d + 1,
               d_status := DepActive, d_expires_at := di_ExpiresAt input, d_archived_at := None,
               d_updated_at := now\<rparr>) (deployments s)\<rparr>, d_id old))"

text \<open>\<open>SELECT COALESCE(MAX(revision),0)+1\<close> of one destination, and the loop over destinations.\<close>

definition nextRevision :: "string \<Rightarrow> string \<Rightarrow> store \<Rightarrow> int" where
  "nextRevision dep dest s =
     fold max (map b_revision (filter (\<lambda>b. b_deployment b = dep \<and> b_id b = dest) (bindings s))) 0 + 1"

definition destination_id :: "nat \<Rightarrow> string" where
  "destination_id k = ''destination-'' @ utoa (k + 1)"

fun insertBindings :: "env \<Rightarrow> string \<Rightarrow> int \<Rightarrow> nat \<Rightarrow> string list \<Rightarrow> store \<Rightarrow> store" where
  "insertBindings E dep now k [] s = s"
| "insertBindings E dep now k (c # cs) s =
     insertBindings E dep now (Suc k) cs
       (s\<lparr>bindings := bindings s @
          [\<lparr>b_id = destination_id k, b_revision = nextRevision dep (destination_id k) s,
            b_deployment = dep, b_config = c, b_config_hash = sha256 E c, b_created_at = now,
            b_retired_at = None\<rparr>]\<rparr>)"

definition retireBindings :: "string \<Rightarrow> int \<Rightarrow> store \<Rightarrow> store" where
  "retireBindings dep now s = s\<lparr>bindings :=
     update_where (\<lambda>b. b_deployment b = dep \<and> b_retired_at b = None)
       (\<lambda>b. b\<lparr>b_retired_at := Some now\<rparr>) (bindings s)\<rparr>"

definition invalidDeploy :: "DeployInput \<Rightarrow> bool" where
  "invalidDeploy input \<longleftrightarrow> TrimSpace (di_Name input) = '''' \<or> TrimSpace (di_InfoName input) = '''' \<or>
     di_ConfigHash input = '''' \<or> \<not> json_valid (di_State input) \<or> di_Destinations input = [] \<or>
     di_FailureThreshold input < 1 \<or> di_MaxEvents input < 1 \<or> 256 < di_MaxEvents input \<or>
     di_EventRetention input \<le> 0"

definition finishDeploy :: "env \<Rightarrow> DeployInput \<Rightarrow> string \<Rightarrow> int \<Rightarrow> store \<Rightarrow> store" where
  "finishDeploy E input i now s =
     insertBindings E i now 0 (di_Destinations input)
       (retireBindings i now
         (retire_active i now ''deployment replaced''
           (ensureDeploymentHealth i 0 HealthStarting now s)))"

text \<open>The result is the deployment's id; \<open>Deploy\<close> then reads it back with \<open>GetDeployment\<close>.\<close>

definition Deploy :: "env \<Rightarrow> DeployInput \<Rightarrow> string \<Rightarrow> int \<Rightarrow> store \<Rightarrow> (store \<times> string) result" where
  "Deploy E input newID now s =
     (if invalidDeploy input
      then Inl (Errorf ''deploy requires name, info, artifact, config hash, and valid state'')
      else if \<not> list_all json_valid (di_Destinations input)
      then Inl (Errorf ''deploy requires valid destination JSON'')
      else case putArtifact (di_Artifact input) now s of
        Inl err \<Rightarrow> Inl err
      | Inr (s1, art) \<Rightarrow>
          (case (case find (\<lambda>d. d_name d = di_Name input) (deployments s1) of
                   None \<Rightarrow>
                     if di_ExpectedStateRevision input \<noteq> None then Inl ErrStateConflict
                     else insertDeployment input art newID now s1
                 | Some old \<Rightarrow> updateDeployment input art old now s1) of
             Inl err \<Rightarrow> Inl err
           | Inr (s2, i) \<Rightarrow> Inr (finishDeploy E input i now s2, i)))"

section \<open>Lifecycle\<close>

definition expired :: "int \<Rightarrow> deployment_row \<Rightarrow> bool" where
  "expired now d \<longleftrightarrow> d_expires_at d \<noteq> None \<and> the (d_expires_at d) \<le> now"

definition due :: "int \<Rightarrow> deployment_row \<Rightarrow> bool" where
  "due now d \<longleftrightarrow> d_status d = DepActive \<and> expired now d"

definition DeactivateDueDeployments :: "int \<Rightarrow> store \<Rightarrow> (store \<times> nat) result" where
  "DeactivateDueDeployments now s =
     (if \<not> exists_where (due now) (deployments s) then Inr (s, 0)
      else
           (let dueIds = map d_id (filter (due now) (deployments s));
                G = update_where (\<lambda>g. g_status g = GenActive \<and> g_deployment g \<in> set dueIds)
                      (retire now ''deployment expired'') (generations s);
                D = update_where (due now)
                      (\<lambda>d. d\<lparr>d_status := DepInactive, d_active := 0, d_updated_at := now\<rparr>) (deployments s);
                stopped = map d_id (filter (\<lambda>d. d_status d = DepInactive \<and> expired now d) D);
                H = update_where (\<lambda>h. h_deployment h \<in> set stopped)
                      (\<lambda>h. h\<lparr>h_generation := 0, h_status := HealthStopped, h_updated_at := now\<rparr>)
                      (healths s)
            in Inr (s\<lparr>deployments := D, generations := G, healths := H\<rparr>,
                    count_where (due now) (deployments s))))"

text \<open>The selector lookup: an id match comes before a name match.\<close>

definition GetDeployment :: "string \<Rightarrow> store \<Rightarrow> deployment_row result" where
  "GetDeployment selector s =
     (case find (\<lambda>d. d_id d = selector) (deployments s) of
        Some d \<Rightarrow> Inr d
      | None \<Rightarrow> (case find (\<lambda>d. d_name d = selector) (deployments s) of
          Some d \<Rightarrow> Inr d
        | None \<Rightarrow> Inl ErrNotFound))"

definition status_text :: "deployment_status \<Rightarrow> string" where
  "status_text st = (case st of DepActive \<Rightarrow> ''active'' | DepInactive \<Rightarrow> ''inactive''
     | DepArchived \<Rightarrow> ''archived'')"

definition set_status :: "deployment_status \<Rightarrow> int option \<Rightarrow> int \<Rightarrow> int \<Rightarrow> deployment_row \<Rightarrow> deployment_row" where
  "set_status toS expires archivedAt now d = d\<lparr>d_status := toS, d_active := 0, d_expires_at := expires,
     d_archived_at := (if toS = DepArchived then Some archivedAt else None), d_updated_at := now\<rparr>"

definition setDeploymentStatus ::
    "string \<Rightarrow> deployment_status \<Rightarrow> deployment_status \<Rightarrow> int option \<Rightarrow> int \<Rightarrow> int \<Rightarrow> store \<Rightarrow> (store \<times> unit) result" where
  "setDeploymentStatus i fromS toS expires archivedAt now s =
     (let hit = (\<lambda>d. d_id d = i \<and> d_status d = fromS);
          s1 = s\<lparr>deployments := update_where hit (set_status toS expires archivedAt now) (deployments s)\<rparr>
      in if count_where hit (deployments s) \<noteq> 1 then Inl ErrInvalidStatus
         else let s2 = (if fromS = DepActive then retire_active i now (''deployment '' @ status_text toS) s1 else s1)
              in Inr (ensureDeploymentHealth i 0 (if toS = DepActive then HealthStarting else HealthStopped) now s2, ()))"

definition PauseDeployment :: "string \<Rightarrow> int \<Rightarrow> store \<Rightarrow> (store \<times> unit) result" where
  "PauseDeployment i now = setDeploymentStatus i DepActive DepInactive None now now"

definition ResumeDeployment :: "string \<Rightarrow> int option \<Rightarrow> int \<Rightarrow> store \<Rightarrow> (store \<times> unit) result" where
  "ResumeDeployment i expires now = setDeploymentStatus i DepInactive DepActive expires now now"

definition ArchiveDeployment :: "string \<Rightarrow> int \<Rightarrow> store \<Rightarrow> (store \<times> unit) result" where
  "ArchiveDeployment i now s =
     (let hit = (\<lambda>d. d_id d = i \<and> d_status d = DepInactive) in
      if count_where hit (deployments s) \<noteq> 1 then Inl ErrInvalidStatus
      else Inr (retire_active i now ''deployment archived''
                 (s\<lparr>deployments := update_where hit
                      (\<lambda>d. d\<lparr>d_status := DepArchived, d_expires_at := None, d_archived_at := Some now,
                             d_updated_at := now\<rparr>) (deployments s)\<rparr>), ()))"

text \<open>\<open>DELETE FROM deployments\<close> with its \<open>ON DELETE CASCADE\<close> references.\<close>

definition deleteDeployment :: "string \<Rightarrow> store \<Rightarrow> store" where
  "deleteDeployment i s = s\<lparr>
     deployments := delete_where (\<lambda>d. d_id d = i \<and> d_status d = DepArchived) (deployments s),
     generations := delete_where (\<lambda>g. g_deployment g = i) (generations s),
     healths := delete_where (\<lambda>h. h_deployment h = i) (healths s),
     checkpoints := delete_where (\<lambda>c. c_deployment c = i) (checkpoints s),
     transactions := delete_where (\<lambda>t. t_deployment t = i) (transactions s),
     bindings := delete_where (\<lambda>b. b_deployment b = i) (bindings s),
     events := delete_where (\<lambda>e. e_deployment e = i) (events s),
     deliveries := delete_where (\<lambda>v. v_deployment v = i) (deliveries s)\<rparr>"

definition queuedDeliveries :: "string \<Rightarrow> store \<Rightarrow> nat" where
  "queuedDeliveries i s = length [v \<leftarrow> deliveries s.
     (v_status v = DlvPending \<or> v_status v = DlvSending) \<and>
     exists_where (\<lambda>e. e_outbox e = v_outbox v \<and> e_deployment e = i) (events s)]"

definition PurgeDeploymentSafe :: "string \<Rightarrow> bool \<Rightarrow> store \<Rightarrow> (store \<times> unit) result" where
  "PurgeDeploymentSafe i force s =
     (if \<not> force \<and> 0 < queuedDeliveries i s then Inl (Errorf ''queued deliveries remain'')
      else if count_where (\<lambda>d. d_id d = i \<and> d_status d = DepArchived) (deployments s) \<noteq> 1
      then Inl ErrInvalidStatus
      else Inr (deleteDeployment i s, ()))"

definition ReplaceState :: "string \<Rightarrow> int \<Rightarrow> string \<Rightarrow> int \<Rightarrow> store \<Rightarrow> (store \<times> int) result" where
  "ReplaceState i base state now s =
     (if \<not> json_valid state then Inl (Errorf ''state must be valid JSON'')
      else case find_deployment i s of
        None \<Rightarrow> Inl ErrNotFound
      | Some d0 \<Rightarrow>
          if d_status d0 = DepArchived then Inl ErrInvalidStatus
          else let hit = (\<lambda>d. d_id d = i \<and> d_state_revision d = base) in
            if count_where hit (deployments s) \<noteq> 1 then Inl ErrStateConflict
            else Inr (ensureDeploymentHealth i 0
                       (if d_status d0 = DepActive then HealthStarting else HealthStopped) now
                       (retire_active i now ''state replaced''
                         (s\<lparr>deployments := update_where hit
                              (\<lambda>d. d\<lparr>d_state := state, d_state_revision := d_state_revision d + 1,
                                     d_active := 0, d_updated_at := now\<rparr>) (deployments s)\<rparr>)),
                     base + 1))"

definition ClearCheckpoints :: "string \<Rightarrow> int \<Rightarrow> store \<Rightarrow> (store \<times> nat) result" where
  "ClearCheckpoints i now s =
     (if i = '''' then Inl (Errorf ''checkpoint clear requires a deployment'')
      else let hit = (\<lambda>d. d_id d = i \<and> d_status d = DepInactive) in
        if count_where hit (deployments s) \<noteq> 1
        then (if count_where (\<lambda>d. d_id d = i) (deployments s) = 0 then Inl ErrNotFound
              else Inl ErrInvalidStatus)
        else
          let s1 = s\<lparr>deployments := update_where hit (\<lambda>d. d\<lparr>d_active := 0, d_updated_at := now\<rparr>)
                       (deployments s),
                     generations := update_where (\<lambda>g. g_deployment g = i \<and> g_status g = GenActive)
                       (retire_once now ''checkpoints cleared'') (generations s)\<rparr>;
              s2 = ensureDeploymentHealth i 0 HealthStopped now s1
          in Inr (s2\<lparr>checkpoints := delete_where (\<lambda>c. c_deployment c = i) (checkpoints s2)\<rparr>,
                  count_where (\<lambda>c. c_deployment c = i) (checkpoints s2)))"

section \<open>Deploy keeps the invariant\<close>

lemma putArtifact_Inr:
  assumes "putArtifact a now s = Inr (s', art)"
  shows "s' = s\<lparr>artifacts := artifacts s'\<rparr>"
  using assms by (auto simp: putArtifact_def Let_def split: if_splits option.splits)

lemma store_inv_artifacts [simp]: "store_inv (s\<lparr>artifacts := A\<rparr>) = store_inv s"
  by (simp add: store_inv_def keys_frames refs_frames)

lemma nextRevision_greater:
  "b \<in> set (bindings s) \<Longrightarrow> b_deployment b = dep \<Longrightarrow> b_id b = dest \<Longrightarrow> b_revision b < nextRevision dep dest s"
  using fold_max_int_ge [of 0 "map b_revision (filter (\<lambda>b. b_deployment b = dep \<and> b_id b = dest) (bindings s))"]
  by (fastforce simp: nextRevision_def)

lemma store_inv_bind:
  assumes "store_inv s" "b_deployment b \<in> d_id ` set (deployments s)"
    "\<forall>b'\<in>set (bindings s). binding_key b' \<noteq> binding_key b"
  shows "store_inv (s\<lparr>bindings := bindings s @ [b]\<rparr>)"
  using assms by (auto simp: store_inv_def keys_ok_def uniq_snoc refs_ok_def)

lemma insertBindings_inv:
  "store_inv s \<Longrightarrow> dep \<in> d_id ` set (deployments s) \<Longrightarrow> store_inv (insertBindings E dep now k cs s)"
proof (induction cs arbitrary: k s)
  case Nil
  then show ?case by simp
next
  case (Cons c cs)
  let ?b = "\<lparr>b_id = destination_id k, b_revision = nextRevision dep (destination_id k) s,
      b_deployment = dep, b_config = c, b_config_hash = sha256 E c, b_created_at = now,
      b_retired_at = None\<rparr>"
  have "store_inv (s\<lparr>bindings := bindings s @ [?b]\<rparr>)"
    using Cons.prems nextRevision_greater [of _ s dep "destination_id k"]
    by (intro store_inv_bind) fastforce+
  then show ?case using Cons.IH [of "s\<lparr>bindings := bindings s @ [?b]\<rparr>"] Cons.prems(2) by simp
qed

lemma insertBindings_sel [simp]:
  "artifacts (insertBindings E dep now k cs s) = artifacts s"
  "deployments (insertBindings E dep now k cs s) = deployments s"
  "generations (insertBindings E dep now k cs s) = generations s"
  "healths (insertBindings E dep now k cs s) = healths s"
  "checkpoints (insertBindings E dep now k cs s) = checkpoints s"
  "transactions (insertBindings E dep now k cs s) = transactions s"
  "events (insertBindings E dep now k cs s) = events s"
  "deliveries (insertBindings E dep now k cs s) = deliveries s"
  "cursors (insertBindings E dep now k cs s) = cursors s"
  by (induction cs arbitrary: k s) simp_all

lemma retireBindings_inv: "store_inv s \<Longrightarrow> store_inv (retireBindings dep now s)"
  by (simp add: store_inv_def retireBindings_def table_simps)

lemma retireBindings_sel [simp]:
  "deployments (retireBindings dep now s) = deployments s"
  "generations (retireBindings dep now s) = generations s"
  "transactions (retireBindings dep now s) = transactions s"
  by (simp_all add: retireBindings_def)

lemma retire_ensure:
  "retire_active i now r (ensureDeploymentHealth i 0 st now (s\<lparr>deployments := update_where P f (deployments s)\<rparr>)) =
   fence_update i P f (retire now r) st now s"
  by (simp add: retire_active_def ensureDeploymentHealth_def fence_update_def)

lemma ensure_retire:
  "ensureDeploymentHealth i 0 st now (retire_active i now r (s\<lparr>deployments := update_where P f (deployments s)\<rparr>)) =
   fence_update i P f (retire now r) st now s"
  by (simp add: retire_active_def ensureDeploymentHealth_def fence_update_def)

lemma fence_update_deployments [simp]:
  "deployments (fence_update i P f R st now s) = update_where P f (deployments s)"
  by (simp add: fence_update_def)

lemma threshold_pos:
  assumes "store_inv s" "d \<in> set (deployments s)"
  shows "0 < d_threshold d"
proof -
  have "refs_ok s" "health_ok s" using assms(1) by (simp_all add: store_inv_def)
  obtain h where "h \<in> set (healths s)" "h_deployment h = d_id d"
    by (rule deployment_health [OF \<open>refs_ok s\<close> assms(2)])
  then show ?thesis using health_okD [OF \<open>health_ok s\<close> assms(2)] by (simp add: health_row_ok_def)
qed

lemma finishDeploy_new_inv:
  assumes inv: "store_inv s" and row: "d_id row = i" "d_active row = 0" "d_status row = DepActive"
    "0 < d_threshold row" "0 \<le> d_state_revision row"
    and new: "\<forall>d\<in>set (deployments s). d_id d \<noteq> i \<and> d_name d \<noteq> d_name row"
  shows "store_inv (finishDeploy E input i now (s\<lparr>deployments := deployments s @ [row]\<rparr>))"
proof -
  have parts: "keys_ok s" "refs_ok s" "fence_ok s" "ledger_ok s" "health_ok s" "deliveries_ok s"
    using inv by (simp_all add: store_inv_def)
  let ?s = "s\<lparr>deployments := deployments s @ [row]\<rparr>"
  let ?s1 = "ensureDeploymentHealth i 0 HealthStarting now ?s"
  have i: "i \<notin> d_id ` set (deployments s)" using new by auto
  have "g_deployment ` set (generations s) \<subseteq> d_id ` set (deployments s)"
    using parts(2) by (simp add: refs_ok_def)
  then have gens: "\<forall>g\<in>set (generations s). g_deployment g \<noteq> i" using i by blast
  then have same: "retire_active i now ''deployment replaced'' ?s1 = ?s1"
    by (simp add: retire_active_def update_where_id ensureDeploymentHealth_def)
  have txs: "\<forall>t\<in>set (transactions s). t_deployment t \<noteq> i"
    using receipt_deployment [OF parts(2)] i by (metis)
  have "keys_ok ?s" using parts(1) new row(1) by (auto simp: keys_ok_def uniq_snoc)
  then have "keys_ok ?s1" by (rule ensureDeploymentHealth_keys)
  moreover have "refs_ok ?s1"
    using parts(2) i row(1) image_upsert [of h_deployment
        "\<lambda>h. h\<lparr>h_generation := 0, h_status := HealthStarting, h_updated_at := now\<rparr>"
        "new_health i 0 HealthStarting now" "healths s"]
    by (auto simp: refs_ok_def ensureDeploymentHealth_def)
  moreover have "fence_ok ?s" using parts(3) row by (auto simp: fence_ok_def)
  moreover have "ledger_ok ?s" using parts(4) row txs by (auto simp: ledger_ok_def)
  moreover have "health_ok ?s1"
    by (rule ensureDeploymentHealth_ok [OF parts(5,2)]) (use row new in auto)
  ultimately have "store_inv ?s1" using parts(6) by (simp add: store_inv_def)
  then have "store_inv (retireBindings i now (retire_active i now ''deployment replaced'' ?s1))"
    unfolding same by (rule retireBindings_inv)
  then show ?thesis unfolding finishDeploy_def
    by (rule insertBindings_inv) (simp add: row(1))
qed

lemma finishDeploy_update_inv:
  assumes inv: "store_inv s" and old: "old \<in> set (deployments s)" "d_id old = i"
    and f: "\<And>d. d_id (f d) = d_id d \<and> d_name (f d) = d_name d \<and> d_active (f d) = 0 \<and>
      d_status (f d) = DepActive \<and> 0 < d_threshold (f d) \<and> d_state_revision (f d) = d_state_revision d + 1"
  shows "store_inv (finishDeploy E input i now (s\<lparr>deployments := update_where (\<lambda>d. d_id d = i) f (deployments s)\<rparr>))"
proof -
  have i: "i \<in> d_id ` set (deployments s)" using imageI_eq [of old _ d_id, OF old] .
  have "store_inv (fence_update i (\<lambda>d. d_id d = i) f (retire now ''deployment replaced'') HealthStarting now s)"
    by (rule fence_update_inv [OF inv i]) (use f in auto)
  then show ?thesis
    unfolding finishDeploy_def retire_ensure
    by (intro insertBindings_inv retireBindings_inv) (simp_all add: i f image_update_where)
qed

lemma Deploy_Inr:
  assumes "Deploy E input newID now s = Inr (s', i)"
  obtains (inserted) s1 art s2 where "s1 = s\<lparr>artifacts := artifacts s1\<rparr>" "0 < di_FailureThreshold input"
    "find (\<lambda>d. d_name d = di_Name input) (deployments s) = None" "di_ExpectedStateRevision input = None"
    "insertDeployment input art newID now s1 = Inr (s2, i)" "s' = finishDeploy E input i now s2"
  | (updated) s1 art s2 old where "s1 = s\<lparr>artifacts := artifacts s1\<rparr>" "0 < di_FailureThreshold input"
    "find (\<lambda>d. d_name d = di_Name input) (deployments s) = Some old"
    "updateDeployment input art old now s1 = Inr (s2, i)" "s' = finishDeploy E input i now s2"
proof -
  obtain s1 art where art: "putArtifact (di_Artifact input) now s = Inr (s1, art)"
    and pos: "0 < di_FailureThreshold input"
    using assms by (auto simp: Deploy_def invalidDeploy_def split: if_splits sum.splits)
  have s1: "s1 = s\<lparr>artifacts := artifacts s1\<rparr>" by (rule putArtifact_Inr [OF art])
  then have deps: "deployments s1 = deployments s"
    by (metis store.select_convs(2) store.surjective store.update_convs(1))
  show ?thesis
  proof (cases "find (\<lambda>d. d_name d = di_Name input) (deployments s)")
    case None
    then obtain s2 where "insertDeployment input art newID now s1 = Inr (s2, i)"
      "di_ExpectedStateRevision input = None" "s' = finishDeploy E input i now s2"
      using assms art deps by (auto simp: Deploy_def split: if_splits sum.splits)
    then show ?thesis using inserted s1 pos None by blast
  next
    case (Some old)
    then obtain s2 where "updateDeployment input art old now s1 = Inr (s2, i)"
      "s' = finishDeploy E input i now s2"
      using assms art deps by (auto simp: Deploy_def split: if_splits sum.splits)
    then show ?thesis using updated s1 pos Some by blast
  qed
qed

lemma artifacts_only:
  assumes "s1 = s\<lparr>artifacts := artifacts s1\<rparr>"
  shows "deployments s1 = deployments s" "generations s1 = generations s"
    "transactions s1 = transactions s" "store_inv s1 = store_inv s"
  using assms store_inv_artifacts [where s = s and A = "artifacts s1"]
  by (metis store.ext_inject store.surjective store.update_convs(1))+

lemma Deploy_inv:
  assumes inv: "store_inv s" and op: "Deploy E input newID now s = Inr (s', i)"
  shows "store_inv s'"
  using op
proof (cases rule: Deploy_Inr)
  case (inserted s1 art s2)
  note s1 = artifacts_only [OF inserted(1)]
  have "\<forall>d\<in>set (deployments s1). d_name d \<noteq> di_Name input"
    using inserted(3) s1(1) by (auto simp: find_None_iff)
  then show ?thesis using inserted(2,5,6) inv s1(4)
    by (auto simp: insertDeployment_def exists_where_iff split: if_splits intro!: finishDeploy_new_inv)
next
  case (updated s1 art s2 old)
  note s1 = artifacts_only [OF updated(1)]
  have old: "old \<in> set (deployments s1)" "d_id old = i"
    using find_SomeD [OF updated(3)] updated(4) s1(1) by (auto simp: updateDeployment_def split: if_splits)
  have "\<exists>f. s2 = s1\<lparr>deployments := update_where (\<lambda>d. d_id d = i) f (deployments s1)\<rparr> \<and>
      (\<forall>d. d_id (f d) = d_id d \<and> d_name (f d) = d_name d \<and> d_active (f d) = 0 \<and>
        d_status (f d) = DepActive \<and> 0 < d_threshold (f d) \<and>
        d_state_revision (f d) = d_state_revision d + 1)"
    using updated(2,4) by (auto simp: updateDeployment_def split: if_splits)
  then show ?thesis using finishDeploy_update_inv [of s1 old i] inv s1(4) old updated(5) by blast
qed

lemma finishDeploy_rows:
  "deployments (finishDeploy E input i now s) = deployments s"
  "transactions (finishDeploy E input i now s) = transactions s"
  "gen_adv j (generations s) (generations (finishDeploy E input i now s))"
  by (simp_all add: finishDeploy_def retire_active_def)

lemma dep_adv_snoc: "dep_adv j D (D @ [d])"
  by (auto simp: dep_adv_def)

lemma Deploy_advances:
  assumes op: "Deploy E input newID now s = Inr (s', i)"
  shows "advances j s s'"
  using op
proof (cases rule: Deploy_Inr)
  case (inserted s1 art s2)
  note s1 = artifacts_only [OF inserted(1)]
  have s2: "generations s2 = generations s" "transactions s2 = transactions s"
    "dep_adv j (deployments s) (deployments s2)"
    using inserted(5) s1 by (auto simp: insertDeployment_def dep_adv_snoc split: if_splits)
  then have "gen_adv j (generations s) (generations s')"
    using finishDeploy_rows(3) [of j s2 E input i now] inserted(6) by simp
  then show ?thesis using inserted(6) s2 by (simp add: advances_def finishDeploy_rows)
next
  case (updated s1 art s2 old)
  note s1 = artifacts_only [OF updated(1)]
  have "\<exists>f. s2 = s1\<lparr>deployments := update_where (\<lambda>d. d_id d = i) f (deployments s1)\<rparr> \<and>
      (\<forall>d. d_id (f d) = d_id d \<and> d_name (f d) = d_name d \<and> d_state_revision (f d) = d_state_revision d + 1)"
    using updated(4) by (auto simp: updateDeployment_def split: if_splits)
  then obtain f where s2: "s2 = s1\<lparr>deployments := update_where (\<lambda>d. d_id d = i) f (deployments s1)\<rparr>"
    and f: "\<And>d. d_id (f d) = d_id d \<and> d_name (f d) = d_name d \<and> d_state_revision (f d) = d_state_revision d + 1" by blast
  have "dep_adv j (deployments s) (deployments s2)"
    unfolding s2 using s1 by (simp, intro dep_adv_update) (simp add: f)
  then show ?thesis using updated(5) s1 s2 finishDeploy_rows(3) [of j s2 E input i now]
    by (simp add: advances_def finishDeploy_rows)
qed

section \<open>The lifecycle operations keep the invariant\<close>

lemma no_active_generation:
  assumes "fence_ok s" "keys_ok s" "d \<in> set (deployments s)" "d_id d = i" "d_status d \<noteq> DepActive"
  shows "\<forall>g\<in>set (generations s). \<not> (g_deployment g = i \<and> g_status g = GenActive)"
proof (intro ballI notI)
  fix g assume g: "g \<in> set (generations s)" "g_deployment g = i \<and> g_status g = GenActive"
  then obtain d' where d': "d' \<in> set (deployments s)" "d_id d' = g_deployment g" "d_status d' = DepActive"
    using active_generation [OF assms(1)] by metis
  then have "d' = d" using assms g by (auto simp: keys_ok_def dest: uniqD)
  then show False using d' assms(5) by simp
qed

lemma one_deployment:
  assumes "keys_ok s" "count_where (\<lambda>d. d_id d = i \<and> C d) (deployments s) = 1"
  obtains d where "d \<in> set (deployments s)" "d_id d = i" "C d"
    "\<forall>d'\<in>set (deployments s). d_id d' = i \<longrightarrow> d' = d"
proof -
  obtain d where "d \<in> set (deployments s)" "d_id d = i \<and> C d"
    using assms(2) by (rule count_where_oneE)
  then show ?thesis using that assms(1) by (auto simp: keys_ok_def dest: uniqD)
qed

lemma set_status_sel [simp]:
  "d_id (set_status toS ex ar now d) = d_id d" "d_name (set_status toS ex ar now d) = d_name d"
  "d_status (set_status toS ex ar now d) = toS" "d_active (set_status toS ex ar now d) = 0"
  "d_state_revision (set_status toS ex ar now d) = d_state_revision d"
  "d_state (set_status toS ex ar now d) = d_state d"
  "d_threshold (set_status toS ex ar now d) = d_threshold d"
  by (simp_all add: set_status_def)

lemma setDeploymentStatus_Inr:
  assumes inv: "store_inv s" and op: "setDeploymentStatus i fromS toS ex ar now s = Inr (s', u)"
  shows "\<exists>d. d \<in> set (deployments s) \<and> d_id d = i \<and> d_status d = fromS \<and>
    (\<forall>d'\<in>set (deployments s). d_id d' = i \<longrightarrow> d' = d) \<and>
    s' = fence_update i (\<lambda>d. d_id d = i \<and> d_status d = fromS) (set_status toS ex ar now)
       (retire now (''deployment '' @ status_text toS))
       (if toS = DepActive then HealthStarting else HealthStopped) now s"
proof -
  let ?hit = "\<lambda>d. d_id d = i \<and> d_status d = fromS"
  let ?R = "retire now (''deployment '' @ status_text toS)"
  have parts: "keys_ok s" "fence_ok s" using inv by (simp_all add: store_inv_def)
  have one: "count_where ?hit (deployments s) = 1"
    using op by (auto simp: setDeploymentStatus_def Let_def split: if_splits)
  obtain d where d: "d \<in> set (deployments s)" "d_id d = i" "d_status d = fromS"
    "\<forall>d'\<in>set (deployments s). d_id d' = i \<longrightarrow> d' = d"
    by (rule one_deployment [OF parts(1) one])
  have "s' = fence_update i ?hit (set_status toS ex ar now) ?R
      (if toS = DepActive then HealthStarting else HealthStopped) now s"
  proof (cases "fromS = DepActive")
    case True
    then show ?thesis using op one
      by (simp add: setDeploymentStatus_def Let_def ensure_retire split: if_splits)
  next
    case False
    then have "update_where (\<lambda>g. g_deployment g = i \<and> g_status g = GenActive) ?R (generations s) = generations s"
      using no_active_generation [OF parts(2,1) d(1,2)] d(3) by (intro update_where_id) simp
    then show ?thesis using op one False
      by (simp add: setDeploymentStatus_def Let_def fence_update_def split: if_splits)
  qed
  then show ?thesis using d by blast
qed

lemma setDeploymentStatus_inv:
  assumes inv: "store_inv s" and op: "setDeploymentStatus i fromS toS ex ar now s = Inr (s', u)"
  shows "store_inv s'"
proof -
  obtain d where d: "d \<in> set (deployments s)" "d_id d = i" "d_status d = fromS"
    and one: "\<forall>d'\<in>set (deployments s). d_id d' = i \<longrightarrow> d' = d"
    and s': "s' = fence_update i (\<lambda>d. d_id d = i \<and> d_status d = fromS) (set_status toS ex ar now)
       (retire now (''deployment '' @ status_text toS))
       (if toS = DepActive then HealthStarting else HealthStopped) now s"
    using setDeploymentStatus_Inr [OF inv op] by blast
  have i: "i \<in> d_id ` set (deployments s)" using imageI_eq [of d _ d_id, OF d(1,2)] .
  show ?thesis unfolding s'
    by (rule fence_update_inv [OF inv i retires_retire(1)])
      (use one d(3) threshold_pos [OF inv] in auto)
qed

lemma setDeploymentStatus_advances:
  assumes inv: "store_inv s" and op: "setDeploymentStatus i fromS toS ex ar now s = Inr (s', u)"
  shows "advances j s s'"
proof -
  obtain R st where s': "retires R" "s' = fence_update i (\<lambda>d. d_id d = i \<and> d_status d = fromS)
      (set_status toS ex ar now) R st now s"
    using setDeploymentStatus_Inr [OF inv op] retires_retire(1) by blast
  show ?thesis unfolding s'(2) by (rule fence_update_advances [OF s'(1)]) simp_all
qed

lemma ReplaceState_Inr:
  assumes inv: "store_inv s" and op: "ReplaceState i base state now s = Inr (s', r)"
  shows "\<exists>d. d \<in> set (deployments s) \<and> d_id d = i \<and> d_state_revision d = base \<and> d_status d \<noteq> DepArchived \<and>
    (\<forall>d'\<in>set (deployments s). d_id d' = i \<longrightarrow> d' = d) \<and> r = base + 1 \<and>
    s' = fence_update i (\<lambda>d. d_id d = i \<and> d_state_revision d = base)
       (\<lambda>d. d\<lparr>d_state := state, d_state_revision := d_state_revision d + 1, d_active := 0, d_updated_at := now\<rparr>)
       (retire now ''state replaced'')
       (if d_status d = DepActive then HealthStarting else HealthStopped) now s"
proof -
  let ?hit = "\<lambda>d. d_id d = i \<and> d_state_revision d = base"
  have keys: "keys_ok s" using inv by (simp add: store_inv_def)
  obtain d0 where d0: "find_deployment i s = Some d0" "d_status d0 \<noteq> DepArchived"
    and one: "count_where ?hit (deployments s) = 1"
    using op by (auto simp: ReplaceState_def Let_def split: if_splits option.splits)
  obtain d where d: "d \<in> set (deployments s)" "d_id d = i" "d_state_revision d = base"
    "\<forall>d'\<in>set (deployments s). d_id d' = i \<longrightarrow> d' = d"
    by (rule one_deployment [OF keys one])
  have eq: "d0 = d" using find_deploymentD [OF d0(1)] d(4) by blast
  have "r = base + 1 \<and> s' = fence_update i ?hit
       (\<lambda>d. d\<lparr>d_state := state, d_state_revision := d_state_revision d + 1, d_active := 0, d_updated_at := now\<rparr>)
       (retire now ''state replaced'')
       (if d_status d0 = DepActive then HealthStarting else HealthStopped) now s"
    using op d0 one by (auto simp: ReplaceState_def Let_def ensure_retire split: if_splits)
  then show ?thesis using d d0(2) unfolding eq by blast
qed

lemma ReplaceState_inv:
  assumes inv: "store_inv s" and op: "ReplaceState i base state now s = Inr (s', r)"
  shows "store_inv s'"
proof -
  obtain d where d: "d \<in> set (deployments s)" "d_id d = i" "d_state_revision d = base"
    and one: "\<forall>d'\<in>set (deployments s). d_id d' = i \<longrightarrow> d' = d"
    and s': "s' = fence_update i (\<lambda>d. d_id d = i \<and> d_state_revision d = base)
       (\<lambda>d. d\<lparr>d_state := state, d_state_revision := d_state_revision d + 1, d_active := 0, d_updated_at := now\<rparr>)
       (retire now ''state replaced'')
       (if d_status d = DepActive then HealthStarting else HealthStopped) now s"
    using ReplaceState_Inr [OF inv op] by blast
  have i: "i \<in> d_id ` set (deployments s)" using imageI_eq [of d _ d_id, OF d(1,2)] .
  show ?thesis unfolding s'
    by (rule fence_update_inv [OF inv i retires_retire(1)])
      (use one d(3) threshold_pos [OF inv] in auto)
qed

lemma ReplaceState_advances:
  assumes inv: "store_inv s" and op: "ReplaceState i base state now s = Inr (s', r)"
  shows "advances j s s'"
proof -
  obtain R st where s': "retires R" "s' = fence_update i (\<lambda>d. d_id d = i \<and> d_state_revision d = base)
       (\<lambda>d. d\<lparr>d_state := state, d_state_revision := d_state_revision d + 1, d_active := 0, d_updated_at := now\<rparr>)
       R st now s"
    using ReplaceState_Inr [OF inv op] retires_retire(1) by blast
  show ?thesis unfolding s'(2) by (rule fence_update_advances [OF s'(1)]) simp_all
qed

lemma ClearCheckpoints_Inr:
  assumes inv: "store_inv s" and op: "ClearCheckpoints i now s = Inr (s', n)"
  shows "\<exists>d. d \<in> set (deployments s) \<and> d_id d = i \<and> d_status d = DepInactive \<and>
    (\<forall>d'\<in>set (deployments s). d_id d' = i \<longrightarrow> d' = d) \<and>
    s' = (fence_update i (\<lambda>d. d_id d = i \<and> d_status d = DepInactive)
       (\<lambda>d. d\<lparr>d_active := 0, d_updated_at := now\<rparr>) (retire_once now ''checkpoints cleared'') HealthStopped now s)
       \<lparr>checkpoints := delete_where (\<lambda>c. c_deployment c = i) (checkpoints s)\<rparr> \<and>
    n = count_where (\<lambda>c. c_deployment c = i) (checkpoints s)"
proof -
  let ?hit = "\<lambda>d. d_id d = i \<and> d_status d = DepInactive"
  have keys: "keys_ok s" using inv by (simp add: store_inv_def)
  have one: "count_where ?hit (deployments s) = 1"
    using op by (auto simp: ClearCheckpoints_def Let_def split: if_splits)
  obtain d where d: "d \<in> set (deployments s)" "d_id d = i" "d_status d = DepInactive"
    "\<forall>d'\<in>set (deployments s). d_id d' = i \<longrightarrow> d' = d"
    by (rule one_deployment [OF keys one])
  moreover have "s' = (fence_update i ?hit
       (\<lambda>d. d\<lparr>d_active := 0, d_updated_at := now\<rparr>) (retire_once now ''checkpoints cleared'') HealthStopped now s)
       \<lparr>checkpoints := delete_where (\<lambda>c. c_deployment c = i) (checkpoints s)\<rparr> \<and>
    n = count_where (\<lambda>c. c_deployment c = i) (checkpoints s)"
    using op one by (auto simp: ClearCheckpoints_def Let_def fence_update_def split: if_splits)
  ultimately show ?thesis by blast
qed

lemma store_inv_checkpoints:
  "store_inv s \<Longrightarrow> store_inv (s\<lparr>checkpoints := delete_where P (checkpoints s)\<rparr>)"
  by (auto simp: store_inv_def keys_ok_def uniq_delete_where refs_ok_def set_delete_where)

lemma ClearCheckpoints_inv:
  assumes inv: "store_inv s" and op: "ClearCheckpoints i now s = Inr (s', n)"
  shows "store_inv s'"
proof -
  let ?f = "fence_update i (\<lambda>d. d_id d = i \<and> d_status d = DepInactive)
       (\<lambda>d. d\<lparr>d_active := 0, d_updated_at := now\<rparr>) (retire_once now ''checkpoints cleared'') HealthStopped now s"
  obtain d where d: "d \<in> set (deployments s)" "d_id d = i" "d_status d = DepInactive"
    and one: "\<forall>d'\<in>set (deployments s). d_id d' = i \<longrightarrow> d' = d"
    and s': "s' = ?f\<lparr>checkpoints := delete_where (\<lambda>c. c_deployment c = i) (checkpoints s)\<rparr>"
    using ClearCheckpoints_Inr [OF inv op] by blast
  have i: "i \<in> d_id ` set (deployments s)" using imageI_eq [of d _ d_id, OF d(1,2)] .
  have "store_inv ?f"
    by (rule fence_update_inv [OF inv i retires_retire(2)])
      (use one d(3) threshold_pos [OF inv] in auto)
  moreover have "checkpoints ?f = checkpoints s" by (simp add: fence_update_def)
  ultimately show ?thesis using store_inv_checkpoints [of ?f] by (simp add: s')
qed

lemma ClearCheckpoints_advances:
  assumes inv: "store_inv s" and op: "ClearCheckpoints i now s = Inr (s', n)"
  shows "advances j s s'"
proof -
  let ?f = "fence_update i (\<lambda>d. d_id d = i \<and> d_status d = DepInactive)
       (\<lambda>d. d\<lparr>d_active := 0, d_updated_at := now\<rparr>) (retire_once now ''checkpoints cleared'') HealthStopped now s"
  have "s' = ?f\<lparr>checkpoints := delete_where (\<lambda>c. c_deployment c = i) (checkpoints s)\<rparr>"
    using ClearCheckpoints_Inr [OF inv op] by blast
  moreover have "advances j s ?f" by (rule fence_update_advances) simp_all
  ultimately show ?thesis by (simp add: advances_def)
qed

lemma ArchiveDeployment_Inr:
  assumes inv: "store_inv s" and op: "ArchiveDeployment i now s = Inr (s', u)"
  shows "\<exists>d. d \<in> set (deployments s) \<and> d_id d = i \<and> d_status d = DepInactive \<and>
    (\<forall>d'\<in>set (deployments s). d_id d' = i \<longrightarrow> d' = d) \<and>
    s' = s\<lparr>deployments := update_where (\<lambda>d. d_id d = i \<and> d_status d = DepInactive)
       (\<lambda>d. d\<lparr>d_status := DepArchived, d_expires_at := None, d_archived_at := Some now, d_updated_at := now\<rparr>)
       (deployments s)\<rparr>"
proof -
  let ?hit = "\<lambda>d. d_id d = i \<and> d_status d = DepInactive"
  have parts: "keys_ok s" "fence_ok s" using inv by (simp_all add: store_inv_def)
  have one: "count_where ?hit (deployments s) = 1"
    using op by (auto simp: ArchiveDeployment_def Let_def split: if_splits)
  obtain d where d: "d \<in> set (deployments s)" "d_id d = i" "d_status d = DepInactive"
    "\<forall>d'\<in>set (deployments s). d_id d' = i \<longrightarrow> d' = d"
    by (rule one_deployment [OF parts(1) one])
  have "update_where (\<lambda>g. g_deployment g = i \<and> g_status g = GenActive)
      (retire now ''deployment archived'') (generations s) = generations s"
    using no_active_generation [OF parts(2,1) d(1,2)] d(3) by (intro update_where_id) simp
  then have "s' = s\<lparr>deployments := update_where ?hit
       (\<lambda>d. d\<lparr>d_status := DepArchived, d_expires_at := None, d_archived_at := Some now, d_updated_at := now\<rparr>)
       (deployments s)\<rparr>"
    using op one by (auto simp: ArchiveDeployment_def Let_def retire_active_def split: if_splits)
  then show ?thesis using d by blast
qed

lemma ArchiveDeployment_inv:
  assumes inv: "store_inv s" and op: "ArchiveDeployment i now s = Inr (s', u)"
  shows "store_inv s'"
proof -
  let ?P = "\<lambda>d. d_id d = i \<and> d_status d = DepInactive"
  let ?f = "\<lambda>d. d\<lparr>d_status := DepArchived, d_expires_at := None, d_archived_at := Some now, d_updated_at := now\<rparr>"
  have s': "s' = s\<lparr>deployments := update_where ?P ?f (deployments s)\<rparr>"
    using ArchiveDeployment_Inr [OF inv op] by blast
  have parts: "keys_ok s" "refs_ok s" "fence_ok s" "ledger_ok s" "health_ok s" "deliveries_ok s"
    using inv by (simp_all add: store_inv_def)
  have "fence_ok s'"
    using parts(3) unfolding fence_ok_def s'
    by (simp add: ball_update_where image_update_where)
  moreover have "ledger_ok s'"
    unfolding s' by (rule ledger_ok_deployments [OF parts(4)]) simp
  moreover have "health_ok s'"
    using parts(5) unfolding health_ok_def s' by (simp add: ball_update_where health_row_ok_def)
  ultimately show ?thesis using parts(1,2,6)
    by (simp add: store_inv_def s' table_simps)
qed

lemma ArchiveDeployment_advances:
  assumes inv: "store_inv s" and op: "ArchiveDeployment i now s = Inr (s', u)"
  shows "advances j s s'"
proof -
  have "s' = s\<lparr>deployments := update_where (\<lambda>d. d_id d = i \<and> d_status d = DepInactive)
       (\<lambda>d. d\<lparr>d_status := DepArchived, d_expires_at := None, d_archived_at := Some now, d_updated_at := now\<rparr>)
       (deployments s)\<rparr>"
    using ArchiveDeployment_Inr [OF inv op] by blast
  then show ?thesis by (simp add: advances_def dep_adv_update)
qed

subsection \<open>Expiry\<close>

lemma DeactivateDue_Inr:
  assumes "DeactivateDueDeployments now s = Inr (s', n)"
  shows "s' = s \<and> n = 0 \<or>
    (\<exists>ids. s' = s\<lparr>deployments := update_where (due now)
         (\<lambda>d. d\<lparr>d_status := DepInactive, d_active := 0, d_updated_at := now\<rparr>) (deployments s),
       generations := update_where (\<lambda>g. g_status g = GenActive \<and>
           g_deployment g \<in> d_id ` {d \<in> set (deployments s). due now d})
         (retire now ''deployment expired'') (generations s),
       healths := update_where (\<lambda>h. h_deployment h \<in> ids)
         (\<lambda>h. h\<lparr>h_generation := 0, h_status := HealthStopped, h_updated_at := now\<rparr>) (healths s)\<rparr> \<and>
     (\<forall>i. i \<in> ids \<longleftrightarrow> (\<exists>d\<in>set (deployments s). d_id d = i \<and>
        (due now d \<or> d_status d = DepInactive \<and> expired now d))) \<and>
     n = count_where (due now) (deployments s))"
proof (cases "exists_where (due now) (deployments s)")
  case False
  then show ?thesis using assms by (simp add: DeactivateDueDeployments_def Let_def)
next
  case True
  let ?D = "update_where (due now)
      (\<lambda>d. d\<lparr>d_status := DepInactive, d_active := 0, d_updated_at := now\<rparr>) (deployments s)"
  let ?ids = "d_id ` {d \<in> set ?D. d_status d = DepInactive \<and> expired now d}"
  have "i \<in> ?ids \<longleftrightarrow> (\<exists>d\<in>set (deployments s). d_id d = i \<and>
      (due now d \<or> d_status d = DepInactive \<and> expired now d))" for i
  proof
    assume "i \<in> ?ids"
    then obtain d where "d \<in> set ?D" "d_id d = i" "d_status d = DepInactive" "expired now d" by blast
    then show "\<exists>d\<in>set (deployments s). d_id d = i \<and>
      (due now d \<or> d_status d = DepInactive \<and> expired now d)"
      by (elim update_where_E) auto
  next
    assume "\<exists>d\<in>set (deployments s). d_id d = i \<and>
      (due now d \<or> d_status d = DepInactive \<and> expired now d)"
    then obtain d where d: "d \<in> set (deployments s)" "d_id d = i"
      "due now d \<or> d_status d = DepInactive \<and> expired now d" by blast
    show "i \<in> ?ids"
    proof (cases "due now d")
      case True
      have "d\<lparr>d_status := DepInactive, d_active := 0, d_updated_at := now\<rparr> \<in> set ?D"
        using update_where_hit [of d "deployments s" "due now"
            "\<lambda>d. d\<lparr>d_status := DepInactive, d_active := 0, d_updated_at := now\<rparr>"] d(1) True by simp
      then show ?thesis using d(2) True
        by (intro imageI_eq [of "d\<lparr>d_status := DepInactive, d_active := 0, d_updated_at := now\<rparr>"])
          (auto simp: due_def expired_def)
    next
      case False
      then show ?thesis using d
        by (intro imageI_eq [of d]) (auto intro: update_where_miss)
    qed
  qed
  moreover have "s' = s\<lparr>deployments := ?D,
       generations := update_where (\<lambda>g. g_status g = GenActive \<and>
           g_deployment g \<in> d_id ` {d \<in> set (deployments s). due now d})
         (retire now ''deployment expired'') (generations s),
       healths := update_where (\<lambda>h. h_deployment h \<in> ?ids)
         (\<lambda>h. h\<lparr>h_generation := 0, h_status := HealthStopped, h_updated_at := now\<rparr>) (healths s)\<rparr> \<and>
     n = count_where (due now) (deployments s)"
    using assms True by (simp add: DeactivateDueDeployments_def Let_def)
  ultimately show ?thesis by blast
qed

lemma DeactivateDue_inv:
  assumes inv: "store_inv s" and op: "DeactivateDueDeployments now s = Inr (s', n)"
  shows "store_inv s'"
proof -
  let ?P = "due now"
  let ?f = "\<lambda>d. d\<lparr>d_status := DepInactive, d_active := 0, d_updated_at := now\<rparr>"
  let ?D = "update_where ?P ?f (deployments s)"
  let ?I = "d_id ` {d \<in> set (deployments s). ?P d}"
  let ?G = "update_where (\<lambda>g. g_status g = GenActive \<and> g_deployment g \<in> ?I)
      (retire now ''deployment expired'') (generations s)"
  let ?k = "\<lambda>h. h\<lparr>h_generation := 0, h_status := HealthStopped, h_updated_at := now\<rparr>"
  have parts: "keys_ok s" "refs_ok s" "fence_ok s" "ledger_ok s" "health_ok s" "deliveries_ok s"
    using inv by (simp_all add: store_inv_def)
  show ?thesis
  proof (cases "s' = s")
    case False
    then obtain ids where s': "s' = s\<lparr>deployments := ?D, generations := ?G,
        healths := update_where (\<lambda>h. h_deployment h \<in> ids) ?k (healths s)\<rparr>"
      and ids: "\<forall>i. i \<in> ids \<longleftrightarrow> (\<exists>d\<in>set (deployments s). d_id d = i \<and>
        (?P d \<or> d_status d = DepInactive \<and> expired now d))"
      using DeactivateDue_Inr [OF op] by blast
    let ?H = "update_where (\<lambda>h. h_deployment h \<in> ids) ?k (healths s)"
    have "keys_ok s'" using parts(1) by (simp add: s' table_simps)
    moreover have "refs_ok s'" using parts(2) by (simp add: s' table_simps)
    moreover have "fence_ok (s\<lparr>deployments := ?D, generations := ?G\<rparr>)"
      by (rule fence_ok_retire [where I = ?I, OF parts(3) retires_retire(1)]) auto
    then have "fence_ok s'" by (simp add: s')
    moreover have "ledger_ok (s\<lparr>deployments := ?D, generations := ?G\<rparr>)"
      by (rule ledger_ok_update [OF parts(4)]) simp_all
    then have "ledger_ok s'" by (simp add: s')
    moreover have "health_row_ok (if ?P d then ?f d else d) (if h_deployment h \<in> ids then ?k h else h)"
      if d: "d \<in> set (deployments s)" and h: "h \<in> set (healths s)" "h_deployment h = d_id d" for d h
    proof -
      have "d_id d \<in> ids \<longleftrightarrow> ?P d \<or> d_status d = DepInactive \<and> expired now d"
        using ids d parts(1) by (auto simp: keys_ok_def dest: uniqD)
      then show ?thesis
        using health_okD [OF parts(5) d h] fence_okD(1) [OF parts(3) d]
        by (auto simp: health_row_ok_def h(2) due_def)
    qed
    then have "health_ok (s\<lparr>deployments := ?D, healths := ?H\<rparr>)"
      by (rule health_ok_update) simp_all
    then have "health_ok s'" unfolding s' health_ok_def by simp
    ultimately show ?thesis using parts(6) by (simp add: store_inv_def s')
  qed (use inv in simp)
qed

lemma DeactivateDue_advances:
  assumes "DeactivateDueDeployments now s = Inr (s', n)"
  shows "advances j s s'"
proof (cases "s' = s")
  case False
  moreover have "dep_adv j (deployments s) (update_where (due now)
      (\<lambda>d. d\<lparr>d_status := DepInactive, d_active := 0, d_updated_at := now\<rparr>) (deployments s))"
    by (rule dep_adv_update) simp
  ultimately show ?thesis using DeactivateDue_Inr [OF assms] by (auto simp: advances_def)
qed simp

subsection \<open>Purge\<close>

lemma Purge_Inr:
  assumes inv: "store_inv s" and op: "PurgeDeploymentSafe i force s = Inr (s', u)"
  shows "s' = deleteDeployment i s \<and> set (deployments s') = {d \<in> set (deployments s). d_id d \<noteq> i} \<and>
    (\<exists>d\<in>set (deployments s). d_id d = i \<and> d_status d = DepArchived)"
proof -
  have keys: "keys_ok s" using inv by (simp add: store_inv_def)
  have one: "count_where (\<lambda>d. d_id d = i \<and> d_status d = DepArchived) (deployments s) = 1"
    and s': "s' = deleteDeployment i s"
    using op by (auto simp: PurgeDeploymentSafe_def split: if_splits)
  obtain d where d: "d \<in> set (deployments s)" "d_id d = i" "d_status d = DepArchived"
    "\<forall>d'\<in>set (deployments s). d_id d' = i \<longrightarrow> d' = d"
    by (rule one_deployment [OF keys one])
  have "d_status d' = DepArchived" if "d' \<in> set (deployments s)" "d_id d' = i" for d'
    using d(3,4) that by blast
  then have "set (deployments s') = {d \<in> set (deployments s). d_id d \<noteq> i}"
    unfolding s' deleteDeployment_def by (auto simp: set_delete_where)
  then show ?thesis using s' d(1-3) by blast
qed

lemma Purge_inv:
  assumes inv: "store_inv s" and op: "PurgeDeploymentSafe i force s = Inr (s', u)"
  shows "store_inv s'"
proof -
  have parts: "keys_ok s" "refs_ok s" "fence_ok s" "ledger_ok s" "health_ok s" "deliveries_ok s"
    using inv by (simp_all add: store_inv_def)
  have deps: "set (deployments s') = {d \<in> set (deployments s). d_id d \<noteq> i}"
    and s': "s' = deleteDeployment i s" using Purge_Inr [OF inv op] by blast+
  have ids: "d_id ` set (deployments s') = d_id ` set (deployments s) - {i}"
    by (auto simp: deps)
  have sets: "set (generations s') = {g \<in> set (generations s). g_deployment g \<noteq> i}"
    "set (healths s') = {h \<in> set (healths s). h_deployment h \<noteq> i}"
    "set (checkpoints s') = {c \<in> set (checkpoints s). c_deployment c \<noteq> i}"
    "set (transactions s') = {t \<in> set (transactions s). t_deployment t \<noteq> i}"
    "set (bindings s') = {b \<in> set (bindings s). b_deployment b \<noteq> i}"
    "set (events s') = {e \<in> set (events s). e_deployment e \<noteq> i}"
    "set (deliveries s') = {v \<in> set (deliveries s). v_deployment v \<noteq> i}"
    by (simp_all add: s' deleteDeployment_def set_delete_where)
  have "keys_ok s'" using parts(1)
    by (simp add: keys_ok_def s' deleteDeployment_def uniq_delete_where)
  moreover have "refs_ok s'"
  proof -
    have "h_deployment ` set (healths s') = h_deployment ` set (healths s) - {i}"
      by (auto simp: sets)
    then have "h_deployment ` set (healths s') = d_id ` set (deployments s')"
      using parts(2) by (simp add: ids refs_ok_def)
    moreover have "(e_deployment e, e_generation e, q) \<in> tx_key ` set (transactions s')"
      if ev: "e \<in> set (events s')" "e_seq e = Some q" for e q
    proof -
      have e: "e \<in> set (events s)" "e_deployment e \<noteq> i" using ev by (auto simp: sets)
      then obtain t where "t \<in> set (transactions s)" "tx_key t = (e_deployment e, e_generation e, q)"
        using parts(2) ev(2) unfolding refs_ok_def by fastforce
      then show ?thesis using e(2) by (intro image_eqI [where x = t]) (simp_all add: sets)
    qed
    moreover have "(t_deployment t, t_generation t) \<in> gen_key ` set (generations s')"
      if "t \<in> set (transactions s')" for t
    proof -
      have t: "t \<in> set (transactions s)" "t_deployment t \<noteq> i" using that by (auto simp: sets)
      obtain g where "g \<in> set (generations s)" "g_deployment g = t_deployment t" "g_generation g = t_generation t"
        by (rule receipt_generation [OF parts(2) t(1)])
      then show ?thesis using t(2) by (intro image_eqI [where x = g]) (simp_all add: sets)
    qed
    moreover have "(v_outbox v, v_deployment v) \<in> (\<lambda>e. (e_outbox e, e_deployment e)) ` set (events s')"
      if "v \<in> set (deliveries s')" for v
      using refs_okD(7) [OF parts(2), of v] that by (auto simp: sets)
    moreover have "(v_deployment v, v_destination v, v_revision v) \<in> binding_key ` set (bindings s')"
      if "v \<in> set (deliveries s')" for v
      using refs_okD(8) [OF parts(2), of v] that by (auto simp: sets)
    moreover have "e_seq e = None \<longleftrightarrow> e_kind e = KindHealth" if "e \<in> set (events s')" for e
      using parts(2) that by (auto simp: refs_ok_def sets)
    ultimately show ?thesis
      using refs_okD(1,3,4,6) [OF parts(2)]
      unfolding refs_ok_def image_subset_iff by (simp add: sets ids)
  qed
  moreover have "fence_ok s'"
  proof -
    have "(d_id d, d_active d) \<in> gen_key ` set (generations s')"
      if "d \<in> set (deployments s')" "0 < d_active d" for d
      using fence_okD(3) [OF parts(3), of d] that by (auto simp: deps sets)
    moreover have "(g_deployment g, g_generation g) \<in> (\<lambda>d. (d_id d, d_active d)) ` set (deployments s')"
      if "g \<in> set (generations s')" "g_status g = GenActive" for g
      using fence_okD(6) [OF parts(3), of g] that by (auto simp: deps sets)
    ultimately show ?thesis
      using fence_okD(1,2,4,5) [OF parts(3)] unfolding fence_ok_def by (simp add: deps sets)
  qed
  moreover have "ledger_ok s'"
  proof (rule ledger_okI)
    show "\<forall>g\<in>set (generations s'). 0 \<le> g_last_seq g \<and> (g_status g = GenActive \<longrightarrow>
        (\<forall>q. 1 \<le> q \<and> q \<le> g_last_seq g \<longrightarrow>
          (g_deployment g, g_generation g, q) \<in> tx_key ` set (transactions s')))"
    proof (intro ballI conjI impI allI)
      fix g q assume g: "g \<in> set (generations s')" "g_status g = GenActive" "1 \<le> q \<and> q \<le> g_last_seq g"
      then have g': "g \<in> set (generations s)" "g_deployment g \<noteq> i" by (simp_all add: sets)
      obtain t where "t \<in> set (transactions s)" "tx_key t = (g_deployment g, g_generation g, q)"
        using ledger_okD(3) [OF parts(4) g'(1) g(2)] g(3) by fastforce
      then show "(g_deployment g, g_generation g, q) \<in> tx_key ` set (transactions s')"
        using g'(2) by (intro image_eqI [where x = t]) (simp_all add: sets)
    qed (use ledger_okD(2) [OF parts(4)] in \<open>simp add: sets\<close>)
    show "uniq (\<lambda>t. (t_deployment t, t_result t)) (transactions s')"
      using parts(4) by (simp add: ledger_ok_def s' deleteDeployment_def uniq_delete_where)
  qed (use parts(4) in \<open>auto simp: ledger_ok_def deps sets\<close>)
  moreover have "health_ok s'" using parts(5) by (simp add: health_ok_def deps sets)
  moreover have "deliveries_ok s'" using parts(6) by (simp add: deliveries_ok_def sets)
  ultimately show ?thesis by (simp add: store_inv_def)
qed

lemma Purge_advances:
  assumes inv: "store_inv s" and op: "PurgeDeploymentSafe i force s = Inr (s', u)" and j: "j \<noteq> i"
  shows "advances j s s'"
proof -
  have deps: "set (deployments s') = {d \<in> set (deployments s). d_id d \<noteq> i}"
    and s': "s' = deleteDeployment i s" using Purge_Inr [OF inv op] by blast+
  have sets: "set (generations s') = {g \<in> set (generations s). g_deployment g \<noteq> i}"
    "set (transactions s') = {t \<in> set (transactions s). t_deployment t \<noteq> i}"
    by (simp_all add: s' deleteDeployment_def set_delete_where)
  have "dep_adv j (deployments s) (deployments s')"
    using j unfolding dep_adv_def deps by blast
  moreover have "gen_adv j (generations s) (generations s')"
    using j unfolding gen_adv_def sets by (blast intro: gen_later_refl)
  moreover have "rec_adv j (generations s) (transactions s) (generations s') (transactions s')"
    using j unfolding rec_adv_def sets by blast
  ultimately show ?thesis by (simp add: advances_def)
qed

section \<open>The contract\<close>

interpretation deploy_op: fenced_op "\<lambda>s. fst (run_tx (Deploy E input newID now) s)" i
  for E input newID now i
  by (rule fenced_op_tx) (blast intro: Deploy_inv Deploy_advances)+

interpretation expire_op: fenced_op "\<lambda>s. fst (run_tx (DeactivateDueDeployments now) s)" i for now i
  by (rule fenced_op_tx) (blast intro: DeactivateDue_inv DeactivateDue_advances)+

interpretation pause_op: fenced_op "\<lambda>s. fst (run_tx (PauseDeployment j now) s)" i for j now i
  unfolding PauseDeployment_def
  by (rule fenced_op_tx) (blast intro: setDeploymentStatus_inv setDeploymentStatus_advances)+

interpretation resume_op: fenced_op "\<lambda>s. fst (run_tx (ResumeDeployment j expires now) s)" i
  for j expires now i
  unfolding ResumeDeployment_def
  by (rule fenced_op_tx) (blast intro: setDeploymentStatus_inv setDeploymentStatus_advances)+

interpretation archive_op: fenced_op "\<lambda>s. fst (run_tx (ArchiveDeployment j now) s)" i for j now i
  by (rule fenced_op_tx) (blast intro: ArchiveDeployment_inv ArchiveDeployment_advances)+

interpretation replace_op: fenced_op "\<lambda>s. fst (run_tx (ReplaceState j base state now) s)" i
  for j base state now i
  by (rule fenced_op_tx) (blast intro: ReplaceState_inv ReplaceState_advances)+

interpretation clear_op: fenced_op "\<lambda>s. fst (run_tx (ClearCheckpoints j now) s)" i for j now i
  by (rule fenced_op_tx) (blast intro: ClearCheckpoints_inv ClearCheckpoints_advances)+

text \<open>A purge honours the contract for every other deployment.\<close>

lemma purge_fenced_op: "i \<noteq> j \<Longrightarrow> fenced_op (\<lambda>s. fst (run_tx (PurgeDeploymentSafe j force) s)) i"
  by (rule fenced_op_tx) (blast intro: Purge_inv Purge_advances)+

end
