(* ===== verification/Health.thy ===== *)
theory Health
  imports Generations
begin

text \<open>
  \<open>internal/storage/health.go\<close>: run outcomes, the failure counter, the unhealthy/recovered
  notification latch and the generation's ready and stopped marks.  A run that has no
  \<open>FinishedAt\<close> takes the clock reading \<open>now\<close>; the random outbox id is an argument; durations
  are in nanoseconds.
\<close>

record RunOutcome =
  ro_DeploymentID :: string
  ro_Generation :: int
  ro_Status :: "run_status option"
  ro_Duration :: int
  ro_Error :: string
  ro_FinishedAt :: "int option"

datatype HealthTransition = HealthUnchanged | HealthBecameUnhealthy | HealthRecovered

section \<open>Notifications\<close>

definition maxStoredErrorBytes :: nat where
  "maxStoredErrorBytes = 16384"

definition health_message :: "string \<Rightarrow> bool \<Rightarrow> int \<Rightarrow> int \<Rightarrow> Message" where
  "health_message name unhealthy failures at =
     (if unhealthy
      then empty_message\<lparr>msg_Footer := name, msg_Time := Some at, msg_Mentions := Some [],
             msg_Title := ''Monitor unhealthy'',
             msg_Message := ''The monitor has failed '' @ itoa failures @ '' consecutive times.'',
             msg_Level := LevelFailure\<rparr>
      else empty_message\<lparr>msg_Footer := name, msg_Time := Some at, msg_Mentions := Some [],
             msg_Title := ''Monitor recovered'', msg_Message := ''The monitor is healthy again.'',
             msg_Level := LevelSuccess\<rparr>)"

text \<open>\<open>INSERT INTO outbox_deliveries ... SELECT ... FROM destination_bindings\<close>, row by row.\<close>

definition health_delivery :: "string \<Rightarrow> int \<Rightarrow> binding_row \<Rightarrow> delivery_row list \<Rightarrow> delivery_row" where
  "health_delivery outboxID at b V =
     \<lparr>v_rowid = next_rowid v_rowid V, v_outbox = outboxID, v_deployment = b_deployment b,
      v_destination = b_id b, v_revision = b_revision b, v_status = DlvPending, v_attempts = 0,
      v_next_at = at, v_owner = None, v_expires = None, v_delivered_at = None, v_error = '''',
      v_dead_at = None\<rparr>"

fun insertHealthDeliveries :: "string \<Rightarrow> int \<Rightarrow> binding_row list \<Rightarrow> store \<Rightarrow> store result" where
  "insertHealthDeliveries outboxID at [] s = Inr s"
| "insertHealthDeliveries outboxID at (b # bs) s =
     (if exists_where (\<lambda>v. v_outbox v = outboxID \<and> v_destination v = b_id b) (deliveries s)
      then Inl (Errorf ''insert health deliveries'')
      else insertHealthDeliveries outboxID at bs
        (s\<lparr>deliveries := deliveries s @ [health_delivery outboxID at b (deliveries s)]\<rparr>))"

definition health_event ::
    "env \<Rightarrow> string \<Rightarrow> string \<Rightarrow> int \<Rightarrow> bool \<Rightarrow> int \<Rightarrow> int \<Rightarrow> string \<Rightarrow> event_row list \<Rightarrow> event_row" where
  "health_event E i name n unhealthy failures at outboxID V =
     (let payload = marshal_message E (health_message name unhealthy failures at) in
      \<lparr>e_rowid = next_rowid e_rowid V, e_outbox = outboxID, e_deployment = i,
       e_kind = KindHealth, e_generation = n, e_seq = None,
       e_event = (if unhealthy then ''unhealthy'' else ''recovered'') @ '':'' @ outboxID,
       e_payload = payload, e_payload_hash = sha256 E payload, e_created_at = at\<rparr>)"

definition enqueueHealthNotification ::
    "env \<Rightarrow> string \<Rightarrow> string \<Rightarrow> int \<Rightarrow> bool \<Rightarrow> int \<Rightarrow> int \<Rightarrow> string \<Rightarrow> store \<Rightarrow> store result" where
  "enqueueHealthNotification E i name n unhealthy failures at outboxID s =
     (let s1 = s\<lparr>healths := update_where (\<lambda>h. h_deployment h = i)
                  (\<lambda>h. h\<lparr>h_notified := unhealthy\<rparr>) (healths s)\<rparr>;
          e = health_event E i name n unhealthy failures at outboxID (events s1)
      in if event_conflict outboxID (event_key e) s1 then Inl (Errorf ''insert health notification'')
         else insertHealthDeliveries outboxID at
           (filter (\<lambda>b. b_deployment b = i \<and> b_retired_at b = None) (bindings s1))
           (s1\<lparr>events := events s1 @ [e]\<rparr>))"

section \<open>Generation marks\<close>

definition MarkGenerationReady :: "string \<Rightarrow> int \<Rightarrow> int \<Rightarrow> store \<Rightarrow> (store \<times> unit) result" where
  "MarkGenerationReady i n at s =
     (if i = '''' \<or> n < 1 then Inl (Errorf ''generation readiness requires deployment and generation'')
      else let gen_hit = (\<lambda>g. g_deployment g = i \<and> g_generation g = n \<and> g_status g = GenActive \<and> g_ready_at g = None);
               health_hit = (\<lambda>h. h_deployment h = i \<and> h_generation h = n)
      in case requireOneRow (count_where gen_hit (generations s)) ''mark generation ready'' of
           Some err \<Rightarrow> Inl err
         | None \<Rightarrow> (case requireOneRow (count_where health_hit (healths s)) ''mark deployment starting'' of
             Some err \<Rightarrow> Inl err
           | None \<Rightarrow> Inr (s\<lparr>generations := update_where gen_hit (\<lambda>g. g\<lparr>g_ready_at := Some at\<rparr>) (generations s),
                             healths := update_where health_hit
                               (\<lambda>h. h\<lparr>h_generation := n, h_status := HealthStarting, h_updated_at := at\<rparr>)
                               (healths s)\<rparr>, ())))"

definition stop_row :: "int \<Rightarrow> string \<Rightarrow> string \<Rightarrow> generation_row \<Rightarrow> generation_row" where
  "stop_row now reason stopError g = g\<lparr>g_status := GenRetired,
     g_stopped_at := coalesce (g_stopped_at g) now,
     g_stop_error := default_text (g_stop_error g) stopError,
     g_stop_reason := default_text (g_stop_reason g) reason,
     g_retired_at := coalesce (g_retired_at g) now\<rparr>"

definition stop_health :: "int \<Rightarrow> string \<Rightarrow> health_row \<Rightarrow> health_row" where
  "stop_health now stopError h = h\<lparr>
     h_status := (if stopError = '''' then HealthStopped else h_status h),
     h_last_error := (if stopError = '''' then h_last_error h else stopError), h_updated_at := now\<rparr>"

definition MarkGenerationStopped ::
    "string \<Rightarrow> int \<Rightarrow> string \<Rightarrow> string \<Rightarrow> int \<Rightarrow> store \<Rightarrow> (store \<times> unit) result" where
  "MarkGenerationStopped i n reason stopErr now s =
     (if i = '''' \<or> n < 1 then Inl (Errorf ''generation stop requires deployment and generation'')
      else let stopError = boundedText stopErr maxStoredErrorBytes;
               hit = (\<lambda>g. g_deployment g = i \<and> g_generation g = n)
      in case requireOneRow (count_where hit (generations s)) ''mark generation stopped'' of
           Some err \<Rightarrow> Inl err
         | None \<Rightarrow> Inr (s\<lparr>generations := update_where hit (stop_row now reason stopError) (generations s),
                           healths := update_where (\<lambda>h. h_deployment h = i \<and> h_generation h = n)
                             (stop_health now stopError) (healths s)\<rparr>, ()))"

section \<open>Run outcomes\<close>

text \<open>
  The \<open>SELECT ... JOIN deployment_health ... WHERE d.id=? AND d.status='active'\<close> that every
  outcome starts with.
\<close>

definition loadHealthPolicy :: "string \<Rightarrow> store \<Rightarrow> (deployment_row \<times> health_row) option" where
  "loadHealthPolicy i s =
     (case find (\<lambda>d. d_id d = i \<and> d_status d = DepActive) (deployments s) of
        None \<Rightarrow> None
      | Some d \<Rightarrow> (case find_health i s of None \<Rightarrow> None | Some h \<Rightarrow> Some (d, h)))"

text \<open>\<open>UPDATE deployment_health SET ... WHERE deployment_id=? AND generation=?\<close> and its row check.\<close>

definition updateHealth ::
    "string \<Rightarrow> (int \<Rightarrow> bool) \<Rightarrow> (health_row \<Rightarrow> health_row) \<Rightarrow> string \<Rightarrow> store \<Rightarrow> store result" where
  "updateHealth i gen_ok f operation s =
     (let hit = (\<lambda>h. h_deployment h = i \<and> gen_ok (h_generation h)) in
      case requireOneRow (count_where hit (healths s)) operation of
        Some err \<Rightarrow> Inl err
      | None \<Rightarrow> Inr (s\<lparr>healths := update_where hit f (healths s)\<rparr>))"

definition failed_status :: "int \<Rightarrow> int \<Rightarrow> health_status" where
  "failed_status failures threshold = (if threshold \<le> failures then HealthUnhealthy else HealthFailing)"

definition deferred_row :: "int \<Rightarrow> int \<Rightarrow> health_row \<Rightarrow> health_row" where
  "deferred_row threshold now h = h\<lparr>
     h_status := (if threshold \<le> h_failures h then HealthUnhealthy
                  else if 0 < h_failures h then HealthFailing else h_status h),
     h_updated_at := now\<rparr>"

definition success_row :: "int \<Rightarrow> int \<Rightarrow> int \<Rightarrow> health_row \<Rightarrow> health_row" where
  "success_row n duration now h = h\<lparr>h_generation := n, h_status := HealthHealthy, h_failures := 0,
     h_last_run_status := Some RunSucceeded, h_last_run_at := Some now,
     h_last_duration_ms := Some duration, h_last_success_at := Some now, h_last_error := '''',
     h_updated_at := now\<rparr>"

definition failure_row :: "int \<Rightarrow> int \<Rightarrow> int \<Rightarrow> string \<Rightarrow> int \<Rightarrow> health_row \<Rightarrow> health_row" where
  "failure_row n threshold duration err now h = h\<lparr>h_generation := n,
     h_status := failed_status (h_failures h + 1) threshold, h_failures := h_failures h + 1,
     h_last_run_status := Some RunFailed, h_last_run_at := Some now,
     h_last_duration_ms := Some duration, h_last_failure_at := Some now, h_last_error := err,
     h_updated_at := now\<rparr>"

definition operational_row :: "int \<Rightarrow> int \<Rightarrow> string \<Rightarrow> int \<Rightarrow> health_row \<Rightarrow> health_row" where
  "operational_row n threshold err now h = h\<lparr>h_generation := n,
     h_status := failed_status (h_failures h + 1) threshold, h_failures := h_failures h + 1,
     h_last_failure_at := Some now, h_last_error := err, h_updated_at := now\<rparr>"

text \<open>The tail of an outcome: enqueue the notification when the latch must move.\<close>

definition notifyIf ::
    "bool \<Rightarrow> env \<Rightarrow> string \<Rightarrow> string \<Rightarrow> int \<Rightarrow> bool \<Rightarrow> int \<Rightarrow> int \<Rightarrow> string \<Rightarrow> store \<Rightarrow>
     (store \<times> HealthTransition) result" where
  "notifyIf move E i name n unhealthy failures at outboxID s =
     (if move
      then (case enqueueHealthNotification E i name n unhealthy failures at outboxID s of
              Inl err \<Rightarrow> Inl err
            | Inr s' \<Rightarrow> Inr (s', if unhealthy then HealthBecameUnhealthy else HealthRecovered))
      else Inr (s, HealthUnchanged))"

definition RecordRun :: "env \<Rightarrow> RunOutcome \<Rightarrow> string \<Rightarrow> int \<Rightarrow> store \<Rightarrow> (store \<times> HealthTransition) result" where
  "RecordRun E outcome outboxID clock s =
     (let err = boundedText (ro_Error outcome) maxStoredErrorBytes;
          i = ro_DeploymentID outcome; n = ro_Generation outcome;
          now = (case ro_FinishedAt outcome of None \<Rightarrow> clock | Some t \<Rightarrow> t);
          duration = ro_Duration outcome div 1000000
      in if i = '''' \<or> n < 1 \<or> ro_Duration outcome < 0
         then Inl (Errorf ''run outcome requires deployment, generation, and non-negative duration'')
         else if ro_Status outcome = None then Inl (Errorf ''invalid run status'')
         else if ro_Status outcome = Some RunSucceeded \<and> err \<noteq> ''''
         then Inl (Errorf ''successful run outcome cannot contain an error'')
         else case loadHealthPolicy i s of
           None \<Rightarrow> Inl ErrGenerationFenced
         | Some (d, h) \<Rightarrow>
             if d_active d \<noteq> n then Inl ErrGenerationFenced
             else (case ro_Status outcome of
               Some RunDeferred \<Rightarrow>
                 (case updateHealth i (\<lambda>g. g = n) (deferred_row (d_threshold d) now) ''record deferred run'' s of
                    Inl e \<Rightarrow> Inl e | Inr s1 \<Rightarrow> Inr (s1, HealthUnchanged))
             | Some RunSucceeded \<Rightarrow>
                 (case updateHealth i (\<lambda>g. g = n) (success_row n duration now) ''record successful run'' s of
                    Inl e \<Rightarrow> Inl e
                  | Inr s1 \<Rightarrow> notifyIf (h_notified h) E i (d_name d) n False 0 now outboxID s1)
             | _ \<Rightarrow>
                 (case updateHealth i (\<lambda>g. g = n) (failure_row n (d_threshold d) duration err now)
                         ''record failed run'' s of
                    Inl e \<Rightarrow> Inl e
                  | Inr s1 \<Rightarrow> notifyIf (\<not> h_notified h \<and> d_threshold d \<le> h_failures h + 1) E i (d_name d) n
                                True (h_failures h + 1) now outboxID s1)))"

definition MarkGenerationStable ::
    "env \<Rightarrow> string \<Rightarrow> int \<Rightarrow> string \<Rightarrow> int \<Rightarrow> store \<Rightarrow> (store \<times> HealthTransition) result" where
  "MarkGenerationStable E i n outboxID at s =
     (case loadHealthPolicy i s of
        None \<Rightarrow> Inl ErrGenerationFenced
      | Some (d, h) \<Rightarrow>
          if d_active d \<noteq> n \<or> h_generation h \<noteq> n \<or> h_status h \<noteq> HealthStarting
          then Inl ErrGenerationFenced
          else let hit = (\<lambda>h. h_deployment h = i \<and> h_generation h = n \<and> h_status h = HealthStarting) in
            (case requireOneRow (count_where hit (healths s)) ''mark continuous generation stable'' of
               Some err \<Rightarrow> Inl err
             | None \<Rightarrow> notifyIf (h_notified h) E i (d_name d) n False 0 at outboxID
                 (s\<lparr>healths := update_where hit
                      (\<lambda>h. h\<lparr>h_status := HealthHealthy, h_failures := 0, h_last_error := '''', h_updated_at := at\<rparr>)
                      (healths s)\<rparr>)))"

definition recordOperationalFailure ::
    "env \<Rightarrow> string \<Rightarrow> int \<Rightarrow> bool \<Rightarrow> string \<Rightarrow> string \<Rightarrow> int \<Rightarrow> store \<Rightarrow> (store \<times> HealthTransition) result" where
  "recordOperationalFailure E i n fenceGeneration failureText outboxID now s =
     (let failure = boundedText failureText maxStoredErrorBytes in
      if i = '''' \<or> failure = '''' \<or> (fenceGeneration \<and> n < 1)
      then Inl (Errorf ''operational failure requires deployment and error'')
      else case loadHealthPolicy i s of
        None \<Rightarrow> Inl ErrGenerationFenced
      | Some (d, h) \<Rightarrow>
          if fenceGeneration \<and> d_active d \<noteq> n then Inl ErrGenerationFenced
          else let healthGeneration = (if fenceGeneration then d_active d else 0) in
            (case updateHealth i (\<lambda>_. True) (operational_row healthGeneration (d_threshold d) failure now)
                    ''record operational failure'' s of
               Inl e \<Rightarrow> Inl e
             | Inr s1 \<Rightarrow> notifyIf (\<not> h_notified h \<and> d_threshold d \<le> h_failures h + 1) E i (d_name d)
                           healthGeneration True (h_failures h + 1) now outboxID s1))"

definition RecordGenerationFailure ::
    "env \<Rightarrow> string \<Rightarrow> int \<Rightarrow> string \<Rightarrow> string \<Rightarrow> int \<Rightarrow> store \<Rightarrow> (store \<times> HealthTransition) result" where
  "RecordGenerationFailure E i n failure = recordOperationalFailure E i n True failure"

definition RecordDeploymentFailure ::
    "env \<Rightarrow> string \<Rightarrow> string \<Rightarrow> string \<Rightarrow> int \<Rightarrow> store \<Rightarrow> (store \<times> HealthTransition) result" where
  "RecordDeploymentFailure E i failure = recordOperationalFailure E i 0 False failure"

section \<open>The notification keeps the invariant\<close>

lemma insertHealthDeliveries_inv:
  assumes "insertHealthDeliveries outboxID at bs s = Inr s'" "store_inv s"
    "(outboxID, i) \<in> (\<lambda>e. (e_outbox e, e_deployment e)) ` set (events s)"
    "\<forall>b\<in>set bs. b \<in> set (bindings s) \<and> b_deployment b = i"
  shows "store_inv s'"
  using assms
proof (induction bs arbitrary: s)
  case Nil
  then show ?case by simp
next
  case (Cons b bs)
  let ?row = "health_delivery outboxID at b (deliveries s)"
  let ?s = "s\<lparr>deliveries := deliveries s @ [?row]\<rparr>"
  have new: "\<forall>v\<in>set (deliveries s). v_outbox v = outboxID \<longrightarrow> v_destination v \<noteq> b_id b"
    and step: "insertHealthDeliveries outboxID at bs ?s = Inr s'"
    using Cons.prems(1) by (auto split: if_splits simp: exists_where_iff)
  have row: "v_outbox ?row = outboxID" "v_deployment ?row = i" "v_destination ?row = b_id b"
    "v_revision ?row = b_revision b" "v_rowid ?row = next_rowid v_rowid (deliveries s)"
    "delivery_row_ok ?row"
    using Cons.prems(4) by (simp_all add: health_delivery_def delivery_row_ok_def)
  have ref: "(i, b_id b, b_revision b) \<in> binding_key ` set (bindings s)"
    using Cons.prems(4) by (auto intro!: image_eqI [where x = b])
  have "keys_ok ?s"
    using Cons.prems(2) new row by (auto simp: store_inv_def keys_ok_def uniq_snoc)
  moreover have "refs_ok ?s"
    using Cons.prems(2,3) ref row by (auto simp: store_inv_def refs_ok_def)
  moreover have "deliveries_ok ?s"
    using Cons.prems(2) row by (simp add: store_inv_def deliveries_ok_def)
  ultimately have "store_inv ?s" using Cons.prems(2) by (simp add: store_inv_def)
  then show ?case using Cons.IH [OF step] Cons.prems(3,4) by simp
qed

lemma insertHealthDeliveries_tables:
  "insertHealthDeliveries outboxID at bs s = Inr s' \<Longrightarrow> \<exists>vs. s' = s\<lparr>deliveries := deliveries s @ vs\<rparr>"
proof (induction bs arbitrary: s)
  case Nil
  then show ?case by (intro exI [of _ "[]"]) simp
next
  case (Cons b bs)
  then have "insertHealthDeliveries outboxID at bs
      (s\<lparr>deliveries := deliveries s @ [health_delivery outboxID at b (deliveries s)]\<rparr>) = Inr s'"
    by (simp split: if_splits)
  from Cons.IH [OF this] show ?case by auto
qed

abbreviation latch :: "string \<Rightarrow> bool \<Rightarrow> store \<Rightarrow> store" where
  "latch i unhealthy s \<equiv> s\<lparr>healths := update_where (\<lambda>h. h_deployment h = i)
     (\<lambda>h. h\<lparr>h_notified := unhealthy\<rparr>) (healths s)\<rparr>"

lemma enqueue_inv:
  assumes op: "enqueueHealthNotification E i name n unhealthy failures at outboxID s = Inr s'"
    and inv: "store_inv (latch i unhealthy s)" and i: "i \<in> d_id ` set (deployments s)"
  shows "store_inv s'"
proof -
  let ?s = "latch i unhealthy s"
  let ?e = "health_event E i name n unhealthy failures at outboxID (events s)"
  let ?s1 = "?s\<lparr>events := events ?s @ [?e]\<rparr>"
  have e: "e_outbox ?e = outboxID" "e_deployment ?e = i" "e_kind ?e = KindHealth" "e_seq ?e = None"
    "e_rowid ?e = next_rowid e_rowid (events s)"
    by (simp_all add: health_event_def Let_def)
  have free: "\<not> event_conflict outboxID (event_key ?e) ?s"
    and ins: "insertHealthDeliveries outboxID at
      (filter (\<lambda>b. b_deployment b = i \<and> b_retired_at b = None) (bindings s)) ?s1 = Inr s'"
    using op by (auto simp: enqueueHealthNotification_def Let_def split: if_splits)
  have "keys_ok ?s1"
    using inv free e by (auto simp: store_inv_def keys_ok_def uniq_snoc event_conflict_def exists_where_iff)
  moreover have "refs_ok ?s1"
    by (rule refs_add_event) (use inv i e in \<open>auto simp: store_inv_def\<close>)
  ultimately have "store_inv ?s1" using inv by (simp add: store_inv_def)
  then show ?thesis by (rule insertHealthDeliveries_inv [OF ins, of i]) (use e in auto)
qed

lemma enqueue_tables:
  assumes "enqueueHealthNotification E i name n unhealthy failures at outboxID s = Inr s'"
  shows "\<exists>es vs. s' = (latch i unhealthy s)\<lparr>events := events s @ es, deliveries := deliveries s @ vs\<rparr>"
proof -
  have "\<exists>bs e. insertHealthDeliveries outboxID at bs
      ((latch i unhealthy s)\<lparr>events := events s @ [e]\<rparr>) = Inr s'"
    using assms by (auto simp: enqueueHealthNotification_def Let_def split: if_splits)
  then show ?thesis using insertHealthDeliveries_tables by fastforce
qed

lemma notifyIf_inv:
  assumes "notifyIf move E i name n unhealthy failures at outboxID s = Inr (s', tr)"
    and "move \<Longrightarrow> store_inv (latch i unhealthy s)" "\<not> move \<Longrightarrow> store_inv s"
    and "i \<in> d_id ` set (deployments s)"
  shows "store_inv s'"
  using assms enqueue_inv by (auto simp: notifyIf_def split: if_splits sum.splits)

lemma notifyIf_tables:
  assumes "notifyIf move E i name n unhealthy failures at outboxID s = Inr (s', tr)"
  shows "deployments s' = deployments s" "generations s' = generations s"
    "transactions s' = transactions s" "checkpoints s' = checkpoints s" "bindings s' = bindings s"
    "healths s' = (if move then healths (latch i unhealthy s) else healths s)"
    "tr = (if move then if unhealthy then HealthBecameUnhealthy else HealthRecovered else HealthUnchanged)"
  using assms enqueue_tables by (fastforce simp: notifyIf_def split: if_splits sum.splits)+

section \<open>Health rows\<close>

text \<open>A statement on the health table keeps the invariant when every row it leaves agrees with its deployment.\<close>

lemma store_inv_healths:
  assumes inv: "store_inv s" and key: "\<And>h. h_deployment (F h) = h_deployment h"
    and row: "\<And>d h. d \<in> set (deployments s) \<Longrightarrow> h \<in> set (healths s) \<Longrightarrow> h_deployment h = d_id d \<Longrightarrow>
      health_row_ok d h \<Longrightarrow> health_row_ok d (F h)"
  shows "store_inv (s\<lparr>healths := map F (healths s)\<rparr>)"
proof -
  have "map h_deployment (map F (healths s)) = map h_deployment (healths s)"
    by (simp add: key)
  moreover have "h_deployment ` set (map F (healths s)) = h_deployment ` set (healths s)"
    by (simp add: key image_image)
  moreover have "health_ok (s\<lparr>healths := map F (healths s)\<rparr>)"
    using inv row by (auto simp: store_inv_def health_ok_def key)
  ultimately show ?thesis using inv
    by (simp add: store_inv_def keys_frames refs_frames del: map_map list.map_comp set_map)
qed

lemma loadHealthPolicy_Some:
  assumes "store_inv s" "loadHealthPolicy i s = Some (d, h)"
  shows "d \<in> set (deployments s)" "d_id d = i" "d_status d = DepActive" "h \<in> set (healths s)"
    "h_deployment h = i" "health_row_ok d h"
    "\<And>d'. d' \<in> set (deployments s) \<Longrightarrow> d_id d' = i \<Longrightarrow> d' = d"
    "\<And>h'. h' \<in> set (healths s) \<Longrightarrow> h_deployment h' = i \<Longrightarrow> h' = h"
proof -
  show d: "d \<in> set (deployments s)" "d_id d = i" "d_status d = DepActive"
    and h: "h \<in> set (healths s)" "h_deployment h = i"
    using assms(2) by (auto simp: loadHealthPolicy_def split: option.splits dest!: find_SomeD find_healthD)
  show "health_row_ok d h" using assms(1) d h by (auto simp: store_inv_def intro: health_okD)
  show "\<And>d'. d' \<in> set (deployments s) \<Longrightarrow> d_id d' = i \<Longrightarrow> d' = d"
    "\<And>h'. h' \<in> set (healths s) \<Longrightarrow> h_deployment h' = i \<Longrightarrow> h' = h"
    using assms(1) d h by (auto simp: store_inv_def keys_ok_def dest: uniqD)
qed

lemma updateHealth_Inr:
  assumes "updateHealth i p f operation s = Inr s'"
  shows "s' = s\<lparr>healths := update_where (\<lambda>h. h_deployment h = i \<and> p (h_generation h)) f (healths s)\<rparr>"
    "\<exists>h\<in>set (healths s). h_deployment h = i \<and> p (h_generation h)"
proof -
  have one: "count_where (\<lambda>h. h_deployment h = i \<and> p (h_generation h)) (healths s) = 1"
    and "s' = s\<lparr>healths := update_where (\<lambda>h. h_deployment h = i \<and> p (h_generation h)) f (healths s)\<rparr>"
    using assms by (auto simp: updateHealth_def Let_def requireOneRow_def split: if_splits option.splits)
  then show "s' = s\<lparr>healths := update_where (\<lambda>h. h_deployment h = i \<and> p (h_generation h)) f (healths s)\<rparr>"
    by simp
  show "\<exists>h\<in>set (healths s). h_deployment h = i \<and> p (h_generation h)"
    using one by (rule count_where_oneE) blast
qed

lemma outcome_inv:
  assumes inv: "store_inv s" and load: "loadHealthPolicy i s = Some (d, h)"
    and Q: "Q h" "\<And>h'. Q h' \<Longrightarrow> h_deployment h' = i" and f: "\<And>h. h_deployment (f h) = h_deployment h"
    and tail: "notifyIf move E i name n unhealthy failures at outboxID
      (s\<lparr>healths := update_where Q f (healths s)\<rparr>) = Inr (s', tr)"
    and row: "health_row_ok d (if move then (f h)\<lparr>h_notified := unhealthy\<rparr> else f h)"
  shows "store_inv s'"
proof -
  note pol = loadHealthPolicy_Some [OF inv load]
  let ?F = "\<lambda>h. if Q h then f h else h"
  let ?L = "\<lambda>h. if h_deployment h = i then h\<lparr>h_notified := unhealthy\<rparr> else h"
  have i: "i \<in> d_id ` set (deployments s)" using imageI_eq [of d _ d_id, OF pol(1,2)] .
  have "store_inv (latch i unhealthy (s\<lparr>healths := update_where Q f (healths s)\<rparr>))" if move
  proof -
    have "store_inv (s\<lparr>healths := map (\<lambda>h. ?L (?F h)) (healths s)\<rparr>)"
    proof (rule store_inv_healths [OF inv])
      fix d' h' assume h': "d' \<in> set (deployments s)" "h' \<in> set (healths s)" "h_deployment h' = d_id d'"
        "health_row_ok d' h'"
      show "health_row_ok d' (?L (?F h'))"
      proof (cases "h_deployment h' = i")
        case True
        then have "d' = d" "h' = h" using pol(7,8) h' by simp_all
        then show ?thesis using row Q(1) that f True by simp
      next
        case False
        then show ?thesis using h'(4) Q(2) by auto
      qed
    qed (simp add: f)
    then show ?thesis by (simp add: update_where_def o_def)
  qed
  moreover have "store_inv (s\<lparr>healths := update_where Q f (healths s)\<rparr>)" if "\<not> move"
  proof -
    have "store_inv (s\<lparr>healths := map ?F (healths s)\<rparr>)"
    proof (rule store_inv_healths [OF inv])
      fix d' h' assume h': "d' \<in> set (deployments s)" "h' \<in> set (healths s)" "h_deployment h' = d_id d'"
        "health_row_ok d' h'"
      show "health_row_ok d' (?F h')"
      proof (cases "h_deployment h' = i")
        case True
        then have "d' = d" "h' = h" using pol(7,8) h' by simp_all
        then show ?thesis using row Q(1) that by simp
      next
        case False
        then show ?thesis using h'(4) Q(2) by auto
      qed
    qed (simp add: f)
    then show ?thesis by (simp add: update_where_def)
  qed
  ultimately show ?thesis using notifyIf_inv [OF tail] i by simp
qed

text \<open>The rows the outcomes leave.\<close>

lemma outcome_rows:
  assumes "health_row_ok d h" "d_status d = DepActive"
  shows "health_row_ok d (deferred_row (d_threshold d) now h)"
    and "health_row_ok d (if h_notified h then (success_row (d_active d) duration now h)\<lparr>h_notified := False\<rparr>
         else success_row (d_active d) duration now h)"
    and "n = d_active d \<or> n = 0 \<Longrightarrow>
      health_row_ok d (if \<not> h_notified h \<and> d_threshold d \<le> h_failures h + 1
         then (failure_row n (d_threshold d) duration err now h)\<lparr>h_notified := True\<rparr>
         else failure_row n (d_threshold d) duration err now h)"
    and "n = d_active d \<or> n = 0 \<Longrightarrow>
      health_row_ok d (if \<not> h_notified h \<and> d_threshold d \<le> h_failures h + 1
         then (operational_row n (d_threshold d) err now h)\<lparr>h_notified := True\<rparr>
         else operational_row n (d_threshold d) err now h)"
  using assms
  by (auto simp: health_row_ok_def deferred_row_def success_row_def failure_row_def
      operational_row_def failed_status_def)

lemma row_keys [simp]:
  "h_deployment (deferred_row threshold now h) = h_deployment h"
  "h_deployment (success_row n duration now h) = h_deployment h"
  "h_deployment (failure_row n threshold duration err now h) = h_deployment h"
  "h_deployment (operational_row n threshold err now h) = h_deployment h"
  by (simp_all add: deferred_row_def success_row_def failure_row_def operational_row_def)

section \<open>The outcomes keep the invariant\<close>

text \<open>What a recorded run did: the row it updated, and the notification it may have sent.\<close>

definition run_move :: "run_status \<Rightarrow> deployment_row \<Rightarrow> health_row \<Rightarrow> bool" where
  "run_move st d h = (case st of RunDeferred \<Rightarrow> False | RunSucceeded \<Rightarrow> h_notified h
     | RunFailed \<Rightarrow> \<not> h_notified h \<and> d_threshold d \<le> h_failures h + 1)"

definition run_row :: "run_status \<Rightarrow> deployment_row \<Rightarrow> int \<Rightarrow> string \<Rightarrow> int \<Rightarrow> health_row \<Rightarrow> health_row" where
  "run_row st d duration err now = (case st of
     RunDeferred \<Rightarrow> deferred_row (d_threshold d) now
   | RunSucceeded \<Rightarrow> success_row (d_active d) duration now
   | RunFailed \<Rightarrow> failure_row (d_active d) (d_threshold d) duration err now)"

lemma RecordRun_Inr:
  assumes "RecordRun E outcome outboxID clock s = Inr (s', tr)"
  shows "\<exists>st d h now failures. ro_Status outcome = Some st \<and>
    loadHealthPolicy (ro_DeploymentID outcome) s = Some (d, h) \<and> d_active d = ro_Generation outcome \<and>
    0 < ro_Generation outcome \<and>
    (\<exists>h'\<in>set (healths s). h_deployment h' = ro_DeploymentID outcome \<and> h_generation h' = d_active d) \<and>
    notifyIf (run_move st d h) E (ro_DeploymentID outcome) (d_name d) (d_active d) (st = RunFailed) failures now outboxID
      (s\<lparr>healths := update_where (\<lambda>h. h_deployment h = ro_DeploymentID outcome \<and> h_generation h = d_active d)
           (run_row st d (ro_Duration outcome div 1000000) (boundedText (ro_Error outcome) maxStoredErrorBytes) now)
           (healths s)\<rparr>) = Inr (s', tr)"
proof -
  let ?i = "ro_DeploymentID outcome" and ?err = "boundedText (ro_Error outcome) maxStoredErrorBytes"
  let ?dur = "ro_Duration outcome div 1000000"
  let ?now = "case ro_FinishedAt outcome of None \<Rightarrow> clock | Some t \<Rightarrow> t"
  obtain st d h where st: "ro_Status outcome = Some st" and load: "loadHealthPolicy ?i s = Some (d, h)"
    and n: "d_active d = ro_Generation outcome" "0 < ro_Generation outcome"
    using assms by (auto simp: RecordRun_def Let_def split: if_splits option.splits)
  have valid: "\<not> (?i = [] \<or> ro_Generation outcome < 1 \<or> ro_Duration outcome < 0)"
    "\<not> (ro_Status outcome = Some RunSucceeded \<and> ?err \<noteq> [])"
    using assms by (auto simp: RecordRun_def Let_def split: if_splits)
  show ?thesis
  proof (cases st)
    case RunSucceeded
    then obtain s1 where "updateHealth ?i (\<lambda>g. g = d_active d) (success_row (d_active d) ?dur ?now) ''record successful run'' s = Inr s1"
      "notifyIf (h_notified h) E ?i (d_name d) (d_active d) False 0 ?now outboxID s1 = Inr (s', tr)"
      using assms st load n valid by (auto simp: RecordRun_def Let_def split: sum.splits)
    from updateHealth_Inr [OF this(1)] this(2) show ?thesis using RunSucceeded st load n
      by (auto simp: run_move_def run_row_def)
  next
    case RunFailed
    then obtain s1 where "updateHealth ?i (\<lambda>g. g = d_active d) (failure_row (d_active d) (d_threshold d) ?dur ?err ?now) ''record failed run'' s = Inr s1"
      "notifyIf (\<not> h_notified h \<and> d_threshold d \<le> h_failures h + 1) E ?i (d_name d) (d_active d) True
        (h_failures h + 1) ?now outboxID s1 = Inr (s', tr)"
      using assms st load n valid by (auto simp: RecordRun_def Let_def split: sum.splits)
    from updateHealth_Inr [OF this(1)] this(2) show ?thesis using RunFailed st load n
      by (auto simp: run_move_def run_row_def)
  next
    case RunDeferred
    then have "updateHealth ?i (\<lambda>g. g = d_active d) (deferred_row (d_threshold d) ?now) ''record deferred run'' s = Inr s'"
      "tr = HealthUnchanged"
      using assms st load n valid by (auto simp: RecordRun_def Let_def split: sum.splits)
    from updateHealth_Inr [OF this(1)] this(2) show ?thesis using RunDeferred st load n
      by (auto simp: run_move_def run_row_def notifyIf_def)
  qed
qed

lemma RecordRun_inv:
  assumes inv: "store_inv s" and op: "RecordRun E outcome outboxID clock s = Inr (s', tr)"
  shows "store_inv s'"
proof -
  let ?i = "ro_DeploymentID outcome"
  obtain st d h now failures where load: "loadHealthPolicy ?i s = Some (d, h)"
    and hit: "\<exists>h'\<in>set (healths s). h_deployment h' = ?i \<and> h_generation h' = d_active d"
    and tail: "notifyIf (run_move st d h) E ?i (d_name d) (d_active d) (st = RunFailed) failures now outboxID
      (s\<lparr>healths := update_where (\<lambda>h. h_deployment h = ?i \<and> h_generation h = d_active d)
           (run_row st d (ro_Duration outcome div 1000000) (boundedText (ro_Error outcome) maxStoredErrorBytes) now)
           (healths s)\<rparr>) = Inr (s', tr)"
    using RecordRun_Inr [OF op] by blast
  note pol = loadHealthPolicy_Some [OF inv load]
  have h: "h_deployment h = ?i \<and> h_generation h = d_active d" using hit pol(8) by blast
  let ?f = "run_row st d (ro_Duration outcome div 1000000) (boundedText (ro_Error outcome) maxStoredErrorBytes) now"
  have key: "h_deployment (?f h') = h_deployment h'" for h' by (cases st) (simp_all add: run_row_def)
  have row: "health_row_ok d (if run_move st d h then (?f h)\<lparr>h_notified := (st = RunFailed)\<rparr> else ?f h)"
  proof (cases st)
    case RunSucceeded
    then show ?thesis using outcome_rows(2) [OF pol(6,3), of "ro_Duration outcome div 1000000" now] h
      by (auto simp: run_row_def run_move_def split: if_splits)
  next
    case RunFailed
    then show ?thesis using outcome_rows(3) [OF pol(6,3), of "d_active d"]
      by (auto simp: run_row_def run_move_def split: if_splits)
  next
    case RunDeferred
    then show ?thesis using outcome_rows(1) [OF pol(6,3)]
      by (auto simp: run_row_def run_move_def split: if_splits)
  qed
  show ?thesis by (rule outcome_inv [OF inv load h _ key tail row]) simp
qed

lemma MarkGenerationStable_Inr:
  assumes "MarkGenerationStable E i n outboxID at s = Inr (s', tr)"
  shows "\<exists>d h. loadHealthPolicy i s = Some (d, h) \<and> d_active d = n \<and> h_generation h = n \<and>
    h_status h = HealthStarting \<and>
    notifyIf (h_notified h) E i (d_name d) n False 0 at outboxID
      (s\<lparr>healths := update_where (\<lambda>h. h_deployment h = i \<and> h_generation h = n \<and> h_status h = HealthStarting)
         (\<lambda>h. h\<lparr>h_status := HealthHealthy, h_failures := 0, h_last_error := [], h_updated_at := at\<rparr>)
         (healths s)\<rparr>) = Inr (s', tr)"
  using assms by (auto simp: MarkGenerationStable_def Let_def split: option.splits if_splits)

lemma MarkGenerationStable_inv:
  assumes inv: "store_inv s" and op: "MarkGenerationStable E i n outboxID at s = Inr (s', tr)"
  shows "store_inv s'"
proof -
  obtain d h where load: "loadHealthPolicy i s = Some (d, h)" and n: "d_active d = n" "h_generation h = n"
    "h_status h = HealthStarting" and tail: "notifyIf (h_notified h) E i (d_name d) n False 0 at outboxID
      (s\<lparr>healths := update_where (\<lambda>h. h_deployment h = i \<and> h_generation h = n \<and> h_status h = HealthStarting)
         (\<lambda>h. h\<lparr>h_status := HealthHealthy, h_failures := 0, h_last_error := [], h_updated_at := at\<rparr>)
         (healths s)\<rparr>) = Inr (s', tr)"
    using MarkGenerationStable_Inr [OF op] by blast
  note pol = loadHealthPolicy_Some [OF inv load]
  show ?thesis
    by (rule outcome_inv [OF inv load _ _ _ tail]) (use pol(3,5,6) n in \<open>auto simp: health_row_ok_def\<close>)
qed

lemma recordOperationalFailure_Inr:
  assumes "recordOperationalFailure E i n fenceGeneration failureText outboxID now s = Inr (s', tr)"
  shows "\<exists>d h. loadHealthPolicy i s = Some (d, h) \<and> (fenceGeneration \<longrightarrow> d_active d = n) \<and>
    notifyIf (\<not> h_notified h \<and> d_threshold d \<le> h_failures h + 1) E i (d_name d)
      (if fenceGeneration then d_active d else 0) True (h_failures h + 1) now outboxID
      (s\<lparr>healths := update_where (\<lambda>h. h_deployment h = i)
         (operational_row (if fenceGeneration then d_active d else 0) (d_threshold d)
           (boundedText failureText maxStoredErrorBytes) now) (healths s)\<rparr>) = Inr (s', tr)"
proof -
  obtain d h where load: "loadHealthPolicy i s = Some (d, h)" "fenceGeneration \<longrightarrow> d_active d = n"
    using assms by (auto simp: recordOperationalFailure_def Let_def split: if_splits option.splits)
  then obtain s1 where "updateHealth i (\<lambda>_. True)
      (operational_row (if fenceGeneration then d_active d else 0) (d_threshold d)
        (boundedText failureText maxStoredErrorBytes) now) ''record operational failure'' s = Inr s1"
    "notifyIf (\<not> h_notified h \<and> d_threshold d \<le> h_failures h + 1) E i (d_name d)
      (if fenceGeneration then d_active d else 0) True (h_failures h + 1) now outboxID s1 = Inr (s', tr)"
    using assms by (auto simp: recordOperationalFailure_def Let_def split: if_splits sum.splits)
  from updateHealth_Inr(1) [OF this(1)] this(2) show ?thesis using load by auto
qed

lemma recordOperationalFailure_inv:
  assumes inv: "store_inv s" and op: "recordOperationalFailure E i n fenceGeneration failureText outboxID now s = Inr (s', tr)"
  shows "store_inv s'"
proof -
  let ?g = "\<lambda>d. if fenceGeneration then d_active d else 0"
  obtain d h where load: "loadHealthPolicy i s = Some (d, h)" and
    tail: "notifyIf (\<not> h_notified h \<and> d_threshold d \<le> h_failures h + 1) E i (d_name d) (?g d) True
      (h_failures h + 1) now outboxID (s\<lparr>healths := update_where (\<lambda>h. h_deployment h = i)
         (operational_row (?g d) (d_threshold d) (boundedText failureText maxStoredErrorBytes) now) (healths s)\<rparr>) = Inr (s', tr)"
    using recordOperationalFailure_Inr [OF op] by blast
  note pol = loadHealthPolicy_Some [OF inv load]
  have "?g d = d_active d \<or> ?g d = 0" by simp
  then show ?thesis
    by (intro outcome_inv [OF inv load pol(5) _ _ tail] outcome_rows(4) [OF pol(6,3)]) simp_all
qed

section \<open>The generation marks keep the invariant\<close>

lemma fence_ok_generations:
  assumes fence: "fence_ok s" and R: "\<And>g. g_deployment (R g) = g_deployment g \<and> g_generation (R g) = g_generation g"
    and st: "\<And>g. g \<in> set (generations s) \<Longrightarrow> Q g \<Longrightarrow>
      (g_status (R g) = GenActive \<longleftrightarrow> g_retired_at (R g) = None) \<and>
      (g_status (R g) = GenActive \<longrightarrow> g_status g = GenActive)"
  shows "fence_ok (s\<lparr>generations := update_where Q R (generations s)\<rparr>)"
proof -
  have keys: "gen_key ` set (update_where Q R (generations s)) = gen_key ` set (generations s)"
    by (rule image_update_where) (simp add: R)
  have "0 < g_generation g' \<and> (g_status g' = GenActive \<longleftrightarrow> g_retired_at g' = None) \<and>
      (g_status g' = GenActive \<longrightarrow>
         (g_deployment g', g_generation g') \<in> (\<lambda>d. (d_id d, d_active d)) ` set (deployments s))"
    if "g' \<in> set (update_where Q R (generations s))" for g'
    using that
  proof (cases rule: update_where_E)
    case 1
    then show ?thesis using fence_okD(4-6) [OF fence] by blast
  next
    case (2 g)
    then show ?thesis using fence_okD(4-6) [OF fence 2(1)] st [OF 2(1,2)] R [of g] by simp
  qed
  then show ?thesis using fence_okD(1-3) [OF fence] unfolding fence_ok_def by (simp add: keys)
qed

lemma ledger_ok_generations:
  assumes "ledger_ok s" "\<And>g. g \<in> set (generations s) \<Longrightarrow> Q g \<Longrightarrow> gen_key (R g) = gen_key g \<and>
      g_last_seq (R g) = g_last_seq g \<and> (g_status (R g) = GenActive \<longrightarrow> g_status g = GenActive)"
  shows "ledger_ok (s\<lparr>generations := update_where Q R (generations s)\<rparr>)"
proof -
  have "update_where (\<lambda>_. False) id (deployments s) = deployments s" by (simp add: update_where_id)
  moreover have "ledger_ok (s\<lparr>deployments := update_where (\<lambda>_. False) id (deployments s),
      generations := update_where Q R (generations s)\<rparr>)"
    by (rule ledger_ok_update) (use assms in auto)
  ultimately show ?thesis by simp
qed

text \<open>A statement on the generations followed by one on the health rows.\<close>

lemma generation_mark_inv:
  assumes inv: "store_inv s"
    and R: "\<And>g. gen_key (R g) = gen_key g \<and> g_rowid (R g) = g_rowid g \<and> g_last_seq (R g) = g_last_seq g"
    and st: "\<And>g. g \<in> set (generations s) \<Longrightarrow> Q g \<Longrightarrow>
      (g_status (R g) = GenActive \<longleftrightarrow> g_retired_at (R g) = None) \<and>
      (g_status (R g) = GenActive \<longrightarrow> g_status g = GenActive)"
    and key: "\<And>h. h_deployment (F h) = h_deployment h"
    and row: "\<And>d h. d \<in> set (deployments s) \<Longrightarrow> h \<in> set (healths s) \<Longrightarrow> h_deployment h = d_id d \<Longrightarrow>
      health_row_ok d h \<Longrightarrow> P h \<Longrightarrow> health_row_ok d (F h)"
  shows "store_inv (s\<lparr>generations := update_where Q R (generations s), healths := update_where P F (healths s)\<rparr>)"
proof -
  let ?s = "s\<lparr>generations := update_where Q R (generations s)\<rparr>"
  have "keys_ok ?s" using inv by (simp add: store_inv_def table_simps R)
  moreover have "refs_ok ?s" using inv by (simp add: store_inv_def table_simps R)
  moreover have "fence_ok ?s"
    by (rule fence_ok_generations) (use inv R st in \<open>auto simp: store_inv_def\<close>)
  moreover have "ledger_ok ?s"
    by (rule ledger_ok_generations) (use inv R st in \<open>auto simp: store_inv_def\<close>)
  ultimately have "store_inv ?s" using inv by (simp add: store_inv_def)
  then have "store_inv (?s\<lparr>healths := map (\<lambda>h. if P h then F h else h) (healths ?s)\<rparr>)"
    by (rule store_inv_healths) (use key row in auto)
  then show ?thesis by (simp add: update_where_def)
qed

lemma MarkGenerationReady_Inr:
  assumes "MarkGenerationReady i n at s = Inr (s', u)"
  shows "s' = s\<lparr>generations := update_where
      (\<lambda>g. g_deployment g = i \<and> g_generation g = n \<and> g_status g = GenActive \<and> g_ready_at g = None)
      (\<lambda>g. g\<lparr>g_ready_at := Some at\<rparr>) (generations s),
    healths := update_where (\<lambda>h. h_deployment h = i \<and> h_generation h = n)
      (\<lambda>h. h\<lparr>h_generation := n, h_status := HealthStarting, h_updated_at := at\<rparr>) (healths s)\<rparr>"
    "0 < n" "\<exists>g\<in>set (generations s). g_deployment g = i \<and> g_generation g = n \<and> g_status g = GenActive"
proof -
  let ?hit = "\<lambda>g. g_deployment g = i \<and> g_generation g = n \<and> g_status g = GenActive \<and> g_ready_at g = None"
  have one: "count_where ?hit (generations s) = 1" and "0 < n"
    and "s' = s\<lparr>generations := update_where ?hit (\<lambda>g. g\<lparr>g_ready_at := Some at\<rparr>) (generations s),
      healths := update_where (\<lambda>h. h_deployment h = i \<and> h_generation h = n)
        (\<lambda>h. h\<lparr>h_generation := n, h_status := HealthStarting, h_updated_at := at\<rparr>) (healths s)\<rparr>"
    using assms by (auto simp: MarkGenerationReady_def Let_def requireOneRow_def split: if_splits option.splits)
  then show "s' = s\<lparr>generations := update_where ?hit (\<lambda>g. g\<lparr>g_ready_at := Some at\<rparr>) (generations s),
    healths := update_where (\<lambda>h. h_deployment h = i \<and> h_generation h = n)
      (\<lambda>h. h\<lparr>h_generation := n, h_status := HealthStarting, h_updated_at := at\<rparr>) (healths s)\<rparr>" "0 < n"
    by simp_all
  obtain g where "g \<in> set (generations s)" "?hit g" using one by (rule count_where_oneE)
  then show "\<exists>g\<in>set (generations s). g_deployment g = i \<and> g_generation g = n \<and> g_status g = GenActive"
    by blast
qed

lemma MarkGenerationReady_inv:
  assumes inv: "store_inv s" and op: "MarkGenerationReady i n at s = Inr (s', u)"
  shows "store_inv s'"
proof -
  have parts: "keys_ok s" "fence_ok s" using inv by (simp_all add: store_inv_def)
  note eff = MarkGenerationReady_Inr [OF op]
  obtain g where g: "g \<in> set (generations s)" "g_deployment g = i" "g_generation g = n" "g_status g = GenActive"
    using eff(3) by blast
  obtain d where d: "d \<in> set (deployments s)" "d_id d = g_deployment g" "d_active d = g_generation g"
    "d_status d = DepActive" by (rule active_generation [OF parts(2) g(1,4)])
  have only: "d' = d" if "d' \<in> set (deployments s)" "d_id d' = i" for d'
    using that d(1,2) g(2) parts(1) by (auto simp: keys_ok_def dest: uniqD)
  show ?thesis unfolding eff(1)
  proof (rule generation_mark_inv [OF inv])
    fix g' assume "g' \<in> set (generations s)"
    then show "(g_status (g'\<lparr>g_ready_at := Some at\<rparr>) = GenActive \<longleftrightarrow> g_retired_at (g'\<lparr>g_ready_at := Some at\<rparr>) = None) \<and>
        (g_status (g'\<lparr>g_ready_at := Some at\<rparr>) = GenActive \<longrightarrow> g_status g' = GenActive)"
      using fence_okD(5) [OF parts(2)] by simp
  next
    fix d' h assume d': "d' \<in> set (deployments s)" "h_deployment h = d_id d'" "health_row_ok d' h"
      and h: "h_deployment h = i \<and> h_generation h = n"
    then have "d' = d" using only by simp
    then show "health_row_ok d' (h\<lparr>h_generation := n, h_status := HealthStarting, h_updated_at := at\<rparr>)"
      using d'(3) d g(3) by (simp add: health_row_ok_def)
  qed simp_all
qed

lemma stop_row_retires [simp]: "retires (stop_row now reason stopError)"
  by (simp add: retires_def stop_row_def)

lemma MarkGenerationStopped_Inr:
  assumes "MarkGenerationStopped i n reason stopErr now s = Inr (s', u)"
  shows "s' = s\<lparr>generations := update_where (\<lambda>g. g_deployment g = i \<and> g_generation g = n)
      (stop_row now reason (boundedText stopErr maxStoredErrorBytes)) (generations s),
    healths := update_where (\<lambda>h. h_deployment h = i \<and> h_generation h = n)
      (stop_health now (boundedText stopErr maxStoredErrorBytes)) (healths s)\<rparr>"
  using assms by (auto simp: MarkGenerationStopped_def Let_def split: if_splits option.splits)

lemma MarkGenerationStopped_inv:
  assumes inv: "store_inv s" and op: "MarkGenerationStopped i n reason stopErr now s = Inr (s', u)"
  shows "store_inv s'"
  unfolding MarkGenerationStopped_Inr [OF op]
  by (rule generation_mark_inv [OF inv])
    (simp_all add: retiresD [OF stop_row_retires] stop_health_def health_row_ok_def)

section \<open>The contract\<close>

lemma MarkGenerationReady_advances:
  assumes "MarkGenerationReady i n at s = Inr (s', u)"
  shows "advances j s s'"
  unfolding MarkGenerationReady_Inr(1) [OF assms] advances_def
  by (simp, rule gen_adv_update) (simp add: gen_later_def)

lemma MarkGenerationStopped_advances:
  assumes "MarkGenerationStopped i n reason stopErr now s = Inr (s', u)"
  shows "advances j s s'"
  unfolding MarkGenerationStopped_Inr [OF assms] advances_def
  by (simp, rule gen_adv_update) (simp add: gen_later_def retiresD [OF stop_row_retires])

lemma outcome_advances:
  assumes "notifyIf move E i name n unhealthy failures at outboxID (s\<lparr>healths := H\<rparr>) = Inr (s', tr)"
  shows "advances j s s'"
  using notifyIf_tables(1-3) [OF assms] by (simp add: advances_def)

lemma RecordRun_advances:
  "RecordRun E outcome outboxID clock s = Inr (s', tr) \<Longrightarrow> advances j s s'"
  by (drule RecordRun_Inr, elim exE conjE, erule outcome_advances)

lemma MarkGenerationStable_advances:
  "MarkGenerationStable E i n outboxID at s = Inr (s', tr) \<Longrightarrow> advances j s s'"
  by (drule MarkGenerationStable_Inr, elim exE conjE, erule outcome_advances)

lemma recordOperationalFailure_advances:
  "recordOperationalFailure E i n fenceGeneration failureText outboxID now s = Inr (s', tr) \<Longrightarrow> advances j s s'"
  by (drule recordOperationalFailure_Inr, elim exE conjE, erule outcome_advances)

interpretation ready_op: fenced_op "\<lambda>s. fst (run_tx (MarkGenerationReady j n at) s)" i for j n at i
  by (rule fenced_op_tx) (blast intro: MarkGenerationReady_inv MarkGenerationReady_advances)+

interpretation stopped_op: fenced_op "\<lambda>s. fst (run_tx (MarkGenerationStopped j n reason err now) s)" i
  for j n reason err now i
  by (rule fenced_op_tx) (blast intro: MarkGenerationStopped_inv MarkGenerationStopped_advances)+

interpretation run_op: fenced_op "\<lambda>s. fst (run_tx (RecordRun E outcome outboxID clock) s)" i
  for E outcome outboxID clock i
  by (rule fenced_op_tx) (blast intro: RecordRun_inv RecordRun_advances)+

interpretation stable_op: fenced_op "\<lambda>s. fst (run_tx (MarkGenerationStable E j n outboxID at) s)" i
  for E j n outboxID at i
  by (rule fenced_op_tx) (blast intro: MarkGenerationStable_inv MarkGenerationStable_advances)+

interpretation failure_op: fenced_op
  "\<lambda>s. fst (run_tx (recordOperationalFailure E j n fenceGeneration failureText outboxID now) s)" i
  for E j n fenceGeneration failureText outboxID now i
  by (rule fenced_op_tx) (blast intro: recordOperationalFailure_inv recordOperationalFailure_advances)+

end
