(* ===== verification/Outbox.thy ===== *)
theory Outbox
  imports Generations
begin

text \<open>
  \<open>internal/storage/outbox.go\<close>: leasing due deliveries to a sender and settling them.  A claim
  marks its rows with an owner string that ends in a fresh random id (an argument); settling a
  row needs that owner and the sending state.  Durations are in nanoseconds, instants in
  whole milliseconds; \<open>ORDER BY next_attempt_at\<close> is a stable sort of the rowid order.
\<close>

record ClaimedDelivery =
  cd_OutboxID :: string
  cd_DeploymentID :: string
  cd_DeploymentName :: string
  cd_DestinationID :: string
  cd_DestinationRevision :: int
  cd_MessagePayload :: string
  cd_DestinationConfig :: string
  cd_AttemptCount :: int
  cd_LeaseOwner :: string
  cd_LeaseExpiresAt :: int
  cd_CreatedAt :: int

record OutboxHistory =
  oh_OutboxID :: string
  oh_Kind :: event_kind
  oh_EventID :: string
  oh_DestinationID :: string
  oh_Status :: delivery_status
  oh_LastError :: string
  oh_CreatedAt :: int
  oh_AttemptCount :: int

section \<open>Operations\<close>

definition deliverable :: "int \<Rightarrow> delivery_row \<Rightarrow> bool" where
  "deliverable now v \<longleftrightarrow> v_status v = DlvPending \<and> v_next_at v \<le> now \<or>
     v_status v = DlvSending \<and> v_expires v \<noteq> None \<and> the (v_expires v) \<le> now"

text \<open>The rowids of the sub-select, in order.\<close>

definition claim_ids :: "int \<Rightarrow> nat \<Rightarrow> store \<Rightarrow> int list" where
  "claim_ids now limit s =
     take limit (map v_rowid (sort_key v_next_at (filter (deliverable now) (deliveries s))))"

definition lease_row :: "string \<Rightarrow> int \<Rightarrow> delivery_row \<Rightarrow> delivery_row" where
  "lease_row owner expires v =
     v\<lparr>v_status := DlvSending, v_owner := Some owner, v_expires := Some expires\<rparr>"

text \<open>The three joins of the second query; a missing partner drops the row.\<close>

definition claim_join :: "string \<Rightarrow> int \<Rightarrow> store \<Rightarrow> delivery_row \<Rightarrow> ClaimedDelivery option" where
  "claim_join owner expires s v =
     (case (find (\<lambda>e. e_outbox e = v_outbox v \<and> e_deployment e = v_deployment v) (events s),
            find (\<lambda>b. binding_key b = (v_deployment v, v_destination v, v_revision v)) (bindings s)) of
        (Some e, Some b) \<Rightarrow> (case find_deployment (e_deployment e) s of
            Some d \<Rightarrow> Some \<lparr>cd_OutboxID = v_outbox v, cd_DeploymentID = e_deployment e,
              cd_DeploymentName = d_name d, cd_DestinationID = v_destination v,
              cd_DestinationRevision = v_revision v, cd_MessagePayload = e_payload e,
              cd_DestinationConfig = b_config b, cd_AttemptCount = v_attempts v,
              cd_LeaseOwner = owner, cd_LeaseExpiresAt = expires, cd_CreatedAt = e_created_at e\<rparr>
          | None \<Rightarrow> None)
      | _ \<Rightarrow> None)"

definition claimed_rows :: "string \<Rightarrow> int \<Rightarrow> store \<Rightarrow> delivery_row list" where
  "claimed_rows owner expires s =
     sort_key v_next_at (filter (\<lambda>v. v_status v = DlvSending \<and> v_owner v = Some owner \<and>
       v_expires v = Some expires) (deliveries s))"

definition ClaimOutbox ::
    "string \<Rightarrow> string \<Rightarrow> int \<Rightarrow> int \<Rightarrow> int \<Rightarrow> store \<Rightarrow> (store \<times> ClaimedDelivery list) result" where
  "ClaimOutbox owner claimID now lease limit s =
     (if owner = '''' \<or> lease \<le> 0 \<or> limit \<le> 0 then Inl (Errorf ''invalid outbox claim'')
      else let claimOwner = owner @ '':'' @ claimID;
               expires = now + lease div 1000000;
               ids = claim_ids now (nat limit) s;
               s1 = s\<lparr>deliveries := update_where (\<lambda>v. v_rowid v \<in> set ids)
                      (lease_row claimOwner expires) (deliveries s)\<rparr>
           in if count_where (\<lambda>v. v_rowid v \<in> set ids) (deliveries s) = 0 then Inr (s1, [])
              else Inr (s1, List.map_filter (claim_join claimOwner expires s1)
                              (claimed_rows claimOwner expires s1)))"

definition holds_lease :: "string \<Rightarrow> string \<Rightarrow> string \<Rightarrow> delivery_row \<Rightarrow> bool" where
  "holds_lease outboxID dest owner v \<longleftrightarrow> v_outbox v = outboxID \<and> v_destination v = dest \<and>
     v_status v = DlvSending \<and> v_owner v = Some owner"

definition finishDelivery ::
    "string \<Rightarrow> string \<Rightarrow> string \<Rightarrow> (delivery_row \<Rightarrow> delivery_row) \<Rightarrow> store \<Rightarrow> (store \<times> unit) result" where
  "finishDelivery outboxID dest owner f s =
     (if count_where (holds_lease outboxID dest owner) (deliveries s) \<noteq> 1 then Inl ErrLeaseLost
      else Inr (s\<lparr>deliveries := update_where (holds_lease outboxID dest owner) f (deliveries s)\<rparr>, ()))"

definition delivered_row :: "int \<Rightarrow> delivery_row \<Rightarrow> delivery_row" where
  "delivered_row now v = v\<lparr>v_status := DlvDelivered, v_delivered_at := Some now, v_owner := None,
     v_expires := None, v_error := ''''\<rparr>"

definition deferred_delivery :: "int \<Rightarrow> delivery_row \<Rightarrow> delivery_row" where
  "deferred_delivery next v = v\<lparr>v_status := DlvPending, v_next_at := next, v_owner := None,
     v_expires := None\<rparr>"

definition dead_row :: "int \<Rightarrow> string \<Rightarrow> delivery_row \<Rightarrow> delivery_row" where
  "dead_row now message v = v\<lparr>v_status := DlvDead, v_attempts := v_attempts v + 1,
     v_dead_at := Some now, v_owner := None, v_expires := None, v_error := message\<rparr>"

definition retry_row :: "int \<Rightarrow> string \<Rightarrow> delivery_row \<Rightarrow> delivery_row" where
  "retry_row next message v = v\<lparr>v_status := DlvPending, v_attempts := v_attempts v + 1,
     v_next_at := next, v_owner := None, v_expires := None, v_error := message\<rparr>"

definition MarkDelivered :: "string \<Rightarrow> string \<Rightarrow> string \<Rightarrow> int \<Rightarrow> store \<Rightarrow> (store \<times> unit) result" where
  "MarkDelivered outboxID dest owner now = finishDelivery outboxID dest owner (delivered_row now)"

definition DeferDelivery :: "string \<Rightarrow> string \<Rightarrow> string \<Rightarrow> int \<Rightarrow> store \<Rightarrow> (store \<times> unit) result" where
  "DeferDelivery outboxID dest owner next s =
     (if count_where (holds_lease outboxID dest owner) (deliveries s) \<noteq> 1 then Inl ErrLeaseLost
      else Inr (s\<lparr>deliveries := update_where (holds_lease outboxID dest owner) (deferred_delivery next)
                  (deliveries s)\<rparr>, ()))"

definition MarkDeliveryFailed ::
    "string \<Rightarrow> string \<Rightarrow> string \<Rightarrow> string \<Rightarrow> int \<Rightarrow> int \<Rightarrow> int \<Rightarrow> store \<Rightarrow> (store \<times> unit) result" where
  "MarkDeliveryFailed outboxID dest owner messageText now next maxAttempts s =
     (if maxAttempts < 1 then Inl (Errorf ''max attempts must be positive'')
      else let message = boundedText messageText 16384 in
        case find (holds_lease outboxID dest owner) (deliveries s) of
          None \<Rightarrow> Inl ErrLeaseLost
        | Some v \<Rightarrow>
            if maxAttempts \<le> v_attempts v + 1
            then finishDelivery outboxID dest owner (dead_row now message) s
            else finishDelivery outboxID dest owner (retry_row next message) s)"

definition is_dead :: "string \<Rightarrow> string \<Rightarrow> delivery_row \<Rightarrow> bool" where
  "is_dead outboxID dest v \<longleftrightarrow> v_outbox v = outboxID \<and> v_destination v = dest \<and> v_status v = DlvDead"

definition revived_row :: "int \<Rightarrow> delivery_row \<Rightarrow> delivery_row" where
  "revived_row now v = v\<lparr>v_status := DlvPending, v_attempts := 0, v_next_at := now, v_dead_at := None,
     v_error := ''''\<rparr>"

definition RetryDeadDelivery :: "string \<Rightarrow> string \<Rightarrow> int \<Rightarrow> store \<Rightarrow> (store \<times> unit) result" where
  "RetryDeadDelivery outboxID dest now s =
     (if count_where (is_dead outboxID dest) (deliveries s) \<noteq> 1 then Inl ErrNotFound
      else Inr (s\<lparr>deliveries := update_where (is_dead outboxID dest) (revived_row now) (deliveries s)\<rparr>, ()))"

text \<open>The operator's listing, newest event first.\<close>

definition history_row :: "event_row \<Rightarrow> delivery_row \<Rightarrow> OutboxHistory" where
  "history_row e v = \<lparr>oh_OutboxID = e_outbox e, oh_Kind = e_kind e, oh_EventID = e_event e,
     oh_DestinationID = v_destination v, oh_Status = v_status v, oh_LastError = v_error v,
     oh_CreatedAt = e_created_at e, oh_AttemptCount = v_attempts v\<rparr>"

definition ListOutboxHistory :: "string \<Rightarrow> int \<Rightarrow> bool \<Rightarrow> store \<Rightarrow> OutboxHistory list" where
  "ListOutboxHistory i limit failed s =
     take (nat (if limit \<le> 0 then 20 else limit))
       (sort_key (\<lambda>r. - oh_CreatedAt r)
         [history_row e v. e \<leftarrow> events s, e_deployment e = i, v \<leftarrow> deliveries s,
            v_outbox v = e_outbox e \<and> (failed \<longrightarrow> v_status v = DlvDead)])"

section \<open>The operations keep the invariant\<close>

lemma store_inv_deliveries:
  assumes inv: "store_inv s"
    and key: "\<And>v. v_rowid (f v) = v_rowid v \<and> v_outbox (f v) = v_outbox v \<and>
      v_deployment (f v) = v_deployment v \<and> v_destination (f v) = v_destination v \<and>
      v_revision (f v) = v_revision v"
    and row: "\<And>v. v \<in> set (deliveries s) \<Longrightarrow> P v \<Longrightarrow> delivery_row_ok v \<Longrightarrow> delivery_row_ok (f v)"
  shows "store_inv (s\<lparr>deliveries := update_where P f (deliveries s)\<rparr>)"
proof -
  let ?s = "s\<lparr>deliveries := update_where P f (deliveries s)\<rparr>"
  have "keys_ok ?s" using inv by (simp add: store_inv_def table_simps key)
  moreover have "refs_ok ?s" using inv by (simp add: store_inv_def table_simps key)
  moreover have "deliveries_ok ?s"
    using inv row by (simp add: store_inv_def deliveries_ok_def ball_update_where)
  ultimately show ?thesis using inv by (simp add: store_inv_def)
qed

lemma finishDelivery_inv:
  assumes inv: "store_inv s" and op: "finishDelivery outboxID dest owner f s = Inr (s', u)"
    and f: "\<And>v. v_rowid (f v) = v_rowid v \<and> v_outbox (f v) = v_outbox v \<and>
      v_deployment (f v) = v_deployment v \<and> v_destination (f v) = v_destination v \<and>
      v_revision (f v) = v_revision v"
      "\<And>v. delivery_row_ok v \<Longrightarrow> v_status v = DlvSending \<Longrightarrow> delivery_row_ok (f v)"
  shows "store_inv s'"
proof -
  have "s' = s\<lparr>deliveries := update_where (holds_lease outboxID dest owner) f (deliveries s)\<rparr>"
    using op by (simp add: finishDelivery_def split: if_splits)
  moreover have "store_inv (s\<lparr>deliveries := update_where (holds_lease outboxID dest owner) f (deliveries s)\<rparr>)"
    by (rule store_inv_deliveries [OF inv f(1)]) (simp add: f(2) holds_lease_def)
  ultimately show ?thesis by simp
qed

lemma row_outcomes:
  assumes "delivery_row_ok v" "v_status v = DlvSending"
  shows "delivery_row_ok (delivered_row now v)" "delivery_row_ok (deferred_delivery next v)"
    "delivery_row_ok (dead_row now m v)" "delivery_row_ok (retry_row next m v)"
  using assms by (auto simp: delivery_row_ok_def delivered_row_def deferred_delivery_def dead_row_def retry_row_def)

lemma row_outcome_keys [simp]:
  "v_rowid (delivered_row now v) = v_rowid v" "v_outbox (delivered_row now v) = v_outbox v"
  "v_deployment (delivered_row now v) = v_deployment v" "v_destination (delivered_row now v) = v_destination v"
  "v_revision (delivered_row now v) = v_revision v"
  "v_rowid (deferred_delivery nx v) = v_rowid v" "v_outbox (deferred_delivery nx v) = v_outbox v"
  "v_deployment (deferred_delivery nx v) = v_deployment v" "v_destination (deferred_delivery nx v) = v_destination v"
  "v_revision (deferred_delivery nx v) = v_revision v"
  "v_rowid (dead_row now m v) = v_rowid v" "v_outbox (dead_row now m v) = v_outbox v"
  "v_deployment (dead_row now m v) = v_deployment v" "v_destination (dead_row now m v) = v_destination v"
  "v_revision (dead_row now m v) = v_revision v"
  "v_rowid (retry_row nx m v) = v_rowid v" "v_outbox (retry_row nx m v) = v_outbox v"
  "v_deployment (retry_row nx m v) = v_deployment v" "v_destination (retry_row nx m v) = v_destination v"
  "v_revision (retry_row nx m v) = v_revision v"
  "v_rowid (revived_row now v) = v_rowid v" "v_outbox (revived_row now v) = v_outbox v"
  "v_deployment (revived_row now v) = v_deployment v" "v_destination (revived_row now v) = v_destination v"
  "v_revision (revived_row now v) = v_revision v"
  "v_rowid (lease_row ow ex v) = v_rowid v" "v_outbox (lease_row ow ex v) = v_outbox v"
  "v_deployment (lease_row ow ex v) = v_deployment v" "v_destination (lease_row ow ex v) = v_destination v"
  "v_revision (lease_row ow ex v) = v_revision v" "v_next_at (lease_row ow ex v) = v_next_at v"
  "v_attempts (lease_row ow ex v) = v_attempts v"
  by (simp_all add: delivered_row_def deferred_delivery_def dead_row_def retry_row_def revived_row_def lease_row_def)

text \<open>The rows a claim selects are exactly due rows, each once.\<close>

lemma claim_ids_due:
  assumes "keys_ok s" "v \<in> set (deliveries s)" "v_rowid v \<in> set (claim_ids now limit s)"
  shows "deliverable now v"
proof -
  have "v_rowid v \<in> v_rowid ` set (filter (deliverable now) (deliveries s))"
    using assms(3) set_take_subset by (fastforce simp: claim_ids_def)
  then obtain v' where "v' \<in> set (deliveries s)" "deliverable now v'" "v_rowid v' = v_rowid v" by auto
  then show ?thesis using assms(1,2) by (auto simp: keys_ok_def dest: uniqD)
qed

lemma ClaimOutbox_Inr:
  assumes "ClaimOutbox owner claimID now lease limit s = Inr (s', out)"
  shows "s' = s\<lparr>deliveries := update_where (\<lambda>v. v_rowid v \<in> set (claim_ids now (nat limit) s))
      (lease_row (owner @ '':'' @ claimID) (now + lease div 1000000)) (deliveries s)\<rparr>"
    "0 < lease" "0 < limit" "owner \<noteq> []"
  using assms by (auto simp: ClaimOutbox_def Let_def split: if_splits)

lemma ClaimOutbox_inv:
  assumes inv: "store_inv s" and op: "ClaimOutbox owner claimID now lease limit s = Inr (s', out)"
  shows "store_inv s'"
proof -
  have keys: "keys_ok s" using inv by (simp add: store_inv_def)
  have "delivery_row_ok (lease_row (owner @ '':'' @ claimID) (now + lease div 1000000) v)"
    if "v \<in> set (deliveries s)" "v_rowid v \<in> set (claim_ids now (nat limit) s)" "delivery_row_ok v" for v
    using claim_ids_due [OF keys that(1,2)] that(3)
    by (auto simp: deliverable_def delivery_row_ok_def lease_row_def)
  then show ?thesis unfolding ClaimOutbox_Inr(1) [OF op]
    by (intro store_inv_deliveries [OF inv]) simp_all
qed

lemma MarkDelivered_inv:
  "store_inv s \<Longrightarrow> MarkDelivered outboxID dest owner now s = Inr (s', u) \<Longrightarrow> store_inv s'"
  unfolding MarkDelivered_def by (erule (1) finishDelivery_inv) (simp_all add: row_outcomes)

lemma DeferDelivery_finish:
  "DeferDelivery outboxID dest owner next s = finishDelivery outboxID dest owner (deferred_delivery next) s"
  by (simp add: DeferDelivery_def finishDelivery_def)

lemma DeferDelivery_inv:
  "store_inv s \<Longrightarrow> DeferDelivery outboxID dest owner next s = Inr (s', u) \<Longrightarrow> store_inv s'"
  unfolding DeferDelivery_finish by (erule (1) finishDelivery_inv) (simp_all add: row_outcomes)

lemma MarkDeliveryFailed_inv:
  assumes "store_inv s" "MarkDeliveryFailed outboxID dest owner m now next k s = Inr (s', u)"
  shows "store_inv s'"
proof -
  have "finishDelivery outboxID dest owner (dead_row now (boundedText m 16384)) s = Inr (s', u) \<or>
      finishDelivery outboxID dest owner (retry_row next (boundedText m 16384)) s = Inr (s', u)"
    using assms(2) by (auto simp: MarkDeliveryFailed_def Let_def split: if_splits option.splits)
  then show ?thesis
  proof
    assume op: "finishDelivery outboxID dest owner (dead_row now (boundedText m 16384)) s = Inr (s', u)"
    show ?thesis by (rule finishDelivery_inv [OF assms(1) op]) (simp_all add: row_outcomes)
  next
    assume op: "finishDelivery outboxID dest owner (retry_row next (boundedText m 16384)) s = Inr (s', u)"
    show ?thesis by (rule finishDelivery_inv [OF assms(1) op]) (simp_all add: row_outcomes)
  qed
qed

lemma RetryDead_inv:
  assumes inv: "store_inv s" and op: "RetryDeadDelivery outboxID dest now s = Inr (s', u)"
  shows "store_inv s'"
proof -
  have "s' = s\<lparr>deliveries := update_where (is_dead outboxID dest) (revived_row now) (deliveries s)\<rparr>"
    using op by (simp add: RetryDeadDelivery_def split: if_splits)
  then show ?thesis
    using store_inv_deliveries [OF inv, of "revived_row now" "is_dead outboxID dest"]
    by (auto simp: is_dead_def revived_row_def delivery_row_ok_def)
qed

section \<open>The contract\<close>

definition outbox_only :: "store \<Rightarrow> store \<Rightarrow> bool" where
  "outbox_only s s' \<longleftrightarrow> s' = s\<lparr>deliveries := deliveries s'\<rparr>"

lemma outbox_only_advances: "outbox_only s s' \<Longrightarrow> advances i s s'"
  unfolding outbox_only_def advances_def
  by (metis dep_adv_refl gen_adv_refl rec_adv_same store.ext_inject store.surjective store.update_convs(9))

lemma outbox_ops_only:
  "ClaimOutbox owner claimID now lease limit s = Inr (s', out) \<Longrightarrow> outbox_only s s'"
  "finishDelivery outboxID dest owner f s = Inr (s', u) \<Longrightarrow> outbox_only s s'"
  "MarkDelivered outboxID dest owner now s = Inr (s', u) \<Longrightarrow> outbox_only s s'"
  "DeferDelivery outboxID dest owner next s = Inr (s', u) \<Longrightarrow> outbox_only s s'"
  "MarkDeliveryFailed outboxID dest owner m now next k s = Inr (s', u) \<Longrightarrow> outbox_only s s'"
  "RetryDeadDelivery outboxID dest now s = Inr (s', u) \<Longrightarrow> outbox_only s s'"
  by (auto simp: outbox_only_def ClaimOutbox_def finishDelivery_def MarkDelivered_def DeferDelivery_def
      MarkDeliveryFailed_def RetryDeadDelivery_def Let_def split: if_splits option.splits)

interpretation claim_op: fenced_op "\<lambda>s. fst (run_tx (ClaimOutbox owner claimID now lease limit) s)" i
  for owner claimID now lease limit i
  by (rule fenced_op_tx) (blast intro: ClaimOutbox_inv outbox_only_advances outbox_ops_only)+

interpretation delivered_op: fenced_op "\<lambda>s. fst (run_tx (MarkDelivered outboxID dest owner now) s)" i
  for outboxID dest owner now i
  by (rule fenced_op_tx) (blast intro: MarkDelivered_inv outbox_only_advances outbox_ops_only)+

interpretation defer_op: fenced_op "\<lambda>s. fst (run_tx (DeferDelivery outboxID dest owner nx) s)" i
  for outboxID dest owner nx i
  by (rule fenced_op_tx) (blast intro: DeferDelivery_inv outbox_only_advances outbox_ops_only)+

interpretation failed_op: fenced_op "\<lambda>s. fst (run_tx (MarkDeliveryFailed outboxID dest owner m now nx k) s)" i
  for outboxID dest owner m now nx k i
  by (rule fenced_op_tx) (blast intro: MarkDeliveryFailed_inv outbox_only_advances outbox_ops_only)+

interpretation retry_op: fenced_op "\<lambda>s. fst (run_tx (RetryDeadDelivery outboxID dest now) s)" i
  for outboxID dest now i
  by (rule fenced_op_tx) (blast intro: RetryDead_inv outbox_only_advances outbox_ops_only)+

end
