(* ===== verification/Retention.thy ===== *)
theory Retention
  imports Generations
begin

text \<open>
  \<open>internal/storage/retention.go\<close>: bounded cleanup of expired outbox events and of the
  receipts of long-retired generations.  \<open>discoverMaintenance\<close> reads a page on the read-only
  pool; \<open>prune_write\<close> rechecks the cursor and every candidate under the writer.  The two run in
  different transactions, so the page is an argument of the writer and may be stale.
  \<open>slow rid\<close> says that the write budget is spent after the candidate \<open>rid\<close>.
\<close>

record maintenanceCursor =
  mc_after :: int
  mc_through :: int
  mc_next :: int
  mc_generation :: int
  mc_sequence :: int

record maintenancePage =
  pg_before :: maintenanceCursor
  pg_next :: maintenanceCursor
  pg_ids :: "(int \<times> bool) list"
  pg_deployment :: string
  pg_generation :: int
  pg_complete :: bool

record PruneResult =
  pr_Scanned :: nat
  pr_Deleted :: nat
  pr_More :: bool
  pr_NextSweepAt :: "int option"

definition maintenanceBatchSize :: nat where
  "maintenanceBatchSize = 64"

definition zero_cursor :: maintenanceCursor where
  "zero_cursor = \<lparr>mc_after = 0, mc_through = 0, mc_next = 0, mc_generation = 0, mc_sequence = 0\<rparr>"

definition retired_cutoff :: "int \<Rightarrow> int" where
  "retired_cutoff now = now - 7 * 24 * 3600 * 1000"

section \<open>Discovery\<close>

definition readCursor :: "sweep \<Rightarrow> store \<Rightarrow> maintenanceCursor" where
  "readCursor name s =
     (case find (\<lambda>m. m_name m = name) (cursors s) of
        None \<Rightarrow> zero_cursor
      | Some m \<Rightarrow> \<lparr>mc_after = m_after m, mc_through = m_through m, mc_next = m_next m,
                   mc_generation = m_generation m, mc_sequence = m_seq m\<rparr>)"

definition queued :: "delivery_row \<Rightarrow> bool" where
  "queued v \<longleftrightarrow> v_status v = DlvPending \<or> v_status v = DlvSending"

text \<open>
  \<open>e.created_at < (SELECT ?-d.event_retention_ms ...) AND NOT EXISTS(SELECT 1 ... IN
  ('pending','sending'))\<close>; without a deployment the comparison is \<open>NULL\<close>.
\<close>

definition event_expired :: "int \<Rightarrow> store \<Rightarrow> event_row \<Rightarrow> bool" where
  "event_expired now s e \<longleftrightarrow>
     (case find_deployment (e_deployment e) s of
        None \<Rightarrow> False
      | Some d \<Rightarrow> e_created_at e < now - d_retention_ms d) \<and>
     \<not> exists_where (\<lambda>v. v_outbox v = e_outbox e \<and> queued v) (deliveries s)"

definition event_refers :: "string \<Rightarrow> int \<Rightarrow> int \<Rightarrow> event_row \<Rightarrow> bool" where
  "event_refers i n q e \<longleftrightarrow> e_deployment e = i \<and> e_generation e = n \<and> e_seq e = Some q"

definition long_retired :: "int \<Rightarrow> generation_row \<Rightarrow> bool" where
  "long_retired now g \<longleftrightarrow> g_status g = GenRetired \<and> g_retired_at g \<noteq> None \<and>
     the (g_retired_at g) < retired_cutoff now"

text \<open>The walk over one page of generations.\<close>

fun scanGenerations :: "int \<Rightarrow> generation_row list \<Rightarrow> maintenanceCursor \<Rightarrow>
    maintenanceCursor \<times> generation_row option" where
  "scanGenerations now [] c = (c, None)"
| "scanGenerations now (g # gs) c =
     (if long_retired now g then (c\<lparr>mc_generation := g_rowid g\<rparr>, Some g)
      else scanGenerations now gs (c\<lparr>mc_after := g_rowid g\<rparr>))"

definition generations_between :: "int \<Rightarrow> int \<Rightarrow> store \<Rightarrow> generation_row list" where
  "generations_between a b s =
     sort_key g_rowid (filter (\<lambda>g. a < g_rowid g \<and> g_rowid g \<le> b) (generations s))"

definition receipt_candidates :: "string \<Rightarrow> int \<Rightarrow> int \<Rightarrow> store \<Rightarrow> (int \<times> bool) list" where
  "receipt_candidates i n q s =
     map (\<lambda>t. (t_seq t, \<not> exists_where (event_refers i n (t_seq t)) (events s)))
       (take maintenanceBatchSize
         (sort_key t_seq (filter (\<lambda>t. t_deployment t = i \<and> t_generation t = n \<and> q < t_seq t)
           (transactions s))))"

definition receipts_page :: "maintenancePage \<Rightarrow> generation_row \<Rightarrow> store \<Rightarrow> maintenancePage" where
  "receipts_page p g s =
     (let ids = receipt_candidates (g_deployment g) (g_generation g) (mc_sequence (pg_next p)) s;
          next = (if ids = []
                  then (pg_next p)\<lparr>mc_after := mc_generation (pg_next p), mc_generation := 0, mc_sequence := 0\<rparr>
                  else pg_next p)
      in p\<lparr>pg_next := next, pg_ids := ids, pg_deployment := g_deployment g,
           pg_generation := g_generation g\<rparr>)"

definition discoverTransactions :: "int \<Rightarrow> maintenancePage \<Rightarrow> store \<Rightarrow> maintenancePage" where
  "discoverTransactions now p s =
     (let c = pg_next p in
      if mc_generation c = 0
      then (case scanGenerations now (take maintenanceBatchSize (generations_between (mc_after c) (mc_through c) s)) c of
              (c', None) \<Rightarrow> p\<lparr>pg_next := c', pg_complete := (generations_between (mc_after c') (mc_through c') s = [])\<rparr>
            | (c', Some g) \<Rightarrow> receipts_page (p\<lparr>pg_next := c'\<rparr>) g s)
      else (case find (\<lambda>g. g_rowid g = mc_generation c \<and> long_retired now g) (generations s) of
              None \<Rightarrow> p\<lparr>pg_next := c\<lparr>mc_after := mc_generation c, mc_generation := 0, mc_sequence := 0\<rparr>\<rparr>
            | Some g \<Rightarrow> receipts_page p g s))"

definition events_between :: "int \<Rightarrow> int \<Rightarrow> store \<Rightarrow> event_row list" where
  "events_between a b s =
     sort_key e_rowid (filter (\<lambda>e. a < e_rowid e \<and> e_rowid e \<le> b) (events s))"

definition discoverOutbox :: "int \<Rightarrow> maintenancePage \<Rightarrow> store \<Rightarrow> maintenancePage" where
  "discoverOutbox now p s =
     (let ids = map (\<lambda>e. (e_rowid e, event_expired now s e))
        (take maintenanceBatchSize (events_between (mc_after (pg_next p)) (mc_through (pg_next p)) s))
      in p\<lparr>pg_ids := ids, pg_complete := (ids = [])\<rparr>)"

definition maxRowid :: "sweep \<Rightarrow> store \<Rightarrow> int" where
  "maxRowid name s = (case name of
     SweepOutbox \<Rightarrow> fold max (map e_rowid (events s)) 0
   | SweepTransactions \<Rightarrow> fold max (map g_rowid (generations s)) 0)"

definition discoverMaintenance :: "int \<Rightarrow> sweep \<Rightarrow> store \<Rightarrow> maintenancePage" where
  "discoverMaintenance now name s =
     (let before = readCursor name s;
          p0 = \<lparr>pg_before = before, pg_next = before, pg_ids = [], pg_deployment = '''',
                pg_generation = 0, pg_complete = False\<rparr>
      in if mc_through before = 0 \<and> now < mc_next before then p0
         else let p = (if mc_through before = 0
                       then p0\<lparr>pg_next := zero_cursor\<lparr>mc_through := maxRowid name s\<rparr>\<rparr> else p0)
              in (case name of SweepOutbox \<Rightarrow> discoverOutbox now p s
                    | SweepTransactions \<Rightarrow> discoverTransactions now p s))"

section \<open>Deletion\<close>

text \<open>One \<open>DELETE\<close> with its recheck: the rows it removes, and \<open>RowsAffected\<close>.\<close>

definition deleteEvent :: "int \<Rightarrow> int \<Rightarrow> store \<Rightarrow> store \<times> nat" where
  "deleteEvent now rid s =
     (let hit = (\<lambda>e. e_rowid e = rid \<and> event_expired now s e);
          gone = filter hit (events s)
      in (s\<lparr>events := delete_where hit (events s),
            deliveries := delete_where (\<lambda>v. exists_where (\<lambda>e. e_outbox e = v_outbox v \<and>
              e_deployment e = v_deployment v) gone) (deliveries s)\<rparr>, length gone))"

definition receipt_prunable :: "int \<Rightarrow> store \<Rightarrow> transaction_row \<Rightarrow> bool" where
  "receipt_prunable now s t \<longleftrightarrow>
     exists_where (\<lambda>g. gen_key g = (t_deployment t, t_generation t) \<and> long_retired now g) (generations s) \<and>
     \<not> exists_where (event_refers (t_deployment t) (t_generation t) (t_seq t)) (events s)"

definition deleteReceipt :: "int \<Rightarrow> string \<Rightarrow> int \<Rightarrow> int \<Rightarrow> store \<Rightarrow> store \<times> nat" where
  "deleteReceipt now i n q s =
     (let hit = (\<lambda>t. tx_key t = (i, n, q) \<and> receipt_prunable now s t)
      in (s\<lparr>transactions := delete_where hit (transactions s)\<rparr>, count_where hit (transactions s)))"

definition deleteCandidate :: "int \<Rightarrow> sweep \<Rightarrow> maintenancePage \<Rightarrow> int \<Rightarrow> store \<Rightarrow> store \<times> nat" where
  "deleteCandidate now name p rid s = (case name of
     SweepOutbox \<Rightarrow> deleteEvent now rid s
   | SweepTransactions \<Rightarrow> deleteReceipt now (pg_deployment p) (pg_generation p) rid s)"

definition pass_candidate :: "sweep \<Rightarrow> int \<Rightarrow> maintenanceCursor \<Rightarrow> maintenanceCursor" where
  "pass_candidate name rid c = (case name of
     SweepOutbox \<Rightarrow> c\<lparr>mc_after := rid\<rparr> | SweepTransactions \<Rightarrow> c\<lparr>mc_sequence := rid\<rparr>)"

fun prune_loop :: "int \<Rightarrow> sweep \<Rightarrow> maintenancePage \<Rightarrow> (int \<Rightarrow> bool) \<Rightarrow> (int \<times> bool) list \<Rightarrow>
    store \<times> maintenanceCursor \<times> nat \<times> nat \<Rightarrow> store \<times> maintenanceCursor \<times> nat \<times> nat" where
  "prune_loop now name p slow [] st = st"
| "prune_loop now name p slow ((rid, eligible) # rest) (s, c, scanned, deleted) =
     (let c' = pass_candidate name rid c in
      if \<not> eligible then prune_loop now name p slow rest (s, c', scanned + 1, deleted)
      else (case deleteCandidate now name p rid s of (s', n) \<Rightarrow>
        if slow rid then (s', c', scanned + 1, deleted + n)
        else prune_loop now name p slow rest (s', c', scanned + 1, deleted + n)))"

definition cursor_row_of :: "sweep \<Rightarrow> maintenanceCursor \<Rightarrow> cursor_row" where
  "cursor_row_of name c = \<lparr>m_name = name, m_after = mc_after c, m_through = mc_through c,
     m_next = mc_next c, m_generation = mc_generation c, m_seq = mc_sequence c\<rparr>"

text \<open>The \<open>CHECK\<close> constraints of \<open>maintenance_cursors\<close>.\<close>

definition cursor_check :: "maintenanceCursor \<Rightarrow> bool" where
  "cursor_check c \<longleftrightarrow> 0 \<le> mc_after c \<and> mc_after c \<le> mc_through c \<and> 0 \<le> mc_generation c \<and> 0 \<le> mc_sequence c"

definition prune_write :: "int \<Rightarrow> sweep \<Rightarrow> (int \<Rightarrow> bool) \<Rightarrow> maintenancePage \<Rightarrow> store \<Rightarrow>
    (store \<times> PruneResult) result" where
  "prune_write now name slow p s =
     (let s0 = (if exists_where (\<lambda>m. m_name m = name) (cursors s) then s
                else s\<lparr>cursors := cursors s @ [cursor_row_of name zero_cursor]\<rparr>)
      in if readCursor name s0 \<noteq> pg_before p
         then Inr (s, \<lparr>pr_Scanned = 0, pr_Deleted = 0, pr_More = True, pr_NextSweepAt = None\<rparr>)
         else (case prune_loop now name p slow (pg_ids p) (s0, pg_next p, 0, 0) of
           (s1, c, scanned, deleted) \<Rightarrow>
             let c' = (if pg_complete p then zero_cursor\<lparr>mc_next := now + 3600000\<rparr> else c)
             in if \<not> cursor_check c' then Inl (Errorf ''update maintenance cursor'')
                else Inr (s1\<lparr>cursors := update_where (\<lambda>m. m_name m = name) (\<lambda>_. cursor_row_of name c') (cursors s1)\<rparr>,
                          \<lparr>pr_Scanned = scanned, pr_Deleted = deleted, pr_More = \<not> pg_complete p,
                           pr_NextSweepAt = (if pg_complete p then Some (now + 3600000) else None)\<rparr>)))"

definition prune_page :: "int \<Rightarrow> sweep \<Rightarrow> (int \<Rightarrow> bool) \<Rightarrow> maintenancePage \<Rightarrow> store \<Rightarrow>
    (store \<times> PruneResult) result" where
  "prune_page now name slow p s =
     (if mc_through (pg_before p) = 0 \<and> now < mc_next (pg_before p)
      then Inr (s, \<lparr>pr_Scanned = 0, pr_Deleted = 0, pr_More = False,
                    pr_NextSweepAt = Some (mc_next (pg_before p))\<rparr>)
      else prune_write now name slow p s)"

definition prune :: "int \<Rightarrow> sweep \<Rightarrow> (int \<Rightarrow> bool) \<Rightarrow> store \<Rightarrow> (store \<times> PruneResult) result" where
  "prune now name slow s = prune_page now name slow (discoverMaintenance now name s) s"

definition PruneTerminalOutbox :: "int \<Rightarrow> (int \<Rightarrow> bool) \<Rightarrow> store \<Rightarrow> (store \<times> PruneResult) result" where
  "PruneTerminalOutbox now slow = prune now SweepOutbox slow"

definition PruneRetiredTransactions :: "int \<Rightarrow> (int \<Rightarrow> bool) \<Rightarrow> store \<Rightarrow> (store \<times> PruneResult) result" where
  "PruneRetiredTransactions now slow = prune now SweepTransactions slow"

section \<open>What one deletion keeps\<close>

lemma deleteEvent_fst:
  "fst (deleteEvent now rid s) =
     s\<lparr>events := delete_where (\<lambda>e. e_rowid e = rid \<and> event_expired now s e) (events s),
       deliveries := delete_where (\<lambda>v. \<exists>e\<in>set (events s). e_rowid e = rid \<and> event_expired now s e \<and>
         e_outbox e = v_outbox v \<and> e_deployment e = v_deployment v) (deliveries s)\<rparr>"
  by (simp add: deleteEvent_def Let_def exists_where_iff Bex_def conj_assoc)

lemma deleteEvent_inv:
  assumes inv: "store_inv s"
  shows "store_inv (fst (deleteEvent now rid s))" (is "store_inv ?s")
proof -
  note parts = store_invD [OF inv]
  have sets: "set (events ?s) = {e \<in> set (events s). \<not> (e_rowid e = rid \<and> event_expired now s e)}"
    "set (deliveries ?s) = {v \<in> set (deliveries s). \<not> (\<exists>e\<in>set (events s). e_rowid e = rid \<and>
       event_expired now s e \<and> e_outbox e = v_outbox v \<and> e_deployment e = v_deployment v)}"
    by (simp_all add: deleteEvent_fst set_delete_where)
  have same: "artifacts ?s = artifacts s" "deployments ?s = deployments s" "generations ?s = generations s"
    "healths ?s = healths s" "checkpoints ?s = checkpoints s" "transactions ?s = transactions s"
    "bindings ?s = bindings s" "cursors ?s = cursors s"
    by (simp_all add: deleteEvent_fst)
  have "keys_ok ?s"
    using parts(1) by (simp add: keys_ok_def deleteEvent_fst uniq_delete_where)
  moreover have "(v_outbox v, v_deployment v) \<in> (\<lambda>e. (e_outbox e, e_deployment e)) ` set (events ?s)"
    if v: "v \<in> set (deliveries ?s)" for v
  proof -
    obtain e where e: "e \<in> set (events s)" "e_outbox e = v_outbox v" "e_deployment e = v_deployment v"
      using refs_okD(7) [OF parts(2), of v] v by (auto simp: sets)
    then have "e \<in> set (events ?s)" using v by (auto simp: sets)
    then show ?thesis using e by (intro image_eqI [where x = e]) simp_all
  qed
  then have "refs_ok ?s"
    using parts(2) unfolding refs_ok_def image_subset_iff by (simp add: same) (simp add: sets)
  moreover have "deliveries_ok ?s" using parts(6) by (simp add: deliveries_ok_def sets)
  moreover have "fence_ok ?s" "ledger_ok ?s" "health_ok ?s"
    using parts(3-5) by (simp_all add: deleteEvent_fst)
  ultimately show ?thesis by (simp only: store_inv_def)
qed

lemma deleteEvent_tables:
  "deployments (fst (deleteEvent now rid s)) = deployments s"
  "generations (fst (deleteEvent now rid s)) = generations s"
  "transactions (fst (deleteEvent now rid s)) = transactions s"
  "cursors (fst (deleteEvent now rid s)) = cursors s"
  by (simp_all add: deleteEvent_fst)

lemma deleteReceipt_fst:
  "fst (deleteReceipt now i n q s) = s\<lparr>transactions :=
     delete_where (\<lambda>t. tx_key t = (i, n, q) \<and> receipt_prunable now s t) (transactions s)\<rparr>"
  by (simp add: deleteReceipt_def Let_def)

lemma receipt_prunable_generation:
  assumes "store_inv s" "receipt_prunable now s t" "g \<in> set (generations s)"
    "g_deployment g = t_deployment t" "g_generation g = t_generation t"
  shows "long_retired now g"
proof -
  obtain g' where g': "g' \<in> set (generations s)" "gen_key g' = gen_key g" "long_retired now g'"
    using assms(2,4,5) by (auto simp: receipt_prunable_def exists_where_iff)
  then have "g' = g"
    using assms(1,3) by (auto simp: store_inv_def keys_ok_def dest: uniqD)
  then show ?thesis using g'(3) by simp
qed

lemma receipt_prunable_retired:
  assumes "store_inv s" "receipt_prunable now s t"
  shows "\<exists>g\<in>set (generations s). gen_key g = (t_deployment t, t_generation t) \<and> g_status g = GenRetired"
  using assms(2) by (auto simp: receipt_prunable_def exists_where_iff long_retired_def)

lemma deleteReceipt_inv:
  assumes inv: "store_inv s"
  shows "store_inv (fst (deleteReceipt now i n q s))" (is "store_inv ?s")
proof -
  note parts = store_invD [OF inv]
  have sets: "set (transactions ?s) =
      {t \<in> set (transactions s). \<not> (tx_key t = (i, n, q) \<and> receipt_prunable now s t)}"
    by (simp add: deleteReceipt_fst set_delete_where)
  have same: "artifacts ?s = artifacts s" "deployments ?s = deployments s" "generations ?s = generations s"
    "healths ?s = healths s" "checkpoints ?s = checkpoints s" "events ?s = events s"
    "bindings ?s = bindings s" "deliveries ?s = deliveries s" "cursors ?s = cursors s"
    by (simp_all add: deleteReceipt_fst)
  have "keys_ok ?s" using parts(1) by (simp add: keys_ok_def deleteReceipt_fst uniq_delete_where)
  moreover have "(e_deployment e, e_generation e, p) \<in> tx_key ` set (transactions ?s)"
    if e: "e \<in> set (events s)" "e_seq e = Some p" for e p
  proof -
    obtain t where t: "t \<in> set (transactions s)" "tx_key t = (e_deployment e, e_generation e, p)"
      using parts(2) e unfolding refs_ok_def by fastforce
    then have "\<not> receipt_prunable now s t"
      using e by (auto simp: receipt_prunable_def exists_where_iff event_refers_def)
    then show ?thesis using t by (intro imageI_eq [of t]) (auto simp: sets)
  qed
  then have "refs_ok ?s"
    using parts(2) unfolding refs_ok_def image_subset_iff by (simp add: same) (simp add: sets)
  moreover have "ledger_ok ?s"
  proof (rule ledger_okI)
    show "\<forall>g\<in>set (generations ?s). 0 \<le> g_last_seq g \<and> (g_status g = GenActive \<longrightarrow>
        (\<forall>q. 1 \<le> q \<and> q \<le> g_last_seq g \<longrightarrow>
          (g_deployment g, g_generation g, q) \<in> tx_key ` set (transactions ?s)))"
    proof (intro ballI conjI impI allI)
      fix g p assume g: "g \<in> set (generations ?s)" "g_status g = GenActive" "1 \<le> p \<and> p \<le> g_last_seq g"
      then obtain t where t: "t \<in> set (transactions s)" "tx_key t = (g_deployment g, g_generation g, p)"
        using ledger_okD(3) [OF parts(4), of g p] by (fastforce simp: same)
      have "\<not> receipt_prunable now s t"
        using receipt_prunable_generation [OF inv, of now t g] g(1,2) t(2) by (auto simp: same long_retired_def)
      then show "(g_deployment g, g_generation g, p) \<in> tx_key ` set (transactions ?s)"
        using t by (intro imageI_eq [of t]) (auto simp: sets)
    qed (use ledger_okD(2) [OF parts(4)] in \<open>simp add: same\<close>)
    show "uniq (\<lambda>t. (t_deployment t, t_result t)) (transactions ?s)"
      using parts(4) by (simp add: ledger_ok_def deleteReceipt_fst uniq_delete_where)
  qed (use parts(4) in \<open>auto simp: ledger_ok_def same sets\<close>)
  moreover have "fence_ok ?s" "health_ok ?s" "deliveries_ok ?s"
    using parts(3,5,6) by (simp_all add: deleteReceipt_fst)
  ultimately show ?thesis by (simp only: store_inv_def)
qed

lemma deleteReceipt_advances:
  assumes inv: "store_inv s"
  shows "advances j s (fst (deleteReceipt now i n q s))"
proof -
  have "rec_adv j (generations s) (transactions s) (generations s)
      (delete_where (\<lambda>t. tx_key t = (i, n, q) \<and> receipt_prunable now s t) (transactions s))"
    unfolding rec_adv_def set_delete_where using receipt_prunable_retired [OF inv] by auto
  then show ?thesis by (simp add: advances_def deleteReceipt_fst)
qed

lemma deleteEvent_advances: "advances j s (fst (deleteEvent now rid s))"
  by (simp add: advances_def deleteEvent_tables)

lemma deleteCandidate_cases:
  obtains (event) "name = SweepOutbox" "deleteCandidate now name p rid s = deleteEvent now rid s"
  | (receipt) "name = SweepTransactions"
      "deleteCandidate now name p rid s = deleteReceipt now (pg_deployment p) (pg_generation p) rid s"
  by (cases name) (simp_all add: deleteCandidate_def)

lemma deleteCandidate_inv:
  assumes "store_inv s"
  shows "store_inv (fst (deleteCandidate now name p rid s))"
  by (cases rule: deleteCandidate_cases [of name now p rid s])
    (simp_all only: deleteEvent_inv [OF assms] deleteReceipt_inv [OF assms])

lemma deleteCandidate_advances:
  assumes "store_inv s"
  shows "advances j s (fst (deleteCandidate now name p rid s))"
  by (cases rule: deleteCandidate_cases [of name now p rid s])
    (simp_all only: deleteEvent_advances deleteReceipt_advances [OF assms])

lemma deleteCandidate_tables:
  "deployments (fst (deleteCandidate now name p rid s)) = deployments s"
  "generations (fst (deleteCandidate now name p rid s)) = generations s"
  "cursors (fst (deleteCandidate now name p rid s)) = cursors s"
  by (cases rule: deleteCandidate_cases [of name now p rid s];
      simp add: deleteEvent_tables deleteReceipt_fst)+

section \<open>What a slice keeps\<close>

text \<open>Every step of the loop is a \<open>deleteCandidate\<close>; whatever is reflexive, transitive and
  kept by one deletion holds of the whole slice.\<close>

lemma prune_loop_induct:
  assumes loop: "prune_loop now name p slow ids (s, c, k, n) = (s', c', k', n')" and start: "P s"
    and step: "\<And>t rid. P t \<Longrightarrow> P (fst (deleteCandidate now name p rid t))"
  shows "P s'"
  using loop start
proof (induction ids arbitrary: s c k n)
  case (Cons a rest)
  obtain rid eligible where a: "a = (rid, eligible)" by (cases a)
  obtain t m where del: "deleteCandidate now name p rid s = (t, m)"
    by (cases "deleteCandidate now name p rid s")
  show ?case
  proof (cases eligible)
    case False
    then show ?thesis using Cons by (simp add: a Let_def)
  next
    case True
    have "P t" using step [OF Cons.prems(2), of rid] del by simp
    then show ?thesis using Cons.IH [of t] Cons.prems True del by (simp add: a Let_def split: if_splits)
  qed
qed simp

lemma prune_loop_keeps:
  assumes "prune_loop now name p slow ids (s, c, k, n) = (s', c', k', n')" "store_inv s"
  shows "store_inv s' \<and> advances j s s' \<and> cursors s' = cursors s \<and> deployments s' = deployments s \<and>
    generations s' = generations s"
  by (rule prune_loop_induct [where P = "\<lambda>t. store_inv t \<and> advances j s t \<and> cursors t = cursors s \<and>
      deployments t = deployments s \<and> generations t = generations s", OF assms(1)])
    (use assms(2) in \<open>auto simp: deleteCandidate_tables intro: deleteCandidate_inv
      advances_trans [OF _ deleteCandidate_advances]\<close>)

lemma store_inv_cursors:
  assumes "store_inv s" "uniq m_name m"
  shows "store_inv (s\<lparr>cursors := m\<rparr>)"
  using assms by (auto simp: store_inv_def table_simps) (simp add: keys_ok_def)

lemma advances_cursors [simp]: "advances j s (s'\<lparr>cursors := m\<rparr>) = advances j s s'"
  "advances j (s\<lparr>cursors := m\<rparr>) s' = advances j s s'"
  by (simp_all add: advances_def)

definition with_cursor :: "sweep \<Rightarrow> store \<Rightarrow> store" where
  "with_cursor name s = (if exists_where (\<lambda>m. m_name m = name) (cursors s) then s
     else s\<lparr>cursors := cursors s @ [cursor_row_of name zero_cursor]\<rparr>)"

lemma with_cursor_keeps:
  assumes "store_inv s"
  shows "store_inv (with_cursor name s)" "advances j (with_cursor name s) s' = advances j s s'"
proof -
  have "uniq m_name (cursors s @ [cursor_row_of name zero_cursor])"
    if "\<not> exists_where (\<lambda>m. m_name m = name) (cursors s)"
    using assms that by (auto simp: store_inv_def keys_ok_def uniq_snoc exists_where_iff cursor_row_of_def)
  then show "store_inv (with_cursor name s)"
    using assms by (auto simp: with_cursor_def intro: store_inv_cursors)
qed (simp add: with_cursor_def)

lemma prune_write_Inr:
  assumes "prune_write now name slow p s = Inr (s', r)" "s' \<noteq> s"
  obtains s1 c k n m where
    "prune_loop now name p slow (pg_ids p) (with_cursor name s, pg_next p, 0, 0) = (s1, c, k, n)"
    "s' = s1\<lparr>cursors := update_where (\<lambda>m. m_name m = name) (\<lambda>_. cursor_row_of name m) (cursors s1)\<rparr>"
  using assms
  by (auto simp: prune_write_def Let_def with_cursor_def split: if_splits prod.splits)

lemma prune_keeps:
  assumes inv: "store_inv s" and op: "prune_page now name slow p s = Inr (s', r)"
  shows "store_inv s'" "advances j s s'"
proof -
  have "store_inv s' \<and> advances j s s'"
  proof (cases "s' = s")
    case False
    then have "prune_write now name slow p s = Inr (s', r)"
      using op by (auto simp: prune_page_def split: if_splits)
    from prune_write_Inr [OF this False] obtain s1 c k n m where
      loop: "prune_loop now name p slow (pg_ids p) (with_cursor name s, pg_next p, 0, 0) = (s1, c, k, n)"
      and s': "s' = s1\<lparr>cursors := update_where (\<lambda>m. m_name m = name) (\<lambda>_. cursor_row_of name m) (cursors s1)\<rparr>"
      by blast
    have s1: "store_inv s1" "advances j s s1"
      using prune_loop_keeps [OF loop with_cursor_keeps(1) [OF inv]] with_cursor_keeps(2) [OF inv] by blast+
    then have "uniq m_name (cursors s1)" by (simp add: store_inv_def keys_ok_def)
    then have "uniq m_name (update_where (\<lambda>m. m_name m = name) (\<lambda>_. cursor_row_of name m) (cursors s1))"
      by (auto simp: cursor_row_of_def intro!: uniq_update_where)
    then show ?thesis using s1 by (simp add: s' store_inv_cursors)
  qed (simp add: inv)
  then show "store_inv s'" "advances j s s'" by blast+
qed

text \<open>What every deletion keeps and no cursor affects is kept by the slice.\<close>

lemma prune_page_induct:
  assumes op: "prune_page now name slow p s = Inr (s', r)" and start: "P s"
    and step: "\<And>t rid. P t \<Longrightarrow> P (fst (deleteCandidate now name p rid t))"
    and cur: "\<And>t m. P (t\<lparr>cursors := m\<rparr>) = P t"
  shows "P s'"
proof (cases "s' = s")
  case False
  then have "prune_write now name slow p s = Inr (s', r)"
    using op by (auto simp: prune_page_def split: if_splits)
  from prune_write_Inr [OF this False] obtain s1 c k n m where
    loop: "prune_loop now name p slow (pg_ids p) (with_cursor name s, pg_next p, 0, 0) = (s1, c, k, n)"
    and s': "s' = s1\<lparr>cursors := update_where (\<lambda>m. m_name m = name) (\<lambda>_. cursor_row_of name m) (cursors s1)\<rparr>"
    by blast
  have "P (with_cursor name s)" using start by (simp add: with_cursor_def cur)
  then have "P s1" by (rule prune_loop_induct [where P = P, OF loop]) (rule step)
  then show ?thesis by (simp only: s' cur)
qed (use start in simp)

section \<open>The contract\<close>

text \<open>For any page: the one just discovered, or one that has gone stale.\<close>

interpretation prune_op: fenced_op "\<lambda>s. fst (run_tx (prune_page now name slow p) s)" i
  for now name slow p i
  by (rule fenced_op_tx) (blast intro: prune_keeps)+

end
