(* ===== verification/History.thy ===== *)
theory History
  imports Transactions Deployments Health Outbox Retention
begin

text \<open>
  Histories of the store: \<open>store_call\<close> has a constructor for each exported writer of
  \<open>internal/storage\<close>, with its arguments, its clock readings and its random ids; \<open>exec_call\<close>
  is its effect on the database; a history is a list of calls.  SQLite has one writer, so
  every concurrent use of the store is some such list.

  The locale \<open>store_history\<close> is what a client may rely on: any system of calls of which each
  one keeps \<open>store_inv\<close> and advances every deployment it does not delete.  Its lemmas say
  what survives every history: the invariant, the fence, and the answer to a frame.
\<close>

section \<open>Calls\<close>

datatype store_call =
    CallApply commit_outcome bool TransactionFrame int
  | CallRecover int
  | CallActivate GenerationActivation string int int
  | CallDeploy DeployInput string int
  | CallDeactivateDue int
  | CallPause string int
  | CallResume string "int option" int
  | CallArchive string int
  | CallPurge string bool
  | CallReplaceState string int string int
  | CallClearCheckpoints string int
  | CallReady string int int
  | CallStopped string int string string int
  | CallRecordRun RunOutcome string int
  | CallStable string int string int
  | CallGenerationFailure string int string string int
  | CallDeploymentFailure string string string int
  | CallClaim string string int int int
  | CallDelivered string string string int
  | CallDefer string string string int
  | CallFailed string string string string int int int
  | CallRetryDead string string int
  | CallPrune int sweep "int \<Rightarrow> bool" maintenancePage

text \<open>\<open>CallPrune\<close> takes any page, as its discovery may be arbitrarily stale.\<close>

definition exec_call :: "env \<Rightarrow> store_call \<Rightarrow> store \<Rightarrow> store" where
  "exec_call E c s = (case c of
     CallApply commit readable frame now \<Rightarrow> fst (ApplyTransaction E commit readable frame now s)
   | CallRecover at \<Rightarrow> fst (run_tx (RecoverGenerations at) s)
   | CallActivate a token checkedAt now \<Rightarrow> fst (run_tx (ActivateGeneration E a token checkedAt now) s)
   | CallDeploy input newID now \<Rightarrow> fst (run_tx (Deploy E input newID now) s)
   | CallDeactivateDue now \<Rightarrow> fst (run_tx (DeactivateDueDeployments now) s)
   | CallPause i now \<Rightarrow> fst (run_tx (PauseDeployment i now) s)
   | CallResume i expires now \<Rightarrow> fst (run_tx (ResumeDeployment i expires now) s)
   | CallArchive i now \<Rightarrow> fst (run_tx (ArchiveDeployment i now) s)
   | CallPurge i force \<Rightarrow> fst (run_tx (PurgeDeploymentSafe i force) s)
   | CallReplaceState i base state now \<Rightarrow> fst (run_tx (ReplaceState i base state now) s)
   | CallClearCheckpoints i now \<Rightarrow> fst (run_tx (ClearCheckpoints i now) s)
   | CallReady i n at \<Rightarrow> fst (run_tx (MarkGenerationReady i n at) s)
   | CallStopped i n reason err now \<Rightarrow> fst (run_tx (MarkGenerationStopped i n reason err now) s)
   | CallRecordRun outcome outboxID clock \<Rightarrow> fst (run_tx (RecordRun E outcome outboxID clock) s)
   | CallStable i n outboxID at \<Rightarrow> fst (run_tx (MarkGenerationStable E i n outboxID at) s)
   | CallGenerationFailure i n failure outboxID now \<Rightarrow>
       fst (run_tx (RecordGenerationFailure E i n failure outboxID now) s)
   | CallDeploymentFailure i failure outboxID now \<Rightarrow>
       fst (run_tx (RecordDeploymentFailure E i failure outboxID now) s)
   | CallClaim owner claimID now lease limit \<Rightarrow> fst (run_tx (ClaimOutbox owner claimID now lease limit) s)
   | CallDelivered outboxID dest owner now \<Rightarrow> fst (run_tx (MarkDelivered outboxID dest owner now) s)
   | CallDefer outboxID dest owner nx \<Rightarrow> fst (run_tx (DeferDelivery outboxID dest owner nx) s)
   | CallFailed outboxID dest owner m now nx k \<Rightarrow>
       fst (run_tx (MarkDeliveryFailed outboxID dest owner m now nx k) s)
   | CallRetryDead outboxID dest now \<Rightarrow> fst (run_tx (RetryDeadDelivery outboxID dest now) s)
   | CallPrune now name slow p \<Rightarrow> fst (run_tx (prune_page now name slow p) s))"

definition run_calls :: "env \<Rightarrow> store_call list \<Rightarrow> store \<Rightarrow> store" where
  "run_calls E cs = fold (exec_call E) cs"

text \<open>The only call that removes a deployment.\<close>

definition spares :: "string \<Rightarrow> store_call \<Rightarrow> bool" where
  "spares i c = (case c of CallPurge j force \<Rightarrow> j \<noteq> i | _ \<Rightarrow> True)"

section \<open>What a client may rely on\<close>

locale store_history =
  fixes exec :: "'c \<Rightarrow> store \<Rightarrow> store" and safe :: "string \<Rightarrow> 'c \<Rightarrow> bool"
  assumes exec_inv: "store_inv s \<Longrightarrow> store_inv (exec c s)"
    and exec_fenced: "safe i c \<Longrightarrow> fenced_op (exec c) i"
begin

lemma history_inv: "store_inv s \<Longrightarrow> store_inv (fold exec cs s)"
  by (induction cs arbitrary: s) (simp_all add: exec_inv)

lemma history_fenced: "\<forall>c\<in>set cs. safe i c \<Longrightarrow> fenced_op (fold exec cs) i"
proof (induction cs)
  case Nil
  show ?case by (simp add: fenced_op_def)
next
  case (Cons c cs)
  then have "fenced_op (\<lambda>s. fold exec cs (exec c s)) i"
    by (intro fenced_op_comp [where a = "exec c" and b = "fold exec cs"]) (simp_all add: exec_fenced)
  then show ?case by (simp add: comp_def)
qed

lemma history_advances:
  "store_inv s \<Longrightarrow> \<forall>c\<in>set cs. safe i c \<Longrightarrow> advances i s (fold exec cs s)"
  by (rule fenced_op.step_advances [OF history_fenced])

text \<open>A receipt is kept, or its generation has been retired and its number stays free.\<close>

lemma receipt_kept_or_fenced:
  assumes inv: "store_inv s" and safe: "\<forall>c\<in>set cs. safe (t_deployment t) c"
    and t: "t \<in> set (transactions s)"
  shows "t \<in> set (transactions (fold exec cs s)) \<or>
    tx_key t \<notin> tx_key ` set (transactions (fold exec cs s)) \<and>
    (\<exists>g. find_generation (t_deployment t) (t_generation t) (fold exec cs s) = Some g \<and>
       g_status g = GenRetired)"
proof (cases "t \<in> set (transactions (fold exec cs s))")
  case False
  let ?s = "fold exec cs s"
  have rec: "rec_adv (t_deployment t) (generations s) (transactions s) (generations ?s) (transactions ?s)"
    using history_advances [OF inv safe] by (simp add: advances_def)
  have keys: "keys_ok s" "keys_ok ?s" using inv history_inv [OF inv] by (simp_all add: store_inv_def)
  obtain g where "g \<in> set (generations ?s)" "g_deployment g = t_deployment t"
    "g_generation g = t_generation t" "g_status g = GenRetired"
    by (rule rec_adv_lost [OF rec t refl False])
  then have "find_generation (t_deployment t) (t_generation t) ?s = Some g \<and> g_status g = GenRetired"
    by (simp add: find_generation_iff [OF keys(2)])
  then have retired: "\<exists>g. find_generation (t_deployment t) (t_generation t) ?s = Some g \<and> g_status g = GenRetired"
    by (rule exI)
  have other: "tx_key t' \<noteq> tx_key t" if t': "t' \<in> set (transactions ?s)" for t'
  proof
    assume same: "tx_key t' = tx_key t"
    show False
    proof (cases "t' \<in> set (transactions s)")
      case True
      then have "t' = t" using keys(1) t same unfolding keys_ok_def by (blast dest: uniqD)
      then show ?thesis using t' False by blast
    next
      case new: False
      have "t_deployment t' = t_deployment t" using same by simp
      then have "tx_key t' \<notin> tx_key ` set (transactions s)"
        using rec_adv_new(1) [OF rec t' _ new] by blast
      moreover have "tx_key t' \<in> tx_key ` set (transactions s)"
        unfolding same by (rule imageI [OF t])
      ultimately show ?thesis by (rule notE)
    qed
  qed
  have "tx_key t \<notin> tx_key ` set (transactions ?s)"
  proof
    assume "tx_key t \<in> tx_key ` set (transactions ?s)"
    then obtain t' where "tx_key t = tx_key t'" "t' \<in> set (transactions ?s)" by (rule imageE)
    then show False using other [of t'] by simp
  qed
  then show ?thesis using retired by (intro disjI2 conjI)
qed (rule disjI1)

text \<open>A retired generation stays retired, and its free numbers stay free.\<close>

lemma retired_forever:
  assumes inv: "store_inv s" and safe: "\<forall>c\<in>set cs. safe i c"
    and gen: "find_generation i n s = Some g" "g_status g = GenRetired"
    and free: "(i, n, q) \<notin> tx_key ` set (transactions s)"
  shows "\<exists>g'. find_generation i n (fold exec cs s) = Some g' \<and> g_status g' = GenRetired"
    and "(i, n, q) \<notin> tx_key ` set (transactions (fold exec cs s))"
proof -
  let ?s = "fold exec cs s"
  show "\<exists>g'. find_generation i n ?s = Some g' \<and> g_status g' = GenRetired"
    using fenced_op.retired_stays [OF history_fenced [OF safe] inv gen] by blast
  have rec: "rec_adv i (generations s) (transactions s) (generations ?s) (transactions ?s)"
    using history_advances [OF inv safe] by (simp add: advances_def)
  show "(i, n, q) \<notin> tx_key ` set (transactions ?s)"
  proof
    assume "(i, n, q) \<in> tx_key ` set (transactions ?s)"
    then obtain t where t: "(i, n, q) = tx_key t" "t \<in> set (transactions ?s)" by (rule imageE)
    have "t \<notin> set (transactions s)"
    proof
      assume t': "t \<in> set (transactions s)"
      have "(i, n, q) \<in> tx_key ` set (transactions s)" unfolding t(1) by (rule imageI [OF t'])
      with free show False by (rule notE)
    qed
    then have "g_status g = GenActive"
      using rec_adv_new(2) [OF rec t(2), of g] find_generationD [OF gen(1)] t(1) by simp
    then show False using gen(2) by simp
  qed
qed

end

section \<open>The store is such a system\<close>

lemmas op_contracts = apply_op.fenced_op_axioms recover_op.fenced_op_axioms activate_op.fenced_op_axioms
  deploy_op.fenced_op_axioms expire_op.fenced_op_axioms pause_op.fenced_op_axioms
  resume_op.fenced_op_axioms archive_op.fenced_op_axioms replace_op.fenced_op_axioms
  clear_op.fenced_op_axioms ready_op.fenced_op_axioms stopped_op.fenced_op_axioms
  run_op.fenced_op_axioms stable_op.fenced_op_axioms failure_op.fenced_op_axioms
  claim_op.fenced_op_axioms delivered_op.fenced_op_axioms defer_op.fenced_op_axioms
  failed_op.fenced_op_axioms retry_op.fenced_op_axioms prune_op.fenced_op_axioms purge_fenced_op

lemma exec_call_fenced: "spares i c \<Longrightarrow> fenced_op (exec_call E c) i"
  by (cases c) (simp_all add: exec_call_def [abs_def] spares_def RecordGenerationFailure_def
    RecordDeploymentFailure_def op_contracts)

lemma exec_call_inv:
  assumes "store_inv s"
  shows "store_inv (exec_call E c s)"
proof (cases "\<exists>j force. c = CallPurge j force")
  case True
  then obtain j force where c: "c = CallPurge j force" by blast
  show ?thesis
    using assms Purge_inv [of s j force]
    by (cases "PurgeDeploymentSafe j force s") (auto simp: c exec_call_def run_tx_def)
next
  case False
  then have "spares [] c" by (simp add: spares_def split: store_call.split)
  then show ?thesis by (rule fenced_op.keeps_inv [OF exec_call_fenced assms])
qed

interpretation sh: store_history "exec_call E" spares for E
  by (simp add: store_history_def exec_call_inv exec_call_fenced)

lemma reachable_inv: "store_inv (run_calls E cs empty_store)"
  unfolding run_calls_def by (rule sh.history_inv [OF store_inv_empty])

lemma run_calls_Nil [simp]: "run_calls E [] s = s"
  by (simp add: run_calls_def)

lemma run_calls_Cons [simp]: "run_calls E (c # cs) s = run_calls E cs (exec_call E c s)"
  by (simp add: run_calls_def)

lemma run_calls_append: "run_calls E (cs @ ds) s = run_calls E ds (run_calls E cs s)"
  by (simp add: run_calls_def)

end
