(* ===== verification/Sample.thy ===== *)
theory Sample
  imports History
begin

text \<open>
  A small concrete history: one deployment \<open>dep\<close> with one destination, activated, with a first
  transaction committed that writes a checkpoint and enqueues one event.  The hash and the
  message encoder are concrete functions here; the witnesses of the properties run on it.
\<close>

definition sample_env :: env where
  "sample_env = \<lparr>sha256 = (\<lambda>s. s), marshal_message = msg_Title\<rparr>"

definition sample_artifact :: Artifact where
  "sample_artifact = \<lparr>art_ID = [], art_ContentHash = ''hash'', art_Path = ''bin'',
     art_Describe = ''{}'', art_CreatedAt = None\<rparr>"

definition sample_input :: DeployInput where
  "sample_input = \<lparr>di_Name = ''mon'', di_InfoName = ''info'', di_SourceDir = [],
     di_ConfigHash = ''cfg'', di_Artifact = sample_artifact, di_State = ''{}'',
     di_FailureThreshold = 2, di_MaxEvents = 4, di_EventRetention = 3600000000000,
     di_ExpiresAt = None, di_Destinations = [''{}''], di_ExpectedStateRevision = None\<rparr>"

definition sample_activation :: GenerationActivation where
  "sample_activation = \<lparr>ga_DeploymentID = ''dep'', ga_ArtifactID = ''hash'', ga_ConfigRevision = 1,
     ga_StateRevision = 0, ga_ActiveGeneration = 0, ga_SecretFingerprint = ''f''\<rparr>"

definition sample_token :: string where
  "sample_token = ''0123456789abcdef''"

definition sample_event :: OutboxEvent where
  "sample_event = \<lparr>oe_OutboxID = ''out'', oe_EventID = ''ev'',
     oe_Message = empty_message\<lparr>msg_Title := ''hello''\<rparr>,
     oe_Deliveries = [\<lparr>od_DestinationID = ''destination-1'', od_DestinationRevision = 1\<rparr>]\<rparr>"

definition sample_frame :: TransactionFrame where
  "sample_frame = \<lparr>fr_DeploymentID = ''dep'', fr_Generation = 1, fr_WorkerToken = sample_token,
     fr_Sequence = 1, fr_BaseStateRevision = 0, fr_NextState = ''1'',
     fr_Checkpoints = [\<lparr>cm_Source = ''src'', cm_Value = ''7''\<rparr>],
     fr_Events = [sample_event], fr_PayloadHash = ''p''\<rparr>"

definition sample_start :: "store_call list" where
  "sample_start = [CallDeploy sample_input ''dep'' 10, CallActivate sample_activation sample_token 20 20]"

definition sample_store :: store where
  "sample_store = run_calls sample_env sample_start empty_store"

definition sample_ack :: TransactionACK where
  "sample_ack = frame_ack sample_frame 1"

definition sample_applied :: store where
  "sample_applied = fst (ApplyTransaction sample_env CommitOk True sample_frame 30 sample_store)"


lemmas sample_defs = sample_env_def sample_artifact_def sample_input_def sample_activation_def
  sample_token_def sample_event_def sample_frame_def

lemmas json_eval = json_valid_def begin_value_def end_value_def json_ws_def byte_def is_digit_def
  push_ctx_def pop_ctx_def json_max_depth_def


lemmas trim_eval = TrimSpace_def trim_segs_def is_space_def runes_ascii byte_def

lemma sample_valid: "\<not> invalidDeploy sample_input"
  by (simp add: invalidDeploy_def sample_defs json_valid_braces trim_eval)

lemma sample_hash: "''p'' \<noteq> zero_hash"
proof
  assume "''p'' = zero_hash"
  then have "length ''p'' = length zero_hash" by (rule arg_cong)
  then show False by (simp add: zero_hash_def)
qed

lemma sample_frame_valid: "validateFrame sample_frame = None"
  using sample_hash
  by (simp add: validateFrame_def sample_defs json_eval trim_eval empty_message_def)

lemma first_destination: "destination_id 0 = ''destination-1''"
  by (simp add: destination_id_def utoa.simps char_of_def bit_0)

text \<open>The deployment as \<open>Deploy\<close> and \<open>ActivateGeneration\<close> leave it.\<close>

lemma sample_deployed:
  "Deploy sample_env sample_input ''dep'' 10 empty_store = Inr (
     \<lparr>artifacts = [\<lparr>a_id = ''hash'', a_content_hash = ''hash'', a_path = ''bin'',
        a_describe = ''{}'', a_created_at = 10\<rparr>],
      deployments = [\<lparr>d_id = ''dep'', d_name = ''mon'', d_info_name = ''info'',
        d_source_dir = [], d_status = DepActive, d_artifact = ''hash'', d_config_revision = 1,
        d_config_hash = ''cfg'', d_threshold = 2, d_max_events = 4, d_retention_ms = 3600000,
        d_active = 0, d_state = ''{}'', d_state_revision = 0, d_created_at = 10,
        d_updated_at = 10, d_expires_at = None, d_archived_at = None\<rparr>],
      generations = [], healths = [new_health ''dep'' 0 HealthStarting 10], checkpoints = [],
      transactions = [],
      bindings = [\<lparr>b_id = ''destination-1'', b_revision = 1, b_deployment = ''dep'',
        b_config = ''{}'', b_config_hash = ''{}'', b_created_at = 10, b_retired_at = None\<rparr>],
      events = [], deliveries = [], cursors = []\<rparr>, ''dep'')"
  by (simp add: Deploy_def invalidDeploy_def trim_eval Let_def sample_defs json_valid_braces putArtifact_def insertDeployment_def
      finishDeploy_def retireBindings_def retire_active_def ensureDeploymentHealth_def
      exists_where_def upsert_def default_text_def empty_store_def Milliseconds_def
      first_destination nextRevision_def)

lemma sample_store_eq:
  "sample_store =
     \<lparr>artifacts = [\<lparr>a_id = ''hash'', a_content_hash = ''hash'', a_path = ''bin'',
        a_describe = ''{}'', a_created_at = 10\<rparr>],
      deployments = [\<lparr>d_id = ''dep'', d_name = ''mon'', d_info_name = ''info'',
        d_source_dir = [], d_status = DepActive, d_artifact = ''hash'', d_config_revision = 1,
        d_config_hash = ''cfg'', d_threshold = 2, d_max_events = 4, d_retention_ms = 3600000,
        d_active = 1, d_state = ''{}'', d_state_revision = 0, d_created_at = 10,
        d_updated_at = 20, d_expires_at = None, d_archived_at = None\<rparr>],
      generations = [new_generation sample_env sample_activation sample_token 1 20 []],
      healths = [(new_health ''dep'' 0 HealthStarting 10)
        \<lparr>h_generation := 1, h_status := HealthStarting, h_updated_at := 20\<rparr>],
      checkpoints = [], transactions = [],
      bindings = [\<lparr>b_id = ''destination-1'', b_revision = 1, b_deployment = ''dep'',
        b_config = ''{}'', b_config_hash = ''{}'', b_created_at = 10, b_retired_at = None\<rparr>],
      events = [], deliveries = [], cursors = []\<rparr>"
  by (simp add: sample_store_def sample_start_def exec_call_def run_tx_def sample_deployed
      ActivateGeneration_def advanceGeneration_def activation_hit_def replaced_def maxGeneration_def
      requireOneRow_def count_where_def update_where_def ensureDeploymentHealth_def upsert_def
      exists_where_def Let_def sample_activation_def)

lemmas sample_eval = sample_store_eq new_generation_def new_health_def find_deployment_def
  find_generation_def find_health_def find_transaction_def count_where_def update_where_def
  exists_where_def upsert_def requireOneRow_def Let_def next_rowid_def run_tx_def

lemma sample_apply:
  "ApplyTransaction sample_env CommitOk True sample_frame 30 sample_store = (sample_applied, Inr sample_ack)"
  by (simp add: sample_applied_def sample_ack_def sample_eval sample_frame_valid [unfolded sample_defs] ApplyTransaction_def lookupTransaction_def applyFrame_def
      guardFrame_def loadActiveGeneration_def sample_defs writeLedger_def state_hit_def seq_hit_def
      insertOutboxEvent_def event_conflict_def)

lemma sample_inv: "store_inv sample_store" "store_inv sample_applied"
  unfolding sample_applied_def sample_store_def
  by (simp_all add: reachable_inv ApplyTransaction_keeps)

lemma sample_applied_eq:
  "transactions sample_applied = [ledger_row sample_frame 30]"
  "events sample_applied = [\<lparr>e_rowid = 1, e_outbox = ''out'', e_deployment = ''dep'', e_kind = KindMonitor,
     e_generation = 1, e_seq = Some 1, e_event = ''ev'', e_payload = ''hello'', e_payload_hash = ''hello'',
     e_created_at = 30\<rparr>]"
  "deliveries sample_applied = [\<lparr>v_rowid = 1, v_outbox = ''out'', v_deployment = ''dep'',
     v_destination = ''destination-1'', v_revision = 1, v_status = DlvPending, v_attempts = 0,
     v_next_at = 30, v_owner = None, v_expires = None, v_delivered_at = None, v_error = [],
     v_dead_at = None\<rparr>]"
  "deployments sample_applied = [\<lparr>d_id = ''dep'', d_name = ''mon'', d_info_name = ''info'',
     d_source_dir = [], d_status = DepActive, d_artifact = ''hash'', d_config_revision = 1,
     d_config_hash = ''cfg'', d_threshold = 2, d_max_events = 4, d_retention_ms = 3600000,
     d_active = 1, d_state = ''1'', d_state_revision = 1, d_created_at = 10,
     d_updated_at = 30, d_expires_at = None, d_archived_at = None\<rparr>]"
  "cursors sample_applied = []" "bindings sample_applied = bindings sample_store" "healths sample_applied = healths sample_store"
  "generations sample_applied = [(new_generation sample_env sample_activation sample_token 1 20 [])\<lparr>g_last_seq := 1\<rparr>]"
  by (simp_all add: sample_applied_def ledger_row_def sample_eval sample_frame_valid [unfolded sample_defs]
      ApplyTransaction_def lookupTransaction_def applyFrame_def frame_ack_def
      guardFrame_def loadActiveGeneration_def sample_defs writeLedger_def state_hit_def seq_hit_def
      insertOutboxEvent_def event_conflict_def)

end
