(* ===== verification/StoreTheorems.thy ===== *)
theory StoreTheorems
  imports Sample
begin

text \<open>
  What the store promises its clients: one theorem per promise, each a short derivation from
  the component lemmas, with an application to the sample history of \<open>Sample\<close>.
\<close>

section \<open>Frames and the fence\<close>



text \<open>
  C2: every state the store can reach, from an empty database by any list of calls with any
  arguments, satisfies \<open>store_inv\<close>: the schema's keys and references, at most one active
  generation for a deployment and none unless it is active, a gap-free ledger for every active
  generation, one receipt per state revision, and health rows, leases and terminal deliveries
  that agree with their counters.
\<close>

theorem store_inv_always:
  "store_inv (run_calls E cs empty_store)"
  by (rule reachable_inv)



section \<open>Committing a frame\<close>

lemma applyFrame_receipt:
  assumes "store_inv s" "applyFrame E frame now s = Inr (s', ack)"
  shows "\<exists>t\<in>set (transactions s'). receipt_of frame ack t"
proof -
  have "ack = t_ack (ledger_row frame now)" "ledger_row frame now \<in> set (transactions s')"
    using applyFrame_Inr [OF store_invD(1) [OF assms(1)] assms(2)] by auto
  then show ?thesis
    by (intro bexI [of _ "ledger_row frame now"]) (simp_all add: receipt_of_def ledger_row_def)
qed

text \<open>
  C5: an honest answer to every commit outcome.  Whatever \<open>Commit\<close> did, if the ledger can be
  read afterwards then \<open>ApplyTransaction\<close> either returns an ACK whose receipt is durable, or
  returns an error and has left the store exactly as it was.
\<close>

theorem commit_resolved:
  assumes "store_inv s" and "ApplyTransaction E commit True frame now s = (s', answer)"
  shows "(\<exists>ack. answer = Inr ack \<and> (\<exists>t\<in>set (transactions s'). receipt_of frame ack t)) \<or>
    (\<exists>err. answer = Inl err \<and> s' = s)"
proof (cases answer)
  case (Inr ack)
  then show ?thesis using acknowledged_receipt(2) [OF assms(1)] assms(2) by blast
next
  case (Inl err)
  have "s' = s"
  proof (rule ccontr)
    assume changed: "s' \<noteq> s"
    then obtain a where app: "applyFrame E frame now s = Inr (s', a)" and "commit = CommitUnreported"
      and res: "answer = (case resolveTransaction True frame s' of
         Inr (Some resolved) \<Rightarrow> Inr resolved | _ \<Rightarrow> Inl (Errorf ''commit transaction frame''))"
      using assms(2) Inl
      by (cases commit) (auto simp: ApplyTransaction_def Let_def split: option.splits sum.splits if_splits)
    obtain t where t: "t \<in> set (transactions s')" "receipt_of frame a t"
      using applyFrame_receipt [OF assms(1) app] by blast
    have "store_inv s'" using ApplyTransaction_keeps [OF assms(1), of E commit True frame now] assms(2) by simp
    then have "find_transaction (fr_DeploymentID frame) (fr_Generation frame) (fr_Sequence frame) s' = Some t"
      using t by (simp add: find_transaction_iff store_invD(1) receipt_of_def)
    then have "resolveTransaction True frame s' = Inr (Some a)"
      using t(2) by (simp add: resolveTransaction_def receipt_of_def)
    then show False using res Inl by simp
  qed
  then show ?thesis using Inl by blast
qed

lemma commit_resolved_witness:
  "(\<exists>ack. snd (ApplyTransaction sample_env CommitUnreported True sample_frame 30 sample_store) = Inr ack \<and>
      (\<exists>t\<in>set (transactions (fst (ApplyTransaction sample_env CommitUnreported True sample_frame 30 sample_store))).
         receipt_of sample_frame ack t)) \<or>
   (\<exists>err. snd (ApplyTransaction sample_env CommitUnreported True sample_frame 30 sample_store) = Inl err \<and>
      fst (ApplyTransaction sample_env CommitUnreported True sample_frame 30 sample_store) = sample_store)"
  by (rule commit_resolved [OF _ surjective_pairing]) (simp add: sample_store_def reachable_inv)

text \<open>The value a checkpoint read returns.\<close>

definition checkpoint_value :: "string \<Rightarrow> string \<Rightarrow> store \<Rightarrow> string option" where
  "checkpoint_value i src s = map_option c_value (find (\<lambda>c. cp_key c = (i, src)) (checkpoints s))"

lemma checkpoint_value_upsert:
  assumes "cp_key new = (i, src)" "\<And>r. cp_key (upd r) = cp_key r" "\<And>r. c_value (upd r) = c_value new"
  shows "checkpoint_value j k (s\<lparr>checkpoints := upsert cp_key new upd (checkpoints s)\<rparr>) =
    (if (j, k) = (i, src) then Some (c_value new) else checkpoint_value j k s)"
proof (cases "\<exists>r\<in>set (checkpoints s). cp_key r = (i, src)")
  case False
  then have none: "find (\<lambda>c. cp_key c = (i, src)) (checkpoints s) = None" by (auto simp: find_None_iff)
  have "upsert cp_key new upd (checkpoints s) = checkpoints s @ [new]"
    using False assms(1) by (auto simp: upsert_def exists_where_iff)
  then show ?thesis using none assms(1)
    by (auto simp: checkpoint_value_def find_append split: option.splits)
next
  case True
  have "upsert cp_key new upd (checkpoints s) = update_where (\<lambda>r. cp_key r = (i, src)) upd (checkpoints s)"
    using True assms(1) by (auto simp: upsert_def exists_where_iff)
  moreover have "find (\<lambda>c. cp_key c = (j, k)) (update_where (\<lambda>r. cp_key r = (i, src)) upd (checkpoints s)) =
      map_option (\<lambda>r. if cp_key r = (i, src) then upd r else r) (find (\<lambda>c. cp_key c = (j, k)) (checkpoints s))"
    by (rule find_update_where_same) (use assms(2) in auto)
  moreover have "find (\<lambda>c. cp_key c = (i, src)) (checkpoints s) \<noteq> None"
    using True by (auto simp: find_None_iff)
  ultimately show ?thesis using assms(3)
    by (cases "find (\<lambda>c. cp_key c = (j, k)) (checkpoints s)"; cases "(j, k) = (i, src)")
      (auto simp: checkpoint_value_def dest: find_SomeD)
qed

lemma writeCheckpoints_value:
  "distinct (map cm_Source cs) \<Longrightarrow>
   checkpoint_value i src (writeCheckpoints E frame now cs s) =
     (case find (\<lambda>c. cm_Source c = src) cs of
        Some c \<Rightarrow> (if i = fr_DeploymentID frame then Some (cm_Value c) else checkpoint_value i src s)
      | None \<Rightarrow> checkpoint_value i src s)"
proof (induction cs arbitrary: s)
  case (Cons c cs)
  have later: "find (\<lambda>c'. cm_Source c' = cm_Source c) cs = None"
    using Cons.prems by (auto simp: find_None_iff image_iff)
  show ?case
    using Cons.prems later
    by (auto simp: Cons.IH checkpoint_value_upsert [where i = "fr_DeploymentID frame" and src = "cm_Source c"]
        split: option.splits)
qed simp

lemma validateCheckpoints_distinct:
  "validateCheckpoints seen cs = None \<Longrightarrow> distinct (map cm_Source cs) \<and> set (map cm_Source cs) \<inter> set seen = {}"
  by (induction seen cs rule: validateCheckpoints.induct) (auto split: if_splits)

lemma validFrame_checkpoints: "validateFrame frame = None \<Longrightarrow> distinct (map cm_Source (fr_Checkpoints frame))"
  by (auto simp: validateFrame_def dest: validateCheckpoints_distinct split: if_splits option.splits)

lemma checkpoint_value_tables:
  "checkpoints s = checkpoints s' \<Longrightarrow> checkpoint_value i src s = checkpoint_value i src s'"
  by (simp add: checkpoint_value_def)

lemma commit_rows:
  assumes "guardFrame E frame s = Inr (fr_BaseStateRevision frame, l)" and "fr_Sequence frame = l + 1"
    and s': "deployments s' = update_where (state_hit frame)
        (\<lambda>d. d\<lparr>d_state := fr_NextState frame, d_state_revision := fr_BaseStateRevision frame + 1, d_updated_at := now\<rparr>)
        (deployments s)"
      "generations s' = update_where (seq_hit frame l) (\<lambda>g. g\<lparr>g_last_seq := fr_Sequence frame\<rparr>) (generations s)"
  shows "\<exists>d g. find_deployment (fr_DeploymentID frame) s = Some d \<and>
      find_generation (fr_DeploymentID frame) (fr_Generation frame) s = Some g \<and>
      g_status g = GenActive \<and> d_active d = fr_Generation frame \<and>
      g_token_hash g = sha256 E (fr_WorkerToken frame) \<and>
      d_state_revision d = fr_BaseStateRevision frame \<and> fr_Sequence frame = g_last_seq g + 1 \<and>
      find_deployment (fr_DeploymentID frame) s' = Some (d\<lparr>d_state := fr_NextState frame,
        d_state_revision := d_state_revision d + 1, d_updated_at := now\<rparr>) \<and>
      find_generation (fr_DeploymentID frame) (fr_Generation frame) s' = Some (g\<lparr>g_last_seq := g_last_seq g + 1\<rparr>)"
proof -
  let ?i = "fr_DeploymentID frame"
  obtain d g where d: "find_deployment ?i s = Some d" "d_active d = fr_Generation frame"
      "d_state_revision d = fr_BaseStateRevision frame"
    and g: "find_generation ?i (fr_Generation frame) s = Some g" "g_status g = GenActive"
      "g_token_hash g = sha256 E (fr_WorkerToken frame)" "g_last_seq g = l"
    using assms(1) unfolding guardFrame_Inr by blast
  have "find_deployment ?i s' = Some (d\<lparr>d_state := fr_NextState frame,
      d_state_revision := d_state_revision d + 1, d_updated_at := now\<rparr>)"
    using d find_deploymentD [OF d(1)]
    by (simp add: s' find_deployment_def find_update_where_same state_hit_def)
  moreover have "find_generation ?i (fr_Generation frame) s' = Some (g\<lparr>g_last_seq := g_last_seq g + 1\<rparr>)"
    using g find_generationD [OF g(1)] assms(2)
    by (simp add: s' find_generation_def find_update_where_same seq_hit_def)
  ultimately show ?thesis using d g assms(2) by simp
qed

lemma commit_checkpoints:
  assumes "insertOutboxEvents E frame now (fr_Events frame) (writeCheckpoints E frame now (fr_Checkpoints frame) t) = Inr s'"
    and "validateFrame frame = None" and "checkpoints t = checkpoints s"
  shows "checkpoint_value i src s' =
    (case find (\<lambda>c. cm_Source c = src) (fr_Checkpoints frame) of
       Some c \<Rightarrow> (if i = fr_DeploymentID frame then Some (cm_Value c) else checkpoint_value i src s)
     | None \<Rightarrow> checkpoint_value i src s)"
proof -
  have "checkpoints s' = checkpoints (writeCheckpoints E frame now (fr_Checkpoints frame) t)"
    using insertOutboxEvents_tables [OF assms(1)] by auto
  then have "checkpoint_value i src s' = checkpoint_value i src (writeCheckpoints E frame now (fr_Checkpoints frame) t)"
    by (rule checkpoint_value_tables)
  moreover have "checkpoint_value i src t = checkpoint_value i src s" by (rule checkpoint_value_tables [OF assms(3)])
  ultimately show ?thesis using writeCheckpoints_value [OF validFrame_checkpoints [OF assms(2)]]
    by (simp split: option.splits)
qed



section \<open>Event identity\<close>

lemma insertOutboxEvent_known:
  assumes "uniq event_key (events s)" "r \<in> set (events s)"
    "event_key r = (fr_DeploymentID frame, KindMonitor, oe_EventID e)"
  shows "insertOutboxEvent E frame now e s =
    (if e_payload_hash r = sha256 E (marshal_message E (oe_Message e)) then Inr s else Inl ErrPayloadConflict)"
proof -
  have "event_conflict (oe_OutboxID e) (fr_DeploymentID frame, KindMonitor, oe_EventID e) s"
    using assms(2,3) by (auto simp: event_conflict_def exists_where_iff)
  moreover have "find (\<lambda>e'. event_key e' = (fr_DeploymentID frame, KindMonitor, oe_EventID e)) (events s) = Some r"
    by (rule find_uniq [where k = event_key, OF assms(1,2)]) (use assms(3) in auto)
  ultimately show ?thesis by (simp add: insertOutboxEvent_def Let_def)
qed

lemma insertOutboxEvents_known:
  assumes "uniq event_key (events s)"
    and "\<forall>e\<in>set es. \<exists>r\<in>set (events s). event_key r = (fr_DeploymentID frame, KindMonitor, oe_EventID e) \<and>
      e_payload_hash r = sha256 E (marshal_message E (oe_Message e))"
  shows "insertOutboxEvents E frame now es s = Inr s"
  using assms(2)
proof (induction es)
  case (Cons e es)
  then obtain r where "r \<in> set (events s)" "event_key r = (fr_DeploymentID frame, KindMonitor, oe_EventID e)"
    "e_payload_hash r = sha256 E (marshal_message E (oe_Message e))" by auto
  then have "insertOutboxEvent E frame now e s = Inr s"
    using insertOutboxEvent_known [OF assms(1), of r frame e E now] by simp
  then show ?case using Cons by simp
qed simp

lemma insertOutboxEvents_conflict:
  assumes "e \<in> set es" "store_inv s" "r \<in> set (events s)"
    "(fr_DeploymentID frame, fr_Generation frame, fr_Sequence frame) \<in> tx_key ` set (transactions s)"
    "fr_DeploymentID frame \<in> d_id ` set (deployments s)"
    "event_key r = (fr_DeploymentID frame, KindMonitor, oe_EventID e)"
    "e_payload_hash r \<noteq> sha256 E (marshal_message E (oe_Message e))"
  shows "\<exists>err. insertOutboxEvents E frame now es s = Inl err"
  using assms(1-5)
proof (induction es arbitrary: s)
  case (Cons e' es)
  show ?case
  proof (cases "insertOutboxEvent E frame now e' s")
    case (Inr s1)
    have "e' \<noteq> e"
      using Inr insertOutboxEvent_known [of s r frame e E now] Cons.prems(2,3) assms(6,7)
      by (auto simp: store_inv_def keys_ok_def)
    moreover have "store_inv s1" using insertOutboxEvent_inv [OF Inr] Cons.prems by blast
    moreover obtain evs vs where "s1 = s\<lparr>events := events s @ evs, deliveries := deliveries s @ vs\<rparr>"
      using insertOutboxEvent_tables [OF Inr] by blast
    ultimately show ?thesis using Cons.IH [of s1] Cons.prems Inr by simp
  qed simp
qed simp

text \<open>
  an event id names one occurrence for ever.  A frame that reuses a recorded event id of
  its deployment for a different message is rejected as a whole and changes nothing; a frame
  whose events are all recorded already, with the same messages, commits without adding an
  event or a delivery.
\<close>

theorem event_identity:
  assumes inv: "store_inv s" and fresh: "lookupTransaction frame s = Inr None"
  shows "(e \<in> set (fr_Events frame) \<longrightarrow> r \<in> set (events s) \<longrightarrow>
      event_key r = (fr_DeploymentID frame, KindMonitor, oe_EventID e) \<longrightarrow>
      e_payload_hash r \<noteq> sha256 E (marshal_message E (oe_Message e)) \<longrightarrow>
      (\<exists>err. ApplyTransaction E commit readable frame now s = (s, Inl err))) \<and>
    ((\<forall>e\<in>set (fr_Events frame). \<exists>r\<in>set (events s).
        event_key r = (fr_DeploymentID frame, KindMonitor, oe_EventID e) \<and>
        e_payload_hash r = sha256 E (marshal_message E (oe_Message e))) \<longrightarrow>
      events (fst (ApplyTransaction E commit readable frame now s)) = events s \<and>
      deliveries (fst (ApplyTransaction E commit readable frame now s)) = deliveries s)"
proof (rule conj_2; (intro impI)?)
  note keys = store_invD(1) [OF inv]
  have ins: "\<exists>s1. store_inv s1 \<and> events s1 = events s \<and> deliveries s1 = deliveries s \<and>
      (fr_DeploymentID frame, fr_Generation frame, fr_Sequence frame) \<in> tx_key ` set (transactions s1) \<and>
      fr_DeploymentID frame \<in> d_id ` set (deployments s1) \<and>
      insertOutboxEvents E frame now (fr_Events frame) s1 = Inr s'"
    if app: "applyFrame E frame now s = Inr (s', ack)" for s' ack
  proof -
    obtain l where guard: "guardFrame E frame s = Inr (fr_BaseStateRevision frame, l)"
      using applyFrame_Inr [OF keys app] by blast
    from writeLedger_Inr [OF keys guard, of now]
    obtain s1 where w: "writeLedger frame (fr_BaseStateRevision frame) l now s = Inr s1" by blast
    have eq: "Inr s1 = writeLedger frame (fr_BaseStateRevision frame) l now s" by (simp add: w)
    have s1: "(fr_DeploymentID frame, fr_Generation frame, fr_Sequence frame) \<in> tx_key ` set (transactions s1)"
      "events s1 = events s" "deliveries s1 = deliveries s"
      "d_id ` set (deployments s1) = d_id ` set (deployments s)"
      using eq unfolding writeLedger_Inr [OF keys guard] by (simp_all add: image_update_where)
    have dep: "fr_DeploymentID frame \<in> d_id ` set (deployments s)"
      using guard by (auto simp: guardFrame_Inr dest!: find_deploymentD intro: imageI_eq)
    have "store_inv s1" by (rule writeLedger_inv [OF inv guard fresh w])
    then have "store_inv (writeCheckpoints E frame now (fr_Checkpoints frame) s1)"
      using dep s1(4) by (intro writeCheckpoints_inv) simp_all
    then show ?thesis
      using app guard w s1 dep
      by (intro exI [of _ "writeCheckpoints E frame now (fr_Checkpoints frame) s1"])
        (auto simp: applyFrame_def split: sum.splits)
  qed
  show "\<exists>err. ApplyTransaction E commit readable frame now s = (s, Inl err)"
    if "e \<in> set (fr_Events frame)" "r \<in> set (events s)"
      "event_key r = (fr_DeploymentID frame, KindMonitor, oe_EventID e)"
      "e_payload_hash r \<noteq> sha256 E (marshal_message E (oe_Message e))"
  proof (cases "applyFrame E frame now s")
    case (Inr p)
    then obtain s' ack where "applyFrame E frame now s = Inr (s', ack)" by (cases p) simp
    from ins [OF this] insertOutboxEvents_conflict [OF that(1), of _ r frame E now] that(2-4)
    show ?thesis by fastforce
  qed (use fresh in \<open>auto simp: ApplyTransaction_def split: option.splits\<close>)
  show "events (fst (ApplyTransaction E commit readable frame now s)) = events s \<and>
      deliveries (fst (ApplyTransaction E commit readable frame now s)) = deliveries s"
    if known: "\<forall>e\<in>set (fr_Events frame). \<exists>r\<in>set (events s).
        event_key r = (fr_DeploymentID frame, KindMonitor, oe_EventID e) \<and>
        e_payload_hash r = sha256 E (marshal_message E (oe_Message e))"
  proof (cases rule: ApplyTransaction_cases [of E commit readable frame now s])
    case (applied s' ack)
    obtain s1 where "store_inv s1" "events s1 = events s" "deliveries s1 = deliveries s"
      "insertOutboxEvents E frame now (fr_Events frame) s1 = Inr s'"
      using ins [OF applied(3)] by blast
    then show ?thesis
      using insertOutboxEvents_known [of s1 "fr_Events frame" frame E now] known applied(4)
      by (simp add: store_inv_def keys_ok_def)
  qed simp
qed

definition sample_next :: "string \<Rightarrow> TransactionFrame" where
  "sample_next title = sample_frame\<lparr>fr_Sequence := 2, fr_BaseStateRevision := 1,
     fr_Events := [sample_event\<lparr>oe_OutboxID := ''out2'', oe_Message := empty_message\<lparr>msg_Title := title\<rparr>\<rparr>]\<rparr>"

lemma event_identity_witness:
  "(\<exists>err. ApplyTransaction sample_env CommitOk True (sample_next ''other'') 60 sample_applied = (sample_applied, Inl err)) \<and>
   events (fst (ApplyTransaction sample_env CommitOk True (sample_next ''hello'') 60 sample_applied)) = events sample_applied"
proof -
  have fresh: "lookupTransaction (sample_next title) sample_applied = Inr None" for title
    by (simp add: lookup_fresh sample_applied_eq sample_next_def ledger_row_def sample_defs)
  have "\<exists>err. ApplyTransaction sample_env CommitOk True (sample_next ''other'') 60 sample_applied =
      (sample_applied, Inl err)"
    by (rule event_identity [OF sample_inv(2) fresh, where r = "hd (events sample_applied)"
        and e = "hd (fr_Events (sample_next ''other''))", THEN conjunct1, THEN mp, THEN mp, THEN mp, THEN mp])
      (simp_all add: sample_applied_eq sample_next_def sample_defs)
  moreover have "events (fst (ApplyTransaction sample_env CommitOk True (sample_next ''hello'') 60 sample_applied)) =
      events sample_applied"
    by (rule event_identity [OF sample_inv(2) fresh, THEN conjunct2, THEN mp, THEN conjunct1])
      (simp add: sample_applied_eq sample_next_def sample_defs)
  ultimately show ?thesis ..
qed

end
