(* ===== verification/LifecycleTheorems.thy ===== *)
theory LifecycleTheorems
  imports Sample
begin

text \<open>
  What the generation fence and the deployment's life cycle promise: recovery, activation, the
  state compare-and-swap, deployment and purge, and the health automaton with its notifications.
\<close>

section \<open>Generations\<close>

lemma generation_status_retired [simp]: "st \<noteq> GenActive \<longleftrightarrow> st = GenRetired"
  by (cases st) simp_all

text \<open>
  C9: recovery fences everything.  After \<open>RecoverGenerations\<close> no generation is active and no
  deployment points at one, so every frame of a worker of the previous daemon that holds no
  receipt is refused with \<open>ErrGenerationFenced\<close>, while deployments, states and receipts are kept.
\<close>

theorem recover_fences:
  "\<exists>s'. RecoverGenerations at s = Inr (s', ()) \<and>
     (\<forall>g\<in>set (generations s'). g_status g = GenRetired) \<and>
     (store_inv s \<longrightarrow> (\<forall>d\<in>set (deployments s'). d_active d = 0)) \<and>
     transactions s' = transactions s \<and>
     map (\<lambda>d. (d_id d, d_status d, d_state d, d_state_revision d)) (deployments s') =
       map (\<lambda>d. (d_id d, d_status d, d_state d, d_state_revision d)) (deployments s) \<and>
     (validateFrame frame = None \<longrightarrow> lookupTransaction frame s = Inr None \<longrightarrow>
       ApplyTransaction E commit readable frame now s' = (s', Inl ErrGenerationFenced))"
proof -
  obtain s' where s': "RecoverGenerations at s = Inr (s', ())" by (simp add: RecoverGenerations_def Let_def)
  have "generations s' = update_where (\<lambda>g. g_status g = GenActive) (retire_once at ''daemon restarted'') (generations s)"
    using s' by (auto simp: RecoverGenerations_def Let_def)
  then have gens: "\<forall>g\<in>set (generations s'). g_status g = GenRetired"
    by (simp add: ball_update_where)
  have deps: "deployments s' = update_where (\<lambda>d. d_status d = DepActive \<and> 0 < d_active d)
      (\<lambda>d. d\<lparr>d_active := 0, d_updated_at := at\<rparr>) (deployments s)" and txs: "transactions s' = transactions s"
    using s' by (auto simp: RecoverGenerations_def Let_def)
  have zero: "\<forall>d\<in>set (deployments s'). d_active d = 0" if inv: "store_inv s"
    unfolding deps ball_update_where
    using fence_okD(1,2) [OF store_invD(3) [OF inv]] by force
  have refused: "ApplyTransaction E commit readable frame now s' = (s', Inl ErrGenerationFenced)"
    if "validateFrame frame = None" "lookupTransaction frame s = Inr None"
  proof -
    have "loadActiveGeneration (fr_DeploymentID frame) s' = None"
      using gens find_generationD by (fastforce simp: loadActiveGeneration_def split: option.splits)
    moreover have "lookupTransaction frame s' = Inr None" using that(2) txs by (simp add: lookup_fresh)
    ultimately show ?thesis using that(1) by (simp add: ApplyTransaction_def applyFrame_def guardFrame_def)
  qed
  have "map (\<lambda>d. (d_id d, d_status d, d_state d, d_state_revision d)) (deployments s') =
      map (\<lambda>d. (d_id d, d_status d, d_state d, d_state_revision d)) (deployments s)"
    unfolding deps by (rule map_update_where) simp
  with s' gens zero refused txs show ?thesis by (intro exI [of _ s'] conjI impI)
qed

lemma recover_fences_witness:
  "ApplyTransaction sample_env CommitOk True sample_frame 50
     (fst (run_tx (RecoverGenerations 40) sample_store)) =
   (fst (run_tx (RecoverGenerations 40) sample_store), Inl ErrGenerationFenced)"
proof -
  have "lookupTransaction sample_frame sample_store = Inr None"
    by (simp add: lookup_fresh sample_store_eq)
  then show ?thesis
    using recover_fences [of 40 sample_store sample_frame sample_env CommitOk True 50] sample_frame_valid
    by auto
qed

text \<open>
  activation supersedes.  A successful \<open>ActivateGeneration\<close> gives the deployment a
  generation number above all it ever had, makes it the only active one with an empty sequence
  and the hash of the returned token, and leaves the state, the ledger and every other
  deployment as they were.
\<close>

theorem activation_supersedes:
  assumes inv: "store_inv s" and op: "ActivateGeneration E a token checkedAt now s = Inr (s', ag)"
  shows "(\<forall>g\<in>set (generations s). g_deployment g = ga_DeploymentID a \<longrightarrow> g_generation g < ag_Generation ag) \<and>
    (\<exists>d g. find_deployment (ga_DeploymentID a) s = Some d \<and> d_status d = DepActive \<and>
      d_state_revision d = ga_StateRevision a \<and> d_config_revision d = ga_ConfigRevision a \<and>
      find_deployment (ga_DeploymentID a) s' = Some (d\<lparr>d_active := ag_Generation ag, d_updated_at := now\<rparr>) \<and>
      find_generation (ga_DeploymentID a) (ag_Generation ag) s' = Some g \<and>
      g_status g = GenActive \<and> g_last_seq g = 0 \<and> g_token_hash g = sha256 E (ag_WorkerToken ag)) \<and>
    (\<forall>g\<in>set (generations s'). g_deployment g = ga_DeploymentID a \<longrightarrow> g_status g = GenActive \<longrightarrow>
      g_generation g = ag_Generation ag) \<and>
    (transactions s' = transactions s \<and>
      (\<forall>d\<in>set (deployments s). d_id d \<noteq> ga_DeploymentID a \<longrightarrow> d \<in> set (deployments s')))"
proof (rule conj_4)
  let ?i = "ga_DeploymentID a"
  note keys = store_invD(1) [OF inv]
  obtain d where d: "d \<in> set (deployments s)" "d_id d = ?i" "d_status d = DepActive"
    "d_expires_at d = None \<or> checkedAt < the (d_expires_at d)"
    "d_state_revision d = ga_StateRevision a" "d_artifact d = ga_ArtifactID a"
    "d_config_revision d = ga_ConfigRevision a" "d_active d = ga_ActiveGeneration a"
    "\<And>d'. d' \<in> set (deployments s) \<Longrightarrow> activation_hit a (d_active d) d' \<longleftrightarrow> d' = d"
    and adv: "advanceGeneration E a token (d_active d) now s = Inr (s', ag)"
    by (rule ActivateGeneration_Inr [OF keys op]) (rule that)
  note eqs = conjunct1 [OF advanceGeneration_Inr [OF adv]] conjunct2 [OF advanceGeneration_Inr [OF adv]]
  have ag: "ag_Generation ag = maxGeneration ?i s + 1" "ag_WorkerToken ag = token" by (simp_all add: eqs(1))
  show newest: "\<forall>g\<in>set (generations s). g_deployment g = ?i \<longrightarrow> g_generation g < ag_Generation ag"
    using maxGeneration_ge(2) [of _ s ?i] ag by fastforce
  have inv': "store_inv s'" by (rule ActivateGeneration_inv [OF inv op])
  let ?d = "d\<lparr>d_active := ag_Generation ag, d_updated_at := now\<rparr>"
  have d': "?d \<in> set (deployments s')"
    using update_where_hit [OF d(1), of "activation_hit a (d_active d)"] d(9) [OF d(1)] by (simp add: eqs)
  let ?g = "new_generation E a token (maxGeneration ?i s + 1) now
      (update_where (replaced a (d_active d)) (retire now ''generation replaced'') (generations s))"
  have "?g \<in> set (generations s')" by (simp add: eqs)
  moreover have "gen_key ?g = (?i, ag_Generation ag) \<and> g_status ?g = GenActive \<and>
      g_last_seq ?g = 0 \<and> g_token_hash ?g = sha256 E (ag_WorkerToken ag)"
    by (simp add: ag new_generation_def)
  ultimately obtain g where g: "g \<in> set (generations s')" "gen_key g = (?i, ag_Generation ag)" "g_status g = GenActive"
    "g_last_seq g = 0" "g_token_hash g = sha256 E (ag_WorkerToken ag)" by blast
  show "\<exists>d g. find_deployment ?i s = Some d \<and> d_status d = DepActive \<and>
      d_state_revision d = ga_StateRevision a \<and> d_config_revision d = ga_ConfigRevision a \<and>
      find_deployment ?i s' = Some (d\<lparr>d_active := ag_Generation ag, d_updated_at := now\<rparr>) \<and>
      find_generation ?i (ag_Generation ag) s' = Some g \<and>
      g_status g = GenActive \<and> g_last_seq g = 0 \<and> g_token_hash g = sha256 E (ag_WorkerToken ag)"
    using d d' g keys store_invD(1) [OF inv']
    by (intro exI [of _ d] exI [of _ g]) (simp add: find_deployment_iff find_generation_iff)
  show "\<forall>g\<in>set (generations s'). g_deployment g = ?i \<longrightarrow> g_status g = GenActive \<longrightarrow> g_generation g = ag_Generation ag"
  proof (intro ballI impI)
    fix g assume g: "g \<in> set (generations s')" "g_deployment g = ?i" "g_status g = GenActive"
    obtain d1 where d1: "d1 \<in> set (deployments s')" "d_id d1 = g_deployment g" "d_active d1 = g_generation g"
      by (rule active_generation [OF store_invD(3) [OF inv'] g(1,3)])
    then have "d1 = ?d" using d' d(2) g(2) store_invD(1) [OF inv'] by (auto simp: keys_ok_def dest: uniqD)
    then show "g_generation g = ag_Generation ag" using d1(3) by simp
  qed
  show "transactions s' = transactions s \<and>
      (\<forall>d\<in>set (deployments s). d_id d \<noteq> ?i \<longrightarrow> d \<in> set (deployments s'))"
    by (auto simp: eqs activation_hit_def intro: update_where_miss)
qed

lemma activation_supersedes_witness:
  "\<exists>s' ag. ActivateGeneration sample_env (sample_activation\<lparr>ga_ActiveGeneration := 1\<rparr>) sample_token 50 50 sample_store =
     Inr (s', ag) \<and>
   (\<forall>g\<in>set (generations sample_store). g_deployment g = ''dep'' \<longrightarrow> g_generation g < ag_Generation ag)"
proof -
  obtain s' ag where op: "ActivateGeneration sample_env (sample_activation\<lparr>ga_ActiveGeneration := 1\<rparr>) sample_token 50 50 sample_store =
     Inr (s', ag)"
    by (simp add: ActivateGeneration_def advanceGeneration_def activation_hit_def sample_eval sample_activation_def)
  then show ?thesis
    using activation_supersedes [OF sample_inv(1) op, THEN conjunct1] by (auto simp: sample_activation_def)
qed

text \<open>
  \<open>ReplaceState\<close> is a compare-and-swap.  It succeeds only from the expected revision, and
  then the state is the given one at the next revision and every generation of the deployment
  is fenced; for a known deployment that is not archived any other revision is
  \<open>ErrStateConflict\<close>.
\<close>

theorem replace_state_cas:
  assumes inv: "store_inv s" and d: "find_deployment i s = Some d" "d_status d \<noteq> DepArchived"
    and valid: "json_valid state"
  shows "(base \<noteq> d_state_revision d \<longrightarrow> ReplaceState i base state now s = Inl ErrStateConflict) \<and>
    (base = d_state_revision d \<longrightarrow> (\<exists>s' d'. ReplaceState i base state now s = Inr (s', base + 1) \<and>
      find_deployment i s' = Some d' \<and> d_state d' = state \<and> d_state_revision d' = base + 1 \<and>
      d_active d' = 0 \<and> d_status d' = d_status d \<and>
      (\<forall>g\<in>set (generations s'). g_deployment g = i \<longrightarrow> g_status g = GenRetired)))"
proof (rule conj_2; (intro impI)?)
  let ?hit = "\<lambda>d. d_id d = i \<and> d_state_revision d = base"
  note keys = store_invD(1) [OF inv]
  have mem: "d \<in> set (deployments s)" "d_id d = i" using find_deploymentD [OF d(1)] by simp_all
  have one: "d' = d" if "d' \<in> set (deployments s)" "d_id d' = i" for d'
    using that mem keys by (auto simp: keys_ok_def dest: uniqD)
  show "ReplaceState i base state now s = Inl ErrStateConflict" if "base \<noteq> d_state_revision d"
  proof -
    have "count_where ?hit (deployments s) = 0" using one that by (fastforce simp: count_where_0)
    then show ?thesis using d valid by (simp add: ReplaceState_def)
  qed
  show "\<exists>s' d'. ReplaceState i base state now s = Inr (s', base + 1) \<and>
      find_deployment i s' = Some d' \<and> d_state d' = state \<and> d_state_revision d' = base + 1 \<and>
      d_active d' = 0 \<and> d_status d' = d_status d \<and>
      (\<forall>g\<in>set (generations s'). g_deployment g = i \<longrightarrow> g_status g = GenRetired)"
    if "base = d_state_revision d"
  proof -
    have "count_where ?hit (deployments s) = 1"
      using keys mem that by (intro count_where_uniq [where k = d_id and r = d]) (auto simp: keys_ok_def)
    then obtain s' where op: "ReplaceState i base state now s = Inr (s', base + 1)"
      using d valid by (simp add: ReplaceState_def Let_def)
    let ?d = "d\<lparr>d_state := state, d_state_revision := d_state_revision d + 1, d_active := 0, d_updated_at := now\<rparr>"
    have eq: "deployments s' = update_where ?hit (\<lambda>d. d\<lparr>d_state := state,
        d_state_revision := d_state_revision d + 1, d_active := 0, d_updated_at := now\<rparr>) (deployments s)"
      "generations s' = update_where (\<lambda>g. g_deployment g = i \<and> g_status g = GenActive)
        (retire now ''state replaced'') (generations s)"
      using ReplaceState_Inr [OF inv op] by (auto simp: fence_update_def)
    have "?d \<in> set (deployments s')"
      using update_where_hit [OF mem(1), of ?hit] mem that by (simp add: eq)
    then have "find_deployment i s' = Some ?d"
      using mem store_invD(1) [OF ReplaceState_inv [OF inv op]] by (simp add: find_deployment_iff)
    moreover have "\<forall>g\<in>set (generations s'). g_deployment g = i \<longrightarrow> g_status g = GenRetired"
      by (simp add: eq ball_update_where)
    ultimately show ?thesis using op that by (intro exI [of _ s'] exI [of _ ?d]) simp
  qed
qed

lemma replace_state_cas_witness:
  "ReplaceState ''dep'' 7 ''{}'' 50 sample_store = Inl ErrStateConflict \<and>
   (\<exists>s' d'. ReplaceState ''dep'' 0 ''{}'' 50 sample_store = Inr (s', 1) \<and> find_deployment ''dep'' s' = Some d' \<and>
      d_state_revision d' = 1)"
proof -
  obtain d where d: "find_deployment ''dep'' sample_store = Some d" "d_status d \<noteq> DepArchived" "d_state_revision d = 0"
    by (simp add: sample_eval)
  show ?thesis
    using replace_state_cas [OF sample_inv(1) d(1,2) json_valid_braces, of 7 50, THEN conjunct1]
      replace_state_cas [OF sample_inv(1) d(1,2) json_valid_braces, of 0 50, THEN conjunct2] d(3) by auto
qed

section \<open>Health\<close>

text \<open>
  The specification of the health automaton: the failure counter and the notification latch of
  a deployment, driven by the outcomes of its runs.
\<close>

definition health_spec :: "int \<Rightarrow> run_status \<Rightarrow> int \<times> bool \<Rightarrow> (int \<times> bool) \<times> HealthTransition" where
  "health_spec threshold outcome st = (case st of (failures, notified) \<Rightarrow>
     (case outcome of
        RunDeferred \<Rightarrow> ((failures, notified), HealthUnchanged)
      | RunSucceeded \<Rightarrow> ((0, False), if notified then HealthRecovered else HealthUnchanged)
      | RunFailed \<Rightarrow>
          if \<not> notified \<and> threshold \<le> failures + 1 then ((failures + 1, True), HealthBecameUnhealthy)
          else ((failures + 1, notified), HealthUnchanged)))"

definition health_abs :: "health_row \<Rightarrow> int \<times> bool" where
  "health_abs h = (h_failures h, h_notified h)"

lemma insertHealthDeliveries_all:
  "insertHealthDeliveries outboxID at bs s = Inr s' \<Longrightarrow>
   (\<forall>v\<in>set (deliveries s). v \<in> set (deliveries s')) \<and>
   (\<forall>b\<in>set bs. \<exists>v\<in>set (deliveries s'). v_outbox v = outboxID \<and> v_deployment v = b_deployment b \<and>
      v_destination v = b_id b \<and> v_revision v = b_revision b \<and> v_status v = DlvPending)"
proof (induction bs arbitrary: s)
  case (Cons b bs)
  let ?v = "health_delivery outboxID at b (deliveries s)"
  have step: "insertHealthDeliveries outboxID at bs (s\<lparr>deliveries := deliveries s @ [?v]\<rparr>) = Inr s'"
    using Cons.prems by (simp split: if_splits)
  have "?v \<in> set (deliveries s')" "\<forall>v\<in>set (deliveries s). v \<in> set (deliveries s')"
    "\<forall>b\<in>set bs. \<exists>v\<in>set (deliveries s'). v_outbox v = outboxID \<and> v_deployment v = b_deployment b \<and>
      v_destination v = b_id b \<and> v_revision v = b_revision b \<and> v_status v = DlvPending"
    using Cons.IH [OF step] by auto
  then show ?case by (auto simp: health_delivery_def intro!: bexI [of _ ?v])
qed simp

text \<open>An event of the health kind that went out to every active binding of its deployment.\<close>

definition health_sent :: "string \<Rightarrow> store \<Rightarrow> event_row \<Rightarrow> bool" where
  "health_sent i s e \<longleftrightarrow> e_kind e = KindHealth \<and> e_deployment e = i \<and>
     (\<forall>b\<in>set (bindings s). b_deployment b = i \<longrightarrow> b_retired_at b = None \<longrightarrow>
        (\<exists>v\<in>set (deliveries s). v_outbox v = e_outbox e \<and> v_destination v = b_id b \<and>
           v_revision v = b_revision b \<and> v_status v = DlvPending))"

lemma notifyIf_events:
  assumes "notifyIf move E i name n unhealthy failures at outboxID s = Inr (s', tr)"
  shows "if move then \<exists>e. events s' = events s @ [e] \<and> health_sent i s' e else events s' = events s"
proof (cases move)
  case True
  let ?e = "health_event E i name n unhealthy failures at outboxID (events s)"
  have ins: "insertHealthDeliveries outboxID at (filter (\<lambda>b. b_deployment b = i \<and> b_retired_at b = None) (bindings s))
      ((latch i unhealthy s)\<lparr>events := events s @ [?e]\<rparr>) = Inr s'"
    using assms True by (auto simp: notifyIf_def enqueueHealthNotification_def Let_def split: if_splits sum.splits)
  obtain vs where s': "s' = (latch i unhealthy s)\<lparr>events := events s @ [?e], deliveries := deliveries s @ vs\<rparr>"
    using insertHealthDeliveries_tables [OF ins] by auto
  have "health_sent i s' ?e"
    using conjunct2 [OF insertHealthDeliveries_all [OF ins]]
    by (fastforce simp: health_sent_def health_event_def Let_def s')
  then show ?thesis using True by (simp add: s')
qed (use assms in \<open>simp add: notifyIf_def\<close>)

text \<open>
  The store refines the health automaton.  A recorded run moves the failure counter and the
  latch of its deployment exactly as \<open>health_spec\<close> does and returns its transition; it enqueues
  one notification, to every active binding, precisely when the automaton moves between healthy
  and unhealthy.
\<close>

theorem RecordRun_refines:
  assumes inv: "store_inv s" and op: "RecordRun E outcome outboxID clock s = Inr (s', tr)"
    and d: "find_deployment (ro_DeploymentID outcome) s = Some d"
    and h: "find_health (ro_DeploymentID outcome) s = Some h"
  shows "(\<exists>st h'. ro_Status outcome = Some st \<and> find_health (ro_DeploymentID outcome) s' = Some h' \<and>
      (health_abs h', tr) = health_spec (d_threshold d) st (health_abs h)) \<and>
    (if tr = HealthUnchanged then events s' = events s
      else \<exists>e. events s' = events s @ [e] \<and> health_sent (ro_DeploymentID outcome) s' e)"
proof (rule conj_2)
  let ?i = "ro_DeploymentID outcome"
  note keys = store_invD(1) [OF inv]
  obtain st d0 h0 now failures h1 where st: "ro_Status outcome = Some st"
    and load: "loadHealthPolicy ?i s = Some (d0, h0)"
    and h1: "h1 \<in> set (healths s)" "h_deployment h1 = ?i" "h_generation h1 = d_active d0"
    and tail: "notifyIf (run_move st d0 h0) E ?i (d_name d0) (d_active d0) (st = RunFailed) failures now outboxID
      (s\<lparr>healths := update_where (\<lambda>h. h_deployment h = ?i \<and> h_generation h = d_active d0)
           (run_row st d0 (ro_Duration outcome div 1000000) (boundedText (ro_Error outcome) maxStoredErrorBytes) now)
           (healths s)\<rparr>) = Inr (s', tr)"
    using RecordRun_Inr [OF op] by blast
  note pol = loadHealthPolicy_Some [OF inv load]
  have eqs: "d0 = d" "h0 = h" "h1 = h"
    using pol(7) find_deploymentD [OF d] pol(8) find_healthD [OF h] h1 by blast+
  let ?row = "run_row st d (ro_Duration outcome div 1000000) (boundedText (ro_Error outcome) maxStoredErrorBytes) now h"
  let ?h = "if run_move st d h then ?row\<lparr>h_notified := (st = RunFailed)\<rparr> else ?row"
  have hit: "h \<in> set (healths s)" "h_deployment h = ?i" "h_generation h = d_active d" using h1 by (simp_all add: eqs)
  have row: "h_deployment ?row = ?i" using hit(2) by (simp add: run_row_def split: run_status.split)
  have tables: "healths s' = (if run_move st d h
      then update_where (\<lambda>h. h_deployment h = ?i) (\<lambda>h. h\<lparr>h_notified := (st = RunFailed)\<rparr>)
        (update_where (\<lambda>h. h_deployment h = ?i \<and> h_generation h = d_active d)
           (run_row st d (ro_Duration outcome div 1000000) (boundedText (ro_Error outcome) maxStoredErrorBytes) now) (healths s))
      else update_where (\<lambda>h. h_deployment h = ?i \<and> h_generation h = d_active d)
           (run_row st d (ro_Duration outcome div 1000000) (boundedText (ro_Error outcome) maxStoredErrorBytes) now) (healths s))"
    "tr = (if run_move st d h then if st = RunFailed then HealthBecameUnhealthy else HealthRecovered else HealthUnchanged)"
    using notifyIf_tables(6,7) [OF tail] by (simp_all add: eqs)
  have "?row \<in> set (update_where (\<lambda>h. h_deployment h = ?i \<and> h_generation h = d_active d)
      (run_row st d (ro_Duration outcome div 1000000) (boundedText (ro_Error outcome) maxStoredErrorBytes) now) (healths s))"
    by (rule update_where_hit) (use hit in simp_all)
  then have "?h \<in> set (healths s')"
    unfolding tables(1) using row by (auto intro: update_where_hit [where f = "\<lambda>h. h\<lparr>h_notified := st = RunFailed\<rparr>"])
  then have "find_health ?i s' = Some ?h"
    using row store_invD(1) [OF RecordRun_inv [OF inv op]] by (simp add: find_health_iff)
  moreover have "(health_abs ?h, tr) = health_spec (d_threshold d) st (health_abs h)"
    by (cases st) (auto simp: tables(2) health_abs_def health_spec_def run_row_def run_move_def
      deferred_row_def success_row_def failure_row_def)
  ultimately show "\<exists>st h'. ro_Status outcome = Some st \<and> find_health ?i s' = Some h' \<and>
      (health_abs h', tr) = health_spec (d_threshold d) st (health_abs h)"
    using st by blast
  show "if tr = HealthUnchanged then events s' = events s
      else \<exists>e. events s' = events s @ [e] \<and> health_sent ?i s' e"
    using notifyIf_events [OF tail] by (cases "run_move st d h") (auto simp: eqs tables(2))
qed

lemma RecordRun_refines_witness:
  "\<exists>s' h'. RecordRun sample_env \<lparr>ro_DeploymentID = ''dep'', ro_Generation = 1, ro_Status = Some RunFailed,
      ro_Duration = 5, ro_Error = ''boom'', ro_FinishedAt = Some 70\<rparr> ''hx'' 70 sample_store = Inr (s', HealthUnchanged) \<and>
    find_health ''dep'' s' = Some h' \<and> health_abs h' = (1, False)"
proof -
  let ?o = "\<lparr>ro_DeploymentID = ''dep'', ro_Generation = 1, ro_Status = Some RunFailed,
      ro_Duration = 5, ro_Error = ''boom'', ro_FinishedAt = Some 70\<rparr>"
  obtain s' tr where op: "RecordRun sample_env ?o ''hx'' 70 sample_store = Inr (s', tr)"
    by (simp add: RecordRun_def loadHealthPolicy_def updateHealth_def notifyIf_def sample_eval)
  obtain d where d: "find_deployment ''dep'' sample_store = Some d" "d_threshold d = 2" by (simp add: sample_eval)
  obtain h where h: "find_health ''dep'' sample_store = Some h" "health_abs h = (0, False)"
    by (simp add: sample_eval health_abs_def)
  show ?thesis
    using RecordRun_refines [OF sample_inv(1) op, of d h, THEN conjunct1] op d h by (auto simp: health_spec_def)
qed

section \<open>Deployment and purge\<close>

definition active_bindings :: "string \<Rightarrow> store \<Rightarrow> binding_row list" where
  "active_bindings i s = filter (\<lambda>b. b_deployment b = i \<and> b_retired_at b = None) (bindings s)"

lemma insertBindings_bindings:
  "\<exists>new. bindings (insertBindings E i now k cs s) = bindings s @ new \<and>
     map (\<lambda>b. (b_id b, b_config b, b_deployment b, b_retired_at b)) new =
       map (\<lambda>(j, c). (destination_id (k + j), c, i, None)) (enumerate 0 cs)"
proof (induction cs arbitrary: k s)
  case (Cons c cs)
  let ?b = "\<lparr>b_id = destination_id k, b_revision = nextRevision i (destination_id k) s,
      b_deployment = i, b_config = c, b_config_hash = sha256 E c, b_created_at = now, b_retired_at = None\<rparr>"
  from Cons.IH [of "Suc k" "s\<lparr>bindings := bindings s @ [?b]\<rparr>"] obtain new where
    new: "bindings (insertBindings E i now (Suc k) cs (s\<lparr>bindings := bindings s @ [?b]\<rparr>)) = bindings s @ ?b # new"
      "map (\<lambda>b. (b_id b, b_config b, b_deployment b, b_retired_at b)) new =
       map (\<lambda>(j, c). (destination_id (Suc k + j), c, i, None)) (enumerate 0 cs)"
    by auto
  have "enumerate (Suc 0) cs = map (\<lambda>(j, c). (Suc j, c)) (enumerate 0 cs)"
    by (simp add: enumerate_Suc_eq apfst_def map_prod_def case_prod_unfold)
  then show ?case using new by (intro exI [of _ "?b # new"]) (simp add: case_prod_unfold)
qed simp

text \<open>
  a deploy installs exactly the configured destinations.  After \<open>Deploy\<close> the deployment is
  active with the given artifact, state and limits, no generation of it is active, and its
  active bindings are, in order, \<open>destination-1\<close>, \<open>destination-2\<close>, ... with the documents of the
  input; every earlier binding is retired, not deleted.
\<close>

theorem Deploy_installs:
  assumes inv: "store_inv s" and op: "Deploy E input newID now s = Inr (s', i)"
  shows "(map (\<lambda>b. (b_id b, b_config b)) (active_bindings i s') =
      map (\<lambda>(j, c). (destination_id j, c)) (enumerate 0 (di_Destinations input))) \<and>
    (\<forall>b\<in>set (bindings s). \<exists>b'\<in>set (bindings s'). binding_key b' = binding_key b \<and> b_config b' = b_config b) \<and>
    (\<forall>g\<in>set (generations s'). g_deployment g = i \<longrightarrow> g_status g = GenRetired) \<and>
    (\<exists>d. find_deployment i s' = Some d \<and> d_name d = di_Name input \<and> d_status d = DepActive \<and>
      d_state d = di_State input \<and> d_threshold d = di_FailureThreshold input \<and> d_active d = 0)"
proof (rule conj_4)
  have mid: "\<exists>s2. s' = finishDeploy E input i now s2 \<and> bindings s2 = bindings s \<and>
      (\<exists>d\<in>set (deployments s2). d_id d = i \<and> d_name d = di_Name input \<and> d_status d = DepActive \<and>
        d_state d = di_State input \<and> d_threshold d = di_FailureThreshold input \<and> d_active d = 0)"
    using op
  proof (cases rule: Deploy_Inr)
    case (inserted s1 art s2)
    have "bindings s1 = bindings s" by (subst inserted(1)) simp
    then show ?thesis using inserted(5,6) by (auto simp: insertDeployment_def split: if_splits)
  next
    case (updated s1 art s2 old)
    have s1: "bindings s1 = bindings s" "deployments s1 = deployments s" by (subst updated(1), simp)+
    have old: "old \<in> set (deployments s)" "d_name old = di_Name input" using find_SomeD [OF updated(3)] by simp_all
    obtain f where f: "s2 = s1\<lparr>deployments := update_where (\<lambda>d. d_id d = i) f (deployments s1)\<rparr>" "d_id old = i"
      "\<And>d. d_id (f d) = d_id d \<and> d_name (f d) = d_name d \<and> d_status (f d) = DepActive \<and>
        d_state (f d) = di_State input \<and> d_threshold (f d) = di_FailureThreshold input \<and> d_active (f d) = 0"
      using updated(4) by (auto simp: updateDeployment_def split: if_splits)
    have "f old \<in> set (deployments s2)"
      using update_where_hit [OF old(1), of "\<lambda>d. d_id d = i" f] f(2) s1(2) by (simp add: f(1))
    then show ?thesis using updated(5) s1(1) f(2,3) old(2)
      by (intro exI [of _ s2] conjI bexI [of _ "f old"]) (simp_all add: f(1))
  qed
  then obtain s2 d where s2: "s' = finishDeploy E input i now s2" "bindings s2 = bindings s"
    and d: "d \<in> set (deployments s2)" "d_id d = i" "d_name d = di_Name input" "d_status d = DepActive"
      "d_state d = di_State input" "d_threshold d = di_FailureThreshold input" "d_active d = 0" by blast
  let ?old = "update_where (\<lambda>b. b_deployment b = i \<and> b_retired_at b = None) (\<lambda>b. b\<lparr>b_retired_at := Some now\<rparr>) (bindings s)"
  let ?t = "retireBindings i now (retire_active i now ''deployment replaced''
      (ensureDeploymentHealth i 0 HealthStarting now s2))"
  have t: "bindings ?t = ?old" by (simp add: retireBindings_def s2(2))
  have s': "s' = insertBindings E i now 0 (di_Destinations input) ?t" by (simp only: s2(1) finishDeploy_def)
  obtain new where ins: "bindings (insertBindings E i now 0 (di_Destinations input) ?t) = bindings ?t @ new \<and>
     map (\<lambda>b. (b_id b, b_config b, b_deployment b, b_retired_at b)) new =
       map (\<lambda>(j, c). (destination_id (0 + j), c, i, None)) (enumerate 0 (di_Destinations input))"
    by (rule exE [OF insertBindings_bindings])
  note new = conjunct1 [OF ins, unfolded t, folded s'] conjunct2 [OF ins]
  have "filter (\<lambda>b. b_deployment b = i \<and> b_retired_at b = None) ?old = []"
    unfolding filter_empty_conv ball_update_where by simp
  moreover have "b_deployment b = i \<and> b_retired_at b = None" if "b \<in> set new" for b
  proof -
    have "(b_id b, b_config b, b_deployment b, b_retired_at b) \<in>
        set (map (\<lambda>b. (b_id b, b_config b, b_deployment b, b_retired_at b)) new)" using that by simp
    then show ?thesis unfolding new(2) by auto
  qed
  ultimately have active: "active_bindings i s' = new" by (simp add: active_bindings_def new(1))
  have "map (\<lambda>b. (b_id b, b_config b)) new =
      map (\<lambda>(a, b, c). (a, b)) (map (\<lambda>b. (b_id b, b_config b, b_deployment b, b_retired_at b)) new)" by simp
  then show "map (\<lambda>b. (b_id b, b_config b)) (active_bindings i s') =
      map (\<lambda>(j, c). (destination_id j, c)) (enumerate 0 (di_Destinations input))"
    unfolding active new(2) by (simp add: case_prod_unfold)
  show "\<forall>b\<in>set (bindings s). \<exists>b'\<in>set (bindings s'). binding_key b' = binding_key b \<and> b_config b' = b_config b"
  proof
    fix b assume b: "b \<in> set (bindings s)"
    let ?b = "if b_deployment b = i \<and> b_retired_at b = None then b\<lparr>b_retired_at := Some now\<rparr> else b"
    have "?b \<in> set ?old" using b by (auto intro: update_where_hit update_where_miss)
    then show "\<exists>b'\<in>set (bindings s'). binding_key b' = binding_key b \<and> b_config b' = b_config b"
      by (intro bexI [of _ ?b]) (simp_all add: new(1))
  qed
  have "generations s' = update_where (\<lambda>g. g_deployment g = i \<and> g_status g = GenActive)
      (retire now ''deployment replaced'') (generations s2)"
    by (simp add: s2 finishDeploy_def retireBindings_def retire_active_def)
  then show "\<forall>g\<in>set (generations s'). g_deployment g = i \<longrightarrow> g_status g = GenRetired"
    by (simp add: ball_update_where)
  have "d \<in> set (deployments s')" using d(1) by (simp add: s2 finishDeploy_rows)
  then have "find_deployment i s' = Some d"
    using store_invD(1) [OF Deploy_inv [OF inv op]] d(2) by (simp add: find_deployment_iff)
  then show "\<exists>d. find_deployment i s' = Some d \<and> d_name d = di_Name input \<and> d_status d = DepActive \<and>
      d_state d = di_State input \<and> d_threshold d = di_FailureThreshold input \<and> d_active d = 0"
    using d by blast
qed

lemma Deploy_installs_witness:
  "\<exists>s'. Deploy sample_env (sample_input\<lparr>di_Destinations := [''{}'', ''{}''], di_ExpectedStateRevision := Some 0\<rparr>)
      ''other'' 60 sample_store = Inr (s', ''dep'') \<and>
    map b_id (active_bindings ''dep'' s') = [destination_id 0, destination_id 1]"
proof -
  let ?in = "sample_input\<lparr>di_Destinations := [''{}'', ''{}''], di_ExpectedStateRevision := Some 0\<rparr>"
  have "invalidDeploy ?in = False"
    by (simp add: invalidDeploy_def sample_defs json_valid_braces trim_eval)
  then obtain s' where op: "Deploy sample_env ?in ''other'' 60 sample_store = Inr (s', ''dep'')"
    by (simp add: Deploy_def sample_input_def sample_artifact_def json_valid_braces putArtifact_def sample_eval
        updateDeployment_def default_text_def Milliseconds_def)
  have "map fst (map (\<lambda>b. (b_id b, b_config b)) (active_bindings ''dep'' s')) = [destination_id 0, destination_id 1]"
    unfolding Deploy_installs [OF sample_inv(1) op, THEN conjunct1] by simp
  then show ?thesis using op by (simp add: comp_def)
qed

text \<open>
  purge is exact.  A successful \<open>PurgeDeploymentSafe\<close> needs an archived deployment and, unless
  forced, one without a queued delivery; it removes every row of that deployment from every
  table and no other row.
\<close>

theorem purge_exact:
  assumes inv: "store_inv s" and op: "PurgeDeploymentSafe i force s = Inr (s', u)"
  shows "(\<exists>d\<in>set (deployments s). d_id d = i \<and> d_status d = DepArchived) \<and>
    (\<not> force \<longrightarrow> v \<in> set (deliveries s) \<longrightarrow> v_deployment v = i \<longrightarrow> v_status v = DlvDelivered \<or> v_status v = DlvDead) \<and>
    (set (deployments s') = {d \<in> set (deployments s). d_id d \<noteq> i} \<and>
      generations s' = filter (\<lambda>g. g_deployment g \<noteq> i) (generations s) \<and>
      healths s' = filter (\<lambda>h. h_deployment h \<noteq> i) (healths s) \<and>
      checkpoints s' = filter (\<lambda>c. c_deployment c \<noteq> i) (checkpoints s) \<and>
      transactions s' = filter (\<lambda>t. t_deployment t \<noteq> i) (transactions s) \<and>
      bindings s' = filter (\<lambda>b. b_deployment b \<noteq> i) (bindings s) \<and>
      events s' = filter (\<lambda>e. e_deployment e \<noteq> i) (events s) \<and>
      deliveries s' = filter (\<lambda>v. v_deployment v \<noteq> i) (deliveries s) \<and>
      artifacts s' = artifacts s \<and> cursors s' = cursors s)"
proof (rule conj_3; (intro impI)?)
  note eff = Purge_Inr [OF inv op]
  show "\<exists>d\<in>set (deployments s). d_id d = i \<and> d_status d = DepArchived" using eff by blast
  have "generations s' = filter (\<lambda>g. g_deployment g \<noteq> i) (generations s) \<and>
      healths s' = filter (\<lambda>h. h_deployment h \<noteq> i) (healths s) \<and>
      checkpoints s' = filter (\<lambda>c. c_deployment c \<noteq> i) (checkpoints s) \<and>
      transactions s' = filter (\<lambda>t. t_deployment t \<noteq> i) (transactions s) \<and>
      bindings s' = filter (\<lambda>b. b_deployment b \<noteq> i) (bindings s) \<and>
      events s' = filter (\<lambda>e. e_deployment e \<noteq> i) (events s) \<and>
      deliveries s' = filter (\<lambda>v. v_deployment v \<noteq> i) (deliveries s) \<and>
      artifacts s' = artifacts s \<and> cursors s' = cursors s"
    by (simp add: conjunct1 [OF eff] deleteDeployment_def delete_where_def)
  with conjunct1 [OF conjunct2 [OF eff]]
  show "set (deployments s') = {d \<in> set (deployments s). d_id d \<noteq> i} \<and>
      generations s' = filter (\<lambda>g. g_deployment g \<noteq> i) (generations s) \<and>
      healths s' = filter (\<lambda>h. h_deployment h \<noteq> i) (healths s) \<and>
      checkpoints s' = filter (\<lambda>c. c_deployment c \<noteq> i) (checkpoints s) \<and>
      transactions s' = filter (\<lambda>t. t_deployment t \<noteq> i) (transactions s) \<and>
      bindings s' = filter (\<lambda>b. b_deployment b \<noteq> i) (bindings s) \<and>
      events s' = filter (\<lambda>e. e_deployment e \<noteq> i) (events s) \<and>
      deliveries s' = filter (\<lambda>v. v_deployment v \<noteq> i) (deliveries s) \<and>
      artifacts s' = artifacts s \<and> cursors s' = cursors s"
    by (rule conjI)
  show "v_status v = DlvDelivered \<or> v_status v = DlvDead"
    if "\<not> force" and v: "v \<in> set (deliveries s)" "v_deployment v = i"
  proof -
    have "queuedDeliveries i s = 0" using op that(1) by (auto simp: PurgeDeploymentSafe_def split: if_splits)
    moreover obtain e where "e \<in> set (events s)" "e_outbox e = v_outbox v" "e_deployment e = i"
      using refs_okD(7) [OF store_invD(2) [OF inv] v(1)] v(2) by auto
    ultimately have "\<not> (v_status v = DlvPending \<or> v_status v = DlvSending)"
      using v(1) by (auto simp: queuedDeliveries_def filter_empty_conv exists_where_iff)
    then show ?thesis by (cases "v_status v") auto
  qed
qed

lemma purge_exact_witness:
  "\<exists>s s'. PurgeDeploymentSafe ''dep'' False s = Inr (s', ()) \<and> deployments s \<noteq> [] \<and> set (deployments s') = {}"
proof -
  let ?s = "run_calls sample_env (sample_start @ [CallPause ''dep'' 30, CallArchive ''dep'' 40]) empty_store"
  have deps: "deployments ?s = [(hd (deployments sample_store))\<lparr>d_status := DepArchived, d_active := 0,
      d_updated_at := 40, d_archived_at := Some 40\<rparr>]" and "deliveries ?s = []"
    by (simp_all add: run_calls_append exec_call_def PauseDeployment_def setDeploymentStatus_def
        ArchiveDeployment_def retire_active_def ensureDeploymentHealth_def set_status_def sample_eval
        flip: sample_store_def)
  then have op: "PurgeDeploymentSafe ''dep'' False ?s = Inr (deleteDeployment ''dep'' ?s, ())"
    by (simp add: PurgeDeploymentSafe_def queuedDeliveries_def count_where_def sample_store_eq)
  have "set (deployments (deleteDeployment ''dep'' ?s)) = {}"
    using purge_exact [OF reachable_inv op, THEN conjunct2, THEN conjunct2] deps by (simp add: sample_store_eq)
  then show ?thesis using op deps by (intro exI [of _ ?s] exI [of _ "deleteDeployment ''dep'' ?s"] conjI) simp_all
qed

end
