(* ===== verification/OutboxTheorems.thy ===== *)
theory OutboxTheorems
  imports Sample
begin

text \<open>
  What the outbox promises the sender and the operator: a claim takes exactly the due
  deliveries, a lease is exclusive until it expires, a terminal delivery stays terminal, and
  pruning removes nothing that is still needed.
\<close>

section \<open>Which calls touch a delivery\<close>

definition touches :: "store_call \<Rightarrow> delivery_row \<Rightarrow> bool" where
  "touches c v = (case c of
     CallPurge j force \<Rightarrow> j = v_deployment v
   | CallClaim owner claimID now lease limit \<Rightarrow> deliverable now v
   | CallDelivered outboxID dest owner now \<Rightarrow> holds_lease outboxID dest owner v
   | CallDefer outboxID dest owner nx \<Rightarrow> holds_lease outboxID dest owner v
   | CallFailed outboxID dest owner m now nx k \<Rightarrow> holds_lease outboxID dest owner v
   | CallRetryDead outboxID dest now \<Rightarrow> is_dead outboxID dest v
   | CallPrune now name slow p \<Rightarrow> name = SweepOutbox \<and> \<not> queued v
   | _ \<Rightarrow> False)"

definition grows :: "store \<Rightarrow> store \<Rightarrow> bool" where
  "grows s s' \<longleftrightarrow> set (deliveries s) \<subseteq> set (deliveries s')"

lemma grows_tx: "(\<And>s' a. f s = Inr (s', a) \<Longrightarrow> grows s s') \<Longrightarrow> grows s (fst (run_tx f s))"
  by (cases "f s") (auto simp: run_tx_def grows_def)

lemma grows_lifecycle:
  "RecoverGenerations at s = Inr (s', u) \<Longrightarrow> grows s s'"
  "ActivateGeneration E a token checkedAt now s = Inr (s', ag) \<Longrightarrow> grows s s'"
  "DeactivateDueDeployments now s = Inr (s', m) \<Longrightarrow> grows s s'"
  "setDeploymentStatus i fromS toS expires at now s = Inr (s', u) \<Longrightarrow> grows s s'"
  "ArchiveDeployment i now s = Inr (s', u) \<Longrightarrow> grows s s'"
  "ReplaceState i base state now s = Inr (s', r) \<Longrightarrow> grows s s'"
  "ClearCheckpoints i now s = Inr (s', m) \<Longrightarrow> grows s s'"
  "MarkGenerationReady i n at s = Inr (s', u) \<Longrightarrow> grows s s'"
  "MarkGenerationStopped i n reason err now s = Inr (s', u) \<Longrightarrow> grows s s'"
  subgoal by (auto simp: grows_def RecoverGenerations_def Let_def)
  subgoal by (auto simp: grows_def ActivateGeneration_def advanceGeneration_def Let_def split: if_splits option.splits)
  subgoal by (auto simp: grows_def DeactivateDueDeployments_def Let_def split: if_splits)
  subgoal by (auto simp: grows_def setDeploymentStatus_def Let_def split: if_splits)
  subgoal by (auto simp: grows_def ArchiveDeployment_def Let_def split: if_splits)
  subgoal by (auto simp: grows_def ReplaceState_def Let_def split: if_splits option.splits)
  subgoal by (auto simp: grows_def ClearCheckpoints_def Let_def split: if_splits)
  subgoal by (auto simp: grows_def MarkGenerationReady_def Let_def split: if_splits option.splits)
  subgoal by (auto simp: grows_def MarkGenerationStopped_def Let_def split: if_splits option.splits)
  done

lemma grows_deploy: "Deploy E input newID now s = Inr (s', i) \<Longrightarrow> grows s s'"
proof (erule Deploy_Inr)
  fix s1 art s2 assume s1: "s1 = s\<lparr>artifacts := artifacts s1\<rparr>" and "insertDeployment input art newID now s1 = Inr (s2, i)"
    "s' = finishDeploy E input i now s2"
  moreover have "deliveries s1 = deliveries s" by (subst s1) simp
  ultimately show ?thesis
    by (auto simp: grows_def insertDeployment_def finishDeploy_def retireBindings_def split: if_splits)
next
  fix s1 art s2 old assume s1: "s1 = s\<lparr>artifacts := artifacts s1\<rparr>" and "updateDeployment input art old now s1 = Inr (s2, i)"
    "s' = finishDeploy E input i now s2"
  moreover have "deliveries s1 = deliveries s" by (subst s1) simp
  ultimately show ?thesis
    by (auto simp: grows_def updateDeployment_def finishDeploy_def retireBindings_def split: if_splits)
qed

lemma grows_notify: "notifyIf move E i name n unhealthy failures at outboxID s = Inr (s', tr) \<Longrightarrow> grows s s'"
  using enqueue_tables by (fastforce simp: grows_def notifyIf_def split: if_splits sum.splits)

lemma grows_health:
  "RecordRun E outcome outboxID clock s = Inr (s', tr) \<Longrightarrow> grows s s'"
  "MarkGenerationStable E i n outboxID at s = Inr (s', tr) \<Longrightarrow> grows s s'"
  "recordOperationalFailure E i n fence failure outboxID now s = Inr (s', tr) \<Longrightarrow> grows s s'"
proof -
  show "grows s s'" if "RecordRun E outcome outboxID clock s = Inr (s', tr)"
    using RecordRun_Inr [OF that] by (elim exE conjE) (drule grows_notify, simp add: grows_def)
  show "grows s s'" if "MarkGenerationStable E i n outboxID at s = Inr (s', tr)"
    using MarkGenerationStable_Inr [OF that] by (elim exE conjE) (drule grows_notify, simp add: grows_def)
  show "grows s s'" if "recordOperationalFailure E i n fence failure outboxID now s = Inr (s', tr)"
    using recordOperationalFailure_Inr [OF that] by (elim exE conjE) (drule grows_notify, simp add: grows_def)
qed

lemma grows_apply:
  assumes "store_inv s"
  shows "grows s (fst (ApplyTransaction E commit readable frame now s))"
proof (cases rule: ApplyTransaction_cases [of E commit readable frame now s])
  case (applied s' ack)
  then show ?thesis using applyFrame_Inr [OF store_invD(1) [OF assms] applied(3)] by (auto simp: grows_def)
qed (simp add: grows_def)

text \<open>A deletion of the sweep removes only deliveries of an event that has none queued.\<close>

lemma prune_keeps_queued:
  assumes "prune_page now name slow p s = Inr (s', r)" "v \<in> set (deliveries s)"
    "name = SweepTransactions \<or> queued v"
  shows "v \<in> set (deliveries s')"
proof (cases "s' = s")
  case False
  then have "prune_write now name slow p s = Inr (s', r)"
    using assms(1) by (auto simp: prune_page_def split: if_splits)
  from prune_write_Inr [OF this False] obtain s1 c k n m where
    loop: "prune_loop now name p slow (pg_ids p) (with_cursor name s, pg_next p, 0, 0) = (s1, c, k, n)"
    and s': "s' = s1\<lparr>cursors := update_where (\<lambda>m. m_name m = name) (\<lambda>_. cursor_row_of name m) (cursors s1)\<rparr>"
    by blast
  have "v \<in> set (deliveries s1)"
  proof (rule prune_loop_induct [where P = "\<lambda>t. v \<in> set (deliveries t)", OF loop])
    show "v \<in> set (deliveries (with_cursor name s))" using assms(2) by (simp add: with_cursor_def)
    fix t :: store and rid assume t: "v \<in> set (deliveries t)"
    show "v \<in> set (deliveries (fst (deleteCandidate now name p rid t)))"
    proof (cases rule: deleteCandidate_cases [of name now p rid t])
      case event
      then have "queued v" using assms(3) by simp
      then have "\<not> event_expired now t e" if "e_outbox e = v_outbox v" for e
        using t that by (auto simp: event_expired_def exists_where_iff)
      then show ?thesis using t by (auto simp: event(2) deleteEvent_fst set_delete_where)
    qed (use t in \<open>simp add: deleteReceipt_fst\<close>)
  qed
  then show ?thesis by (simp add: s')
qed (use assms in simp)

text \<open>Every other call leaves the delivery as it is.\<close>

lemma untouched:
  assumes inv: "store_inv s" and v: "v \<in> set (deliveries s)" and c: "\<not> touches c v"
  shows "v \<in> set (deliveries (exec_call E c s))"
proof -
  note keys = store_invD(1) [OF inv]
  have kept: "v \<in> set (deliveries (fst (run_tx f s)))"
    if "\<And>s' a. f s = Inr (s', a) \<Longrightarrow> v \<in> set (deliveries s')" for f :: "store \<Rightarrow> (store \<times> 'b) result"
    using that v by (cases "f s") (auto simp: run_tx_def)
  have grown: "v \<in> set (deliveries (fst (run_tx f s)))" if "\<And>s' a. f s = Inr (s', a) \<Longrightarrow> grows s s'"
    for f :: "store \<Rightarrow> (store \<times> 'b) result"
  proof -
    have "grows s (fst (run_tx f s))" by (rule grows_tx) (rule that)
    then show ?thesis using v by (auto simp: grows_def)
  qed
  have finish: "v \<in> set (deliveries s')" if "finishDelivery ob dest owner f s = Inr (s', u)" "\<not> holds_lease ob dest owner v"
    for ob dest owner f s' u
    using that v by (auto simp: finishDelivery_def split: if_splits intro: update_where_miss)
  show ?thesis
  proof (cases c)
    case (CallApply commit readable frame now)
    then show ?thesis using grows_apply [OF inv, of E commit readable frame now] v
      by (auto simp: exec_call_def grows_def)
  next
    case (CallPurge j force)
    then show ?thesis using c v
      by (auto simp: exec_call_def touches_def PurgeDeploymentSafe_def deleteDeployment_def set_delete_where
          split: if_splits intro!: kept)
  next
    case (CallClaim owner claimID now lease limit)
    then have "\<not> deliverable now v" using c by (simp add: touches_def)
    then have "v_rowid v \<notin> set (claim_ids now (nat limit) s)" using claim_ids_due [OF keys v] by blast
    then show ?thesis unfolding CallClaim exec_call_def store_call.case
      by (intro kept) (auto dest!: ClaimOutbox_Inr(1) intro: update_where_miss [OF v])
  next
    case (CallFailed ob dest owner m now nx k)
    then have nolease: "\<not> holds_lease ob dest owner v" using c by (simp add: touches_def)
    have "v \<in> set (deliveries s')" if "MarkDeliveryFailed ob dest owner m now nx k s = Inr (s', u)" for s' u
      using that finish [OF _ nolease] by (auto simp: MarkDeliveryFailed_def Let_def split: if_splits option.splits)
    then show ?thesis unfolding CallFailed exec_call_def store_call.case by (rule kept)
  next
    case (CallRetryDead ob dest now)
    then have "\<not> is_dead ob dest v" using c by (simp add: touches_def)
    then show ?thesis unfolding CallRetryDead exec_call_def store_call.case
      by (intro kept) (auto simp: RetryDeadDelivery_def split: if_splits intro: update_where_miss [OF v])
  next
    case (CallPrune now name slow p)
    then have "name = SweepTransactions \<or> queued v" using c by (cases name) (auto simp: touches_def)
    then show ?thesis unfolding CallPrune exec_call_def store_call.case
      by (intro kept) (rule prune_keeps_queued [OF _ v])
  next
    case (CallDelivered ob dest owner now)
    then have "\<not> holds_lease ob dest owner v" using c by (simp add: touches_def)
    then show ?thesis unfolding CallDelivered exec_call_def store_call.case
      by (intro kept) (auto simp: MarkDelivered_def intro: finish)
  next
    case (CallDefer ob dest owner nx)
    then have "\<not> holds_lease ob dest owner v" using c by (simp add: touches_def)
    then show ?thesis unfolding CallDefer exec_call_def store_call.case
      by (intro kept) (auto simp: DeferDelivery_finish intro: finish)
  qed (simp_all add: exec_call_def, (rule grown, auto simp: PauseDeployment_def ResumeDeployment_def
      RecordGenerationFailure_def RecordDeploymentFailure_def
      intro: grows_lifecycle grows_deploy grows_health)+)
qed

section \<open>Leases\<close>

text \<open>What the rest of the system may do while \<open>owner\<close> holds a lease until \<open>expires\<close>.\<close>

definition respects_lease :: "string \<Rightarrow> int \<Rightarrow> string \<Rightarrow> store_call \<Rightarrow> bool" where
  "respects_lease owner expires i c = (case c of
     CallPurge j force \<Rightarrow> j \<noteq> i
   | CallClaim o' claimID now lease limit \<Rightarrow> now < expires
   | CallDelivered outboxID dest o' now \<Rightarrow> o' \<noteq> owner
   | CallDefer outboxID dest o' nx \<Rightarrow> o' \<noteq> owner
   | CallFailed outboxID dest o' m now nx k \<Rightarrow> o' \<noteq> owner
   | _ \<Rightarrow> True)"


text \<open>A delivered row, and a call that is not a purge of its deployment or a sweep.\<close>

definition keeps_history :: "string \<Rightarrow> store_call \<Rightarrow> bool" where
  "keeps_history i c = (case c of
     CallPurge j force \<Rightarrow> j \<noteq> i
   | CallPrune now name slow p \<Rightarrow> name \<noteq> SweepOutbox
   | _ \<Rightarrow> True)"

text \<open>
  delivered is final.  A delivered row is never leased, sent, failed or changed again by
  any history of calls; only purging its deployment or an outbox sweep removes it.
\<close>

theorem delivered_final:
  assumes "v \<in> set (deliveries (run_calls E before empty_store))" and "v_status v = DlvDelivered"
    and "\<forall>c\<in>set later. keeps_history (v_deployment v) c"
  shows "v \<in> set (deliveries (run_calls E (before @ later) empty_store))"
  using assms(3,1)
proof (induction later arbitrary: before)
  case (Cons c later)
  have "\<not> touches c v"
    using Cons.prems(1) assms(2)
    by (cases c) (auto simp: touches_def keeps_history_def deliverable_def holds_lease_def is_dead_def)
  then have "v \<in> set (deliveries (run_calls E (before @ [c]) empty_store))"
    using untouched [OF reachable_inv Cons.prems(2)] by (simp add: run_calls_append)
  then show ?case using Cons.IH [of "before @ [c]"] Cons.prems(1) by simp
qed simp

text \<open>The sample history continued: the delivery is claimed, then delivered.\<close>

definition sample_sent :: "store_call list" where
  "sample_sent = sample_start @ [CallApply CommitOk True sample_frame 30, CallClaim ''w'' ''1'' 40 60000000 5]"

lemma sample_claimed:
  "deliveries (run_calls sample_env sample_sent empty_store) =
     [(hd (deliveries sample_applied))\<lparr>v_status := DlvSending, v_owner := Some ''w:1'', v_expires := Some 100\<rparr>]"
proof -
  have "run_calls sample_env sample_sent empty_store = exec_call sample_env (CallClaim ''w'' ''1'' 40 60000000 5) sample_applied"
    by (simp add: sample_sent_def run_calls_append exec_call_def sample_applied_def flip: sample_store_def)
  then show ?thesis
    by (simp add: exec_call_def run_tx_def ClaimOutbox_def claim_ids_def deliverable_def sample_applied_eq
        Let_def update_where_def count_where_def lease_row_def)
qed

lemma sample_final:
  "run_calls sample_env (sample_sent @ [CallDelivered ''out'' ''destination-1'' ''w:1'' 50]) empty_store =
     sample_applied\<lparr>deliveries := [(hd (deliveries sample_applied))\<lparr>v_status := DlvDelivered, v_delivered_at := Some 50\<rparr>]\<rparr>"
proof -
  have "run_calls sample_env sample_sent empty_store = exec_call sample_env (CallClaim ''w'' ''1'' 40 60000000 5) sample_applied"
    by (simp add: sample_sent_def run_calls_append exec_call_def sample_applied_def flip: sample_store_def)
  then show ?thesis
    by (simp add: run_calls_append exec_call_def run_tx_def ClaimOutbox_def claim_ids_def deliverable_def sample_applied_eq
        Let_def update_where_def count_where_def lease_row_def MarkDelivered_def finishDelivery_def holds_lease_def delivered_row_def)
qed


lemma delivered_final_witness:
  "(hd (deliveries sample_applied))\<lparr>v_status := DlvDelivered, v_delivered_at := Some 50\<rparr> \<in>
     set (deliveries (run_calls sample_env ((sample_sent @ [CallDelivered ''out'' ''destination-1'' ''w:1'' 50]) @
       [CallClaim ''x'' ''2'' 999 60000000 5]) empty_store))"
proof (rule delivered_final)
  show "(hd (deliveries sample_applied))\<lparr>v_status := DlvDelivered, v_delivered_at := Some 50\<rparr>
      \<in> set (deliveries (run_calls sample_env (sample_sent @ [CallDelivered ''out'' ''destination-1'' ''w:1'' 50]) empty_store))"
    by (simp add: run_calls_append exec_call_def run_tx_def MarkDelivered_def finishDelivery_def sample_claimed
        sample_applied_eq holds_lease_def count_where_def update_where_def delivered_row_def)
qed (simp_all add: keeps_history_def)

section \<open>Claims\<close>

lemma claim_ids_subset: "set (claim_ids now n s) \<subseteq> v_rowid ` {v \<in> set (deliveries s). deliverable now v}"
  using set_take_subset by (fastforce simp: claim_ids_def)

lemma claim_ids_distinct: "uniq v_rowid (deliveries s) \<Longrightarrow> distinct (claim_ids now n s)"
proof -
  assume u: "uniq v_rowid (deliveries s)"
  have "distinct (map v_rowid (filter (deliverable now) (deliveries s)))"
    using u by (simp add: uniq_def distinct_map_filter)
  then have "distinct (map v_rowid (sort_key v_next_at (filter (deliverable now) (deliveries s))))"
    by (simp only: distinct_map distinct_sort set_sort)
  then show ?thesis by (simp add: claim_ids_def)
qed

lemma claim_ids_count:
  assumes "uniq v_rowid (deliveries s)"
  shows "length (filter (\<lambda>v. v_rowid v \<in> set (claim_ids now n s)) (deliveries s)) =
    min n (count_where (deliverable now) (deliveries s))"
proof -
  let ?f = "filter (\<lambda>v. v_rowid v \<in> set (claim_ids now n s)) (deliveries s)"
  have "set (map v_rowid ?f) = set (claim_ids now n s)"
    using claim_ids_subset [of now n s] by auto
  moreover have "distinct (map v_rowid ?f)" using assms by (simp add: uniq_def distinct_map_filter)
  ultimately have "length (map v_rowid ?f) = length (claim_ids now n s)"
    using claim_ids_distinct [OF assms] by (metis distinct_card)
  then show ?thesis by (simp add: claim_ids_def count_where_def min.commute)
qed

lemma claim_join_Some:
  assumes inv: "store_inv s" and v: "v \<in> set (deliveries s)"
  shows "\<exists>c. claim_join owner expires s v = Some c \<and> cd_OutboxID c = v_outbox v \<and>
    cd_DestinationID c = v_destination v \<and> cd_AttemptCount c = v_attempts v \<and>
    cd_LeaseOwner c = owner \<and> cd_LeaseExpiresAt c = expires"
proof -
  obtain e where e: "find (\<lambda>e. e_outbox e = v_outbox v \<and> e_deployment e = v_deployment v) (events s) = Some e"
    using refs_okD(7) [OF store_invD(2) [OF inv] v]
    by (cases "find (\<lambda>e. e_outbox e = v_outbox v \<and> e_deployment e = v_deployment v) (events s)")
      (auto simp: find_None_iff)
  obtain b where b: "find (\<lambda>b. binding_key b = (v_deployment v, v_destination v, v_revision v)) (bindings s) = Some b"
    using refs_okD(8) [OF store_invD(2) [OF inv] v]
    by (cases "find (\<lambda>b. binding_key b = (v_deployment v, v_destination v, v_revision v)) (bindings s)")
      (auto simp: find_None_iff)
  have "e_deployment e \<in> d_id ` set (deployments s)"
    using refs_okD(6) [OF store_invD(2) [OF inv]] find_SomeD [OF e] by blast
  then obtain d where "find_deployment (e_deployment e) s = Some d"
    using find_deployment_iff [OF store_invD(1) [OF inv]] by auto
  then show ?thesis using e b by (simp add: claim_join_def)
qed

lemma ClaimOutbox_leases:
  assumes inv: "store_inv s" and op: "ClaimOutbox owner claimID now lease limit s = Inr (s', out)"
    and fresh: "\<forall>v\<in>set (deliveries s). v_owner v \<noteq> Some (owner @ '':'' @ claimID)"
  shows "length out = min (nat limit) (count_where (deliverable now) (deliveries s))"
    and "distinct (map (\<lambda>c. (cd_OutboxID c, cd_DestinationID c)) out)"
    and "\<forall>c\<in>set out. \<exists>v\<in>set (deliveries s). deliverable now v \<and>
      delivery_key v = (cd_OutboxID c, cd_DestinationID c) \<and> cd_AttemptCount c = v_attempts v \<and>
      lease_row (cd_LeaseOwner c) (cd_LeaseExpiresAt c) v \<in> set (deliveries s') \<and>
      cd_LeaseOwner c = owner @ '':'' @ claimID \<and> cd_LeaseExpiresAt c = now + lease div 1000000"
proof -
  let ?o = "owner @ '':'' @ claimID" and ?x = "now + lease div 1000000"
  let ?hit = "\<lambda>v. v_rowid v \<in> set (claim_ids now (nat limit) s)"
  let ?leased = "map (lease_row ?o ?x) (filter ?hit (deliveries s))"
  note eff = ClaimOutbox_Inr [OF op]
  have keys: "keys_ok s" and inv': "store_inv s'"
    using inv ClaimOutbox_inv [OF inv op] by (simp_all add: store_inv_def)
  have rows: "filter (\<lambda>v. v_status v = DlvSending \<and> v_owner v = Some ?o \<and> v_expires v = Some ?x) (deliveries s') = ?leased"
  proof -
    have "filter (\<lambda>v. v_status v = DlvSending \<and> v_owner v = Some ?o \<and> v_expires v = Some ?x)
        (update_where ?hit (lease_row ?o ?x) D) = map (lease_row ?o ?x) (filter ?hit D)"
      if "\<forall>v\<in>set D. v_owner v \<noteq> Some ?o" for D
      using that by (induction D) (auto simp: update_where_def lease_row_def)
    then show ?thesis using fresh by (simp add: eff(1))
  qed
  have out: "out = List.map_filter (claim_join ?o ?x s') (sort_key v_next_at ?leased)"
  proof (cases "count_where ?hit (deliveries s) = 0")
    case True
    then have "filter ?hit (deliveries s) = []" by (simp add: count_where_def)
    moreover have "out = []" using op True eff(2-4) by (simp add: ClaimOutbox_def Let_def)
    ultimately show ?thesis by (simp add: map_filter_simps)
  next
    case False
    then show ?thesis using op eff rows by (simp add: ClaimOutbox_def Let_def claimed_rows_def)
  qed
  have in_s': "v \<in> set (deliveries s')" if "v \<in> set ?leased" for v
    using that by (auto simp: eff(1) intro: update_where_hit)
  define J where "J = (\<lambda>v. the (claim_join ?o ?x s' v))"
  have J: "claim_join ?o ?x s' v = Some (J v)" "cd_OutboxID (J v) = v_outbox v"
    "cd_DestinationID (J v) = v_destination v" "cd_AttemptCount (J v) = v_attempts v"
    "cd_LeaseOwner (J v) = ?o" "cd_LeaseExpiresAt (J v) = ?x" if "v \<in> set ?leased" for v
    using claim_join_Some [OF inv' in_s' [OF that], of ?o ?x] by (auto simp: J_def)
  have mapped: "out = map J (sort_key v_next_at ?leased)"
  proof -
    have "List.map_filter (claim_join ?o ?x s') vs = map J vs" if "set vs \<subseteq> set ?leased" for vs
      using that J(1) by (induction vs) (simp_all add: map_filter_simps del: set_map set_filter)
    then show ?thesis using out by simp
  qed
  show "length out = min (nat limit) (count_where (deliverable now) (deliveries s))"
    using claim_ids_count [of s now "nat limit"] keys by (simp add: mapped keys_ok_def)
  show "\<forall>c\<in>set out. \<exists>v\<in>set (deliveries s). deliverable now v \<and>
      delivery_key v = (cd_OutboxID c, cd_DestinationID c) \<and> cd_AttemptCount c = v_attempts v \<and>
      lease_row (cd_LeaseOwner c) (cd_LeaseExpiresAt c) v \<in> set (deliveries s') \<and>
      cd_LeaseOwner c = ?o \<and> cd_LeaseExpiresAt c = ?x"
  proof
    fix c assume "c \<in> set out"
    then obtain v where v: "v \<in> set (deliveries s)" "?hit v" "c = J (lease_row ?o ?x v)"
      by (auto simp: mapped)
    then have l: "lease_row ?o ?x v \<in> set ?leased" by simp
    show "\<exists>v\<in>set (deliveries s). deliverable now v \<and>
        delivery_key v = (cd_OutboxID c, cd_DestinationID c) \<and> cd_AttemptCount c = v_attempts v \<and>
        lease_row (cd_LeaseOwner c) (cd_LeaseExpiresAt c) v \<in> set (deliveries s') \<and>
        cd_LeaseOwner c = ?o \<and> cd_LeaseExpiresAt c = ?x"
      using claim_ids_due [OF keys v(1,2)] J(2-6) [OF l] in_s' [OF l] v(1,3) by (intro bexI [of _ v]) simp_all
  qed
  have "distinct (map delivery_key ?leased)"
    using keys by (simp add: comp_def keys_ok_def uniq_def distinct_map_filter)
  then have "distinct (map delivery_key (sort_key v_next_at ?leased))"
    by (simp only: distinct_map distinct_sort set_sort)
  moreover have "map (\<lambda>c. (cd_OutboxID c, cd_DestinationID c)) out = map delivery_key (sort_key v_next_at ?leased)"
    using J(2,3) by (simp add: mapped comp_def)
  ultimately show "distinct (map (\<lambda>c. (cd_OutboxID c, cd_DestinationID c)) out)" by simp
qed

text \<open>
  C8: a claim takes exactly what is due.  With a fresh claim id, \<open>ClaimOutbox\<close> returns as many
  deliveries as are due, up to its limit; each is a different row that was due, with the
  attempts it has used, and is now leased to the returned owner until the returned expiry.
\<close>

theorem claim_exact:
  assumes inv: "store_inv s" and op: "ClaimOutbox owner claimID now lease limit s = Inr (s', out)"
    and fresh: "\<forall>v\<in>set (deliveries s). v_owner v \<noteq> Some (owner @ '':'' @ claimID)"
  shows "(length out = min (nat limit) (count_where (deliverable now) (deliveries s))) \<and>
    (distinct (map (\<lambda>c. (cd_OutboxID c, cd_DestinationID c)) out)) \<and>
    (\<forall>c\<in>set out. \<exists>v\<in>set (deliveries s). deliverable now v \<and>
      delivery_key v = (cd_OutboxID c, cd_DestinationID c) \<and> cd_AttemptCount c = v_attempts v \<and>
      lease_row (cd_LeaseOwner c) (cd_LeaseExpiresAt c) v \<in> set (deliveries s') \<and>
      cd_LeaseOwner c = owner @ '':'' @ claimID \<and> cd_LeaseExpiresAt c = now + lease div 1000000)"
  using ClaimOutbox_leases [OF assms] by (rule conj_3)

lemma claim_exact_witness:
  "\<exists>s' out. ClaimOutbox ''w'' ''1'' 40 60000000 5 sample_applied = Inr (s', out) \<and> length out = 1"
proof -
  have "\<exists>p. ClaimOutbox ''w'' ''1'' 40 60000000 5 sample_applied = Inr p" by (simp add: ClaimOutbox_def Let_def)
  then obtain s' out where op: "ClaimOutbox ''w'' ''1'' 40 60000000 5 sample_applied = Inr (s', out)" by auto
  have "length out = min (nat 5) (count_where (deliverable 40) (deliveries sample_applied))"
    by (rule claim_exact [OF sample_inv(2) op, THEN conjunct1]) (simp add: sample_applied_eq)
  then show ?thesis using op by (simp add: sample_applied_eq count_where_def deliverable_def)
qed

section \<open>Settling\<close>

text \<open>
  settling needs the lease.  If no row is leased to the caller, none of the three settling
  calls changes anything and each returns \<open>ErrLeaseLost\<close>.
\<close>

theorem settle_needs_lease:
  assumes "\<forall>v\<in>set (deliveries s). \<not> holds_lease outboxID dest owner v"
  shows "(run_tx (MarkDelivered outboxID dest owner now) s = (s, Inl ErrLeaseLost)) \<and>
    (run_tx (DeferDelivery outboxID dest owner nx) s = (s, Inl ErrLeaseLost)) \<and>
    (1 \<le> k \<longrightarrow> run_tx (MarkDeliveryFailed outboxID dest owner m now nx k) s = (s, Inl ErrLeaseLost))"
proof (rule conj_3; (intro impI)?)
  have none: "count_where (holds_lease outboxID dest owner) (deliveries s) = 0"
    "find (holds_lease outboxID dest owner) (deliveries s) = None"
    using assms by (simp_all add: count_where_0 find_None_iff)
  show "run_tx (MarkDelivered outboxID dest owner now) s = (s, Inl ErrLeaseLost)"
    "run_tx (DeferDelivery outboxID dest owner nx) s = (s, Inl ErrLeaseLost)"
    "1 \<le> k \<Longrightarrow> run_tx (MarkDeliveryFailed outboxID dest owner m now nx k) s = (s, Inl ErrLeaseLost)"
    using none by (simp_all add: run_tx_def MarkDelivered_def finishDelivery_def DeferDelivery_def
      MarkDeliveryFailed_def Let_def)
qed

lemma settle_needs_lease_witness:
  "run_tx (MarkDelivered ''out'' ''destination-1'' ''w:1'' 50) sample_applied = (sample_applied, Inl ErrLeaseLost)"
  by (rule settle_needs_lease [THEN conjunct1]) (simp add: sample_applied_eq holds_lease_def)

lemma lease_found:
  assumes inv: "store_inv s" and v: "v \<in> set (deliveries s)" and lease: "holds_lease outboxID dest owner v"
  shows "count_where (holds_lease outboxID dest owner) (deliveries s) = 1"
    and "find (holds_lease outboxID dest owner) (deliveries s) = Some v"
    and "f v \<in> set (update_where (holds_lease outboxID dest owner) f (deliveries s))"
proof -
  have u: "uniq delivery_key (deliveries s)" using inv by (simp add: store_inv_def keys_ok_def)
  show "count_where (holds_lease outboxID dest owner) (deliveries s) = 1"
    using lease by (intro count_where_uniq [where k = delivery_key, OF u v]) (auto simp: holds_lease_def)
  show "find (holds_lease outboxID dest owner) (deliveries s) = Some v"
    using lease by (intro find_uniq [where k = delivery_key, OF u v]) (auto simp: holds_lease_def)
  show "f v \<in> set (update_where (holds_lease outboxID dest owner) f (deliveries s))"
    by (rule update_where_hit [where P = "holds_lease outboxID dest owner", OF v lease])
qed

text \<open>
  attempt accounting.  Settling with the lease succeeds and changes that one row: a failure
  costs one attempt and is final exactly when the attempts reach the maximum, with an error text
  of at most 16 KiB; a deferral costs none; a delivery clears the error.  The lease is released
  every time, so a row fails at most the maximum number of times.
\<close>

theorem attempt_accounting:
  assumes inv: "store_inv s" and v: "v \<in> set (deliveries s)" and lease: "holds_lease outboxID dest owner v"
  shows "(\<exists>s'. MarkDeliveryFailed outboxID dest owner m now nx (int (Suc k)) s = Inr (s', ()) \<and>
      (\<exists>v'\<in>set (deliveries s'). delivery_key v' = delivery_key v \<and> v_attempts v' = v_attempts v + 1 \<and>
         v_owner v' = None \<and> length (v_error v') \<le> 16384 \<and>
         v_status v' = (if int k \<le> v_attempts v then DlvDead else DlvPending) \<and>
         (v_status v' = DlvPending \<longrightarrow> v_next_at v' = nx))) \<and>
    (\<exists>s'. DeferDelivery outboxID dest owner nx s = Inr (s', ()) \<and>
      v\<lparr>v_status := DlvPending, v_next_at := nx, v_owner := None, v_expires := None\<rparr> \<in> set (deliveries s')) \<and>
    (\<exists>s'. MarkDelivered outboxID dest owner now s = Inr (s', ()) \<and>
      v\<lparr>v_status := DlvDelivered, v_delivered_at := Some now, v_owner := None, v_expires := None,
        v_error := []\<rparr> \<in> set (deliveries s'))"
proof (rule conj_3)
  note one = lease_found(1) [OF assms] and found = lease_found(2) [OF assms] and hit = lease_found(3) [OF assms]
  let ?m = "boundedText m 16384"
  show "\<exists>s'. MarkDeliveryFailed outboxID dest owner m now nx (int (Suc k)) s = Inr (s', ()) \<and>
      (\<exists>v'\<in>set (deliveries s'). delivery_key v' = delivery_key v \<and> v_attempts v' = v_attempts v + 1 \<and>
         v_owner v' = None \<and> length (v_error v') \<le> 16384 \<and>
         v_status v' = (if int k \<le> v_attempts v then DlvDead else DlvPending) \<and>
         (v_status v' = DlvPending \<longrightarrow> v_next_at v' = nx))"
  proof (cases "int k \<le> v_attempts v")
    case True
    then show ?thesis using one found boundedText_length [of m 16384]
      by (simp add: MarkDeliveryFailed_def finishDelivery_def Let_def)
        (rule bexI [OF _ hit], simp add: dead_row_def)
  next
    case False
    then show ?thesis using one found boundedText_length [of m 16384]
      by (simp add: MarkDeliveryFailed_def finishDelivery_def Let_def)
        (rule bexI [OF _ hit], simp add: retry_row_def)
  qed
  show "\<exists>s'. DeferDelivery outboxID dest owner nx s = Inr (s', ()) \<and>
      v\<lparr>v_status := DlvPending, v_next_at := nx, v_owner := None, v_expires := None\<rparr> \<in> set (deliveries s')"
    using hit [of "deferred_delivery nx"] one by (simp add: DeferDelivery_def deferred_delivery_def)
  show "\<exists>s'. MarkDelivered outboxID dest owner now s = Inr (s', ()) \<and>
      v\<lparr>v_status := DlvDelivered, v_delivered_at := Some now, v_owner := None, v_expires := None,
        v_error := []\<rparr> \<in> set (deliveries s')"
    using hit [of "delivered_row now"] one by (simp add: MarkDelivered_def finishDelivery_def delivered_row_def)
qed

lemma attempt_accounting_witness:
  "\<exists>s'. MarkDeliveryFailed ''out'' ''destination-1'' ''w:1'' ''timeout'' 50 90 (int (Suc 0))
      (run_calls sample_env sample_sent empty_store) = Inr (s', ()) \<and>
    (\<exists>v'\<in>set (deliveries s'). v_attempts v' = 1 \<and> v_status v' = DlvDead)"
  using attempt_accounting [OF reachable_inv [of sample_env sample_sent], THEN conjunct1, of
      "(hd (deliveries sample_applied))\<lparr>v_status := DlvSending, v_owner := Some ''w:1'', v_expires := Some 100\<rparr>"
      "''out''" "''destination-1''" "''w:1''" "''timeout''" 50 90 0]
  by (auto simp: sample_claimed sample_applied_eq holds_lease_def)

section \<open>Retention\<close>

text \<open>Whether an event is past its deployment's retention.\<close>

definition outlived :: "int \<Rightarrow> store \<Rightarrow> event_row \<Rightarrow> bool" where
  "outlived now s e \<longleftrightarrow> (\<exists>d. find_deployment (e_deployment e) s = Some d \<and> e_created_at e < now - d_retention_ms d)"

definition no_queued :: "store \<Rightarrow> event_row \<Rightarrow> bool" where
  "no_queued s e \<longleftrightarrow> (\<forall>v\<in>set (deliveries s). v_outbox v = e_outbox e \<longrightarrow> \<not> queued v)"

lemma prune_events_gone:
  assumes op: "prune_page now name slow p s = Inr (s', r)"
  shows "deployments s' = deployments s \<and> (\<forall>e\<in>set (events s). e \<in> set (events s') \<or> outlived now s e \<and> no_queued s e) \<and>
    (\<forall>v\<in>set (deliveries s). queued v \<longrightarrow> v \<in> set (deliveries s'))"
proof (rule prune_page_induct [OF op])
  fix t :: store and rid
  assume t: "deployments t = deployments s \<and> (\<forall>e\<in>set (events s). e \<in> set (events t) \<or> outlived now s e \<and> no_queued s e) \<and>
    (\<forall>v\<in>set (deliveries s). queued v \<longrightarrow> v \<in> set (deliveries t))"
  let ?t = "fst (deleteCandidate now name p rid t)"
  have lost: "outlived now s e \<and> no_queued s e" if "event_expired now t e" for e
  proof -
    have "find_deployment (e_deployment e) t = find_deployment (e_deployment e) s"
      using t by (simp add: find_deployment_def)
    then show ?thesis using that t
      by (auto simp: event_expired_def exists_where_iff outlived_def no_queued_def split: option.splits)
  qed
  have ev: "e \<in> set (events ?t) \<or> event_expired now t e" if "e \<in> set (events t)" for e
    using that by (cases rule: deleteCandidate_cases [of name now p rid t])
      (auto simp: deleteEvent_fst deleteReceipt_fst set_delete_where)
  have dv: "v \<in> set (deliveries ?t)" if "v \<in> set (deliveries s)" "queued v" for v
  proof (cases rule: deleteCandidate_cases [of name now p rid t])
    case event
    then show ?thesis using t that lost by (auto simp: deleteEvent_fst set_delete_where no_queued_def)
  qed (use t that in \<open>simp add: deleteReceipt_fst\<close>)
  show "deployments ?t = deployments s \<and> (\<forall>e\<in>set (events s). e \<in> set (events ?t) \<or> outlived now s e \<and> no_queued s e) \<and>
    (\<forall>v\<in>set (deliveries s). queued v \<longrightarrow> v \<in> set (deliveries ?t))"
    using t lost ev dv by (simp add: deleteCandidate_tables) blast
qed simp_all

lemma prune_receipts_gone:
  assumes op: "prune_page now name slow p s = Inr (s', r)"
  shows "generations s' = generations s \<and> (\<forall>x\<in>set (transactions s). x \<in> set (transactions s') \<or>
    (\<exists>g\<in>set (generations s). gen_key g = (t_deployment x, t_generation x) \<and> long_retired now g))"
proof (rule prune_page_induct [OF op])
  fix t :: store and rid
  assume t: "generations t = generations s \<and> (\<forall>x\<in>set (transactions s). x \<in> set (transactions t) \<or>
    (\<exists>g\<in>set (generations s). gen_key g = (t_deployment x, t_generation x) \<and> long_retired now g))"
  let ?t = "fst (deleteCandidate now name p rid t)"
  have "x \<in> set (transactions ?t) \<or> receipt_prunable now t x" if "x \<in> set (transactions t)" for x
    using that by (cases rule: deleteCandidate_cases [of name now p rid t])
      (auto simp: deleteEvent_fst deleteReceipt_fst set_delete_where)
  moreover have "\<exists>g\<in>set (generations s). gen_key g = (t_deployment x, t_generation x) \<and> long_retired now g"
    if "receipt_prunable now t x" for x
    using that t by (auto simp: receipt_prunable_def exists_where_iff)
  ultimately show "generations ?t = generations s \<and> (\<forall>x\<in>set (transactions s). x \<in> set (transactions ?t) \<or>
    (\<exists>g\<in>set (generations s). gen_key g = (t_deployment x, t_generation x) \<and> long_retired now g))"
    using t by (simp add: deleteCandidate_tables) blast
qed simp_all

text \<open>
  C10: pruning removes only what is no longer needed.  Whatever page the writer is given, however
  stale: an event is removed only past its deployment's retention with no delivery of it pending
  or being sent, a delivery only with its event, a receipt only if its generation has been
  retired for a week and no remaining event refers to it; no other table changes.
\<close>

theorem prune_safe:
  assumes inv: "store_inv s" and op: "prune_page now name slow p s = Inr (s', r)"
  shows "(e \<in> set (events s) \<longrightarrow> e \<notin> set (events s') \<longrightarrow>
      (\<exists>d. find_deployment (e_deployment e) s = Some d \<and> e_created_at e < now - d_retention_ms d) \<and>
      (\<forall>v\<in>set (deliveries s). v_outbox v = e_outbox e \<longrightarrow> v_status v = DlvDelivered \<or> v_status v = DlvDead)) \<and>
    (v \<in> set (deliveries s) \<longrightarrow> v \<notin> set (deliveries s') \<longrightarrow> v_status v = DlvDelivered \<or> v_status v = DlvDead) \<and>
    (t \<in> set (transactions s) \<longrightarrow> t \<notin> set (transactions s') \<longrightarrow>
      (\<exists>g. find_generation (t_deployment t) (t_generation t) s = Some g \<and> g_status g = GenRetired \<and>
         g_retired_at g \<noteq> None \<and> the (g_retired_at g) < now - 604800000)) \<and>
    (deployments s' = deployments s \<and> generations s' = generations s)"
proof (rule conj_4; (intro impI)?)
  have settled: "v_status v = DlvDelivered \<or> v_status v = DlvDead" if "\<not> queued v" for v
    using that by (cases "v_status v") (auto simp: queued_def)
  have kept: "v \<in> set (deliveries s')" if "v \<in> set (deliveries s)" "queued v" for v
    by (rule prune_keeps_queued [OF op that(1)]) (simp add: that(2))
  note events = prune_events_gone [OF op] and receipts = prune_receipts_gone [OF op]
  show "(\<exists>d. find_deployment (e_deployment e) s = Some d \<and> e_created_at e < now - d_retention_ms d) \<and>
      (\<forall>v\<in>set (deliveries s). v_outbox v = e_outbox e \<longrightarrow> v_status v = DlvDelivered \<or> v_status v = DlvDead)"
    if "e \<in> set (events s)" "e \<notin> set (events s')"
    using events that settled unfolding outlived_def no_queued_def by blast
  show "v_status v = DlvDelivered \<or> v_status v = DlvDead" if "v \<in> set (deliveries s)" "v \<notin> set (deliveries s')"
    using kept that settled by blast
  show "\<exists>g. find_generation (t_deployment t) (t_generation t) s = Some g \<and> g_status g = GenRetired \<and>
         g_retired_at g \<noteq> None \<and> the (g_retired_at g) < now - 604800000"
    if t: "t \<in> set (transactions s)" "t \<notin> set (transactions s')"
  proof -
    obtain g where "g \<in> set (generations s)" "gen_key g = (t_deployment t, t_generation t)" "long_retired now g"
      using receipts t by blast
    then show ?thesis
      by (intro exI [of _ g]) (simp add: find_generation_iff [OF store_invD(1) [OF inv]] long_retired_def retired_cutoff_def)
  qed
  show "deployments s' = deployments s \<and> generations s' = generations s" using events receipts by blast
qed

lemma prune_safe_witness:
  "\<exists>s' r. prune_page 9000000 SweepOutbox (\<lambda>_. False)
      \<lparr>pg_before = zero_cursor, pg_next = zero_cursor\<lparr>mc_through := 1\<rparr>, pg_ids = [(1, True)],
       pg_deployment = [], pg_generation = 0, pg_complete = False\<rparr>
      (run_calls sample_env (sample_sent @ [CallDelivered ''out'' ''destination-1'' ''w:1'' 50]) empty_store) = Inr (s', r) \<and>
    v_status (hd (deliveries
      (run_calls sample_env (sample_sent @ [CallDelivered ''out'' ''destination-1'' ''w:1'' 50]) empty_store))) = DlvDelivered \<and>
    deliveries s' = []"
proof -
  let ?s = "run_calls sample_env (sample_sent @ [CallDelivered ''out'' ''destination-1'' ''w:1'' 50]) empty_store"
  let ?p = "\<lparr>pg_before = zero_cursor, pg_next = zero_cursor\<lparr>mc_through := 1\<rparr>, pg_ids = [(1, True)],
       pg_deployment = [], pg_generation = 0, pg_complete = False\<rparr>"
  let ?v = "(hd (deliveries sample_applied))\<lparr>v_status := DlvDelivered, v_delivered_at := Some 50\<rparr>"
  have s: "deliveries ?s = [?v]" "events ?s = events sample_applied" "deployments ?s = deployments sample_applied"
    "cursors ?s = []"
    by (simp_all add: sample_final sample_applied_eq(5))
  obtain s' r where op: "prune_page 9000000 SweepOutbox (\<lambda>_. False) ?p ?s = Inr (s', r)" and "deliveries s' = []"
    by (simp add: prune_page_def prune_write_def s exists_where_def readCursor_def zero_cursor_def cursor_row_of_def
        deleteCandidate_def deleteEvent_def event_expired_def queued_def find_deployment_def sample_applied_eq
        delete_where_def pass_candidate_def cursor_check_def Let_def)
  then show ?thesis
    using prune_safe [OF reachable_inv op, of _ ?v, THEN conjunct2, THEN conjunct1] s(1) by auto
qed

section \<open>The sweep ends\<close>

text \<open>How many events the current outbox sweep still has to visit.\<close>

definition sweep_left :: "store \<Rightarrow> nat" where
  "sweep_left s = (let c = readCursor SweepOutbox s in
     if mc_through c = 0 then length (events_between 0 (maxRowid SweepOutbox s) s)
     else length (events_between (mc_after c) (mc_through c) s))"

lemma prune_loop_outbox:
  "prune_loop now SweepOutbox p slow ids (s, c, k, n) = (s', c', k', n') \<Longrightarrow>
   (if ids = [] then c' = c else mc_after c' \<in> fst ` set ids \<and> c' = c\<lparr>mc_after := mc_after c'\<rparr>) \<and>
   (\<exists>Q. events s' = filter Q (events s)) \<and> cursors s' = cursors s"
proof (induction ids arbitrary: s c k n)
  case Nil
  then show ?case by (auto intro: exI [of _ "\<lambda>_. True"])
next
  case (Cons a rest)
  obtain rid eligible where a: "a = (rid, eligible)" by (cases a)
  obtain t m where del: "deleteCandidate now SweepOutbox p rid s = (t, m)"
    by (cases "deleteCandidate now SweepOutbox p rid s")
  let ?t = "if eligible then t else s" and ?c = "c\<lparr>mc_after := rid\<rparr>"
  have t: "\<exists>Q. events ?t = filter Q (events s)" "cursors ?t = cursors s"
  proof -
    have "t = fst (deleteEvent now rid s)" using del by (simp add: deleteCandidate_def)
    then show "\<exists>Q. events ?t = filter Q (events s)" "cursors ?t = cursors s"
      by (auto simp: deleteEvent_fst delete_where_def intro: exI [of _ "\<lambda>_. True"])
  qed
  consider (stop) "s' = ?t" "c' = ?c"
    | (go) k n where "prune_loop now SweepOutbox p slow rest (?t, ?c, k, n) = (s', c', k', n')"
    using Cons.prems del by (simp add: a pass_candidate_def Let_def split: if_splits)
  then show ?case
  proof cases
    case stop
    then show ?thesis using t by (simp add: a)
  next
    case go
    from Cons.IH [OF this] t show ?thesis
      by (auto simp: a split: if_splits)
  qed
qed

lemma filter_fewer:
  assumes PR: "\<And>x. P x \<Longrightarrow> R x" and e: "e \<in> set xs" "R e" "\<not> P e"
  shows "length (filter P (filter Q xs)) < length (filter R xs)"
proof -
  have "length (filter P (filter Q xs)) \<le> length (filter P xs)" by (induction xs) auto
  moreover have le: "length (filter P ys) \<le> length (filter R ys)" for ys by (induction ys) (auto simp: PR)
  have "length (filter P xs) < length (filter R xs)"
    using e(1)
  proof (induction xs)
    case (Cons x xs)
    then show ?case using le [of xs] e(2,3) PR [of x] by auto
  qed simp
  ultimately show ?thesis by simp
qed

lemma readCursor_with: "readCursor name (with_cursor name s) = readCursor name s"
  by (auto simp: with_cursor_def readCursor_def exists_where_iff find_append cursor_row_of_def zero_cursor_def
      find_None_iff dest!: find_SomeD split: option.splits)

lemma with_cursor_present: "\<exists>m\<in>set (cursors (with_cursor name s)). m_name m = name"
  by (cases "exists_where (\<lambda>m. m_name m = name) (cursors s)")
    (auto simp: with_cursor_def exists_where_iff cursor_row_of_def)

lemma readCursor_written:
  assumes "\<exists>m\<in>set (cursors s). m_name m = name"
    and "cursors s' = update_where (\<lambda>m. m_name m = name) (\<lambda>_. cursor_row_of name c) (cursors s)"
  shows "readCursor name s' = c"
proof -
  obtain m where m: "find (\<lambda>m. m_name m = name) (cursors s) = Some m"
    using assms(1) by (cases "find (\<lambda>m. m_name m = name) (cursors s)") (simp_all add: find_None_iff)
  have row: "m_name (cursor_row_of name c) = name" by (simp add: cursor_row_of_def)
  have "find (\<lambda>m. m_name m = name) (cursors s') = Some (cursor_row_of name c)"
    unfolding assms(2) by (subst find_update_where_same) (use m find_SomeD [OF m] row in auto)
  then show ?thesis by (simp add: readCursor_def cursor_row_of_def)
qed

text \<open>
  C11: an outbox sweep ends.  Every slice of \<open>PruneTerminalOutbox\<close> that reports more work has
  strictly fewer events left to visit, whatever is slow and however many candidates are
  protected; so a sweep over \<open>n\<close> events reports completion within \<open>n + 1\<close> slices.
\<close>

theorem sweep_progress:
  assumes op: "PruneTerminalOutbox now slow s = Inr (s', r)" and more: "pr_More r"
  shows "sweep_left s' < sweep_left s"
proof -
  let ?b = "readCursor SweepOutbox s"
  let ?c = "if mc_through ?b = 0 then zero_cursor\<lparr>mc_through := maxRowid SweepOutbox s\<rparr> else ?b"
  let ?es = "events_between (mc_after ?c) (mc_through ?c) s"
  let ?ids = "map (\<lambda>e. (e_rowid e, event_expired now s e)) (take maintenanceBatchSize ?es)"
  define p where "p = discoverMaintenance now SweepOutbox s"
  have page: "prune_page now SweepOutbox slow p s = Inr (s', r)"
    using op by (simp add: PruneTerminalOutbox_def prune_def p_def)
  have before: "pg_before p = ?b"
    by (simp add: p_def discoverMaintenance_def discoverOutbox_def Let_def)
  have due: "\<not> (mc_through ?b = 0 \<and> now < mc_next ?b)"
    using page more before by (auto simp: prune_page_def)
  have p: "pg_next p = ?c" "pg_ids p = ?ids" "pg_complete p = (?ids = [])"
    using due by (auto simp: p_def discoverMaintenance_def discoverOutbox_def Let_def)
  note cur = readCursor_with [of SweepOutbox s]
  obtain s1 c k n where loop: "prune_loop now SweepOutbox p slow ?ids (with_cursor SweepOutbox s, ?c, 0, 0) = (s1, c, k, n)"
    by (rule prod_cases4)
  have wr: "prune_write now SweepOutbox slow p s = Inr (s', r)" using page due before by (auto simp: prune_page_def)
  then have ids: "?ids \<noteq> []" and s': "s' = s1\<lparr>cursors := update_where (\<lambda>m. m_name m = SweepOutbox) (\<lambda>_. cursor_row_of SweepOutbox c) (cursors s1)\<rparr>"
    using more cur before p loop
    by (auto simp: prune_write_def Let_def with_cursor_def [symmetric] split: if_splits)
  note eff = prune_loop_outbox [OF loop]
  obtain e where e: "e \<in> set ?es" "mc_after c = e_rowid e" and c: "c = ?c\<lparr>mc_after := mc_after c\<rparr>"
    using eff ids by (auto dest!: in_set_takeD split: if_splits)
  obtain Q where Q: "events s1 = filter Q (events s)"
    using eff by (auto simp: with_cursor_def)
  have range: "e \<in> set (events s)" "mc_after ?c < e_rowid e" "e_rowid e \<le> mc_through ?c"
    using e(1) by (auto simp: events_between_def)
  have through: "mc_through c = mc_through ?c" by (subst c) simp
  have "0 \<noteq> mc_through ?c" using range by (auto simp: zero_cursor_def split: if_splits)
  have left: "sweep_left s = length (filter (\<lambda>e. mc_after ?c < e_rowid e \<and> e_rowid e \<le> mc_through ?c) (events s))"
    by (simp add: sweep_left_def events_between_def zero_cursor_def Let_def)
  have "\<exists>m\<in>set (cursors s1). m_name m = SweepOutbox"
    using with_cursor_present [of SweepOutbox s] by (simp only: conjunct2 [OF conjunct2 [OF eff]])
  then have "readCursor SweepOutbox s' = c" by (rule readCursor_written) (simp add: s')
  then have "sweep_left s' = length (filter (\<lambda>x. e_rowid e < e_rowid x \<and> e_rowid x \<le> mc_through ?c) (filter Q (events s)))"
    using \<open>0 \<noteq> mc_through ?c\<close> through e(2) Q
    by (simp add: sweep_left_def events_between_def Let_def s')
  also have "\<dots> < sweep_left s"
    unfolding left by (rule filter_fewer [where e = e]) (use range in auto)
  finally show ?thesis .
qed

lemma sweep_progress_witness:
  "\<exists>s' r. PruneTerminalOutbox 40 (\<lambda>_. False) sample_applied = Inr (s', r) \<and> pr_More r \<and>
    sweep_left s' < sweep_left sample_applied"
proof -
  have "\<exists>s' r. PruneTerminalOutbox 40 (\<lambda>_. False) sample_applied = Inr (s', r) \<and> pr_More r"
    by (simp add: PruneTerminalOutbox_def prune_def prune_page_def prune_write_def discoverMaintenance_def
        discoverOutbox_def events_between_def maxRowid_def readCursor_def zero_cursor_def sample_applied_eq
        exists_where_def cursor_row_of_def event_expired_def queued_def find_deployment_def pass_candidate_def
        cursor_check_def maintenanceBatchSize_def Let_def)
  then show ?thesis using sweep_progress by blast
qed

end
