(* ===== verification/Mentions.thy ===== *)
theory Mentions
  imports GoStrings
begin

text \<open>
  The text half of \<open>internal/delivery/discord.go\<close>: mention specs (\<open>user:ID\<close>, \<open>role:ID\<close>,
  \<open>here\<close>, \<open>everyone\<close>), their storable and their rendered form, and \<open>truncate\<close>, which cuts
  a text at a number of runes.

  A \<open>MentionKind\<close> is a Go string; \<open>MentionOther\<close> is a kind no parser produces, so that the
  default branches of the code are branches here.  The lemmas show that truncation never
  exceeds its limit and never cuts a rune, and that parsing inverts printing.
\<close>

section \<open>Identifiers\<close>

definition isSnowflake :: "string \<Rightarrow> bool" where
  "isSnowflake value =
     (if length value < 5 \<or> length value > 25 then False
      else list_all (\<lambda>p. \<not> (fst p < 48 \<or> fst p > 57)) (runes value))"

definition isAccountName :: "string \<Rightarrow> bool" where
  "isAccountName value =
     (if length value = 0 \<or> length value > 64 then False
      else list_all (\<lambda>p. \<not> ((fst p < 97 \<or> fst p > 122) \<and> (fst p < 65 \<or> fst p > 90) \<and>
        (fst p < 48 \<or> fst p > 57) \<and> fst p \<noteq> 45 \<and> fst p \<noteq> 95)) (runes value))"

section \<open>Mentions\<close>

datatype MentionKind = MentionUser | MentionRole | MentionHere | MentionEveryone | MentionOther string

record Mention =
  mn_Kind :: MentionKind
  mn_ID :: string

definition kind_string :: "MentionKind \<Rightarrow> string" where
  "kind_string k = (case k of MentionUser \<Rightarrow> ''user'' | MentionRole \<Rightarrow> ''role''
     | MentionHere \<Rightarrow> ''here'' | MentionEveryone \<Rightarrow> ''everyone'' | MentionOther s \<Rightarrow> s)"

definition ParseMention :: "string \<Rightarrow> Mention result" where
  "ParseMention raw =
     (let v = TrimSpace raw in
      if v = ''here'' then Inr \<lparr>mn_Kind = MentionHere, mn_ID = ''''\<rparr>
      else if v = ''everyone'' then Inr \<lparr>mn_Kind = MentionEveryone, mn_ID = ''''\<rparr>
      else case cut_at (CHR '':'') v of
        None \<Rightarrow> Inl (Errorf ''invalid mention'')
      | Some (kind, i) \<Rightarrow>
          if \<not> isSnowflake i then Inl (Errorf ''invalid mention: not a Discord ID'')
          else if kind = ''user'' then Inr \<lparr>mn_Kind = MentionUser, mn_ID = i\<rparr>
          else if kind = ''role'' then Inr \<lparr>mn_Kind = MentionRole, mn_ID = i\<rparr>
          else Inl (Errorf ''unsupported mention kind''))"

definition MentionNone :: string where
  "MentionNone = ''none''"

fun ParseMention_list :: "string list \<Rightarrow> Mention list result" where
  "ParseMention_list [] = Inr []"
| "ParseMention_list (part # parts) =
     (if TrimSpace part = '''' then ParseMention_list parts
      else case ParseMention part of
        Inl e \<Rightarrow> Inl e
      | Inr m \<Rightarrow> (case ParseMention_list parts of Inl e \<Rightarrow> Inl e | Inr ms \<Rightarrow> Inr (m # ms)))"

definition ParseMentions :: "string \<Rightarrow> Mention list result" where
  "ParseMentions v =
     (if TrimSpace v = MentionNone then Inr [] else ParseMention_list (split_on (CHR '','') v))"

definition Mention_String :: "Mention \<Rightarrow> string" where
  "Mention_String m =
     (case mn_Kind m of
        MentionHere \<Rightarrow> kind_string MentionHere
      | MentionEveryone \<Rightarrow> kind_string MentionEveryone
      | k \<Rightarrow> kind_string k @ '':'' @ mn_ID m)"

definition Render :: "Mention \<Rightarrow> string" where
  "Render m =
     (case mn_Kind m of
        MentionUser \<Rightarrow> ''<@'' @ mn_ID m @ ''>''
      | MentionRole \<Rightarrow> ''<@&'' @ mn_ID m @ ''>''
      | MentionHere \<Rightarrow> ''@here''
      | MentionEveryone \<Rightarrow> ''@everyone''
      | MentionOther s \<Rightarrow> '''')"

definition FormatMentions :: "Mention list \<Rightarrow> string" where
  "FormatMentions ms = (if length ms = 0 then '''' else join_with '','' (map Mention_String ms))"

definition renderMentions :: "Mention list \<Rightarrow> string" where
  "renderMentions ms = join_with '' '' (filter (\<lambda>markup. markup \<noteq> '''') (map Render ms))"

text \<open>\<open>allowedMentions\<close>: the pings Discord is told to honour.\<close>

record allowedMentions =
  am_Parse :: "string list"
  am_Users :: "string list"
  am_Roles :: "string list"

definition allow_one :: "Mention \<Rightarrow> allowedMentions \<Rightarrow> allowedMentions" where
  "allow_one m a =
     (case mn_Kind m of
        MentionUser \<Rightarrow> a\<lparr>am_Users := am_Users a @ [mn_ID m]\<rparr>
      | MentionRole \<Rightarrow> a\<lparr>am_Roles := am_Roles a @ [mn_ID m]\<rparr>
      | MentionHere \<Rightarrow> a\<lparr>am_Parse := am_Parse a @ [''everyone'']\<rparr>
      | MentionEveryone \<Rightarrow> a\<lparr>am_Parse := am_Parse a @ [''everyone'']\<rparr>
      | MentionOther s \<Rightarrow> a)"

definition allowFor :: "Mention list \<Rightarrow> allowedMentions" where
  "allowFor ms = fold allow_one ms \<lparr>am_Parse = [], am_Users = [], am_Roles = []\<rparr>"

section \<open>Truncation\<close>

text \<open>The ellipsis, U+2026, as its three UTF-8 bytes.\<close>

definition ellipsis :: string where
  "ellipsis = [char_of (226::nat), char_of (128::nat), char_of (166::nat)]"

text \<open>\<open>for index := range value\<close>, over the runes still to visit.\<close>

fun truncate_loop :: "string \<Rightarrow> int \<Rightarrow> int \<Rightarrow> nat \<Rightarrow> (nat \<times> string) list \<Rightarrow> string" where
  "truncate_loop value limit kept index [] = value"
| "truncate_loop value limit kept index (p # ps) =
     (if kept = limit - 1 then take index value @ ellipsis
      else truncate_loop value limit (kept + 1) (index + length (snd p)) ps)"

definition truncateText :: "string \<Rightarrow> int \<Rightarrow> string" where
  "truncateText value limit =
     (if limit \<le> 0 then ''''
      else if int (rune_count value) \<le> limit then value
      else if limit = 1 then ellipsis
      else truncate_loop value limit 0 0 (runes value))"

definition maxContent :: int where
  "maxContent = 2000"

definition renderContent :: "string \<Rightarrow> Mention list \<Rightarrow> string" where
  "renderContent message mentions =
     (let message = TrimSpace message; ping = renderMentions mentions in
      if message = '''' then truncateText ping maxContent
      else if ping = '''' then truncateText message maxContent
      else let messageLimit = maxContent - int (length ping) - 1 in
        if messageLimit \<le> 0 then truncateText ping maxContent
        else truncateText message messageLimit @ ''\<newline>'' @ ping)"


section \<open>Facts about truncation\<close>

lemma ellipsis_runes [simp]: "runes ellipsis = [(8230, ellipsis)]"
  by (simp add: runes.simps [of ellipsis])
    (simp add: ellipsis_def decode_rune_def byte_def lead_range_def tail_ok_def cont_def)

lemma ellipsis_starts [simp]: "starts_rune ellipsis"
  by (simp add: starts_rune_def ellipsis_def byte_def cont_def)

lemma ellipsis_count [simp]: "rune_count ellipsis = 1" "ellipsis \<noteq> []" "utf8_valid ellipsis"
  by (simp_all add: rune_count_def utf8_valid_def bad_rune_def rune_error_def)
    (simp add: ellipsis_def)

lemma truncate_loop_eq:
  "kept + int k = limit - 1 \<Longrightarrow> k < length ps \<Longrightarrow>
   truncate_loop v limit kept index ps = take (index + length (concat (map snd (take k ps)))) v @ ellipsis"
proof (induction v limit kept index ps arbitrary: k rule: truncate_loop.induct)
  case (2 v limit kept index p ps)
  show ?case
  proof (cases k)
    case 0
    then show ?thesis using "2.prems" by simp
  next
    case (Suc j)
    then have "truncate_loop v limit (kept + 1) (index + length (snd p)) ps =
        take (index + length (snd p) + length (concat (map snd (take j ps)))) v @ ellipsis"
      using "2.prems" by (intro "2.IH") auto
    then show ?thesis using Suc "2.prems" by (simp add: add.assoc)
  qed
qed simp

lemma take_pieces: "take (length (concat (map snd (take k (runes v))))) v = concat (map snd (take k (runes v)))"
proof -
  have "concat (map snd (take k (runes v))) @ concat (map snd (drop k (runes v))) = v"
    by (simp flip: concat_append map_append)
  then show ?thesis by (metis append_eq_conv_conj)
qed

lemma truncate_cut:
  assumes "limit < int (rune_count v)" "1 < limit"
  shows "truncateText v limit = concat (map snd (take (nat limit - 1) (runes v))) @ ellipsis"
proof -
  have "truncate_loop v limit 0 0 (runes v) =
      take (0 + length (concat (map snd (take (nat limit - 1) (runes v))))) v @ ellipsis"
    using assms by (intro truncate_loop_eq) (auto simp: rune_count_def)
  then show ?thesis using assms by (simp add: truncateText_def take_pieces)
qed

lemma truncate_cases:
  obtains "limit \<le> 0" "truncateText v limit = ''''"
  | "0 < limit" "int (rune_count v) \<le> limit" "truncateText v limit = v"
  | k where "0 < limit" "limit < int (rune_count v)" "int k = limit - 1"
      "truncateText v limit = concat (map snd (take k (runes v))) @ ellipsis"
proof -
  consider "limit \<le> 0" | "0 < limit" "int (rune_count v) \<le> limit"
    | "limit = 1" "limit < int (rune_count v)" | "1 < limit" "limit < int (rune_count v)"
    by linarith
  then show thesis
  proof cases
    case 3
    then show thesis by (intro that(3) [of 0]) (auto simp: truncateText_def)
  next
    case 4
    then show thesis using truncate_cut [OF 4(2,1)] by (intro that(3) [of "nat limit - 1"]) auto
  qed (auto simp: truncateText_def intro: that)
qed

lemma runes_truncate_cut: "runes (concat (map snd (take k (runes v))) @ ellipsis) = take k (runes v) @ [(8230, ellipsis)]"
  by (simp add: runes_append runes_concat_take)

lemma truncate_count: "int (rune_count (truncateText v limit)) \<le> max 0 limit"
  by (rule truncate_cases [of limit v]) (auto simp: rune_count_def runes_truncate_cut)

lemma truncate_nonempty: "0 < limit \<Longrightarrow> v \<noteq> '''' \<Longrightarrow> truncateText v limit \<noteq> ''''"
  by (rule truncate_cases [of limit v]) auto

lemma truncate_valid: "utf8_valid v \<Longrightarrow> utf8_valid (truncateText v limit)"
  by (rule truncate_cases [of limit v])
    (auto simp: utf8_valid_def runes_truncate_cut list_all_iff bad_rune_def rune_error_def dest: in_set_takeD)

lemma rune_count_pos: "v \<noteq> '''' \<Longrightarrow> 0 < rune_count v"
  by (simp add: rune_count_def)

lemma truncate_short: "int (rune_count v) \<le> limit \<Longrightarrow> truncateText v limit = v"
  using rune_count_pos [of v] by (cases "v = ''''") (auto simp: truncateText_def)

section \<open>Parsing inverts printing\<close>

lemma mod_window:
  fixes b m :: nat
  shows "m * q \<le> b \<Longrightarrow> b < m * q + m \<Longrightarrow> b mod m = b - m * q"
  by (metis add.commute le_add_diff_inverse2 mod_less mod_mult_self2 less_diff_conv2)

text \<open>A multi-byte sequence never decodes to an ASCII rune.\<close>

lemma decode_rune_ascii:
  assumes "fst (decode_rune s) < 128" "s \<noteq> []"
  shows "byte (hd s) < 128"
proof (rule ccontr)
  assume hi: "\<not> byte (hd s) < 128"
  obtain c r where s: "s = c # r" using assms(2) by (cases s) auto
  define bs where "bs = map byte r"
  show False
  proof (cases "lead_range (byte c)")
    case None
    then show False using assms hi by (simp add: s decode_rune_def rune_error_def)
  next
    case (Some p)
    obtain n lo hi' where p: "p = (n, lo, hi')" by (cases p) auto
    have ok: "tail_ok n lo hi' bs"
      using assms hi by (auto simp: s decode_rune_def Some p rune_error_def bs_def split: if_splits)
    have v: "fold (\<lambda>b v. v * 64 + b mod 64) (take n bs) (byte c mod 2 ^ (6 - n)) < 128"
      using assms hi ok by (simp add: s decode_rune_def Some p bs_def)
    obtain b bs' where tk: "take n bs = b # bs'" "length bs' = n - 1" "lo \<le> b" "b \<le> hi'"
      using ok by (auto simp: tail_ok_def split: list.splits)
    note lead = Some [unfolded p lead_range_def]
    have n: "n = 1 \<and> 194 \<le> byte c \<and> byte c \<le> 223 \<or>
        n = 2 \<and> (byte c = 224 \<and> lo = 160 \<and> hi' = 191 \<or> 225 \<le> byte c \<and> byte c \<le> 239) \<or>
        n = 3 \<and> (byte c = 240 \<and> lo = 144 \<and> hi' = 191 \<or> 241 \<le> byte c \<and> byte c \<le> 244)"
      using lead by (auto split: if_splits)
    have m: "\<lbrakk>160 \<le> b; b \<le> 191\<rbrakk> \<Longrightarrow> b mod 64 = b - 128" "\<lbrakk>144 \<le> b; b \<le> 191\<rbrakk> \<Longrightarrow> b mod 64 = b - 128"
      using mod_window [of 64 2 b] by auto
    from n show False
    proof (elim disjE conjE)
      assume "n = 1" "194 \<le> byte c" "byte c \<le> 223"
      then show False using v tk mod_window [of 32 6 "byte c"] by simp
    next
      assume "n = 2" "byte c = 224" "lo = 160" "hi' = 191"
      then show False using v tk m by (cases bs') auto
    next
      assume "n = 2" "225 \<le> byte c" "byte c \<le> 239"
      then show False using v tk mod_window [of 16 14 "byte c"] by (cases bs') auto
    next
      assume *: "n = 3" "byte c = 240" "lo = 144" "hi' = 191"
      then obtain x y where "bs' = [x, y]" using tk(2) by (auto simp: length_Suc_conv numeral_2_eq_2)
      then show False using * v tk m by simp
    next
      assume *: "n = 3" "241 \<le> byte c" "byte c \<le> 244"
      then obtain x y where "bs' = [x, y]" using tk(2) by (auto simp: length_Suc_conv numeral_2_eq_2)
      then show False using * v tk mod_window [of 8 30 "byte c"] by simp
    qed
  qed
qed

lemma runes_ascii_only:
  "\<forall>p\<in>set (runes s). fst p < 128 \<Longrightarrow> \<forall>c\<in>set s. byte c < 128 \<and> (byte c, [c]) \<in> set (runes s)"
proof (induction s)
  case (Cons c s)
  have "fst (decode_rune (c # s)) < 128" using Cons.prems by (simp add: runes_nonempty)
  then have c: "byte c < 128" using decode_rune_ascii [of "c # s"] by simp
  then show ?case using Cons by (auto simp: runes_ascii)
qed simp


lemma isSnowflake_digits: "isSnowflake s \<Longrightarrow> c \<in> set s \<Longrightarrow> is_digit c"
proof -
  assume s: "isSnowflake s" and c: "c \<in> set s"
  then have runes: "\<forall>p\<in>set (runes s). 48 \<le> fst p \<and> fst p \<le> 57"
    by (auto simp: isSnowflake_def list_all_iff split: if_splits)
  then have "(byte c, [c]) \<in> set (runes s)" using c by (intro runes_ascii_only [THEN bspec, THEN conjunct2]) auto
  then show ?thesis using runes by (auto simp: is_digit_def)
qed

definition plain_char :: "char \<Rightarrow> bool" where
  "plain_char c \<longleftrightarrow> 33 \<le> byte c \<and> byte c < 127"

lemma digit_plain: "is_digit c \<Longrightarrow> plain_char c"
  by (simp add: is_digit_def plain_char_def)

lemma plain_not_space: "plain_char c \<Longrightarrow> \<not> is_space (byte c)"
  by (auto simp: plain_char_def is_space_def)

lemma TrimSpace_plain:
  assumes "\<forall>c\<in>set s. plain_char c"
  shows "TrimSpace s = s"
proof -
  have "dropWhile (is_space \<circ> fst) ps = ps" if "\<forall>p\<in>set ps. \<not> is_space (fst p)" for ps :: "(nat \<times> string) list"
    using that by (cases ps) auto
  moreover have "runes s = map (\<lambda>c. (byte c, [c])) s"
    using assms by (intro runes_ascii_all) (auto simp: plain_char_def)
  moreover have "\<forall>p\<in>set (runes s). \<not> is_space (fst p)"
    using assms plain_not_space calculation(2) by simp
  ultimately have "trim_segs (runes s) = runes s"
    by (simp only: trim_segs_def set_rev rev_rev_ident)
  then show ?thesis by (simp add: TrimSpace_def)
qed

lemma TrimSpace_Nil [simp]: "TrimSpace [] = []"
  by (simp add: TrimSpace_plain)

lemma cut_at_append: "sep \<notin> set a \<Longrightarrow> cut_at sep (a @ sep # b) = Some (a, b)"
  by (induction a) auto

lemma split_on_none: "sep \<notin> set w \<Longrightarrow> split_on sep w = [w]"
  by (induction w) auto

lemma split_on_append: "sep \<notin> set w \<Longrightarrow> split_on sep (w @ sep # v) = w # split_on sep v"
  by (induction w) auto

lemma split_join:
  "ws \<noteq> [] \<Longrightarrow> \<forall>w\<in>set ws. sep \<notin> set w \<Longrightarrow> split_on sep (join_with [sep] ws) = ws"
  by (induction "[sep]" ws rule: join_with.induct) (auto simp: split_on_none split_on_append)

text \<open>What the parser produces.\<close>

definition parsed_mention :: "Mention \<Rightarrow> bool" where
  "parsed_mention m \<longleftrightarrow>
     (mn_Kind m = MentionUser \<or> mn_Kind m = MentionRole) \<and> isSnowflake (mn_ID m) \<or>
     (mn_Kind m = MentionHere \<or> mn_Kind m = MentionEveryone) \<and> mn_ID m = ''''"

lemma ParseMention_parsed: "ParseMention raw = Inr m \<Longrightarrow> parsed_mention m"
  by (auto simp: ParseMention_def parsed_mention_def Let_def split: if_splits option.splits)

lemma ParseMention_list_parsed: "ParseMention_list ps = Inr ms \<Longrightarrow> \<forall>m\<in>set ms. parsed_mention m"
  by (induction ps arbitrary: ms) (auto split: if_splits sum.splits dest: ParseMention_parsed)

lemma ParseMentions_parsed: "ParseMentions raw = Inr ms \<Longrightarrow> \<forall>m\<in>set ms. parsed_mention m"
  by (auto simp: ParseMentions_def split: if_splits dest!: ParseMention_list_parsed)

lemma ascii_plain [simp]: "\<forall>c\<in>set ''user:''. plain_char c" "\<forall>c\<in>set ''role:''. plain_char c"
  "\<forall>c\<in>set ''here''. plain_char c" "\<forall>c\<in>set ''everyone''. plain_char c"
  by (simp_all add: plain_char_def byte_def)

lemma Mention_String_chars:
  assumes "parsed_mention m" "c \<in> set (Mention_String m)"
  shows "plain_char c \<and> c \<noteq> CHR '',''"
proof -
  have d: "is_digit c \<Longrightarrow> c \<noteq> CHR '',''" by (auto simp: is_digit_def byte_def)
  show ?thesis
    using assms isSnowflake_digits [of "mn_ID m" c] d digit_plain [of c]
    by (auto simp: parsed_mention_def Mention_String_def kind_string_def plain_char_def byte_def)
qed

lemma Mention_String_nonempty [simp]: "parsed_mention m \<Longrightarrow> Mention_String m \<noteq> ''''"
  by (auto simp: parsed_mention_def Mention_String_def kind_string_def)

lemma ParseMention_String:
  assumes m: "parsed_mention m"
  shows "ParseMention (Mention_String m) = Inr m"
proof -
  have t: "TrimSpace (Mention_String m) = Mention_String m"
    using Mention_String_chars [OF m] by (intro TrimSpace_plain) auto
  from m consider "mn_Kind m = MentionUser" "isSnowflake (mn_ID m)"
    | "mn_Kind m = MentionRole" "isSnowflake (mn_ID m)"
    | "mn_Kind m = MentionHere" "mn_ID m = ''''" | "mn_Kind m = MentionEveryone" "mn_ID m = ''''"
    by (auto simp: parsed_mention_def)
  then show ?thesis
    by cases (use t in \<open>auto simp: ParseMention_def Mention_String_def kind_string_def\<close>)
qed


lemma set_join_with: "c \<in> set (join_with sep ws) \<Longrightarrow> c \<in> set sep \<or> (\<exists>w\<in>set ws. c \<in> set w)"
  by (induction sep ws rule: join_with.induct) auto

lemma FormatMentions_chars:
  assumes "\<forall>m\<in>set ms. parsed_mention m" "c \<in> set (FormatMentions ms)"
  shows "plain_char c"
proof -
  have "c \<in> set '','' \<or> (\<exists>w\<in>set (map Mention_String ms). c \<in> set w)"
    using assms(2) set_join_with [of c "'',''" "map Mention_String ms"]
    by (auto simp: FormatMentions_def split: if_splits)
  then show ?thesis
    using assms(1) Mention_String_chars by (auto simp: plain_char_def byte_def)
qed

lemma Mention_String_start:
  assumes "parsed_mention m"
  shows "hd (Mention_String m) \<noteq> CHR ''n''"
  using assms by (auto simp: parsed_mention_def Mention_String_def kind_string_def)

lemma FormatMentions_not_none:
  assumes "\<forall>m\<in>set ms. parsed_mention m"
  shows "FormatMentions ms \<noteq> MentionNone"
proof (cases ms)
  case (Cons m rest)
  then have m: "parsed_mention m" using assms by simp
  have "hd (join_with '','' (w # ws)) = hd w" if "w \<noteq> ''''" for w ws
    using that by (cases ws) auto
  then have "hd (FormatMentions ms) \<noteq> CHR ''n''"
    using Mention_String_start [OF m] m by (simp add: FormatMentions_def Cons)
  then show ?thesis by (auto simp: MentionNone_def)
qed (simp add: FormatMentions_def MentionNone_def)


lemma fold_allow_one:
  "fold allow_one ms a =
     a\<lparr>am_Parse := am_Parse a @ map (\<lambda>_. ''everyone'') (filter (\<lambda>m. mn_Kind m \<in> {MentionHere, MentionEveryone}) ms),
       am_Users := am_Users a @ map mn_ID (filter (\<lambda>m. mn_Kind m = MentionUser) ms),
       am_Roles := am_Roles a @ map mn_ID (filter (\<lambda>m. mn_Kind m = MentionRole) ms)\<rparr>"
  by (induction ms arbitrary: a) (auto simp: allow_one_def split: MentionKind.splits)

end
