(* ===== verification/DeliveryTheorems.thy ===== *)
theory DeliveryTheorems
  imports Discord
begin

text \<open>
  What the delivery package promises: a rendered notification always fits Discord's limits,
  pings exactly the mentions of its destination, and goes nowhere but to its destination.
\<close>

text \<open>
  C13: whatever the message, the embed respects every limit Discord documents, the aggregate of
  6000 characters included, and no part that Discord requires is empty.
\<close>

theorem embed_within_limits:
  "0 < rune_count (em_Title (buildEmbed W now msg)) \<and>
   int (rune_count (em_Title (buildEmbed W now msg))) \<le> 256 \<and>
   int (rune_count (em_Description (buildEmbed W now msg))) \<le> 4096 \<and>
   author_size (em_Author (buildEmbed W now msg)) \<le> 256 \<and>
   length (em_Fields (buildEmbed W now msg)) \<le> 25 \<and>
   list_all field_ok (em_Fields (buildEmbed W now msg)) \<and>
   footer_size (em_Footer (buildEmbed W now msg)) \<le> 2048 \<and>
   embed_size (buildEmbed W now msg) \<le> 6000"
proof -
  obtain b1 b2 b3 b4 b5 where
    1: "takeEmbedText (or_placeholder (msg_Title msg) ''(no title)'') maxTitle maxEmbed = (em_Title (buildEmbed W now msg), b1)"
    and 2: "takeEmbedText (embed_description msg) maxDescription b1 = (em_Description (buildEmbed W now msg), b2)"
    and 3: "embed_author W (msg_Author msg) b2 = (em_Author (buildEmbed W now msg), b3)"
    and 4: "embed_fields [] b3 (msg_Fields msg) = (em_Fields (buildEmbed W now msg), b4)"
    and 5: "embed_footer W msg b4 = (em_Footer (buildEmbed W now msg), b5)"
    by (rule buildEmbed_parts)
  note limits = maxTitle_def maxDescription_def maxAuthor_def maxFields_def maxFooter_def maxEmbed_def
  have t: "0 \<le> b1" "b1 + int (rune_count (em_Title (buildEmbed W now msg))) = 6000"
    "int (rune_count (em_Title (buildEmbed W now msg))) \<le> 256" "em_Title (buildEmbed W now msg) \<noteq> ''''"
    using takeEmbedText_bounds [OF 1] by (simp_all add: limits or_placeholder_nonempty)
  note d = takeEmbedText_bounds [OF 2 t(1), unfolded maxDescription_def]
  note a = embed_author_bounds [OF 3 d(1), unfolded maxAuthor_def]
  have f: "(\<forall>f\<in>set (em_Fields (buildEmbed W now msg)). field_ok f) \<and>
      length (em_Fields (buildEmbed W now msg)) \<le> maxFields \<and> 0 \<le> b4 \<and>
      b4 + sum_list (map field_size (em_Fields (buildEmbed W now msg))) = b3 + sum_list (map field_size [])"
    by (rule embed_fields_bounds [OF 4]) (use a in simp_all)
  have g: "0 \<le> b5 \<and> b5 + footer_size (em_Footer (buildEmbed W now msg)) \<le> b4 \<and>
      footer_size (em_Footer (buildEmbed W now msg)) \<le> 2048"
    using embed_footer_bounds [OF 5] f by (simp add: maxFooter_def)
  show ?thesis
    using t d(2,3) a f g by (simp add: rune_count_pos list_all_iff maxFields_def embed_size_def)
qed

text \<open>
  what a mention list is stored as reads back as the same list: printing any list the
  parser has produced and parsing it again is the identity.
\<close>

theorem mentions_roundtrip:
  assumes "ParseMentions raw = Inr ms"
  shows "ParseMentions (FormatMentions ms) = Inr ms"
proof (cases "ms = []")
  case False
  let ?ws = "map Mention_String ms"
  have ok: "\<forall>m\<in>set ms. parsed_mention m" by (rule ParseMentions_parsed [OF assms])
  have chars: "plain_char c" if "c \<in> set (FormatMentions ms)" for c
    by (rule FormatMentions_chars [OF ok that])
  have parts: "ParseMention_list (map Mention_String xs) = Inr xs" if "set xs \<subseteq> set ms" for xs
    using that
  proof (induction xs)
    case (Cons m xs)
    then have m: "parsed_mention m" using ok by auto
    then have "TrimSpace (Mention_String m) \<noteq> ''''"
      using Mention_String_chars [OF m] by (simp add: TrimSpace_plain)
    then show ?case using Cons m by (simp add: ParseMention_String)
  qed simp
  have "\<forall>w\<in>set ?ws. CHR '','' \<notin> set w" using ok Mention_String_chars by fastforce
  then have "split_on (CHR '','') (FormatMentions ms) = ?ws"
    using False split_join [of ?ws "CHR '',''"] by (simp add: FormatMentions_def)
  moreover have "TrimSpace (FormatMentions ms) \<noteq> MentionNone"
    using FormatMentions_not_none [OF ok] chars by (simp add: TrimSpace_plain)
  ultimately show ?thesis using parts [of ms] by (simp add: ParseMentions_def)
qed (simp add: FormatMentions_def ParseMentions_def MentionNone_def)


lemma mentions_roundtrip_witness:
  "ParseMentions (FormatMentions [\<lparr>mn_Kind = MentionRole, mn_ID = ''12345''\<rparr>, \<lparr>mn_Kind = MentionHere, mn_ID = ''''\<rparr>]) =
     Inr [\<lparr>mn_Kind = MentionRole, mn_ID = ''12345''\<rparr>, \<lparr>mn_Kind = MentionHere, mn_ID = ''''\<rparr>]"
proof (rule mentions_roundtrip)
  show "ParseMentions ''role:12345,,here'' =
      Inr [\<lparr>mn_Kind = MentionRole, mn_ID = ''12345''\<rparr>, \<lparr>mn_Kind = MentionHere, mn_ID = ''''\<rparr>]"
    by (simp add: ParseMentions_def ParseMention_def MentionNone_def isSnowflake_def runes_ascii
        TrimSpace_plain plain_char_def byte_def)
qed

text \<open>
  the text above the embed always fits Discord's 2000 characters, and unless the pings alone
  take more than 1998 bytes every ping survives whole at its end, however long the message is.
\<close>

theorem content_keeps_pings:
  "rune_count (renderContent message ms) \<le> 2000 \<and>
   (length (renderMentions ms) \<le> 1998 \<longrightarrow> (\<exists>text. renderContent message ms = text @ renderMentions ms))"
proof -
  let ?p = "renderMentions ms" and ?m = "TrimSpace message"
  have cut: "rune_count (truncateText v maxContent) \<le> 2000" for v
    using truncate_count [of v maxContent] by (simp add: maxContent_def)
  have whole: "truncateText ?p maxContent = ?p" if "length ?p \<le> 1998"
    using that rune_count_le_length [of ?p] by (intro truncate_short) (simp add: maxContent_def)
  consider (bare) "?m = ''''" | (msg) "?m \<noteq> ''''" "?p = ''''" | (long) "?m \<noteq> ''''" "?p \<noteq> ''''" "1998 < length ?p"
    | (both) "?m \<noteq> ''''" "?p \<noteq> ''''" "length ?p \<le> 1998" by linarith
  then show ?thesis
  proof cases
    case both
    let ?t = "truncateText ?m (maxContent - int (length ?p) - 1)"
    have "renderContent message ms = ?t @ ''\<newline>'' @ ?p"
      using both by (simp add: renderContent_def Let_def maxContent_def)
    moreover have "rune_count (?t @ ''\<newline>'' @ ?p) = rune_count ?t + rune_count (''\<newline>'' @ ?p)"
      by (rule rune_count_append) (simp add: starts_rune_def cont_def byte_def)
    moreover have "rune_count (''\<newline>'' @ ?p) = Suc (rune_count ?p)"
      by (simp add: rune_count_def runes_ascii byte_def)
    moreover have "int (rune_count ?t) \<le> 1999 - int (length ?p)"
      using truncate_count [of ?m "maxContent - int (length ?p) - 1"] both by (simp add: maxContent_def)
    ultimately show ?thesis
      using rune_count_le_length [of ?p] by (intro conjI impI exI [of _ "?t @ ''\<newline>''"]) auto
  next
    case bare
    then have "renderContent message ms = truncateText ?p maxContent" by (simp add: renderContent_def)
    then show ?thesis using cut whole by auto
  qed (auto simp: renderContent_def Let_def maxContent_def cut [unfolded maxContent_def])
qed

lemma content_keeps_pings_witness:
  "\<exists>text. renderContent ''disk full'' [\<lparr>mn_Kind = MentionRole, mn_ID = ''12345''\<rparr>] = text @ ''<@&12345>''"
proof -
  have "renderMentions [\<lparr>mn_Kind = MentionRole, mn_ID = ''12345''\<rparr>] = ''<@&12345>''"
    by (simp add: renderMentions_def Render_def)
  then show ?thesis
    using content_keeps_pings [of "''disk full''" "[\<lparr>mn_Kind = MentionRole, mn_ID = ''12345''\<rparr>]"] by simp
qed

text \<open>
  the allow-list sent with a notification holds exactly the users and roles of the mentions,
  in order, and lets Discord honour \<open>@everyone\<close> only when one of the mentions is \<open>here\<close> or
  \<open>everyone\<close>: text a monitor has scraped pings nobody.
\<close>

theorem allow_exactly_mentions:
  "allowFor ms =
     \<lparr>am_Parse = map (\<lambda>_. ''everyone'') (filter (\<lambda>m. mn_Kind m \<in> {MentionHere, MentionEveryone}) ms),
      am_Users = map mn_ID (filter (\<lambda>m. mn_Kind m = MentionUser) ms),
      am_Roles = map mn_ID (filter (\<lambda>m. mn_Kind m = MentionRole) ms)\<rparr>"
  by (simp add: allowFor_def fold_allow_one)

text \<open>
  a request to Discord leaves only for a valid destination.  A bot token goes only to the
  API of discord.com, for a channel or thread with a well-formed ID; a webhook gets no
  credential and is an https URL on discord.com.
\<close>

theorem discord_target:
  assumes d: "dl_Discord delivery = Some d" "trimmed_discord d"
    and sent: "DeliverDiscord W now http token delivery msg = (Some r, err)"
  shows "(dc_WebhookURL d = '''' \<and> (\<exists>t target. token ''discord'' (dc_Account d) = Inr t \<and>
        isAccountName (dc_Account d) \<and> target \<in> {dc_ThreadID d, dc_ChannelID d} \<and> isSnowflake target \<and>
        rq_Authorization r = ''Bot '' @ t \<and>
        rq_Endpoint r = ''https://discord.com/api/v10/channels/'' @ target @ ''/messages'')) \<or>
    (dc_Account d = '''' \<and> rq_Authorization r = '''' \<and>
      (\<exists>u. url_Parse W (dc_WebhookURL d) = Some u \<and> u_Scheme u = ''https'' \<and> u_Host u = ''discord.com'' \<and>
        rq_Endpoint r \<in> {dc_WebhookURL d, query_Set W u ''thread_id'' (dc_ThreadID d)}))"
  using sent d(1)
proof (cases rule: DeliverDiscord_sent)
  case (1 t ms)
  show ?thesis
    using 1 d(2) by (cases rule: Discord_valid_cases [OF 1(1) d(2)])
      (auto simp: SendDiscordBot_def sendDiscord_def Let_def)
next
  case (2 w ms)
  then have w: "rq_Endpoint r = w" "rq_Authorization r = ''''"
    by (auto simp: SendDiscord_def sendDiscord_def Let_def)
  have v: "dc_Account d = ''''" "validateDiscordWebhookURL W (dc_WebhookURL d) = None"
    using 2(2) by (auto intro: Discord_valid_cases [OF 2(1) d(2)])
  from webhook_valid [OF v(2)] obtain u where
    u: "url_Parse W (dc_WebhookURL d) = Some u" "u_Scheme u = ''https''" "u_Host u = ''discord.com''" by blast
  have "w \<in> {dc_WebhookURL d, query_Set W u ''thread_id'' (dc_ThreadID d)}"
    using 2(3) u by (auto simp: withDiscordThreadID_def split: if_splits)
  then show ?thesis using v w u by (intro disjI2 conjI exI [of _ u]) simp_all
qed

definition sample_web :: web where
  "sample_web = \<lparr>url_Parse = (\<lambda>_. None), query_Has = (\<lambda>_ _. False), query_Set = (\<lambda>_ _ _. ''''),
     url_String = (\<lambda>_. ''''), rfc3339 = (\<lambda>_. '''')\<rparr>"

definition sample_discord :: Delivery where
  "sample_discord = \<lparr>dl_Discord = Some \<lparr>dc_Account = ''ops'', dc_ChannelID = ''12345'', dc_ThreadID = '''',
     dc_WebhookURL = '''', dc_Mentions = ''''\<rparr>, dl_OpenClaw = None,
     dl_RateLimit = \<lparr>rl_PerSecond = Finite 0, rl_Burst = 0\<rparr>\<rparr>"

lemma discord_target_witness:
  "\<exists>r. DeliverDiscord sample_web 0 (\<lambda>_. Answered 204 0 None) (\<lambda>_ _. Inr ''secret'') sample_discord empty_message = (Some r, None) \<and>
     rq_Endpoint r = ''https://discord.com/api/v10/channels/12345/messages'' \<and> rq_Authorization r = ''Bot secret''"
proof -
  let ?d = "the (dl_Discord sample_discord)"
  have t: "trimmed_discord ?d"
    by (simp add: trimmed_discord_def trimmed_def sample_discord_def TrimSpace_plain plain_char_def byte_def)
  have "Discord_Validate sample_web ?d = None"
    by (simp add: Discord_Validate_def sample_discord_def TrimSpace_plain plain_char_def byte_def ParseMentions_def
        MentionNone_def isAccountName_def isSnowflake_def runes_ascii)
  then obtain r where r: "DeliverDiscord sample_web 0 (\<lambda>_. Answered 204 0 None) (\<lambda>_ _. Inr ''secret'') sample_discord
      empty_message = (Some r, None)"
    by (simp add: DeliverDiscord_def sample_discord_def delivery_mentions_def ParseMentions_def MentionNone_def
        empty_message_def SendDiscordBot_def sendDiscord_def answer_error_def Let_def)
  have "dl_Discord sample_discord = Some ?d" by (simp add: sample_discord_def)
  from discord_target [OF this t r] show ?thesis using r by (auto simp: sample_discord_def isSnowflake_def)
qed

end
