(* ===== verification/Dispatch.thy ===== *)
theory Dispatch
  imports OutboxTheorems Discord "HOL-Library.Multiset"
begin

text \<open>
  \<open>internal/daemon/outbox.go\<close>: the worker that drains the outbox.  It claims a batch, sends each
  delivery once and settles it: delivered, deferred by the destination's rate limit, or failed
  with a delay and an attempt limit.

  The Go interface \<open>outboxStore\<close> is a record of its methods, and its contract the locale
  \<open>outbox_store\<close>, interpreted on the storage package.  The sends of a batch run in goroutines of
  their own, so the settlements happen in some order of the claimed rows: \<open>process\<close> takes that
  order as an argument.  Instants of the worker's clock are nanoseconds, those of the store
  milliseconds.  Not under src/, and so parameters: the JSON decoder, the random source, the
  limiter of \<open>golang.org/x/time/rate\<close>.
\<close>

section \<open>Constants and delays\<close>

definition second :: int where "second = 1000000000"

definition deliveryAttemptTimeout :: int where "deliveryAttemptTimeout = 30 * second"
definition outboxLease :: int where "outboxLease = deliveryAttemptTimeout + 5 * second"
definition outboxBatch :: int where "outboxBatch = 32"
definition outboxBaseBackoff :: int where "outboxBaseBackoff = 2 * second"
definition outboxMaxBackoff :: int where "outboxMaxBackoff = 15 * 60 * second"

definition maxInt :: int where "maxInt = 2 ^ 63 - 1"

definition UnixMilli :: "int \<Rightarrow> int" where
  "UnixMilli t = t div 1000000"

text \<open>\<open>rand.Int64N(n)\<close> is the argument.\<close>

definition backoff_cap :: "int \<Rightarrow> int" where
  "backoff_cap attempt =
     (let shift = min (max attempt 0) 20 in min (outboxBaseBackoff * 2 ^ nat shift) outboxMaxBackoff)"

definition retryDelay :: "(int \<Rightarrow> int) \<Rightarrow> int \<Rightarrow> int" where
  "retryDelay rand attempt =
     (let capDelay = backoff_cap attempt in
      if capDelay \<le> 1000000 then capDelay else rand capDelay)"

section \<open>The rate limit of a destination\<close>

record 'l limiter =
  lim_New :: "float64 \<Rightarrow> int \<Rightarrow> 'l"
  lim_Reserve :: "'l \<Rightarrow> int \<Rightarrow> bool \<times> int \<times> 'l"
  lim_Cancel :: "'l \<Rightarrow> int \<Rightarrow> 'l"

type_synonym destinationLimitKey = "string \<times> string \<times> int"

type_synonym 'l limits = "destinationLimitKey \<Rightarrow> 'l option"

record wire_codec =
  unmarshal_delivery :: "string \<Rightarrow> Delivery option"
  unmarshal_message :: "string \<Rightarrow> Message option"

definition limit_key :: "ClaimedDelivery \<Rightarrow> destinationLimitKey" where
  "limit_key c = (cd_DeploymentID c, cd_DestinationID c, cd_DestinationRevision c)"

definition reserveDestination ::
    "wire_codec \<Rightarrow> 'l limiter \<Rightarrow> int \<Rightarrow> ClaimedDelivery \<Rightarrow> 'l limits \<Rightarrow> 'l limits \<times> (delivery_error + int)" where
  "reserveDestination C L now claimed limits =
     (case unmarshal_delivery C (cd_DestinationConfig claimed) of
        None \<Rightarrow> (limits, Inl (PermanentError ''decode destination binding''))
      | Some binding \<Rightarrow> (case RateLimit_Validate (dl_RateLimit binding) of
          Some e \<Rightarrow> (limits, Inl (PermanentError ''invalid destination rate limit''))
        | None \<Rightarrow>
            if \<not> RateLimit_Enabled (dl_RateLimit binding) then (limits, Inr 0)
            else let l = (case limits (limit_key claimed) of
                       None \<Rightarrow> lim_New L (rl_PerSecond (dl_RateLimit binding)) (rl_Burst (dl_RateLimit binding))
                     | Some l \<Rightarrow> l);
                     (ok, delay, l') = lim_Reserve L l now
                 in if \<not> ok then (limits(limit_key claimed \<mapsto> l'),
                      Inl (PermanentError ''destination rate limit cannot reserve one delivery''))
                    else if delay \<le> 0 then (limits(limit_key claimed \<mapsto> l'), Inr 0)
                    else (limits(limit_key claimed \<mapsto> lim_Cancel L l' now), Inr delay)))"

section \<open>Sending\<close>

text \<open>\<open>daemonDeliverySender.Send\<close>.\<close>

definition daemonSend ::
    "wire_codec \<Rightarrow> web \<Rightarrow> int \<Rightarrow> (request \<Rightarrow> http_answer) \<Rightarrow> (string \<Rightarrow> string \<Rightarrow> string result) \<Rightarrow>
     ClaimedDelivery \<Rightarrow> attempt" where
  "daemonSend C W now http token claimed =
     (case unmarshal_delivery C (cd_DestinationConfig claimed) of
        None \<Rightarrow> (None, Some (PermanentError ''decode destination binding''))
      | Some binding \<Rightarrow> (case Delivery_Validate W binding of
          Some e \<Rightarrow> (None, Some (PermanentError ''invalid destination binding''))
        | None \<Rightarrow> (case unmarshal_message C (cd_MessagePayload claimed) of
            None \<Rightarrow> (None, Some (PermanentError ''decode message''))
          | Some message \<Rightarrow> deliverDestination W now http token binding message)))"

text \<open>\<open>errors.As(err, &classified)\<close>: whether the error is permanent, and its \<open>RetryAfter\<close>.\<close>

definition classified :: "delivery_error \<Rightarrow> (bool \<times> int) option" where
  "classified e =
     (case e of
        PermanentError t \<Rightarrow> Some (True, 0)
      | HTTPError service status detail retryAfter \<Rightarrow> Some (http_permanent status, retryAfter)
      | ContextCanceled \<Rightarrow> None
      | PlainError t \<Rightarrow> None)"

definition max_attempts :: "delivery_error \<Rightarrow> int" where
  "max_attempts e = (case classified e of Some (True, after) \<Rightarrow> 1 | _ \<Rightarrow> maxInt)"

definition failure_delay :: "(int \<Rightarrow> int) \<Rightarrow> ClaimedDelivery \<Rightarrow> delivery_error \<Rightarrow> int" where
  "failure_delay rand claimed e =
     (case classified e of
        Some (permanent, after) \<Rightarrow>
          if after > 0 then min after outboxMaxBackoff else retryDelay rand (cd_AttemptCount claimed)
      | None \<Rightarrow> retryDelay rand (cd_AttemptCount claimed))"

record 's outboxStore =
  os_ClaimOutbox :: "string \<Rightarrow> int \<Rightarrow> int \<Rightarrow> int \<Rightarrow> 's \<Rightarrow> ('s \<times> ClaimedDelivery list) result"
  os_DeferDelivery :: "string \<Rightarrow> string \<Rightarrow> string \<Rightarrow> int \<Rightarrow> 's \<Rightarrow> ('s \<times> unit) result"
  os_MarkDelivered :: "string \<Rightarrow> string \<Rightarrow> string \<Rightarrow> int \<Rightarrow> 's \<Rightarrow> ('s \<times> unit) result"
  os_MarkDeliveryFailed ::
    "string \<Rightarrow> string \<Rightarrow> string \<Rightarrow> string \<Rightarrow> int \<Rightarrow> int \<Rightarrow> int \<Rightarrow> 's \<Rightarrow> ('s \<times> unit) result"

text \<open>
  What one delivery sees of the outside: the clock when the limiter is asked and when the attempt
  is settled, and the result of the attempt (of \<open>Send\<close>, or of the timeout that cuts it off).
\<close>

record attempt_env =
  ae_reserve_at :: int
  ae_settle_at :: int
  ae_sent :: "delivery_error option"
  ae_rand :: "int \<Rightarrow> int"

datatype settlement =
    SettleDeferred int
  | SettleDelivered int
  | SettleFailed delivery_error int int

definition decide :: "attempt_env \<Rightarrow> ClaimedDelivery \<Rightarrow> delivery_error + int \<Rightarrow> settlement" where
  "decide A claimed reserved =
     (case reserved of
        Inr throttleDelay \<Rightarrow>
          if throttleDelay > 0 then SettleDeferred (UnixMilli (ae_settle_at A + throttleDelay))
          else (case ae_sent A of
              None \<Rightarrow> SettleDelivered (UnixMilli (ae_settle_at A))
            | Some e \<Rightarrow> SettleFailed e (UnixMilli (ae_settle_at A))
                (UnixMilli (ae_settle_at A + failure_delay (ae_rand A) claimed e)))
      | Inl e \<Rightarrow> SettleFailed e (UnixMilli (ae_settle_at A))
          (UnixMilli (ae_settle_at A + failure_delay (ae_rand A) claimed e)))"

definition settle :: "'s outboxStore \<Rightarrow> ClaimedDelivery \<Rightarrow> settlement \<Rightarrow> 's \<Rightarrow> ('s \<times> unit) result" where
  "settle S c x =
     (case x of
        SettleDeferred t \<Rightarrow> os_DeferDelivery S (cd_OutboxID c) (cd_DestinationID c) (cd_LeaseOwner c) t
      | SettleDelivered t \<Rightarrow> os_MarkDelivered S (cd_OutboxID c) (cd_DestinationID c) (cd_LeaseOwner c) t
      | SettleFailed e t retry_at \<Rightarrow>
          os_MarkDeliveryFailed S (cd_OutboxID c) (cd_DestinationID c) (cd_LeaseOwner c) (error_text e)
            t retry_at (max_attempts e))"

definition settle_error :: "ClaimedDelivery \<Rightarrow> settlement \<Rightarrow> ('s \<times> unit) result \<Rightarrow> go_error option" where
  "settle_error c x r =
     (case r of
        Inl e \<Rightarrow> (case x of
            SettleFailed _ _ _ \<Rightarrow> Some (Errorf ''record failed delivery'')
          | _ \<Rightarrow> Some e)
      | Inr _ \<Rightarrow> (case x of
            SettleFailed e _ _ \<Rightarrow> if e = ContextCanceled then None else Some (Errorf ''delivery failed'')
          | _ \<Rightarrow> None))"

definition sendOne ::
    "'s outboxStore \<Rightarrow> wire_codec \<Rightarrow> 'l limiter \<Rightarrow> attempt_env \<Rightarrow> ClaimedDelivery \<Rightarrow>
     'l limits \<times> 's \<Rightarrow> ('l limits \<times> 's) \<times> go_error option" where
  "sendOne S C L A c st =
     (let (limits, reserved) = reserveDestination C L (ae_reserve_at A) c (fst st);
          x = decide A c reserved;
          r = settle S c x (snd st)
      in ((limits, fst (run_tx (settle S c x) (snd st))), settle_error c x r))"

text \<open>One goroutine per claimed row, settled in the order of the list.\<close>

fun send_all ::
    "'s outboxStore \<Rightarrow> wire_codec \<Rightarrow> 'l limiter \<Rightarrow> (ClaimedDelivery \<Rightarrow> attempt_env) \<Rightarrow> ClaimedDelivery list \<Rightarrow>
     'l limits \<times> 's \<Rightarrow> ('l limits \<times> 's) \<times> go_error list" where
  "send_all S C L A [] st = (st, [])"
| "send_all S C L A (c # cs) st =
     (let (st1, e) = sendOne S C L (A c) c st;
          (st2, es) = send_all S C L A cs st1
      in (st2, (case e of None \<Rightarrow> es | Some x \<Rightarrow> x # es)))"

definition process ::
    "'s outboxStore \<Rightarrow> wire_codec \<Rightarrow> 'l limiter \<Rightarrow> string \<Rightarrow> int \<Rightarrow> (ClaimedDelivery \<Rightarrow> attempt_env) \<Rightarrow>
     (ClaimedDelivery list \<Rightarrow> ClaimedDelivery list) \<Rightarrow> 'l limits \<times> 's \<Rightarrow>
     ('l limits \<times> 's) \<times> (go_error + nat \<times> go_error list)" where
  "process S C L owner now A order st =
     (case os_ClaimOutbox S owner (UnixMilli now) outboxLease outboxBatch (snd st) of
        Inl e \<Rightarrow> (st, Inl e)
      | Inr (s', claimed) \<Rightarrow>
          let (st', errors) = send_all S C L A (order claimed) (fst st, s')
          in (st', Inr (length claimed, errors)))"


section \<open>The contract of the store\<close>

definition claim_key :: "ClaimedDelivery \<Rightarrow> string \<times> string" where
  "claim_key c = (cd_OutboxID c, cd_DestinationID c)"

text \<open>Settling a leased row succeeds, ends its lease and leaves the other leases alone.\<close>

definition ends_lease ::
    "('s \<Rightarrow> bool) \<Rightarrow> (ClaimedDelivery \<Rightarrow> 's \<Rightarrow> bool) \<Rightarrow> ClaimedDelivery \<Rightarrow> ('s \<Rightarrow> ('s \<times> unit) result) \<Rightarrow> bool" where
  "ends_lease good leased c f \<longleftrightarrow> (\<forall>s. good s \<longrightarrow> leased c s \<longrightarrow>
     (\<exists>s'. f s = Inr (s', ()) \<and> good s' \<and> \<not> leased c s' \<and>
       (\<forall>c'. claim_key c' \<noteq> claim_key c \<longrightarrow> leased c' s' = leased c' s)))"

locale outbox_store =
  fixes S :: "'s outboxStore"
    and good :: "'s \<Rightarrow> bool"
    and unused :: "string \<Rightarrow> 's \<Rightarrow> bool"
    and leased :: "ClaimedDelivery \<Rightarrow> 's \<Rightarrow> bool"
  assumes claim_leases: "good s \<Longrightarrow> unused owner s \<Longrightarrow>
      os_ClaimOutbox S owner now lease limit s = Inr (s', out) \<Longrightarrow>
      good s' \<and> distinct (map claim_key out) \<and> (\<forall>c\<in>set out. leased c s')"
    and defer_ends: "ends_lease good leased c
      (os_DeferDelivery S (cd_OutboxID c) (cd_DestinationID c) (cd_LeaseOwner c) t)"
    and delivered_ends: "ends_lease good leased c
      (os_MarkDelivered S (cd_OutboxID c) (cd_DestinationID c) (cd_LeaseOwner c) t)"
    and failed_ends: "1 \<le> k \<Longrightarrow> ends_lease good leased c
      (os_MarkDeliveryFailed S (cd_OutboxID c) (cd_DestinationID c) (cd_LeaseOwner c) m t nx k)"
begin

lemma settle_ends: "ends_lease good leased c (settle S c x)"
proof -
  have "1 \<le> max_attempts e" for e by (auto simp: max_attempts_def maxInt_def split: option.splits bool.splits)
  then show ?thesis
    by (cases x) (simp_all add: settle_def defer_ends delivered_ends failed_ends)
qed

lemma sendOne_ends:
  assumes "good s" "leased c s"
  obtains l s' where "fst (sendOne S C L A c (limits, s)) = (l, s')" "good s'" "\<not> leased c s'"
    "\<And>c'. claim_key c' \<noteq> claim_key c \<Longrightarrow> leased c' s' = leased c' s"
    "snd (sendOne S C L A c (limits, s)) \<in> {None, Some (Errorf ''delivery failed'')}"
proof -
  obtain l r where res: "reserveDestination C L (ae_reserve_at A) c limits = (l, r)" by fastforce
  obtain s' where s': "settle S c (decide A c r) s = Inr (s', ())" "good s'" "\<not> leased c s'"
    "\<forall>c'. claim_key c' \<noteq> claim_key c \<longrightarrow> leased c' s' = leased c' s"
    using settle_ends [of c "decide A c r"] assms unfolding ends_lease_def by blast
  show thesis
    by (rule that [of l s'])
      (use s' in \<open>simp_all add: sendOne_def res settle_error_def split: settlement.split\<close>)
qed

lemma send_all_ends:
  assumes "good s" "distinct (map claim_key cs)" "\<forall>c\<in>set cs. leased c s"
  shows "good (snd (fst (send_all S C L A cs (limits, s)))) \<and>
    (\<forall>c\<in>set cs. \<not> leased c (snd (fst (send_all S C L A cs (limits, s))))) \<and>
    (\<forall>c'. claim_key c' \<notin> claim_key ` set cs \<longrightarrow>
       leased c' (snd (fst (send_all S C L A cs (limits, s)))) = leased c' s) \<and>
    set (snd (send_all S C L A cs (limits, s))) \<subseteq> {Errorf ''delivery failed''} \<and>
    length (snd (send_all S C L A cs (limits, s))) \<le> length cs"
  using assms
proof (induction cs arbitrary: limits s)
  case (Cons c cs)
  obtain l s' where one: "fst (sendOne S C L (A c) c (limits, s)) = (l, s')" "good s'" "\<not> leased c s'"
    "\<And>c'. claim_key c' \<noteq> claim_key c \<Longrightarrow> leased c' s' = leased c' s"
    "snd (sendOne S C L (A c) c (limits, s)) \<in> {None, Some (Errorf ''delivery failed'')}"
    using Cons.prems by (auto intro: sendOne_ends [of s c C L "A c" limits])
  have rest: "\<forall>x\<in>set cs. leased x s'" "claim_key c \<notin> claim_key ` set cs"
    using Cons.prems one(4) by (auto simp: image_iff)
  note ih = Cons.IH [OF one(2) _ rest(1), of l]
  have eq: "send_all S C L A (c # cs) (limits, s) =
      (fst (send_all S C L A cs (l, s')), (case snd (sendOne S C L (A c) c (limits, s)) of
         None \<Rightarrow> snd (send_all S C L A cs (l, s')) | Some x \<Rightarrow> x # snd (send_all S C L A cs (l, s'))))"
    using one(1) by (simp add: case_prod_unfold Let_def split: option.split)
  show ?case
    using ih Cons.prems(2) rest(2) one(3,4,5) unfolding eq by (auto split: option.splits)
qed simp

text \<open>A batch: every claimed row is settled, and the only errors are failed attempts.\<close>

lemma process_settles:
  assumes "good s" "unused owner s"
    and claim: "os_ClaimOutbox S owner (UnixMilli now) outboxLease outboxBatch s = Inr (s1, claimed)"
    and order: "mset (order claimed) = mset claimed"
  obtains st errors where "process S C L owner now A order (limits, s) = (st, Inr (length claimed, errors))"
    "good (snd st)" "\<forall>c\<in>set claimed. \<not> leased c (snd st)" "set errors \<subseteq> {Errorf ''delivery failed''}"
    "length errors \<le> length claimed"
proof -
  note leases = claim_leases [OF assms(1,2) claim]
  have set: "set (order claimed) = set claimed" using order by (rule mset_eq_setD)
  have "mset (map claim_key (order claimed)) = mset (map claim_key claimed)" using order by simp
  then have "distinct (map claim_key (order claimed))" using leases by (metis mset_eq_imp_distinct_iff)
  then show thesis
    using send_all_ends [of s1 "order claimed" C L A limits] leases set mset_eq_length [OF order]
    by (intro that [of "fst (send_all S C L A (order claimed) (limits, s1))"
          "snd (send_all S C L A (order claimed) (limits, s1))"])
      (simp_all add: process_def claim case_prod_unfold Let_def)
qed

end


section \<open>The storage package as the provider\<close>

text \<open>\<open>claimID\<close> is the random id the next claim draws.\<close>

definition storage_outbox :: "string \<Rightarrow> store outboxStore" where
  "storage_outbox claimID =
     \<lparr>os_ClaimOutbox = (\<lambda>owner. ClaimOutbox owner claimID), os_DeferDelivery = DeferDelivery,
      os_MarkDelivered = MarkDelivered, os_MarkDeliveryFailed = MarkDeliveryFailed\<rparr>"

definition leased_by :: "ClaimedDelivery \<Rightarrow> store \<Rightarrow> bool" where
  "leased_by c s \<longleftrightarrow>
     (\<exists>v\<in>set (deliveries s). holds_lease (cd_OutboxID c) (cd_DestinationID c) (cd_LeaseOwner c) v)"

definition claim_unused :: "string \<Rightarrow> string \<Rightarrow> store \<Rightarrow> bool" where
  "claim_unused claimID owner s \<longleftrightarrow> (\<forall>v\<in>set (deliveries s). v_owner v \<noteq> Some (owner @ '':'' @ claimID))"

text \<open>The row updates a settlement can make.\<close>

definition settling :: "(delivery_row \<Rightarrow> delivery_row) \<Rightarrow> bool" where
  "settling f \<longleftrightarrow> (\<exists>t. f = delivered_row t) \<or> (\<exists>t. f = deferred_delivery t) \<or>
     (\<exists>t m. f = dead_row t m) \<or> (\<exists>t m. f = retry_row t m)"

lemma settlingI [simp]:
  "settling (delivered_row t)" "settling (deferred_delivery t)" "settling (dead_row t m)" "settling (retry_row t m)"
  unfolding settling_def by blast+

lemma settling_row:
  assumes "settling f"
  shows "v_owner (f v) = None" "v_rowid (f v) = v_rowid v \<and> v_outbox (f v) = v_outbox v \<and>
      v_deployment (f v) = v_deployment v \<and> v_destination (f v) = v_destination v \<and> v_revision (f v) = v_revision v"
    "delivery_row_ok v \<Longrightarrow> v_status v = DlvSending \<Longrightarrow> delivery_row_ok (f v)"
  using assms
  by (auto simp: settling_def row_outcomes delivered_row_def deferred_delivery_def dead_row_def retry_row_def
      delivery_row_ok_def)

lemma bex_update_where:
  "(\<exists>r\<in>set (update_where P f t). Q r) \<longleftrightarrow> (\<exists>r\<in>set t. Q (if P r then f r else r))"
  by (auto simp: update_where_def)

lemma finish_ends:
  assumes op: "\<And>s v. v \<in> set (deliveries s) \<Longrightarrow>
      find (holds_lease (cd_OutboxID c) (cd_DestinationID c) (cd_LeaseOwner c)) (deliveries s) = Some v \<Longrightarrow>
      \<exists>f. settling f \<and> g s = finishDelivery (cd_OutboxID c) (cd_DestinationID c) (cd_LeaseOwner c) f s"
  shows "ends_lease store_inv leased_by c g"
proof -
  let ?P = "holds_lease (cd_OutboxID c) (cd_DestinationID c) (cd_LeaseOwner c)"
  have "\<exists>s'. g s = Inr (s', ()) \<and> store_inv s' \<and> \<not> leased_by c s' \<and>
      (\<forall>c'. claim_key c' \<noteq> claim_key c \<longrightarrow> leased_by c' s' = leased_by c' s)"
    if s: "store_inv s" "v \<in> set (deliveries s)" "?P v" for s v
  proof -
    obtain f where f: "settling f" "g s = finishDelivery (cd_OutboxID c) (cd_DestinationID c) (cd_LeaseOwner c) f s"
      using op s(2) lease_found(2) [OF s] by blast
    let ?s = "s\<lparr>deliveries := update_where ?P f (deliveries s)\<rparr>"
    have g: "g s = Inr (?s, ())" using lease_found(1) [OF s] by (simp add: f(2) finishDelivery_def)
    have "store_inv ?s"
      by (rule finishDelivery_inv [OF s(1) g [unfolded f(2)]]) (use settling_row [OF f(1)] in simp_all)
    moreover have "\<not> leased_by c ?s"
      using settling_row(1) [OF f(1)] by (simp add: leased_by_def bex_update_where) (simp add: holds_lease_def)
    moreover have "leased_by c' ?s = leased_by c' s" if "claim_key c' \<noteq> claim_key c" for c'
    proof -
      have "holds_lease (cd_OutboxID c') (cd_DestinationID c') (cd_LeaseOwner c') (if ?P v then f v else v) =
          holds_lease (cd_OutboxID c') (cd_DestinationID c') (cd_LeaseOwner c') v" for v
        using that settling_row(1) [OF f(1), of v] by (auto simp: holds_lease_def claim_key_def)
      then show ?thesis by (simp add: leased_by_def bex_update_where del: if_split)
    qed
    ultimately show ?thesis using g by blast
  qed
  then show ?thesis by (auto simp: ends_lease_def leased_by_def)
qed

lemma MarkDelivered_ends:
  "ends_lease store_inv leased_by c (MarkDelivered (cd_OutboxID c) (cd_DestinationID c) (cd_LeaseOwner c) t)"
  by (rule finish_ends) (intro exI [of _ "delivered_row t"], simp add: MarkDelivered_def)

lemma DeferDelivery_ends:
  "ends_lease store_inv leased_by c (DeferDelivery (cd_OutboxID c) (cd_DestinationID c) (cd_LeaseOwner c) t)"
  by (rule finish_ends) (intro exI [of _ "deferred_delivery t"], simp add: DeferDelivery_finish)

lemma MarkDeliveryFailed_ends:
  assumes "1 \<le> k"
  shows "ends_lease store_inv leased_by c
    (MarkDeliveryFailed (cd_OutboxID c) (cd_DestinationID c) (cd_LeaseOwner c) m t nx k)"
proof (rule finish_ends)
  fix s :: store and v
  assume "find (holds_lease (cd_OutboxID c) (cd_DestinationID c) (cd_LeaseOwner c)) (deliveries s) = Some v"
  then have "MarkDeliveryFailed (cd_OutboxID c) (cd_DestinationID c) (cd_LeaseOwner c) m t nx k s =
      finishDelivery (cd_OutboxID c) (cd_DestinationID c) (cd_LeaseOwner c)
        (if k \<le> v_attempts v + 1 then dead_row t (boundedText m 16384) else retry_row nx (boundedText m 16384)) s"
    using assms by (simp add: MarkDeliveryFailed_def)
  then show "\<exists>f. settling f \<and> MarkDeliveryFailed (cd_OutboxID c) (cd_DestinationID c) (cd_LeaseOwner c) m t nx k s =
      finishDelivery (cd_OutboxID c) (cd_DestinationID c) (cd_LeaseOwner c) f s"
    by (intro exI [of _ "if k \<le> v_attempts v + 1 then dead_row t (boundedText m 16384)
        else retry_row nx (boundedText m 16384)"]) simp
qed

lemma ClaimOutbox_leased:
  assumes "store_inv s" "claim_unused claimID owner s"
    and op: "ClaimOutbox owner claimID now lease limit s = Inr (s', out)"
  shows "store_inv s' \<and> distinct (map claim_key out) \<and> (\<forall>c\<in>set out. leased_by c s')"
proof -
  note leases = ClaimOutbox_leases [OF assms(1) op assms(2) [unfolded claim_unused_def]]
  have "leased_by c s'" if "c \<in> set out" for c
  proof -
    from bspec [OF leases(3) that] obtain v where
      "lease_row (cd_LeaseOwner c) (cd_LeaseExpiresAt c) v \<in> set (deliveries s')"
      "delivery_key v = (cd_OutboxID c, cd_DestinationID c)" by blast
    then show ?thesis unfolding leased_by_def by (intro bexI) (simp_all add: holds_lease_def lease_row_def)
  qed
  then show ?thesis using leases(2) ClaimOutbox_inv [OF assms(1) op] by (simp add: claim_key_def [abs_def])
qed

interpretation ob: outbox_store "storage_outbox claimID" store_inv "claim_unused claimID" leased_by
  by unfold_locales
    (simp_all add: storage_outbox_def ClaimOutbox_leased MarkDelivered_ends DeferDelivery_ends MarkDeliveryFailed_ends)

end
