(* ===== verification/DispatchTheorems.thy ===== *)
theory DispatchTheorems
  imports Dispatch DeliveryTheorems
begin

text \<open>
  What the outbox worker promises: the delay before a retry is bounded and never overflows, one
  attempt leaves its row in exactly the state its outcome calls for, and a whole batch is settled
  whatever the order in which its sends finish.
\<close>

section \<open>Retry delays\<close>

lemma pow_shift_mono: "j \<le> k \<Longrightarrow> (2::int) ^ nat (min (max j 0) 20) \<le> 2 ^ nat (min (max k 0) 20)"
  by (intro power_increasing) auto

lemma backoff_cap_bounds: "2 * second \<le> backoff_cap k" "backoff_cap k \<le> outboxMaxBackoff"
  using pow_shift_mono [of "min k 0" k]
  by (auto simp: backoff_cap_def Let_def outboxBaseBackoff_def outboxMaxBackoff_def second_def)

text \<open>
  for a random source that keeps its contract, the delay before a retry is non-negative and
  below the cap of its attempt; the cap starts at two seconds, never falls as attempts accumulate,
  never exceeds fifteen minutes, and the shifted product fits 64 bits.
\<close>

theorem retry_delay_bounds:
  assumes rand: "\<forall>n>0. 0 \<le> rand n \<and> rand n < n" and "j \<le> k"
  shows "0 \<le> retryDelay rand k \<and> retryDelay rand k < backoff_cap k \<and>
    2 * second \<le> backoff_cap j \<and> backoff_cap j \<le> backoff_cap k \<and> backoff_cap k \<le> 900 * second \<and>
    outboxBaseBackoff * 2 ^ nat (min (max k 0) 20) \<le> maxInt"
proof -
  have cap: "1000000 < backoff_cap k" using backoff_cap_bounds(1) [of k] by (simp add: second_def)
  then have "retryDelay rand k = rand (backoff_cap k)" by (simp add: retryDelay_def Let_def)
  moreover have "0 \<le> rand (backoff_cap k) \<and> rand (backoff_cap k) < backoff_cap k" using rand cap by simp
  moreover have "backoff_cap j \<le> backoff_cap k"
    unfolding backoff_cap_def Let_def
    by (intro min.mono mult_left_mono pow_shift_mono assms(2)) (simp_all add: outboxBaseBackoff_def second_def)
  moreover have "outboxBaseBackoff * 2 ^ nat (min (max k 0) 20) \<le> outboxBaseBackoff * 2 ^ nat (min (max 20 0) 20)"
    using pow_shift_mono [of "min k 20" 20] by (auto simp: outboxBaseBackoff_def second_def min_def max_def split: if_splits)
  ultimately show ?thesis
    using backoff_cap_bounds by (simp add: outboxMaxBackoff_def outboxBaseBackoff_def second_def maxInt_def)
qed

lemma retry_delay_bounds_witness: "retryDelay (\<lambda>n. n - 1) 3 < backoff_cap 3 \<and> backoff_cap 3 = 16 * second"
  using retry_delay_bounds [of "\<lambda>n. n - 1" 2 3]
  by (simp add: backoff_cap_def Let_def outboxBaseBackoff_def outboxMaxBackoff_def second_def)

section \<open>One attempt\<close>

text \<open>The update a settlement makes on a row with an attempt count.\<close>

definition settlement_row :: "settlement \<Rightarrow> delivery_row \<Rightarrow> delivery_row" where
  "settlement_row x v =
     (case x of
        SettleDeferred t \<Rightarrow> deferred_delivery t v
      | SettleDelivered t \<Rightarrow> delivered_row t v
      | SettleFailed e t nx \<Rightarrow>
          if max_attempts e \<le> v_attempts v + 1 then dead_row t (boundedText (error_text e) 16384) v
          else retry_row nx (boundedText (error_text e) 16384) v)"

lemma max_attempts_pos: "\<not> max_attempts e < 1"
  by (auto simp: max_attempts_def maxInt_def split: option.splits bool.splits)

lemma settle_row:
  assumes "store_inv s" "v \<in> set (deliveries s)" "holds_lease (cd_OutboxID c) (cd_DestinationID c) (cd_LeaseOwner c) v"
  shows "\<exists>s'. settle (storage_outbox k) c x s = Inr (s', ()) \<and> settlement_row x v \<in> set (deliveries s')"
proof -
  note lf = lease_found [OF assms]
  have "settle (storage_outbox k) c x s =
      finishDelivery (cd_OutboxID c) (cd_DestinationID c) (cd_LeaseOwner c)
        (case x of SettleDeferred t \<Rightarrow> deferred_delivery t | SettleDelivered t \<Rightarrow> delivered_row t
         | SettleFailed e t nx \<Rightarrow> if max_attempts e \<le> v_attempts v + 1
             then dead_row t (boundedText (error_text e) 16384) else retry_row nx (boundedText (error_text e) 16384)) s"
    using lf(2) max_attempts_pos
    by (cases x) (simp_all add: settle_def storage_outbox_def DeferDelivery_finish MarkDelivered_def MarkDeliveryFailed_def)
  then show ?thesis
    using lf(1) lf(3) by (auto simp: finishDelivery_def settlement_row_def split: settlement.splits)
qed

lemma failure_delay_bounds:
  assumes "\<forall>n>0. 0 \<le> rand n \<and> rand n < n"
  shows "0 \<le> failure_delay rand c e" "failure_delay rand c e \<le> 900 * second"
proof -
  have "0 \<le> retryDelay rand n \<and> retryDelay rand n \<le> 900 * second" for n
    using assms backoff_cap_bounds [of n]
    by (auto simp: retryDelay_def Let_def outboxMaxBackoff_def second_def) (smt (verit))+
  then show "0 \<le> failure_delay rand c e" "failure_delay rand c e \<le> 900 * second"
    by (auto simp: failure_delay_def outboxMaxBackoff_def second_def split: option.splits)
qed

lemma UnixMilli_delay:
  "0 \<le> d \<Longrightarrow> d \<le> 900 * second \<Longrightarrow> UnixMilli t \<le> UnixMilli (t + d) \<and> UnixMilli (t + d) \<le> UnixMilli t + 900000"
  unfolding UnixMilli_def second_def by linarith



definition sample_codec :: wire_codec where
  "sample_codec = \<lparr>unmarshal_delivery = (\<lambda>_. Some sample_discord), unmarshal_message = (\<lambda>_. Some empty_message)\<rparr>"

definition sample_limiter :: "unit limiter" where
  "sample_limiter = \<lparr>lim_New = (\<lambda>_ _. ()), lim_Reserve = (\<lambda>_ _. (True, 0, ())), lim_Cancel = (\<lambda>_ _. ())\<rparr>"

definition sample_attempt :: "delivery_error option \<Rightarrow> attempt_env" where
  "sample_attempt e = \<lparr>ae_reserve_at = 50000000, ae_settle_at = 60000000, ae_sent = e, ae_rand = (\<lambda>n. n - 1)\<rparr>"

definition sample_claim :: ClaimedDelivery where
  "sample_claim = \<lparr>cd_OutboxID = ''out'', cd_DeploymentID = ''dep'', cd_DeploymentName = ''mon'',
     cd_DestinationID = ''destination-1'', cd_DestinationRevision = 1, cd_MessagePayload = ''hello'',
     cd_DestinationConfig = ''{}'', cd_AttemptCount = 0, cd_LeaseOwner = ''w:1'', cd_LeaseExpiresAt = 100,
     cd_CreatedAt = 30\<rparr>"

lemma sample_reserve:
  "reserveDestination sample_codec sample_limiter t sample_claim (\<lambda>_. None) = (\<lambda>_. None, Inr 0)"
  by (simp add: reserveDestination_def sample_codec_def sample_discord_def RateLimit_Validate_def RateLimit_Enabled_def)


section \<open>A batch\<close>

text \<open>
  draining a batch leaves nothing half done.  Whatever the sends return and in whatever order
  they finish, every claimed row is settled, no settlement is refused for a lost lease, the store
  keeps its invariant, and the errors reported are failed attempts, at most one per row.
\<close>

theorem batch_settled:
  assumes "store_inv s" "claim_unused claimID owner s"
    and "ClaimOutbox owner claimID (UnixMilli now) outboxLease outboxBatch s = Inr (s1, claimed)"
    and "mset (order claimed) = mset claimed"
  shows "\<exists>l s' errors. process (storage_outbox claimID) C L owner now A order (limits, s) =
      ((l, s'), Inr (length claimed, errors)) \<and>
    store_inv s' \<and> (\<forall>c\<in>set claimed. \<not> leased_by c s') \<and>
    set errors \<subseteq> {Errorf ''delivery failed''} \<and> length errors \<le> length claimed"
proof -
  have claim: "os_ClaimOutbox (storage_outbox claimID) owner (UnixMilli now) outboxLease outboxBatch s = Inr (s1, claimed)"
    using assms(3) by (simp add: storage_outbox_def)
  obtain st errors where "process (storage_outbox claimID) C L owner now A order (limits, s) = (st, Inr (length claimed, errors))"
    "store_inv (snd st)" "\<forall>c\<in>set claimed. \<not> leased_by c (snd st)" "set errors \<subseteq> {Errorf ''delivery failed''}"
    "length errors \<le> length claimed"
    by (rule ob.process_settles [OF assms(1,2) claim, where order = order, OF assms(4)])
  then show ?thesis by (intro exI [of _ "fst st"] exI [of _ "snd st"] exI [of _ errors]) simp
qed

lemma batch_settled_witness:
  "\<exists>l s' errors. process (storage_outbox ''1'') sample_codec sample_limiter ''w'' 40000000
      (\<lambda>_. sample_attempt None) rev (\<lambda>_. None, sample_applied) = ((l, s'), Inr (1, errors)) \<and> store_inv s'"
proof -
  let ?b = "hd (bindings sample_store)"
  have fresh: "claim_unused ''1'' ''w'' sample_applied" by (simp add: claim_unused_def sample_applied_eq)
  obtain s1 c where c: "ClaimOutbox ''w'' ''1'' (UnixMilli 40000000) outboxLease outboxBatch sample_applied = Inr (s1, [c])"
    by (simp add: ClaimOutbox_def claim_ids_def deliverable_def sample_applied_eq Let_def update_where_def
        count_where_def lease_row_def outboxLease_def deliveryAttemptTimeout_def outboxBatch_def second_def UnixMilli_def
        claimed_rows_def claim_join_def find_deployment_def sample_store_eq)
  show ?thesis
    using batch_settled [OF sample_inv(2) fresh c, of rev sample_codec sample_limiter
        "\<lambda>_. sample_attempt None" "\<lambda>_. None"] by auto
qed

end
