(* ===== verification/Protocol.thy ===== *)
theory Protocol
  imports Json Mentions "HOL-Library.Word" "HOL-Library.List_Lexorder" "HOL-Library.Char_ord"
    "HOL-Library.Product_Lexorder"
begin

text \<open>
  The wire protocol between the daemon and a worker: \<open>protocol.go\<close>, with the values it carries
  from \<open>event.go\<close>, \<open>info.go\<close>, \<open>plan.go\<close> and the secret references of \<open>session.go\<close>.

  A \<open>uint64\<close> is a 64-bit word.  A \<open>json.RawMessage\<close> is its bytes, empty when absent.  A Go
  map is the list of its entries in the order of their keys, the order in which \<open>encoding/json\<close>
  writes it; a pointer field is an option.  The decoder of \<open>encoding/json\<close> and \<open>time.Parse\<close> are
  in the record \<open>codec\<close>, a parameter.  The errors carry the constant part of their text.
\<close>

section \<open>Limits\<close>

definition ProtocolMajor :: int where "ProtocolMajor = 5"
definition MaxFrameBytes :: nat where "MaxFrameBytes = 4 * 1048576"
definition MaxEventsPerTransaction :: int where "MaxEventsPerTransaction = 256"
definition MaxCheckpointsPerTransaction :: nat where "MaxCheckpointsPerTransaction = 128"
definition MaxStateBytes :: nat where "MaxStateBytes = 2 * 1048576"
definition MaxCheckpointBytes :: nat where "MaxCheckpointBytes = 256 * 1024"

type_synonym uint64 = "64 word"

section \<open>Info, plans and secret references\<close>

definition kebab_char :: "char \<Rightarrow> bool" where
  "kebab_char c \<longleftrightarrow> 97 \<le> byte c \<and> byte c \<le> 122 \<or> 48 \<le> byte c \<and> byte c \<le> 57"

text \<open>The regular expression \<open>infoNamePattern\<close>: non-empty words of it, joined by dashes.\<close>

definition infoNamePattern :: "string \<Rightarrow> bool" where
  "infoNamePattern s \<longleftrightarrow> list_all (\<lambda>w. w \<noteq> '''' \<and> list_all kebab_char w) (split_on (CHR ''-'') s)"

record Info =
  in_Name :: string
  in_Description :: string

definition Info_Validate :: "Info \<Rightarrow> go_error option" where
  "Info_Validate i =
     (if in_Name i = '''' then Some (Errorf ''monitor name is required'')
      else if length (in_Name i) > 63 then Some (Errorf ''monitor name must be at most 63 bytes'')
      else if \<not> infoNamePattern (in_Name i) then Some (Errorf ''monitor name must be lower-case kebab case'')
      else None)"

record SecretRef =
  sr_Group :: string
  sr_Key :: string
  sr_Required :: bool

definition SecretRef_Validate :: "SecretRef \<Rightarrow> go_error option" where
  "SecretRef_Validate r =
     (if \<not> infoNamePattern (sr_Group r) then Some (Errorf ''secret group must be lower-case kebab case'')
      else if \<not> infoNamePattern (sr_Key r) then Some (Errorf ''secret key must be lower-case kebab case'')
      else None)"

definition secret_id :: "string \<Rightarrow> string \<Rightarrow> string" where
  "secret_id g k = g @ char_of (0::nat) # k"

definition ref_id :: "SecretRef \<Rightarrow> string" where
  "ref_id r = secret_id (sr_Group r) (sr_Key r)"

definition ref_key :: "SecretRef \<Rightarrow> string \<times> string" where
  "ref_key r = (sr_Group r, sr_Key r)"

text \<open>\<open>m[k] = r\<close>, with the requirement of an earlier reference to the same secret kept.\<close>

definition put_ref :: "SecretRef \<Rightarrow> SecretRef list \<Rightarrow> SecretRef list" where
  "put_ref r m =
     (case find (\<lambda>x. ref_id x = ref_id r) m of
        Some old \<Rightarrow> update_where (\<lambda>x. ref_id x = ref_id r) (\<lambda>_. r\<lparr>sr_Required := sr_Required r \<or> sr_Required old\<rparr>) m
      | None \<Rightarrow> m @ [r])"

fun collect_refs :: "SecretRef list \<Rightarrow> SecretRef list \<Rightarrow> SecretRef list result" where
  "collect_refs m [] = Inr m"
| "collect_refs m (r # rs) =
     (case SecretRef_Validate r of Some e \<Rightarrow> Inl e | None \<Rightarrow> collect_refs (put_ref r m) rs)"

definition normalizeSecretRefs :: "SecretRef list \<Rightarrow> SecretRef list result" where
  "normalizeSecretRefs refs =
     (case collect_refs [] refs of Inl e \<Rightarrow> Inl e | Inr m \<Rightarrow> Inr (sort_key ref_key m))"

record PlanDescription =
  pd_Kind :: string
  pd_Interval :: int
  pd_Timeout :: int
  pd_Secrets :: "SecretRef list"

definition PlanDescription_Validate :: "PlanDescription \<Rightarrow> go_error option" where
  "PlanDescription_Validate p =
     (if pd_Timeout p < 0 then Some (Errorf ''plan timeout cannot be negative'')
      else if length (pd_Secrets p) > 128 then Some (Errorf ''plan has too many secret refs'')
      else case normalizeSecretRefs (pd_Secrets p) of
        Inl e \<Rightarrow> Some e
      | Inr _ \<Rightarrow>
          if pd_Kind p = ''continuous'' then
            (if pd_Interval p \<noteq> 0 then Some (Errorf ''invalid continuous plan shape'') else None)
          else if pd_Kind p = ''every'' then
            (if pd_Interval p \<le> 0 then Some (Errorf ''invalid polling plan shape'') else None)
          else Some (Errorf ''unsupported plan kind''))"

subsection \<open>Plans as a monitor builds them\<close>

datatype planKind = planInvalid | planContinuous | planEvery

record commonOptions =
  co_secrets :: "SecretRef list"
  co_timeout :: int
  co_err :: "go_error option"

datatype CommonOption = WithTimeout int | WithSecrets "SecretRef list"

fun first_invalid_ref :: "SecretRef list \<Rightarrow> go_error option" where
  "first_invalid_ref [] = None"
| "first_invalid_ref (r # rs) = (case SecretRef_Validate r of Some e \<Rightarrow> Some e | None \<Rightarrow> first_invalid_ref rs)"

definition apply_option :: "CommonOption \<Rightarrow> commonOptions \<Rightarrow> commonOptions \<times> go_error option" where
  "apply_option opt o0 =
     (case opt of
        WithTimeout v \<Rightarrow>
          if v < 0 then (o0, Some (Errorf ''callback timeout cannot be negative''))
          else (o0\<lparr>co_timeout := v\<rparr>, None)
      | WithSecrets refs \<Rightarrow> (case first_invalid_ref refs of
            Some e \<Rightarrow> (o0, Some e)
          | None \<Rightarrow> (o0\<lparr>co_secrets := co_secrets o0 @ refs\<rparr>, None)))"

text \<open>\<open>errors.Join\<close>, of which only whether it is nil matters.\<close>

definition join_error :: "go_error option \<Rightarrow> go_error option \<Rightarrow> go_error option" where
  "join_error a b = (case a of Some e \<Rightarrow> Some e | None \<Rightarrow> b)"

fun applyOptions_from :: "commonOptions \<Rightarrow> CommonOption option list \<Rightarrow> commonOptions" where
  "applyOptions_from o0 [] = o0"
| "applyOptions_from o0 (None # opts) =
     applyOptions_from (o0\<lparr>co_err := join_error (co_err o0) (Some (Errorf ''nil plan option''))\<rparr>) opts"
| "applyOptions_from o0 (Some opt # opts) =
     (let (o1, e) = apply_option opt o0
      in applyOptions_from (o1\<lparr>co_err := join_error (co_err o0) e\<rparr>) opts)"

definition applyOptions :: "CommonOption option list \<Rightarrow> commonOptions" where
  "applyOptions opts = applyOptions_from \<lparr>co_secrets = [], co_timeout = 0, co_err = None\<rparr> opts"

text \<open>The callbacks are kept as whether they are nil.\<close>

record planNode =
  pn_kind :: planKind
  pn_continuous :: bool
  pn_check :: bool
  pn_interval :: int
  pn_options :: commonOptions

definition Continuous :: "bool \<Rightarrow> CommonOption option list \<Rightarrow> planNode" where
  "Continuous fn opts = \<lparr>pn_kind = planContinuous, pn_continuous = fn, pn_check = False, pn_interval = 0,
     pn_options = applyOptions opts\<rparr>"

definition Every :: "int \<Rightarrow> bool \<Rightarrow> CommonOption option list \<Rightarrow> planNode" where
  "Every interval fn opts = \<lparr>pn_kind = planEvery, pn_continuous = False, pn_check = fn,
     pn_interval = interval, pn_options = applyOptions opts\<rparr>"

definition normalizePlan :: "planNode option \<Rightarrow> PlanDescription result" where
  "normalizePlan p =
     (case p of
        None \<Rightarrow> Inl (Errorf ''plan is zero or invalid'')
      | Some n \<Rightarrow> (case co_err (pn_options n) of
          Some e \<Rightarrow> Inl e
        | None \<Rightarrow> (case normalizeSecretRefs (co_secrets (pn_options n)) of
            Inl e \<Rightarrow> Inl e
          | Inr refs \<Rightarrow>
              let d = \<lparr>pd_Kind = '''', pd_Interval = 0, pd_Timeout = co_timeout (pn_options n), pd_Secrets = refs\<rparr> in
              case pn_kind n of
                planContinuous \<Rightarrow>
                  if \<not> pn_continuous n then Inl (Errorf ''continuous callback is nil'')
                  else Inr (d\<lparr>pd_Kind := ''continuous''\<rparr>)
              | planEvery \<Rightarrow>
                  if \<not> pn_check n then Inl (Errorf ''poll callback is nil'')
                  else if pn_interval n \<le> 0 then Inl (Errorf ''poll interval must be positive'')
                  else Inr (d\<lparr>pd_Kind := ''every'', pd_Interval := pn_interval n\<rparr>)
              | planInvalid \<Rightarrow> Inl (Errorf ''unsupported plan''))))"

definition validateMonitor :: "(Info \<times> planNode option) option \<Rightarrow> PlanDescription result" where
  "validateMonitor m =
     (case m of
        None \<Rightarrow> Inl (Errorf ''monitor is nil'')
      | Some (info, plan) \<Rightarrow> (case Info_Validate info of Some e \<Rightarrow> Inl e | None \<Rightarrow> normalizePlan plan))"

definition SecretRefs :: "PlanDescription \<Rightarrow> SecretRef list" where
  "SecretRefs d = sort_key ref_key (case normalizeSecretRefs (pd_Secrets d) of Inr refs \<Rightarrow> refs | Inl _ \<Rightarrow> [])"

text \<open>\<open>validateHandshakeSecrets\<close> (runtime.go) on the supplied groups, keys and values.\<close>

fun unauthorized :: "SecretRef list \<Rightarrow> (string \<times> (string \<times> string) list) list \<Rightarrow> bool" where
  "unauthorized allowed [] = False"
| "unauthorized allowed ((g, keys) # rest) =
     (list_ex (\<lambda>(k, v). \<not> list_ex (\<lambda>r. ref_id r = secret_id g k) allowed) keys \<or> unauthorized allowed rest)"

definition supplied_ids :: "(string \<times> (string \<times> string) list) list \<Rightarrow> string list" where
  "supplied_ids supplied = concat (map (\<lambda>(g, keys). map (\<lambda>(k, v). secret_id g k) keys) supplied)"

definition validateHandshakeSecrets ::
    "PlanDescription \<Rightarrow> (string \<times> (string \<times> string) list) list \<Rightarrow> go_error option" where
  "validateHandshakeSecrets desc supplied =
     (let allowed = SecretRefs desc in
      if unauthorized allowed supplied then Some (Errorf ''unauthorized secret in handshake'')
      else if list_ex (\<lambda>r. sr_Required r \<and> ref_id r \<notin> set (supplied_ids supplied)) allowed
      then Some (Errorf ''required secret is unavailable'') else None)"


section \<open>Events\<close>

record EventField =
  evf_Name :: string
  evf_Value :: string
  evf_Inline :: bool

record Event =
  ev_ID :: string
  ev_CorrectionOf :: string
  ev_Severity :: string
  ev_Title :: string
  ev_Body :: string
  ev_URL :: string
  ev_Description :: string
  ev_Image :: string
  ev_Thumbnail :: string
  ev_Color :: int
  ev_Fields :: "EventField list"
  ev_Footer :: string
  ev_Mentions :: "string list option"

definition Severity_Validate :: "string \<Rightarrow> go_error option" where
  "Severity_Validate s =
     (if s = ''info'' \<or> s = ''warn'' \<or> s = ''critical'' then None
      else Some (Errorf ''unsupported event severity''))"

fun first_bad_mention :: "string list \<Rightarrow> go_error option" where
  "first_bad_mention [] = None"
| "first_bad_mention (x # xs) = (case ParseMention x of Inl e \<Rightarrow> Some e | Inr _ \<Rightarrow> first_bad_mention xs)"

definition validCorrection :: "Event \<Rightarrow> go_error option" where
  "validCorrection e =
     (if ev_CorrectionOf e \<noteq> '''' then
        (if TrimSpace (ev_CorrectionOf e) = '''' then Some (Errorf ''corrected event identity is blank'')
         else if length (ev_CorrectionOf e) > 512 then Some (Errorf ''corrected event identity exceeds limit'')
         else if ev_CorrectionOf e = ev_ID e then Some (Errorf ''correction must have its own event identity'')
         else None)
      else None)"

definition Event_Validate :: "Event \<Rightarrow> go_error option" where
  "Event_Validate e =
     (if TrimSpace (ev_ID e) = '''' then Some (Errorf ''event id is required'')
      else if length (ev_ID e) > 512 then Some (Errorf ''event identity exceeds limit'')
      else case validCorrection e of
        Some err \<Rightarrow> Some err
      | None \<Rightarrow>
          if TrimSpace (ev_Title e) = '''' then Some (Errorf ''event title is required'')
          else if ev_Color e < 0 \<or> ev_Color e > 0xFFFFFF
          then Some (Errorf ''event color must be between 0 and 0xFFFFFF'')
          else case first_bad_mention (case ev_Mentions e of None \<Rightarrow> [] | Some ms \<Rightarrow> ms) of
            Some err \<Rightarrow> Some err
          | None \<Rightarrow> if ev_Severity e \<noteq> '''' then Severity_Validate (ev_Severity e) else None)"

section \<open>Policies\<close>

record DeploymentPolicy =
  po_FailureThreshold :: int
  po_MaxPerTransaction :: int
  po_Retention :: int

definition DeploymentPolicy_Validate :: "DeploymentPolicy \<Rightarrow> go_error option" where
  "DeploymentPolicy_Validate p =
     (if po_FailureThreshold p < 1 then Some (Errorf ''health failure threshold must be positive'')
      else if po_MaxPerTransaction p < 1 \<or> po_MaxPerTransaction p > MaxEventsPerTransaction
      then Some (Errorf ''events max per transaction must be between 1 and 256'')
      else if po_Retention p < 1000000 then Some (Errorf ''events retention must be at least 1ms'')
      else None)"

section \<open>Frames from the daemon\<close>

record Hello =
  he_Major :: int
  he_Minor :: int
  he_DeploymentID :: string
  he_DeploymentName :: string
  he_Generation :: uint64
  he_WorkerToken :: string
  he_ArtifactHash :: string
  he_ConfigHash :: string
  he_StateRevision :: int
  he_State :: string
  he_Checkpoints :: "(string \<times> string) list"
  he_Secrets :: "(string \<times> (string \<times> string) list) list"
  he_Policy :: DeploymentPolicy

record Start =
  st_Plan :: PlanDescription
  st_Once :: bool

record Stop =
  sp_Reason :: string
  sp_Deadline :: string

record TransactionAck =
  ta_DeploymentID :: string
  ta_Generation :: uint64
  ta_Sequence :: uint64
  ta_PayloadHash :: string
  ta_ResultRevision :: int
  ta_Status :: string

record DaemonFrame =
  df_Type :: string
  df_Hello :: "Hello option"
  df_Start :: "Start option"
  df_Ack :: "TransactionAck option"
  df_Stop :: "Stop option"

definition validSHA256 :: "string \<Rightarrow> bool" where
  "validSHA256 v = (if length v \<noteq> 64 then False else hex_decode v \<noteq> None)"

fun validate_checkpoints :: "go_error \<Rightarrow> (string \<times> string) list \<Rightarrow> go_error option" where
  "validate_checkpoints err [] = None"
| "validate_checkpoints err ((source, raw) # rest) =
     (if source = '''' \<or> length source > 128 \<or> length raw > MaxCheckpointBytes \<or> \<not> json_valid raw
      then Some err else validate_checkpoints err rest)"

definition payloads :: "bool list \<Rightarrow> nat" where
  "payloads present = length (filter id present)"

definition Hello_Validate :: "Hello \<Rightarrow> go_error option" where
  "Hello_Validate h =
     (if he_Major h \<noteq> ProtocolMajor then Some (Errorf ''unsupported protocol major'')
      else if he_Minor h \<noteq> 0 then Some (Errorf ''unsupported protocol minor'')
      else if he_DeploymentID h = '''' \<or> he_Generation h = 0 \<or> he_WorkerToken h = ''''
      then Some (Errorf ''hello identity, generation, and token are required'')
      else if length (he_State h) = 0 \<or> \<not> json_valid (he_State h)
      then Some (Errorf ''hello state must be valid JSON'')
      else if length (he_State h) > MaxStateBytes \<or> length (he_DeploymentID h) > 128 \<or>
        length (he_DeploymentName h) > 128 \<or> length (he_WorkerToken h) > 512
      then Some (Errorf ''hello field exceeds protocol limit'')
      else if length (he_Checkpoints h) > MaxCheckpointsPerTransaction
      then Some (Errorf ''hello has too many checkpoints'')
      else case validate_checkpoints (Errorf ''invalid hello checkpoint'') (he_Checkpoints h) of
        Some err \<Rightarrow> Some err
      | None \<Rightarrow> (case DeploymentPolicy_Validate (he_Policy h) of
          Some err \<Rightarrow> Some (Errorf ''invalid deployment policy'')
        | None \<Rightarrow> None))"

definition Ack_Validate :: "TransactionAck \<Rightarrow> go_error option" where
  "Ack_Validate a =
     (if ta_DeploymentID a = '''' \<or> ta_Generation a = 0 \<or> ta_Sequence a = 0 \<or> ta_ResultRevision a < 0 \<or>
        \<not> validSHA256 (ta_PayloadHash a) \<or> (ta_Status a \<noteq> ''accepted'' \<and> ta_Status a \<noteq> ''replayed'')
      then Some (Errorf ''invalid transaction ACK'') else None)"

definition DaemonFrame_Validate :: "(string \<Rightarrow> int option) \<Rightarrow> DaemonFrame \<Rightarrow> go_error option" where
  "DaemonFrame_Validate parse_time i =
     (if payloads [df_Hello i \<noteq> None, df_Start i \<noteq> None, df_Ack i \<noteq> None, df_Stop i \<noteq> None] \<noteq> 1
      then Some (Errorf ''inbound frame must contain exactly one payload'')
      else if df_Type i = ''hello'' then
        (case df_Hello i of None \<Rightarrow> Some (Errorf ''hello payload missing'') | Some h \<Rightarrow> Hello_Validate h)
      else if df_Type i = ''start'' then
        (case df_Start i of None \<Rightarrow> Some (Errorf ''start payload missing'')
         | Some s \<Rightarrow> (case PlanDescription_Validate (st_Plan s) of
             Some e \<Rightarrow> Some (Errorf ''invalid start plan'') | None \<Rightarrow> None))
      else if df_Type i = ''ack'' then
        (case df_Ack i of None \<Rightarrow> Some (Errorf ''ack payload missing'') | Some a \<Rightarrow> Ack_Validate a)
      else if df_Type i = ''stop'' then
        (case df_Stop i of None \<Rightarrow> Some (Errorf ''stop payload missing'')
         | Some s \<Rightarrow>
             if sp_Deadline s = '''' then Some (Errorf ''stop deadline is required'')
             else if parse_time (sp_Deadline s) = None then Some (Errorf ''stop deadline is invalid'')
             else None)
      else Some (Errorf ''unsupported inbound frame type''))"

section \<open>Frames from a worker\<close>

record WireTransaction =
  wt_DeploymentID :: string
  wt_Generation :: uint64
  wt_WorkerToken :: string
  wt_Sequence :: uint64
  wt_BaseStateRevision :: int
  wt_NextState :: string
  wt_Checkpoints :: "(string \<times> string) list"
  wt_Events :: "Event list"
  wt_PayloadHash :: string

record MonitorFrame =
  mf_Info :: Info
  mf_Plan :: PlanDescription
  mf_State :: string

record RunFrame =
  rf_Generation :: uint64
  rf_Status :: string
  rf_Duration :: int
  rf_Error :: string

record StoppedFrame =
  sf_Generation :: uint64
  sf_Clean :: bool
  sf_Error :: string
  sf_RunFailureReported :: bool

record WorkerFrame =
  wf_Type :: string
  wf_Monitor :: "MonitorFrame option"
  wf_Ready :: "uint64 option"
  wf_Run :: "RunFrame option"
  wf_Transaction :: "WireTransaction option"
  wf_Stopped :: "StoppedFrame option"

definition Monitor_Validate :: "MonitorFrame \<Rightarrow> go_error option" where
  "Monitor_Validate m =
     (case Info_Validate (mf_Info m) of
        Some e \<Rightarrow> Some e
      | None \<Rightarrow> (case PlanDescription_Validate (mf_Plan m) of
          Some e \<Rightarrow> Some e
        | None \<Rightarrow>
            if length (mf_State m) > 0 \<and> (length (mf_State m) > MaxStateBytes \<or> \<not> json_valid (mf_State m))
            then Some (Errorf ''monitor state is invalid or too large'') else None))"

definition Run_Validate :: "RunFrame \<Rightarrow> go_error option" where
  "Run_Validate r =
     (if rf_Generation r = 0 \<or> rf_Duration r < 0 \<or>
        (rf_Status r \<noteq> ''success'' \<and> rf_Status r \<noteq> ''failure'' \<and> rf_Status r \<noteq> ''deferred'')
      then Some (Errorf ''invalid run outcome'')
      else if (rf_Status r \<noteq> ''success'') \<noteq> (rf_Error r \<noteq> '''') \<or> length (rf_Error r) > MaxOperationalErrorBytes
      then Some (Errorf ''run error does not match status or exceeds limit'') else None)"

fun validate_events :: "Event list \<Rightarrow> go_error option" where
  "validate_events [] = None"
| "validate_events (e # es) = (case Event_Validate e of Some err \<Rightarrow> Some err | None \<Rightarrow> validate_events es)"

definition Transaction_Validate :: "WireTransaction \<Rightarrow> go_error option" where
  "Transaction_Validate t =
     (if wt_DeploymentID t = '''' \<or> wt_Generation t = 0 \<or> wt_Sequence t = 0 \<or> wt_WorkerToken t = '''' \<or>
        \<not> validSHA256 (wt_PayloadHash t) \<or> wt_BaseStateRevision t < 0 \<or> length (wt_NextState t) = 0 \<or>
        \<not> json_valid (wt_NextState t)
      then Some (Errorf ''transaction identity, sequence, token, and hash are required'')
      else if length (wt_NextState t) > MaxStateBytes then Some (Errorf ''transaction state exceeds limit'')
      else if length (wt_Checkpoints t) > MaxCheckpointsPerTransaction
      then Some (Errorf ''transaction has too many checkpoints'')
      else case validate_checkpoints (Errorf ''invalid transaction checkpoint'') (wt_Checkpoints t) of
        Some err \<Rightarrow> Some err
      | None \<Rightarrow>
          if int (length (wt_Events t)) > MaxEventsPerTransaction then Some (Errorf ''transaction has too many events'')
          else validate_events (wt_Events t))"

definition Stopped_Validate :: "StoppedFrame \<Rightarrow> go_error option" where
  "Stopped_Validate s =
     (if sf_Generation s = 0 then Some (Errorf ''stopped generation is required'')
      else if sf_Clean s \<and> (sf_Error s \<noteq> '''' \<or> sf_RunFailureReported s)
      then Some (Errorf ''clean stop cannot contain an error'')
      else if sf_RunFailureReported s \<and> sf_Error s = ''''
      then Some (Errorf ''reported run failure requires a stop error'')
      else if length (sf_Error s) > MaxOperationalErrorBytes then Some (Errorf ''stopped error exceeds limit'')
      else None)"

definition WorkerFrame_Validate :: "WorkerFrame \<Rightarrow> go_error option" where
  "WorkerFrame_Validate w =
     (if payloads [wf_Monitor w \<noteq> None, wf_Ready w \<noteq> None, wf_Run w \<noteq> None, wf_Transaction w \<noteq> None,
        wf_Stopped w \<noteq> None] \<noteq> 1
      then Some (Errorf ''outbound frame must contain exactly one payload'')
      else if wf_Type w = ''monitor'' then
        (case wf_Monitor w of None \<Rightarrow> Some (Errorf ''monitor payload missing'') | Some m \<Rightarrow> Monitor_Validate m)
      else if wf_Type w = ''ready'' then
        (case wf_Ready w of None \<Rightarrow> Some (Errorf ''ready payload missing'')
         | Some g \<Rightarrow> if g = 0 then Some (Errorf ''ready generation is required'') else None)
      else if wf_Type w = ''run'' then
        (case wf_Run w of None \<Rightarrow> Some (Errorf ''run payload missing'') | Some r \<Rightarrow> Run_Validate r)
      else if wf_Type w = ''transaction'' then
        (case wf_Transaction w of None \<Rightarrow> Some (Errorf ''transaction payload missing'')
         | Some t \<Rightarrow> Transaction_Validate t)
      else if wf_Type w = ''stopped'' then
        (case wf_Stopped w of None \<Rightarrow> Some (Errorf ''stopped payload missing'') | Some s \<Rightarrow> Stopped_Validate s)
      else Some (Errorf ''unsupported outbound frame type''))"

section \<open>Decoding\<close>

text \<open>
  \<open>strictDecode\<close>: \<open>decode\<close> is the JSON decoder with unknown fields disallowed, applied to the
  first value; \<open>None\<close> is its error, and the string what follows the value.
\<close>

definition strictDecode :: "(string \<Rightarrow> ('a \<times> string) option) \<Rightarrow> (string \<Rightarrow> bool) \<Rightarrow> string \<Rightarrow> 'a result" where
  "strictDecode decode at_eof raw =
     (if length raw > MaxFrameBytes then Inl (Errorf ''protocol frame exceeds maximum size'')
      else case decode raw of
        None \<Rightarrow> Inl (Errorf ''decode protocol frame'')
      | Some (v, rest) \<Rightarrow>
          if \<not> at_eof rest then Inl (Errorf ''protocol frame contains trailing data'') else Inr v)"

definition DecodeDaemonFrame ::
    "(string \<Rightarrow> (DaemonFrame \<times> string) option) \<Rightarrow> (string \<Rightarrow> bool) \<Rightarrow> (string \<Rightarrow> int option) \<Rightarrow>
     string \<Rightarrow> DaemonFrame result" where
  "DecodeDaemonFrame decode at_eof parse_time raw =
     (case strictDecode decode at_eof raw of
        Inl e \<Rightarrow> Inl e
      | Inr v \<Rightarrow> (case DaemonFrame_Validate parse_time v of Some e \<Rightarrow> Inl e | None \<Rightarrow> Inr v))"

definition DecodeWorkerFrame ::
    "(string \<Rightarrow> (WorkerFrame \<times> string) option) \<Rightarrow> (string \<Rightarrow> bool) \<Rightarrow> string \<Rightarrow> WorkerFrame result" where
  "DecodeWorkerFrame decode at_eof raw =
     (case strictDecode decode at_eof raw of
        Inl e \<Rightarrow> Inl e
      | Inr v \<Rightarrow> (case WorkerFrame_Validate v of Some e \<Rightarrow> Inl e | None \<Rightarrow> Inr v))"

end
