(* ===== verification/WireHash.thy ===== *)
theory WireHash
  imports Protocol
begin

text \<open>
  The payload hash that identifies a transaction on the wire: \<open>HashTransactionFrame\<close>
  (coordinator.go) and the daemon's check of it, \<open>verifyWireHash\<close> (internal/daemon/worker.go).

  The JSON encoder and SHA-256 are in the record \<open>hashing\<close>, a parameter; numbers are written as
  \<open>encoding/json\<close> writes them.  The lemmas show that the length-prefixed concatenation that is
  hashed determines every field.
\<close>

record hashing =
  sum256 :: "string \<Rightarrow> string"
  json_string :: "string \<Rightarrow> string"
  json_raw :: "string \<Rightarrow> string"
  json_map :: "(string \<times> string) list \<Rightarrow> string"
  json_events :: "Event list \<Rightarrow> string"

text \<open>\<open>binary.BigEndian.PutUint64\<close>.\<close>

definition put_uint64 :: "uint64 \<Rightarrow> string" where
  "put_uint64 w = map (\<lambda>i. char_of (unat w div 256 ^ (7 - i) mod 256)) [0..<8]"

definition hash_field :: "string \<Rightarrow> string" where
  "hash_field raw = put_uint64 (of_nat (length raw)) @ raw"

text \<open>An absent collection is written \<open>null\<close>, and an empty one is made absent first.\<close>

definition transaction_fields :: "hashing \<Rightarrow> WireTransaction \<Rightarrow> string list" where
  "transaction_fields H t =
     [json_string H (wt_DeploymentID t), utoa (unat (wt_Generation t)), json_string H (wt_WorkerToken t),
      utoa (unat (wt_Sequence t)), itoa (wt_BaseStateRevision t), json_raw H (wt_NextState t),
      (if length (wt_Checkpoints t) = 0 then ''null'' else json_map H (wt_Checkpoints t)),
      (if length (wt_Events t) = 0 then ''null'' else json_events H (wt_Events t))]"

definition HashTransactionFrame :: "hashing \<Rightarrow> WireTransaction \<Rightarrow> string" where
  "HashTransactionFrame H t = sum256 H (concat (map hash_field (transaction_fields H t)))"

definition verifyWireHash :: "hashing \<Rightarrow> WireTransaction \<Rightarrow> go_error option" where
  "verifyWireHash H t =
     (if wt_PayloadHash t \<noteq> hex_encode (HashTransactionFrame H t) then Some ErrPayloadConflict else None)"

section \<open>The concatenation determines the fields\<close>

lemma length_put_uint64 [simp]: "length (put_uint64 w) = 8"
  by (simp add: put_uint64_def)

lemma digits_inj:
  fixes m n b :: nat
  assumes "\<forall>i<k. m div b ^ i mod b = n div b ^ i mod b" "m < b ^ k" "n < b ^ k" "0 < b"
  shows "m = n"
  using assms
proof (induction k arbitrary: m n)
  case (Suc k)
  have "m div b = n div b"
  proof (rule Suc.IH)
    show "\<forall>i<k. m div b div b ^ i mod b = n div b div b ^ i mod b"
    proof (intro allI impI)
      fix i assume "i < k"
      then have "m div b ^ Suc i mod b = n div b ^ Suc i mod b" using Suc.prems(1) by blast
      then show "m div b div b ^ i mod b = n div b div b ^ i mod b" by (simp add: div_mult2_eq)
    qed
    show "m div b < b ^ k" "n div b < b ^ k"
      using Suc.prems(2-4) by (simp_all add: less_mult_imp_div_less mult.commute)
  qed (use Suc.prems in simp)
  moreover have "m mod b = n mod b" using Suc.prems(1) by (metis div_by_1 power_0 zero_less_Suc)
  ultimately show ?case by (metis mult_div_mod_eq)
qed simp

lemma put_uint64_inj:
  assumes "put_uint64 v = put_uint64 w"
  shows "v = w"
proof -
  have byte: "unat v div 256 ^ (7 - i) mod 256 = unat w div 256 ^ (7 - i) mod 256" if "i < 8" for i
  proof -
    have "of_char (put_uint64 v ! i) = (of_char (put_uint64 w ! i) :: nat)" using assms by simp
    then show ?thesis using that by (simp add: put_uint64_def)
  qed
  have "unat v div 256 ^ i mod 256 = unat w div 256 ^ i mod 256" if "i < 8" for i
    using byte [of "7 - i"] that by simp
  then have "unat v = unat w"
    using unsigned_less [of v, where ?'a = nat] unsigned_less [of w, where ?'a = nat]
    by (intro digits_inj [of 8 _ 256]) simp_all
  then show ?thesis by (rule word_unat_eq_iff [THEN iffD2])
qed

lemma hash_field_inj:
  assumes "hash_field a @ x = hash_field b @ y" "length a < 2 ^ 64" "length b < 2 ^ 64"
  shows "a = b \<and> x = y"
proof -
  have "put_uint64 (of_nat (length a)) = put_uint64 (of_nat (length b)) \<and> a @ x = b @ y"
    using assms(1) by (simp add: hash_field_def)
  then have "(of_nat (length a) :: uint64) = of_nat (length b)" "a @ x = b @ y"
    by (simp_all add: put_uint64_inj)
  moreover from this(1) have "length a = length b"
    using assms(2,3) by (simp add: word_of_nat_eq_iff take_bit_nat_eq_self)
  ultimately show ?thesis by simp
qed

lemma hash_fields_inj:
  "concat (map hash_field as) = concat (map hash_field bs) \<Longrightarrow> length as = length bs \<Longrightarrow>
   \<forall>a\<in>set as \<union> set bs. length a < 2 ^ 64 \<Longrightarrow> as = bs"
proof (induction as arbitrary: bs)
  case (Cons a as)
  then obtain b bs' where bs: "bs = b # bs'" by (cases bs) auto
  have "a = b \<and> concat (map hash_field as) = concat (map hash_field bs')"
    by (rule hash_field_inj) (use Cons.prems in \<open>auto simp: bs\<close>)
  with Cons bs show ?case by auto
qed simp

end
