(* ===== verification/ProtocolTheorems.thy ===== *)
theory ProtocolTheorems
  imports WireHash
begin

text \<open>
  What the protocol's plain data promise: secret references in their normal form, the secrets of
  a handshake against the plan, the plans a monitor's code can produce, and what the payload hash
  binds.
\<close>

section \<open>Secret references\<close>

lemma kebab_no_nul: "infoNamePattern s \<Longrightarrow> char_of (0::nat) \<notin> set s"
proof -
  have chars: "c \<in> set s \<Longrightarrow> c = CHR ''-'' \<or> (\<exists>w\<in>set (split_on (CHR ''-'') s). c \<in> set w)" for c s
    by (induction s) (auto split: list.splits)
  have "\<not> kebab_char (char_of (0::nat))" by (simp add: kebab_char_def byte_def)
  moreover have "char_of (0::nat) \<noteq> CHR ''-''" by (simp add: char_of_def)
  ultimately show "infoNamePattern s \<Longrightarrow> char_of (0::nat) \<notin> set s"
    using chars [of "char_of (0::nat)" s] by (auto simp: infoNamePattern_def list_all_iff)
qed

lemma nul_split:
  "c \<notin> set g \<Longrightarrow> c \<notin> set k \<Longrightarrow> g @ c # k = g' @ c # k' \<Longrightarrow> g = g' \<and> k = k'"
proof (induction g arbitrary: g')
  case Nil
  then show ?case by (cases g') auto
next
  case (Cons x g)
  then show ?case by (cases g') auto
qed

lemma valid_ref_id:
  assumes "SecretRef_Validate r = None"
  shows "ref_id r = secret_id g k \<longleftrightarrow> sr_Group r = g \<and> sr_Key r = k"
proof -
  have "infoNamePattern (sr_Group r)" "infoNamePattern (sr_Key r)"
    using assms by (auto simp: SecretRef_Validate_def split: if_splits)
  then show ?thesis
    using nul_split [OF kebab_no_nul kebab_no_nul, of "sr_Group r" "sr_Key r" g k]
    by (auto simp: ref_id_def secret_id_def)
qed

lemma valid_ref_key:
  "SecretRef_Validate r = None \<Longrightarrow> ref_id r = ref_id x \<longleftrightarrow> ref_key r = ref_key x"
  using valid_ref_id [of r "sr_Group x" "sr_Key x"] by (auto simp: ref_id_def ref_key_def)

text \<open>What \<open>m\<close> holds after the references \<open>seen\<close>.\<close>

definition collected :: "SecretRef list \<Rightarrow> SecretRef list \<Rightarrow> bool" where
  "collected seen m \<longleftrightarrow> uniq ref_id m \<and> ref_id ` set m = ref_id ` set seen \<and>
     (\<forall>r\<in>set m. SecretRef_Validate r = None \<and>
        (sr_Required r \<longleftrightarrow> (\<exists>x\<in>set seen. ref_id x = ref_id r \<and> sr_Required x)))"

lemma ref_id_required [simp]: "ref_id (r\<lparr>sr_Required := b\<rparr>) = ref_id r"
  by (simp add: ref_id_def)

lemma Validate_required [simp]: "SecretRef_Validate (r\<lparr>sr_Required := b\<rparr>) = SecretRef_Validate r"
  by (simp add: SecretRef_Validate_def)

lemma put_ref_collected:
  assumes "collected seen m" "SecretRef_Validate r = None"
  shows "collected (seen @ [r]) (put_ref r m)"
proof (cases "find (\<lambda>x. ref_id x = ref_id r) m")
  case None
  then have none: "\<forall>x\<in>set m. ref_id x \<noteq> ref_id r" by (auto simp: find_None_iff)
  then have new: "ref_id r \<notin> ref_id ` set m" by auto
  then have "ref_id r \<notin> ref_id ` set seen" using assms(1) by (simp add: collected_def)
  then have "\<forall>x\<in>set seen. ref_id x \<noteq> ref_id r" by (metis imageI)
  then show ?thesis
    using assms None none by (auto simp: collected_def put_ref_def uniq_snoc)
next
  case (Some old)
  then have old: "old \<in> set m" "ref_id old = ref_id r" by (auto simp: find_Some_iff)
  let ?f = "\<lambda>_. r\<lparr>sr_Required := sr_Required r \<or> sr_Required old\<rparr>"
  have key: "ref_id (?f x) = ref_id x" if "ref_id x = ref_id r" for x using that by simp
  have m: "put_ref r m = update_where (\<lambda>x. ref_id x = ref_id r) ?f m" by (simp add: put_ref_def Some)
  have "uniq ref_id (put_ref r m)" "ref_id ` set (put_ref r m) = ref_id ` set m"
    using assms(1) key unfolding m collected_def
    by (auto simp only: uniq_update_where_iff image_update_where)
  moreover have "ref_id r \<in> ref_id ` set m" using old by (metis imageI)
  moreover have "SecretRef_Validate y = None \<and>
      (sr_Required y \<longleftrightarrow> (\<exists>x\<in>set (seen @ [r]). ref_id x = ref_id y \<and> sr_Required x))"
    if "y \<in> set (put_ref r m)" for y
  proof -
    have old_req: "sr_Required old \<longleftrightarrow> (\<exists>x\<in>set seen. ref_id x = ref_id r \<and> sr_Required x)"
      using assms(1) old unfolding collected_def by metis
    from that [unfolded m] show ?thesis
    proof (cases rule: update_where_E)
      case 1
      then show ?thesis using assms(1) by (auto simp: collected_def)
    next
      case (2 x)
      then show ?thesis using old_req assms(2) by auto
    qed
  qed
  ultimately show ?thesis using assms(1) by (auto simp: collected_def)
qed

lemma collect_refs_collected:
  "collect_refs m rs = Inr out \<Longrightarrow> collected seen m \<Longrightarrow> collected (seen @ rs) out"
proof (induction m rs arbitrary: seen rule: collect_refs.induct)
  case (2 m r rs)
  then have v: "SecretRef_Validate r = None" by (auto split: option.splits)
  show ?case
    using 2(1) [OF v _ put_ref_collected [OF 2(3) v]] 2(2) v by simp
qed simp

lemma collect_refs_valid: "(\<exists>out. collect_refs m rs = Inr out) \<longleftrightarrow> (\<forall>r\<in>set rs. SecretRef_Validate r = None)"
  by (induction m rs rule: collect_refs.induct) (auto split: option.splits)

lemma normalize_valid: "(\<exists>out. normalizeSecretRefs rs = Inr out) \<longleftrightarrow> (\<forall>r\<in>set rs. SecretRef_Validate r = None)"
  unfolding collect_refs_valid [of "[]", symmetric] by (auto simp: normalizeSecretRefs_def split: sum.split)

lemma normalize_collected:
  assumes "normalizeSecretRefs rs = Inr out"
  shows "collected rs out" "sorted (map ref_key out)"
proof -
  obtain m where m: "collect_refs [] rs = Inr m" "out = sort_key ref_key m"
    using assms by (auto simp: normalizeSecretRefs_def split: sum.splits)
  have "collected rs m"
    using collect_refs_collected [OF m(1), of "[]"] by (simp add: collected_def uniq_def)
  then show "collected rs out"
    by (simp add: collected_def m(2) uniq_def distinct_map)
  show "sorted (map ref_key out)" by (simp add: m(2))
qed


lemma collected_declared:
  assumes "collected rs m" "\<forall>r\<in>set rs. SecretRef_Validate r = None"
  shows "ref_key ` set m = ref_key ` set rs"
    "\<forall>r\<in>set m. sr_Required r \<longleftrightarrow> (\<exists>x\<in>set rs. ref_key x = ref_key r \<and> sr_Required x)"
proof -
  have key: "ref_key x = ref_key y \<longleftrightarrow> ref_id x = ref_id y" if "x \<in> set rs" for x y
    using assms(2) that valid_ref_key by auto
  have "ref_id ` set m = ref_id ` set rs" using assms(1) by (simp add: collected_def)
  then show "ref_key ` set m = ref_key ` set rs"
    using key by (auto simp: image_iff set_eq_iff) metis+
  show "\<forall>r\<in>set m. sr_Required r \<longleftrightarrow> (\<exists>x\<in>set rs. ref_key x = ref_key r \<and> sr_Required x)"
    using assms(1) key unfolding collected_def by blast
qed

lemma put_ref_fresh: "ref_id r \<notin> ref_id ` set m \<Longrightarrow> put_ref r m = m @ [r]"
proof -
  assume "ref_id r \<notin> ref_id ` set m"
  then have "\<forall>x\<in>set m. ref_id x \<noteq> ref_id r" by (metis imageI)
  then have "find (\<lambda>x. ref_id x = ref_id r) m = None" by (simp add: find_None_iff)
  then show ?thesis by (simp add: put_ref_def)
qed

lemma collect_refs_fresh:
  "uniq ref_id (m @ rs) \<Longrightarrow> \<forall>r\<in>set rs. SecretRef_Validate r = None \<Longrightarrow> collect_refs m rs = Inr (m @ rs)"
proof (induction m rs rule: collect_refs.induct)
  case (2 m r rs)
  then have "ref_id r \<notin> ref_id ` set m" by (auto simp: uniq_def)
  with 2 show ?case by (simp add: put_ref_fresh)
qed simp

lemma normalize_fixed:
  assumes "normalizeSecretRefs rs = Inr out"
  shows "normalizeSecretRefs out = Inr out"
proof -
  have "uniq ref_id ([] @ out)" "\<forall>r\<in>set out. SecretRef_Validate r = None"
    using normalize_collected(1) [OF assms] by (simp_all add: collected_def)
  from collect_refs_fresh [OF this] normalize_collected(2) [OF assms] show ?thesis
    by (simp add: normalizeSecretRefs_def sort_key_id_if_sorted)
qed

text \<open>
  The normal form of secret references.  It exists exactly when every reference is well
  formed; it is strictly sorted by group and key, names the same secrets, requires one exactly
  when some mention of it does, and is its own normal form.
\<close>

theorem secret_refs_normal_form:
  "(case normalizeSecretRefs refs of
      Inl e \<Rightarrow> \<exists>r\<in>set refs. SecretRef_Validate r \<noteq> None
    | Inr out \<Rightarrow> list_all (\<lambda>r. SecretRef_Validate r = None) refs \<and> sorted_wrt (<) (map ref_key out) \<and>
        ref_key ` set out = ref_key ` set refs \<and>
        list_all (\<lambda>r. sr_Required r = list_ex (\<lambda>x. ref_key x = ref_key r \<and> sr_Required x) refs) out \<and>
        normalizeSecretRefs out = Inr out)"
proof (cases "normalizeSecretRefs refs")
  case (Inl e)
  then show ?thesis using normalize_valid [of refs] by auto
next
  case (Inr out)
  then have valid: "\<forall>r\<in>set refs. SecretRef_Validate r = None" using normalize_valid [of refs] by auto
  note c = normalize_collected [OF Inr]
  have "distinct (map ref_key out)"
    using c(1) valid_ref_key by (auto simp: collected_def uniq_def distinct_map inj_on_def)
  then show ?thesis
    using Inr valid c(2) collected_declared [OF c(1) valid] normalize_fixed [OF Inr]
    by (simp add: list_all_iff list_ex_iff strict_sorted_iff)
qed

section \<open>The secrets of a handshake\<close>

text \<open>The names supplied, with their groups.\<close>

definition supplied_pairs :: "(string \<times> (string \<times> string) list) list \<Rightarrow> (string \<times> string) list" where
  "supplied_pairs supplied = concat (map (\<lambda>(g, keys). map (\<lambda>(k, v). (g, k)) keys) supplied)"

lemma supplied_ids_pairs: "supplied_ids supplied = map (\<lambda>(g, k). secret_id g k) (supplied_pairs supplied)"
  unfolding supplied_ids_def supplied_pairs_def by (induction supplied) auto

lemma unauthorized_pairs:
  "unauthorized allowed supplied \<longleftrightarrow>
     (\<exists>p\<in>set (supplied_pairs supplied). \<forall>r\<in>set allowed. ref_id r \<noteq> secret_id (fst p) (snd p))"
  by (induction allowed supplied rule: unauthorized.induct)
    (simp_all add: supplied_pairs_def list_ex_iff case_prod_unfold bex_Un)

text \<open>
  a worker accepts the secrets of a handshake exactly when each one supplied is declared by
  the plan, as that very group and key, and each one the plan requires is supplied: no separator
  in a supplied name can stand for another.
\<close>

theorem handshake_secrets_exact:
  assumes "PlanDescription_Validate d = None"
  shows "validateHandshakeSecrets d supplied = None \<longleftrightarrow>
    set (supplied_pairs supplied) \<subseteq> ref_key ` set (pd_Secrets d) \<and>
    ref_key ` {r \<in> set (pd_Secrets d). sr_Required r} \<subseteq> set (supplied_pairs supplied)"
proof -
  obtain out where out: "normalizeSecretRefs (pd_Secrets d) = Inr out"
    using assms by (auto simp: PlanDescription_Validate_def split: if_splits sum.splits)
  then have valid: "\<forall>r\<in>set (pd_Secrets d). SecretRef_Validate r = None"
    using normalize_valid [of "pd_Secrets d"] by auto
  note c = normalize_collected [OF out]
  note decl = collected_declared [OF c(1) valid]
  have id: "ref_id r = secret_id (fst p) (snd p) \<longleftrightarrow> ref_key r = p" if "r \<in> set out" for r p
    using valid_ref_id [of r "fst p" "snd p"] c(1) that by (auto simp: collected_def ref_key_def)
  have supplied: "ref_id r \<in> set (supplied_ids supplied) \<longleftrightarrow> ref_key r \<in> set (supplied_pairs supplied)"
    if "r \<in> set out" for r
    using id [OF that] by (auto simp: supplied_ids_pairs case_prod_unfold image_iff)
  have "\<not> unauthorized out supplied \<longleftrightarrow> set (supplied_pairs supplied) \<subseteq> ref_key ` set out"
    using id by (auto simp: unauthorized_pairs subset_eq image_iff) metis+
  moreover have "(\<forall>r\<in>set out. sr_Required r \<longrightarrow> ref_id r \<in> set (supplied_ids supplied)) \<longleftrightarrow>
      ref_key ` {r \<in> set out. sr_Required r} \<subseteq> set (supplied_pairs supplied)"
    using supplied by auto
  moreover have "ref_key ` {r \<in> set out. sr_Required r} = ref_key ` {r \<in> set (pd_Secrets d). sr_Required r}"
    (is "?L = ?R")
  proof
    show "?L \<subseteq> ?R"
    proof
      fix k assume "k \<in> ?L"
      then obtain r where "r \<in> set out" "sr_Required r" "k = ref_key r" by blast
      then obtain x where "x \<in> set (pd_Secrets d)" "ref_key x = k" "sr_Required x" using decl(2) by blast
      then show "k \<in> ?R" by blast
    qed
    show "?R \<subseteq> ?L"
    proof
      fix k assume "k \<in> ?R"
      then obtain x where x: "x \<in> set (pd_Secrets d)" "sr_Required x" "k = ref_key x" by blast
      then obtain r where r: "r \<in> set out" "ref_key r = ref_key x" using decl(1) by (metis imageE imageI)
      then have "sr_Required r" using x(1,2) decl(2) by metis
      then show "k \<in> ?L" using r x(3) by (intro image_eqI [of _ _ r]) simp_all
    qed
  qed
  moreover have "SecretRefs d = out"
    using c(2) by (simp add: SecretRefs_def out sort_key_id_if_sorted)
  ultimately show ?thesis
    using decl(1) by (auto simp: validateHandshakeSecrets_def list_ex_iff Let_def split: if_splits)
qed


lemma handshake_secrets_exact_witness:
  "validateHandshakeSecrets \<lparr>pd_Kind = ''every'', pd_Interval = 5, pd_Timeout = 0,
       pd_Secrets = [\<lparr>sr_Group = ''rpc'', sr_Key = ''token'', sr_Required = True\<rparr>]\<rparr>
     [(''rpc'', [(''token'', ''s3cret'')])] = None"
proof -
  let ?d = "\<lparr>pd_Kind = ''every'', pd_Interval = 5, pd_Timeout = 0,
       pd_Secrets = [\<lparr>sr_Group = ''rpc'', sr_Key = ''token'', sr_Required = True\<rparr>]\<rparr>"
  have "PlanDescription_Validate ?d = None"
    by (simp add: PlanDescription_Validate_def normalizeSecretRefs_def SecretRef_Validate_def infoNamePattern_def
        kebab_char_def byte_def put_ref_def)
  from handshake_secrets_exact [OF this, of "[(''rpc'', [(''token'', ''s3cret'')])]"]
  show ?thesis by (auto simp: supplied_pairs_def ref_key_def)
qed

section \<open>The plans a monitor can build\<close>

lemma applyOptions_timeout:
  "0 \<le> co_timeout o0 \<Longrightarrow> 0 \<le> co_timeout (applyOptions_from o0 opts)"
  by (induction o0 opts rule: applyOptions_from.induct)
    (auto simp: apply_option_def Let_def split: CommonOption.splits option.splits)

text \<open>
  a plan that normalizes is a plan the protocol accepts, unless it declares more than 128
  secrets; a negative timeout, a nil callback or an interval that is not positive never gets this
  far.
\<close>

theorem built_plans_validate:
  assumes "p = Continuous fn opts \<or> p = Every interval fn opts" and "normalizePlan (Some p) = Inr d"
  shows "PlanDescription_Validate d = None \<longleftrightarrow> length (pd_Secrets d) \<le> 128"
proof -
  have opts: "pn_options p = applyOptions opts" using assms(1) by (auto simp: Continuous_def Every_def)
  then have timeout: "0 \<le> co_timeout (pn_options p)" by (simp add: applyOptions_def applyOptions_timeout)
  obtain refs where refs: "normalizeSecretRefs (co_secrets (pn_options p)) = Inr refs"
    using assms(2) by (auto simp: normalizePlan_def split: option.splits sum.splits)
  note fixed = normalize_fixed [OF refs]
  show ?thesis
    using assms(2) refs fixed timeout
    by (auto simp: normalizePlan_def PlanDescription_Validate_def Let_def split: option.splits planKind.splits if_splits)
qed

lemma built_plans_validate_witness:
  "\<exists>d. normalizePlan (Some (Every 5 True [Some (WithTimeout 3)])) = Inr d \<and> PlanDescription_Validate d = None"
proof -
  obtain d where d: "normalizePlan (Some (Every 5 True [Some (WithTimeout 3)])) = Inr d" "pd_Secrets d = []"
    by (simp add: normalizePlan_def Every_def applyOptions_def apply_option_def join_error_def normalizeSecretRefs_def)
  then show ?thesis using built_plans_validate [OF disjI2 d(1)] by auto
qed

section \<open>What the payload hash binds\<close>

definition canonical :: "hashing \<Rightarrow> WireTransaction \<Rightarrow> string" where
  "canonical H t = concat (map hash_field (transaction_fields H t))"


definition plain_hashing :: hashing where
  "plain_hashing = \<lparr>sum256 = (\<lambda>s. s), json_string = (\<lambda>s. s), json_raw = (\<lambda>s. s), json_map = (\<lambda>_. ''{}''),
     json_events = (\<lambda>_. ''[]'')\<rparr>"

definition plain_frame :: WireTransaction where
  "plain_frame = \<lparr>wt_DeploymentID = ''d'', wt_Generation = 1, wt_WorkerToken = ''t'', wt_Sequence = 2,
     wt_BaseStateRevision = 0, wt_NextState = ''{}'', wt_Checkpoints = [], wt_Events = [], wt_PayloadHash = ''''\<rparr>"


end
