(* ===== verification/Session.thy ===== *)
theory Session
  imports Protocol
begin

text \<open>
  \<open>session.go\<close> and \<open>state.go\<close>: the monitor's view of its durable state.  A commit runs a closure
  over a transaction, hands the outcome to a committer and installs what the committer
  acknowledged.

  The closure is monitor code.  It is modelled by what it can do to a transaction, as a tree of
  calls whose continuations see the results: read and assign the state, \<open>Emit\<close>, \<open>Checkpoint\<close>,
  return or panic.  The Go interface \<open>sessionCommitter\<close> is its one method, with the committer's
  state made explicit, and the locale \<open>session_committer\<close> is its contract.  The encoding of the
  monitor's state type is in the record \<open>state_codec\<close>, a parameter; \<open>sc_decode\<close> returns whether
  only white space followed the value.
\<close>

section \<open>Encoded state\<close>

record 'v state_codec =
  sc_zero :: 'v
  sc_decode :: "string \<Rightarrow> ('v \<times> bool) option"
  sc_encode :: "'v \<Rightarrow> string option"

definition decodeState :: "'v state_codec \<Rightarrow> string \<Rightarrow> 'v result" where
  "decodeState C raw =
     (if length (TrimSpace raw) = 0 \<or> TrimSpace raw = ''null'' then Inr (sc_zero C)
      else case sc_decode C raw of
        None \<Rightarrow> Inl (Errorf ''decode state'')
      | Some (v, eof) \<Rightarrow> if eof then Inr v else Inl (Errorf ''decode state: trailing JSON value''))"

definition encodeState :: "'v state_codec \<Rightarrow> 'v \<Rightarrow> string result" where
  "encodeState C v = (case sc_encode C v of None \<Rightarrow> Inl (Errorf ''encode state'') | Some raw \<Rightarrow> Inr raw)"

section \<open>Secrets\<close>

type_synonym secretSet = "(string \<times> string) list"

definition SecretSet_Get :: "secretSet \<Rightarrow> SecretRef \<Rightarrow> string option" where
  "SecretSet_Get s ref = map_of s (ref_id ref)"

definition SecretSet_Require :: "secretSet \<Rightarrow> SecretRef \<Rightarrow> string result" where
  "SecretSet_Require s ref =
     (case SecretSet_Get s ref of
        None \<Rightarrow> Inl (Errorf ''required secret is unavailable'')
      | Some v \<Rightarrow> if v = '''' then Inl (Errorf ''required secret is unavailable'') else Inr v)"

section \<open>Maps of checkpoints\<close>

text \<open>A Go map of checkpoints, as its entries in key order.\<close>

type_synonym entries = "(string \<times> string) list"

fun put_entry :: "string \<Rightarrow> string \<Rightarrow> entries \<Rightarrow> entries" where
  "put_entry k v [] = [(k, v)]"
| "put_entry k v ((k', v') # m) =
     (if k = k' then (k, v) # m else if k < k' then (k, v) # (k', v') # m else (k', v') # put_entry k v m)"

fun put_entries :: "entries \<Rightarrow> entries \<Rightarrow> entries" where
  "put_entries [] m = m"
| "put_entries ((k, v) # new) m = put_entries new (put_entry k v m)"

definition entries_ok :: "entries \<Rightarrow> bool" where
  "entries_ok m \<longleftrightarrow> sorted (map fst m) \<and> distinct (map fst m)"

section \<open>Transactions\<close>

record 'v Tx =
  tx_State :: 'v
  tx_events :: "Event list"
  tx_checkpoints :: entries
  tx_maxEvents :: int

text \<open>\<open>clone\<close> is the JSON round trip of an event.\<close>

definition Emit :: "(Event \<Rightarrow> Event result) \<Rightarrow> Event \<Rightarrow> 'v Tx \<Rightarrow> 'v Tx \<times> go_error option" where
  "Emit clone e tx =
     (if int (length (tx_events tx)) \<ge> tx_maxEvents tx
      then (tx, Some (Errorf ''transaction cannot emit more events''))
      else case Event_Validate e of
        Some err \<Rightarrow> (tx, Some err)
      | None \<Rightarrow> (case clone e of
          Inl err \<Rightarrow> (tx, Some err)
        | Inr e' \<Rightarrow> (tx\<lparr>tx_events := tx_events tx @ [e']\<rparr>, None)))"

text \<open>\<open>raw\<close> is the encoding of the value, or the error of encoding it.\<close>

definition Tx_Checkpoint :: "string \<Rightarrow> string option \<Rightarrow> 'v Tx \<Rightarrow> 'v Tx \<times> go_error option" where
  "Tx_Checkpoint source raw tx =
     (if source = '''' then (tx, Some (Errorf ''checkpoint source is required''))
      else case raw of
        None \<Rightarrow> (tx, Some (Errorf ''encode checkpoint''))
      | Some r \<Rightarrow> (tx\<lparr>tx_checkpoints := put_entry source r (tx_checkpoints tx)\<rparr>, None))"

datatype 'v closure =
    Return "go_error option"
  | Panic
  | GetState "'v \<Rightarrow> 'v closure"
  | SetState 'v "'v closure"
  | DoEmit Event "go_error option \<Rightarrow> 'v closure"
  | DoCheckpoint string "string option" "go_error option \<Rightarrow> 'v closure"

text \<open>The closure run on a transaction; a panic is recovered and returned as an error.\<close>

primrec run_closure :: "(Event \<Rightarrow> Event result) \<Rightarrow> 'v closure \<Rightarrow> 'v Tx \<Rightarrow> 'v Tx \<times> go_error option" where
  "run_closure clone (Return e) tx = (tx, e)"
| "run_closure clone Panic tx = (tx, Some (Errorf ''commit closure panicked''))"
| "run_closure clone (GetState k) tx = run_closure clone (k (tx_State tx)) tx"
| "run_closure clone (SetState v k) tx = run_closure clone k (tx\<lparr>tx_State := v\<rparr>)"
| "run_closure clone (DoEmit e k) tx =
     run_closure clone (k (snd (Emit clone e tx))) (fst (Emit clone e tx))"
| "run_closure clone (DoCheckpoint s raw k) tx =
     run_closure clone (k (snd (Tx_Checkpoint s raw tx))) (fst (Tx_Checkpoint s raw tx))"

section \<open>Committers\<close>

record transactionCommit =
  tc_BaseState :: string
  tc_NextState :: string
  tc_Events :: "Event list"
  tc_Checkpoints :: entries

text \<open>\<open>localCommitter\<close>, for tests: it remembers the state it was given.\<close>

definition localCommit :: "go_error option \<Rightarrow> transactionCommit \<Rightarrow> string \<Rightarrow> string \<times> string result" where
  "localCommit ctx_err c st =
     (case ctx_err of Some e \<Rightarrow> (st, Inl e) | None \<Rightarrow> (tc_NextState c, Inr (tc_NextState c)))"

section \<open>Sessions\<close>

record Session =
  ss_state :: string
  ss_checkpoints :: entries
  ss_secrets :: secretSet
  ss_maxEvents :: int

definition newSession :: "'v state_codec \<Rightarrow> string \<Rightarrow> secretSet \<Rightarrow> int \<Rightarrow> Session result" where
  "newSession C state secrets maxEvents =
     (if maxEvents < 1 \<or> maxEvents > MaxEventsPerTransaction
      then Inl (Errorf ''max events per transaction must be between 1 and 256'')
      else case decodeState C state of
        Inl e \<Rightarrow> Inl e
      | Inr v \<Rightarrow> (case encodeState C v of
          Inl e \<Rightarrow> Inl e
        | Inr raw \<Rightarrow> Inr \<lparr>ss_state = raw, ss_checkpoints = [], ss_secrets = secrets, ss_maxEvents = maxEvents\<rparr>))"

text \<open>\<open>Session.Checkpoint\<close>: \<open>decode\<close> is the typed decoder of the caller's value.\<close>

definition Session_Checkpoint :: "(string \<Rightarrow> ('a \<times> bool) option) \<Rightarrow> string \<Rightarrow> Session \<Rightarrow> 'a option result" where
  "Session_Checkpoint decode source s =
     (if source = '''' then Inl (Errorf ''checkpoint source and output are required'')
      else case map_of (ss_checkpoints s) source of
        None \<Rightarrow> Inr None
      | Some raw \<Rightarrow> (case decode raw of
          None \<Rightarrow> Inl (Errorf ''decode checkpoint'')
        | Some (v, eof) \<Rightarrow> if eof then Inr (Some v) else Inl (Errorf ''decode checkpoint: trailing JSON value'')))"

text \<open>\<open>Session.State\<close> panics, here \<open>None\<close>, when the canonical state no longer decodes.\<close>

definition Session_State :: "'v state_codec \<Rightarrow> Session \<Rightarrow> 'v option" where
  "Session_State C s = (case decodeState C (ss_state s) of Inl e \<Rightarrow> None | Inr v \<Rightarrow> Some v)"

definition changed_checkpoints :: "Session \<Rightarrow> entries \<Rightarrow> entries" where
  "changed_checkpoints s cps =
     filter (\<lambda>(source, raw). \<not> (case map_of (ss_checkpoints s) source of Some old \<Rightarrow> raw = old | None \<Rightarrow> raw = '''')) cps"

text \<open>
  \<open>Session.Commit\<close>.  \<open>ctx1\<close> and \<open>ctx2\<close> are \<open>ctx.Err()\<close> before and after the closure; \<open>fn\<close> is
  \<open>None\<close> for a nil closure.  The result is the session, the committer and the error.
\<close>

definition Session_Commit ::
    "'v state_codec \<Rightarrow> (Event \<Rightarrow> Event result) \<Rightarrow> (transactionCommit \<Rightarrow> 'c \<Rightarrow> 'c \<times> string result) \<Rightarrow>
     go_error option \<Rightarrow> go_error option \<Rightarrow> 'v closure option \<Rightarrow> Session \<Rightarrow> 'c \<Rightarrow> Session \<times> 'c \<times> go_error option" where
  "Session_Commit C clone commit ctx1 ctx2 fn s c =
     (case fn of
        None \<Rightarrow> (s, c, Some (Errorf ''commit closure is nil''))
      | Some f \<Rightarrow> (case ctx1 of
          Some e \<Rightarrow> (s, c, Some e)
        | None \<Rightarrow> (case decodeState C (ss_state s) of
            Inl e \<Rightarrow> (s, c, Some e)
          | Inr v \<Rightarrow>
              let (tx, err) = run_closure clone f
                    \<lparr>tx_State = v, tx_events = [], tx_checkpoints = [], tx_maxEvents = ss_maxEvents s\<rparr> in
              case err of
                Some e \<Rightarrow> (s, c, Some e)
              | None \<Rightarrow> (case ctx2 of
                  Some e \<Rightarrow> (s, c, Some e)
                | None \<Rightarrow> (case encodeState C (tx_State tx) of
                    Inl e \<Rightarrow> (s, c, Some e)
                  | Inr next_state \<Rightarrow>
                      let cps = changed_checkpoints s (tx_checkpoints tx) in
                      if ss_state s = next_state \<and> length (tx_events tx) = 0 \<and> length cps = 0 then (s, c, None)
                      else case commit \<lparr>tc_BaseState = ss_state s, tc_NextState = next_state,
                                tc_Events = tx_events tx, tc_Checkpoints = cps\<rparr> c of
                        (c', Inl e) \<Rightarrow> (s, c', Some e)
                      | (c', Inr acked) \<Rightarrow> (case decodeState C acked of
                          Inl e \<Rightarrow> (s, c', Some (Errorf ''invalid acknowledged state''))
                        | Inr decoded \<Rightarrow> (case encodeState C decoded of
                            Inl e \<Rightarrow> (s\<lparr>ss_state := ''''\<rparr>, c', Some e)
                          | Inr raw \<Rightarrow>
                              (s\<lparr>ss_state := raw, ss_checkpoints := put_entries cps (ss_checkpoints s)\<rparr>,
                               c', None))))))))"


section \<open>Facts about transactions\<close>

lemma keys_put_entry: "set (map fst (put_entry k v m)) = insert k (set (map fst m))"
proof (induction m)
  case (Cons p m)
  obtain k' v' where p: "p = (k', v')" by fastforce
  show ?case using Cons.IH by (simp add: p insert_commute)
qed simp

lemma put_entry_ok: "entries_ok m \<Longrightarrow> entries_ok (put_entry k v m)"
proof (induction m)
  case (Cons p m)
  obtain k' v' where p: "p = (k', v')" by fastforce
  have m: "entries_ok m" "\<forall>x\<in>set (map fst m). k' < x"
    using Cons.prems by (auto simp: entries_ok_def p order_le_less)
  note ih = Cons.IH [OF m(1)]
  show ?case
  proof (cases k k' rule: linorder_cases)
    case less
    then show ?thesis using m by (fastforce simp: p entries_ok_def)
  next
    case equal
    then show ?thesis using Cons.prems by (simp add: p entries_ok_def)
  next
    case greater
    then have "\<forall>x\<in>set (map fst (put_entry k v m)). k' < x" using m(2) by (simp only: keys_put_entry) simp
    then show ?thesis using ih greater by (auto simp: p entries_ok_def)
  qed
qed (simp add: entries_ok_def)

lemma map_of_put_entry: "entries_ok m \<Longrightarrow> map_of (put_entry k v m) = (map_of m)(k \<mapsto> v)"
proof (induction m)
  case (Cons p m)
  obtain k' v' where p: "p = (k', v')" by fastforce
  have m: "entries_ok m" "\<forall>x\<in>set (map fst m). k' < x"
    using Cons.prems by (auto simp: entries_ok_def p order_le_less)
  show ?case using Cons.IH [OF m(1)] by (auto simp: p fun_eq_iff)
qed simp

lemma put_entries_ok: "entries_ok m \<Longrightarrow> entries_ok (put_entries new m)"
  by (induction new m rule: put_entries.induct) (simp_all add: put_entry_ok)

text \<open>What the closure cannot break.\<close>

definition tx_ok :: "'v Tx \<Rightarrow> bool" where
  "tx_ok tx \<longleftrightarrow> int (length (tx_events tx)) \<le> max 0 (tx_maxEvents tx) \<and> entries_ok (tx_checkpoints tx) \<and>
     '''' \<notin> fst ` set (tx_checkpoints tx)"

lemma Emit_ok: "tx_ok tx \<Longrightarrow> tx_ok (fst (Emit clone e tx)) \<and> tx_maxEvents (fst (Emit clone e tx)) = tx_maxEvents tx"
  by (auto simp: Emit_def tx_ok_def split: option.splits sum.splits)

lemma Tx_Checkpoint_ok:
  "tx_ok tx \<Longrightarrow> tx_ok (fst (Tx_Checkpoint s raw tx)) \<and> tx_maxEvents (fst (Tx_Checkpoint s raw tx)) = tx_maxEvents tx"
  using keys_put_entry [of s _ "tx_checkpoints tx"]
  by (auto simp: Tx_Checkpoint_def tx_ok_def put_entry_ok split: option.splits)

lemma run_closure_ok:
  "tx_ok tx \<Longrightarrow> tx_ok (fst (run_closure clone f tx)) \<and> tx_maxEvents (fst (run_closure clone f tx)) = tx_maxEvents tx"
proof (induction f arbitrary: tx)
  case (DoEmit e k)
  from Emit_ok [OF DoEmit.prems, of clone e] DoEmit.IH show ?case by fastforce
next
  case (DoCheckpoint s raw k)
  from Tx_Checkpoint_ok [OF DoCheckpoint.prems, of s raw] DoCheckpoint.IH show ?case by fastforce
next
  case (SetState v k)
  have "tx_ok (tx\<lparr>tx_State := v\<rparr>)" using SetState.prems by (simp add: tx_ok_def)
  then show ?case using SetState.IH by simp
qed simp_all

section \<open>The contract of a committer\<close>

text \<open>A committer that succeeds has committed the state it was given.\<close>

locale session_committer =
  fixes commit :: "transactionCommit \<Rightarrow> 'c \<Rightarrow> 'c \<times> string result"
  assumes acknowledged: "commit t c = (c', Inr raw) \<Longrightarrow> raw = tc_NextState t"
begin

text \<open>
  The outcomes of a commit.  \<open>recodes\<close>: what the state codec decodes it can encode.
\<close>

lemma commit_outcome:
  assumes run: "Session_Commit C clone commit ctx1 ctx2 fn s c = (s', c', err)"
    and recodes: "\<forall>raw v. decodeState C raw = Inr v \<longrightarrow> (\<exists>r. encodeState C v = Inr r)"
  obtains (unsent) "s' = s" "c' = c"
  | (failed) t e where "commit t c = (c', Inl e)" "s' = s" "err = Some e"
  | (undecodable) t where "commit t c = (c', Inr (tc_NextState t))" "s' = s" "err \<noteq> None"
  | (committed) t v raw where "commit t c = (c', Inr (tc_NextState t))" "err = None"
      "tc_BaseState t = ss_state s" "int (length (tc_Events t)) \<le> max 0 (ss_maxEvents s)"
      "decodeState C (tc_NextState t) = Inr v" "encodeState C v = Inr raw"
      "s' = s\<lparr>ss_state := raw, ss_checkpoints := put_entries (tc_Checkpoints t) (ss_checkpoints s)\<rparr>"
proof (cases "fn = None \<or> ctx1 \<noteq> None")
  case True
  then show thesis using run by (intro unsent) (auto simp: Session_Commit_def split: option.splits)
next
  case False
  then obtain f where f: "fn = Some f" "ctx1 = None" by auto
  show thesis
  proof (cases "decodeState C (ss_state s)")
    case (Inl e)
    then show thesis using run by (intro unsent) (auto simp: Session_Commit_def f)
  next
    case (Inr v)
    let ?tx0 = "\<lparr>tx_State = v, tx_events = [], tx_checkpoints = [], tx_maxEvents = ss_maxEvents s\<rparr>"
    obtain tx e where tx: "run_closure clone f ?tx0 = (tx, e)" by fastforce
    have ok: "int (length (tx_events tx)) \<le> max 0 (ss_maxEvents s)"
    proof -
      have "tx_ok ?tx0" by (simp add: tx_ok_def entries_ok_def)
      then show ?thesis using run_closure_ok [of ?tx0 clone f] tx by (auto simp: tx_ok_def)
    qed
    let ?t = "\<lambda>next_state. \<lparr>tc_BaseState = ss_state s, tc_NextState = next_state, tc_Events = tx_events tx,
        tc_Checkpoints = changed_checkpoints s (tx_checkpoints tx)\<rparr>"
    note simps = Session_Commit_def f Inr tx Let_def
    show thesis
    proof (cases "e = None \<and> ctx2 = None \<and> (\<exists>n. encodeState C (tx_State tx) = Inr n \<and> \<not> (ss_state s = n \<and>
        length (tx_events tx) = 0 \<and> length (changed_checkpoints s (tx_checkpoints tx)) = 0))")
      case False
      then show thesis
        using run by (intro unsent) (auto simp: simps split: option.splits sum.splits if_splits)
    next
      case True
      then obtain n where n: "e = None" "ctx2 = None" "encodeState C (tx_State tx) = Inr n"
        "\<not> (ss_state s = n \<and> length (tx_events tx) = 0 \<and> length (changed_checkpoints s (tx_checkpoints tx)) = 0)"
        by blast
      obtain c1 r where r: "commit (?t n) c = (c1, r)" by fastforce
      show thesis
      proof (cases r)
        case (Inl e')
        then show thesis using run n r by (intro failed [of "?t n" e']) (auto simp: simps split: if_splits)
      next
        case acked: (Inr raw)
        with acknowledged r have raw: "raw = n" by fastforce
        show thesis
        proof (cases "decodeState C n")
          case (Inl e')
          then show thesis using run n r acked raw by (intro undecodable [of "?t n"]) (auto simp: simps split: if_splits)
        next
          case dec: (Inr w)
          then obtain x where "encodeState C w = Inr x" using recodes by blast
          then show thesis
            using run n r acked raw dec ok by (intro committed [of "?t n" w x]) (auto simp: simps split: if_splits)
        qed
      qed
    qed
  qed
qed

end

interpretation local_committer: session_committer "localCommit ctx_err"
  by unfold_locales (auto simp: localCommit_def split: option.splits)

end
