(* ===== verification/Coordinator.thy ===== *)
theory Coordinator
  imports Session WireHash
begin

text \<open>
  \<open>wire.go\<close> and \<open>coordinator.go\<close>: the worker's end of the protocol.  A commit sends one
  transaction frame and waits for its acknowledgement, while another goroutine reads control
  frames; a write that fails poisons the wire, and any failure after the frame has been admitted
  leaves the outcome uncertain.

  The Go \<open>select\<close> loop takes whatever is ready.  \<open>commit_loop\<close> takes the list of those events, the
  steps of the control reader among them, and skips an event that is not enabled; a list that
  ends leaves the commit waiting.  Channels of capacity one are an option or, for a bare signal,
  a boolean.  Clock readings are in the events.
\<close>

section \<open>The wire\<close>

record wire =
  wi_out :: "string list"
  wi_failure :: "go_error option"

text \<open>What the writing goroutine reports: done, an error, a short count, or nothing in time.\<close>

datatype write_outcome = WriteOk | WriteError go_error | WriteShort | WriteTimeout

definition failWrite :: "go_error \<Rightarrow> wire \<Rightarrow> wire \<times> go_error" where
  "failWrite e w =
     (case wi_failure w of
        None \<Rightarrow> (w\<lparr>wi_failure := Some e\<rparr>, e)
      | Some old \<Rightarrow> (w, old))"

definition sendBytes :: "string \<Rightarrow> write_outcome \<Rightarrow> wire \<Rightarrow> wire \<times> go_error option" where
  "sendBytes raw outcome w =
     (if length raw > MaxFrameBytes then (w, Some (Errorf ''protocol frame exceeds maximum size''))
      else case wi_failure w of
        Some e \<Rightarrow> (w, Some e)
      | None \<Rightarrow> (case outcome of
          WriteOk \<Rightarrow> (w\<lparr>wi_out := wi_out w @ [raw]\<rparr>, None)
        | WriteError e \<Rightarrow> (let (w', e') = failWrite e w in (w', Some e'))
        | WriteShort \<Rightarrow> (let (w', e') = failWrite (Errorf ''short write'') w in (w', Some e'))
        | WriteTimeout \<Rightarrow>
            (let (w', e') = failWrite (Errorf ''worker protocol write deadline exceeded'') w in (w', Some e'))))"

text \<open>\<open>marshal\<close> is \<open>json.Marshal\<close> on frames.\<close>

definition wire_send :: "(WorkerFrame \<Rightarrow> string) \<Rightarrow> WorkerFrame \<Rightarrow> write_outcome \<Rightarrow> wire \<Rightarrow> wire \<times> go_error option" where
  "wire_send marshal v outcome w =
     (case WorkerFrame_Validate v of
        Some e \<Rightarrow> (w, Some e)
      | None \<Rightarrow> sendBytes (marshal v @ ''\<newline>'') outcome w)"

text \<open>\<open>readInbound\<close> on the bytes still to come, which end where the stream does.\<close>

definition readInbound ::
    "(string \<Rightarrow> (DaemonFrame \<times> string) option) \<Rightarrow> (string \<Rightarrow> bool) \<Rightarrow> (string \<Rightarrow> int option) \<Rightarrow>
     string \<Rightarrow> (DaemonFrame \<times> string) result" where
  "readInbound decode at_eof parse_time stream =
     (case cut_at (char_of (10::nat)) stream of
        None \<Rightarrow>
          if length stream > MaxFrameBytes then Inl (Errorf ''protocol frame exceeds maximum size'')
          else Inl (Errorf ''EOF'')
      | Some (line, rest) \<Rightarrow>
          if length line + 1 > MaxFrameBytes then Inl (Errorf ''protocol frame exceeds maximum size'')
          else case strictDecode decode at_eof (line @ ''\<newline>'') of
            Inl e \<Rightarrow> Inl e
          | Inr v \<Rightarrow> (case DaemonFrame_Validate parse_time v of Some e \<Rightarrow> Inl e | None \<Rightarrow> Inr (v, rest)))"

section \<open>Acknowledgements\<close>

record coordinator =
  co_hello :: Hello
  co_wire :: wire
  co_seq :: uint64
  co_revision :: int
  co_ackReady :: bool
  co_expected :: "TransactionAck option"
  co_pending :: "TransactionAck option"
  co_last :: "TransactionAck option"
  co_stop :: "Stop option"
  co_commitStop :: "Stop option"
  co_fatal :: "go_error option"

definition sameTransactionAckIdentity :: "TransactionAck \<Rightarrow> TransactionAck \<Rightarrow> bool" where
  "sameTransactionAckIdentity a b \<longleftrightarrow> ta_DeploymentID a = ta_DeploymentID b \<and>
     ta_Generation a = ta_Generation b \<and> ta_Sequence a = ta_Sequence b \<and> ta_PayloadHash a = ta_PayloadHash b"

definition sameTransactionAck :: "TransactionAck \<Rightarrow> TransactionAck \<Rightarrow> bool" where
  "sameTransactionAck a b \<longleftrightarrow> sameTransactionAckIdentity a b \<and> ta_ResultRevision a = ta_ResultRevision b"

definition expectTransactionAck :: "WireTransaction \<Rightarrow> coordinator \<Rightarrow> coordinator" where
  "expectTransactionAck frame c =
     c\<lparr>co_expected := Some \<lparr>ta_DeploymentID = wt_DeploymentID frame, ta_Generation = wt_Generation frame,
         ta_Sequence = wt_Sequence frame, ta_PayloadHash = wt_PayloadHash frame, ta_ResultRevision = 0,
         ta_Status = ''''\<rparr>,
       co_pending := None\<rparr>"

definition receiveTransactionAck :: "TransactionAck \<Rightarrow> coordinator \<Rightarrow> coordinator \<times> go_error option" where
  "receiveTransactionAck ack c =
     (if (case co_last c of Some l \<Rightarrow> sameTransactionAck l ack | None \<Rightarrow> False) then (c, None)
      else case co_expected c of
        None \<Rightarrow> (c, Some (Errorf ''unsolicited transaction ACK''))
      | Some x \<Rightarrow>
          if \<not> sameTransactionAckIdentity x ack then (c, Some (Errorf ''transaction ACK identity mismatch''))
          else (case co_pending c of
              Some p \<Rightarrow>
                if sameTransactionAck p ack then (c, None)
                else (c, Some (Errorf ''conflicting transaction ACK''))
            | None \<Rightarrow> (c\<lparr>co_pending := Some ack, co_ackReady := True\<rparr>, None)))"

definition acceptTransactionAck :: "coordinator \<Rightarrow> coordinator \<times> TransactionAck result" where
  "acceptTransactionAck c =
     (case co_pending c of
        None \<Rightarrow> (c, Inl (Errorf ''transaction ACK signal without payload''))
      | Some ack \<Rightarrow> (c\<lparr>co_last := Some ack, co_pending := None, co_expected := None\<rparr>, Inr ack))"

definition clearExpectedAck :: "coordinator \<Rightarrow> coordinator" where
  "clearExpectedAck c = c\<lparr>co_expected := None, co_pending := None\<rparr>"

text \<open>\<open>fatalOnce\<close>: the first report stays.\<close>

definition reportFatal :: "go_error \<Rightarrow> coordinator \<Rightarrow> coordinator" where
  "reportFatal e c = (case co_fatal c of None \<Rightarrow> c\<lparr>co_fatal := Some e\<rparr> | Some _ \<Rightarrow> c)"

definition fatalError :: "coordinator \<Rightarrow> go_error" where
  "fatalError c = (case co_fatal c of None \<Rightarrow> Errorf ''worker control channel failed'' | Some e \<Rightarrow> e)"

definition offer :: "'a \<Rightarrow> 'a option \<Rightarrow> 'a option" where
  "offer x ch = (case ch of None \<Rightarrow> Some x | Some y \<Rightarrow> Some y)"

text \<open>One turn of \<open>readControl\<close>, and whether it reads on.\<close>

definition readControl :: "DaemonFrame result \<Rightarrow> coordinator \<Rightarrow> coordinator \<times> bool" where
  "readControl inbound c =
     (case inbound of
        Inl e \<Rightarrow> (reportFatal e c, False)
      | Inr m \<Rightarrow>
          if df_Type m = ''ack'' then
            (case df_Ack m of
               Some ack \<Rightarrow> (case receiveTransactionAck ack c of
                   (c', Some e) \<Rightarrow> (reportFatal e c', False)
                 | (c', None) \<Rightarrow> (c', True))
             | None \<Rightarrow> (reportFatal (Errorf ''ack payload missing'') c, False))
          else if df_Type m = ''stop'' then
            (case df_Stop m of
               Some s \<Rightarrow> (c\<lparr>co_commitStop := offer s (co_commitStop c), co_stop := offer s (co_stop c)\<rparr>, True)
             | None \<Rightarrow> (reportFatal (Errorf ''stop payload missing'') c, False))
          else (reportFatal (Errorf ''unexpected control frame'') c, False))"

section \<open>Commit\<close>

text \<open>
  An error before the frame is admitted, or one after it (\<open>transactionUncertainError\<close>).
\<close>

datatype commit_error = Refused go_error | Uncertain go_error

text \<open>
  The stop event carries the time left before the deadline less the grace, \<open>None\<close> when the
  deadline does not parse.
\<close>

datatype commit_event =
    AckReady
  | RetryTick write_outcome
  | FatalDone
  | CommitStop "int option"
  | StopDeadline
  | Control "DaemonFrame result"

fun commit_loop ::
    "string \<Rightarrow> string \<Rightarrow> bool \<Rightarrow> commit_event list \<Rightarrow> coordinator \<Rightarrow> coordinator \<times> string result option" where
  "commit_loop raw next_state armed [] c = (c, None)"
| "commit_loop raw next_state armed (AckReady # es) c =
     (if \<not> co_ackReady c then commit_loop raw next_state armed es c
      else case acceptTransactionAck (c\<lparr>co_ackReady := False\<rparr>) of
        (c', Inl e) \<Rightarrow> (c', Some (Inl e))
      | (c', Inr ack) \<Rightarrow>
          if ta_Status ack \<noteq> ''accepted'' \<and> ta_Status ack \<noteq> ''replayed''
          then (c', Some (Inl (Errorf ''transaction rejected'')))
          else (c'\<lparr>co_revision := ta_ResultRevision ack\<rparr>, Some (Inr next_state)))"
| "commit_loop raw next_state armed (RetryTick outcome # es) c =
     (case sendBytes raw outcome (co_wire c) of
        (w, Some e) \<Rightarrow> (c\<lparr>co_wire := w\<rparr>, Some (Inl e))
      | (w, None) \<Rightarrow> commit_loop raw next_state armed es (c\<lparr>co_wire := w\<rparr>))"
| "commit_loop raw next_state armed (FatalDone # es) c =
     (if co_fatal c = None then commit_loop raw next_state armed es c
      else (c, Some (Inl (fatalError c))))"
| "commit_loop raw next_state armed (CommitStop left # es) c =
     (if co_commitStop c = None then commit_loop raw next_state armed es c
      else if armed then commit_loop raw next_state armed es (c\<lparr>co_commitStop := None\<rparr>)
      else case left of
        None \<Rightarrow> (c\<lparr>co_commitStop := None\<rparr>, Some (Inl (Errorf ''transaction stop deadline is invalid'')))
      | Some r \<Rightarrow>
          if r \<le> 0 then (c\<lparr>co_commitStop := None\<rparr>,
            Some (Inl (Errorf ''transaction remained unacknowledged at stop deadline'')))
          else commit_loop raw next_state True es (c\<lparr>co_commitStop := None\<rparr>))"
| "commit_loop raw next_state armed (StopDeadline # es) c =
     (if \<not> armed then commit_loop raw next_state armed es c
      else (c, Some (Inl (Errorf ''transaction remained unacknowledged at stop deadline''))))"
| "commit_loop raw next_state armed (Control inbound # es) c =
     commit_loop raw next_state armed es (fst (readControl inbound c))"

text \<open>
  The surroundings of one commit: \<open>ctx.Err()\<close> on entry and after the frame is built, the context
  error the callback's scope finds when it refuses to begin, the outcome of the first write, and
  what happens while it waits.
\<close>

record commit_env =
  ce_entry :: "go_error option"
  ce_built :: "go_error option"
  ce_scope :: "go_error option"
  ce_write :: write_outcome
  ce_events :: "commit_event list"

definition commit_frame :: "hashing \<Rightarrow> transactionCommit \<Rightarrow> coordinator \<Rightarrow> WireTransaction" where
  "commit_frame H tx c =
     (let frame = \<lparr>wt_DeploymentID = he_DeploymentID (co_hello c), wt_Generation = he_Generation (co_hello c),
        wt_WorkerToken = he_WorkerToken (co_hello c), wt_Sequence = co_seq c + 1,
        wt_BaseStateRevision = co_revision c, wt_NextState = tc_NextState tx,
        wt_Checkpoints = tc_Checkpoints tx, wt_Events = tc_Events tx, wt_PayloadHash = ''''\<rparr>
      in frame\<lparr>wt_PayloadHash := hex_encode (HashTransactionFrame H frame)\<rparr>)"

definition transaction_out :: "WireTransaction \<Rightarrow> WorkerFrame" where
  "transaction_out frame = \<lparr>wf_Type = ''transaction'', wf_Monitor = None, wf_Ready = None, wf_Run = None,
     wf_Transaction = Some frame, wf_Stopped = None\<rparr>"

definition Coordinator_Commit ::
    "hashing \<Rightarrow> (WorkerFrame \<Rightarrow> string) \<Rightarrow> commit_env \<Rightarrow> transactionCommit \<Rightarrow> coordinator \<Rightarrow>
     coordinator \<times> (commit_error + string) option" where
  "Coordinator_Commit H marshal V tx c =
     (case ce_entry V of Some e \<Rightarrow> (c, Some (Inl (Refused e))) | None \<Rightarrow>
      let frame = commit_frame H tx c; out = transaction_out frame; raw = marshal out @ ''\<newline>'' in
      case WorkerFrame_Validate out of Some e \<Rightarrow> (c, Some (Inl (Refused e))) | None \<Rightarrow>
      if length raw > MaxFrameBytes
      then (c, Some (Inl (Refused (Errorf ''transaction frame exceeds maximum size''))))
      else case ce_built V of Some e \<Rightarrow> (c, Some (Inl (Refused e))) | None \<Rightarrow>
      (case ce_scope V of Some e \<Rightarrow> (c, Some (Inl (Refused e))) | None \<Rightarrow>
      (case sendBytes raw (ce_write V) (co_wire c) of
         (w, Some e) \<Rightarrow> (clearExpectedAck ((expectTransactionAck frame c)\<lparr>co_wire := w\<rparr>), Some (Inl (Uncertain e)))
       | (w, None) \<Rightarrow>
           let (c', r) = commit_loop raw (tc_NextState tx) False (ce_events V)
                 ((expectTransactionAck frame c)\<lparr>co_wire := w, co_seq := co_seq c + 1\<rparr>)
           in case r of
                None \<Rightarrow> (c', None)
              | Some (Inl e) \<Rightarrow> (clearExpectedAck c', Some (Inl (Uncertain e)))
              | Some (Inr st) \<Rightarrow> (clearExpectedAck c', Some (Inr st)))))"

text \<open>
  The coordinator as the session's committer.  A commit still waiting when the events end stands
  for a worker that exits: it never returns success.
\<close>

definition coordinator_committer ::
    "hashing \<Rightarrow> (WorkerFrame \<Rightarrow> string) \<Rightarrow> commit_env \<Rightarrow> transactionCommit \<Rightarrow> coordinator \<Rightarrow>
     coordinator \<times> string result" where
  "coordinator_committer H marshal V tx c =
     (case Coordinator_Commit H marshal V tx c of
        (c', None) \<Rightarrow> (c', Inl (Errorf ''worker exited before settlement''))
      | (c', Some (Inl (Refused e))) \<Rightarrow> (c', Inl e)
      | (c', Some (Inl (Uncertain e))) \<Rightarrow>
          (c', Inl (Errorf ''transaction settlement failed; durable outcome unknown''))
      | (c', Some (Inr st)) \<Rightarrow> (c', Inr st))"


section \<open>Facts about waiting\<close>

text \<open>While a commit waits, what is expected and what is pending is the ACK of its own frame.\<close>

definition acks_frame :: "WireTransaction \<Rightarrow> TransactionAck \<Rightarrow> bool" where
  "acks_frame t a \<longleftrightarrow> ta_DeploymentID a = wt_DeploymentID t \<and> ta_Generation a = wt_Generation t \<and>
     ta_Sequence a = wt_Sequence t \<and> ta_PayloadHash a = wt_PayloadHash t"

definition awaiting :: "WireTransaction \<Rightarrow> coordinator \<Rightarrow> bool" where
  "awaiting t c \<longleftrightarrow> (\<forall>a. co_expected c = Some a \<longrightarrow> acks_frame t a) \<and> (\<forall>a. co_pending c = Some a \<longrightarrow> acks_frame t a)"

lemma awaiting_expect: "awaiting t (expectTransactionAck t c)"
  by (simp add: awaiting_def expectTransactionAck_def acks_frame_def)

lemma receive_cases:
  obtains "fst (receiveTransactionAck a c) = c"
  | x where "co_expected c = Some x" "sameTransactionAckIdentity x a"
      "fst (receiveTransactionAck a c) = c\<lparr>co_pending := Some a, co_ackReady := True\<rparr>"
proof (cases "co_expected c")
  case None
  then show thesis by (intro that(1)) (simp add: receiveTransactionAck_def)
next
  case (Some x)
  show thesis
  proof (cases "sameTransactionAckIdentity x a \<and> co_pending c = None \<and>
      \<not> (case co_last c of Some l \<Rightarrow> sameTransactionAck l a | None \<Rightarrow> False)")
    case True
    then show thesis
      using Some by (intro that(2) [OF Some conjunct1 [OF True]]) (simp add: receiveTransactionAck_def)
  next
    case False
    then show thesis
      using Some by (intro that(1)) (cases "co_pending c"; simp add: receiveTransactionAck_def)
  qed
qed

lemma receive_awaiting:
  assumes "awaiting t c"
  shows "awaiting t (fst (receiveTransactionAck a c))"
proof (cases rule: receive_cases [of a c])
  case (2 x)
  have "acks_frame t x" using assms 2(1) by (simp add: awaiting_def)
  then have "acks_frame t a" using 2(2) by (simp add: acks_frame_def sameTransactionAckIdentity_def)
  then show ?thesis using assms by (simp add: awaiting_def 2(3))
qed (simp add: assms)

lemma reportFatal_fields [simp]:
  "co_expected (reportFatal e c) = co_expected c" "co_pending (reportFatal e c) = co_pending c"
  "co_wire (reportFatal e c) = co_wire c" "co_seq (reportFatal e c) = co_seq c" "co_hello (reportFatal e c) = co_hello c"
  by (simp_all add: reportFatal_def split: option.split)

lemma receive_fields [simp]:
  "co_wire (fst (receiveTransactionAck a c)) = co_wire c" "co_seq (fst (receiveTransactionAck a c)) = co_seq c"
  by (cases rule: receive_cases [of a c]; simp)+

lemma readControl_cases:
  obtains e where "fst (readControl m c) = reportFatal e c"
  | a where "fst (readControl m c) = fst (receiveTransactionAck a c)"
  | a e where "fst (readControl m c) = reportFatal e (fst (receiveTransactionAck a c))"
  | x y where "fst (readControl m c) = c\<lparr>co_commitStop := x, co_stop := y\<rparr>"
proof (cases m)
  case (Inl e)
  then show thesis by (intro that(1) [of e]) (simp add: readControl_def)
next
  case (Inr f)
  show thesis
  proof (cases "df_Type f = ''ack''")
    case True
    show thesis
    proof (cases "df_Ack f")
      case None
      then show thesis using Inr True by (intro that(1)) (simp add: readControl_def)
    next
      case (Some a)
      obtain d e where d: "receiveTransactionAck a c = (d, e)" by fastforce
      then show thesis
        using Inr True Some that(2) [of a] that(3) [of "the e" a] by (cases e) (simp_all add: readControl_def)
    qed
  next
    case False
    show thesis
    proof (cases "df_Type f = ''stop''")
      case True
      then show thesis
        using Inr that(1) that(4) by (cases "df_Stop f") (simp_all add: readControl_def)
    next
      case other: False
      then show thesis using Inr False by (intro that(1)) (simp add: readControl_def)
    qed
  qed
qed

lemma readControl_fields [simp]:
  "co_wire (fst (readControl m c)) = co_wire c" "co_seq (fst (readControl m c)) = co_seq c"
  by (cases rule: readControl_cases [of m c]; simp)+

lemma readControl_awaiting:
  assumes "awaiting t c"
  shows "awaiting t (fst (readControl m c))"
proof -
  have f: "awaiting t (reportFatal e d) = awaiting t d" for e d by (simp add: awaiting_def)
  show ?thesis
  proof (cases rule: readControl_cases [of m c])
    case (4 x y)
    then show ?thesis using assms by (simp add: awaiting_def)
  qed (simp_all add: f assms receive_awaiting)
qed

lemma sendBytes_out: "set (wi_out w) \<subseteq> set (wi_out (fst (sendBytes raw o' w)))"
  by (auto simp: sendBytes_def failWrite_def split: option.split write_outcome.split)

lemma sendBytes_ok: "sendBytes raw outcome w = (w', None) \<Longrightarrow> raw \<in> set (wi_out w') \<and> length raw \<le> MaxFrameBytes"
  by (auto simp: sendBytes_def failWrite_def split: option.splits write_outcome.splits if_splits)

lemma commit_loop_success:
  assumes "commit_loop raw st armed es c = (c', Some (Inr out))" "awaiting t c"
  shows "out = st \<and> co_seq c' = co_seq c \<and> set (wi_out (co_wire c)) \<subseteq> set (wi_out (co_wire c')) \<and>
    co_expected c' = None \<and> co_pending c' = None \<and>
    (\<exists>a. co_last c' = Some a \<and> acks_frame t a \<and> co_revision c' = ta_ResultRevision a \<and>
       ta_Status a \<in> {''accepted'', ''replayed''})"
  using assms
proof (induction raw st armed es c rule: commit_loop.induct)
  case (2 raw st armed es c)
  show ?case
  proof (cases "co_ackReady c")
    case True
    then obtain a where a: "co_pending c = Some a" "ta_Status a = ''accepted'' \<or> ta_Status a = ''replayed''"
      "c' = c\<lparr>co_ackReady := False, co_last := Some a, co_pending := None, co_expected := None,
        co_revision := ta_ResultRevision a\<rparr>" "out = st"
      using "2.prems"(1) by (auto simp: acceptTransactionAck_def split: option.splits if_splits)
    then show ?thesis using "2.prems"(2) by (auto simp: awaiting_def)
  qed (use 2 in simp)
next
  case (3 raw st armed outcome es c)
  obtain w where w: "sendBytes raw outcome (co_wire c) = (w, None)"
    "commit_loop raw st armed es (c\<lparr>co_wire := w\<rparr>) = (c', Some (Inr out))"
    using "3.prems"(1) by (auto split: prod.splits option.splits)
  have "awaiting t (c\<lparr>co_wire := w\<rparr>)" using "3.prems"(2) by (simp add: awaiting_def)
  from "3.IH" [OF w(1) [symmetric] refl w(2) this] sendBytes_out [of "co_wire c" raw outcome] w(1)
  show ?case by auto
next
  case (5 raw st armed left es c)
  have "awaiting t (c\<lparr>co_commitStop := None\<rparr>)" using "5.prems"(2) by (simp add: awaiting_def)
  with 5 show ?case by (auto split: if_splits option.splits)
next
  case (7 raw st armed inbound es c)
  from "7.IH" [OF _ readControl_awaiting [OF "7.prems"(2)]] "7.prems"(1) show ?case by simp
qed (auto split: if_splits)

lemma Commit_success:
  assumes "Coordinator_Commit H marshal V tx c = (c', Some (Inr st))"
  shows "st = tc_NextState tx \<and> co_seq c' = co_seq c + 1 \<and>
    marshal (transaction_out (commit_frame H tx c)) @ ''\<newline>'' \<in> set (wi_out (co_wire c')) \<and>
    WorkerFrame_Validate (transaction_out (commit_frame H tx c)) = None \<and>
    co_expected c' = None \<and> co_pending c' = None \<and>
    (\<exists>a. co_last c' = Some a \<and> acks_frame (commit_frame H tx c) a \<and> co_revision c' = ta_ResultRevision a \<and>
       ta_Status a \<in> {''accepted'', ''replayed''})"
proof -
  let ?f = "commit_frame H tx c" and ?raw = "marshal (transaction_out (commit_frame H tx c)) @ ''\<newline>''"
  obtain w where valid: "WorkerFrame_Validate (transaction_out ?f) = None"
    and w: "sendBytes ?raw (ce_write V) (co_wire c) = (w, None)"
    and loop: "commit_loop ?raw (tc_NextState tx) False (ce_events V)
      ((expectTransactionAck ?f c)\<lparr>co_wire := w, co_seq := co_seq c + 1\<rparr>) = (c', Some (Inr st)) \<or>
      (\<exists>d. commit_loop ?raw (tc_NextState tx) False (ce_events V)
        ((expectTransactionAck ?f c)\<lparr>co_wire := w, co_seq := co_seq c + 1\<rparr>) = (d, Some (Inr st)) \<and> c' = clearExpectedAck d)"
    using assms
    by (auto simp: Coordinator_Commit_def Let_def split: option.splits if_splits prod.splits sum.splits)
  have "awaiting ?f ((expectTransactionAck ?f c)\<lparr>co_wire := w, co_seq := co_seq c + 1\<rparr>)"
    using awaiting_expect by (simp add: awaiting_def)
  from loop commit_loop_success [OF _ this] sendBytes_ok [OF w] valid
  show ?thesis by (fastforce simp: clearExpectedAck_def)
qed

lemma Commit_refused: "Coordinator_Commit H marshal V tx c = (c', Some (Inl (Refused e))) \<Longrightarrow> c' = c"
  by (auto simp: Coordinator_Commit_def Let_def split: option.splits if_splits prod.splits sum.splits)

interpretation worker_committer: session_committer "coordinator_committer H marshal V"
proof
  fix t c c' raw
  assume "coordinator_committer H marshal V t c = (c', Inr raw)"
  then have "Coordinator_Commit H marshal V t c = (c', Some (Inr raw))"
    by (auto simp: coordinator_committer_def split: prod.splits option.splits sum.splits commit_error.splits)
  then show "raw = tc_NextState t" using Commit_success by blast
qed

end
