(* ===== verification/CommitTheorems.thy ===== *)
theory CommitTheorems
  imports Coordinator
begin

text \<open>
  What a worker's commit promises: acknowledgements are matched to the frame that waits for them
  and are idempotent, a damaged stream is never written again, a commit returns once its frame is
  acknowledged, and a session changes only with an acknowledged commit.
\<close>

section \<open>Acknowledgements\<close>

lemma sameAck_refl [simp]: "sameTransactionAck a a"
  by (simp add: sameTransactionAck_def sameTransactionAckIdentity_def)

text \<open>
  a repeated acknowledgement, which a retransmitted frame always causes, is harmless: after
  one was taken without error a second copy changes nothing, before the commit has seen it and
  after, when one that contradicts it is an error.
\<close>

theorem ack_idempotent:
  assumes "receiveTransactionAck a c = (c1, None)"
  shows "receiveTransactionAck a c1 = (c1, None) \<and>
    (\<forall>c2. acceptTransactionAck c1 = (c2, Inr a) \<longrightarrow> receiveTransactionAck a c2 = (c2, None) \<and>
       (\<forall>b. \<not> sameTransactionAck a b \<longrightarrow> snd (receiveTransactionAck b c2) \<noteq> None))"
proof (rule conj_2)
  show "receiveTransactionAck a c1 = (c1, None)"
    using assms by (auto simp: receiveTransactionAck_def split: option.splits if_splits)
next
  show "\<forall>c2. acceptTransactionAck c1 = (c2, Inr a) \<longrightarrow> receiveTransactionAck a c2 = (c2, None) \<and>
      (\<forall>b. \<not> sameTransactionAck a b \<longrightarrow> snd (receiveTransactionAck b c2) \<noteq> None)"
  proof (intro allI impI)
    fix c2 assume "acceptTransactionAck c1 = (c2, Inr a)"
    then have "co_last c2 = Some a" "co_expected c2 = None"
      by (auto simp: acceptTransactionAck_def split: option.splits)
    then show "receiveTransactionAck a c2 = (c2, None) \<and>
        (\<forall>b. \<not> sameTransactionAck a b \<longrightarrow> snd (receiveTransactionAck b c2) \<noteq> None)"
      by (simp add: receiveTransactionAck_def)
  qed
qed

section \<open>The wire\<close>

lemma sendBytes_poisoned:
  "wi_failure w = Some e \<Longrightarrow> fst (sendBytes raw outcome w) = w \<and> snd (sendBytes raw outcome w) \<noteq> None"
  by (simp add: sendBytes_def)

lemma sendBytes_poisons:
  "sendBytes raw outcome w = (w', Some e) \<Longrightarrow> length raw \<le> MaxFrameBytes \<Longrightarrow> wi_failure w' \<noteq> None \<and> wi_out w' = wi_out w"
  by (auto simp: sendBytes_def failWrite_def split: option.splits write_outcome.splits)

lemma commit_loop_poisoned:
  "wi_failure (co_wire c) = Some e \<Longrightarrow> co_wire (fst (commit_loop raw st armed es c)) = co_wire c"
proof (induction raw st armed es c rule: commit_loop.induct)
  case (2 raw st armed es c)
  then show ?case by (auto simp: acceptTransactionAck_def split: option.split)
next
  case (3 raw st armed outcome es c)
  then show ?case by (simp add: sendBytes_def)
qed (auto split: option.split)

lemma commit_loop_failure:
  "commit_loop raw st armed es c = (c', r) \<Longrightarrow> length raw \<le> MaxFrameBytes \<Longrightarrow>
   wi_out (co_wire c') = wi_out (co_wire c) @ replicate (length (wi_out (co_wire c')) - length (wi_out (co_wire c))) raw"
proof (induction raw st armed es c arbitrary: c' r rule: commit_loop.induct)
  case (2 raw st armed es c)
  then show ?case by (auto simp: acceptTransactionAck_def split: option.splits if_splits)
next
  case (3 raw st armed outcome es c)
  obtain w e where w: "sendBytes raw outcome (co_wire c) = (w, e)" by fastforce
  show ?case
  proof (cases e)
    case None
    then have out: "wi_out w = wi_out (co_wire c) @ [raw]"
      using w by (auto simp: sendBytes_def failWrite_def split: option.splits write_outcome.splits if_splits)
    have "wi_out (co_wire c') = wi_out w @ replicate (length (wi_out (co_wire c')) - length (wi_out w)) raw"
      using "3.IH" [OF w [symmetric] None _ "3.prems"(2)] "3.prems"(1) w None by simp
    then obtain n where n: "wi_out (co_wire c') = wi_out (co_wire c) @ raw # replicate n raw" using out by simp
    then show ?thesis by simp
  next
    case (Some x)
    then show ?thesis
      using "3.prems" w sendBytes_poisons [OF w [unfolded Some] "3.prems"(2)] by auto
  qed
qed (auto split: option.splits if_splits)

abbreviation commit_line :: "hashing \<Rightarrow> (WorkerFrame \<Rightarrow> string) \<Rightarrow> transactionCommit \<Rightarrow> coordinator \<Rightarrow> string" where
  "commit_line H marshal tx c \<equiv> marshal (transaction_out (commit_frame H tx c)) @ ''\<newline>''"

lemma commit_wire_cases:
  assumes "Coordinator_Commit H marshal V tx c = (c', result)"
  obtains (refused) e where "c' = c" "result = Some (Inl e)"
  | (sent) w o' where "sendBytes (commit_line H marshal tx c) (ce_write V) (co_wire c) = (w, o')" "length (commit_line H marshal tx c) \<le> MaxFrameBytes"
      "o' = None \<longrightarrow> (\<exists>d r. commit_loop (commit_line H marshal tx c) (tc_NextState tx) False (ce_events V)
          ((expectTransactionAck (commit_frame H tx c) c)\<lparr>co_wire := w, co_seq := co_seq c + 1\<rparr>) = (d, r) \<and>
          co_wire c' = co_wire d)"
      "o' \<noteq> None \<longrightarrow> co_wire c' = w \<and> (\<exists>e. result = Some (Inl e))"
proof (cases "ce_entry V = None \<and> WorkerFrame_Validate (transaction_out (commit_frame H tx c)) = None \<and>
    length (commit_line H marshal tx c) \<le> MaxFrameBytes \<and> ce_built V = None \<and> ce_scope V = None")
  case False
  then show thesis
    using assms that(1) by (auto simp: Coordinator_Commit_def Let_def split: option.splits if_splits)
next
  case True
  obtain w o' where w: "sendBytes (commit_line H marshal tx c) (ce_write V) (co_wire c) = (w, o')" by fastforce
  obtain d r where d: "commit_loop (commit_line H marshal tx c) (tc_NextState tx) False (ce_events V)
        ((expectTransactionAck (commit_frame H tx c) c)\<lparr>co_wire := w, co_seq := co_seq c + 1\<rparr>) = (d, r)"
    by fastforce
  show thesis
    using assms True w d
    by (intro that(2) [OF w])
      (auto simp: Coordinator_Commit_def Let_def clearExpectedAck_def split: option.splits sum.splits)
qed



section \<open>A commit returns\<close>

text \<open>Between commits nothing is expected, nothing has failed, and the last ACK was the last frame's.\<close>

definition idle :: "coordinator \<Rightarrow> bool" where
  "idle c \<longleftrightarrow> \<not> co_ackReady c \<and> co_expected c = None \<and> co_pending c = None \<and> co_fatal c = None \<and>
     wi_failure (co_wire c) = None \<and> (\<forall>l. co_last c = Some l \<longrightarrow> ta_Sequence l = co_seq c)"

definition ack_in :: "TransactionAck \<Rightarrow> commit_event" where
  "ack_in a = Control (Inr \<lparr>df_Type = ''ack'', df_Hello = None, df_Start = None, df_Ack = Some a, df_Stop = None\<rparr>)"

text \<open>The coordinator while it waits for \<open>a\<close>, and once \<open>a\<close> is pending.\<close>

definition waiting_for :: "TransactionAck \<Rightarrow> coordinator \<Rightarrow> bool" where
  "waiting_for a c \<longleftrightarrow> (\<exists>x. co_expected c = Some x \<and> sameTransactionAckIdentity x a) \<and>
     (\<forall>l. co_last c = Some l \<longrightarrow> ta_Sequence l \<noteq> ta_Sequence a) \<and> co_fatal c = None \<and>
     wi_failure (co_wire c) = None \<and> co_pending c = (if co_ackReady c then Some a else None)"

lemma sendBytes_healthy:
  "wi_failure w = None \<Longrightarrow> length raw \<le> MaxFrameBytes \<Longrightarrow> sendBytes raw WriteOk w = (w\<lparr>wi_out := wi_out w @ [raw]\<rparr>, None)"
  by (simp add: sendBytes_def)

lemma other_sequence: "ta_Sequence l \<noteq> ta_Sequence a \<Longrightarrow> \<not> sameTransactionAck l a"
  by (simp add: sameTransactionAck_def sameTransactionAckIdentity_def)

lemma waiting_ack:
  assumes "waiting_for a c"
  shows "readControl (Inr \<lparr>df_Type = ''ack'', df_Hello = None, df_Start = None, df_Ack = Some a, df_Stop = None\<rparr>) c =
      (c\<lparr>co_pending := Some a, co_ackReady := True\<rparr>, True)"
    "waiting_for a (c\<lparr>co_pending := Some a, co_ackReady := True\<rparr>)"
  using assms other_sequence
  by (auto simp: waiting_for_def readControl_def receiveTransactionAck_def split: option.splits)

lemma loop_waits:
  assumes "waiting_for a c" "length raw \<le> MaxFrameBytes" "set es \<subseteq> {RetryTick WriteOk, ack_in a} \<union> (if co_ackReady c \<or> ack_in a \<in> set es then {} else {AckReady})"
  shows "\<exists>d. waiting_for a d \<and> (co_ackReady d \<longleftrightarrow> co_ackReady c \<or> ack_in a \<in> set es) \<and> co_seq d = co_seq c \<and>
    (\<forall>rest. commit_loop raw st armed (es @ rest) c = commit_loop raw st armed rest d)"
  using assms
proof (induction es arbitrary: c)
  case (Cons e es)
  consider "e = RetryTick WriteOk" | "e = ack_in a" | "e = AckReady" "\<not> co_ackReady c"
    using Cons.prems(3) by (auto split: if_splits)
  then show ?case
  proof cases
    case 1
    let ?w = "(co_wire c)\<lparr>wi_out := wi_out (co_wire c) @ [raw]\<rparr>"
    have w: "sendBytes raw WriteOk (co_wire c) = (?w, None)"
      using Cons.prems(1,2) by (intro sendBytes_healthy) (simp_all add: waiting_for_def)
    have "waiting_for a (c\<lparr>co_wire := ?w\<rparr>)" using Cons.prems(1) by (simp add: waiting_for_def)
    from Cons.IH [OF this Cons.prems(2)] Cons.prems(3) 1 w show ?thesis by (auto simp: ack_in_def)
  next
    case 2
    from Cons.IH [OF waiting_ack(2) [OF Cons.prems(1)] Cons.prems(2)] Cons.prems(3) 2 waiting_ack(1) [OF Cons.prems(1)]
    show ?thesis by (auto simp: ack_in_def)
  next
    case 3
    from Cons.IH [OF Cons.prems(1,2)] Cons.prems(3) 3 show ?thesis by (auto split: if_splits simp: ack_in_def)
  qed
qed auto

text \<open>
  C16: on a healthy wire a commit whose frame is valid returns the state it committed as soon as
  the acknowledgement of that frame arrives, however often the frame was sent again and the
  acknowledgement repeated in the meantime, and leaves the coordinator idle, at the
  acknowledged revision, one sequence number on.
\<close>

theorem commit_returns:
  assumes "idle c" "ce_entry V = None" "ce_built V = None" "ce_scope V = None" "ce_write V = WriteOk"
    and frame: "frame = commit_frame H tx c"
    and "WorkerFrame_Validate (transaction_out frame) = None"
    and "length (marshal (transaction_out frame)) < MaxFrameBytes"
    and ack: "acks_frame frame a" "ta_Status a \<in> {''accepted'', ''replayed''}"
    and events: "ce_events V = early @ ack_in a # late @ AckReady # rest"
      "set early \<subseteq> {RetryTick WriteOk, AckReady}" "set late \<subseteq> {RetryTick WriteOk, ack_in a}"
  shows "\<exists>c'. Coordinator_Commit H marshal V tx c = (c', Some (Inr (tc_NextState tx))) \<and> idle c' \<and>
    co_revision c' = ta_ResultRevision a \<and> co_seq c' = co_seq c + 1"
proof -
  let ?raw = "marshal (transaction_out frame) @ ''\<newline>''" and ?st = "tc_NextState tx"
  have size: "length ?raw \<le> MaxFrameBytes" using assms(8) by simp
  let ?w = "(co_wire c)\<lparr>wi_out := wi_out (co_wire c) @ [?raw]\<rparr>"
  let ?c1 = "(expectTransactionAck frame c)\<lparr>co_wire := ?w, co_seq := co_seq c + 1\<rparr>"
  have seq: "ta_Sequence a = co_seq c + 1" using ack(1) by (simp add: acks_frame_def frame commit_frame_def Let_def)
  have w: "sendBytes ?raw WriteOk (co_wire c) = (?w, None)"
    using assms(1) size by (intro sendBytes_healthy) (simp_all add: idle_def)
  have wait: "waiting_for a ?c1" "\<not> co_ackReady ?c1"
    using assms(1) ack(1) seq
    by (auto simp: waiting_for_def idle_def expectTransactionAck_def acks_frame_def sameTransactionAckIdentity_def)
  have "ack_in a \<notin> set early" using events(2) by (auto simp: ack_in_def)
  then obtain d1 where d1: "waiting_for a d1" "\<not> co_ackReady d1" "co_seq d1 = co_seq c + 1"
    "\<forall>rest. commit_loop ?raw ?st False (early @ rest) ?c1 = commit_loop ?raw ?st False rest d1"
    using loop_waits [OF wait(1) size, of early ?st False] wait(2) events(2) by auto
  obtain d2 where d2: "waiting_for a d2" "co_ackReady d2" "co_seq d2 = co_seq c + 1"
    "\<forall>rest. commit_loop ?raw ?st False (ack_in a # late @ rest) d1 = commit_loop ?raw ?st False rest d2"
    using loop_waits [OF d1(1) size, of "ack_in a # late" ?st False] d1(3) events(3) by auto
  let ?d3 = "d2\<lparr>co_ackReady := False, co_last := Some a, co_pending := None, co_expected := None,
      co_revision := ta_ResultRevision a\<rparr>"
  have "commit_loop ?raw ?st False (ce_events V) ?c1 = (?d3, Some (Inr ?st))"
    using d1(4) d2(1,2,4) ack(2) events(1)
    by (auto simp: waiting_for_def acceptTransactionAck_def)
  then have "Coordinator_Commit H marshal V tx c = (clearExpectedAck ?d3, Some (Inr ?st))"
    using assms(2-5,7) size w by (simp add: Coordinator_Commit_def Let_def frame [symmetric])
  moreover have "idle (clearExpectedAck ?d3)"
    using d2(1,3) seq by (simp add: idle_def clearExpectedAck_def waiting_for_def)
  ultimately show ?thesis using d2(3) by (simp add: clearExpectedAck_def)
qed

section \<open>Sessions\<close>

text \<open>
  C15: a session and the daemon cannot drift apart silently.  After a commit through the
  coordinator the session is unchanged, or its state is the one just acknowledged: built on the
  session's own state, sent in a valid frame at the coordinator's revision, accepted by the
  daemon under that frame's identity and payload hash, with the revision of the ACK.  An error
  always leaves the session as it was.
\<close>

theorem session_commit_atomic:
  assumes "Session_Commit C clone (coordinator_committer H marshal V) ctx1 ctx2 fn s c = (s', c', err)"
    and "\<forall>raw v. decodeState C raw = Inr v \<longrightarrow> (\<exists>r. encodeState C v = Inr r)"
  shows "(err \<noteq> None \<longrightarrow> s' = s) \<and>
    (s' \<noteq> s \<longrightarrow> (\<exists>t a v raw. tc_BaseState t = ss_state s \<and> int (length (tc_Events t)) \<le> max 0 (ss_maxEvents s) \<and>
       WorkerFrame_Validate (transaction_out (commit_frame H t c)) = None \<and>
       co_last c' = Some a \<and> acks_frame (commit_frame H t c) a \<and> ta_Status a \<in> {''accepted'', ''replayed''} \<and>
       co_revision c' = ta_ResultRevision a \<and> co_seq c' = co_seq c + 1 \<and>
       decodeState C (tc_NextState t) = Inr v \<and> encodeState C v = Inr raw \<and>
       s' = s\<lparr>ss_state := raw, ss_checkpoints := put_entries (tc_Checkpoints t) (ss_checkpoints s)\<rparr>))"
  using assms
proof (cases rule: worker_committer.commit_outcome)
  case (committed t v raw)
  have "Coordinator_Commit H marshal V t c = (c', Some (Inr (tc_NextState t)))"
    using committed(1)
    by (auto simp: coordinator_committer_def split: prod.splits option.splits sum.splits commit_error.splits)
  note sent = Commit_success [OF this]
  then obtain a where a: "co_last c' = Some a" "acks_frame (commit_frame H t c) a" "co_revision c' = ta_ResultRevision a"
    "ta_Status a \<in> {''accepted'', ''replayed''}" by blast
  show ?thesis
  proof (rule conj_2; intro impI)
    show "s' = s" if "err \<noteq> None" using that committed(2) by simp
  next
    show "\<exists>t a v raw. tc_BaseState t = ss_state s \<and> int (length (tc_Events t)) \<le> max 0 (ss_maxEvents s) \<and>
       WorkerFrame_Validate (transaction_out (commit_frame H t c)) = None \<and>
       co_last c' = Some a \<and> acks_frame (commit_frame H t c) a \<and> ta_Status a \<in> {''accepted'', ''replayed''} \<and>
       co_revision c' = ta_ResultRevision a \<and> co_seq c' = co_seq c + 1 \<and>
       decodeState C (tc_NextState t) = Inr v \<and> encodeState C v = Inr raw \<and>
       s' = s\<lparr>ss_state := raw, ss_checkpoints := put_entries (tc_Checkpoints t) (ss_checkpoints s)\<rparr>"
      using committed a sent by (intro exI [of _ t] exI [of _ a] exI [of _ v] exI [of _ raw]) simp
  qed
qed auto


section \<open>Samples\<close>

definition sample_hashing :: hashing where
  "sample_hashing = \<lparr>sum256 = (\<lambda>_. replicate 32 (CHR ''A'')), json_string = (\<lambda>s. s), json_raw = (\<lambda>s. s),
     json_map = (\<lambda>_. ''{}''), json_events = (\<lambda>_. ''[]'')\<rparr>"

definition sample_coordinator :: coordinator where
  "sample_coordinator = \<lparr>co_hello = \<lparr>he_Major = 5, he_Minor = 0, he_DeploymentID = ''dep'', he_DeploymentName = ''mon'',
       he_Generation = 1, he_WorkerToken = hex_encode ''0123456789abcdef'', he_ArtifactHash = '''', he_ConfigHash = '''', he_StateRevision = 0,
       he_State = ''{}'', he_Checkpoints = [], he_Secrets = [],
       he_Policy = \<lparr>po_FailureThreshold = 1, po_MaxPerTransaction = 1, po_Retention = 1000000\<rparr>\<rparr>,
     co_wire = \<lparr>wi_out = [], wi_failure = None\<rparr>, co_seq = 0, co_revision = 0, co_ackReady = False,
     co_expected = None, co_pending = None, co_last = None, co_stop = None, co_commitStop = None, co_fatal = None\<rparr>"

definition sample_commit :: transactionCommit where
  "sample_commit = \<lparr>tc_BaseState = ''[]'', tc_NextState = ''{}'', tc_Events = [], tc_Checkpoints = []\<rparr>"

definition sample_reply :: TransactionAck where
  "sample_reply = \<lparr>ta_DeploymentID = ''dep'', ta_Generation = 1, ta_Sequence = 1,
     ta_PayloadHash = hex_encode (replicate 32 (CHR ''A'')), ta_ResultRevision = 1, ta_Status = ''accepted''\<rparr>"

definition sample_commit_env :: commit_env where
  "sample_commit_env = \<lparr>ce_entry = None, ce_built = None, ce_scope = None, ce_write = WriteOk,
     ce_events = [RetryTick WriteOk] @ ack_in sample_reply # [RetryTick WriteOk, ack_in sample_reply] @ AckReady # []\<rparr>"

definition sample_wire_frame :: WireTransaction where
  "sample_wire_frame = \<lparr>wt_DeploymentID = ''dep'', wt_Generation = 1, wt_WorkerToken = hex_encode ''0123456789abcdef'', wt_Sequence = 1,
     wt_BaseStateRevision = 0, wt_NextState = ''{}'', wt_Checkpoints = [], wt_Events = [],
     wt_PayloadHash = hex_encode (replicate 32 (CHR ''A''))\<rparr>"

lemma sample_frame:
  "commit_frame sample_hashing sample_commit sample_coordinator = sample_wire_frame"
  by (simp add: commit_frame_def sample_commit_def sample_coordinator_def sample_wire_frame_def Let_def
      HashTransactionFrame_def sample_hashing_def)

lemma sample_frame_sendable:
  "WorkerFrame_Validate (transaction_out sample_wire_frame) = None"
  by (simp add: WorkerFrame_Validate_def transaction_out_def payloads_def Transaction_Validate_def sample_wire_frame_def
      validSHA256_def hex_decode_encode length_hex_encode json_valid_braces MaxStateBytes_def MaxEventsPerTransaction_def
      MaxCheckpointsPerTransaction_def)

lemma sample_idle: "idle sample_coordinator"
  by (simp add: idle_def sample_coordinator_def)

lemma sample_reply_frame: "acks_frame sample_wire_frame sample_reply"
  by (simp add: acks_frame_def sample_wire_frame_def sample_reply_def)

lemma commit_returns_witness:
  "\<exists>c'. Coordinator_Commit sample_hashing (\<lambda>_. ''frame'') sample_commit_env sample_commit sample_coordinator =
     (c', Some (Inr ''{}'')) \<and> idle c' \<and> co_revision c' = 1 \<and> co_seq c' = 1"
proof -
  have "\<exists>c'. Coordinator_Commit sample_hashing (\<lambda>_. ''frame'') sample_commit_env sample_commit sample_coordinator =
     (c', Some (Inr (tc_NextState sample_commit))) \<and> idle c' \<and> co_revision c' = ta_ResultRevision sample_reply \<and>
     co_seq c' = co_seq sample_coordinator + 1"
  proof (rule commit_returns [OF sample_idle _ _ _ _ sample_frame [symmetric] sample_frame_sendable _ sample_reply_frame])
    show "ce_events sample_commit_env = [RetryTick WriteOk] @ ack_in sample_reply # [RetryTick WriteOk, ack_in sample_reply] @ AckReady # []"
      by (simp add: sample_commit_env_def)
  qed (simp_all add: sample_commit_env_def MaxFrameBytes_def sample_reply_def)
  then show ?thesis by (simp add: sample_commit_def sample_reply_def sample_coordinator_def)
qed

lemma ack_idempotent_witness:
  "\<exists>c1. receiveTransactionAck sample_reply (expectTransactionAck sample_wire_frame sample_coordinator) = (c1, None) \<and>
     receiveTransactionAck sample_reply c1 = (c1, None)"
proof -
  obtain c1 where c1: "receiveTransactionAck sample_reply (expectTransactionAck sample_wire_frame sample_coordinator) = (c1, None)"
    by (simp add: receiveTransactionAck_def expectTransactionAck_def sample_coordinator_def sample_reply_def
        sample_wire_frame_def sameTransactionAckIdentity_def)
  from c1 ack_idempotent [OF c1] show ?thesis by blast
qed


definition unit_codec :: "string state_codec" where
  "unit_codec = \<lparr>sc_zero = '''', sc_decode = (\<lambda>raw. Some (raw, True)), sc_encode = Some\<rparr>"

definition sample_session :: Session where
  "sample_session = \<lparr>ss_state = ''[]'', ss_checkpoints = [], ss_secrets = [], ss_maxEvents = 1\<rparr>"

lemma sample_fields:
  "co_wire sample_coordinator = \<lparr>wi_out = [], wi_failure = None\<rparr>" "co_seq sample_coordinator = 0"
  "tc_NextState sample_commit = ''{}''" "ta_Status sample_reply = ''accepted''"
  "ce_entry sample_commit_env = None" "ce_built sample_commit_env = None" "ce_scope sample_commit_env = None"
  "ce_write sample_commit_env = WriteOk"
  by (simp_all add: sample_coordinator_def sample_commit_def sample_reply_def sample_commit_env_def)

definition quick_env :: commit_env where
  "quick_env = sample_commit_env\<lparr>ce_events := [ack_in sample_reply, AckReady]\<rparr>"

lemma sample_run:
  "\<exists>d. Coordinator_Commit sample_hashing (\<lambda>_. ''frame'') quick_env sample_commit sample_coordinator =
     (d, Some (Inr ''{}'')) \<and> co_last d = Some sample_reply"
proof -
  let ?c = "(expectTransactionAck sample_wire_frame sample_coordinator)\<lparr>co_wire := \<lparr>wi_out = [''frame\<newline>''], wi_failure = None\<rparr>, co_seq := 1\<rparr>"
  have "waiting_for sample_reply ?c"
    by (simp add: waiting_for_def expectTransactionAck_def sample_coordinator_def sample_wire_frame_def sample_reply_def
        sameTransactionAckIdentity_def)
  from waiting_ack(1) [OF this] show ?thesis
    by (simp add: Coordinator_Commit_def Let_def sample_frame sample_frame_sendable MaxFrameBytes_def quick_env_def
        sendBytes_def ack_in_def acceptTransactionAck_def clearExpectedAck_def sample_fields)
qed

lemma session_commit_atomic_witness:
  "\<exists>s' c'. Session_Commit unit_codec Inr (coordinator_committer sample_hashing (\<lambda>_. ''frame'') quick_env)
       None None (Some (SetState ''{}'' (Return None))) sample_session sample_coordinator = (s', c', None) \<and>
     (\<exists>a. co_last c' = Some a \<and> co_revision c' = ta_ResultRevision a)"
proof -
  obtain d where d: "Coordinator_Commit sample_hashing (\<lambda>_. ''frame'') quick_env sample_commit sample_coordinator =
     (d, Some (Inr ''{}''))" using sample_run by blast
  have trim: "TrimSpace ''{}'' = ''{}''" "TrimSpace ''[]'' = ''[]''"
    by (simp_all add: TrimSpace_plain plain_char_def byte_def)
  let ?s = "sample_session\<lparr>ss_state := ''{}''\<rparr>"
  have run: "Session_Commit unit_codec Inr (coordinator_committer sample_hashing (\<lambda>_. ''frame'') quick_env)
       None None (Some (SetState ''{}'' (Return None))) sample_session sample_coordinator = (?s, d, None)"
    using d
    by (simp add: Session_Commit_def sample_session_def decodeState_def encodeState_def unit_codec_def trim
        changed_checkpoints_def Let_def coordinator_committer_def sample_commit_def)
  have codec: "\<forall>raw v. decodeState unit_codec raw = Inr v \<longrightarrow> (\<exists>r. encodeState unit_codec v = Inr r)"
    by (simp add: encodeState_def unit_codec_def)
  have "?s \<noteq> sample_session" by (simp add: sample_session_def)
  with session_commit_atomic [OF run codec, THEN conjunct2] run show ?thesis by blast
qed

end
