(* ===== verification/Queries.thy ===== *)
theory Queries
  imports Deployments "HOL-Library.List_Lexorder" "HOL-Library.Char_ord" "HOL-Library.Product_Lexorder"
begin

text \<open>
  The read-only queries of the store: \<open>bindings.go\<close>, the runtime reads of \<open>checkpoints.go\<close>,
  \<open>inspect.go\<close> and \<open>summaries.go\<close> (internal/storage).  Each is one SQL snapshot, so a function of
  the store.  A join drops the rows without a partner, \<open>ORDER BY\<close> is a stable sort by the column
  (text compares by bytes), and a struct that is scanned column by column is the row itself.
\<close>

section \<open>Bindings\<close>

definition ListDeployments :: "store \<Rightarrow> deployment_row list" where
  "ListDeployments s = sort_key d_name (deployments s)"

definition ListActiveBindings :: "string \<Rightarrow> store \<Rightarrow> binding_row list" where
  "ListActiveBindings i s = sort_key b_id (filter (\<lambda>b. b_deployment b = i \<and> b_retired_at b = None) (bindings s))"

section \<open>What the scheduler reads\<close>

definition artifact_of :: "deployment_row \<Rightarrow> store \<Rightarrow> artifact_row option" where
  "artifact_of d s = find (\<lambda>a. a_id a = d_artifact d) (artifacts s)"

record RuntimeMetadata =
  rm_ID :: string
  rm_Name :: string
  rm_SourceDir :: string
  rm_ArtifactID :: string
  rm_ConfigRevision :: int
  rm_ActiveGeneration :: int
  rm_Describe :: string

definition ListRuntimeMetadata :: "int \<Rightarrow> store \<Rightarrow> RuntimeMetadata list" where
  "ListRuntimeMetadata now s =
     concat (map (\<lambda>d. case artifact_of d s of
         None \<Rightarrow> []
       | Some a \<Rightarrow> [\<lparr>rm_ID = d_id d, rm_Name = d_name d, rm_SourceDir = d_source_dir d, rm_ArtifactID = d_artifact d,
           rm_ConfigRevision = d_config_revision d, rm_ActiveGeneration = d_active d, rm_Describe = a_describe a\<rparr>])
       (sort_key d_name (filter (\<lambda>d. d_status d = DepActive \<and>
          (case d_expires_at d of None \<Rightarrow> True | Some t \<Rightarrow> now < t)) (deployments s))))"

record RuntimeDeployment =
  rd_Deployment :: deployment_row
  rd_Artifact :: artifact_row
  rd_Checkpoints :: "(string \<times> string) list"

text \<open>The selector over the joined rows: an id match comes before a name match.\<close>

definition select_joined :: "string \<Rightarrow> store \<Rightarrow> (deployment_row \<times> artifact_row) option" where
  "select_joined selector s =
     (let joined = filter (\<lambda>d. artifact_of d s \<noteq> None) (deployments s);
          hit = (case find (\<lambda>d. d_id d = selector) joined of
                   Some d \<Rightarrow> Some d | None \<Rightarrow> find (\<lambda>d. d_name d = selector) joined)
      in case hit of None \<Rightarrow> None
         | Some d \<Rightarrow> (case artifact_of d s of None \<Rightarrow> None | Some a \<Rightarrow> Some (d, a)))"

definition checkpoints_of :: "string \<Rightarrow> store \<Rightarrow> checkpoint_row list" where
  "checkpoints_of i s = sort_key c_source (filter (\<lambda>c. c_deployment c = i) (checkpoints s))"

definition GetRuntimeDeployment :: "string \<Rightarrow> store \<Rightarrow> RuntimeDeployment result" where
  "GetRuntimeDeployment selector s =
     (case select_joined selector s of
        None \<Rightarrow> Inl ErrNotFound
      | Some (d, a) \<Rightarrow> Inr \<lparr>rd_Deployment = d, rd_Artifact = a,
          rd_Checkpoints = map (\<lambda>c. (c_source c, c_value c)) (checkpoints_of (d_id d) s)\<rparr>)"

section \<open>What an operator sees\<close>

record CheckpointStatus =
  ck_Source :: string
  ck_Size :: nat
  ck_UpdatedGeneration :: int
  ck_UpdatedSequence :: int
  ck_UpdatedAt :: int

record TransactionStatus =
  ts_Generation :: int
  ts_Sequence :: int
  ts_CommittedAt :: int

record Inspection =
  iv_Deployment :: deployment_row
  iv_Describe :: string
  iv_Health :: health_row
  iv_Generation :: "generation_row option"
  iv_Destinations :: "binding_row list"
  iv_Checkpoints :: "CheckpointStatus list"
  iv_Transaction :: "TransactionStatus option"
  iv_Outbox :: "(delivery_status \<times> nat) list"

text \<open>\<open>ORDER BY k DESC LIMIT 1\<close>.\<close>

definition latest :: "('r \<Rightarrow> 'k::linorder) \<Rightarrow> 'r list \<Rightarrow> 'r option" where
  "latest k t = (case rev (sort_key k t) of [] \<Rightarrow> None | r # _ \<Rightarrow> Some r)"

definition outbox_counts :: "string \<Rightarrow> store \<Rightarrow> (delivery_status \<times> nat) list" where
  "outbox_counts i s = map (\<lambda>st. (st, count_where (\<lambda>v. v_deployment v = i \<and> v_status v = st) (deliveries s)))
     [DlvPending, DlvSending, DlvDelivered, DlvDead]"

definition InspectDeployment :: "string \<Rightarrow> store \<Rightarrow> Inspection result" where
  "InspectDeployment selector s =
     (case select_joined selector s of
        None \<Rightarrow> Inl ErrNotFound
      | Some (d, a) \<Rightarrow> (case find_health (d_id d) s of
          None \<Rightarrow> Inl (Errorf ''inspect health'')
        | Some h \<Rightarrow> Inr \<lparr>iv_Deployment = d, iv_Describe = a_describe a, iv_Health = h,
            iv_Generation = latest g_generation (filter (\<lambda>g. g_deployment g = d_id d) (generations s)),
            iv_Destinations = ListActiveBindings (d_id d) s,
            iv_Checkpoints = map (\<lambda>c. \<lparr>ck_Source = c_source c, ck_Size = length (c_value c),
                ck_UpdatedGeneration = c_generation c, ck_UpdatedSequence = c_seq c, ck_UpdatedAt = c_updated_at c\<rparr>)
              (checkpoints_of (d_id d) s),
            iv_Transaction = map_option (\<lambda>t. \<lparr>ts_Generation = t_generation t, ts_Sequence = t_seq t,
                ts_CommittedAt = t_committed_at t\<rparr>)
              (latest (\<lambda>t. (t_generation t, t_seq t)) (filter (\<lambda>t. t_deployment t = d_id d) (transactions s))),
            iv_Outbox = outbox_counts (d_id d) s\<rparr>))"

record DeploymentSummary =
  ds_ID :: string
  ds_Name :: string
  ds_Status :: deployment_status
  ds_HealthStatus :: health_status
  ds_ConsecutiveFailures :: int
  ds_ExpiresAt :: "int option"

fun summarize :: "store \<Rightarrow> deployment_row list \<Rightarrow> DeploymentSummary list result" where
  "summarize s [] = Inr []"
| "summarize s (d # ds) =
     (case find_health (d_id d) s of
        None \<Rightarrow> Inl (Errorf ''deployment is missing health'')
      | Some h \<Rightarrow> (case summarize s ds of
          Inl e \<Rightarrow> Inl e
        | Inr rest \<Rightarrow> Inr (\<lparr>ds_ID = d_id d, ds_Name = d_name d, ds_Status = d_status d, ds_HealthStatus = h_status h,
            ds_ConsecutiveFailures = h_failures h, ds_ExpiresAt = d_expires_at d\<rparr> # rest)))"

definition ListDeploymentSummaries :: "store \<Rightarrow> DeploymentSummary list result" where
  "ListDeploymentSummaries s = summarize s (sort_key d_name (deployments s))"

section \<open>Facts about the queries\<close>

lemma set_ListActiveBindings:
  "set (ListActiveBindings i s) = {b \<in> set (bindings s). b_deployment b = i \<and> b_retired_at b = None}"
  by (simp add: ListActiveBindings_def)

lemma sum_counts:
  "sum_list (map snd (outbox_counts i s)) = count_where (\<lambda>v. v_deployment v = i) (deliveries s)"
proof -
  have "count_where (\<lambda>v. v_deployment v = i) vs =
      (\<Sum>st\<leftarrow>[DlvPending, DlvSending, DlvDelivered, DlvDead]. count_where (\<lambda>v. v_deployment v = i \<and> v_status v = st) vs)" for vs
  proof (induction vs)
    case (Cons v vs)
    then show ?case by (cases "v_status v") (simp_all add: count_where_def)
  qed (simp add: count_where_def)
  from this [of "deliveries s"] show ?thesis by (simp add: outbox_counts_def)
qed

lemma latest_Some:
  assumes "latest k t = Some r"
  shows "r \<in> set t" "\<forall>x\<in>set t. k x \<le> k r"
proof -
  obtain rest where "rev (sort_key k t) = r # rest" using assms by (auto simp: latest_def split: list.splits)
  then have last: "sort_key k t = rev rest @ [r]" by simp
  then have "set t = insert r (set rest)" using set_sort [of k t] by simp
  moreover have "sorted (map k (rev rest @ [r]))" using sorted_sort_key [of k t] last by simp
  then have "\<forall>x\<in>set rest. k x \<le> k r" by (simp add: sorted_append)
  ultimately show "r \<in> set t" "\<forall>x\<in>set t. k x \<le> k r" by auto
qed

lemma latest_None: "latest k t = None \<longleftrightarrow> t = []"
proof -
  have "sort_key k t = [] \<longleftrightarrow> t = []" by (metis length_0_conv length_sort)
  then show ?thesis by (auto simp: latest_def split: list.split)
qed

lemma select_joined_Some:
  assumes "keys_ok s" "GetDeployment selector s = Inr d" "artifact_of d s = Some a"
  shows "select_joined selector s = Some (d, a)"
proof -
  have joined: "find P (filter Q xs) = Some x" if "find P xs = Some x" "Q x" for P Q xs and x :: deployment_row
    using that by (induction xs) (auto split: if_splits)
  have absent: "find P (filter Q xs) = None" if "find P xs = None" for P Q and xs :: "deployment_row list"
    using that by (induction xs) (auto split: if_splits)
  show ?thesis
    using assms(2,3) joined absent
    by (auto simp: GetDeployment_def select_joined_def Let_def split: option.splits)
qed

lemma summarize_total:
  assumes "store_inv s" "set ds \<subseteq> set (deployments s)"
  shows "\<exists>v. summarize s ds = Inr v \<and> map ds_ID v = map d_id ds"
  using assms(2)
proof (induction ds)
  case (Cons d ds)
  then obtain h where "h \<in> set (healths s)" "h_deployment h = d_id d"
    using deployment_health [OF store_invD(2) [OF assms(1)]] by auto
  then obtain h' where "find_health (d_id d) s = Some h'"
    using find_health_iff [OF store_invD(1) [OF assms(1)], of "d_id d" h] by blast
  with Cons show ?case by auto
qed simp

end
