(* ===== verification/Settlement.thy ===== *)
theory Settlement
  imports Queries Transactions Generations Health Coordinator
begin

text \<open>
  \<open>internal/daemon/worker.go\<close>: the daemon's end of the protocol.  A worker process is started
  with a handshake, its frames are read one by one, a transaction is checked, turned into a storage
  frame, applied and acknowledged, and run outcomes move the deployment's health.

  The process, its pipes and the clock are outside the model: a write either reports an error or
  not, and the frames read, the timer and the cancelled context are a list of events.  The SHA-256
  of outbox identities and stored payloads is that of \<open>env\<close>; the payload hash of the wire is that
  of \<open>hashing\<close>.
\<close>

section \<open>Storage frames\<close>

record worker =
  wk_deployment :: RuntimeDeployment
  wk_generation :: ActiveGeneration
  wk_planKind :: string

abbreviation wk_row :: "worker \<Rightarrow> deployment_row" where
  "wk_row w \<equiv> rd_Deployment (wk_deployment w)"

definition eventLevel :: "string \<Rightarrow> Level" where
  "eventLevel severity = (if severity = ''critical'' then LevelCritical else if severity = ''warn'' then LevelWarn else LevelInfo)"

definition event_message :: "Event \<Rightarrow> Message" where
  "event_message e =
     (let own = map (\<lambda>f. \<lparr>fld_Name = evf_Name f, fld_Value = evf_Value f, fld_Inline = evf_Inline f\<rparr>) (ev_Fields e);
          fields = (if ev_CorrectionOf e \<noteq> ''''
                    then \<lparr>fld_Name = ''corrects'', fld_Value = ev_CorrectionOf e, fld_Inline = False\<rparr> # own else own)
      in empty_message\<lparr>msg_Title := ev_Title e, msg_Message := ev_Body e, msg_Summary := ev_Description e,
           msg_URL := ev_URL e, msg_Image := ev_Image e, msg_Thumbnail := ev_Thumbnail e, msg_Color := ev_Color e,
           msg_Level := eventLevel (ev_Severity e), msg_Fields := fields, msg_Footer := ev_Footer e,
           msg_Mentions := ev_Mentions e\<rparr>)"

definition outbox_source :: "string \<Rightarrow> uint64 \<Rightarrow> uint64 \<Rightarrow> nat \<Rightarrow> string" where
  "outbox_source dep gen seq i =
     dep @ char_of (0::nat) # utoa (unat gen) @ char_of (0::nat) # utoa (unat seq) @ char_of (0::nat) # utoa i"

definition outbox_id :: "env \<Rightarrow> WireTransaction \<Rightarrow> string \<Rightarrow> nat \<Rightarrow> string" where
  "outbox_id E wire dep i = hex_encode (sha256 E (outbox_source dep (wt_Generation wire) (wt_Sequence wire) i))"

text \<open>
  \<open>hex.DecodeString\<close> and the copy into 32 bytes.  The hash has been checked before, so the decoder
  does not fail.
\<close>

definition fixed_hash :: "string \<Rightarrow> string" where
  "fixed_hash p = take 32 ((case hex_decode p of Some b \<Rightarrow> b | None \<Rightarrow> '''') @ zero_hash)"

definition settle_frame :: "env \<Rightarrow> worker \<Rightarrow> binding_row list \<Rightarrow> WireTransaction \<Rightarrow> TransactionFrame" where
  "settle_frame E w bs wire =
     \<lparr>fr_DeploymentID = wt_DeploymentID wire, fr_Generation = sint (wt_Generation wire),
      fr_WorkerToken = ag_WorkerToken (wk_generation w), fr_Sequence = sint (wt_Sequence wire),
      fr_BaseStateRevision = wt_BaseStateRevision wire, fr_NextState = wt_NextState wire,
      fr_Checkpoints = map (\<lambda>(k, v). \<lparr>cm_Source = k, cm_Value = v\<rparr>) (sort_key fst (wt_Checkpoints wire)),
      fr_Events = map (\<lambda>(i, e). \<lparr>oe_OutboxID = outbox_id E wire (d_id (wk_row w)) i, oe_EventID = ev_ID e,
          oe_Message = event_message e,
          oe_Deliveries = map (\<lambda>b. \<lparr>od_DestinationID = b_id b, od_DestinationRevision = b_revision b\<rparr>) bs\<rparr>)
        (enumerate 0 (wt_Events wire)),
      fr_PayloadHash = fixed_hash (wt_PayloadHash wire)\<rparr>"

section \<open>Sending and settling\<close>

text \<open>\<open>written\<close> is the error of the write, or of the context that ran out first.\<close>

definition worker_send ::
    "(string \<Rightarrow> int option) \<Rightarrow> (DaemonFrame \<Rightarrow> string) \<Rightarrow> DaemonFrame \<Rightarrow> go_error option \<Rightarrow> go_error option" where
  "worker_send parse_time marshal v written =
     (case DaemonFrame_Validate parse_time v of
        Some e \<Rightarrow> Some e
      | None \<Rightarrow> if length (marshal v @ ''\<newline>'') > MaxFrameBytes then Some (Errorf ''outbound frame too large'')
                else written)"

record daemon_codec =
  dc_parse_time :: "string \<Rightarrow> int option"
  dc_marshal :: "DaemonFrame \<Rightarrow> string"

record settle_env =
  se_commit :: commit_outcome
  se_readable :: bool
  se_now :: int
  se_written :: "go_error option"

datatype transaction_error = SettleFailed go_error | AcknowledgementError go_error

definition ack_for :: "WireTransaction \<Rightarrow> TransactionACK \<Rightarrow> TransactionAck" where
  "ack_for wire ack = \<lparr>ta_DeploymentID = ack_DeploymentID ack, ta_Generation = of_int (ack_Generation ack),
     ta_Sequence = of_int (ack_Sequence ack), ta_PayloadHash = wt_PayloadHash wire,
     ta_ResultRevision = ack_ResultRevision ack, ta_Status = ack_Status ack\<rparr>"

definition ack_out :: "TransactionAck \<Rightarrow> DaemonFrame" where
  "ack_out a = \<lparr>df_Type = ''ack'', df_Hello = None, df_Start = None, df_Ack = Some a, df_Stop = None\<rparr>"

definition not_this_worker :: "worker \<Rightarrow> WireTransaction \<Rightarrow> bool" where
  "not_this_worker w wire \<longleftrightarrow> wt_DeploymentID wire \<noteq> d_id (wk_row w) \<or>
     wt_Generation wire \<noteq> of_int (ag_Generation (wk_generation w)) \<or>
     wt_WorkerToken wire \<noteq> hex_encode (ag_WorkerToken (wk_generation w))"

text \<open>\<open>worker.transaction\<close>: the store, the ACK it wrote when the write succeeded, and its error.\<close>

definition worker_transaction ::
    "env \<Rightarrow> hashing \<Rightarrow> daemon_codec \<Rightarrow> settle_env \<Rightarrow> worker \<Rightarrow> WireTransaction \<Rightarrow> store \<Rightarrow>
     store \<times> TransactionAck option \<times> transaction_error option" where
  "worker_transaction E H C V w wire s =
     (if not_this_worker w wire then (s, None, Some (SettleFailed ErrGenerationFenced))
      else case verifyWireHash H wire of Some e \<Rightarrow> (s, None, Some (SettleFailed e)) | None \<Rightarrow>
      if int (length (wt_Events wire)) > d_max_events (wk_row w)
      then (s, None, Some (SettleFailed (Errorf ''transaction has more events than the deployment limit'')))
      else let bs = (if length (wt_Events wire) > 0 then ListActiveBindings (d_id (wk_row w)) s else []) in
        case ApplyTransaction E (se_commit V) (se_readable V) (settle_frame E w bs wire) (se_now V) s of
          (s', Inl e) \<Rightarrow> (s', None, Some (SettleFailed e))
        | (s', Inr ack) \<Rightarrow>
            (case worker_send (dc_parse_time C) (dc_marshal C) (ack_out (ack_for wire ack)) (se_written V) of
               Some e \<Rightarrow> (s', None, Some (AcknowledgementError e))
             | None \<Rightarrow> (s', Some (ack_for wire ack), None)))"

section \<open>Serving a worker\<close>

text \<open>
  What \<open>serve\<close> selects: a frame or a read error, the timer of a continuous plan, the end of the
  context.  A frame comes with the clock, the random outbox identity of a notification and the
  surroundings of its settlement.
\<close>

datatype serve_event =
    ReadError go_error
  | ReadFrame WorkerFrame settle_env string
  | StableTimer int string
  | ContextDone go_error

datatype serve_result = ServeErrors "go_error list" | WorkerStopped "go_error list" bool | ServeDone "go_error list"

definition status_of :: "string \<Rightarrow> run_status option" where
  "status_of st = (if st = ''success'' then Some RunSucceeded else if st = ''failure'' then Some RunFailed
     else if st = ''deferred'' then Some RunDeferred else None)"

definition run_outcome :: "(string \<Rightarrow> string) \<Rightarrow> worker \<Rightarrow> RunFrame \<Rightarrow> int \<Rightarrow> RunOutcome" where
  "run_outcome redact w r now = \<lparr>ro_DeploymentID = d_id (wk_row w), ro_Generation = ag_Generation (wk_generation w),
     ro_Status = status_of (rf_Status r), ro_Duration = rf_Duration r, ro_Error = redact (rf_Error r),
     ro_FinishedAt = Some now\<rparr>"

definition err_list :: "go_error option \<Rightarrow> go_error list" where
  "err_list e = (case e of None \<Rightarrow> [] | Some x \<Rightarrow> [x])"

text \<open>
  The loop: \<open>ackErr\<close> is the first failed acknowledgement, \<open>armed\<close> whether the timer is armed.  The
  result is \<open>None\<close> when the events end first.
\<close>

fun serve_loop ::
    "env \<Rightarrow> hashing \<Rightarrow> daemon_codec \<Rightarrow> (string \<Rightarrow> string) \<Rightarrow> worker \<Rightarrow> go_error option \<Rightarrow> bool \<Rightarrow> serve_event list \<Rightarrow> store \<Rightarrow>
     store \<times> TransactionAck list \<times> serve_result option" where
  "serve_loop E H C redact w ackErr armed [] s = (s, [], None)"
| "serve_loop E H C redact w ackErr armed (ReadError e # es) s = (s, [], Some (ServeErrors (err_list ackErr @ [e])))"
| "serve_loop E H C redact w ackErr armed (ContextDone e # es) s = (s, [], Some (ServeErrors (err_list ackErr @ [e])))"
| "serve_loop E H C redact w ackErr armed (StableTimer at outboxID # es) s =
     (if \<not> armed then serve_loop E H C redact w ackErr armed es s
      else case MarkGenerationStable E (d_id (wk_row w)) (ag_Generation (wk_generation w)) outboxID at s of
        Inl e \<Rightarrow> (s, [], Some (ServeErrors [e]))
      | Inr (s', _) \<Rightarrow> serve_loop E H C redact w ackErr False es s')"
| "serve_loop E H C redact w ackErr armed (ReadFrame msg V outboxID # es) s =
     (if wf_Type msg = ''transaction'' then
        (if ackErr \<noteq> None then serve_loop E H C redact w ackErr armed es s
         else case wf_Transaction msg of
           None \<Rightarrow> (s, [], Some (ServeErrors [Errorf ''transaction payload missing'']))
         | Some wire \<Rightarrow> (case worker_transaction E H C V w wire s of
             (s', a, Some (SettleFailed e)) \<Rightarrow> (s', [], Some (ServeErrors [e]))
           | (s', a, Some (AcknowledgementError e)) \<Rightarrow> serve_loop E H C redact w (Some e) armed es s'
           | (s', a, None) \<Rightarrow>
               let (s'', sent, r) = serve_loop E H C redact w ackErr armed es s' in
               (s'', (case a of None \<Rightarrow> [] | Some x \<Rightarrow> [x]) @ sent, r)))
      else if wf_Type msg = ''run'' then
        (case wf_Run msg of
           None \<Rightarrow> (s, [], Some (ServeErrors [Errorf ''run payload missing'']))
         | Some r \<Rightarrow>
             if rf_Generation r \<noteq> of_int (ag_Generation (wk_generation w)) then (s, [], Some (ServeErrors [ErrGenerationFenced]))
             else (case RecordRun E (run_outcome redact w r (se_now V)) outboxID (se_now V) s of
                 Inl e \<Rightarrow> (s, [], Some (ServeErrors [e]))
               | Inr (s', _) \<Rightarrow> serve_loop E H C redact w ackErr armed es s'))
      else if wf_Type msg = ''stopped'' then
        (case wf_Stopped msg of
           None \<Rightarrow> (s, [], Some (ServeErrors [Errorf ''stopped payload missing'']))
         | Some x \<Rightarrow>
             if sf_Generation x \<noteq> of_int (ag_Generation (wk_generation w)) then (s, [], Some (ServeErrors [ErrGenerationFenced]))
             else if sf_Error x \<noteq> '''' then (s, [], Some (WorkerStopped (Errorf (sf_Error x) # err_list ackErr) (sf_RunFailureReported x)))
             else if \<not> sf_Clean x then (s, [], Some (WorkerStopped [Errorf ''worker stopped unsuccessfully''] (sf_RunFailureReported x)))
             else (s, [], Some (ServeDone (err_list ackErr))))
      else (s, [], Some (ServeErrors [Errorf ''unexpected worker frame''])))"

definition serve ::
    "env \<Rightarrow> hashing \<Rightarrow> daemon_codec \<Rightarrow> (string \<Rightarrow> string) \<Rightarrow> worker \<Rightarrow> serve_event list \<Rightarrow> store \<Rightarrow>
     store \<times> TransactionAck list \<times> serve_result option" where
  "serve E H C redact w es s = serve_loop E H C redact w None (wk_planKind w = ''continuous'') es s"

section \<open>Starting a worker\<close>

definition hello_frame ::
    "RuntimeDeployment \<Rightarrow> ActiveGeneration \<Rightarrow> (string \<times> (string \<times> string) list) list \<Rightarrow> Hello" where
  "hello_frame dep g secrets =
     (let d = rd_Deployment dep in
      \<lparr>he_Major = ProtocolMajor, he_Minor = 0, he_DeploymentID = d_id d, he_DeploymentName = d_name d,
       he_Generation = of_int (ag_Generation g), he_WorkerToken = hex_encode (ag_WorkerToken g),
       he_ArtifactHash = a_content_hash (rd_Artifact dep), he_ConfigHash = d_config_hash d,
       he_StateRevision = d_state_revision d, he_State = d_state d, he_Checkpoints = rd_Checkpoints dep,
       he_Secrets = secrets,
       he_Policy = \<lparr>po_FailureThreshold = d_threshold d, po_MaxPerTransaction = d_max_events d,
         po_Retention = d_retention_ms d * 1000000\<rparr>\<rparr>)"

text \<open>
  The handshake of \<open>startWorker\<close>, after the process is up: \<open>written\<close> are the errors of its two
  writes, \<open>replies\<close> the frames or errors of its two reads, \<open>persisted\<close> the stored description when
  it decodes.
\<close>

definition startWorker ::
    "daemon_codec \<Rightarrow> (Info \<times> PlanDescription) option \<Rightarrow> RuntimeDeployment \<Rightarrow> ActiveGeneration \<Rightarrow>
     (string \<times> (string \<times> string) list) list \<Rightarrow> go_error option \<times> go_error option \<Rightarrow> WorkerFrame result \<times> WorkerFrame result \<Rightarrow> worker result" where
  "startWorker C persisted dep g secrets written replies =
     (let hello = \<lparr>df_Type = ''hello'', df_Hello = Some (hello_frame dep g secrets), df_Start = None, df_Ack = None, df_Stop = None\<rparr> in
      case worker_send (dc_parse_time C) (dc_marshal C) hello (fst written) of Some e \<Rightarrow> Inl e | None \<Rightarrow>
      (case fst replies of Inl e \<Rightarrow> Inl e | Inr m \<Rightarrow>
       if wf_Type m \<noteq> ''monitor'' then Inl (Errorf ''expected monitor frame'')
       else case persisted of None \<Rightarrow> Inl (Errorf ''decode persisted describe'') | Some (info, plan) \<Rightarrow>
       if map_option (\<lambda>f. (mf_Info f, mf_Plan f)) (wf_Monitor m) \<noteq> Some (info, plan)
       then Inl (Errorf ''worker monitor frame differs from persisted artifact description'')
       else let start = \<lparr>df_Type = ''start'', df_Hello = None, df_Start = Some \<lparr>st_Plan = plan, st_Once = False\<rparr>,
                         df_Ack = None, df_Stop = None\<rparr> in
       case worker_send (dc_parse_time C) (dc_marshal C) start (snd written) of Some e \<Rightarrow> Inl e | None \<Rightarrow>
       (case snd replies of Inl e \<Rightarrow> Inl e | Inr m2 \<Rightarrow>
        if wf_Type m2 = ''stopped'' \<and>
           (case wf_Stopped m2 of None \<Rightarrow> False
            | Some x \<Rightarrow> sf_Generation x = of_int (ag_Generation g) \<and> sf_Error x \<noteq> '''')
        then Inl (Errorf ''worker start'')
        else if wf_Type m2 \<noteq> ''ready'' \<or> wf_Ready m2 \<noteq> Some (of_int (ag_Generation g))
        then Inl (Errorf ''worker ready generation mismatch'')
        else Inr \<lparr>wk_deployment = dep, wk_generation = g, wk_planKind = pd_Kind plan\<rparr>)))"

end
