(* ===== verification/SettlementTheorems.thy ===== *)
theory SettlementTheorems
  imports Settlement CommitTheorems Sample
begin

text \<open>
  What the daemon's end of the protocol promises: an acknowledgement on the wire means a receipt in
  the ledger, a worker leaves at most one transaction settled but unacknowledged, and both ends
  together give an exactly-once commit.
\<close>

section \<open>Settling one frame\<close>

lemma fixed_hash_encode: "length b = 32 \<Longrightarrow> fixed_hash (hex_encode b) = b"
  by (simp add: fixed_hash_def hex_decode_encode)

lemma sint_back [simp]: "of_int (sint (w :: uint64)) = w"
  by simp

text \<open>The receipt behind an acknowledgement.\<close>

definition receipt_for :: "TransactionAck \<Rightarrow> transaction_row \<Rightarrow> bool" where
  "receipt_for a t \<longleftrightarrow> t_deployment t = ta_DeploymentID a \<and> t_generation t = sint (ta_Generation a) \<and>
     t_seq t = sint (ta_Sequence a) \<and> hex_encode (t_payload_hash t) = ta_PayloadHash a \<and>
     t_result t = ta_ResultRevision a"

lemma Apply_outcomes:
  assumes "store_inv s" "ApplyTransaction E commit readable frame now s = (s', r)"
  obtains "s' = s"
  | l where "guardFrame E frame s = Inr (fr_BaseStateRevision frame, l)"
      "transactions s' = transactions s @ [ledger_row frame now]"
      "deployments s' = update_where (state_hit frame) (\<lambda>d. d\<lparr>d_state := fr_NextState frame,
         d_state_revision := fr_BaseStateRevision frame + 1, d_updated_at := now\<rparr>) (deployments s)"
proof (cases rule: ApplyTransaction_cases [of E commit readable frame now s])
  case unchanged
  then show thesis using that(1) assms(2) by simp
next
  case (applied s1 ack)
  from applyFrame_Inr [OF store_invD(1) [OF assms(1)] applied(3)] obtain l cps evs vs where
    "guardFrame E frame s = Inr (fr_BaseStateRevision frame, l)"
    "s1 = s\<lparr>deployments := update_where (state_hit frame) (\<lambda>d. d\<lparr>d_state := fr_NextState frame,
         d_state_revision := fr_BaseStateRevision frame + 1, d_updated_at := now\<rparr>) (deployments s),
       generations := update_where (seq_hit frame l) (\<lambda>g. g\<lparr>g_last_seq := fr_Sequence frame\<rparr>) (generations s),
       transactions := transactions s @ [ledger_row frame now], checkpoints := cps,
       events := events s @ evs, deliveries := deliveries s @ vs\<rparr>" by blast
  then show thesis using that(2) [of l] applied(4) assms(2) by simp
qed

lemma transaction_cases:
  assumes "worker_transaction E H C V w wire s = (s', a, err)"
  obtains (refused) e where "s' = s" "a = None" "err = Some (SettleFailed e)"
  | (failed) frame e where "ApplyTransaction E (se_commit V) (se_readable V) frame (se_now V) s = (s', Inl e)" "a = None"
      "err = Some (SettleFailed e)"
  | (unsent) frame ack e where "ApplyTransaction E (se_commit V) (se_readable V) frame (se_now V) s = (s', Inr ack)" "a = None"
      "err = Some (AcknowledgementError e)"
  | (acked) bs ack where "ApplyTransaction E (se_commit V) (se_readable V) (settle_frame E w bs wire) (se_now V) s = (s', Inr ack)"
      "verifyWireHash H wire = None" "a = Some (ack_for wire ack)" "err = None"
      "DaemonFrame_Validate (dc_parse_time C) (ack_out (ack_for wire ack)) = None"
proof -
  let ?bs = "if length (wt_Events wire) > 0 then ListActiveBindings (d_id (wk_row w)) s else []"
  obtain s1 r where app: "ApplyTransaction E (se_commit V) (se_readable V) (settle_frame E w ?bs wire) (se_now V) s = (s1, r)"
    by fastforce
  show thesis
  proof (cases "not_this_worker w wire \<or> verifyWireHash H wire \<noteq> None \<or> int (length (wt_Events wire)) > d_max_events (wk_row w)")
    case True
    then show thesis using assms refused by (auto simp: worker_transaction_def split: option.splits if_splits)
  next
    case False
    then have run: "worker_transaction E H C V w wire s = (case r of Inl e \<Rightarrow> (s1, None, Some (SettleFailed e))
        | Inr ack \<Rightarrow> (case worker_send (dc_parse_time C) (dc_marshal C) (ack_out (ack_for wire ack)) (se_written V) of
            Some e \<Rightarrow> (s1, None, Some (AcknowledgementError e)) | None \<Rightarrow> (s1, Some (ack_for wire ack), None)))"
      using app by (simp add: worker_transaction_def Let_def split: sum.split)
    show thesis
    proof (cases r)
      case (Inl e)
      then show thesis using run assms app failed by simp
    next
      case (Inr ack)
      show thesis
      proof (cases "worker_send (dc_parse_time C) (dc_marshal C) (ack_out (ack_for wire ack)) (se_written V)")
        case None
        then have "DaemonFrame_Validate (dc_parse_time C) (ack_out (ack_for wire ack)) = None"
          by (auto simp: worker_send_def split: option.splits)
        then show thesis using run assms app Inr None False acked by simp
      next
        case (Some e)
        then show thesis using run assms app Inr unsent by simp
      qed
    qed
  qed
qed

lemma transaction_grows:
  assumes "store_inv s" "worker_transaction E H C V w wire s = (s', a, err)"
  shows "store_inv s' \<and> (\<exists>new. transactions s' = transactions s @ new \<and> length new \<le> 1)"
proof -
  have grows: "store_inv s' \<and> (\<exists>new. transactions s' = transactions s @ new \<and> length new \<le> 1)"
    if "ApplyTransaction E c r f n s = (s', res)" for c r f n res
    using Apply_outcomes [OF assms(1) that] ApplyTransaction_keeps [OF assms(1), of E c r f n] that by fastforce
  from assms(2) show ?thesis
    by (cases rule: transaction_cases) (use grows assms(1) in auto)
qed

lemma transaction_acked:
  assumes inv: "store_inv s" and sums: "\<forall>x. length (sum256 H x) = 32"
    and run: "worker_transaction E H C V w wire s = (s', Some a, err)"
  shows "err = None" "acks_frame wire a" "\<exists>t\<in>set (transactions s'). receipt_for a t"
    "DaemonFrame_Validate (dc_parse_time C) (ack_out a) = None"
    "s' = s \<or> (\<exists>d\<in>set (deployments s'). d_id d = wt_DeploymentID wire \<and> d_state d = wt_NextState wire \<and>
       d_state_revision d = ta_ResultRevision a)"
proof -
  from run obtain bs ack where app: "ApplyTransaction E (se_commit V) (se_readable V) (settle_frame E w bs wire) (se_now V) s = (s', Inr ack)"
    and ok: "verifyWireHash H wire = None" "a = ack_for wire ack" "err = None"
      "DaemonFrame_Validate (dc_parse_time C) (ack_out (ack_for wire ack)) = None"
    by (cases rule: transaction_cases) auto
  let ?f = "settle_frame E w bs wire"
  have hash: "hex_encode (fixed_hash (wt_PayloadHash wire)) = wt_PayloadHash wire"
    using ok(1) sums by (auto simp: verifyWireHash_def HashTransactionFrame_def fixed_hash_encode split: if_splits)
  obtain t where t: "t \<in> set (transactions s')" "receipt_of ?f ack t"
    using acknowledged_receipt(2) [OF inv app] by blast
  have "store_inv s'" using ApplyTransaction_keeps [OF inv] app by (metis fst_conv)
  then have "t_ack t = \<lparr>ack_DeploymentID = t_deployment t, ack_Generation = t_generation t,
      ack_Sequence = t_seq t, ack_PayloadHash = hex_encode (t_payload_hash t),
      ack_ResultRevision = t_result t, ack_Status = ''accepted''\<rparr>" (is "_ = ?ack")
    using t(1) by (simp add: store_inv_def ledger_ok_def)
  then have ack: "ack = ?ack" and key: "t_deployment t = wt_DeploymentID wire" "t_generation t = sint (wt_Generation wire)"
    "t_seq t = sint (wt_Sequence wire)" "t_payload_hash t = fixed_hash (wt_PayloadHash wire)"
    using t(2) by (auto simp: receipt_of_def settle_frame_def)
  show "err = None" "DaemonFrame_Validate (dc_parse_time C) (ack_out a) = None" using ok by simp_all
  show "acks_frame wire a" by (simp add: ok(2) acks_frame_def ack_for_def ack key)
  show "\<exists>t\<in>set (transactions s'). receipt_for a t"
    using t(1) key hash by (intro bexI [of _ t]) (simp_all add: receipt_for_def ok(2) ack_for_def ack)
  show "s' = s \<or> (\<exists>d\<in>set (deployments s'). d_id d = wt_DeploymentID wire \<and> d_state d = wt_NextState wire \<and>
       d_state_revision d = ta_ResultRevision a)"
  proof (cases rule: Apply_outcomes [OF inv app])
    case (2 l)
    then obtain d where d: "find_deployment (wt_DeploymentID wire) s = Some d" "d_active d = fr_Generation ?f"
      "d_state_revision d = fr_BaseStateRevision ?f"
      by (auto simp: guardFrame_Inr settle_frame_def)
    let ?d = "d\<lparr>d_state := fr_NextState ?f, d_state_revision := fr_BaseStateRevision ?f + 1, d_updated_at := se_now V\<rparr>"
    from d have hit: "d \<in> set (deployments s)" "state_hit ?f d"
      by (auto simp: state_hit_def settle_frame_def dest: find_deploymentD)
    have "?d \<in> set (deployments s')" unfolding 2(3) using hit by (auto simp: set_update_where)
    moreover have "t = ledger_row ?f (se_now V)"
    proof (rule uniqD)
      show "uniq tx_key (transactions s')" using \<open>store_inv s'\<close> by (simp add: store_inv_def keys_ok_def)
    qed (use t 2(2) in \<open>simp_all add: receipt_of_def ledger_row_def\<close>)
    then have "ta_ResultRevision a = fr_BaseStateRevision ?f + 1"
      by (simp add: ok(2) ack_for_def ack ledger_row_def)
    ultimately show ?thesis
      using hit(2) by (intro disjI2 bexI [of _ ?d]) (simp_all add: state_hit_def settle_frame_def)
  qed simp
qed


section \<open>Serving\<close>

lemma health_grows:
  assumes "store_inv s"
  shows "MarkGenerationStable E i n o' at s = Inr (s', tr) \<Longrightarrow> store_inv s' \<and> transactions s' = transactions s"
    and "RecordRun E outcome o' clock s = Inr (s', tr) \<Longrightarrow> store_inv s' \<and> transactions s' = transactions s"
proof -
  assume r: "MarkGenerationStable E i n o' at s = Inr (s', tr)"
  show "store_inv s' \<and> transactions s' = transactions s"
    using MarkGenerationStable_inv [OF assms r] MarkGenerationStable_Inr [OF r] notifyIf_tables(3) by fastforce
next
  assume r: "RecordRun E outcome o' clock s = Inr (s', tr)"
  show "store_inv s' \<and> transactions s' = transactions s"
    using RecordRun_inv [OF assms r] RecordRun_Inr [OF r] notifyIf_tables(3) by fastforce
qed

text \<open>What a run of the loop from \<open>s\<close> leaves behind.\<close>

definition accounted :: "bool \<Rightarrow> store \<Rightarrow> store \<times> TransactionAck list \<times> serve_result option \<Rightarrow> bool" where
  "accounted open s out \<longleftrightarrow> (case out of (s', sent, r) \<Rightarrow>
     store_inv s' \<and> (\<exists>new. transactions s' = transactions s @ new \<and> length new \<le> length sent + (if open then 1 else 0)) \<and>
     (\<forall>a\<in>set sent. \<exists>t\<in>set (transactions s'). receipt_for a t))"

lemma accounted_same: "store_inv s \<Longrightarrow> transactions s' = transactions s \<Longrightarrow> accounted open s' out \<Longrightarrow> accounted open s out"
  by (simp add: accounted_def)

lemma accounted_stop: "store_inv s \<Longrightarrow> accounted open s (s, [], r)"
  by (simp add: accounted_def)

lemma accounted_closing:
  assumes "transactions s' = transactions s @ new" "length new \<le> 1" "accounted False s' out"
  shows "accounted True s out"
  using assms by (auto simp: accounted_def)

lemma accounted_acked:
  assumes "transactions s' = transactions s @ new" "length new \<le> 1" "\<exists>t\<in>set (transactions s'). receipt_for a t"
    "accounted open s' (s'', sent, r)"
  shows "accounted open s (s'', a # sent, r)"
  using assms by (auto simp: accounted_def)

lemma serve_loop_accounted:
  assumes "\<forall>x. length (sum256 H x) = 32"
  shows "store_inv s \<Longrightarrow> accounted (ackErr = None) s (serve_loop E H C redact w ackErr armed es s)"
proof (induction es arbitrary: ackErr armed s)
  case (Cons e es)
  note stop = accounted_stop [OF Cons.prems]
  note same = accounted_same [OF Cons.prems]
  show ?case
  proof (cases e)
    case (StableTimer at o')
    show ?thesis
    proof (cases "MarkGenerationStable E (d_id (wk_row w)) (ag_Generation (wk_generation w)) o' at s")
      case (Inl x)
      then show ?thesis using Cons StableTimer stop by simp
    next
      case (Inr x)
      obtain s' tr where x: "x = (s', tr)" by fastforce
      note g = health_grows(1) [OF Cons.prems Inr [unfolded x]]
      show ?thesis using Cons g Inr x StableTimer same [of s'] by simp
    qed
  next
    case (ReadFrame msg V o')
    let ?t = "worker_transaction E H C V w"
    consider (tx) "wf_Type msg = ''transaction''" | (run) "wf_Type msg = ''run''"
      | (other) "wf_Type msg \<noteq> ''transaction''" "wf_Type msg \<noteq> ''run''" by blast
    then show ?thesis
    proof cases
      case tx
      show ?thesis
      proof (cases "ackErr = None \<and> wf_Transaction msg \<noteq> None")
        case False
        then show ?thesis using tx Cons ReadFrame stop by (cases "wf_Transaction msg") auto
      next
        case True
        then obtain wire where wire: "ackErr = None" "wf_Transaction msg = Some wire" by auto
        obtain s' a err where t: "?t wire s = (s', a, err)" by (metis prod_cases3)
        from transaction_grows [OF Cons.prems t] obtain new where
          new: "store_inv s'" "transactions s' = transactions s @ new" "length new \<le> 1" by blast
        from t show ?thesis
        proof (cases rule: transaction_cases)
          case (unsent frame ack x)
          then show ?thesis
            using tx wire t ReadFrame accounted_closing [OF new(2,3)] Cons.IH [OF new(1), of "Some x"] by simp
        next
          case (acked bs ack)
          obtain s'' sent r where rest: "serve_loop E H C redact w None armed es s' = (s'', sent, r)"
            by (metis prod_cases3)
          have "\<exists>t\<in>set (transactions s'). receipt_for (ack_for wire ack) t"
            using transaction_acked(3) [OF Cons.prems assms] t acked by simp
          moreover have "accounted True s' (s'', sent, r)" using Cons.IH [OF new(1), of None armed] rest by simp
          ultimately have "accounted True s (s'', ack_for wire ack # sent, r)" by (rule accounted_acked [OF new(2,3)])
          then show ?thesis using tx wire t acked ReadFrame rest by simp
        qed (use tx wire t ReadFrame new in \<open>auto simp: accounted_def\<close>)
      qed
    next
      case run
      show ?thesis
      proof (cases "wf_Run msg")
        case None
        then show ?thesis using run ReadFrame stop by simp
      next
        case (Some r)
        show ?thesis
        proof (cases "RecordRun E (run_outcome redact w r (se_now V)) o' (se_now V) s")
          case (Inl x)
          then show ?thesis using run ReadFrame Some stop by simp
        next
          case (Inr x)
          obtain s' tr where x: "x = (s', tr)" by fastforce
          note g = health_grows(2) [OF Cons.prems Inr [unfolded x]]
          show ?thesis using Cons.IH [of s' ackErr] g Inr x run ReadFrame Some stop same [of s'] by simp
        qed
      qed
    next
      case other
      then show ?thesis using stop ReadFrame by (simp split: option.split)
    qed
  qed (simp_all add: stop)
qed (simp add: accounted_stop)


text \<open>
  C18: the two ends together.  When a worker's commit returns, on an ACK that the daemon wrote while
  serving, the ledger holds exactly one receipt under the commit's deployment, generation and
  sequence; it carries the payload hash of the very frame the worker built and the revision the
  worker now builds on.
\<close>

theorem commit_exactly_once:
  assumes "store_inv s" and "\<forall>x. length (sum256 H x) = 32"
    and "serve E H C redact w es s = (s', sent, r)"
    and "Coordinator_Commit H marshal V tx c = (c', Some (Inr st))"
    and "co_last c' = Some a" "a \<in> set sent"
  shows "\<exists>!t. t \<in> set (transactions s') \<and>
    t_deployment t = he_DeploymentID (co_hello c) \<and> t_generation t = sint (he_Generation (co_hello c)) \<and>
    t_seq t = sint (co_seq c') \<and> t_payload_hash t = HashTransactionFrame H (commit_frame H tx c) \<and>
    t_result t = co_revision c'"
proof -
  let ?f = "commit_frame H tx c"
  have served: "store_inv s'" "\<exists>t\<in>set (transactions s'). receipt_for a t"
    using serve_loop_accounted [OF assms(2,1), of None E C redact w "wk_planKind w = ''continuous''" es] assms(3,6)
    by (auto simp: serve_def accounted_def)
  then obtain t where t: "t \<in> set (transactions s')" "receipt_for a t" by blast
  have frame: "wt_DeploymentID ?f = he_DeploymentID (co_hello c)" "wt_Generation ?f = he_Generation (co_hello c)"
    "wt_Sequence ?f = co_seq c + 1" "wt_PayloadHash ?f = hex_encode (HashTransactionFrame H ?f)"
    by (simp_all add: commit_frame_def Let_def HashTransactionFrame_def transaction_fields_def)
  have sent: "acks_frame ?f a" "co_revision c' = ta_ResultRevision a" "co_seq c' = wt_Sequence ?f"
    using Commit_success [OF assms(4)] assms(5) unfolding frame(3) by auto
  note ids = t(2) [unfolded receipt_for_def] sent(1) [unfolded acks_frame_def]
  have t': "t_deployment t = he_DeploymentID (co_hello c)" "t_generation t = sint (he_Generation (co_hello c))"
    "t_seq t = sint (co_seq c')" "t_payload_hash t = HashTransactionFrame H ?f"
    "t_result t = co_revision c'"
    unfolding sent(2,3) using ids frame(1,2,4) by (simp_all only: hex_encode_inj)
  have keys: "uniq tx_key (transactions s')" using served(1) by (simp add: store_inv_def keys_ok_def)
  show ?thesis
  proof (rule ex1I, intro conjI)
    fix t2
    assume t2: "t2 \<in> set (transactions s') \<and> t_deployment t2 = he_DeploymentID (co_hello c) \<and>
      t_generation t2 = sint (he_Generation (co_hello c)) \<and> t_seq t2 = sint (co_seq c') \<and>
      t_payload_hash t2 = HashTransactionFrame H ?f \<and> t_result t2 = co_revision c'"
    then have "tx_key t2 = tx_key t" unfolding t'(1-3) by (elim conjE) (simp only:)
    with t2 show "t2 = t" using uniqD [OF keys _ t(1)] by (elim conjE)
  qed (rule t(1), (rule t')+)
qed


section \<open>Samples\<close>

definition sample_worker :: worker where
  "sample_worker = \<lparr>wk_deployment = \<lparr>rd_Deployment = hd (deployments sample_store), rd_Artifact = hd (artifacts sample_store),
       rd_Checkpoints = []\<rparr>,
     wk_generation = \<lparr>ag_DeploymentID = ''dep'', ag_Generation = 1, ag_WorkerToken = sample_token\<rparr>,
     wk_planKind = ''every''\<rparr>"

definition sample_daemon :: daemon_codec where
  "sample_daemon = \<lparr>dc_parse_time = (\<lambda>_. None), dc_marshal = (\<lambda>_. ''ack'')\<rparr>"

definition sample_settle :: settle_env where
  "sample_settle = \<lparr>se_commit = CommitOk, se_readable = True, se_now = 30, se_written = None\<rparr>"

definition sample_settle_frame :: TransactionFrame where
  "sample_settle_frame = \<lparr>fr_DeploymentID = ''dep'', fr_Generation = 1, fr_WorkerToken = sample_token, fr_Sequence = 1,
     fr_BaseStateRevision = 0, fr_NextState = ''{}'', fr_Checkpoints = [], fr_Events = [],
     fr_PayloadHash = replicate 32 (CHR ''A'')\<rparr>"

lemma sample_settle_frame: "settle_frame sample_env sample_worker [] sample_wire_frame = sample_settle_frame"
  by (simp add: settle_frame_def sample_settle_frame_def sample_wire_frame_def sample_worker_def fixed_hash_encode)

lemma sample_settle_valid: "validateFrame sample_settle_frame = None"
proof -
  have "replicate 32 (CHR ''A'') \<noteq> zero_hash" by (simp add: zero_hash_def eval_nat_numeral char_of_def)
  then show ?thesis
    by (simp add: validateFrame_def sample_settle_frame_def sample_token_def json_valid_braces)
qed

lemma sample_settled:
  "\<exists>s'. ApplyTransaction sample_env CommitOk True sample_settle_frame 30 sample_store =
     (s', Inr (frame_ack sample_settle_frame 1))"
  using sample_settle_valid
  by (simp add: sample_eval ApplyTransaction_def lookupTransaction_def applyFrame_def guardFrame_def
      loadActiveGeneration_def sample_env_def sample_settle_frame_def sample_token_def writeLedger_def state_hit_def
      seq_hit_def sample_activation_def)

lemma sample_wire_hash: "verifyWireHash sample_hashing sample_wire_frame = None"
  by (simp add: verifyWireHash_def HashTransactionFrame_def sample_hashing_def sample_wire_frame_def)

lemma sample_sums: "\<forall>x. length (sum256 sample_hashing x) = 32"
  by (simp add: sample_hashing_def)

lemma sample_transaction:
  "\<exists>s'. worker_transaction sample_env sample_hashing sample_daemon sample_settle sample_worker sample_wire_frame sample_store =
     (s', Some sample_reply, None)"
proof -
  obtain s' where s': "ApplyTransaction sample_env CommitOk True sample_settle_frame 30 sample_store =
     (s', Inr (frame_ack sample_settle_frame 1))" using sample_settled by blast
  have ack: "ack_for sample_wire_frame (frame_ack sample_settle_frame 1) = sample_reply"
    by (simp add: ack_for_def frame_ack_def sample_settle_frame_def sample_wire_frame_def sample_reply_def)
  have "DaemonFrame_Validate (dc_parse_time sample_daemon) (ack_out sample_reply) = None"
    by (simp add: DaemonFrame_Validate_def ack_out_def payloads_def Ack_Validate_def sample_reply_def validSHA256_def
        length_hex_encode)
  then have "worker_send (dc_parse_time sample_daemon) (dc_marshal sample_daemon) (ack_out sample_reply) None = None"
    by (simp add: worker_send_def sample_daemon_def MaxFrameBytes_def)
  moreover have "\<not> not_this_worker sample_worker sample_wire_frame"
    by (simp add: not_this_worker_def sample_worker_def sample_wire_frame_def sample_store_eq sample_token_def)
  moreover have "wt_Events sample_wire_frame = []" "0 \<le> d_max_events (wk_row sample_worker)"
    by (simp_all add: sample_wire_frame_def sample_worker_def sample_store_eq)
  ultimately show ?thesis
    using s' ack by (simp add: worker_transaction_def sample_wire_hash sample_settle_frame sample_settle_def)
qed


definition sample_events :: "serve_event list" where
  "sample_events = [ReadFrame (transaction_out sample_wire_frame) sample_settle '''', ReadError (Errorf ''EOF'')]"

lemma sample_served:
  "\<exists>s'. serve sample_env sample_hashing sample_daemon id sample_worker sample_events sample_store =
     (s', [sample_reply], Some (ServeErrors [Errorf ''EOF'']))"
  using sample_transaction by (auto simp: serve_def sample_events_def transaction_out_def err_list_def)


lemma commit_exactly_once_witness:
  "\<exists>s' r c'. serve sample_env sample_hashing sample_daemon id sample_worker sample_events sample_store = (s', [sample_reply], r) \<and>
     Coordinator_Commit sample_hashing (\<lambda>_. ''frame'') quick_env sample_commit sample_coordinator = (c', Some (Inr ''{}'')) \<and>
     (\<exists>!t. t \<in> set (transactions s') \<and> t_deployment t = he_DeploymentID (co_hello sample_coordinator) \<and>
        t_generation t = sint (he_Generation (co_hello sample_coordinator)) \<and> t_seq t = sint (co_seq c') \<and>
        t_payload_hash t = HashTransactionFrame sample_hashing (commit_frame sample_hashing sample_commit sample_coordinator) \<and>
        t_result t = co_revision c')"
proof -
  obtain s' where s: "serve sample_env sample_hashing sample_daemon id sample_worker sample_events sample_store =
     (s', [sample_reply], Some (ServeErrors [Errorf ''EOF'']))" using sample_served by blast
  obtain c' where c: "Coordinator_Commit sample_hashing (\<lambda>_. ''frame'') quick_env sample_commit sample_coordinator =
     (c', Some (Inr ''{}''))" "co_last c' = Some sample_reply" using sample_run by blast
  have "sample_reply \<in> set [sample_reply]" by simp
  from commit_exactly_once [OF sample_inv(1) sample_sums s c this] s c show ?thesis by blast
qed


section \<open>Starting\<close>

lemma send_valid: "worker_send parse_time marshal v written = None \<Longrightarrow> DaemonFrame_Validate parse_time v = None"
  by (auto simp: worker_send_def split: option.splits)

text \<open>
  the limits of one transaction are not the limits of the handshake.  A transaction may set up
  to 128 checkpoints and every source it ever sets stays durable, but the handshake carries all of
  them in one frame that may hold 128: a deployment that has accumulated more can never start a
  worker again, whatever the worker and the pipes do.
\<close>

theorem handshake_outgrown:
  assumes "GetRuntimeDeployment selector s = Inr dep"
    and "128 < count_where (\<lambda>c. c_deployment c = d_id (rd_Deployment dep)) (checkpoints s)"
  shows "\<exists>e. startWorker C persisted dep g secrets written replies = Inl e"
proof -
  let ?hello = "hello_frame dep g secrets"
  have "length (rd_Checkpoints dep) = count_where (\<lambda>c. c_deployment c = d_id (rd_Deployment dep)) (checkpoints s)"
    using assms(1) by (auto simp: GetRuntimeDeployment_def checkpoints_of_def count_where_def split: option.splits)
  then have "he_Checkpoints ?hello = rd_Checkpoints dep" "MaxCheckpointsPerTransaction < length (rd_Checkpoints dep)"
    using assms(2) by (simp_all add: hello_frame_def Let_def MaxCheckpointsPerTransaction_def)
  then have "Hello_Validate ?hello \<noteq> None" by (simp add: Hello_Validate_def)
  then have "DaemonFrame_Validate (dc_parse_time C) \<lparr>df_Type = ''hello'', df_Hello = Some ?hello, df_Start = None,
      df_Ack = None, df_Stop = None\<rparr> \<noteq> None"
    by (simp add: DaemonFrame_Validate_def payloads_def)
  then show ?thesis using send_valid by (fastforce simp: startWorker_def Let_def split: option.split)
qed


definition crowded_store :: store where
  "crowded_store = sample_store\<lparr>checkpoints := map (\<lambda>i. \<lparr>c_deployment = ''dep'', c_source = utoa i, c_value = ''null'',
     c_value_hash = '''', c_generation = 1, c_seq = 1, c_updated_at = 30\<rparr>) [0..<129]\<rparr>"

lemma handshake_outgrown_witness:
  "\<exists>dep. GetRuntimeDeployment ''dep'' crowded_store = Inr dep \<and>
     (\<forall>C persisted g secrets written replies. \<exists>e. startWorker C persisted dep g secrets written replies = Inl e)"
proof -
  obtain dep where dep: "GetRuntimeDeployment ''dep'' crowded_store = Inr dep" "d_id (rd_Deployment dep) = ''dep''"
    by (simp add: GetRuntimeDeployment_def select_joined_def artifact_of_def Let_def crowded_store_def sample_store_eq)
  have "128 < count_where (\<lambda>c. c_deployment c = d_id (rd_Deployment dep)) (checkpoints crowded_store)"
    by (simp add: dep(2) crowded_store_def count_where_def filter_map o_def)
  from handshake_outgrown [OF dep(1) this] dep(1) show ?thesis by blast
qed

end
