(* ===== verification/EvmTypes.thy ===== *)
theory EvmTypes
  imports Session
begin

text \<open>
  \<open>catalog/quicknode/evm/types.go\<close>, and the pure decoders of \<open>rpc.go\<close> and \<open>erc20.go\<close>: quantities,
  hashes and addresses, blocks, transactions, receipts and logs, and how the answers of a node
  become them.  Chain IDs, hashes, addresses and quantities are strings, as in the source;
  \<open>uint64\<close> and \<open>uint\<close> are 64 bits wide.  \<open>Clone\<close> copies a Go slice and is the identity on values.
\<close>

section \<open>Errors\<close>

text \<open>
  The errors a monitor's code tells apart: the two sentinels of \<open>rpc.go\<close>, the remote error of a
  JSON-RPC call, \<open>ContractResultError\<close> and everything else.
\<close>

datatype evm_error =
    ErrBlockUnavailable
  | ErrReceiptUnavailable
  | RPCError
  | ContractResultError
  | ErrERC721Transfer
  | EvmError go_error

type_synonym 'a evm = "evm_error + 'a"

abbreviation fails :: "string \<Rightarrow> 'a evm" where
  "fails msg \<equiv> Inl (EvmError (Errorf msg))"

section \<open>Quantities, hashes and addresses\<close>

fun hex_value :: "nat \<Rightarrow> string \<Rightarrow> nat option" where
  "hex_value a [] = Some a"
| "hex_value a (c # cs) = (case unhex c of None \<Rightarrow> None | Some d \<Rightarrow> hex_value (16 * a + d) cs)"

text \<open>\<open>strconv.ParseUint(digits, 16, 64)\<close>.\<close>

definition parse_uint_hex :: "string \<Rightarrow> uint64 option" where
  "parse_uint_hex s =
     (if s = [] then None
      else case hex_value 0 s of None \<Rightarrow> None | Some n \<Rightarrow> if n < 2 ^ 64 then Some (of_nat n) else None)"

text \<open>\<open>%x\<close>.\<close>

function utox :: "nat \<Rightarrow> string" where
  "utox n = (if n < 16 then [hex_digit n] else utox (n div 16) @ [hex_digit (n mod 16)])"
  by pat_completeness auto
termination by (relation "measure id") auto

declare utox.simps [simp del]

definition quantity :: "uint64 \<Rightarrow> string" where
  "quantity n = ''0x'' @ utox (unat n)"

definition canonicalQuantity :: "string \<Rightarrow> string evm" where
  "canonicalQuantity s =
     (if length s < 3 \<or> \<not> has_prefix ''0x'' s then fails ''must be a 0x-prefixed quantity''
      else let digits = lower (drop 2 s) in
        if length digits > 1 \<and> hd digits = CHR ''0'' then fails ''has a leading zero''
        else case parse_uint_hex digits of
          None \<Rightarrow> fails ''is not a uint64 hex quantity''
        | Some _ \<Rightarrow> Inr (''0x'' @ digits))"

definition parseUintQuantity :: "string \<Rightarrow> uint64 evm" where
  "parseUintQuantity q =
     (case canonicalQuantity q of
        Inl e \<Rightarrow> Inl e
      | Inr c \<Rightarrow> (case parse_uint_hex (drop 2 c) of None \<Rightarrow> fails ''expected integer'' | Some n \<Rightarrow> Inr n))"

text \<open>\<open>big.Int.SetString(digits, 16)\<close>: an optional sign and at least one digit.\<close>

definition big_int_hex :: "string \<Rightarrow> int option" where
  "big_int_hex s =
     (let neg = (s \<noteq> [] \<and> hd s = CHR ''-''); signed = (neg \<or> (s \<noteq> [] \<and> hd s = CHR ''+''));
          digits = (if signed then tl s else s) in
      if digits = [] then None
      else map_option (\<lambda>n. if neg then - int n else int n) (hex_value 0 digits))"

definition ParseQuantity :: "string \<Rightarrow> string evm" where
  "ParseQuantity s =
     (if length s < 3 \<or> \<not> has_prefix ''0x'' s then fails ''quantity must be 0x-prefixed''
      else let digits = lower (drop 2 s) in
        if length digits > 1 \<and> hd digits = CHR ''0'' then fails ''quantity has a leading zero''
        else case big_int_hex digits of
          None \<Rightarrow> fails ''quantity is not hexadecimal''
        | Some _ \<Rightarrow> Inr (''0x'' @ digits))"

definition Quantity_BigInt :: "string \<Rightarrow> int evm" where
  "Quantity_BigInt q =
     (case ParseQuantity q of
        Inl e \<Rightarrow> Inl e
      | Inr parsed \<Rightarrow> (case big_int_hex (drop 2 parsed) of None \<Rightarrow> Inr 0 | Some n \<Rightarrow> Inr n))"

definition Quantity_Uint64 :: "string \<Rightarrow> uint64 evm" where
  "Quantity_Uint64 q =
     (case ParseQuantity q of
        Inl e \<Rightarrow> Inl e
      | Inr parsed \<Rightarrow> (case parse_uint_hex (drop 2 parsed) of None \<Rightarrow> fails ''parse uint'' | Some n \<Rightarrow> Inr n))"

definition ParseChainID :: "string \<Rightarrow> string evm" where
  "ParseChainID s = (case canonicalQuantity s of Inl e \<Rightarrow> fails ''chain id'' | Inr v \<Rightarrow> Inr v)"

definition fixedHex :: "string \<Rightarrow> nat \<Rightarrow> evm_error option" where
  "fixedHex s bytes =
     (if length s \<noteq> 2 + bytes * 2 \<or> \<not> has_prefix ''0x'' s
      then Some (EvmError (Errorf ''must be 0x-prefixed hex of a fixed size''))
      else case hex_decode (drop 2 s) of
        None \<Rightarrow> Some (EvmError (Errorf ''contains invalid hex''))
      | Some _ \<Rightarrow> None)"

definition ParseAddress :: "string \<Rightarrow> string evm" where
  "ParseAddress s = (case fixedHex s 20 of Some e \<Rightarrow> Inl e | None \<Rightarrow> Inr (lower s))"

definition ParseHash :: "string \<Rightarrow> string evm" where
  "ParseHash s = (case fixedHex s 32 of Some e \<Rightarrow> Inl e | None \<Rightarrow> Inr (lower s))"

abbreviation bad :: "'a evm \<Rightarrow> evm_error option" where
  "bad r \<equiv> (case r of Inl e \<Rightarrow> Some e | Inr _ \<Rightarrow> None)"

definition decodeHex :: "string \<Rightarrow> string evm" where
  "decodeHex s =
     (if \<not> has_prefix ''0x'' s then fails ''hex data lacks prefix''
      else case hex_decode (drop 2 s) of None \<Rightarrow> fails ''invalid hex data'' | Some b \<Rightarrow> Inr b)"

section \<open>Chain data\<close>

record EvmTransaction =
  et_ChainID :: string
  et_BlockNumber :: uint64
  et_BlockHash :: string
  et_Hash :: string
  et_Index :: uint64
  et_From :: string
  et_To :: "string option"
  et_Nonce :: uint64
  et_Value :: string
  et_Input :: string

definition EvmTransaction_ID :: "EvmTransaction \<Rightarrow> string" where
  "EvmTransaction_ID t = ''evm:'' @ et_ChainID t @ '':transaction:'' @ et_BlockHash t @ '':'' @ et_Hash t"

record Block =
  bk_ChainID :: string
  bk_Number :: uint64
  bk_Hash :: string
  bk_ParentHash :: string
  bk_Timestamp :: uint64
  bk_Transactions :: "EvmTransaction list"
  bk_Removed :: bool

definition Block_ID :: "Block \<Rightarrow> string" where
  "Block_ID b = ''evm:'' @ bk_ChainID b @ '':block:'' @ bk_Hash b"

record Log =
  lg_ChainID :: string
  lg_BlockNumber :: uint64
  lg_BlockHash :: string
  lg_TxHash :: string
  lg_TxIndex :: uint64
  lg_LogIndex :: uint64
  lg_Address :: string
  lg_Topics :: "string list"
  lg_Data :: string
  lg_Removed :: bool
  lg_Confirmed :: bool

definition Log_ID :: "Log \<Rightarrow> string" where
  "Log_ID l = ''evm:'' @ lg_ChainID l @ '':log:'' @ lg_BlockHash l @ '':'' @ lg_TxHash l @ '':'' @
     utoa (unat (lg_LogIndex l))"

record Receipt =
  rc_ChainID :: string
  rc_BlockNumber :: uint64
  rc_BlockHash :: string
  rc_TxHash :: string
  rc_TxIndex :: uint64
  rc_Success :: bool
  rc_ContractAddress :: "string option"
  rc_GasUsed :: string
  rc_EffectiveGasPrice :: string
  rc_Logs :: "Log list"

record Account =
  ac_Address :: string
  ac_BlockHash :: string
  ac_Balance :: string
  ac_Nonce :: uint64
  ac_Code :: string

definition Account_IsEOA :: "Account \<Rightarrow> bool" where
  "Account_IsEOA a \<longleftrightarrow> length (ac_Code a) = 0"

section \<open>Log filters\<close>

record Logs =
  lf_Addresses :: "string list"
  lf_Topics :: "string list list"

fun first_bad :: "('a \<Rightarrow> evm_error option) \<Rightarrow> 'a list \<Rightarrow> evm_error option" where
  "first_bad check [] = None"
| "first_bad check (x # xs) = (case check x of Some e \<Rightarrow> Some e | None \<Rightarrow> first_bad check xs)"

definition Logs_Validate :: "Logs \<Rightarrow> evm_error option" where
  "Logs_Validate f =
     (case first_bad (\<lambda>a. bad (ParseAddress a)) (lf_Addresses f) of
        Some e \<Rightarrow> Some e
      | None \<Rightarrow> (case first_bad (first_bad (\<lambda>h. bad (ParseHash h))) (lf_Topics f) of
          Some e \<Rightarrow> Some e
        | None \<Rightarrow>
            if length (lf_Addresses f) > 0 \<or> (\<exists>topics\<in>set (lf_Topics f). length topics > 0) then None
            else Some (EvmError (Errorf ''log filter requires an address or topic''))))"

text \<open>A position of the JSON filter: null, one value or a list of alternatives.\<close>

datatype choice = Anything | Exactly string | OneOf "string list"

definition topic_choice :: "string list \<Rightarrow> choice" where
  "topic_choice choices = (case choices of [] \<Rightarrow> Anything | [h] \<Rightarrow> Exactly h | _ \<Rightarrow> OneOf choices)"

text \<open>The entries \<open>address\<close> and \<open>topics\<close> of \<open>rpcArgs\<close>, absent when there is no such condition.\<close>

definition rpcArgs :: "Logs \<Rightarrow> choice option \<times> choice list option" where
  "rpcArgs f =
     ((if length (lf_Addresses f) = 1 then Some (Exactly (lf_Addresses f ! 0))
       else if length (lf_Addresses f) > 1 then Some (OneOf (lf_Addresses f)) else None),
      (if length (lf_Topics f) > 0 then Some (map topic_choice (lf_Topics f)) else None))"

text \<open>Below the last \<open>uint64\<close> the successor does not wrap.\<close>

lemma unat_inc: "b \<noteq> - 1 \<Longrightarrow> unat (b + 1) = Suc (unat (b :: uint64))"
  by (metis add.commute add_eq_0_iff unatSuc)

end
