(* ===== verification/EvmClient.thy ===== *)
theory EvmClient
  imports EvmTypes
begin

text \<open>
  \<open>catalog/quicknode/evm/rpc.go\<close>: decoding and validating the answers of a node, and the read
  operations of \<open>Client\<close>.

  The JSON-RPC transport is the record \<open>provider\<close>: \<open>pv_call\<close> is \<open>CallRead\<close> up to the raw result,
  the other fields are the JSON decoders of the result types and the wait of \<open>retryPropagation\<close>.
  \<open>'w\<close> is the world the transport lives in.  Reads that the source runs concurrently in an error
  group are run here one after the other, the first error ending the group.
\<close>

section \<open>Sequencing\<close>

definition on_ok :: "'a evm \<Rightarrow> ('a \<Rightarrow> 'b evm) \<Rightarrow> 'b evm" where
  "on_ok r k = (case r of Inl e \<Rightarrow> Inl e | Inr a \<Rightarrow> k a)"

definition check :: "evm_error option \<Rightarrow> 'b evm \<Rightarrow> 'b evm" where
  "check e k = (case e of Some err \<Rightarrow> Inl err | None \<Rightarrow> k)"

definition and_then :: "'w \<times> 'a evm \<Rightarrow> ('a \<Rightarrow> 'w \<Rightarrow> 'w \<times> 'b evm) \<Rightarrow> 'w \<times> 'b evm" where
  "and_then p k = (case p of (w, Inl e) \<Rightarrow> (w, Inl e) | (w, Inr a) \<Rightarrow> k a w)"

lemma on_ok_Inr: "on_ok r k = Inr b \<longleftrightarrow> (\<exists>a. r = Inr a \<and> k a = Inr b)"
  by (auto simp: on_ok_def split: sum.splits)

lemma check_Inr: "check e k = Inr b \<longleftrightarrow> e = None \<and> k = Inr b"
  by (auto simp: check_def split: option.splits)

lemma and_then_Inr: "and_then p k = (w', Inr b) \<longleftrightarrow> (\<exists>w a. p = (w, Inr a) \<and> k a w = (w', Inr b))"
  by (cases p) (auto simp: and_then_def split: sum.splits)

lemma bad_None: "bad r = None \<longleftrightarrow> (\<exists>v. r = Inr v)"
  by (cases r) simp_all

lemmas outcome_simps = on_ok_Inr check_Inr and_then_Inr bad_None

section \<open>Answers of a node\<close>

record rpcBlockHeader =
  rh_Number :: string
  rh_Hash :: string
  rh_ParentHash :: string

record rpcTransaction =
  rt_BlockNumber :: string
  rt_BlockHash :: string
  rt_Hash :: string
  rt_TransactionIndex :: string
  rt_From :: string
  rt_To :: "string option"
  rt_Nonce :: string
  rt_Value :: string
  rt_Input :: string

record rpcBlock =
  rb_Number :: string
  rb_Hash :: string
  rb_ParentHash :: string
  rb_Timestamp :: string
  rb_Transactions :: "rpcTransaction list"

record rpcLog =
  rl_BlockNumber :: string
  rl_BlockHash :: string
  rl_TransactionHash :: string
  rl_TransactionIndex :: string
  rl_LogIndex :: string
  rl_Address :: string
  rl_Topics :: "string list"
  rl_Data :: string
  rl_Removed :: bool

record rpcReceipt =
  rr_BlockNumber :: string
  rr_BlockHash :: string
  rr_TransactionHash :: string
  rr_TransactionIndex :: string
  rr_Status :: string
  rr_ContractAddress :: "string option"
  rr_GasUsed :: string
  rr_EffectiveGasPrice :: string
  rr_Logs :: "rpcLog list"

section \<open>Decoding\<close>

definition optional_address :: "string option \<Rightarrow> evm_error option" where
  "optional_address a = (case a of None \<Rightarrow> None | Some s \<Rightarrow> bad (ParseAddress s))"

definition decodeRPCTransaction :: "rpcTransaction \<Rightarrow> string \<Rightarrow> EvmTransaction evm" where
  "decodeRPCTransaction raw chain =
     on_ok (parseUintQuantity (rt_BlockNumber raw)) (\<lambda>blockNumber.
     on_ok (parseUintQuantity (rt_TransactionIndex raw)) (\<lambda>index.
     on_ok (parseUintQuantity (rt_Nonce raw)) (\<lambda>nonce.
     on_ok (ParseQuantity (rt_Value raw)) (\<lambda>value.
     on_ok (decodeHex (rt_Input raw)) (\<lambda>input.
     check (bad (ParseHash (rt_BlockHash raw))) (
     check (bad (ParseHash (rt_Hash raw))) (
     check (bad (ParseAddress (rt_From raw))) (
     check (optional_address (rt_To raw)) (
     Inr \<lparr>et_ChainID = chain, et_BlockNumber = blockNumber, et_BlockHash = rt_BlockHash raw, et_Hash = rt_Hash raw,
       et_Index = index, et_From = rt_From raw, et_To = rt_To raw, et_Nonce = nonce, et_Value = value,
       et_Input = input\<rparr>)))))))))"

text \<open>The transactions of a block: each has to be at its index and name the block.\<close>

fun decode_transactions ::
    "uint64 \<Rightarrow> string \<Rightarrow> string \<Rightarrow> nat \<Rightarrow> rpcTransaction list \<Rightarrow> EvmTransaction list evm" where
  "decode_transactions number hash chain i [] = Inr []"
| "decode_transactions number hash chain i (raw # raws) =
     on_ok (decodeRPCTransaction raw chain) (\<lambda>tx.
       if et_BlockNumber tx \<noteq> number \<or> et_BlockHash tx \<noteq> hash \<or> et_Index tx \<noteq> of_nat i
       then fails ''quicknode: transaction does not belong to containing block''
       else on_ok (decode_transactions number hash chain (Suc i) raws) (\<lambda>txs. Inr (tx # txs)))"

definition decodeRPCBlock :: "rpcBlock \<Rightarrow> string \<Rightarrow> Block evm" where
  "decodeRPCBlock raw chain =
     on_ok (parseUintQuantity (rb_Number raw)) (\<lambda>number.
     on_ok (parseUintQuantity (rb_Timestamp raw)) (\<lambda>timestamp.
     check (bad (ParseHash (rb_Hash raw))) (
     check (bad (ParseHash (rb_ParentHash raw))) (
     on_ok (decode_transactions number (rb_Hash raw) chain 0 (rb_Transactions raw)) (\<lambda>txs.
     Inr \<lparr>bk_ChainID = chain, bk_Number = number, bk_Hash = rb_Hash raw, bk_ParentHash = rb_ParentHash raw,
       bk_Timestamp = timestamp, bk_Transactions = txs, bk_Removed = False\<rparr>)))))"

definition decodeRPCLog :: "rpcLog \<Rightarrow> string \<Rightarrow> Log evm" where
  "decodeRPCLog r chain =
     check (bad (ParseHash (rl_BlockHash r))) (
     check (bad (ParseHash (rl_TransactionHash r))) (
     check (bad (ParseAddress (rl_Address r))) (
     check (first_bad (\<lambda>topic. bad (ParseHash topic)) (rl_Topics r)) (
     on_ok (parseUintQuantity (rl_BlockNumber r)) (\<lambda>bn.
     on_ok (parseUintQuantity (rl_TransactionIndex r)) (\<lambda>ti.
     on_ok (parseUintQuantity (rl_LogIndex r)) (\<lambda>li.
     on_ok (decodeHex (rl_Data r)) (\<lambda>data.
     Inr \<lparr>lg_ChainID = chain, lg_BlockNumber = bn, lg_BlockHash = rl_BlockHash r, lg_TxHash = rl_TransactionHash r,
       lg_TxIndex = ti, lg_LogIndex = li, lg_Address = rl_Address r, lg_Topics = rl_Topics r, lg_Data = data,
       lg_Removed = rl_Removed r, lg_Confirmed = False\<rparr>))))))))"

fun decode_logs :: "string \<Rightarrow> rpcLog list \<Rightarrow> Log list evm" where
  "decode_logs chain [] = Inr []"
| "decode_logs chain (r # rs) =
     on_ok (decodeRPCLog r chain) (\<lambda>log. on_ok (decode_logs chain rs) (\<lambda>logs. Inr (log # logs)))"

text \<open>The logs of a receipt: each has to name the receipt's block and transaction.\<close>

fun decode_receipt_logs ::
    "uint64 \<Rightarrow> string \<Rightarrow> string \<Rightarrow> uint64 \<Rightarrow> string \<Rightarrow> rpcLog list \<Rightarrow> Log list evm" where
  "decode_receipt_logs number block tx index chain [] = Inr []"
| "decode_receipt_logs number block tx index chain (r # rs) =
     on_ok (decodeRPCLog r chain) (\<lambda>log.
       if lg_BlockNumber log \<noteq> number \<or> lg_BlockHash log \<noteq> block \<or> lg_TxHash log \<noteq> tx \<or> lg_TxIndex log \<noteq> index
       then fails ''quicknode: receipt log does not belong to receipt''
       else on_ok (decode_receipt_logs number block tx index chain rs) (\<lambda>logs. Inr (log # logs)))"

definition decodeRPCReceipt :: "rpcReceipt \<Rightarrow> string \<Rightarrow> Receipt evm" where
  "decodeRPCReceipt raw chain =
     on_ok (parseUintQuantity (rr_BlockNumber raw)) (\<lambda>blockNumber.
     on_ok (parseUintQuantity (rr_TransactionIndex raw)) (\<lambda>index.
     on_ok (case parseUintQuantity (rr_Status raw) of
              Inl e \<Rightarrow> fails ''quicknode: invalid receipt status''
            | Inr status \<Rightarrow> if status > 1 then fails ''quicknode: invalid receipt status'' else Inr status) (\<lambda>status.
     on_ok (ParseQuantity (rr_GasUsed raw)) (\<lambda>gasUsed.
     on_ok (if rr_EffectiveGasPrice raw = '''' then Inr '''' else ParseQuantity (rr_EffectiveGasPrice raw)) (\<lambda>gasPrice.
     check (bad (ParseHash (rr_BlockHash raw))) (
     check (bad (ParseHash (rr_TransactionHash raw))) (
     check (optional_address (rr_ContractAddress raw)) (
     on_ok (decode_receipt_logs blockNumber (rr_BlockHash raw) (rr_TransactionHash raw) index chain (rr_Logs raw))
       (\<lambda>logs.
     Inr \<lparr>rc_ChainID = chain, rc_BlockNumber = blockNumber, rc_BlockHash = rr_BlockHash raw,
       rc_TxHash = rr_TransactionHash raw, rc_TxIndex = index, rc_Success = (status = 1),
       rc_ContractAddress = rr_ContractAddress raw, rc_GasUsed = gasUsed, rc_EffectiveGasPrice = gasPrice,
       rc_Logs = logs\<rparr>)))))))))"

section \<open>Reads\<close>

datatype rpc_param =
    PText string
  | PFlag bool
  | PAtBlock string
  | PContractCall string string
  | PFilter "choice option" "choice list option" string string

record 'w provider =
  pv_chain :: string
  pv_call :: "string \<Rightarrow> rpc_param list \<Rightarrow> 'w \<Rightarrow> 'w \<times> string evm"
  pv_text :: "string \<Rightarrow> string option"
  pv_header :: "string \<Rightarrow> rpcBlockHeader option"
  pv_block :: "string \<Rightarrow> rpcBlock option"
  pv_receipt :: "string \<Rightarrow> rpcReceipt option"
  pv_logs :: "string \<Rightarrow> rpcLog list option"
  pv_sleep :: "int \<Rightarrow> 'w \<Rightarrow> 'w \<times> evm_error option"

definition call_as ::
    "'w provider \<Rightarrow> (string \<Rightarrow> 'a option) \<Rightarrow> string \<Rightarrow> rpc_param list \<Rightarrow> 'w \<Rightarrow> 'w \<times> 'a evm" where
  "call_as P decode method params w =
     and_then (pv_call P method params w) (\<lambda>raw w.
       (w, case decode raw of None \<Rightarrow> fails ''quicknode: invalid JSON-RPC result'' | Some v \<Rightarrow> Inr v))"

definition blockNumber :: "'w provider \<Rightarrow> 'w \<Rightarrow> 'w \<times> uint64 evm" where
  "blockNumber P w = and_then (call_as P (pv_text P) ''eth_blockNumber'' [] w) (\<lambda>q w. (w, parseUintQuantity q))"

definition blockByNumber :: "'w provider \<Rightarrow> uint64 \<Rightarrow> 'w \<Rightarrow> 'w \<times> rpcBlockHeader evm" where
  "blockByNumber P n w =
     and_then (call_as P (pv_header P) ''eth_getBlockByNumber'' [PText (quantity n), PFlag False] w) (\<lambda>block w.
       (w, case parseUintQuantity (rh_Number block) of
             Inl e \<Rightarrow> fails ''quicknode: invalid block response''
           | Inr number \<Rightarrow>
               if number \<noteq> n then fails ''quicknode: invalid block response''
               else check (bad (ParseHash (rh_Hash block))) (check (bad (ParseHash (rh_ParentHash block))) (Inr block))))"

definition absent :: "string \<Rightarrow> bool" where
  "absent payload \<longleftrightarrow> length payload = 0 \<or> TrimSpace payload = ''null''"

definition callBlock :: "'w provider \<Rightarrow> string \<Rightarrow> rpc_param list \<Rightarrow> 'w \<Rightarrow> 'w \<times> rpcBlock evm" where
  "callBlock P method params w =
     and_then (pv_call P method params w) (\<lambda>payload w.
       (w, if absent payload then Inl ErrBlockUnavailable
           else case pv_block P payload of None \<Rightarrow> fails ''quicknode: invalid block response'' | Some b \<Rightarrow> Inr b))"

definition blockByNumberFull :: "'w provider \<Rightarrow> uint64 \<Rightarrow> 'w \<Rightarrow> 'w \<times> Block evm" where
  "blockByNumberFull P n w =
     and_then (callBlock P ''eth_getBlockByNumber'' [PText (quantity n), PFlag True] w) (\<lambda>raw w.
       (w, on_ok (decodeRPCBlock raw (pv_chain P)) (\<lambda>block.
             if bk_Number block \<noteq> n then fails ''quicknode: block number does not match request'' else Inr block)))"

definition blockByHashFull :: "'w provider \<Rightarrow> string \<Rightarrow> 'w \<Rightarrow> 'w \<times> Block evm" where
  "blockByHashFull P hash w =
     and_then (callBlock P ''eth_getBlockByHash'' [PText hash, PFlag True] w) (\<lambda>raw w.
       (w, on_ok (decodeRPCBlock raw (pv_chain P)) (\<lambda>block.
             if bk_Hash block \<noteq> hash then fails ''quicknode: block hash does not match request'' else Inr block)))"

text \<open>
  \<open>retryPropagation\<close>: five attempts, the waits in milliseconds.  The list is what is left of the
  loop's range; the last attempt returns whatever it got.
\<close>

fun retry_attempts ::
    "'w provider \<Rightarrow> evm_error \<Rightarrow> ('w \<Rightarrow> 'w \<times> 'a evm) \<Rightarrow> nat list \<Rightarrow> 'w \<Rightarrow> 'w \<times> 'a evm" where
  "retry_attempts P unavailable fetch [] w = fetch w"
| "retry_attempts P unavailable fetch (attempt # attempts) w =
     (case fetch w of
        (w1, Inr v) \<Rightarrow> (w1, Inr v)
      | (w1, Inl e) \<Rightarrow>
          if e \<noteq> unavailable \<or> attempt = 4 then (w1, Inl e)
          else case pv_sleep P (min (50 * 2 ^ attempt) 500) w1 of
            (w2, Some cancelled) \<Rightarrow> (w2, Inl cancelled)
          | (w2, None) \<Rightarrow> retry_attempts P unavailable fetch attempts w2)"

definition retryPropagation ::
    "'w provider \<Rightarrow> evm_error \<Rightarrow> ('w \<Rightarrow> 'w \<times> 'a evm) \<Rightarrow> 'w \<Rightarrow> 'w \<times> 'a evm" where
  "retryPropagation P unavailable fetch w = retry_attempts P unavailable fetch [0..<5] w"

definition BlockByNumber :: "'w provider \<Rightarrow> uint64 \<Rightarrow> 'w \<Rightarrow> 'w \<times> Block evm" where
  "BlockByNumber P n w = retryPropagation P ErrBlockUnavailable (blockByNumberFull P n) w"

definition BlockByHash :: "'w provider \<Rightarrow> string \<Rightarrow> 'w \<Rightarrow> 'w \<times> Block evm" where
  "BlockByHash P hash w =
     (case bad (ParseHash hash) of
        Some e \<Rightarrow> (w, Inl e)
      | None \<Rightarrow> retryPropagation P ErrBlockUnavailable (blockByHashFull P hash) w)"

primrec fetch_blocks :: "'w provider \<Rightarrow> uint64 \<Rightarrow> nat list \<Rightarrow> 'w \<Rightarrow> 'w \<times> Block list evm" where
  "fetch_blocks P start [] w = (w, Inr [])"
| "fetch_blocks P start (i # is) w =
     and_then (BlockByNumber P (start + of_nat i) w) (\<lambda>block w.
       and_then (fetch_blocks P start is w) (\<lambda>blocks w. (w, Inr (block # blocks))))"

fun chained :: "Block list \<Rightarrow> bool" where
  "chained (a # b # bs) \<longleftrightarrow> bk_ParentHash b = bk_Hash a \<and> chained (b # bs)"
| "chained _ \<longleftrightarrow> True"

definition blocksByNumber :: "'w provider \<Rightarrow> uint64 \<Rightarrow> uint64 \<Rightarrow> int \<Rightarrow> 'w \<Rightarrow> 'w \<times> Block list evm" where
  "blocksByNumber P start to concurrency w =
     (if to < start then (w, fails ''quicknode: invalid block range'')
      else if concurrency < 1 then (w, fails ''quicknode: block fetch concurrency must be positive'')
      else and_then (fetch_blocks P start [0..<unat (to - start + 1)] w) (\<lambda>blocks w.
        (w, if chained blocks then Inr blocks else fails ''quicknode: block range is not a canonical chain'')))"

definition TransactionReceipt :: "'w provider \<Rightarrow> string \<Rightarrow> 'w \<Rightarrow> 'w \<times> Receipt evm" where
  "TransactionReceipt P hash w =
     (case bad (ParseHash hash) of
        Some e \<Rightarrow> (w, Inl e)
      | None \<Rightarrow> and_then (pv_call P ''eth_getTransactionReceipt'' [PText hash] w) (\<lambda>payload w.
          (w, if absent payload then Inl ErrReceiptUnavailable
              else case pv_receipt P payload of
                None \<Rightarrow> fails ''quicknode: invalid transaction receipt''
              | Some raw \<Rightarrow> on_ok (decodeRPCReceipt raw (pv_chain P)) (\<lambda>receipt.
                  if rc_TxHash receipt \<noteq> hash then fails ''quicknode: receipt hash does not match request''
                  else Inr receipt))))"

definition ReceiptFor :: "'w provider \<Rightarrow> EvmTransaction \<Rightarrow> 'w \<Rightarrow> 'w \<times> Receipt evm" where
  "ReceiptFor P tx w =
     (if et_ChainID tx \<noteq> pv_chain P then (w, fails ''quicknode: transaction belongs to another chain'')
      else and_then (retryPropagation P ErrReceiptUnavailable (TransactionReceipt P (et_Hash tx)) w) (\<lambda>receipt w.
        (w, if rc_BlockHash receipt \<noteq> et_BlockHash tx \<or> rc_BlockNumber receipt \<noteq> et_BlockNumber tx \<or>
               rc_TxIndex receipt \<noteq> et_Index tx
            then fails ''quicknode: receipt does not match transaction block'' else Inr receipt)))"

definition AccountAt :: "'w provider \<Rightarrow> string \<Rightarrow> string \<Rightarrow> 'w \<Rightarrow> 'w \<times> Account evm" where
  "AccountAt P address blockHash w =
     (case bad (ParseAddress address) of
        Some e \<Rightarrow> (w, Inl e)
      | None \<Rightarrow> (case bad (ParseHash blockHash) of
          Some e \<Rightarrow> (w, Inl e)
        | None \<Rightarrow>
            let params = [PText address, PAtBlock blockHash] in
            and_then (call_as P (pv_text P) ''eth_getBalance'' params w) (\<lambda>balanceRaw w.
            and_then (call_as P (pv_text P) ''eth_getTransactionCount'' params w) (\<lambda>nonceRaw w.
            and_then (call_as P (pv_text P) ''eth_getCode'' params w) (\<lambda>codeRaw w.
              (w, on_ok (ParseQuantity balanceRaw) (\<lambda>balance.
                  on_ok (parseUintQuantity nonceRaw) (\<lambda>nonce.
                  on_ok (decodeHex codeRaw) (\<lambda>code.
                  Inr \<lparr>ac_Address = address, ac_BlockHash = blockHash, ac_Balance = balance, ac_Nonce = nonce,
                    ac_Code = code\<rparr>)))))))))"

definition IsCanonicalBlock :: "'w provider \<Rightarrow> uint64 \<Rightarrow> string \<Rightarrow> 'w \<Rightarrow> 'w \<times> bool evm" where
  "IsCanonicalBlock P number hash w =
     (case bad (ParseHash hash) of
        Some e \<Rightarrow> (w, Inl e)
      | None \<Rightarrow> and_then (blockByNumber P number w) (\<lambda>block w. (w, Inr (rh_Hash block = hash))))"

definition logs_in :: "'w provider \<Rightarrow> Logs \<Rightarrow> uint64 \<Rightarrow> uint64 \<Rightarrow> 'w \<Rightarrow> 'w \<times> Log list evm" where
  "logs_in P f start to w =
     and_then (call_as P (pv_logs P) ''eth_getLogs''
         [PFilter (fst (rpcArgs f)) (snd (rpcArgs f)) (quantity start) (quantity to)] w)
       (\<lambda>raw w. (w, decode_logs (pv_chain P) raw))"

section \<open>What a read that succeeds returns\<close>

lemma retry_attempts_Inr:
  "retry_attempts P u fetch as w = (w', Inr v) \<Longrightarrow> \<exists>w1. fetch w1 = (w', Inr v)"
proof (induction as arbitrary: w)
  case (Cons a as)
  obtain w1 r where f: "fetch w = (w1, r)" by fastforce
  show ?case
  proof (cases r)
    case (Inl e)
    obtain w2 c where "pv_sleep P (min (50 * 2 ^ a) 500) w1 = (w2, c)" by fastforce
    then show ?thesis using Cons.prems Cons.IH by (auto simp: f Inl split: if_splits option.splits)
  next
    case (Inr b)
    then show ?thesis using Cons.prems f by auto
  qed
qed auto

lemma decodeRPCBlock_Inr:
  assumes "decodeRPCBlock raw chain = Inr b"
  shows "bk_ChainID b = chain \<and> bk_Removed b = False \<and> (\<exists>h. ParseHash (bk_Hash b) = Inr h) \<and>
    (\<exists>h. ParseHash (bk_ParentHash b) = Inr h)"
  using assms by (auto simp: decodeRPCBlock_def outcome_simps)

definition genuine :: "'w provider \<Rightarrow> Block \<Rightarrow> bool" where
  "genuine P b \<longleftrightarrow> bk_ChainID b = pv_chain P \<and> \<not> bk_Removed b \<and> bad (ParseHash (bk_Hash b)) = None \<and>
     bad (ParseHash (bk_ParentHash b)) = None"

lemma BlockByNumber_Inr:
  assumes "BlockByNumber P n w = (w', Inr b)"
  shows "bk_Number b = n \<and> genuine P b"
proof -
  obtain w1 where "blockByNumberFull P n w1 = (w', Inr b)"
    using retry_attempts_Inr [OF assms [unfolded BlockByNumber_def retryPropagation_def]] by blast
  then show ?thesis
    by (auto simp: blockByNumberFull_def outcome_simps genuine_def split: if_splits dest!: decodeRPCBlock_Inr)
qed

lemma fetch_blocks_Inr:
  "fetch_blocks P start is w = (w', Inr blocks) \<Longrightarrow>
    map bk_Number blocks = map (\<lambda>i. start + of_nat i) is \<and> (\<forall>b\<in>set blocks. genuine P b)"
proof (induction "is" arbitrary: w blocks)
  case (Cons i "is")
  then obtain w1 b bs where b: "BlockByNumber P (start + of_nat i) w = (w1, Inr b)"
    "fetch_blocks P start is w1 = (w', Inr bs)" "blocks = b # bs"
    by (auto simp: outcome_simps)
  from BlockByNumber_Inr [OF b(1)] Cons.IH [OF b(2)] b(3) show ?case by simp
qed simp

lemma blocksByNumber_Inr:
  assumes "blocksByNumber P start to concurrency w = (w', Inr blocks)"
  shows "start \<le> to" "map bk_Number blocks = map (\<lambda>i. start + of_nat i) [0..<unat (to - start + 1)]"
    "\<forall>b\<in>set blocks. genuine P b" "chained blocks"
  using assms fetch_blocks_Inr
  by (fastforce simp: blocksByNumber_def outcome_simps split: if_splits)+

section \<open>Opening a client\<close>

definition default_http :: SecretRef where
  "default_http = \<lparr>sr_Group = ''quicknode'', sr_Key = ''ethereum-mainnet-http-url'', sr_Required = True\<rparr>"

definition default_wss :: SecretRef where
  "default_wss = \<lparr>sr_Group = ''quicknode'', sr_Key = ''ethereum-mainnet-websocket-url'', sr_Required = True\<rparr>"

definition httpSecret :: "SecretRef \<Rightarrow> SecretRef \<times> bool" where
  "httpSecret configured =
     (if sr_Group configured = '''' \<and> sr_Key configured = '''' then (default_http, True) else (configured, False))"

definition wssSecret :: "SecretRef \<Rightarrow> SecretRef \<times> bool" where
  "wssSecret configured =
     (if sr_Group configured = '''' \<and> sr_Key configured = '''' then (default_wss, True) else (configured, False))"

text \<open>
  \<open>Open\<close> over an open transport: the chain handshake on HTTP, repeated on the web socket when both
  endpoints are configured.  \<open>ws_call\<close> is \<open>CallWebSocketRead\<close>.  The result is the provider with its
  chain.
\<close>

definition chain_handshake ::
    "'w provider \<Rightarrow> (string \<Rightarrow> rpc_param list \<Rightarrow> 'w \<Rightarrow> 'w \<times> string evm) \<Rightarrow> 'w \<Rightarrow> 'w \<times> string evm" where
  "chain_handshake P call w =
     and_then (call_as (P\<lparr>pv_call := call\<rparr>) (pv_text P) ''eth_chainId'' [] w) (\<lambda>raw w. (w, ParseChainID raw))"

definition OpenClient ::
    "'w provider \<Rightarrow> (string \<Rightarrow> rpc_param list \<Rightarrow> 'w \<Rightarrow> 'w \<times> string evm) \<Rightarrow> string \<Rightarrow> string \<Rightarrow> 'w \<Rightarrow>
     'w \<times> 'w provider evm" where
  "OpenClient P ws_call httpURL wssURL w =
     and_then (chain_handshake P (pv_call P) w) (\<lambda>chain w.
       if httpURL \<noteq> '''' \<and> wssURL \<noteq> ''''
       then and_then (chain_handshake P ws_call w) (\<lambda>ws_chain w.
         (w, if ws_chain \<noteq> chain then fails ''quicknode evm endpoint chain mismatch'' else Inr (P\<lparr>pv_chain := chain\<rparr>)))
       else (w, Inr (P\<lparr>pv_chain := chain\<rparr>)))"

text \<open>The endpoints of a source: configured, or a secret of the session; the flag: both defaults.\<close>

definition source_secrets :: "string \<Rightarrow> string \<Rightarrow> SecretRef \<Rightarrow> SecretRef \<Rightarrow> SecretRef list" where
  "source_secrets httpURL wssURL http wss =
     (if httpURL = '''' then [fst (httpSecret http)] else []) @ (if wssURL = '''' then [fst (wssSecret wss)] else [])"

definition required_url :: "string \<Rightarrow> SecretRef \<Rightarrow> Session \<Rightarrow> string evm" where
  "required_url url ref s =
     (if url = '''' then (case SecretSet_Require (ss_secrets s) ref of Inl e \<Rightarrow> Inl (EvmError e) | Inr v \<Rightarrow> Inr v)
      else Inr url)"

definition endpoints :: "string \<Rightarrow> string \<Rightarrow> SecretRef \<Rightarrow> SecretRef \<Rightarrow> Session \<Rightarrow> (string \<times> string \<times> bool) evm" where
  "endpoints httpURL wssURL http wss s =
     on_ok (required_url httpURL (fst (httpSecret http)) s) (\<lambda>h.
     on_ok (required_url wssURL (fst (wssSecret wss)) s) (\<lambda>x.
     Inr (h, x, httpURL = '''' \<and> wssURL = '''' \<and> snd (httpSecret http) \<and> snd (wssSecret wss))))"

definition expected_chain :: "string \<Rightarrow> bool \<Rightarrow> string" where
  "expected_chain configured defaults = (if configured = '''' \<and> defaults then ''0x1'' else configured)"

definition confirmationDepth :: "string \<Rightarrow> uint64 \<Rightarrow> uint64 evm" where
  "confirmationDepth chain configured =
     (if configured > 0 then Inr configured
      else if chain = ''0x1'' then Inr 12
      else fails ''quicknode evm: confirmations are required'')"

section \<open>Monitors over a client\<close>

text \<open>
  What a source of the catalog is run with: the transport, the session's codec and committer, the
  context before and after a commit's closure, and the JSON round trip of an event.
\<close>

record ('v, 'w) session_env =
  mv_codec :: "'v state_codec"
  mv_clone :: "Event \<Rightarrow> Event result"
  mv_commit :: "transactionCommit \<Rightarrow> 'w \<Rightarrow> 'w \<times> string result"
  mv_ctx_before :: "'w \<Rightarrow> go_error option"
  mv_ctx_after :: "'w \<Rightarrow> go_error option"

record ('v, 'w) monitor_env = "('v, 'w) session_env" +
  mv_provider :: "'w provider"

text \<open>\<open>if err := update(tx); err != nil { return err }\<close> and then the rest of the closure.\<close>

primrec then_do :: "'v closure \<Rightarrow> 'v closure \<Rightarrow> 'v closure" where
  "then_do (Return e) rest = (case e of None \<Rightarrow> rest | Some err \<Rightarrow> Return (Some err))"
| "then_do Panic rest = Panic"
| "then_do (GetState k) rest = GetState (\<lambda>v. then_do (k v) rest)"
| "then_do (SetState v k) rest = SetState v (then_do k rest)"
| "then_do (DoEmit e k) rest = DoEmit e (\<lambda>r. then_do (k r) rest)"
| "then_do (DoCheckpoint s raw k) rest = DoCheckpoint s raw (\<lambda>r. then_do (k r) rest)"

definition with_update :: "'v closure option \<Rightarrow> 'v closure \<Rightarrow> 'v closure" where
  "with_update update rest = (case update of None \<Rightarrow> rest | Some u \<Rightarrow> then_do u rest)"

definition session_commit ::
    "('v, 'w, 'e) session_env_scheme \<Rightarrow> 'v closure \<Rightarrow> Session \<Rightarrow> 'w \<Rightarrow> Session \<times> 'w \<times> evm_error option" where
  "session_commit M f s w =
     (case Session_Commit (mv_codec M) (mv_clone M) (mv_commit M) (mv_ctx_before M w) (mv_ctx_after M w) (Some f) s w of
        (s', w', err) \<Rightarrow> (s', w', map_option EvmError err))"

end
