(* ===== verification/EvmBlocks.thy ===== *)
theory EvmBlocks
  imports EvmClient
begin

text \<open>
  \<open>catalog/quicknode/evm/blocks.go\<close>: one ordered canonical sequence of blocks.  The progress, a
  cursor with a journal of recent blocks, is a checkpoint of the session; every block is handled
  and committed together with the progress that follows it, and a block that a reorganisation
  orphaned is handled as removed, newest first.

  The loops take the session and the world along; \<open>fetch\<close> and \<open>Handle\<close> are the client of
  \<open>EvmClient\<close> and the monitor's code.  The JSON form of the progress is a parameter.  A session
  whose state no longer decodes panics in the source, which the runtime recovers as an error of
  the run; the model returns that error.
\<close>

section \<open>Progress\<close>

record blockReference =
  br_Number :: uint64
  br_Hash :: string
  br_ParentHash :: string

definition removed_block :: "blockReference \<Rightarrow> string \<Rightarrow> Block" where
  "removed_block r chain =
     \<lparr>bk_ChainID = chain, bk_Number = br_Number r, bk_Hash = br_Hash r, bk_ParentHash = br_ParentHash r,
      bk_Timestamp = 0, bk_Transactions = [], bk_Removed = True\<rparr>"

record blockProgress =
  bp_ChainID :: string
  bp_NextBlock :: uint64
  bp_CanonicalParent :: string
  bp_Recent :: "blockReference list"

fun contiguous :: "blockReference list \<Rightarrow> bool" where
  "contiguous (a # b # rs) \<longleftrightarrow> br_Number b = br_Number a + 1 \<and> br_ParentHash b = br_Hash a \<and> contiguous (b # rs)"
| "contiguous _ \<longleftrightarrow> True"

text \<open>The journal's loop: hashes first, then the link to the previous reference.\<close>

fun validate_journal :: "blockReference option \<Rightarrow> blockReference list \<Rightarrow> evm_error option" where
  "validate_journal previous [] = None"
| "validate_journal previous (ref # rs) =
     (case bad (ParseHash (br_Hash ref)) of
        Some e \<Rightarrow> Some e
      | None \<Rightarrow> (case bad (ParseHash (br_ParentHash ref)) of
          Some e \<Rightarrow> Some e
        | None \<Rightarrow>
            if (case previous of None \<Rightarrow> False
                | Some p \<Rightarrow> br_Number ref \<noteq> br_Number p + 1 \<or> br_ParentHash ref \<noteq> br_Hash p)
            then Some (EvmError (Errorf ''quicknode evm: recent block journal is not contiguous''))
            else validate_journal (Some ref) rs))"

definition validateBlockProgress :: "blockProgress \<Rightarrow> string \<Rightarrow> int \<Rightarrow> evm_error option" where
  "validateBlockProgress p chain maxRecent =
     (if bp_ChainID p \<noteq> chain
      then Some (EvmError (Errorf ''quicknode evm: saved block progress belongs to another chain''))
      else if int (length (bp_Recent p)) > maxRecent
      then Some (EvmError (Errorf ''quicknode evm: recent block journal exceeds its bound''))
      else case validate_journal None (bp_Recent p) of
        Some e \<Rightarrow> Some e
      | None \<Rightarrow>
          if length (bp_Recent p) > 0
          then (if bp_NextBlock p \<noteq> br_Number (last (bp_Recent p)) + 1 \<or>
                   bp_CanonicalParent p \<noteq> br_Hash (last (bp_Recent p))
                then Some (EvmError (Errorf ''quicknode evm: saved block progress does not follow its journal''))
                else None)
          else if bp_NextBlock p > 0 \<and> bp_CanonicalParent p = ''''
          then Some (EvmError (Errorf ''quicknode evm: saved block progress lacks its canonical parent''))
          else None)"

definition trim :: "uint64 \<Rightarrow> uint64 \<Rightarrow> blockReference list \<Rightarrow> blockReference list" where
  "trim head confirmations recent =
     (if head < confirmations then recent
      else dropWhile (\<lambda>r. br_Number r \<le> head - confirmations) recent)"

section \<open>The source\<close>

record ('v, 'w) Blocks =
  bs_Name :: string
  bs_ExpectedChainID :: string
  bs_Confirmations :: uint64
  bs_BackfillFrom :: "uint64 option"
  bs_ReplayBatch :: uint64
  bs_FetchConcurrency :: int
  bs_MaxRecentBlocks :: int
  bs_Handle :: "('v \<Rightarrow> Block \<Rightarrow> 'w \<Rightarrow> 'w \<times> 'v closure option evm) option"
  bs_HTTPURL :: string
  bs_WSSURL :: string
  bs_HTTPSecret :: SecretRef
  bs_WSSSecret :: SecretRef

record ('v, 'w) blocks_env = "('v, 'w) monitor_env" +
  be_encode :: "blockProgress \<Rightarrow> string option"
  be_decode :: "string \<Rightarrow> (blockProgress \<times> bool) option"

definition Blocks_Info :: "('v, 'w) Blocks \<Rightarrow> Info" where
  "Blocks_Info b =
     \<lparr>in_Name = (if bs_Name b = '''' then ''quicknode-blocks'' else bs_Name b),
      in_Description = ''Ordered canonical EVM blocks with immediate WebSocket wakeups''\<rparr>"

definition Blocks_Plan :: "('v, 'w) Blocks \<Rightarrow> planNode" where
  "Blocks_Plan b =
     Continuous True
       [Some (WithSecrets (source_secrets (bs_HTTPURL b) (bs_WSSURL b) (bs_HTTPSecret b) (bs_WSSSecret b)))]"

definition progressSource :: "('v, 'w) Blocks \<Rightarrow> string" where
  "progressSource b =
     (if bs_Name b = '''' then ''quicknode.evm.blocks'' else ''quicknode.evm.blocks.'' @ bs_Name b)"

definition Blocks_validate :: "('v, 'w) Blocks \<Rightarrow> string \<Rightarrow> (uint64 \<times> int) evm" where
  "Blocks_validate b chain =
     on_ok (confirmationDepth chain (bs_Confirmations b)) (\<lambda>confirmations.
       let maxRecent = (if bs_MaxRecentBlocks b = 0 then 256 else bs_MaxRecentBlocks b) in
       if maxRecent < 2 \<or> uint confirmations > maxRecent - 2
       then fails ''quicknode evm: MaxRecentBlocks must exceed confirmations by at least two''
       else if bs_ReplayBatch b > 10000 then fails ''quicknode evm: ReplayBatch cannot exceed 10000''
       else if bs_FetchConcurrency b < 0 \<or> bs_FetchConcurrency b > 256
       then fails ''quicknode evm: FetchConcurrency must be between 0 and 256''
       else Inr (confirmations, maxRecent))"

definition call_handle ::
    "('v, 'w) Blocks \<Rightarrow> ('v, 'w) blocks_env \<Rightarrow> Session \<Rightarrow> Block \<Rightarrow> 'w \<Rightarrow> 'w \<times> 'v closure option evm" where
  "call_handle b M s block w =
     (case Session_State (mv_codec M) s of
        None \<Rightarrow> (w, fails ''panic: canonical state no longer decodes'')
      | Some state \<Rightarrow> (case bs_Handle b of
          None \<Rightarrow> (w, fails ''panic: nil handler'')
        | Some handle \<Rightarrow> handle state block w))"

definition commit_progress ::
    "('v, 'w) Blocks \<Rightarrow> ('v, 'w) blocks_env \<Rightarrow> blockProgress \<Rightarrow> 'v closure option \<Rightarrow> Session \<Rightarrow> 'w \<Rightarrow>
     Session \<times> 'w \<times> evm_error option" where
  "commit_progress b M p update s w =
     session_commit M (with_update update (DoCheckpoint (progressSource b) (be_encode M p) Return)) s w"

definition loadProgress ::
    "('v, 'w) Blocks \<Rightarrow> ('v, 'w) blocks_env \<Rightarrow> int \<Rightarrow> Session \<Rightarrow> 'w \<Rightarrow>
     Session \<times> 'w \<times> (blockProgress \<times> uint64) evm" where
  "loadProgress b M maxRecent s w =
     (case blockNumber (mv_provider M) w of
        (w1, Inl e) \<Rightarrow> (s, w1, Inl e)
      | (w1, Inr head) \<Rightarrow> (case Session_Checkpoint (be_decode M) (progressSource b) s of
          Inl e \<Rightarrow> (s, w1, Inl (EvmError e))
        | Inr (Some p) \<Rightarrow> (case validateBlockProgress p (pv_chain (mv_provider M)) maxRecent of
            Some e \<Rightarrow> (s, w1, Inl e)
          | None \<Rightarrow> (s, w1, Inr (p, head)))
        | Inr None \<Rightarrow>
            let start = (case bs_BackfillFrom b of None \<Rightarrow> head | Some n \<Rightarrow> n) in
            if start > head then (s, w1, fails ''quicknode evm: BackfillFrom is above the current head'')
            else case (if start > 0 then and_then (blockByNumber (mv_provider M) (start - 1) w1)
                                           (\<lambda>parent w. (w, Inr (rh_Hash parent)))
                       else (w1, Inr '''')) of
              (w2, Inl e) \<Rightarrow> (s, w2, Inl e)
            | (w2, Inr parent) \<Rightarrow>
                let p = \<lparr>bp_ChainID = pv_chain (mv_provider M), bp_NextBlock = start,
                         bp_CanonicalParent = parent, bp_Recent = []\<rparr> in
                case commit_progress b M p None s w2 of
                  (s', w3, Some e) \<Rightarrow> (s', w3, Inl e)
                | (s', w3, None) \<Rightarrow> (s', w3, Inr (p, head))))"

section \<open>Rolling back\<close>

definition rolled_back :: "blockProgress \<Rightarrow> blockProgress" where
  "rolled_back p =
     p\<lparr>bp_NextBlock := br_Number (last (bp_Recent p)), bp_CanonicalParent := br_ParentHash (last (bp_Recent p)),
       bp_Recent := butlast (bp_Recent p)\<rparr>"

text \<open>What an iteration ends in: the function returns, or the loop goes on.\<close>

datatype exit = Exit "evm_error option" | Loop

definition rollback_step ::
    "('v, 'w) Blocks \<Rightarrow> ('v, 'w) blocks_env \<Rightarrow> blockProgress \<Rightarrow> Session \<Rightarrow> 'w \<Rightarrow> Session \<times> 'w \<times> exit" where
  "rollback_step b M p s w =
     (case blockByNumber (mv_provider M) (bp_NextBlock p - 1) w of
        (w1, Inl e) \<Rightarrow> (s, w1, Exit (Some e))
      | (w1, Inr canonical) \<Rightarrow>
          if rh_Hash canonical = bp_CanonicalParent p then (s, w1, Exit None)
          else if length (bp_Recent p) = 0
          then (s, w1, Exit (Some (EvmError (Errorf
                 ''quicknode evm: canonical history changed beyond the rollback journal''))))
          else if br_Number (last (bp_Recent p)) + 1 \<noteq> bp_NextBlock p \<or>
                  br_Hash (last (bp_Recent p)) \<noteq> bp_CanonicalParent p
          then (s, w1, Exit (Some (EvmError (Errorf
                 ''quicknode evm: recent block journal cannot roll back current progress''))))
          else case call_handle b M s (removed_block (last (bp_Recent p)) (pv_chain (mv_provider M))) w1 of
            (w2, Inl e) \<Rightarrow> (s, w2, Exit (Some e))
          | (w2, Inr update) \<Rightarrow> (case commit_progress b M (rolled_back p) update s w2 of
              (s', w3, Some e) \<Rightarrow> (s', w3, Exit (Some e))
            | (s', w3, None) \<Rightarrow> (s', w3, Loop)))"

lemma rollback_step_Loop: "rollback_step b M p s w = (s', w', Loop) \<Longrightarrow> bp_Recent p \<noteq> []"
  by (auto simp: rollback_step_def split: prod.splits sum.splits option.splits if_splits)

function rollbackOrphans ::
    "('v, 'w) Blocks \<Rightarrow> ('v, 'w) blocks_env \<Rightarrow> blockProgress \<Rightarrow> Session \<Rightarrow> 'w \<Rightarrow>
     blockProgress \<times> Session \<times> 'w \<times> evm_error option" where
  "rollbackOrphans b M p s w =
     (if bp_NextBlock p > 0 \<and> bp_CanonicalParent p \<noteq> ''''
      then (case rollback_step b M p s w of
          (s', w', Exit e) \<Rightarrow> (p, s', w', e)
        | (s', w', Loop) \<Rightarrow> rollbackOrphans b M (rolled_back p) s' w')
      else (p, s, w, None))"
  by pat_completeness auto
termination
proof (relation "measure (\<lambda>(b, M, p, s, w). length (bp_Recent p))", goal_cases)
  case (2 b M p s w s' aux w' r)
  then have "bp_Recent p \<noteq> []" using rollback_step_Loop by metis
  then show ?case by (simp add: rolled_back_def)
qed simp

declare rollbackOrphans.simps [simp del]

section \<open>Advancing\<close>

record headAnnouncement =
  ha_Number :: uint64
  ha_Hash :: string
  ha_ParentHash :: string

text \<open>\<open>Head\<close> of \<open>subscription.go\<close> has the fields of a block header.\<close>

definition decodeHead :: "rpcBlockHeader \<Rightarrow> headAnnouncement evm" where
  "decodeHead head =
     on_ok (parseUintQuantity (rh_Number head)) (\<lambda>number.
     check (bad (ParseHash (rh_Hash head))) (
     check (bad (ParseHash (rh_ParentHash head))) (
     Inr \<lparr>ha_Number = number, ha_Hash = rh_Hash head, ha_ParentHash = rh_ParentHash head\<rparr>)))"

definition applied :: "uint64 \<Rightarrow> uint64 \<Rightarrow> Block \<Rightarrow> blockProgress \<Rightarrow> blockProgress" where
  "applied target confirmations block p =
     p\<lparr>bp_NextBlock := bk_Number block + 1, bp_CanonicalParent := bk_Hash block,
       bp_Recent := trim target confirmations (bp_Recent p @
         [\<lparr>br_Number = bk_Number block, br_Hash = bk_Hash block, br_ParentHash = bk_ParentHash block\<rparr>])\<rparr>"

definition apply_step ::
    "('v, 'w) Blocks \<Rightarrow> ('v, 'w) blocks_env \<Rightarrow> uint64 \<Rightarrow> uint64 \<Rightarrow> int \<Rightarrow> Block \<Rightarrow> blockProgress \<Rightarrow>
     Session \<Rightarrow> 'w \<Rightarrow> Session \<times> 'w \<times> exit" where
  "apply_step b M target confirmations maxRecent block p s w =
     (case call_handle b M s block w of
        (w1, Inl e) \<Rightarrow> (s, w1, Exit (if e = ErrReceiptUnavailable then None else Some e))
      | (w1, Inr update) \<Rightarrow>
          let p' = applied target confirmations block p in
          if int (length (bp_Recent p')) > maxRecent
          then (s, w1, Exit (Some (EvmError (Errorf ''quicknode evm: recent block journal is full''))))
          else case commit_progress b M p' update s w1 of
            (s', w2, Some e) \<Rightarrow> (s', w2, Exit (Some e))
          | (s', w2, None) \<Rightarrow> (s', w2, Loop))"

fun apply_blocks ::
    "('v, 'w) Blocks \<Rightarrow> ('v, 'w) blocks_env \<Rightarrow> uint64 \<Rightarrow> uint64 \<Rightarrow> int \<Rightarrow> Block list \<Rightarrow> blockProgress \<Rightarrow>
     Session \<Rightarrow> 'w \<Rightarrow> blockProgress \<times> Session \<times> 'w \<times> exit" where
  "apply_blocks b M target confirmations maxRecent [] p s w = (p, s, w, Loop)"
| "apply_blocks b M target confirmations maxRecent (block # blocks) p s w =
     (case apply_step b M target confirmations maxRecent block p s w of
        (s', w', Exit e) \<Rightarrow> (p, s', w', Exit e)
      | (s', w', Loop) \<Rightarrow>
          apply_blocks b M target confirmations maxRecent blocks (applied target confirmations block p) s' w')"

definition batch_end :: "uint64 \<Rightarrow> uint64 \<Rightarrow> uint64 \<Rightarrow> uint64" where
  "batch_end batchSize nextBlock target =
     (if batchSize < target - nextBlock + 1 then nextBlock + batchSize - 1 else target)"

text \<open>The body of the outer loop.\<close>

definition advance_batch ::
    "('v, 'w) Blocks \<Rightarrow> ('v, 'w) blocks_env \<Rightarrow> uint64 \<Rightarrow> uint64 \<Rightarrow> int \<Rightarrow> headAnnouncement option \<Rightarrow>
     blockProgress \<Rightarrow> Session \<Rightarrow> 'w \<Rightarrow> blockProgress \<times> Session \<times> 'w \<times> exit" where
  "advance_batch b M target confirmations maxRecent announcement p s w =
     (let batchSize = (if bs_ReplayBatch b = 0 then 32 else bs_ReplayBatch b);
          concurrency = (if bs_FetchConcurrency b = 0 then 8 else bs_FetchConcurrency b);
          to = batch_end batchSize (bp_NextBlock p) target in
      case blocksByNumber (mv_provider M) (bp_NextBlock p) to concurrency w of
        (w1, Inl e) \<Rightarrow> (p, s, w1, Exit (if e = ErrBlockUnavailable then None else Some e))
      | (w1, Inr blocks) \<Rightarrow>
          if length blocks = 0
          then (p, s, w1, Exit (Some (EvmError (Errorf ''quicknode evm: canonical block range is empty''))))
          else if bp_NextBlock p > 0 \<and> bk_ParentHash (hd blocks) \<noteq> bp_CanonicalParent p
          then (p, s, w1, Exit (Some (EvmError (Errorf ''quicknode evm: canonical range does not extend''))))
          else if (case announcement of None \<Rightarrow> False
                   | Some a \<Rightarrow> to = ha_Number a \<and> bk_Hash (last blocks) \<noteq> ha_Hash a)
          then (p, s, w1, Exit None)
          else apply_blocks b M target confirmations maxRecent blocks p s w1)"

text \<open>
  The outer loop, with fuel: it need not end when \<open>target\<close> is the last \<open>uint64\<close>, where the cursor
  wraps to 0 and is again below the target.
\<close>

fun advance_loop ::
    "nat \<Rightarrow> ('v, 'w) Blocks \<Rightarrow> ('v, 'w) blocks_env \<Rightarrow> uint64 \<Rightarrow> uint64 \<Rightarrow> int \<Rightarrow> headAnnouncement option \<Rightarrow>
     blockProgress \<Rightarrow> Session \<Rightarrow> 'w \<Rightarrow> (blockProgress \<times> Session \<times> 'w \<times> evm_error option) option" where
  "advance_loop fuel b M target confirmations maxRecent announcement p s w =
     (if bp_NextBlock p \<le> target
      then case fuel of
          0 \<Rightarrow> None
        | Suc n \<Rightarrow> (case advance_batch b M target confirmations maxRecent announcement p s w of
            (p', s', w', Exit e) \<Rightarrow> Some (p', s', w', e)
          | (p', s', w', Loop) \<Rightarrow> advance_loop n b M target confirmations maxRecent announcement p' s' w')
      else Some (p, s, w, None))"

declare advance_loop.simps [simp del]

definition knownExtension :: "headAnnouncement option \<Rightarrow> blockProgress \<Rightarrow> bool" where
  "knownExtension announcement p =
     (case announcement of None \<Rightarrow> False
      | Some a \<Rightarrow> ha_Number a = bp_NextBlock p \<and> ha_ParentHash a = bp_CanonicalParent p)"

definition advance ::
    "nat \<Rightarrow> ('v, 'w) Blocks \<Rightarrow> ('v, 'w) blocks_env \<Rightarrow> uint64 \<Rightarrow> uint64 \<Rightarrow> int \<Rightarrow> headAnnouncement option \<Rightarrow>
     blockProgress \<Rightarrow> Session \<Rightarrow> 'w \<Rightarrow> (blockProgress \<times> Session \<times> 'w \<times> evm_error option) option" where
  "advance fuel b M target confirmations maxRecent announcement p s w =
     (case (if knownExtension announcement p then (p, s, w, None) else rollbackOrphans b M p s w) of
        (p', s', w', Some e) \<Rightarrow> Some (p', s', w', Some e)
      | (p', s', w', None) \<Rightarrow> advance_loop fuel b M target confirmations maxRecent announcement p' s' w')"

section \<open>Running\<close>

text \<open>
  \<open>run\<close>: the checks and the startup, then the \<open>select\<close> loop, driven by the list of the events it
  receives.  The result is \<open>None\<close> where the fuel of an \<open>advance\<close> ends, else the session, the world
  and the error the run returned, \<open>Inr\<close> the progress while it goes on.
\<close>

datatype wake =
    ContextDone go_error
  | HeadArrived rpcBlockHeader
  | HeadsClosed
  | SubscriptionErr "evm_error option"
  | TickerFired

definition on_wake ::
    "nat \<Rightarrow> ('v, 'w) Blocks \<Rightarrow> ('v, 'w) blocks_env \<Rightarrow> uint64 \<Rightarrow> int \<Rightarrow> wake \<Rightarrow> blockProgress \<Rightarrow> Session \<Rightarrow> 'w \<Rightarrow>
     (blockProgress \<times> Session \<times> 'w \<times> evm_error option) option" where
  "on_wake fuel b M confirmations maxRecent wake p s w =
     (case wake of
        ContextDone e \<Rightarrow> Some (p, s, w, Some (EvmError e))
      | HeadArrived head \<Rightarrow> (case decodeHead head of
          Inl e \<Rightarrow> Some (p, s, w, Some e)
        | Inr a \<Rightarrow> advance fuel b M (ha_Number a) confirmations maxRecent (Some a) p s w)
      | HeadsClosed \<Rightarrow> Some (p, s, w, Some (EvmError (Errorf ''quicknode evm: head subscription closed'')))
      | SubscriptionErr (Some e) \<Rightarrow> Some (p, s, w, Some e)
      | SubscriptionErr None \<Rightarrow>
          Some (p, s, w, Some (EvmError (Errorf ''quicknode evm: head subscription stopped'')))
      | TickerFired \<Rightarrow> (case blockNumber (mv_provider M) w of
          (w1, Inl e) \<Rightarrow> Some (p, s, w1, Some e)
        | (w1, Inr head) \<Rightarrow> advance fuel b M head confirmations maxRecent None p s w1))"

fun select_loop ::
    "nat \<Rightarrow> ('v, 'w) Blocks \<Rightarrow> ('v, 'w) blocks_env \<Rightarrow> uint64 \<Rightarrow> int \<Rightarrow> wake list \<Rightarrow> blockProgress \<Rightarrow> Session \<Rightarrow> 'w \<Rightarrow>
     (Session \<times> 'w \<times> blockProgress evm) option" where
  "select_loop fuel b M confirmations maxRecent [] p s w = Some (s, w, Inr p)"
| "select_loop fuel b M confirmations maxRecent (wake # wakes) p s w =
     (case on_wake fuel b M confirmations maxRecent wake p s w of
        None \<Rightarrow> None
      | Some (p', s', w', Some e) \<Rightarrow> Some (s', w', Inl e)
      | Some (p', s', w', None) \<Rightarrow> select_loop fuel b M confirmations maxRecent wakes p' s' w')"

text \<open>After the client is open: \<open>subscribe\<close> is \<open>SubscribeHeads\<close>.\<close>

definition run_open ::
    "nat \<Rightarrow> ('v, 'w) Blocks \<Rightarrow> ('v, 'w) blocks_env \<Rightarrow> bool \<Rightarrow> ('w \<Rightarrow> 'w \<times> evm_error option) \<Rightarrow> wake list \<Rightarrow>
     Session \<Rightarrow> 'w \<Rightarrow> (Session \<times> 'w \<times> blockProgress evm) option" where
  "run_open fuel b M defaults subscribe wakes s w =
     (let chain = pv_chain (mv_provider M); expected = expected_chain (bs_ExpectedChainID b) defaults in
      if expected \<noteq> '''' \<and> chain \<noteq> expected then Some (s, w, fails ''quicknode evm: expected chain'')
      else case Blocks_validate b chain of
        Inl e \<Rightarrow> Some (s, w, Inl e)
      | Inr (confirmations, maxRecent) \<Rightarrow> (case subscribe w of
          (w1, Some e) \<Rightarrow> Some (s, w1, Inl e)
        | (w1, None) \<Rightarrow> (case loadProgress b M maxRecent s w1 of
            (s', w2, Inl e) \<Rightarrow> Some (s', w2, Inl e)
          | (s', w2, Inr (p, head)) \<Rightarrow> (case advance fuel b M head confirmations maxRecent None p s' w2 of
              None \<Rightarrow> None
            | Some (p', s'', w3, Some e) \<Rightarrow> Some (s'', w3, Inl e)
            | Some (p', s'', w3, None) \<Rightarrow> select_loop fuel b M confirmations maxRecent wakes p' s'' w3))))"

definition Blocks_run ::
    "nat \<Rightarrow> ('v, 'w) Blocks \<Rightarrow> ('v, 'w) blocks_env \<Rightarrow>
     (string \<Rightarrow> rpc_param list \<Rightarrow> 'w \<Rightarrow> 'w \<times> string evm) \<Rightarrow> ('w \<Rightarrow> 'w \<times> evm_error option) \<Rightarrow> wake list \<Rightarrow>
     Session \<Rightarrow> 'w \<Rightarrow> (Session \<times> 'w \<times> blockProgress evm) option" where
  "Blocks_run fuel b M ws_call subscribe wakes s w =
     (case bs_Handle b of
        None \<Rightarrow> Some (s, w, fails ''quicknode evm: Blocks.Handle is required'')
      | Some _ \<Rightarrow> (case endpoints (bs_HTTPURL b) (bs_WSSURL b) (bs_HTTPSecret b) (bs_WSSSecret b) s of
          Inl e \<Rightarrow> Some (s, w, Inl e)
        | Inr (httpURL, wssURL, defaults) \<Rightarrow> (case OpenClient (mv_provider M) ws_call httpURL wssURL w of
            (w1, Inl e) \<Rightarrow> Some (s, w1, Inl e)
          | (w1, Inr P) \<Rightarrow> run_open fuel b (M\<lparr>mv_provider := P\<rparr>) defaults subscribe wakes s w1)))"

end
