(* ===== verification/SessionCommits.thy ===== *)
theory SessionCommits
  imports EvmClient
begin

text \<open>
  What a commit of a catalog source does to its session: on an error nothing, on success the
  state is what the closure left and the checkpoints it wrote are the session's.
\<close>

section \<open>Commits of a lawful environment\<close>

text \<open>
  The committer acknowledges the state it was given; the codec reads back what it wrote, and
  can write whatever it read.
\<close>

definition lawful :: "('v, 'w, 'e) session_env_scheme \<Rightarrow> bool" where
  "lawful M \<longleftrightarrow>
     (\<forall>t w w' raw. mv_commit M t w = (w', Inr raw) \<longrightarrow> raw = tc_NextState t) \<and>
     (\<forall>v raw. encodeState (mv_codec M) v = Inr raw \<longrightarrow> decodeState (mv_codec M) raw = Inr v) \<and>
     (\<forall>raw v. decodeState (mv_codec M) raw = Inr v \<longrightarrow> (\<exists>r. encodeState (mv_codec M) v = Inr r))"

lemma lawful_ack: "lawful M \<Longrightarrow> mv_commit M t w = (w', Inr raw) \<Longrightarrow> raw = tc_NextState t"
  unfolding lawful_def by blast

lemma lawful_read: "lawful M \<Longrightarrow> encodeState (mv_codec M) v = Inr raw \<Longrightarrow> decodeState (mv_codec M) raw = Inr v"
  unfolding lawful_def by blast

lemma lawful_write: "lawful M \<Longrightarrow> decodeState (mv_codec M) raw = Inr v \<Longrightarrow> encodeState (mv_codec M) v \<noteq> Inl e"
  unfolding lawful_def by (metis sum.distinct(1))

lemma run_then_do:
  "run_closure clone (then_do f g) tx =
     (case run_closure clone f tx of (tx', None) \<Rightarrow> run_closure clone g tx' | (tx', Some e) \<Rightarrow> (tx', Some e))"
  by (induction f arbitrary: tx) (simp_all split: option.splits)

definition start_tx :: "'v \<Rightarrow> Session \<Rightarrow> 'v Tx" where
  "start_tx v s = \<lparr>tx_State = v, tx_events = [], tx_checkpoints = [], tx_maxEvents = ss_maxEvents s\<rparr>"

lemma session_commit_error:
  assumes "lawful M" and "session_commit M f s w = (s', w', Some e)"
  shows "s' = s"
proof -
  have run: "Session_Commit (mv_codec M) (mv_clone M) (mv_commit M) (mv_ctx_before M w) (mv_ctx_after M w) (Some f) s w =
      (s', w', Some err) \<Longrightarrow> s' = s" for err
    using lawful_write [OF assms(1)]
    by (auto simp: Session_Commit_def Let_def split: option.splits sum.splits prod.splits if_splits)
  show ?thesis using assms(2) run by (auto simp: session_commit_def split: prod.splits)
qed

lemma session_commit_success:
  assumes law: "lawful M" and run: "session_commit M f s w = (s', w', None)"
  obtains v tx where "decodeState (mv_codec M) (ss_state s) = Inr v"
    "run_closure (mv_clone M) f (start_tx v s) = (tx, None)"
    "decodeState (mv_codec M) (ss_state s') = Inr (tx_State tx)"
    "ss_checkpoints s' = put_entries (changed_checkpoints s (tx_checkpoints tx)) (ss_checkpoints s)"
proof -
  have run: "Session_Commit (mv_codec M) (mv_clone M) (mv_commit M) (mv_ctx_before M w) (mv_ctx_after M w) (Some f) s w =
      (s', w', None)"
    using run by (auto simp: session_commit_def split: prod.splits)
  then obtain v where v: "decodeState (mv_codec M) (ss_state s) = Inr v"
    by (auto simp: Session_Commit_def split: option.splits sum.splits)
  obtain tx e where tx: "run_closure (mv_clone M) f (start_tx v s) = (tx, e)" by fastforce
  have e: "e = None" using run v tx by (auto simp: Session_Commit_def start_tx_def split: option.splits)
  obtain n where n: "encodeState (mv_codec M) (tx_State tx) = Inr n"
    using run v tx e by (auto simp: Session_Commit_def start_tx_def split: option.splits sum.splits)
  have dec: "decodeState (mv_codec M) n = Inr (tx_State tx)" by (rule lawful_read [OF law n])
  show thesis
  proof (cases "ss_state s = n \<and> length (tx_events tx) = 0 \<and> length (changed_checkpoints s (tx_checkpoints tx)) = 0")
    case True
    then have "s' = s" using run v tx e n by (auto simp: Session_Commit_def start_tx_def split: option.splits)
    then show thesis using that [OF v] tx e True dec by simp
  next
    case False
    let ?t = "\<lparr>tc_BaseState = ss_state s, tc_NextState = n, tc_Events = tx_events tx,
      tc_Checkpoints = changed_checkpoints s (tx_checkpoints tx)\<rparr>"
    obtain c' r where c: "mv_commit M ?t w = (c', r)" by fastforce
    obtain acked where "r = Inr acked"
      using run v tx e n False c
      by (cases r) (auto simp: Session_Commit_def start_tx_def Let_def split: option.splits)
    then have c: "mv_commit M ?t w = (c', Inr n)" using c lawful_ack [OF law, of ?t w c' acked] by simp
    have "s' = s\<lparr>ss_state := n, ss_checkpoints := put_entries (changed_checkpoints s (tx_checkpoints tx)) (ss_checkpoints s)\<rparr>"
      using run v tx e n False c dec
      by (auto simp: Session_Commit_def start_tx_def Let_def split: option.splits)
    then show thesis using that [OF v] tx e dec by simp
  qed
qed

lemma map_of_put_entries:
  "entries_ok m \<Longrightarrow> distinct (map fst new) \<Longrightarrow>
    map_of (put_entries new m) k = (case map_of new k of Some v \<Rightarrow> Some v | None \<Rightarrow> map_of m k)"
proof (induction new m rule: put_entries.induct)
  case (2 k' v' new m)
  have none: "map_of new k' = None" using 2(3) by (simp add: map_of_eq_None_iff)
  from 2 put_entry_ok [OF 2(2), of k' v'] show ?case
    by (auto simp: map_of_put_entry none split: option.splits)
qed simp

lemma changed_checkpoints_covers:
  assumes ok: "entries_ok (ss_checkpoints s)" "entries_ok cps" and cp: "map_of cps k = Some raw" and raw: "raw \<noteq> ''''"
  shows "map_of (put_entries (changed_checkpoints s cps) (ss_checkpoints s)) k = Some raw"
proof -
  have dist: "distinct (map fst (changed_checkpoints s cps))"
    using ok(2) by (auto simp: entries_ok_def changed_checkpoints_def intro: distinct_map_filter)
  have "distinct (map fst cps)" using ok(2) by (simp add: entries_ok_def)
  then have mem: "(k, r) \<in> set cps \<longleftrightarrow> r = raw" for r
    using map_of_SomeD [OF cp] by (auto dest: eq_key_imp_eq_value)
  show ?thesis
  proof (cases "map_of (ss_checkpoints s) k = Some raw")
    case True
    then have "k \<notin> fst ` set (changed_checkpoints s cps)"
      by (auto simp: changed_checkpoints_def dest: mem [THEN iffD1])
    then have "map_of (changed_checkpoints s cps) k = None" by (simp add: map_of_eq_None_iff)
    then show ?thesis using True by (simp add: map_of_put_entries [OF ok(1) dist])
  next
    case False
    then have "(k, raw) \<in> set (changed_checkpoints s cps)"
      using mem [THEN iffD2, OF refl] raw by (auto simp: changed_checkpoints_def split: option.splits)
    then show ?thesis using dist by (simp add: map_of_put_entries [OF ok(1) dist])
  qed
qed

lemma run_with_update:
  assumes "run_closure clone (with_update u rest) tx = (tx2, None)"
  shows "\<exists>tx1. run_closure clone (with_update u (Return None)) tx = (tx1, None) \<and> run_closure clone rest tx1 = (tx2, None)"
  using assms by (cases u) (auto simp: with_update_def run_then_do split: prod.splits option.splits)

lemma start_tx_ok: "run_closure clone f (start_tx v s) = (tx, e) \<Longrightarrow> tx_ok tx"
proof -
  assume run: "run_closure clone f (start_tx v s) = (tx, e)"
  have "tx_ok (start_tx v s)" by (simp add: tx_ok_def start_tx_def entries_ok_def)
  from run_closure_ok [OF this, of clone f] show ?thesis by (simp add: run)
qed

lemma changed_checkpoints_other:
  assumes ok: "entries_ok (ss_checkpoints s)" "entries_ok cps" and cp: "map_of cps k = None"
  shows "map_of (put_entries (changed_checkpoints s cps) (ss_checkpoints s)) k = map_of (ss_checkpoints s) k"
proof -
  have dist: "distinct (map fst (changed_checkpoints s cps))"
    using ok(2) by (auto simp: entries_ok_def changed_checkpoints_def intro: distinct_map_filter)
  have "k \<notin> fst ` set (changed_checkpoints s cps)"
    using cp by (auto simp: changed_checkpoints_def map_of_eq_None_iff image_iff)
  then have "map_of (changed_checkpoints s cps) k = None" by (simp add: map_of_eq_None_iff)
  then show ?thesis by (simp add: map_of_put_entries [OF ok(1) dist])
qed

section \<open>A state of one bit\<close>

text \<open>The codec and the update of the samples.\<close>

definition bit_codec :: "bool state_codec" where
  "bit_codec = \<lparr>sc_zero = False,
     sc_decode = (\<lambda>raw. if raw = ''true'' then Some (True, True) else if raw = ''false'' then Some (False, True) else None),
     sc_encode = (\<lambda>v. Some (if v then ''true'' else ''false''))\<rparr>"

definition flip :: "bool closure option" where
  "flip = Some (GetState (\<lambda>v. SetState (\<not> v) (Return None)))"

lemma bit_states [simp]: "decodeState bit_codec ''true'' = Inr True" "decodeState bit_codec ''false'' = Inr False"
  "encodeState bit_codec v = Inr (if v then ''true'' else ''false'')"
  by (simp_all add: decodeState_def encodeState_def bit_codec_def TrimSpace_def trim_segs_def runes_ascii byte_def
    is_space_def)

end
