(* ===== verification/BlocksTheorems.thy ===== *)
theory BlocksTheorems
  imports EvmBlocks SessionCommits
begin

text \<open>
  What \<open>advance\<close> of \<open>EvmBlocks\<close> guarantees.  The relation \<open>moves\<close> is the abstract machine: a stack
  of blocks from which the tip is removed and onto which the next canonical block is put, one
  commit each.  \<open>advance\<close> refines it; the invariants and the exactly-once theorem are rule
  inductions over it.
\<close>

section \<open>Commits of progress\<close>

text \<open>The session's checkpoint is the progress; JSON never encodes to nothing.\<close>

definition saved :: "('v, 'w) Blocks \<Rightarrow> ('v, 'w) blocks_env \<Rightarrow> blockProgress \<Rightarrow> Session \<Rightarrow> bool" where
  "saved b M p s \<longleftrightarrow> entries_ok (ss_checkpoints s) \<and>
     (\<exists>raw. be_encode M p = Some raw \<and> map_of (ss_checkpoints s) (progressSource b) = Some raw)"

lemma progressSource_nonempty [simp]: "progressSource b \<noteq> ''''"
  by (simp add: progressSource_def)

lemma commit_progress_success:
  assumes law: "lawful M" and json: "\<forall>p. be_encode M p \<noteq> Some ''''" and ok: "entries_ok (ss_checkpoints s)"
    and run: "commit_progress b M p u s w = (s', w', None)"
  obtains v tx where "decodeState (mv_codec M) (ss_state s) = Inr v"
    "run_closure (mv_clone M) (with_update u (Return None)) (start_tx v s) = (tx, None)"
    "decodeState (mv_codec M) (ss_state s') = Inr (tx_State tx)" "saved b M p s'"
proof -
  let ?f = "with_update u (DoCheckpoint (progressSource b) (be_encode M p) Return)"
  have run: "session_commit M ?f s w = (s', w', None)" using run by (simp add: commit_progress_def)
  from session_commit_success [OF law run] obtain v tx where tx:
    "decodeState (mv_codec M) (ss_state s) = Inr v" "run_closure (mv_clone M) ?f (start_tx v s) = (tx, None)"
    "decodeState (mv_codec M) (ss_state s') = Inr (tx_State tx)"
    "ss_checkpoints s' = put_entries (changed_checkpoints s (tx_checkpoints tx)) (ss_checkpoints s)"
    by blast
  obtain tx1 e1 where tx1: "run_closure (mv_clone M) (with_update u (Return None)) (start_tx v s) = (tx1, e1)"
    by fastforce
  have ok1: "tx_ok tx1"
  proof -
    have "tx_ok (start_tx v s)" by (simp add: tx_ok_def start_tx_def entries_ok_def)
    from run_closure_ok [OF this, of "mv_clone M" "with_update u (Return None)"] show ?thesis by (simp add: tx1)
  qed
  have "run_closure (mv_clone M) ?f (start_tx v s) =
      (case e1 of None \<Rightarrow> run_closure (mv_clone M) (DoCheckpoint (progressSource b) (be_encode M p) Return) tx1
       | Some e \<Rightarrow> (tx1, Some e))"
    using tx1 by (cases u) (auto simp: with_update_def run_then_do split: prod.splits option.splits)
  then obtain raw where raw: "e1 = None" "be_encode M p = Some raw"
    "tx = tx1\<lparr>tx_checkpoints := put_entry (progressSource b) raw (tx_checkpoints tx1)\<rparr>"
    using tx(2) by (auto simp: Tx_Checkpoint_def split: option.splits)
  have cps: "entries_ok (tx_checkpoints tx)" "map_of (tx_checkpoints tx) (progressSource b) = Some raw"
    using ok1 by (simp_all add: raw(3) tx_ok_def put_entry_ok map_of_put_entry)
  have "map_of (ss_checkpoints s') (progressSource b) = Some raw"
    using changed_checkpoints_covers [OF ok cps] json raw(2) by (auto simp: tx(4))
  then have "saved b M p s'" using raw(2) put_entries_ok [OF ok] by (simp add: saved_def tx(4))
  then show thesis using that [OF tx(1)] tx1 raw tx(3) by simp
qed

section \<open>The abstract machine\<close>

definition commits ::
    "('v, 'w) Blocks \<Rightarrow> ('v, 'w) blocks_env \<Rightarrow> Block \<Rightarrow> blockProgress \<Rightarrow> Session \<Rightarrow> Session \<Rightarrow> bool" where
  "commits b M block p s s' \<longleftrightarrow>
     (\<exists>w u w1 w2. call_handle b M s block w = (w1, Inr u) \<and> commit_progress b M p u s w1 = (s', w2, None))"

inductive moves ::
    "('v, 'w) Blocks \<Rightarrow> ('v, 'w) blocks_env \<Rightarrow> uint64 \<Rightarrow> uint64 \<Rightarrow> int \<Rightarrow>
     blockProgress \<times> Session \<Rightarrow> Block list \<Rightarrow> blockProgress \<times> Session \<Rightarrow> bool"
  for b M target confirmations maxRecent
where
  rest: "moves b M target confirmations maxRecent q [] q"
| push: "genuine (mv_provider M) block \<Longrightarrow> bk_Number block = bp_NextBlock p \<Longrightarrow> bp_NextBlock p \<le> target \<Longrightarrow>
    (bp_NextBlock p > 0 \<longrightarrow> bk_ParentHash block = bp_CanonicalParent p) \<Longrightarrow>
    int (length (bp_Recent (applied target confirmations block p))) \<le> maxRecent \<Longrightarrow>
    commits b M block (applied target confirmations block p) s s' \<Longrightarrow>
    moves b M target confirmations maxRecent (applied target confirmations block p, s') bs q \<Longrightarrow>
    moves b M target confirmations maxRecent (p, s) (block # bs) q"
| pop: "bp_Recent p \<noteq> [] \<Longrightarrow> br_Number (last (bp_Recent p)) + 1 = bp_NextBlock p \<Longrightarrow>
    br_Hash (last (bp_Recent p)) = bp_CanonicalParent p \<Longrightarrow>
    block = removed_block (last (bp_Recent p)) (pv_chain (mv_provider M)) \<Longrightarrow>
    commits b M block (rolled_back p) s s' \<Longrightarrow>
    moves b M target confirmations maxRecent (rolled_back p, s') bs q \<Longrightarrow>
    moves b M target confirmations maxRecent (p, s) (block # bs) q"

lemma moves_trans:
  "moves b M t c m x bs y \<Longrightarrow> moves b M t c m y cs z \<Longrightarrow> moves b M t c m x (bs @ cs) z"
  by (induction rule: moves.induct) (auto intro: moves.intros)

lemma commit_progress_error:
  "lawful M \<Longrightarrow> commit_progress b M p u s w = (s', w', Some e) \<Longrightarrow> s' = s"
  unfolding commit_progress_def by (rule session_commit_error)

lemma rollback_step_cases:
  assumes "lawful M" and "rollback_step b M p s w = (s', w', r)"
  shows "case r of Exit e \<Rightarrow> s' = s
    | Loop \<Rightarrow> bp_Recent p \<noteq> [] \<and> br_Number (last (bp_Recent p)) + 1 = bp_NextBlock p \<and>
        br_Hash (last (bp_Recent p)) = bp_CanonicalParent p \<and>
        commits b M (removed_block (last (bp_Recent p)) (pv_chain (mv_provider M))) (rolled_back p) s s'"
  using assms(2) commit_progress_error [OF assms(1)]
  by (fastforce simp: rollback_step_def commits_def split: prod.splits sum.splits option.splits if_splits)

lemma rollback_moves:
  "lawful M \<Longrightarrow> rollbackOrphans b M p s w = (p', s', w', e) \<Longrightarrow>
    \<exists>rs. moves b M t c m (p, s) rs (p', s') \<and> (\<forall>x\<in>set rs. bk_Removed x)"
proof (induction b M p s w rule: rollbackOrphans.induct)
  case (1 b M p s w)
  obtain s1 w1 r where step: "rollback_step b M p s w = (s1, w1, r)" by (metis prod_cases3)
  note cases = rollback_step_cases [OF 1(2) step]
  have stay: ?case if "p' = p" "s' = s" using that by (intro exI [of _ "[]"]) (simp add: moves.rest)
  show ?case
  proof (cases "bp_NextBlock p > 0 \<and> bp_CanonicalParent p \<noteq> ''''")
    case False
    then have "p' = p \<and> s' = s" using 1(3) by (subst (asm) rollbackOrphans.simps) auto
    then show ?thesis by (elim conjE) (rule stay)
  next
    case True
    show ?thesis
    proof (cases r)
      case (Exit x)
      then have "p' = p \<and> s' = s" using 1(3) True step cases by (subst (asm) rollbackOrphans.simps) auto
      then show ?thesis by (elim conjE) (rule stay)
    next
      case Loop
      then have "rollbackOrphans b M (rolled_back p) s1 w1 = (p', s', w', e)"
        using 1(3) True step by (subst (asm) rollbackOrphans.simps) simp
      then obtain rs where "moves b M t c m (rolled_back p, s1) rs (p', s')" "\<forall>x\<in>set rs. bk_Removed x"
        using 1(1) [OF True step [symmetric] refl Loop 1(2)] step Loop by blast
      then show ?thesis using cases Loop
        by (intro exI [of _ "removed_block (last (bp_Recent p)) (pv_chain (mv_provider M)) # rs"])
          (auto intro!: moves.pop simp: removed_block_def)
    qed
  qed
qed

lemma apply_step_cases:
  assumes "lawful M" and "apply_step b M t c m block p s w = (s', w', r)"
  shows "case r of Exit e \<Rightarrow> s' = s
    | Loop \<Rightarrow> int (length (bp_Recent (applied t c block p))) \<le> m \<and> commits b M block (applied t c block p) s s'"
  using assms(2) commit_progress_error [OF assms(1)]
  by (fastforce simp: apply_step_def commits_def Let_def split: prod.splits sum.splits option.splits if_splits)

text \<open>A canonical range that continues the progress.\<close>

fun extends :: "'w provider \<Rightarrow> uint64 \<Rightarrow> uint64 \<Rightarrow> string \<Rightarrow> Block list \<Rightarrow> bool" where
  "extends P target next_block parent [] \<longleftrightarrow> True"
| "extends P target next_block parent (block # blocks) \<longleftrightarrow>
     genuine P block \<and> bk_Number block = next_block \<and> next_block \<le> target \<and>
     (next_block > 0 \<longrightarrow> bk_ParentHash block = parent) \<and>
     extends P target (next_block + 1) (bk_Hash block) blocks"

lemma extends_range:
  "map bk_Number blocks = map (\<lambda>i. n + of_nat i) [0..<k] \<Longrightarrow> (\<forall>i<k. n + of_nat i \<le> target) \<Longrightarrow>
    (\<forall>x\<in>set blocks. genuine P x) \<Longrightarrow> chained blocks \<Longrightarrow> (n > 0 \<Longrightarrow> blocks \<noteq> [] \<Longrightarrow> bk_ParentHash (hd blocks) = parent) \<Longrightarrow>
    extends P target n parent blocks"
proof (induction blocks arbitrary: n k parent)
  case (Cons x xs)
  then obtain j where k: "k = Suc j" by (cases k) auto
  have upt: "[0..<Suc j] = 0 # map Suc [0..<j]" by (simp add: map_Suc_upt upt_conv_Cons del: upt_Suc)
  have xs: "bk_Number x = n" "map bk_Number xs = map (\<lambda>i. (n + 1) + of_nat i) [0..<j]"
    using Cons.prems(1) by (simp_all add: k upt comp_def add.commute add.left_commute del: upt_Suc)
  have bound: "n \<le> target" "\<forall>i<j. (n + 1) + of_nat i \<le> target"
  proof -
    show "n \<le> target" using Cons.prems(2) [rule_format, of 0] by (simp add: k)
    show "\<forall>i<j. (n + 1) + of_nat i \<le> target"
    proof (intro allI impI)
      fix i
      assume "i < j"
      then show "(n + 1) + of_nat i \<le> target" using Cons.prems(2) [rule_format, of "Suc i"] by (simp add: k add.assoc)
    qed
  qed
  have "chained xs" "xs \<noteq> [] \<Longrightarrow> bk_ParentHash (hd xs) = bk_Hash x"
    using Cons.prems(4) by (cases xs; simp)+
  then show ?case using Cons.IH [OF xs(2) bound(2)] Cons.prems(3,5) xs(1) bound(1) by simp
qed simp

lemma apply_blocks_moves:
  "lawful M \<Longrightarrow> extends (mv_provider M) t (bp_NextBlock p) (bp_CanonicalParent p) blocks \<Longrightarrow>
    apply_blocks b M t c m blocks p s w = (p', s', w', r) \<Longrightarrow>
    \<exists>as. moves b M t c m (p, s) as (p', s') \<and> (\<forall>x\<in>set as. \<not> bk_Removed x) \<and>
      (r = Loop \<longrightarrow> bp_NextBlock p' = bp_NextBlock p + of_nat (length blocks))"
proof (induction blocks arbitrary: p s w)
  case Nil
  then show ?case by (intro exI [of _ "[]"]) (simp add: moves.rest)
next
  case (Cons x xs)
  obtain s1 w1 q where step: "apply_step b M t c m x p s w = (s1, w1, q)" by (metis prod_cases3)
  note cases = apply_step_cases [OF Cons.prems(1) step]
  show ?case
  proof (cases q)
    case (Exit e)
    then have "p' = p \<and> s' = s \<and> r = Exit e" using Cons.prems(3) step cases by auto
    then show ?thesis by (intro exI [of _ "[]"]) (simp add: moves.rest)
  next
    case Loop
    let ?p1 = "applied t c x p"
    have run: "apply_blocks b M t c m xs ?p1 s1 w1 = (p', s', w', r)" using Cons.prems(3) step Loop by simp
    have next_p: "bp_NextBlock ?p1 = bk_Number x + 1" "bp_CanonicalParent ?p1 = bk_Hash x"
      by (simp_all add: applied_def)
    then have "extends (mv_provider M) t (bp_NextBlock ?p1) (bp_CanonicalParent ?p1) xs" using Cons.prems(2) by simp
    from Cons.IH [OF Cons.prems(1) this run] obtain as where as: "moves b M t c m (?p1, s1) as (p', s')"
      "\<forall>x\<in>set as. \<not> bk_Removed x" "r = Loop \<longrightarrow> bp_NextBlock p' = bp_NextBlock ?p1 + of_nat (length xs)"
      by blast
    have "moves b M t c m (p, s) (x # as) (p', s')"
      by (rule moves.push [OF _ _ _ _ _ _ as(1)]) (use Cons.prems(2) cases Loop in auto)
    moreover have "\<not> bk_Removed x" using Cons.prems(2) by (simp add: genuine_def)
    moreover have "r = Loop \<longrightarrow> bp_NextBlock p' = bp_NextBlock p + of_nat (length (x # xs))"
      using as(3) Cons.prems(2) next_p by simp
    ultimately show ?thesis using as(2) by (intro exI [of _ "x # as"]) simp
  qed
qed


lemma word_offset_le: "n \<le> to \<Longrightarrow> i < unat (to - n + 1) \<Longrightarrow> n + of_nat i \<le> (to :: uint64)"
proof -
  assume n: "n \<le> to" and i: "i < unat (to - n + 1)"
  have "unat (to - n + 1) \<le> unat (to - n) + 1"
    by (simp add: unat_word_ariths(1) mod_less_eq_dividend)
  then have "i \<le> unat (to - n)" using i by simp
  then have "of_nat i \<le> to - n"
    by (simp add: word_le_nat_alt unat_of_nat take_bit_eq_mod)
  with n show "n + of_nat i \<le> to" by uint_arith
qed

lemma batch_end_bounds: "batch > 0 \<Longrightarrow> n \<le> target \<Longrightarrow> n \<le> batch_end batch n target \<and> batch_end batch n target \<le> target"
  unfolding batch_end_def by (simp split: if_splits) uint_arith

definition batch_size :: "('v, 'w) Blocks \<Rightarrow> uint64" where
  "batch_size b = (if bs_ReplayBatch b = 0 then 32 else bs_ReplayBatch b)"

lemma batch_size_pos: "batch_size b > 0"
  by (simp add: batch_size_def word_gt_0)

lemma advance_batch_moves:
  assumes law: "lawful M" and n: "bp_NextBlock p \<le> target"
    and run: "advance_batch b M target c m announcement p s w = (p', s', w', r)"
  shows "\<exists>as. moves b M target c m (p, s) as (p', s') \<and> (\<forall>x\<in>set as. \<not> bk_Removed x) \<and>
    (r = Loop \<longrightarrow> bp_NextBlock p' = batch_end (batch_size b) (bp_NextBlock p) target + 1)"
proof -
  let ?to = "batch_end (batch_size b) (bp_NextBlock p) target"
  let ?conc = "if bs_FetchConcurrency b = 0 then 8 else bs_FetchConcurrency b"
  obtain w1 q where q: "blocksByNumber (mv_provider M) (bp_NextBlock p) ?to ?conc w = (w1, q)" by fastforce
  note simps = advance_batch_def Let_def batch_size_def [symmetric] q
  have stay: ?thesis if "p' = p" "s' = s" "r \<noteq> Loop"
    using that by (intro exI [of _ "[]"]) (simp add: moves.rest)
  show ?thesis
  proof (cases "\<exists>blocks. q = Inr blocks \<and> blocks \<noteq> [] \<and>
      (bp_NextBlock p > 0 \<longrightarrow> bk_ParentHash (hd blocks) = bp_CanonicalParent p) \<and>
      apply_blocks b M target c m blocks p s w1 = (p', s', w', r)")
    case False
    then have "p' = p \<and> s' = s \<and> r \<noteq> Loop" using run by (auto simp: simps split: sum.splits if_splits)
    then show ?thesis by (elim conjE) (rule stay)
  next
    case True
    then obtain blocks where blocks: "q = Inr blocks" "blocks \<noteq> []"
      "bp_NextBlock p > 0 \<longrightarrow> bk_ParentHash (hd blocks) = bp_CanonicalParent p"
      "apply_blocks b M target c m blocks p s w1 = (p', s', w', r)" by blast
    note range = blocksByNumber_Inr [OF q [unfolded blocks(1)]]
    have to: "?to \<le> target" using batch_end_bounds [OF batch_size_pos n] by blast
    have len: "length blocks = unat (?to - bp_NextBlock p + 1)" using arg_cong [OF range(2), of length] by simp
    have "extends (mv_provider M) target (bp_NextBlock p) (bp_CanonicalParent p) blocks"
      by (rule extends_range [OF range(2) _ range(3,4)])
        (use word_offset_le [OF range(1)] to order_trans blocks(3) in blast)+
    from apply_blocks_moves [OF law this blocks(4)] show ?thesis by (auto simp: len)
  qed
qed

lemma advance_loop_unfold:
  "target < bp_NextBlock p \<Longrightarrow> advance_loop fuel b M target c m announcement p s w = Some (p, s, w, None)"
  "bp_NextBlock p \<le> target \<Longrightarrow> advance_loop 0 b M target c m announcement p s w = None"
  "bp_NextBlock p \<le> target \<Longrightarrow> advance_loop (Suc n) b M target c m announcement p s w =
    (case advance_batch b M target c m announcement p s w of
       (p', s', w', Exit e) \<Rightarrow> Some (p', s', w', e)
     | (p', s', w', Loop) \<Rightarrow> advance_loop n b M target c m announcement p' s' w')"
  by (subst advance_loop.simps; simp add: linorder_not_le [symmetric])+
lemma advance_loop_moves:
  "lawful M \<Longrightarrow> advance_loop fuel b M target c m announcement p s w = Some (p', s', w', e) \<Longrightarrow>
    \<exists>as. moves b M target c m (p, s) as (p', s') \<and> (\<forall>x\<in>set as. \<not> bk_Removed x)"
proof (induction fuel arbitrary: p s w)
  case 0
  then have "p' = p" "s' = s" by (cases "bp_NextBlock p \<le> target"; simp add: advance_loop_unfold)+
  then show ?case by (intro exI [of _ "[]"]) (simp add: moves.rest)
next
  case (Suc n)
  obtain p1 s1 w1 r where step: "advance_batch b M target c m announcement p s w = (p1, s1, w1, r)"
    by (metis prod_cases4)
  show ?case
  proof (cases "bp_NextBlock p \<le> target")
    case False
    then have "p' = p" "s' = s" using Suc.prems(2) by (simp_all add: advance_loop_unfold)
    then show ?thesis by (intro exI [of _ "[]"]) (simp add: moves.rest)
  next
    case True
    obtain as where as: "moves b M target c m (p, s) as (p1, s1)" "\<forall>x\<in>set as. \<not> bk_Removed x"
      using advance_batch_moves [OF Suc.prems(1) True step] by blast
    show ?thesis
    proof (cases r)
      case (Exit x)
      then have "p' = p1" "s' = s1" using Suc.prems(2) True step by (simp_all add: advance_loop_unfold)
      then show ?thesis using as by blast
    next
      case Loop
      then have run: "advance_loop n b M target c m announcement p1 s1 w1 = Some (p', s', w', e)"
        using Suc.prems(2) True step by (simp add: advance_loop_unfold)
      from Suc.IH [OF Suc.prems(1) run] obtain bs
        where bs: "moves b M target c m (p1, s1) bs (p', s')" "\<forall>x\<in>set bs. \<not> bk_Removed x"
        by (elim exE conjE)
      show ?thesis
        using moves_trans [OF as(1) bs(1)] as(2) bs(2) by (intro exI [of _ "as @ bs"]) auto
    qed
  qed
qed

text \<open>The refinement: orphans removed, then canonical blocks applied.\<close>

lemma advance_moves:
  assumes law: "lawful M" and run: "advance fuel b M target c m announcement p s w = Some (p', s', w', e)"
  shows "\<exists>rs as. moves b M target c m (p, s) (rs @ as) (p', s') \<and> (\<forall>x\<in>set rs. bk_Removed x) \<and>
    (\<forall>x\<in>set as. \<not> bk_Removed x)"
proof -
  obtain p1 s1 w1 e1 where first: "(if knownExtension announcement p then (p, s, w, None) else rollbackOrphans b M p s w) =
      (p1, s1, w1, e1)" by (metis prod_cases4)
  have "\<exists>rs. moves b M target c m (p, s) rs (p1, s1) \<and> (\<forall>x\<in>set rs. bk_Removed x)"
  proof (cases "knownExtension announcement p")
    case True
    then show ?thesis using first by (intro exI [of _ "[]"]) (simp add: moves.rest)
  next
    case False
    then show ?thesis using first rollback_moves [OF law] by simp
  qed
  then obtain rs where rs: "moves b M target c m (p, s) rs (p1, s1)" "\<forall>x\<in>set rs. bk_Removed x" by blast
  show ?thesis
  proof (cases e1)
    case (Some x)
    then have "p' = p1" "s' = s1" using run first by (simp_all add: advance_def)
    then show ?thesis using rs by (intro exI [of _ rs] exI [of _ "[]"]) simp
  next
    case None
    then have "advance_loop fuel b M target c m announcement p1 s1 w1 = Some (p', s', w', e)"
      using run first by (simp add: advance_def)
    from advance_loop_moves [OF law this] obtain as where "moves b M target c m (p1, s1) as (p', s')"
      "\<forall>x\<in>set as. \<not> bk_Removed x" by blast
    then show ?thesis using rs moves_trans by blast
  qed
qed


section \<open>Invariants of the machine\<close>

lemma contiguous_Cons: "contiguous (a # rs) \<longleftrightarrow>
    (rs = [] \<or> br_Number (hd rs) = br_Number a + 1 \<and> br_ParentHash (hd rs) = br_Hash a) \<and> contiguous rs"
  by (cases rs) auto

lemma contiguous_snoc: "contiguous (rs @ [r]) \<longleftrightarrow>
    contiguous rs \<and> (rs = [] \<or> br_Number r = br_Number (last rs) + 1 \<and> br_ParentHash r = br_Hash (last rs))"
  by (induction rs) (auto simp: contiguous_Cons hd_append)

lemma contiguous_dropWhile: "contiguous rs \<Longrightarrow> contiguous (dropWhile q rs)"
  by (induction rs) (auto simp: contiguous_Cons)

lemma validate_journal_iff:
  "validate_journal prev rs = None \<longleftrightarrow>
    (\<forall>r\<in>set rs. bad (ParseHash (br_Hash r)) = None \<and> bad (ParseHash (br_ParentHash r)) = None) \<and>
    contiguous (case prev of None \<Rightarrow> rs | Some a \<Rightarrow> a # rs)"
  by (induction prev rs rule: validate_journal.induct) (auto split: option.splits sum.splits)

lemma validate_iff:
  "validateBlockProgress p chain m = None \<longleftrightarrow>
    bp_ChainID p = chain \<and> int (length (bp_Recent p)) \<le> m \<and>
    (\<forall>r\<in>set (bp_Recent p). bad (ParseHash (br_Hash r)) = None \<and> bad (ParseHash (br_ParentHash r)) = None) \<and>
    contiguous (bp_Recent p) \<and>
    (bp_Recent p \<noteq> [] \<longrightarrow> bp_NextBlock p = br_Number (last (bp_Recent p)) + 1 \<and>
       bp_CanonicalParent p = br_Hash (last (bp_Recent p))) \<and>
    (bp_Recent p = [] \<longrightarrow> bp_NextBlock p = 0 \<or> bp_CanonicalParent p \<noteq> '''')"
proof (cases "validate_journal None (bp_Recent p)")
  case None
  then show ?thesis
    using validate_journal_iff [of None "bp_Recent p"] by (auto simp: validateBlockProgress_def word_gt_0)
next
  case (Some e)
  then show ?thesis
    using validate_journal_iff [of None "bp_Recent p"] by (auto simp: validateBlockProgress_def)
qed

text \<open>No reference is the last \<open>uint64\<close>, so that the cursor does not wrap.\<close>

definition well_formed :: "string \<Rightarrow> int \<Rightarrow> blockProgress \<Rightarrow> bool" where
  "well_formed chain m p \<longleftrightarrow>
     validateBlockProgress p chain m = None \<and> (\<forall>r\<in>set (bp_Recent p). br_Number r \<noteq> - 1)"

lemma hash_nonempty: "bad (ParseHash h) = None \<Longrightarrow> h \<noteq> ''''"
  by (auto simp: ParseHash_def fixedHex_def)

lemma trim_suffix: "\<exists>xs. rs = xs @ trim t c rs"
proof (cases "t < c")
  case False
  then have "rs = takeWhile (\<lambda>r. br_Number r \<le> t - c) rs @ trim t c rs" by (simp add: trim_def)
  then show ?thesis by (rule exI)
qed (simp add: trim_def)

lemma well_formed_applied:
  assumes wf: "well_formed chain m p" and t: "t \<noteq> - 1" and gen: "genuine P block"
    and n: "bk_Number block = bp_NextBlock p" "bp_NextBlock p \<le> t"
    and parent: "bp_NextBlock p > 0 \<longrightarrow> bk_ParentHash block = bp_CanonicalParent p"
    and len: "int (length (bp_Recent (applied t c block p))) \<le> m"
  shows "well_formed chain m (applied t c block p)"
proof -
  let ?r = "\<lparr>br_Number = bk_Number block, br_Hash = bk_Hash block, br_ParentHash = bk_ParentHash block\<rparr>"
  let ?rs = "bp_Recent p @ [?r]"
  note v = wf [unfolded well_formed_def validate_iff]
  obtain xs where xs: "?rs = xs @ trim t c ?rs" using trim_suffix [of ?rs t c] by (elim exE)
  have last: "last (trim t c ?rs) = ?r" if "trim t c ?rs \<noteq> []"
  proof -
    have "last (xs @ trim t c ?rs) = last (trim t c ?rs)" using that by simp
    then show ?thesis by (simp add: xs [symmetric])
  qed
  have sub: "set (trim t c ?rs) \<subseteq> insert ?r (set (bp_Recent p))"
    by (auto simp: trim_def dest: set_dropWhileD)
  have "bp_NextBlock p \<noteq> - 1" using n(2) t by (metis word_order.extremum_uniqueI)
  moreover have "contiguous ?rs"
  proof (cases "bp_Recent p = []")
    case False
    then have "br_Number (last (bp_Recent p)) \<noteq> - 1" using v last_in_set by blast
    then have "bp_NextBlock p \<noteq> 0" using v False by (metis add_eq_0_iff add.commute)
    then show ?thesis using v False n parent by (simp add: contiguous_snoc word_gt_0)
  qed simp
  then have "contiguous (trim t c ?rs)" by (simp add: trim_def contiguous_dropWhile)
  moreover have "bad (ParseHash (bk_Hash block)) = None" "bad (ParseHash (bk_ParentHash block)) = None"
    using gen by (simp_all add: genuine_def)
  moreover have "bk_Hash block \<noteq> ''''" using calculation(3) by (rule hash_nonempty)
  ultimately show ?thesis
    using v sub last len n(1) unfolding well_formed_def validate_iff applied_def
    by (simp only: blockProgress.simps) (intro conjI impI; fastforce)
qed

lemma well_formed_rolled_back:
  assumes wf: "well_formed chain m p" and ne: "bp_Recent p \<noteq> []"
  shows "well_formed chain m (rolled_back p)"
proof -
  obtain rs r where rs: "bp_Recent p = rs @ [r]" using ne by (metis append_butlast_last_id)
  note v = wf [unfolded well_formed_def validate_iff rs]
  have "br_ParentHash r \<noteq> ''''" using v hash_nonempty by simp
  then show ?thesis
    using v unfolding well_formed_def validate_iff by (auto simp: rolled_back_def rs contiguous_snoc)
qed

lemma moves_well_formed:
  "moves b M t c m x bs y \<Longrightarrow> t \<noteq> - 1 \<Longrightarrow> well_formed chain m (fst x) \<Longrightarrow> well_formed chain m (fst y)"
proof (induction rule: moves.induct)
  case (push block p s s' bs q)
  show ?case by (rule push.IH) (simp_all add: push.prems well_formed_applied [OF _ push.prems(1) push.hyps(1-5)] push.prems(2) [simplified])
next
  case (pop p block s s' bs q)
  then show ?case by (simp add: well_formed_rolled_back)
qed simp

lemma commits_saved:
  assumes "lawful M" "\<forall>p. be_encode M p \<noteq> Some ''''" "entries_ok (ss_checkpoints s)" "commits b M block p s s'"
  shows "saved b M p s'"
proof -
  obtain w u w1 w2 where "commit_progress b M p u s w1 = (s', w2, None)" using assms(4) by (auto simp: commits_def)
  from commit_progress_success [OF assms(1-3) this] show ?thesis by blast
qed

lemma moves_saved:
  "moves b M t c m x bs y \<Longrightarrow> lawful M \<Longrightarrow> \<forall>p. be_encode M p \<noteq> Some '''' \<Longrightarrow> saved b M (fst x) (snd x) \<Longrightarrow>
    saved b M (fst y) (snd y)"
proof (induction rule: moves.induct)
  case (push block p s s' bs q)
  have "entries_ok (ss_checkpoints s)" using push.prems(3) by (simp add: saved_def)
  from commits_saved [OF push.prems(1,2) this push.hyps(6)] push.IH push.prems(1,2) show ?case by simp
next
  case (pop p block s s' bs q)
  have "entries_ok (ss_checkpoints s)" using pop.prems(3) by (simp add: saved_def)
  from commits_saved [OF pop.prems(1,2) this pop.hyps(5)] pop.IH pop.prems(1,2) show ?case by simp
qed simp

text \<open>
  What the monitor does with a block: \<open>effect\<close> is the change of state of every update its handler
  returns, when the update succeeds.
\<close>

definition handles ::
    "('v, 'w) Blocks \<Rightarrow> ('v, 'w) blocks_env \<Rightarrow> (Block \<Rightarrow> 'v \<Rightarrow> 'v) \<Rightarrow> bool" where
  "handles b M effect \<longleftrightarrow>
     (\<forall>h v block w w' u tx tx'. bs_Handle b = Some h \<longrightarrow> h v block w = (w', Inr u) \<longrightarrow>
        run_closure (mv_clone M) (with_update u (Return None)) tx = (tx', None) \<longrightarrow>
        tx_State tx' = effect block (tx_State tx))"

lemma commits_state:
  assumes law: "lawful M" "\<forall>p. be_encode M p \<noteq> Some ''''" "entries_ok (ss_checkpoints s)"
    and handles: "handles b M effect" and c: "commits b M block p s s'"
    and v: "decodeState (mv_codec M) (ss_state s) = Inr v"
  shows "decodeState (mv_codec M) (ss_state s') = Inr (effect block v)"
proof -
  obtain w u w1 w2 where call: "call_handle b M s block w = (w1, Inr u)"
    and commit: "commit_progress b M p u s w1 = (s', w2, None)"
    using c by (auto simp: commits_def)
  obtain h v' where h: "bs_Handle b = Some h" "h v' block w = (w1, Inr u)"
    using call by (auto simp: call_handle_def split: option.splits)
  obtain v1 tx where v1: "decodeState (mv_codec M) (ss_state s) = Inr v1"
    and run: "run_closure (mv_clone M) (with_update u (Return None)) (start_tx v1 s) = (tx, None)"
    and tx2: "decodeState (mv_codec M) (ss_state s') = Inr (tx_State tx)"
    by (rule commit_progress_success [OF law commit])
  have tx: "run_closure (mv_clone M) (with_update u (Return None)) (start_tx v s) = (tx, None)"
    using run v v1 by simp
  have "tx_State tx = effect block (tx_State (start_tx v s))"
    by (rule handles [unfolded handles_def, rule_format, OF h tx])
  then show ?thesis using tx2 by (simp add: start_tx_def)
qed

lemma moves_state:
  "moves b M t c m x bs y \<Longrightarrow> lawful M \<Longrightarrow> \<forall>p. be_encode M p \<noteq> Some '''' \<Longrightarrow> handles b M effect \<Longrightarrow>
    saved b M (fst x) (snd x) \<Longrightarrow> decodeState (mv_codec M) (ss_state (snd x)) = Inr v \<Longrightarrow>
    decodeState (mv_codec M) (ss_state (snd y)) = Inr (fold effect bs v)"
proof (induction arbitrary: v rule: moves.induct)
  case (push block p s s' bs q)
  have ok: "entries_ok (ss_checkpoints s)" using push.prems(4) by (simp add: saved_def)
  note push.IH [of "effect block v"]
  with commits_state [OF push.prems(1,2) ok push.prems(3) push.hyps(6)]
    commits_saved [OF push.prems(1,2) ok push.hyps(6)] push.prems show ?case by simp
next
  case (pop p block s s' bs q)
  have ok: "entries_ok (ss_checkpoints s)" using pop.prems(4) by (simp add: saved_def)
  note pop.IH [of "effect block v"]
  with commits_state [OF pop.prems(1,2) ok pop.prems(3) pop.hyps(5)]
    commits_saved [OF pop.prems(1,2) ok pop.hyps(5)] pop.prems show ?case by simp
qed simp

section \<open>Removals, then extensions\<close>

text \<open>Where the cursor is once the last \<open>n\<close> references have been removed.\<close>

definition fork_point :: "nat \<Rightarrow> blockProgress \<Rightarrow> uint64 \<times> string" where
  "fork_point k p =
     (case drop k (bp_Recent p) of
        [] \<Rightarrow> (bp_NextBlock p, bp_CanonicalParent p)
      | r # _ \<Rightarrow> (br_Number r, br_ParentHash r))"

definition removals :: "nat \<Rightarrow> string \<Rightarrow> blockProgress \<Rightarrow> Block list" where
  "removals k chain p = map (\<lambda>r. removed_block r chain) (rev (drop k (bp_Recent p)))"

lemma moves_split:
  "moves b M t c m x (rs @ as) y \<Longrightarrow> \<exists>z. moves b M t c m x rs z \<and> moves b M t c m z as y"
proof (induction rs arbitrary: x)
  case Nil
  then show ?case by (intro exI [of _ x] conjI moves.rest) simp
next
  case (Cons r rs)
  from Cons.prems obtain x' where x': "moves b M t c m x' (rs @ as) y"
    and step: "\<And>bs q. moves b M t c m x' bs q \<Longrightarrow> moves b M t c m x (r # bs) q"
    by (cases rule: moves.cases) (auto intro: moves.push moves.pop)
  from Cons.IH [OF x'] step show ?case by blast
qed

lemma moves_removals:
  "moves b M t c m x rs y \<Longrightarrow> \<forall>r\<in>set rs. bk_Removed r \<Longrightarrow>
    \<exists>k\<le>length (bp_Recent (fst x)). rs = removals k (pv_chain (mv_provider M)) (fst x) \<and>
      bp_Recent (fst y) = take k (bp_Recent (fst x)) \<and>
      (bp_NextBlock (fst y), bp_CanonicalParent (fst y)) = fork_point k (fst x)"
proof (induction rule: moves.induct)
  case (rest q)
  then show ?case by (intro exI [of _ "length (bp_Recent (fst q))"]) (simp add: removals_def fork_point_def)
next
  case (push block p s s' bs q)
  then show ?case by (simp add: genuine_def)
next
  case (pop p block s s' bs q)
  obtain xs r where xs: "bp_Recent p = xs @ [r]" using pop.hyps(1) by (metis append_butlast_last_id)
  obtain k where k: "k \<le> length xs" "bs = removals k (pv_chain (mv_provider M)) (rolled_back p)"
    "bp_Recent (fst q) = take k xs"
    "(bp_NextBlock (fst q), bp_CanonicalParent (fst q)) = fork_point k (rolled_back p)"
    using pop.IH pop.prems xs by (auto simp: rolled_back_def)
  have "fork_point k (rolled_back p) = fork_point k p"
    using k(1) by (auto simp: fork_point_def rolled_back_def xs split: list.splits)
  moreover have "block # bs = removals k (pv_chain (mv_provider M)) p"
    using k(1) pop.hyps(4) by (simp add: k(2) removals_def rolled_back_def xs)
  ultimately show ?case using k by (intro exI [of _ k]) (simp add: xs)
qed

lemma moves_extends:
  "moves b M t c m x as y \<Longrightarrow> \<forall>a\<in>set as. \<not> bk_Removed a \<Longrightarrow>
    extends (mv_provider M) t (bp_NextBlock (fst x)) (bp_CanonicalParent (fst x)) as \<and>
    bp_NextBlock (fst y) = bp_NextBlock (fst x) + of_nat (length as)"
proof (induction rule: moves.induct)
  case (push block p s s' bs q)
  then show ?case by (simp add: applied_def)
next
  case (pop p block s s' bs q)
  then show ?case by (simp add: removed_block_def)
qed simp

lemma advance_fold:
  assumes law: "lawful M" "\<forall>p. be_encode M p \<noteq> Some ''''" "handles b M effect"
    and start: "saved b M p s" "decodeState (mv_codec M) (ss_state s) = Inr v"
    and run: "advance fuel b M t c m announcement p s w = Some (p', s', w', e)"
  shows "\<exists>k as. k \<le> length (bp_Recent p) \<and>
    extends (mv_provider M) t (fst (fork_point k p)) (snd (fork_point k p)) as \<and>
    bp_NextBlock p' = fst (fork_point k p) + of_nat (length as) \<and>
    decodeState (mv_codec M) (ss_state s') =
      Inr (fold effect (removals k (pv_chain (mv_provider M)) p @ as) v)"
proof -
  obtain rs as where m: "moves b M t c m (p, s) (rs @ as) (p', s')" "\<forall>x\<in>set rs. bk_Removed x"
    "\<forall>x\<in>set as. \<not> bk_Removed x"
    using advance_moves [OF law(1) run] by (elim exE conjE)
  obtain z where z: "moves b M t c m (p, s) rs z" "moves b M t c m z as (p', s')"
    using moves_split [OF m(1)] by (elim exE conjE)
  obtain k where k: "k \<le> length (bp_Recent p)" "rs = removals k (pv_chain (mv_provider M)) p"
    "(bp_NextBlock (fst z), bp_CanonicalParent (fst z)) = fork_point k p"
    using moves_removals [OF z(1) m(2)] by auto
  have "decodeState (mv_codec M) (ss_state s') = Inr (fold effect (rs @ as) v)"
    using moves_state [OF m(1) law] start by simp
  then show ?thesis
    using moves_extends [OF z(2) m(3)] k by (intro exI [of _ k] exI [of _ as]) (simp add: k(3) [symmetric])
qed

section \<open>Termination\<close>

lemma advance_loop_ends:
  "t \<noteq> - 1 \<Longrightarrow> lawful M \<Longrightarrow> unat t < fuel + unat (bp_NextBlock p) \<Longrightarrow>
    advance_loop fuel b M t c m announcement p s w \<noteq> None"
proof (induction fuel arbitrary: p s w)
  case 0
  then have "t < bp_NextBlock p" by (simp add: word_less_nat_alt)
  then show ?case by (simp add: advance_loop_unfold)
next
  case (Suc n)
  obtain p1 s1 w1 r where step: "advance_batch b M t c m announcement p s w = (p1, s1, w1, r)"
    by (metis prod_cases4)
  show ?case
  proof (cases "bp_NextBlock p \<le> t")
    case False
    then show ?thesis by (simp add: advance_loop_unfold)
  next
    case True
    show ?thesis
    proof (cases r)
      case (Exit x)
      then show ?thesis using True step by (simp add: advance_loop_unfold)
    next
      case Loop
      let ?to = "batch_end (batch_size b) (bp_NextBlock p) t"
      have to: "bp_NextBlock p \<le> ?to" "?to \<le> t" using batch_end_bounds [OF batch_size_pos True] by blast+
      have "bp_NextBlock p1 = ?to + 1" using advance_batch_moves [OF Suc.prems(2) True step] Loop by blast
      moreover have "?to \<noteq> - 1" using to(2) Suc.prems(1) by (metis word_order.extremum_uniqueI)
      then have "unat (?to + 1) = unat ?to + 1" by (simp add: unat_inc)
      ultimately have "unat t < n + unat (bp_NextBlock p1)"
        using Suc.prems(3) to(1) by (simp add: word_le_nat_alt)
      then show ?thesis using Suc.IH [OF Suc.prems(1,2)] True step Loop by (simp add: advance_loop_unfold)
    qed
  qed
qed

section \<open>Properties\<close>

text \<open>
  C21: however an \<open>advance\<close> ends, whatever the node answered and the handler did, the checkpoint in
  the session is the progress in memory and passes \<open>validateBlockProgress\<close>: a restart resumes
  exactly there, with a journal that is contiguous, bounded and followed by its cursor.
\<close>

theorem blocks_resume:
  assumes "lawful M" and "\<forall>p. be_encode M p \<noteq> Some ''''"
    and "\<forall>p raw. be_encode M p = Some raw \<longrightarrow> be_decode M raw = Some (p, True)"
    and "target \<noteq> - 1" and "saved b M p s" and "well_formed chain maxRecent p"
    and "advance fuel b M target confirmations maxRecent announcement p s w = Some (p', s', w', e)"
  shows "Session_Checkpoint (be_decode M) (progressSource b) s' = Inr (Some p') \<and>
    validateBlockProgress p' chain maxRecent = None"
proof -
  obtain bs where m: "moves b M target confirmations maxRecent (p, s) bs (p', s')"
    using advance_moves [OF assms(1,7)] by (elim exE conjE)
  have "well_formed chain maxRecent p'" using moves_well_formed [OF m assms(4)] assms(6) by simp
  moreover have "saved b M p' s'" using moves_saved [OF m assms(1,2)] assms(5) by simp
  then obtain raw where "be_encode M p' = Some raw" "map_of (ss_checkpoints s') (progressSource b) = Some raw"
    by (auto simp: saved_def)
  ultimately show ?thesis using assms(3) by (simp add: Session_Checkpoint_def well_formed_def)
qed

text \<open>
  C22: each block is applied once, in order, on top of its parent.  An \<open>advance\<close> first removes the
  newest blocks of its journal, newest first, back to a fork point, then applies a chain of the
  node's blocks that continues the fork point block by block; the session's state is the fold of
  the monitor's effect over exactly these blocks, and the cursor is behind the last of them.
\<close>

theorem blocks_applied_once:
  assumes "lawful M" and "\<forall>p. be_encode M p \<noteq> Some ''''" and "handles b M effect"
    and "saved b M p s" and "decodeState (mv_codec M) (ss_state s) = Inr v"
    and "advance fuel b M target confirmations maxRecent announcement p s w = Some (p', s', w', e)"
  shows "\<exists>k as. k \<le> length (bp_Recent p) \<and>
    extends (mv_provider M) target (fst (fork_point k p)) (snd (fork_point k p)) as \<and>
    bp_NextBlock p' = fst (fork_point k p) + of_nat (length as) \<and>
    decodeState (mv_codec M) (ss_state s') =
      Inr (fold effect (removals k (pv_chain (mv_provider M)) p @ as) v)"
  using assms by (rule advance_fold)

text \<open>
  \<open>advance\<close> returns: below the last \<open>uint64\<close> one turn of its loop for every block up to the
  target is enough, whatever the node answers.
\<close>

theorem blocks_advance_ends:
  assumes "lawful M" and "target \<noteq> - 1"
  shows "\<exists>p' s' w' e. advance (Suc (unat target)) b M target confirmations maxRecent announcement p s w =
    Some (p', s', w', e)"
proof -
  obtain p1 s1 w1 e1 where first: "(if knownExtension announcement p then (p, s, w, None) else rollbackOrphans b M p s w) =
      (p1, s1, w1, e1)" by (metis prod_cases4)
  show ?thesis
  proof (cases e1)
    case (Some x)
    then show ?thesis using first by (simp add: advance_def)
  next
    case None
    have "advance_loop (Suc (unat target)) b M target confirmations maxRecent announcement p1 s1 w1 \<noteq> None"
      by (rule advance_loop_ends [OF assms(2,1)]) simp
    then obtain r where "advance_loop (Suc (unat target)) b M target confirmations maxRecent announcement p1 s1 w1 =
        Some r" by blast
    then show ?thesis using first None by (cases r) (auto simp: advance_def)
  qed
qed

section \<open>A reorganisation\<close>

text \<open>
  A monitor that flips a bit for every block; its journal holds block 4 as \<open>a\<close>, the node has
  another block 4 and a block 5.
\<close>

definition sample_chain_hash :: "char \<Rightarrow> string" where
  "sample_chain_hash c = ''0x'' @ replicate 64 c"

definition sample_header :: "string \<Rightarrow> rpcBlockHeader option" where
  "sample_header q = Some \<lparr>rh_Number = q, rh_Hash = sample_chain_hash (last q),
     rh_ParentHash = sample_chain_hash (char_of (byte (last q) - 1))\<rparr>"

definition sample_rpc_block :: "string \<Rightarrow> rpcBlock option" where
  "sample_rpc_block q = Some \<lparr>rb_Number = q, rb_Hash = sample_chain_hash (last q),
     rb_ParentHash = sample_chain_hash (char_of (byte (last q) - 1)), rb_Timestamp = ''0x0'', rb_Transactions = []\<rparr>"

definition sample_provider :: "unit provider" where
  "sample_provider = \<lparr>pv_chain = ''0x1'',
     pv_call = (\<lambda>m ps w. (w, case ps of PText q # _ \<Rightarrow> Inr q | _ \<Rightarrow> Inl RPCError)),
     pv_text = Some, pv_header = sample_header, pv_block = sample_rpc_block, pv_receipt = (\<lambda>_. None),
     pv_logs = (\<lambda>_. None), pv_sleep = (\<lambda>_ w. (w, None))\<rparr>"

definition sample_ref :: "char \<Rightarrow> char \<Rightarrow> uint64 \<Rightarrow> blockReference" where
  "sample_ref h q n = \<lparr>br_Number = n, br_Hash = sample_chain_hash h, br_ParentHash = sample_chain_hash q\<rparr>"

definition sample_progress :: "uint64 \<Rightarrow> char \<Rightarrow> blockReference list \<Rightarrow> blockProgress" where
  "sample_progress n h rs =
     \<lparr>bp_ChainID = ''0x1'', bp_NextBlock = n, bp_CanonicalParent = sample_chain_hash h, bp_Recent = rs\<rparr>"

definition stage_A :: blockProgress where
  "stage_A = sample_progress 5 (CHR ''a'') [sample_ref (CHR ''a'') (CHR ''3'') 4]"

definition stage_B :: blockProgress where
  "stage_B = sample_progress 4 (CHR ''3'') []"

definition stage_C :: blockProgress where
  "stage_C = sample_progress 5 (CHR ''4'') [sample_ref (CHR ''4'') (CHR ''3'') 4]"

definition stage_D :: blockProgress where
  "stage_D = sample_progress 6 (CHR ''5'') [sample_ref (CHR ''4'') (CHR ''3'') 4, sample_ref (CHR ''5'') (CHR ''4'') 5]"

definition sample_stages :: "(blockProgress \<times> string) list" where
  "sample_stages = [(stage_A, ''A''), (stage_B, ''B''), (stage_C, ''C''), (stage_D, ''D'')]"

lemmas stage_defs = stage_A_def stage_B_def stage_C_def stage_D_def sample_progress_def

definition sample_blocks_env :: "(bool, unit) blocks_env" where
  "sample_blocks_env = \<lparr>mv_codec = bit_codec, mv_clone = Inr,
     mv_commit = (\<lambda>t w. (w, Inr (tc_NextState t))), mv_ctx_before = (\<lambda>_. None), mv_ctx_after = (\<lambda>_. None), mv_provider = sample_provider,
     be_encode = map_of sample_stages,
     be_decode = (\<lambda>raw. map_option (\<lambda>p. (p, True)) (map_of (map (\<lambda>(p, r). (r, p)) sample_stages) raw))\<rparr>"

definition sample_secret :: SecretRef where
  "sample_secret = \<lparr>sr_Group = '''', sr_Key = '''', sr_Required = True\<rparr>"

definition sample_blocks :: "(bool, unit) Blocks" where
  "sample_blocks = \<lparr>bs_Name = '''', bs_ExpectedChainID = '''', bs_Confirmations = 2, bs_BackfillFrom = None,
     bs_ReplayBatch = 0, bs_FetchConcurrency = 0, bs_MaxRecentBlocks = 8,
     bs_Handle = Some (\<lambda>v block w. (w, Inr (Some (GetState (\<lambda>v. SetState (\<not> v) (Return None)))))),
     bs_HTTPURL = '''', bs_WSSURL = '''', bs_HTTPSecret = sample_secret, bs_WSSSecret = sample_secret\<rparr>"

definition sample_session :: "string \<Rightarrow> string \<Rightarrow> Session" where
  "sample_session st raw = \<lparr>ss_state = st, ss_checkpoints = [(''quicknode.evm.blocks'', raw)], ss_secrets = [],
     ss_maxEvents = 1\<rparr>"

lemma sample_chain_hash_inj [simp]: "sample_chain_hash c = sample_chain_hash d \<longleftrightarrow> c = d"
  by (simp add: sample_chain_hash_def)

lemma hex_decode_replicate: "unhex c = Some d \<Longrightarrow> hex_decode (replicate (2 * n) c) = Some (replicate n (char_of (16 * d + d)))"
  by (induction n) simp_all

lemma sample_chain_hash_ok [simp]: "unhex c = Some d \<Longrightarrow> ParseHash (sample_chain_hash c) = Inr (lower (sample_chain_hash c))"
  using hex_decode_replicate [of c d 32] by (simp add: ParseHash_def fixedHex_def sample_chain_hash_def)

lemma sample_digits [simp]:
  "unhex (CHR ''2'') = Some 2" "unhex (CHR ''3'') = Some 3" "unhex (CHR ''4'') = Some 4" "unhex (CHR ''5'') = Some 5"
  "unhex (CHR ''a'') = Some 10"
  by (simp_all add: unhex_def byte_def)

lemma sample_texts [simp]: "quantity 3 = ''0x3''" "quantity 4 = ''0x4''" "quantity 5 = ''0x5''"
  by code_simp+

lemma sample_quantities [simp]:
  "parseUintQuantity ''0x3'' = Inr 3" "parseUintQuantity ''0x4'' = Inr 4" "parseUintQuantity ''0x5'' = Inr 5"
  "parseUintQuantity ''0x0'' = Inr 0"
  by (simp_all add: parseUintQuantity_def canonicalQuantity_def parse_uint_hex_def lower_char_def byte_def unhex_def)

lemma sample_pred [simp]:
  "char_of (byte (CHR ''3'') - Suc 0) = CHR ''2''" "char_of (byte (CHR ''4'') - Suc 0) = CHR ''3''"
  "char_of (byte (CHR ''5'') - Suc 0) = CHR ''4''"
  by code_simp+

lemmas sample_call_simps = sample_provider_def and_then_def call_as_def on_ok_def check_def

lemma sample_headers:
  "blockByNumber sample_provider 3 w = (w, Inr \<lparr>rh_Number = ''0x3'', rh_Hash = sample_chain_hash (CHR ''3''),
     rh_ParentHash = sample_chain_hash (CHR ''2'')\<rparr>)"
  "blockByNumber sample_provider 4 w = (w, Inr \<lparr>rh_Number = ''0x4'', rh_Hash = sample_chain_hash (CHR ''4''),
     rh_ParentHash = sample_chain_hash (CHR ''3'')\<rparr>)"
  by (simp_all add: blockByNumber_def sample_header_def sample_call_simps split: prod.splits)

definition sample_block :: "uint64 \<Rightarrow> char \<Rightarrow> char \<Rightarrow> Block" where
  "sample_block n h q = \<lparr>bk_ChainID = ''0x1'', bk_Number = n, bk_Hash = sample_chain_hash h,
     bk_ParentHash = sample_chain_hash q, bk_Timestamp = 0, bk_Transactions = [], bk_Removed = False\<rparr>"

lemma sample_full_blocks:
  "BlockByNumber sample_provider 4 w = (w, Inr (sample_block 4 (CHR ''4'') (CHR ''3'')))"
  "BlockByNumber sample_provider 5 w = (w, Inr (sample_block 5 (CHR ''5'') (CHR ''4'')))"
proof -
  have trims: "\<not> absent ''0x4''" "\<not> absent ''0x5''"
    by (simp_all add: absent_def TrimSpace_def trim_segs_def runes_ascii byte_def is_space_def)
  show "BlockByNumber sample_provider 4 w = (w, Inr (sample_block 4 (CHR ''4'') (CHR ''3'')))"
    "BlockByNumber sample_provider 5 w = (w, Inr (sample_block 5 (CHR ''5'') (CHR ''4'')))"
    by (simp_all add: BlockByNumber_def retryPropagation_def upt_rec blockByNumberFull_def callBlock_def trims
      sample_rpc_block_def decodeRPCBlock_def sample_block_def sample_call_simps)
qed

lemma sample_range:
  "blocksByNumber sample_provider 4 5 8 w =
    (w, Inr [sample_block 4 (CHR ''4'') (CHR ''3''), sample_block 5 (CHR ''5'') (CHR ''4'')])"
  by (simp add: blocksByNumber_def upt_rec sample_full_blocks and_then_def) (simp add: sample_block_def)

lemma sample_lawful: "lawful sample_blocks_env"
  by (auto simp: lawful_def sample_blocks_env_def)

lemma sample_commit_progress:
  assumes "map_of sample_stages p = Some raw'" "raw' \<noteq> raw"
  shows "commit_progress sample_blocks sample_blocks_env p flip (sample_session (if v then ''true'' else ''false'') raw) w =
    (sample_session (if v then ''false'' else ''true'') raw', w, None)"
  using assms
  by (cases v) (simp_all add: commit_progress_def session_commit_def Session_Commit_def sample_blocks_env_def
    sample_session_def with_update_def flip_def Tx_Checkpoint_def changed_checkpoints_def progressSource_def
    sample_blocks_def Let_def)

lemma sample_handle:
  "call_handle sample_blocks sample_blocks_env (sample_session (if v then ''true'' else ''false'') raw) block w = (w, Inr flip)"
  by (cases v) (simp_all add: call_handle_def Session_State_def sample_blocks_env_def sample_session_def sample_blocks_def flip_def)

lemma sample_stage_simps:
  "map_of sample_stages stage_B = Some ''B''"
  "map_of sample_stages stage_C = Some ''C''"
  "map_of sample_stages stage_D = Some ''D''"
  by (simp_all add: sample_stages_def stage_defs)

lemma sample_rolled_back: "rolled_back stage_A = stage_B"
  by (simp add: stage_defs rolled_back_def sample_ref_def)

lemma sample_pushed:
  "applied 5 2 (sample_block 4 (CHR ''4'') (CHR ''3'')) stage_B = stage_C"
  "applied 5 2 (sample_block 5 (CHR ''5'') (CHR ''4'')) stage_C = stage_D"
  by (simp_all add: stage_defs applied_def sample_ref_def sample_block_def trim_def)

lemma sample_env_provider: "mv_provider sample_blocks_env = sample_provider"
  by (simp add: sample_blocks_env_def)

lemma sample_block_fields:
  "bp_NextBlock stage_A = 5" "bp_CanonicalParent stage_A = sample_chain_hash (CHR ''a'')"
  "bp_Recent stage_A = [sample_ref (CHR ''a'') (CHR ''3'') 4]"
  "bp_NextBlock stage_B = 4" "bp_CanonicalParent stage_B = sample_chain_hash (CHR ''3'')"
  "bp_Recent stage_C = [sample_ref (CHR ''4'') (CHR ''3'') 4]"
  "bp_NextBlock stage_D = 6"
  "bp_Recent stage_D =
    [sample_ref (CHR ''4'') (CHR ''3'') 4, sample_ref (CHR ''5'') (CHR ''4'') 5]"
  by (simp_all add: stage_defs)

lemma sample_rollback:
  "rollbackOrphans sample_blocks sample_blocks_env stage_A (sample_session ''true'' ''A'') w =
    (stage_B, sample_session ''false'' ''B'', w, None)"
proof -
  note handle = sample_handle [of True, simplified] and commit = sample_commit_progress [of _ _ _ True, simplified]
  have "rollback_step sample_blocks sample_blocks_env stage_A (sample_session ''true'' ''A'') w =
      (sample_session ''false'' ''B'', w, Loop)"
    by (simp add: rollback_step_def sample_block_fields sample_env_provider sample_headers handle sample_ref_def
      sample_rolled_back commit [OF sample_stage_simps(1)])
  moreover have "rollback_step sample_blocks sample_blocks_env stage_B (sample_session ''false'' ''B'') w =
      (sample_session ''false'' ''B'', w, Exit None)"
    by (simp add: rollback_step_def sample_block_fields sample_env_provider sample_headers)
  ultimately show ?thesis
    by (subst rollbackOrphans.simps, subst rollbackOrphans.simps)
      (simp add: sample_block_fields sample_rolled_back sample_chain_hash_def)
qed

lemma sample_batch:
  "advance_batch sample_blocks sample_blocks_env 5 2 8 None stage_B (sample_session ''false'' ''B'') () =
    (stage_D, sample_session ''false'' ''D'', (), Loop)"
proof -
  have step1: "apply_step sample_blocks sample_blocks_env 5 2 8 (sample_block 4 (CHR ''4'') (CHR ''3''))
      stage_B (sample_session ''false'' ''B'') () = (sample_session ''true'' ''C'', (), Loop)"
    by (simp add: apply_step_def sample_handle [of False, simplified] sample_pushed sample_block_fields
      sample_commit_progress [OF sample_stage_simps(2), of _ False, simplified])
  have step2: "apply_step sample_blocks sample_blocks_env 5 2 8 (sample_block 5 (CHR ''5'') (CHR ''4''))
      stage_C (sample_session ''true'' ''C'') () = (sample_session ''false'' ''D'', (), Loop)"
    by (simp add: apply_step_def sample_handle [of True, simplified] sample_pushed sample_block_fields
      sample_commit_progress [OF sample_stage_simps(3), of _ True, simplified])
  have cfg: "bs_ReplayBatch sample_blocks = 0" "bs_FetchConcurrency sample_blocks = 0"
    "bk_ParentHash (sample_block 4 (CHR ''4'') (CHR ''3'')) = sample_chain_hash (CHR ''3'')"
    by (simp_all add: sample_blocks_def sample_block_def)
  have "batch_end 32 4 5 = 5" by (simp add: batch_end_def)
  then show ?thesis
    by (simp add: advance_batch_def cfg sample_block_fields sample_env_provider sample_range step1 step2 sample_pushed)
qed

lemma sample_advance:
  "advance (Suc (Suc 0)) sample_blocks sample_blocks_env 5 2 8 None stage_A (sample_session ''true'' ''A'') () =
    Some (stage_D, sample_session ''false'' ''D'', (), None)"
  by (simp add: advance_def knownExtension_def sample_rollback advance_loop_unfold sample_block_fields sample_batch)

lemma sample_json: "\<forall>p. be_encode sample_blocks_env p \<noteq> Some ''''"
  by (auto simp: sample_blocks_env_def sample_stages_def split: if_splits)

lemma sample_json_back: "\<forall>p raw. be_encode sample_blocks_env p = Some raw \<longrightarrow> be_decode sample_blocks_env raw = Some (p, True)"
  by (auto simp: sample_blocks_env_def sample_stages_def split: if_splits)

lemma sample_saved: "saved sample_blocks sample_blocks_env stage_A (sample_session ''true'' ''A'')"
  by (simp add: saved_def sample_session_def sample_blocks_env_def sample_stages_def entries_ok_def progressSource_def
    sample_blocks_def)

lemma sample_well_formed: "well_formed ''0x1'' 8 stage_A"
  by (simp add: well_formed_def validate_iff sample_block_fields) (simp add: stage_defs sample_ref_def)

lemma blocks_resume_witness:
  "Session_Checkpoint (be_decode sample_blocks_env) (progressSource sample_blocks) (sample_session ''false'' ''D'') =
     Inr (Some stage_D) \<and> validateBlockProgress stage_D ''0x1'' 8 = None"
  by (rule blocks_resume [OF sample_lawful sample_json sample_json_back _ sample_saved sample_well_formed sample_advance])
    simp

definition flips :: "Block \<Rightarrow> bool \<Rightarrow> bool" where
  "flips block v = (\<not> v)"

lemma sample_handles: "handles sample_blocks sample_blocks_env flips"
  by (auto simp: handles_def sample_blocks_def with_update_def flips_def)

lemma blocks_applied_once_witness:
  "\<exists>k as. k \<le> length (bp_Recent stage_A) \<and>
    extends sample_provider 5 (fst (fork_point k stage_A)) (snd (fork_point k stage_A)) as \<and>
    bp_NextBlock stage_D = fst (fork_point k stage_A) + of_nat (length as) \<and>
    Inr False = Inr (fold flips (removals k ''0x1'' stage_A @ as) True)"
proof -
  have "decodeState (mv_codec sample_blocks_env) (ss_state (sample_session ''true'' ''A'')) = Inr True"
    by (simp add: sample_blocks_env_def sample_session_def)
  from blocks_applied_once [OF sample_lawful sample_json sample_handles sample_saved this sample_advance]
  show ?thesis
    by (simp add: sample_env_provider) (simp add: sample_blocks_env_def sample_session_def sample_provider_def)
qed

lemma blocks_advance_ends_witness:
  "\<exists>p' s' w' e. advance (Suc (unat (5 :: uint64))) sample_blocks sample_blocks_env 5 2 8 None stage_A (sample_session ''true'' ''A'') () =
    Some (p', s', w', e)"
  by (rule blocks_advance_ends [OF sample_lawful]) simp

end
