(* ===== verification/EvmEvents.thy ===== *)
theory EvmEvents
  imports EvmClient "HOL-Library.Product_Lexorder"
begin

text \<open>
  \<open>catalog/quicknode/evm/events.go\<close>: filtered logs, live from a subscription and replayed from the
  history of confirmed blocks.  Two checkpoints are kept: the cursor of the replay and the journal
  of live logs that are not confirmed yet.  The loops take the session and the world along, as in
  \<open>EvmBlocks\<close>; the JSON forms of the two checkpoints are parameters.  \<open>Handle\<close> here does not see
  the session's state.
\<close>

section \<open>Checkpoints\<close>

record eventsCursor =
  ec_ChainID :: string
  ec_Filter :: Logs
  ec_NextBlock :: uint64
  ec_CanonicalParent :: string
  ec_CurrentBlock :: string
  ec_NextLog :: uint64

record eventsLive =
  el_ChainID :: string
  el_Filter :: Logs
  el_Logs :: "Log list"

definition eventsCursorSource :: string where "eventsCursorSource = ''quicknode.evm.events-cursor''"
definition eventsLiveSource :: string where "eventsLiveSource = ''quicknode.evm.events-live''"
definition defaultBackfillRange :: uint64 where "defaultBackfillRange = 10000"
definition maxLiveLogs :: nat where "maxLiveLogs = 256"

section \<open>The source\<close>

record 'w Events =
  ev_Name :: string
  ev_Filter :: Logs
  ev_ExpectedChainID :: string
  ev_Confirmations :: uint64
  ev_BackfillFrom :: "uint64 option"
  ev_BackfillRange :: uint64
  ev_HTTPURL :: string
  ev_WSSURL :: string
  ev_HTTPSecret :: SecretRef
  ev_WSSSecret :: SecretRef

record ('v, 'w) events_env = "('v, 'w) monitor_env" +
  ee_handle :: "(Log \<Rightarrow> 'w \<Rightarrow> 'w \<times> 'v closure option evm) option"
  ee_encode_cursor :: "eventsCursor \<Rightarrow> string option"
  ee_decode_cursor :: "string \<Rightarrow> (eventsCursor \<times> bool) option"
  ee_encode_live :: "eventsLive \<Rightarrow> string option"
  ee_decode_live :: "string \<Rightarrow> (eventsLive \<times> bool) option"

definition Events_Info :: "'w Events \<Rightarrow> Info" where
  "Events_Info e =
     \<lparr>in_Name = (if ev_Name e = '''' then ''quicknode-events'' else ev_Name e),
      in_Description = ''Live filtered EVM logs with durable HTTP recovery''\<rparr>"

definition Events_Plan :: "'w Events \<Rightarrow> planNode" where
  "Events_Plan e =
     Continuous True
       [Some (WithSecrets (source_secrets (ev_HTTPURL e) (ev_WSSURL e) (ev_HTTPSecret e) (ev_WSSSecret e)))]"

definition events_handle :: "('v, 'w) events_env \<Rightarrow> Log \<Rightarrow> 'w \<Rightarrow> 'w \<times> 'v closure option evm" where
  "events_handle M log w =
     (case ee_handle M of None \<Rightarrow> (w, fails ''panic: nil handler'') | Some handle \<Rightarrow> handle log w)"

definition events_closure ::
    "('v, 'w) events_env \<Rightarrow> eventsCursor option \<Rightarrow> eventsLive option \<Rightarrow> 'v closure option \<Rightarrow> 'v closure" where
  "events_closure M cursor live update =
     (let live_part = (case live of
            None \<Rightarrow> Return None
          | Some l \<Rightarrow> DoCheckpoint eventsLiveSource (ee_encode_live M l) Return) in
      with_update update (case cursor of
          None \<Rightarrow> live_part
        | Some c \<Rightarrow> DoCheckpoint eventsCursorSource (ee_encode_cursor M c)
            (\<lambda>err. case err of Some e \<Rightarrow> Return (Some e) | None \<Rightarrow> live_part)))"

definition events_commit ::
    "('v, 'w) events_env \<Rightarrow> eventsCursor option \<Rightarrow> eventsLive option \<Rightarrow> 'v closure option \<Rightarrow> Session \<Rightarrow> 'w \<Rightarrow>
     Session \<times> 'w \<times> evm_error option" where
  "events_commit M cursor live update s w = session_commit M (events_closure M cursor live update) s w"

definition loadCursor ::
    "'w Events \<Rightarrow> ('v, 'w) events_env \<Rightarrow> uint64 \<Rightarrow> Session \<Rightarrow> 'w \<Rightarrow> Session \<times> 'w \<times> eventsCursor evm" where
  "loadCursor e M confirmations s w =
     (case Session_Checkpoint (ee_decode_cursor M) eventsCursorSource s of
        Inl err \<Rightarrow> (s, w, Inl (EvmError err))
      | Inr (Some cursor) \<Rightarrow>
          if ec_ChainID cursor \<noteq> pv_chain (mv_provider M) \<or> ec_Filter cursor \<noteq> ev_Filter e
          then (s, w, fails ''quicknode evm: saved event source differs from this chain or filter'')
          else if (ec_CurrentBlock cursor = '''') \<noteq> (ec_NextLog cursor = 0)
          then (s, w, fails ''quicknode evm: event cursor has inconsistent block and log progress'')
          else (s, w, Inr cursor)
      | Inr None \<Rightarrow>
          (case (case ev_BackfillFrom e of
                   Some n \<Rightarrow> (w, Inr n)
                 | None \<Rightarrow> and_then (blockNumber (mv_provider M) w) (\<lambda>head w.
                     (w, Inr (if head \<ge> confirmations then head - confirmations + 1 else 0)))) of
             (w1, Inl err) \<Rightarrow> (s, w1, Inl err)
           | (w1, Inr n) \<Rightarrow>
               let cursor = \<lparr>ec_ChainID = pv_chain (mv_provider M), ec_Filter = ev_Filter e, ec_NextBlock = n,
                             ec_CanonicalParent = '''', ec_CurrentBlock = '''', ec_NextLog = 0\<rparr> in
               case events_commit M (Some cursor) None None s w1 of
                 (s', w2, Some err) \<Rightarrow> (s', w2, Inl err)
               | (s', w2, None) \<Rightarrow> (s', w2, Inr cursor)))"

definition loadLive :: "'w Events \<Rightarrow> ('v, 'w) events_env \<Rightarrow> Session \<Rightarrow> eventsLive evm" where
  "loadLive e M s =
     (case Session_Checkpoint (ee_decode_live M) eventsLiveSource s of
        Inl err \<Rightarrow> Inl (EvmError err)
      | Inr None \<Rightarrow> Inr \<lparr>el_ChainID = pv_chain (mv_provider M), el_Filter = ev_Filter e, el_Logs = []\<rparr>
      | Inr (Some live) \<Rightarrow>
          if el_ChainID live \<noteq> pv_chain (mv_provider M) \<or> el_Filter live \<noteq> ev_Filter e
          then fails ''quicknode evm: saved live source differs from this chain or filter''
          else if length (el_Logs live) > maxLiveLogs
          then fails ''quicknode evm: live log journal exceeds its bound''
          else Inr live)"

section \<open>Live logs\<close>

text \<open>The index of the first log with the ID, or \<open>None\<close> for -1.\<close>

fun liveLogIndex :: "Log list \<Rightarrow> string \<Rightarrow> nat option" where
  "liveLogIndex [] i = None"
| "liveLogIndex (l # ls) i = (if Log_ID l = i then Some 0 else map_option Suc (liveLogIndex ls i))"

definition without :: "nat \<Rightarrow> eventsLive \<Rightarrow> eventsLive" where
  "without k live = live\<lparr>el_Logs := take k (el_Logs live) @ drop (Suc k) (el_Logs live)\<rparr>"

definition handleLive ::
    "('v, 'w) events_env \<Rightarrow> Log \<Rightarrow> eventsLive \<Rightarrow> Session \<Rightarrow> 'w \<Rightarrow> eventsLive \<times> Session \<times> 'w \<times> evm_error option" where
  "handleLive M log live s w =
     (case liveLogIndex (el_Logs live) (Log_ID log) of
        None \<Rightarrow>
          if lg_Removed log then (live, s, w, None)
          else if length (el_Logs live) = maxLiveLogs
          then (live, s, w, Some (EvmError (Errorf ''quicknode evm: live log journal is full'')))
          else let log = log\<lparr>lg_Confirmed := False\<rparr> in
            (case events_handle M log w of
               (w1, Inl err) \<Rightarrow> (live, s, w1, Some err)
             | (w1, Inr update) \<Rightarrow>
                 let live' = live\<lparr>el_Logs := el_Logs live @ [log]\<rparr> in
                 case events_commit M None (Some live') update s w1 of
                   (s', w2, Some err) \<Rightarrow> (live, s', w2, Some err)
                 | (s', w2, None) \<Rightarrow> (live', s', w2, None))
      | Some k \<Rightarrow>
          if lg_Removed log
          then (case events_handle M ((el_Logs live ! k)\<lparr>lg_Removed := True\<rparr>) w of
              (w1, Inl err) \<Rightarrow> (live, s, w1, Some err)
            | (w1, Inr update) \<Rightarrow> (case events_commit M None (Some (without k live)) update s w1 of
                (s', w2, Some err) \<Rightarrow> (live, s', w2, Some err)
              | (s', w2, None) \<Rightarrow> (without k live, s', w2, None)))
          else (live, s, w, None))"

section \<open>Replay\<close>

definition reconciled :: "eventsCursor \<Rightarrow> Log \<Rightarrow> bool" where
  "reconciled cursor log \<longleftrightarrow>
     lg_BlockNumber log < ec_NextBlock cursor \<or>
     (lg_BlockNumber log = ec_NextBlock cursor \<and> ec_CurrentBlock cursor = lg_BlockHash log \<and>
      lg_LogIndex log < ec_NextLog cursor)"

definition validateBoundary :: "'w provider \<Rightarrow> eventsCursor \<Rightarrow> 'w \<Rightarrow> 'w \<times> evm_error option" where
  "validateBoundary P cursor w =
     (if ec_CurrentBlock cursor \<noteq> ''''
      then (case blockByNumber P (ec_NextBlock cursor) w of
          (w1, Inl e) \<Rightarrow> (w1, Some e)
        | (w1, Inr block) \<Rightarrow>
            (w1, if rh_Hash block \<noteq> ec_CurrentBlock cursor
                 then Some (EvmError (Errorf ''quicknode evm: block changed during replay'')) else None))
      else if ec_NextBlock cursor = 0 \<or> ec_CanonicalParent cursor = '''' then (w, None)
      else (case blockByNumber P (ec_NextBlock cursor - 1) w of
          (w1, Inl e) \<Rightarrow> (w1, Some e)
        | (w1, Inr parent) \<Rightarrow>
            (w1, if rh_Hash parent \<noteq> ec_CanonicalParent cursor
                 then Some (EvmError (Errorf ''quicknode evm: canonical history changed'')) else None)))"

text \<open>
  The first live log of the range that the replay does not have: an error when its block is
  still canonical, else it is handled as removed.  The list is what is left of the loop's range.
\<close>

fun orphan_from ::
    "('v, 'w) events_env \<Rightarrow> uint64 \<Rightarrow> uint64 \<Rightarrow> Log list \<Rightarrow> eventsLive \<Rightarrow> nat \<Rightarrow> Log list \<Rightarrow> Session \<Rightarrow> 'w \<Rightarrow>
     eventsLive \<times> Session \<times> 'w \<times> bool evm" where
  "orphan_from M start to canonical live k [] s w = (live, s, w, Inr False)"
| "orphan_from M start to canonical live k (observed # rest) s w =
     (if lg_BlockNumber observed < start \<or> lg_BlockNumber observed > to \<or>
         liveLogIndex canonical (Log_ID observed) \<noteq> None
      then orphan_from M start to canonical live (Suc k) rest s w
      else case blockByNumber (mv_provider M) (lg_BlockNumber observed) w of
        (w1, Inl e) \<Rightarrow> (live, s, w1, Inl e)
      | (w1, Inr block) \<Rightarrow>
          if rh_Hash block = lg_BlockHash observed
          then (live, s, w1, fails ''quicknode evm: canonical log is temporarily absent from replay'')
          else case events_handle M (observed\<lparr>lg_Removed := True\<rparr>) w1 of
            (w2, Inl e) \<Rightarrow> (live, s, w2, Inl e)
          | (w2, Inr update) \<Rightarrow> (case events_commit M None (Some (without k live)) update s w2 of
              (s', w3, Some e) \<Rightarrow> (live, s', w3, Inl e)
            | (s', w3, None) \<Rightarrow> (without k live, s', w3, Inr True)))"

definition reconcileRangeOrphan ::
    "('v, 'w) events_env \<Rightarrow> uint64 \<Rightarrow> uint64 \<Rightarrow> Log list \<Rightarrow> eventsLive \<Rightarrow> Session \<Rightarrow> 'w \<Rightarrow>
     eventsLive \<times> Session \<times> 'w \<times> bool evm" where
  "reconcileRangeOrphan M start to canonical live s w = orphan_from M start to canonical live 0 (el_Logs live) s w"

definition past_log :: "Log \<Rightarrow> eventsCursor \<Rightarrow> eventsCursor" where
  "past_log log cursor =
     cursor\<lparr>ec_NextBlock := lg_BlockNumber log, ec_CurrentBlock := lg_BlockHash log, ec_NextLog := lg_LogIndex log + 1\<rparr>"

definition without_log :: "Log \<Rightarrow> eventsLive \<Rightarrow> eventsLive" where
  "without_log log live =
     (case liveLogIndex (el_Logs live) (Log_ID log) of None \<Rightarrow> live | Some k \<Rightarrow> without k live)"

fun replay_logs ::
    "('v, 'w) events_env \<Rightarrow> Log list \<Rightarrow> eventsCursor \<Rightarrow> eventsLive \<Rightarrow> Session \<Rightarrow> 'w \<Rightarrow>
     eventsCursor \<times> eventsLive \<times> Session \<times> 'w \<times> evm_error option" where
  "replay_logs M [] cursor live s w = (cursor, live, s, w, None)"
| "replay_logs M (log # logs) cursor live s w =
     (if reconciled cursor log then replay_logs M logs cursor live s w
      else case events_handle M (log\<lparr>lg_Confirmed := True\<rparr>) w of
        (w1, Inl e) \<Rightarrow> (cursor, live, s, w1, Some e)
      | (w1, Inr update) \<Rightarrow>
          (case events_commit M (Some (past_log log cursor)) (Some (without_log log live)) update s w1 of
             (s', w2, Some e) \<Rightarrow> (cursor, live, s', w2, Some e)
           | (s', w2, None) \<Rightarrow> replay_logs M logs (past_log log cursor) (without_log log live) s' w2))"

text \<open>
  \<open>sort.Slice\<close> on block, transaction and log index; logs that agree on all three, which a node
  does not have, keep their order here.
\<close>

definition sort_logs :: "Log list \<Rightarrow> Log list" where
  "sort_logs = sort_key (\<lambda>l. (lg_BlockNumber l, lg_TxIndex l, lg_LogIndex l))"

definition range_end :: "uint64 \<Rightarrow> eventsCursor \<Rightarrow> uint64 \<Rightarrow> uint64" where
  "range_end backfillRange cursor target =
     min (ec_NextBlock cursor + (if backfillRange = 0 then defaultBackfillRange else backfillRange) - 1) target"

definition finish_range ::
    "('v, 'w) events_env \<Rightarrow> uint64 \<Rightarrow> uint64 \<Rightarrow> eventsCursor \<Rightarrow> eventsLive \<Rightarrow> Session \<Rightarrow> 'w \<Rightarrow>
     eventsCursor \<times> eventsLive \<times> Session \<times> 'w \<times> bool evm" where
  "finish_range M to target cursor live s w =
     (case blockByNumber (mv_provider M) to w of
        (w1, Inl e) \<Rightarrow> (cursor, live, s, w1, Inl e)
      | (w1, Inr last_block) \<Rightarrow>
          let cursor' = \<lparr>ec_ChainID = pv_chain (mv_provider M), ec_Filter = ec_Filter cursor, ec_NextBlock = to + 1,
                         ec_CanonicalParent = rh_Hash last_block, ec_CurrentBlock = '''', ec_NextLog = 0\<rparr> in
          case events_commit M (Some cursor') None None s w1 of
            (s', w2, Some e) \<Rightarrow> (cursor, live, s', w2, Inl e)
          | (s', w2, None) \<Rightarrow> (cursor', live, s', w2, Inr (to = target)))"

definition reconcileRange ::
    "'w Events \<Rightarrow> ('v, 'w) events_env \<Rightarrow> uint64 \<Rightarrow> uint64 \<Rightarrow> eventsCursor \<Rightarrow> eventsLive \<Rightarrow> Session \<Rightarrow> 'w \<Rightarrow>
     eventsCursor \<times> eventsLive \<times> Session \<times> 'w \<times> bool evm" where
  "reconcileRange e M to target cursor live s w =
     (case validateBoundary (mv_provider M) cursor w of
        (w1, Some err) \<Rightarrow> (cursor, live, s, w1, Inl err)
      | (w1, None) \<Rightarrow> (case logs_in (mv_provider M) (ev_Filter e) (ec_NextBlock cursor) to w1 of
          (w2, Inl err) \<Rightarrow> (cursor, live, s, w2, Inl err)
        | (w2, Inr logs) \<Rightarrow> (case reconcileRangeOrphan M (ec_NextBlock cursor) to logs live s w2 of
            (live1, s1, w3, Inl err) \<Rightarrow> (cursor, live1, s1, w3, Inl err)
          | (live1, s1, w3, Inr True) \<Rightarrow> (cursor, live1, s1, w3, Inr False)
          | (live1, s1, w3, Inr False) \<Rightarrow> (case replay_logs M (sort_logs logs) cursor live1 s1 w3 of
              (cursor2, live2, s2, w4, Some err) \<Rightarrow> (cursor2, live2, s2, w4, Inl err)
            | (cursor2, live2, s2, w4, None) \<Rightarrow> finish_range M to target cursor2 live2 s2 w4))))"

definition reconcileOne ::
    "'w Events \<Rightarrow> ('v, 'w) events_env \<Rightarrow> uint64 \<Rightarrow> eventsCursor \<Rightarrow> eventsLive \<Rightarrow> Session \<Rightarrow> 'w \<Rightarrow>
     eventsCursor \<times> eventsLive \<times> Session \<times> 'w \<times> bool evm" where
  "reconcileOne e M confirmations cursor live s w =
     (case blockNumber (mv_provider M) w of
        (w1, Inl err) \<Rightarrow> (cursor, live, s, w1, Inl err)
      | (w1, Inr head) \<Rightarrow>
          if head < confirmations \<or> ec_NextBlock cursor > head - confirmations then (cursor, live, s, w1, Inr True)
          else reconcileRange e M (range_end (ev_BackfillRange e) cursor (head - confirmations)) (head - confirmations)
                 cursor live s w1)"

section \<open>Running\<close>

text \<open>
  \<open>run\<close> reads two channels and a ticker.  The loop first drains the subscription without blocking,
  at most 64 logs, then replays one range; once it has caught up it waits for any of its inputs.
  The model is driven by the list of what the reads find: \<open>Nothing\<close> is the default branch of the
  draining \<open>select\<close>, which any input but the subscription's counts as.  The result is \<open>Inr\<close> while
  the run goes on.
\<close>

datatype reading =
    Cancelled go_error
  | LogArrived Log
  | LogsClosed
  | StreamErr "evm_error option"
  | Ticked
  | Nothing

datatype phase = Drain nat | Select

type_synonym events_state = "phase \<times> eventsCursor \<times> eventsLive"

definition reconcile_phase ::
    "'w Events \<Rightarrow> ('v, 'w) events_env \<Rightarrow> uint64 \<Rightarrow> eventsCursor \<Rightarrow> eventsLive \<Rightarrow> Session \<Rightarrow> 'w \<Rightarrow>
     Session \<times> 'w \<times> events_state evm" where
  "reconcile_phase e M confirmations cursor live s w =
     (case reconcileOne e M confirmations cursor live s w of
        (cursor', live', s', w', Inl err) \<Rightarrow> (s', w', Inl err)
      | (cursor', live', s', w', Inr caughtUp) \<Rightarrow>
          (s', w', Inr (if caughtUp then Select else Drain 0, cursor', live')))"

definition live_phase ::
    "('v, 'w) events_env \<Rightarrow> Log \<Rightarrow> phase \<Rightarrow> eventsCursor \<Rightarrow> eventsLive \<Rightarrow> Session \<Rightarrow> 'w \<Rightarrow>
     Session \<times> 'w \<times> events_state evm" where
  "live_phase M log next_phase cursor live s w =
     (case handleLive M log live s w of
        (live', s', w', Some err) \<Rightarrow> (s', w', Inl err)
      | (live', s', w', None) \<Rightarrow> (s', w', Inr (next_phase, cursor, live')))"

definition events_step ::
    "'w Events \<Rightarrow> ('v, 'w) events_env \<Rightarrow> uint64 \<Rightarrow> reading \<Rightarrow> phase \<Rightarrow> eventsCursor \<Rightarrow> eventsLive \<Rightarrow> Session \<Rightarrow> 'w \<Rightarrow>
     Session \<times> 'w \<times> events_state evm" where
  "events_step e M confirmations input ph cursor live s w =
     (case ph of
        Drain n \<Rightarrow> (case input of
            LogArrived log \<Rightarrow>
              if Suc n < 64 then live_phase M log (Drain (Suc n)) cursor live s w
              else (case handleLive M log live s w of
                  (live', s', w', Some err) \<Rightarrow> (s', w', Inl err)
                | (live', s', w', None) \<Rightarrow> reconcile_phase e M confirmations cursor live' s' w')
          | LogsClosed \<Rightarrow> (s, w, fails ''quicknode evm: log subscription closed'')
          | _ \<Rightarrow> reconcile_phase e M confirmations cursor live s w)
      | Select \<Rightarrow> (case input of
            Cancelled err \<Rightarrow> (s, w, Inl (EvmError err))
          | LogArrived log \<Rightarrow> live_phase M log (Drain 0) cursor live s w
          | LogsClosed \<Rightarrow> (s, w, fails ''quicknode evm: log subscription closed'')
          | StreamErr (Some err) \<Rightarrow> (s, w, Inl err)
          | StreamErr None \<Rightarrow> (s, w, fails ''quicknode evm: log subscription stopped'')
          | Ticked \<Rightarrow> (s, w, Inr (Drain 0, cursor, live))
          | Nothing \<Rightarrow> (s, w, Inr (Select, cursor, live))))"

fun events_loop ::
    "'w Events \<Rightarrow> ('v, 'w) events_env \<Rightarrow> uint64 \<Rightarrow> reading list \<Rightarrow> phase \<Rightarrow> eventsCursor \<Rightarrow> eventsLive \<Rightarrow> Session \<Rightarrow> 'w \<Rightarrow>
     Session \<times> 'w \<times> events_state evm" where
  "events_loop e M confirmations [] ph cursor live s w = (s, w, Inr (ph, cursor, live))"
| "events_loop e M confirmations (input # inputs) ph cursor live s w =
     (case events_step e M confirmations input ph cursor live s w of
        (s', w', Inl err) \<Rightarrow> (s', w', Inl err)
      | (s', w', Inr (ph', cursor', live')) \<Rightarrow> events_loop e M confirmations inputs ph' cursor' live' s' w')"

definition events_open ::
    "'w Events \<Rightarrow> ('v, 'w) events_env \<Rightarrow> bool \<Rightarrow> ('w \<Rightarrow> 'w \<times> evm_error option) \<Rightarrow> reading list \<Rightarrow> Session \<Rightarrow> 'w \<Rightarrow>
     Session \<times> 'w \<times> events_state evm" where
  "events_open e M defaults subscribe inputs s w =
     (let chain = pv_chain (mv_provider M); expected = expected_chain (ev_ExpectedChainID e) defaults in
      if expected \<noteq> '''' \<and> chain \<noteq> expected then (s, w, fails ''quicknode evm: expected chain'')
      else case confirmationDepth chain (ev_Confirmations e) of
        Inl err \<Rightarrow> (s, w, Inl err)
      | Inr confirmations \<Rightarrow> (case subscribe w of
          (w1, Some err) \<Rightarrow> (s, w1, Inl err)
        | (w1, None) \<Rightarrow> (case loadCursor e M confirmations s w1 of
            (s', w2, Inl err) \<Rightarrow> (s', w2, Inl err)
          | (s', w2, Inr cursor) \<Rightarrow> (case loadLive e M s' of
              Inl err \<Rightarrow> (s', w2, Inl err)
            | Inr live \<Rightarrow> events_loop e M confirmations inputs (Drain 0) cursor live s' w2))))"

definition Events_run ::
    "'w Events \<Rightarrow> ('v, 'w) events_env \<Rightarrow> (string \<Rightarrow> rpc_param list \<Rightarrow> 'w \<Rightarrow> 'w \<times> string evm) \<Rightarrow>
     ('w \<Rightarrow> 'w \<times> evm_error option) \<Rightarrow> reading list \<Rightarrow> Session \<Rightarrow> 'w \<Rightarrow> Session \<times> 'w \<times> events_state evm" where
  "Events_run e M ws_call subscribe inputs s w =
     (case ee_handle M of
        None \<Rightarrow> (s, w, fails ''quicknode evm: Events.Handle is required'')
      | Some _ \<Rightarrow> (case Logs_Validate (ev_Filter e) of
          Some err \<Rightarrow> (s, w, Inl err)
        | None \<Rightarrow> (case endpoints (ev_HTTPURL e) (ev_WSSURL e) (ev_HTTPSecret e) (ev_WSSSecret e) s of
            Inl err \<Rightarrow> (s, w, Inl err)
          | Inr (httpURL, wssURL, defaults) \<Rightarrow> (case OpenClient (mv_provider M) ws_call httpURL wssURL w of
              (w1, Inl err) \<Rightarrow> (s, w1, Inl err)
            | (w1, Inr P) \<Rightarrow> events_open e (M\<lparr>mv_provider := P\<rparr>) defaults subscribe inputs s w1))))"

end
