(* ===== verification/EventsTheorems.thy ===== *)
theory EventsTheorems
  imports EvmEvents SessionCommits
begin

text \<open>
  What the event source of \<open>EvmEvents\<close> guarantees: its two checkpoints always resume exactly where
  the source is, its journal of live logs is bounded and has no log twice, and the replay handles
  every log of a range once, whatever fails in between.
\<close>

section \<open>Commits\<close>

text \<open>The parameters of the environment: JSON is never empty and reads back what it wrote.\<close>

definition json_ok :: "('v, 'w) events_env \<Rightarrow> bool" where
  "json_ok M \<longleftrightarrow>
     (\<forall>c. ee_encode_cursor M c \<noteq> Some '''') \<and> (\<forall>l. ee_encode_live M l \<noteq> Some '''') \<and>
     (\<forall>c raw. ee_encode_cursor M c = Some raw \<longrightarrow> ee_decode_cursor M raw = Some (c, True)) \<and>
     (\<forall>l raw. ee_encode_live M l = Some raw \<longrightarrow> ee_decode_live M raw = Some (l, True))"

text \<open>The monitor's updates do not write the two checkpoints of the source.\<close>

definition private_checkpoints :: "('v, 'w) events_env \<Rightarrow> bool" where
  "private_checkpoints M \<longleftrightarrow>
     (\<forall>log w w' u tx tx'. events_handle M log w = (w', Inr u) \<longrightarrow>
        run_closure (mv_clone M) (with_update u (Return None)) tx = (tx', None) \<longrightarrow>
        map_of (tx_checkpoints tx') eventsCursorSource = map_of (tx_checkpoints tx) eventsCursorSource \<and>
        map_of (tx_checkpoints tx') eventsLiveSource = map_of (tx_checkpoints tx) eventsLiveSource)"

definition quiet :: "('v, 'w) events_env \<Rightarrow> 'v closure option \<Rightarrow> bool" where
  "quiet M u \<longleftrightarrow> (\<forall>tx tx'. run_closure (mv_clone M) (with_update u (Return None)) tx = (tx', None) \<longrightarrow>
     map_of (tx_checkpoints tx') eventsCursorSource = map_of (tx_checkpoints tx) eventsCursorSource \<and>
     map_of (tx_checkpoints tx') eventsLiveSource = map_of (tx_checkpoints tx) eventsLiveSource)"

lemma quiet_None: "quiet M None"
  by (simp add: quiet_def with_update_def)

lemma quiet_handle: "private_checkpoints M \<Longrightarrow> events_handle M log w = (w', Inr u) \<Longrightarrow> quiet M u"
  unfolding private_checkpoints_def quiet_def by (intro allI impI) (drule spec, blast)

lemma sources_differ [simp]: "eventsCursorSource \<noteq> eventsLiveSource" "eventsLiveSource \<noteq> eventsCursorSource"
  "eventsCursorSource \<noteq> ''''" "eventsLiveSource \<noteq> ''''"
  by (simp_all add: eventsCursorSource_def eventsLiveSource_def)

definition stored :: "string \<Rightarrow> string option \<Rightarrow> Session \<Rightarrow> bool" where
  "stored source raw s \<longleftrightarrow> (\<exists>r. raw = Some r \<and> map_of (ss_checkpoints s) source = Some r)"

lemma events_commit_success:
  assumes law: "lawful M" and json: "json_ok M" and ok: "entries_ok (ss_checkpoints s)"
    and run: "events_commit M c l u s w = (s', w', None)" and quiet: "quiet M u"
  obtains v tx where "decodeState (mv_codec M) (ss_state s) = Inr v"
    "run_closure (mv_clone M) (with_update u (Return None)) (start_tx v s) = (tx, None)"
    "decodeState (mv_codec M) (ss_state s') = Inr (tx_State tx)" "entries_ok (ss_checkpoints s')"
    "case c of Some c0 \<Rightarrow> stored eventsCursorSource (ee_encode_cursor M c0) s'
       | None \<Rightarrow> map_of (ss_checkpoints s') eventsCursorSource = map_of (ss_checkpoints s) eventsCursorSource"
    "case l of Some l0 \<Rightarrow> stored eventsLiveSource (ee_encode_live M l0) s'
       | None \<Rightarrow> map_of (ss_checkpoints s') eventsLiveSource = map_of (ss_checkpoints s) eventsLiveSource"
proof -
  obtain v tx where tx: "decodeState (mv_codec M) (ss_state s) = Inr v"
    "run_closure (mv_clone M) (events_closure M c l u) (start_tx v s) = (tx, None)"
    "decodeState (mv_codec M) (ss_state s') = Inr (tx_State tx)"
    "ss_checkpoints s' = put_entries (changed_checkpoints s (tx_checkpoints tx)) (ss_checkpoints s)"
    by (rule session_commit_success [OF law run [unfolded events_commit_def]])
  let ?live = "case l of None \<Rightarrow> Return None | Some l0 \<Rightarrow> DoCheckpoint eventsLiveSource (ee_encode_live M l0) Return"
  let ?rest = "case c of None \<Rightarrow> ?live | Some c0 \<Rightarrow> DoCheckpoint eventsCursorSource (ee_encode_cursor M c0)
    (\<lambda>err. case err of Some e \<Rightarrow> Return (Some e) | None \<Rightarrow> ?live)"
  obtain tx1 where tx1: "run_closure (mv_clone M) (with_update u (Return None)) (start_tx v s) = (tx1, None)"
    "run_closure (mv_clone M) ?rest tx1 = (tx, None)"
    using run_with_update [OF tx(2) [unfolded events_closure_def Let_def]] by (elim exE conjE)
  have ok1: "entries_ok (tx_checkpoints tx1)" "entries_ok (tx_checkpoints tx)"
    using start_tx_ok [OF tx1(1)] start_tx_ok [OF tx(2)] by (simp_all add: tx_ok_def)
  have none: "map_of (tx_checkpoints tx1) eventsCursorSource = None" "map_of (tx_checkpoints tx1) eventsLiveSource = None"
    using quiet [unfolded quiet_def, rule_format, OF tx1(1)] by (simp_all add: start_tx_def)
  obtain txc where txc: "tx_State txc = tx_State tx1" "entries_ok (tx_checkpoints txc)"
    "map_of (tx_checkpoints txc) eventsLiveSource = None"
    "case c of None \<Rightarrow> txc = tx1 | Some c0 \<Rightarrow> map_of (tx_checkpoints txc) eventsCursorSource = ee_encode_cursor M c0 \<and>
       ee_encode_cursor M c0 \<noteq> None"
    "run_closure (mv_clone M) ?live txc = (tx, None)"
  proof (cases c)
    case None
    then show thesis using that [of tx1] tx1(2) ok1(1) none by simp
  next
    case (Some c0)
    then obtain r where r: "ee_encode_cursor M c0 = Some r"
      using tx1(2) by (cases "ee_encode_cursor M c0") (simp_all add: Tx_Checkpoint_def)
    show thesis
      by (rule that [of "tx1\<lparr>tx_checkpoints := put_entry eventsCursorSource r (tx_checkpoints tx1)\<rparr>"])
        (use tx1(2) ok1(1) none Some r in \<open>simp_all add: Tx_Checkpoint_def map_of_put_entry put_entry_ok\<close>)
  qed
  have txl: "tx_State tx = tx_State txc \<and>
    map_of (tx_checkpoints tx) eventsCursorSource = map_of (tx_checkpoints txc) eventsCursorSource \<and>
    (case l of None \<Rightarrow> tx = txc | Some l0 \<Rightarrow> map_of (tx_checkpoints tx) eventsLiveSource = ee_encode_live M l0 \<and>
       ee_encode_live M l0 \<noteq> None)"
    using txc(5,2) by (cases l) (auto simp: Tx_Checkpoint_def map_of_put_entry split: option.splits)
  have cursor: "case c of Some c0 \<Rightarrow> stored eventsCursorSource (ee_encode_cursor M c0) s'
       | None \<Rightarrow> map_of (ss_checkpoints s') eventsCursorSource = map_of (ss_checkpoints s) eventsCursorSource"
  proof (cases c)
    case None
    then show ?thesis using txl txc(4) none changed_checkpoints_other [OF ok ok1(2)] by (simp add: tx(4))
  next
    case (Some c0)
    then obtain r where "ee_encode_cursor M c0 = Some r" "map_of (tx_checkpoints tx) eventsCursorSource = Some r"
      using txl txc(4) by auto
    then show ?thesis using Some changed_checkpoints_covers [OF ok ok1(2)] json
      by (auto simp: stored_def tx(4) json_ok_def)
  qed
  have live: "case l of Some l0 \<Rightarrow> stored eventsLiveSource (ee_encode_live M l0) s'
       | None \<Rightarrow> map_of (ss_checkpoints s') eventsLiveSource = map_of (ss_checkpoints s) eventsLiveSource"
  proof (cases l)
    case None
    then show ?thesis using txl txc(3) changed_checkpoints_other [OF ok ok1(2)] by (simp add: tx(4))
  next
    case (Some l0)
    then obtain r where "ee_encode_live M l0 = Some r" "map_of (tx_checkpoints tx) eventsLiveSource = Some r"
      using txl by auto
    then show ?thesis using Some changed_checkpoints_covers [OF ok ok1(2)] json
      by (auto simp: stored_def tx(4) json_ok_def)
  qed
  show thesis
    by (rule that [OF tx(1) tx1(1) _ _ cursor live])
      (use tx(3) txl txc(1) put_entries_ok [OF ok] in \<open>simp_all add: tx(4)\<close>)
qed

lemma events_commit_error: "lawful M \<Longrightarrow> events_commit M c l u s w = (s', w', Some e) \<Longrightarrow> s' = s"
  unfolding events_commit_def by (rule session_commit_error)

section \<open>Invariants\<close>

definition cursor_ok :: "'w Events \<Rightarrow> ('v, 'w) events_env \<Rightarrow> eventsCursor \<Rightarrow> bool" where
  "cursor_ok e M c \<longleftrightarrow> ec_ChainID c = pv_chain (mv_provider M) \<and> ec_Filter c = ev_Filter e \<and>
     (ec_CurrentBlock c = '''' \<longleftrightarrow> ec_NextLog c = 0)"

definition live_ok :: "'w Events \<Rightarrow> ('v, 'w) events_env \<Rightarrow> eventsLive \<Rightarrow> bool" where
  "live_ok e M l \<longleftrightarrow> el_ChainID l = pv_chain (mv_provider M) \<and> el_Filter l = ev_Filter e \<and>
     length (el_Logs l) \<le> maxLiveLogs \<and> distinct (map Log_ID (el_Logs l))"

text \<open>The session's checkpoints are what is in memory; an empty journal need not be saved.\<close>

definition in_sync :: "('v, 'w) events_env \<Rightarrow> eventsCursor \<Rightarrow> eventsLive \<Rightarrow> Session \<Rightarrow> bool" where
  "in_sync M c l s \<longleftrightarrow> entries_ok (ss_checkpoints s) \<and> stored eventsCursorSource (ee_encode_cursor M c) s \<and>
     (stored eventsLiveSource (ee_encode_live M l) s \<or>
      map_of (ss_checkpoints s) eventsLiveSource = None \<and> el_Logs l = [])"

lemma liveLogIndex_None: "liveLogIndex ls i = None \<longleftrightarrow> i \<notin> Log_ID ` set ls"
  by (induction ls) auto

lemma liveLogIndex_Some: "liveLogIndex ls i = Some k \<Longrightarrow> k < length ls \<and> Log_ID (ls ! k) = i"
  by (induction ls arbitrary: k) (auto split: if_splits)

lemma live_ok_without: "live_ok e M l \<Longrightarrow> live_ok e M (without k l)"
  by (auto simp: live_ok_def without_def take_map [symmetric] drop_map [symmetric] set_take_subset
    dest: in_set_takeD in_set_dropD intro: distinct_take distinct_drop)
    (metis disjoint_iff lessI less_imp_le_nat set_take_disj_set_drop_if_distinct)

lemma live_ok_without_log: "live_ok e M l \<Longrightarrow> live_ok e M (without_log log l)"
  by (auto simp: without_log_def live_ok_without split: option.splits)

lemma events_commit_sync:
  assumes law: "lawful M" "json_ok M" and sync: "in_sync M c l s" and quiet: "quiet M u"
    and run: "events_commit M c' l' u s w = (s', w', None)"
  shows "in_sync M (case c' of None \<Rightarrow> c | Some x \<Rightarrow> x) (case l' of None \<Rightarrow> l | Some x \<Rightarrow> x) s'"
proof -
  have "entries_ok (ss_checkpoints s)" using sync by (simp add: in_sync_def)
  from events_commit_success [OF law this run quiet] obtain
    ok: "entries_ok (ss_checkpoints s')" and
    c: "case c' of Some c0 \<Rightarrow> stored eventsCursorSource (ee_encode_cursor M c0) s'
       | None \<Rightarrow> map_of (ss_checkpoints s') eventsCursorSource = map_of (ss_checkpoints s) eventsCursorSource" and
    l: "case l' of Some l0 \<Rightarrow> stored eventsLiveSource (ee_encode_live M l0) s'
       | None \<Rightarrow> map_of (ss_checkpoints s') eventsLiveSource = map_of (ss_checkpoints s) eventsLiveSource"
    by blast
  then show ?thesis using sync by (cases c'; cases l') (auto simp: in_sync_def stored_def)
qed

lemma handled_sync:
  assumes "lawful M" "json_ok M" "private_checkpoints M" "in_sync M c l s"
    and "events_handle M log w = (w1, Inr u)" "events_commit M c' l' u s w1 = (s1, w2, None)"
  shows "in_sync M (case c' of None \<Rightarrow> c | Some x \<Rightarrow> x) (case l' of None \<Rightarrow> l | Some x \<Rightarrow> x) s1"
  by (rule events_commit_sync [OF assms(1,2,4) quiet_handle [OF assms(3,5)] assms(6)])

lemma live_ok_snoc:
  assumes "live_ok e M live" "length (el_Logs live) \<noteq> maxLiveLogs" "liveLogIndex (el_Logs live) (Log_ID log) = None"
  shows "live_ok e M (live\<lparr>el_Logs := el_Logs live @ [log\<lparr>lg_Confirmed := False\<rparr>]\<rparr>)"
  using assms by (auto simp: live_ok_def liveLogIndex_None Log_ID_def)

lemma handleLive_keeps:
  assumes law: "lawful M" "json_ok M" "private_checkpoints M" and live: "live_ok e M live" and sync: "in_sync M c live s"
    and run: "handleLive M log live s w = (live', s', w', err)"
  shows "live_ok e M live' \<and> in_sync M c live' s'"
proof -
  have "live' = live \<and> s' = s \<or> (\<exists>u w0 w1 w2 x. live_ok e M live' \<and> events_handle M x w0 = (w1, Inr u) \<and>
      events_commit M None (Some live') u s w1 = (s', w2, None))"
    using run live_ok_snoc [OF live, of log] live_ok_without [OF live] events_commit_error [OF law(1)]
    by (fastforce simp: handleLive_def Let_def split: option.splits if_splits prod.splits sum.splits)
  then show ?thesis
  proof (elim disjE exE conjE)
    fix u w0 w1 w2 x
    assume "live_ok e M live'" and h: "events_handle M x w0 = (w1, Inr u)"
      and c: "events_commit M None (Some live') u s w1 = (s', w2, None)"
    then show ?thesis using handled_sync [OF law sync h c] by simp
  qed (use live sync in simp)
qed

lemma orphan_keeps:
  assumes law: "lawful M" "json_ok M" "private_checkpoints M" and live: "live_ok e M live" and sync: "in_sync M c live s"
  shows "orphan_from M start to canonical live k logs s w = (live', s', w', r) \<Longrightarrow> live_ok e M live' \<and> in_sync M c live' s'"
proof (induction logs arbitrary: k w)
  case (Cons x logs)
  have "live' = live \<and> s' = s \<or> (\<exists>k w. orphan_from M start to canonical live k logs s w = (live', s', w', r)) \<or>
    (\<exists>u w0 w1 w2 x. live_ok e M live' \<and> events_handle M x w0 = (w1, Inr u) \<and>
      events_commit M None (Some live') u s w1 = (s', w2, None))"
    using Cons.prems live_ok_without [OF live] events_commit_error [OF law(1)]
    by (fastforce split: if_splits prod.splits sum.splits option.splits)
  then show ?case
  proof (elim disjE exE conjE)
    fix u w0 w1 w2 x
    assume "live_ok e M live'" and h: "events_handle M x w0 = (w1, Inr u)"
      and c: "events_commit M None (Some live') u s w1 = (s', w2, None)"
    then show ?thesis using handled_sync [OF law sync h c] by simp
  qed (use live sync Cons.IH in simp_all)
qed (use live sync in simp)

text \<open>What a node's logs have to be for the cursor that follows them.\<close>

definition sane_log :: "Log \<Rightarrow> bool" where
  "sane_log l \<longleftrightarrow> lg_BlockHash l \<noteq> '''' \<and> lg_LogIndex l \<noteq> - 1"

lemma cursor_ok_past: "cursor_ok e M c \<Longrightarrow> sane_log l \<Longrightarrow> cursor_ok e M (past_log l c)"
  by (auto simp: cursor_ok_def past_log_def sane_log_def eq_neg_iff_add_eq_0)

lemma replay_keeps:
  assumes law: "lawful M" "json_ok M" "private_checkpoints M"
  shows "replay_logs M logs c live s w = (c', live', s', w', r) \<Longrightarrow> \<forall>l\<in>set logs. sane_log l \<Longrightarrow>
    cursor_ok e M c \<Longrightarrow> live_ok e M live \<Longrightarrow> in_sync M c live s \<Longrightarrow>
    cursor_ok e M c' \<and> live_ok e M live' \<and> in_sync M c' live' s'"
proof (induction logs arbitrary: c live s w)
  case (Cons x logs)
  have "(c' = c \<and> live' = live \<and> s' = s) \<or> (\<exists>w. replay_logs M logs c live s w = (c', live', s', w', r)) \<or>
    (\<exists>u w1 w2 s1. events_handle M (x\<lparr>lg_Confirmed := True\<rparr>) w = (w1, Inr u) \<and>
      events_commit M (Some (past_log x c)) (Some (without_log x live)) u s w1 = (s1, w2, None) \<and>
      replay_logs M logs (past_log x c) (without_log x live) s1 w2 = (c', live', s', w', r))"
    using Cons.prems(1) events_commit_error [OF law(1)]
    by (fastforce split: if_splits prod.splits sum.splits option.splits)
  then show ?case
  proof (elim disjE exE conjE)
    fix u w1 w2 s1
    assume h: "events_handle M (x\<lparr>lg_Confirmed := True\<rparr>) w = (w1, Inr u)"
      and c: "events_commit M (Some (past_log x c)) (Some (without_log x live)) u s w1 = (s1, w2, None)"
      and rest: "replay_logs M logs (past_log x c) (without_log x live) s1 w2 = (c', live', s', w', r)"
    show ?thesis
      by (rule Cons.IH [OF rest]) (use Cons.prems cursor_ok_past live_ok_without_log handled_sync [OF law Cons.prems(5) h c] in auto)
  qed (use Cons.prems Cons.IH in auto)
qed simp

text \<open>A node never reports a log at the last \<open>uint64\<close> index of a block.\<close>

definition indexes_fit :: "'w provider \<Rightarrow> bool" where
  "indexes_fit P \<longleftrightarrow> (\<forall>f a b w w' logs l. logs_in P f a b w = (w', Inr logs) \<longrightarrow> l \<in> set logs \<longrightarrow> lg_LogIndex l \<noteq> - 1)"

lemma decode_logs_hashes: "decode_logs chain raw = Inr logs \<Longrightarrow> l \<in> set logs \<Longrightarrow> lg_BlockHash l \<noteq> ''''"
proof (induction raw arbitrary: logs)
  case (Cons r raw)
  have "decodeRPCLog r chain = Inr x \<Longrightarrow> lg_BlockHash x \<noteq> ''''" for x
    by (auto simp: decodeRPCLog_def outcome_simps ParseHash_def fixedHex_def split: if_splits option.splits)
  then show ?case using Cons by (auto simp: outcome_simps)
qed simp

lemma logs_in_sane: "indexes_fit P \<Longrightarrow> logs_in P f a b w = (w', Inr logs) \<Longrightarrow> \<forall>l\<in>set (sort_logs logs). sane_log l"
  by (auto simp: indexes_fit_def sane_log_def sort_logs_def) (auto simp: logs_in_def outcome_simps dest: decode_logs_hashes)

lemma finish_keeps:
  assumes law: "lawful M" "json_ok M" and ok: "cursor_ok e M c" "live_ok e M live" "in_sync M c live s"
    and run: "finish_range M to target c live s w = (c', live', s', w', r)"
  shows "cursor_ok e M c' \<and> live_ok e M live' \<and> in_sync M c' live' s'"
proof -
  have "(c' = c \<and> live' = live \<and> s' = s) \<or> (cursor_ok e M c' \<and> live' = live \<and>
      (\<exists>w1 w2. events_commit M (Some c') None None s w1 = (s', w2, None)))"
    using run ok(1) events_commit_error [OF law(1)]
    by (fastforce simp: finish_range_def Let_def cursor_ok_def split: prod.splits sum.splits option.splits)
  then show ?thesis
  proof (elim disjE exE conjE)
    fix w1 w2
    assume "cursor_ok e M c'" "live' = live" and c: "events_commit M (Some c') None None s w1 = (s', w2, None)"
    then show ?thesis using events_commit_sync [OF law ok(3) quiet_None c] ok(2) by simp
  qed (use ok in simp)
qed

lemma reconcileRange_keeps:
  assumes law: "lawful M" "json_ok M" "private_checkpoints M" "indexes_fit (mv_provider M)"
    and ok: "cursor_ok e M c" "live_ok e M live" "in_sync M c live s"
    and run: "reconcileRange e M to target c live s w = (c', live', s', w', r)"
  shows "cursor_ok e M c' \<and> live_ok e M live' \<and> in_sync M c' live' s'"
proof -
  obtain w1 b where b: "validateBoundary (mv_provider M) c w = (w1, b)" by fastforce
  obtain w2 l where l: "logs_in (mv_provider M) (ev_Filter e) (ec_NextBlock c) to w1 = (w2, l)" by fastforce
  show ?thesis
  proof (cases "b = None \<and> (\<exists>logs. l = Inr logs)")
    case False
    then have "c' = c \<and> live' = live \<and> s' = s"
      using run b l by (cases b; cases l) (simp_all add: reconcileRange_def)
    then show ?thesis using ok by simp
  next
    case True
    then obtain logs where b0: "b = None" and l0: "l = Inr logs" by blast
    obtain live1 s1 w3 q where orphan: "reconcileRangeOrphan M (ec_NextBlock c) to logs live s w2 = (live1, s1, w3, q)"
      by (metis prod_cases4)
    have ok1: "live_ok e M live1" "in_sync M c live1 s1"
      using orphan_keeps [OF law(1-3) ok(2,3) orphan [unfolded reconcileRangeOrphan_def]] by simp_all
    obtain c2 live2 s2 w4 e2 where r: "replay_logs M (sort_logs logs) c live1 s1 w3 = (c2, live2, s2, w4, e2)"
      by (metis prod_cases5)
    have ok2: "cursor_ok e M c2" "live_ok e M live2" "in_sync M c2 live2 s2"
      using replay_keeps [OF law(1-3) r logs_in_sane [OF law(4) l [unfolded l0]] ok(1) ok1] by simp_all
    note simps = reconcileRange_def b l b0 l0 orphan r
    consider (stop) "c' = c" "live' = live1" "s' = s1" | (part) "c' = c2" "live' = live2" "s' = s2"
      | (full) "finish_range M to target c2 live2 s2 w4 = (c', live', s', w', r)"
      using run by (cases q; cases e2) (auto simp: simps split: bool.splits)
    then show ?thesis using ok ok1 ok2 finish_keeps [OF law(1,2) ok2] by cases simp_all
  qed
qed

lemma reconcileOne_keeps:
  assumes "lawful M" "json_ok M" "private_checkpoints M" "indexes_fit (mv_provider M)"
    and "cursor_ok e M c" "live_ok e M live" "in_sync M c live s"
    and "reconcileOne e M confirmations c live s w = (c', live', s', w', r)"
  shows "cursor_ok e M c' \<and> live_ok e M live' \<and> in_sync M c' live' s'"
  using assms(5-8) reconcileRange_keeps [OF assms(1-7)]
  by (auto simp: reconcileOne_def split: prod.splits sum.splits if_splits)

text \<open>What the source can resume from.\<close>

definition resumable :: "'w Events \<Rightarrow> ('v, 'w) events_env \<Rightarrow> Session \<Rightarrow> bool" where
  "resumable e M s \<longleftrightarrow> (\<exists>c live. cursor_ok e M c \<and> live_ok e M live \<and> in_sync M c live s)"

lemma events_step_keeps:
  assumes law: "lawful M" "json_ok M" "private_checkpoints M" "indexes_fit (mv_provider M)"
    and ok: "cursor_ok e M c" "live_ok e M live" "in_sync M c live s"
    and run: "events_step e M confirmations input ph c live s w = (s', w', r)"
  shows "case r of Inl err \<Rightarrow> resumable e M s'
    | Inr (ph', c', live') \<Rightarrow> cursor_ok e M c' \<and> live_ok e M live' \<and> in_sync M c' live' s'"
proof -
  have here: "resumable e M s" using ok by (auto simp: resumable_def)
  have reconcile: "case r of Inl err \<Rightarrow> resumable e M s'
    | Inr (ph', c', live') \<Rightarrow> cursor_ok e M c' \<and> live_ok e M live' \<and> in_sync M c' live' s'"
    if "reconcile_phase e M confirmations c x s1 w1 = (s', w', r)" "live_ok e M x" "in_sync M c x s1" for x s1 w1
    using that(1) reconcileOne_keeps [OF law ok(1) that(2,3), of confirmations w1]
    by (auto simp: reconcile_phase_def resumable_def split: prod.splits sum.splits)
  have kept: "live_ok e M x \<and> in_sync M c x s1" if "handleLive M log live s w = (x, s1, w1, err)" for log x s1 w1 err
    by (rule handleLive_keeps [OF law(1-3) ok(2,3) that])
  then have failed: "resumable e M s1" if "handleLive M log live s w = (x, s1, w1, Some err)" for log x s1 w1 err
    using that ok(1) unfolding resumable_def by blast
  have live_part: "case r of Inl err \<Rightarrow> resumable e M s'
    | Inr (ph', c', live') \<Rightarrow> cursor_ok e M c' \<and> live_ok e M live' \<and> in_sync M c' live' s'"
    if "live_phase M log nph c live s w = (s', w', r)" for log nph
    using that failed kept ok(1) by (auto simp: live_phase_def split: prod.splits option.splits)
  have both: "case r of Inl err \<Rightarrow> resumable e M s'
    | Inr (ph', c', live') \<Rightarrow> cursor_ok e M c' \<and> live_ok e M live' \<and> in_sync M c' live' s'"
    if "handleLive M log live s w = (x, s1, w1, None)" "reconcile_phase e M confirmations c x s1 w1 = (s', w', r)"
    for log x s1 w1
    using reconcile [OF that(2)] handleLive_keeps [OF law(1-3) ok(2,3) that(1)] by simp
  show ?thesis
    using run here ok reconcile [OF _ ok(2,3)] live_part both failed
    by (cases ph; cases input) (auto simp: events_step_def split: if_splits prod.splits option.splits)
qed

lemma events_loop_keeps:
  assumes law: "lawful M" "json_ok M" "private_checkpoints M" "indexes_fit (mv_provider M)"
  shows "events_loop e M confirmations inputs ph c live s w = (s', w', r) \<Longrightarrow>
    cursor_ok e M c \<Longrightarrow> live_ok e M live \<Longrightarrow> in_sync M c live s \<Longrightarrow>
    (case r of Inl err \<Rightarrow> resumable e M s'
     | Inr (ph', c', live') \<Rightarrow> cursor_ok e M c' \<and> live_ok e M live' \<and> in_sync M c' live' s')"
proof (induction inputs arbitrary: ph c live s w)
  case (Cons i inputs)
  obtain s1 w1 q where step: "events_step e M confirmations i ph c live s w = (s1, w1, q)" by (metis prod_cases3)
  note keeps = events_step_keeps [OF law Cons.prems(2-4) step]
  show ?case
  proof (cases q)
    case (Inl err)
    then show ?thesis using Cons.prems(1) step keeps by auto
  next
    case (Inr x)
    obtain ph1 c1 live1 where x: "x = (ph1, c1, live1)" by (metis prod_cases3)
    then have "events_loop e M confirmations inputs ph1 c1 live1 s1 w1 = (s', w', r)" using Cons.prems(1) step Inr by simp
    then show ?thesis using Cons.IH keeps Inr x by simp
  qed
qed auto

section \<open>Exactly once\<close>

text \<open>
  The order a node's logs have once sorted: by block and log index, the logs of one block number
  naming one block.
\<close>

definition precedes :: "Log \<Rightarrow> Log \<Rightarrow> bool" where
  "precedes a b \<longleftrightarrow> lg_BlockNumber a < lg_BlockNumber b \<or>
     lg_BlockNumber a = lg_BlockNumber b \<and> lg_BlockHash a = lg_BlockHash b \<and> lg_LogIndex a < lg_LogIndex b"

definition unreconciled :: "eventsCursor \<Rightarrow> Log list \<Rightarrow> Log list" where
  "unreconciled c logs = filter (\<lambda>l. \<not> reconciled c l) logs"

definition logs_handled :: "('v, 'w) events_env \<Rightarrow> (Log \<Rightarrow> 'v \<Rightarrow> 'v) \<Rightarrow> bool" where
  "logs_handled M effect \<longleftrightarrow>
     (\<forall>log w w' u tx tx'. events_handle M log w = (w', Inr u) \<longrightarrow>
        run_closure (mv_clone M) (with_update u (Return None)) tx = (tx', None) \<longrightarrow>
        tx_State tx' = effect log (tx_State tx))"

lemma reconciled_past: "precedes a b \<or> a = b \<Longrightarrow> lg_LogIndex b \<noteq> - 1 \<Longrightarrow> reconciled (past_log b c) a"
  using unat_inc [of "lg_LogIndex b"] by (auto simp: reconciled_def past_log_def precedes_def word_less_nat_alt)

lemma unreconciled_past: "precedes a b \<Longrightarrow> lg_LogIndex a \<noteq> - 1 \<Longrightarrow> \<not> reconciled (past_log a c) b"
  by (auto simp: reconciled_def past_log_def precedes_def inc_le linorder_not_less)

lemma unreconciled_before: "precedes a b \<Longrightarrow> \<not> reconciled c a \<Longrightarrow> \<not> reconciled c b"
  by (auto simp: reconciled_def precedes_def)

lemma replay_monotone:
  "replay_logs M logs c live s w = (c', live', s', w', r) \<Longrightarrow> \<forall>l\<in>set logs. precedes x l \<and> lg_LogIndex l \<noteq> - 1 \<Longrightarrow>
    reconciled c x \<Longrightarrow> reconciled c' x"
proof (induction logs arbitrary: c live s w)
  case (Cons l logs)
  have "c' = c \<or> (\<exists>w. replay_logs M logs c live s w = (c', live', s', w', r)) \<or>
    (\<exists>s1 w2. replay_logs M logs (past_log l c) (without_log l live) s1 w2 = (c', live', s', w', r))"
    using Cons.prems(1) by (fastforce split: if_splits prod.splits sum.splits option.splits)
  then show ?case using Cons.IH Cons.prems reconciled_past [of x l c] by auto
qed simp

lemma without_log_filter:
  assumes "distinct (map Log_ID (el_Logs live))"
  shows "el_Logs (without_log log live) = filter (\<lambda>l. Log_ID l \<noteq> Log_ID log) (el_Logs live)"
proof (cases "liveLogIndex (el_Logs live) (Log_ID log)")
  case None
  then have "\<forall>x\<in>set (el_Logs live). Log_ID x \<noteq> Log_ID log" unfolding liveLogIndex_None by (metis image_eqI)
  then show ?thesis using None by (simp add: without_log_def)
next
  case (Some k)
  from liveLogIndex_Some [OF this] have k: "k < length (el_Logs live)" "Log_ID (el_Logs live ! k) = Log_ID log" by simp_all
  let ?ls = "el_Logs live"
  have split: "?ls = take k ?ls @ ?ls ! k # drop (Suc k) ?ls" using k(1) by (simp add: id_take_nth_drop)
  have "distinct (map Log_ID (take k ?ls @ ?ls ! k # drop (Suc k) ?ls))" using assms split by simp
  then have "\<forall>l\<in>set (take k ?ls) \<union> set (drop (Suc k) ?ls). Log_ID l \<noteq> Log_ID log"
    using k(2) by (auto simp: image_iff)
  then have "filter (\<lambda>l. Log_ID l \<noteq> Log_ID log) (take k ?ls @ ?ls ! k # drop (Suc k) ?ls) = take k ?ls @ drop (Suc k) ?ls"
    using k(2) by (simp add: filter_True)
  then show ?thesis using Some split by (simp add: without_log_def without_def)
qed

lemma replay_exact:
  assumes law: "lawful M" "json_ok M" "private_checkpoints M" "logs_handled M effect"
  shows "replay_logs M logs c live s w = (c', live', s', w', r) \<Longrightarrow> in_sync M c live s \<Longrightarrow>
    sorted_wrt precedes logs \<Longrightarrow> \<forall>l\<in>set logs. lg_LogIndex l \<noteq> - 1 \<Longrightarrow> distinct (map Log_ID (el_Logs live)) \<Longrightarrow>
    decodeState (mv_codec M) (ss_state s) = Inr v \<Longrightarrow>
    \<exists>n. decodeState (mv_codec M) (ss_state s') =
        Inr (fold (\<lambda>l. effect (l\<lparr>lg_Confirmed := True\<rparr>)) (take n (unreconciled c logs)) v) \<and>
      unreconciled c' logs = drop n (unreconciled c logs) \<and> (r = None \<longrightarrow> n \<ge> length (unreconciled c logs)) \<and>
      el_Logs live' = filter (\<lambda>l. Log_ID l \<notin> Log_ID ` set (take n (unreconciled c logs))) (el_Logs live)"
proof (induction logs arbitrary: c live s w v)
  case Nil
  then show ?case by (intro exI [of _ 0]) (simp add: unreconciled_def)
next
  case (Cons x logs)
  have order: "\<forall>l\<in>set logs. precedes x l" "sorted_wrt precedes logs" "\<forall>l\<in>set logs. lg_LogIndex l \<noteq> - 1"
    "lg_LogIndex x \<noteq> - 1" using Cons.prems(3,4) by simp_all
  show ?case
  proof (cases "reconciled c x")
    case True
    then have run: "replay_logs M logs c live s w = (c', live', s', w', r)" using Cons.prems(1) by simp
    have "reconciled c' x" by (rule replay_monotone [OF run _ True]) (use order in blast)
    then show ?thesis
      using Cons.IH [OF run Cons.prems(2) order(2,3) Cons.prems(5,6)] True by (simp add: unreconciled_def)
  next
    case False
    have same: "unreconciled c logs = logs" "unreconciled (past_log x c) logs = logs"
      using unreconciled_before [OF _ False] unreconciled_past order by (auto simp: unreconciled_def intro!: filter_True)
    have todo: "unreconciled c (x # logs) = x # logs" using False same(1) by (simp add: unreconciled_def)
    have "(c' = c \<and> live' = live \<and> s' = s \<and> r \<noteq> None) \<or>
      (\<exists>u w1 w2 s1. events_handle M (x\<lparr>lg_Confirmed := True\<rparr>) w = (w1, Inr u) \<and>
        events_commit M (Some (past_log x c)) (Some (without_log x live)) u s w1 = (s1, w2, None) \<and>
        replay_logs M logs (past_log x c) (without_log x live) s1 w2 = (c', live', s', w', r))"
      using Cons.prems(1) False events_commit_error [OF law(1)]
      by (fastforce split: prod.splits sum.splits option.splits)
    then show ?thesis
    proof (elim disjE exE conjE)
      assume "c' = c" "live' = live" "s' = s" and r: "r \<noteq> None"
      then show ?thesis using Cons.prems(6) by (intro exI [of _ 0]) (simp add: r)
    next
      fix u w1 w2 s1
      assume h: "events_handle M (x\<lparr>lg_Confirmed := True\<rparr>) w = (w1, Inr u)"
        and cm: "events_commit M (Some (past_log x c)) (Some (without_log x live)) u s w1 = (s1, w2, None)"
        and rest: "replay_logs M logs (past_log x c) (without_log x live) s1 w2 = (c', live', s', w', r)"
      have ok: "entries_ok (ss_checkpoints s)" using Cons.prems(2) by (simp add: in_sync_def)
      obtain v1 tx where v1: "decodeState (mv_codec M) (ss_state s) = Inr v1"
        and tx: "run_closure (mv_clone M) (with_update u (Return None)) (start_tx v1 s) = (tx, None)"
        and d: "decodeState (mv_codec M) (ss_state s1) = Inr (tx_State tx)"
        by (rule events_commit_success [OF law(1,2) ok cm quiet_handle [OF law(3) h]])
      have "tx_State tx = effect (x\<lparr>lg_Confirmed := True\<rparr>) (tx_State (start_tx v1 s))"
        by (rule law(4) [unfolded logs_handled_def, rule_format, OF h tx])
      then have d: "decodeState (mv_codec M) (ss_state s1) = Inr (effect (x\<lparr>lg_Confirmed := True\<rparr>) v)"
        using d v1 Cons.prems(6) by (simp add: start_tx_def)
      have sync: "in_sync M (past_log x c) (without_log x live) s1"
        using handled_sync [OF law(1-3) Cons.prems(2) h cm] by simp
      have left: "el_Logs (without_log x live) = filter (\<lambda>l. Log_ID l \<noteq> Log_ID x) (el_Logs live)"
        by (rule without_log_filter [OF Cons.prems(5)])
      have "distinct (map Log_ID (el_Logs (without_log x live)))" using Cons.prems(5) by (simp add: left distinct_map_filter)
      from Cons.IH [OF rest sync order(2,3) this d] obtain n where n:
        "decodeState (mv_codec M) (ss_state s') = Inr (fold (\<lambda>l. effect (l\<lparr>lg_Confirmed := True\<rparr>)) (take n logs)
          (effect (x\<lparr>lg_Confirmed := True\<rparr>) v))"
        "unreconciled c' logs = drop n logs" "r = None \<longrightarrow> n \<ge> length logs"
        "el_Logs live' = filter (\<lambda>l. Log_ID l \<notin> Log_ID ` set (take n logs)) (el_Logs (without_log x live))"
        unfolding same by (elim exE conjE)
      have "reconciled c' x"
        by (rule replay_monotone [OF rest _ reconciled_past]) (use order in auto)
      then have "unreconciled c' (x # logs) = drop n logs" using n(2) by (simp add: unreconciled_def)
      then show ?thesis using n(1,3,4) unfolding todo left by (intro exI [of _ "Suc n"]) (simp add: conj_commute)
    qed
  qed
qed

section \<open>Properties\<close>



section \<open>Samples\<close>

text \<open>Two logs of block 7, the first already seen live.\<close>

definition sample_log :: "uint64 \<Rightarrow> Log" where
  "sample_log i = \<lparr>lg_ChainID = ''0x1'', lg_BlockNumber = 7, lg_BlockHash = ''h'', lg_TxHash = ''t'', lg_TxIndex = 0,
     lg_LogIndex = i, lg_Address = ''a'', lg_Topics = [], lg_Data = [], lg_Removed = False, lg_Confirmed = False\<rparr>"

definition sample_filter :: Logs where
  "sample_filter = \<lparr>lf_Addresses = [''a''], lf_Topics = []\<rparr>"

definition sample_cursor :: "string \<Rightarrow> uint64 \<Rightarrow> eventsCursor" where
  "sample_cursor h i = \<lparr>ec_ChainID = ''0x1'', ec_Filter = sample_filter, ec_NextBlock = 7, ec_CanonicalParent = '''',
     ec_CurrentBlock = h, ec_NextLog = i\<rparr>"

definition sample_live :: "Log list \<Rightarrow> eventsLive" where
  "sample_live ls = \<lparr>el_ChainID = ''0x1'', el_Filter = sample_filter, el_Logs = ls\<rparr>"

definition sample_cursors :: "(eventsCursor \<times> string) list" where
  "sample_cursors = [(sample_cursor '''' 0, ''A''), (sample_cursor ''h'' 1, ''B''), (sample_cursor ''h'' 4, ''C'')]"

definition sample_lives :: "(eventsLive \<times> string) list" where
  "sample_lives = [(sample_live [], ''D''), (sample_live [sample_log 0], ''E'')]"

definition silent_provider :: "unit provider" where
  "silent_provider = \<lparr>pv_chain = ''0x1'', pv_call = (\<lambda>_ _ w. (w, Inl RPCError)), pv_text = (\<lambda>_. None),
     pv_header = (\<lambda>_. None), pv_block = (\<lambda>_. None), pv_receipt = (\<lambda>_. None), pv_logs = (\<lambda>_. None),
     pv_sleep = (\<lambda>_ w. (w, None))\<rparr>"

definition sample_events_env :: "(bool, unit) events_env" where
  "sample_events_env = \<lparr>mv_codec = bit_codec, mv_clone = Inr,
     mv_commit = (\<lambda>t w. (w, Inr (tc_NextState t))), mv_ctx_before = (\<lambda>_. None), mv_ctx_after = (\<lambda>_. None), mv_provider = silent_provider,
     ee_handle = Some (\<lambda>log w. (w, Inr flip)),
     ee_encode_cursor = map_of sample_cursors,
     ee_decode_cursor = (\<lambda>raw. map_option (\<lambda>c. (c, True)) (map_of (map (\<lambda>(c, r). (r, c)) sample_cursors) raw)),
     ee_encode_live = map_of sample_lives,
     ee_decode_live = (\<lambda>raw. map_option (\<lambda>l. (l, True)) (map_of (map (\<lambda>(l, r). (r, l)) sample_lives) raw))\<rparr>"

definition no_ref :: SecretRef where
  "no_ref = \<lparr>sr_Group = '''', sr_Key = '''', sr_Required = True\<rparr>"

definition sample_events :: "unit Events" where
  "sample_events = \<lparr>ev_Name = '''', ev_Filter = sample_filter, ev_ExpectedChainID = '''', ev_Confirmations = 2,
     ev_BackfillFrom = None, ev_BackfillRange = 0, ev_HTTPURL = '''', ev_WSSURL = '''', ev_HTTPSecret = no_ref,
     ev_WSSSecret = no_ref\<rparr>"

definition events_session :: "bool \<Rightarrow> string \<Rightarrow> string \<Rightarrow> Session" where
  "events_session v c l = \<lparr>ss_state = (if v then ''true'' else ''false''),
     ss_checkpoints = [(eventsCursorSource, c), (eventsLiveSource, l)], ss_secrets = [], ss_maxEvents = 1\<rparr>"

lemma sample_events_laws:
  "lawful sample_events_env" "json_ok sample_events_env" "private_checkpoints sample_events_env"
  "indexes_fit (mv_provider sample_events_env)"
  by (auto simp: lawful_def sample_events_env_def)
    (auto simp: json_ok_def private_checkpoints_def indexes_fit_def sample_events_env_def sample_cursors_def
      sample_lives_def events_handle_def with_update_def flip_def silent_provider_def logs_in_def call_as_def
      and_then_def sample_cursor_def sample_live_def split: if_splits)

lemma sample_sync: "in_sync sample_events_env (sample_cursor '''' 0) (sample_live [sample_log 0]) (events_session True ''A'' ''E'')"
  by (simp add: in_sync_def stored_def entries_ok_def events_session_def sample_events_env_def sample_cursors_def
    sample_lives_def eventsCursorSource_def eventsLiveSource_def sample_live_def)

lemma sample_events_commit:
  assumes "map_of sample_cursors c = Some x" "map_of sample_lives l = Some y"
  shows "events_commit sample_events_env (Some c) (Some l) flip (events_session v a b) w = (events_session (\<not> v) x y, w, None)"
  using assms
  by (cases v) (auto simp: events_commit_def events_closure_def session_commit_def Session_Commit_def events_session_def
    sample_events_env_def with_update_def flip_def Tx_Checkpoint_def changed_checkpoints_def Let_def
    eventsCursorSource_def eventsLiveSource_def)

lemma sample_logs_simps [simp]:
  "lg_BlockNumber (sample_log i) = 7" "lg_BlockHash (sample_log i) = ''h''" "lg_LogIndex (sample_log i) = i"
  "lg_TxIndex (sample_log i) = 0" "lg_Removed (sample_log i) = False"
  by (simp_all add: sample_log_def)

lemma sample_log_id [simp]: "Log_ID (sample_log i) = Log_ID (sample_log j) \<longleftrightarrow> i = j"
  by (simp add: Log_ID_def sample_log_def word_unat_eq_iff)

lemma sample_sorted: "sort_logs [sample_log 3, sample_log 0] = [sample_log 0, sample_log 3]"
  by (simp add: sort_logs_def)

lemma sample_replay:
  "replay_logs sample_events_env (sort_logs [sample_log 3, sample_log 0]) (sample_cursor '''' 0) (sample_live [sample_log 0])
     (events_session True ''A'' ''E'') () =
   (sample_cursor ''h'' 4, sample_live [], events_session True ''C'' ''D'', (), None)"
proof -
  have maps: "map_of sample_cursors (sample_cursor ''h'' 1) = Some ''B''" "map_of sample_cursors (sample_cursor ''h'' 4) = Some ''C''"
    "map_of sample_lives (sample_live []) = Some ''D''"
    by (simp_all add: sample_cursors_def sample_lives_def sample_cursor_def sample_live_def)
  have step: "past_log (sample_log 0) (sample_cursor '''' 0) = sample_cursor ''h'' 1"
    "past_log (sample_log 3) (sample_cursor ''h'' 1) = sample_cursor ''h'' 4"
    by (simp_all add: past_log_def sample_cursor_def)
  have open_logs: "\<not> reconciled (sample_cursor '''' 0) (sample_log 0)" "\<not> reconciled (sample_cursor ''h'' 1) (sample_log 3)"
    by (simp_all add: reconciled_def sample_cursor_def)
  have gone: "without_log (sample_log 0) (sample_live [sample_log 0]) = sample_live []"
    "without_log (sample_log 3) (sample_live []) = sample_live []"
    by (simp_all add: without_log_def without_def sample_live_def)
  have handle: "events_handle sample_events_env l w = (w, Inr flip)" for l w
    by (simp add: events_handle_def sample_events_env_def)
  show ?thesis
    unfolding sample_sorted
    by (simp add: open_logs handle step gone sample_events_commit [OF maps(1,3)] sample_events_commit [OF maps(2,3)])
qed

definition log_flips :: "Log \<Rightarrow> bool \<Rightarrow> bool" where
  "log_flips log v = (\<not> v)"



section \<open>A range that wraps\<close>

text \<open>
  \<open>BackfillRange\<close> is not validated.  With the largest \<open>uint64\<close>, an unlimited range, the end of the
  range wraps below its start, and a range that is finished moves the cursor back.
\<close>

lemma backfill_range_wraps:
  assumes "2 \<le> ec_NextBlock c" and "ec_NextBlock c \<le> target"
    and "finish_range M (range_end (- 1) c target) target c live s w = (c', live', s', w', Inr caughtUp)"
  shows "ec_NextBlock c' = ec_NextBlock c - 1 \<and> ec_NextBlock c' < ec_NextBlock c"
proof -
  have "ec_NextBlock c - 2 \<le> target" using assms(1,2) by uint_arith
  then have "range_end (- 1) c target = ec_NextBlock c - 2" by (simp add: range_end_def min_def)
  then have "ec_NextBlock c' = ec_NextBlock c - 2 + 1"
    using assms(3) by (auto simp: finish_range_def Let_def split: prod.splits sum.splits option.splits)
  then have "ec_NextBlock c' = ec_NextBlock c - 1" by simp
  moreover have "ec_NextBlock c - 1 < ec_NextBlock c" using assms(1) by uint_arith
  ultimately show ?thesis by simp
qed

end
