(* ===== verification/EvmTheorems.thy ===== *)
theory EvmTheorems
  imports EvmClient
begin

text \<open>Quantities: the canonical form of a \<open>uint64\<close> on the wire is unique.\<close>

section \<open>Hexadecimal digits\<close>

lemma byte_lower_char: "byte (lower_char c) = (if 65 \<le> byte c \<and> byte c \<le> 90 then byte c + 32 else byte c)"
  by (simp add: lower_char_def byte_def)

lemma unhex_lower [simp]: "unhex (lower_char c) = unhex c"
  by (auto simp: unhex_def byte_lower_char)

lemma unhex_less: "unhex c = Some d \<Longrightarrow> d < 16"
  by (auto simp: unhex_def split: if_splits)

lemma byte_eq_iff: "byte c = byte d \<longleftrightarrow> c = d"
  by (simp add: byte_def)

lemma byte_hex_digit: "d < 16 \<Longrightarrow> byte (hex_digit d) = (if d < 10 then 48 + d else 87 + d)"
  by (simp add: hex_digit_def byte_def)

lemma hex_digit_unhex: "unhex c = Some d \<Longrightarrow> hex_digit d = lower_char c"
proof -
  assume d: "unhex c = Some d"
  have "byte (hex_digit d) = byte (lower_char c)"
    using d byte_hex_digit [OF unhex_less [OF d]] by (auto simp: unhex_def byte_lower_char split: if_splits)
  then show ?thesis by (simp only: byte_eq_iff)
qed

lemma lower_char_lower [simp]: "lower_char (lower_char c) = lower_char c"
proof -
  have "byte (lower_char (lower_char c)) = byte (lower_char c)" by (simp add: byte_lower_char)
  then show ?thesis by (simp only: byte_eq_iff)
qed

lemma hex_value_append:
  "hex_value a (xs @ ys) = (case hex_value a xs of None \<Rightarrow> None | Some b \<Rightarrow> hex_value b ys)"
  by (induction xs arbitrary: a) (auto split: option.splits)

lemma hex_value_utox: "hex_value 0 (utox n) = Some n"
proof (induction n rule: utox.induct)
  case (1 n)
  show ?case
  proof (cases "n < 16")
    case True
    then show ?thesis by (simp add: utox.simps [of n])
  next
    case False
    then show ?thesis using 1 by (subst utox.simps) (simp add: hex_value_append)
  qed
qed

lemma utox_head: "length (utox n) > 1 \<Longrightarrow> hd (utox n) \<noteq> CHR ''0''"
proof (induction n rule: utox.induct)
  case (1 n)
  show ?case
  proof (cases "n < 16")
    case True
    then show ?thesis using 1(2) by (simp add: utox.simps [of n])
  next
    case False
    have ne: "utox (n div 16) \<noteq> []" by (subst utox.simps) simp
    have "hd (utox (n div 16)) \<noteq> CHR ''0''"
    proof (cases "length (utox (n div 16)) > 1")
      case False
      then have small: "n div 16 < 16"
        by (subst (asm) utox.simps) (auto split: if_splits, subst (asm) utox.simps, auto split: if_splits)
      then have "utox (n div 16) = [hex_digit (n div 16)]" by (simp add: utox.simps [of "n div 16"])
      moreover have "0 < n div 16" using \<open>\<not> n < 16\<close> by (simp add: div_greater_zero_iff)
      then have "byte (hex_digit (n div 16)) \<noteq> byte (CHR ''0'')" using small by (auto simp: hex_digit_def byte_def)
      ultimately show ?thesis by auto
    qed (use 1(1) False in simp)
    then show ?thesis using False ne by (subst utox.simps) (simp add: hd_append)
  qed
qed

lemma lower_utox [simp]: "lower (utox n) = utox n"
proof (induction n rule: utox.induct)
  case (1 n)
  have "lower_char (hex_digit d) = hex_digit d" if "d < 16" for d
    using that hex_digit_unhex [OF unhex_hex_digit [OF that]] by simp
  then show ?case using 1 by (subst utox.simps, subst utox.simps) simp
qed

lemma utox_hex_value:
  "hex_value 0 ds = Some m \<Longrightarrow> ds \<noteq> [] \<Longrightarrow> length ds = 1 \<or> hd ds \<noteq> CHR ''0'' \<Longrightarrow> lower ds = ds \<Longrightarrow> utox m = ds"
proof (induction ds arbitrary: m rule: rev_induct)
  case (snoc c ds)
  obtain k d where k: "hex_value 0 ds = Some k" "unhex c = Some d" "m = 16 * k + d"
    using snoc.prems(1) by (auto simp: hex_value_append split: option.splits)
  have c: "hex_digit d = c" using hex_digit_unhex [OF k(2)] snoc.prems(4) by simp
  have d: "d < 16" by (rule unhex_less [OF k(2)])
  show ?case
  proof (cases "ds = []")
    case True
    then show ?thesis using k c d by (simp add: utox.simps [of d])
  next
    case False
    then have hd: "hd ds \<noteq> CHR ''0''" using snoc.prems(3) by (simp add: hd_append)
    have ds: "utox k = ds" using snoc.IH [OF k(1) False] hd snoc.prems(4) by simp
    have "k \<noteq> 0"
    proof
      assume "k = 0"
      moreover have "hex_digit 0 = CHR ''0''" by code_simp
      ultimately have "ds = [CHR ''0'']" using ds by (simp add: utox.simps [of 0])
      then show False using hd by simp
    qed
    then show ?thesis using k c d ds by (subst utox.simps) simp
  qed
qed simp

section \<open>Properties\<close>

text \<open>
  a quantity parses to a \<open>uint64\<close> exactly when, up to the case of its digits, it is the
  \<open>%x\<close> form of that number: no leading zeros, no sign, no overflow, and each number has one form.
\<close>

theorem quantity_canonical:
  "parseUintQuantity q = Inr n \<longleftrightarrow> has_prefix ''0x'' q \<and> lower q = quantity n"
proof -
  have prefix: "has_prefix ''0x'' q \<longleftrightarrow> (\<exists>ds. q = CHR ''0'' # CHR ''x'' # ds)"
    by (cases q; cases "tl q") auto
  show ?thesis
  proof (cases "has_prefix ''0x'' q")
    case False
    then show ?thesis by (simp add: parseUintQuantity_def canonicalQuantity_def)
  next
    case True
    then obtain ds where q: "q = CHR ''0'' # CHR ''x'' # ds" using prefix by blast
    let ?d = "lower ds"
    have low: "lower q = ''0x'' @ ?d" by (simp add: q lower_char_def byte_def)
    have right: "lower q = quantity n \<longleftrightarrow> ?d = utox (unat n)" by (simp add: low quantity_def)
    have left: "parseUintQuantity q = Inr n \<longleftrightarrow>
        ds \<noteq> [] \<and> (length ?d = 1 \<or> hd ?d \<noteq> CHR ''0'') \<and> parse_uint_hex ?d = Some n"
      using True by (cases "length ds")
        (auto simp: parseUintQuantity_def canonicalQuantity_def q comp_def Let_def split: option.splits)
    have "ds \<noteq> [] \<and> (length ?d = 1 \<or> hd ?d \<noteq> CHR ''0'') \<and> parse_uint_hex ?d = Some n \<longleftrightarrow> ?d = utox (unat n)"
    proof
      assume a: "ds \<noteq> [] \<and> (length ?d = 1 \<or> hd ?d \<noteq> CHR ''0'') \<and> parse_uint_hex ?d = Some n"
      then obtain m where m: "hex_value 0 ?d = Some m" "m < 2 ^ 64" "n = of_nat m"
        by (auto simp: parse_uint_hex_def split: option.splits if_splits)
      have "utox m = ?d" by (rule utox_hex_value [OF m(1)]) (use a in \<open>simp_all add: comp_def\<close>)
      then show "?d = utox (unat n)" using m(2,3) by (simp add: unat_of_nat take_bit_eq_mod)
    next
      assume a: "?d = utox (unat n)"
      have ne: "utox (unat n) \<noteq> []" by (subst utox.simps) simp
      have "unat n < 2 ^ 64" using unsigned_less [of n] by simp
      then have "parse_uint_hex ?d = Some n" using ne by (simp add: parse_uint_hex_def a hex_value_utox)
      moreover have "length ?d = 1 \<or> hd ?d \<noteq> CHR ''0''"
        using utox_head [of "unat n"] ne unfolding a by (metis One_nat_def length_0_conv less_one linorder_neqE_nat)
      moreover have "ds \<noteq> []" using a ne by auto
      ultimately show "ds \<noteq> [] \<and> (length ?d = 1 \<or> hd ?d \<noteq> CHR ''0'') \<and> parse_uint_hex ?d = Some n" by simp
    qed
    then show ?thesis using True right left by simp
  qed
qed

text \<open>\<open>ParseQuantity\<close>, for amounts, lets a sign through: \<open>big.Int.SetString\<close> reads one.\<close>

lemma negative_quantity: "ParseQuantity ''0x-1'' = Inr ''0x-1'' \<and> Quantity_BigInt ''0x-1'' = Inr (- 1)"
  by (simp add: ParseQuantity_def Quantity_BigInt_def big_int_hex_def lower_char_def byte_def unhex_def)

end
