(* ===== verification/Erc20.thy ===== *)
theory Erc20
  imports EvmClient
begin

text \<open>
  \<open>catalog/quicknode/evm/erc20.go\<close>: decoding standard Transfer logs, and reading a token's metadata
  from the results of contract calls.  Slicing a Go slice out of range panics; it is \<open>None\<close> here,
  and \<open>abi_string_in_bounds\<close> shows that the decoder of ABI strings never does.
\<close>

section \<open>Transfer logs\<close>

definition ERC20TransferTopic :: string where
  "ERC20TransferTopic = ''0xddf252ad1be2c89b69c2b068fc378daa952ba7f163c4a11628f55a4df523b3ef''"

record ERC20Transfer =
  tr_Token :: string
  tr_From :: string
  tr_To :: string
  tr_Amount :: nat

definition zero_padding :: string where
  "zero_padding = ''000000000000000000000000''"

definition addressTopic :: "string \<Rightarrow> string" where
  "addressTopic address = (if length address \<noteq> 42 then '''' else ''0x'' @ zero_padding @ drop 2 address)"

definition ERC20TransfersTo :: "string \<Rightarrow> Logs" where
  "ERC20TransfersTo address = \<lparr>lf_Addresses = [], lf_Topics = [[ERC20TransferTopic], [], [addressTopic address]]\<rparr>"

definition topicAddress :: "string \<Rightarrow> string evm" where
  "topicAddress topic =
     (if length topic \<noteq> 66 \<or> take 24 (drop 2 topic) \<noteq> zero_padding
      then fails ''quicknode evm: indexed address topic has nonzero padding''
      else ParseAddress (''0x'' @ drop 26 topic))"

text \<open>\<open>big.Int.SetBytes\<close>: big-endian.\<close>

definition set_bytes :: "string \<Rightarrow> nat" where
  "set_bytes s = foldl (\<lambda>a c. 256 * a + byte c) 0 s"

definition DecodeERC20Transfer :: "Log \<Rightarrow> ERC20Transfer evm" where
  "DecodeERC20Transfer log =
     (if length (lg_Topics log) = 4 \<and> lg_Topics log ! 0 = ERC20TransferTopic \<and> length (lg_Data log) = 0
      then Inl ErrERC721Transfer
      else if length (lg_Topics log) \<noteq> 3 \<or> lg_Topics log ! 0 \<noteq> ERC20TransferTopic \<or> length (lg_Data log) \<noteq> 32
      then fails ''quicknode evm: log is not a standard ERC-20 transfer''
      else on_ok (topicAddress (lg_Topics log ! 1)) (\<lambda>sender.
           on_ok (topicAddress (lg_Topics log ! 2)) (\<lambda>to.
           Inr \<lparr>tr_Token = lg_Address log, tr_From = sender, tr_To = to, tr_Amount = set_bytes (lg_Data log)\<rparr>)))"

section \<open>Contract results\<close>

definition slice :: "nat \<Rightarrow> nat \<Rightarrow> 'a list \<Rightarrow> 'a list option" where
  "slice i j xs = (if i \<le> j \<and> j \<le> length xs then Some (drop i (take j xs)) else None)"

definition is_uint64 :: "nat \<Rightarrow> bool" where
  "is_uint64 n \<longleftrightarrow> n < 2 ^ 64"

definition trim_nul :: "string \<Rightarrow> string" where
  "trim_nul s = rev (dropWhile (\<lambda>c. byte c = 0) (rev s))"

definition utf8_text :: "string \<Rightarrow> string evm" where
  "utf8_text v =
     (let value = TrimSpace (trim_nul v) in if utf8_valid value then Inr value else Inl ContractResultError)"

text \<open>The \<open>switch\<close> of \<open>erc20String\<close>: a \<open>bytes32\<close> or a dynamic string.\<close>

definition abi_string :: "string \<Rightarrow> string evm option" where
  "abi_string data =
     (if length data = 32 then Some (utf8_text data)
      else if length data \<ge> 64
      then (case slice 0 32 data of
          None \<Rightarrow> None
        | Some word_offset \<Rightarrow>
            let offset = set_bytes word_offset in
            if \<not> is_uint64 offset \<or> offset > length data - 32 then Some (Inl ContractResultError)
            else (case slice offset (offset + 32) data of
                None \<Rightarrow> None
              | Some word_size \<Rightarrow>
                  let size = set_bytes word_size in
                  if \<not> is_uint64 size \<or> size > length data - offset - 32 then Some (Inl ContractResultError)
                  else map_option utf8_text (slice (offset + 32) (offset + 32 + size) data)))
      else Some (Inl ContractResultError))"

definition abi_uint8 :: "string \<Rightarrow> nat evm" where
  "abi_uint8 data =
     (if length data \<noteq> 32 then Inl ContractResultError
      else if \<not> is_uint64 (set_bytes data) \<or> set_bytes data > 255 then Inl ContractResultError
      else Inr (set_bytes data))"

definition contractCall :: "'w provider \<Rightarrow> string \<Rightarrow> string \<Rightarrow> string \<Rightarrow> 'w \<Rightarrow> 'w \<times> string evm" where
  "contractCall P token blockHash selector w =
     (case bad (ParseAddress token) of
        Some e \<Rightarrow> (w, Inl e)
      | None \<Rightarrow> (case bad (ParseHash blockHash) of
          Some e \<Rightarrow> (w, Inl e)
        | None \<Rightarrow> (case pv_call P ''eth_call'' [PContractCall token selector, PAtBlock blockHash] w of
            (w1, Inl e) \<Rightarrow> (w1, Inl (if e = RPCError then ContractResultError else e))
          | (w1, Inr result) \<Rightarrow>
              (w1, case pv_text P result of
                 None \<Rightarrow> Inl ContractResultError
               | Some encoded \<Rightarrow> (case decodeHex encoded of
                   Inl e \<Rightarrow> Inl ContractResultError
                 | Inr data \<Rightarrow> Inr data)))))"

definition erc20String :: "'w provider \<Rightarrow> string \<Rightarrow> string \<Rightarrow> string \<Rightarrow> 'w \<Rightarrow> 'w \<times> string evm" where
  "erc20String P token blockHash selector w =
     and_then (contractCall P token blockHash selector w) (\<lambda>data w.
       (w, case abi_string data of None \<Rightarrow> fails ''panic: slice bounds out of range'' | Some r \<Rightarrow> r))"

definition erc20Uint8 :: "'w provider \<Rightarrow> string \<Rightarrow> string \<Rightarrow> string \<Rightarrow> 'w \<Rightarrow> 'w \<times> nat evm" where
  "erc20Uint8 P token blockHash selector w =
     and_then (contractCall P token blockHash selector w) (\<lambda>data w. (w, abi_uint8 data))"

definition ERC20TotalSupply :: "'w provider \<Rightarrow> string \<Rightarrow> string \<Rightarrow> 'w \<Rightarrow> 'w \<times> nat evm" where
  "ERC20TotalSupply P token blockHash w =
     and_then (contractCall P token blockHash ''0x18160ddd'' w) (\<lambda>data w.
       (w, if length data \<noteq> 32 then Inl ContractResultError else Inr (set_bytes data)))"

record ERC20Metadata =
  md_Token :: string
  md_Name :: string
  md_Symbol :: string
  md_Decimals :: "nat option"
  md_TotalSupply :: nat

text \<open>An unusable result of an optional field leaves the field empty.\<close>

definition optional_field :: "'a \<Rightarrow> 'w \<times> 'a evm \<Rightarrow> 'w \<times> 'a evm" where
  "optional_field absent_value p =
     (case p of
        (w, Inl e) \<Rightarrow> (w, if e = ContractResultError then Inr absent_value else Inl e)
      | (w, Inr v) \<Rightarrow> (w, Inr v))"

definition readMetadata :: "'w provider \<Rightarrow> string \<Rightarrow> string \<Rightarrow> 'w \<Rightarrow> 'w \<times> ERC20Metadata evm" where
  "readMetadata P token blockHash w =
     and_then (optional_field '''' (erc20String P token blockHash ''0x06fdde03'' w)) (\<lambda>name w.
     and_then (optional_field '''' (erc20String P token blockHash ''0x95d89b41'' w)) (\<lambda>symbol w.
     and_then (optional_field None (and_then (erc20Uint8 P token blockHash ''0x313ce567'' w)
         (\<lambda>d w. (w, Inr (Some d))))) (\<lambda>decimals w.
     and_then (ERC20TotalSupply P token blockHash w) (\<lambda>supply w.
       (w, Inr \<lparr>md_Token = token, md_Name = name, md_Symbol = symbol, md_Decimals = decimals,
          md_TotalSupply = supply\<rparr>)))))"

section \<open>Facts\<close>

text \<open>No ABI string, however malformed, makes the decoder slice out of range.\<close>

lemma abi_string_in_bounds: "abi_string data \<noteq> None"
proof -
  consider "length data = 32" | "length data < 64" "length data \<noteq> 32" | "64 \<le> length data" by linarith
  then show ?thesis
  proof cases
    case 3
    let ?o = "set_bytes (take 32 data)"
    show ?thesis
    proof (cases "?o \<le> length data - 32")
      case True
      then have "?o + 32 \<le> length data" using 3 by simp
      then show ?thesis using 3 True by (auto simp: abi_string_def slice_def Let_def)
    qed (use 3 in \<open>simp add: abi_string_def slice_def\<close>)
  qed (simp_all add: abi_string_def)
qed

text \<open>The filter of \<open>ERC20TransfersTo\<close> selects the transfers whose recipient decodes to the address.\<close>

lemma transfers_to_recipient:
  assumes "DecodeERC20Transfer log = Inr t" and "length address = 42" and "has_prefix ''0x'' address"
    and "lg_Topics log ! 2 = addressTopic address"
  shows "tr_To t = lower address"
proof -
  have "topicAddress (addressTopic address) = Inr (tr_To t)"
    using assms(1,4) by (auto simp: DecodeERC20Transfer_def outcome_simps split: if_splits)
  moreover have "length zero_padding = 24" by (simp add: zero_padding_def)
  ultimately have to: "ParseAddress (''0x'' @ drop 2 address) = Inr (tr_To t)"
    using assms(2) by (simp add: topicAddress_def addressTopic_def split: if_splits)
  obtain ds where "address = ''0x'' @ ds" using assms(3) by (cases address; cases "tl address") auto
  then have "''0x'' @ drop 2 address = address" by simp
  then show ?thesis using to by (auto simp: ParseAddress_def split: option.splits)
qed

end
