(* ===== verification/Secrets.thy ===== *)
theory Secrets
  imports Protocol
begin

text \<open>
  \<open>internal/secrets/secrets.go\<close>: the dotenv grammar, the precedence of secret sources, the
  fingerprint of a set of secrets and the redactor.  The file system is the function \<open>files\<close> from
  the paths \<open>Resolve\<close> reads to what \<open>Lstat\<close> and \<open>ReadFile\<close> find there; it does not change during a
  call, so reading a group once or for every reference of the group is the same.  HMAC-SHA-256 is a
  parameter.
\<close>

section \<open>References\<close>

record Ref =
  rf_Group :: string
  rf_Key :: string
  rf_Required :: bool

definition RefKey :: "string \<Rightarrow> string \<Rightarrow> string" where
  "RefKey g key = g @ ''/'' @ key"

abbreviation ref_path :: "Ref \<Rightarrow> string" where
  "ref_path r \<equiv> RefKey (rf_Group r) (rf_Key r)"

definition component_char :: "char \<Rightarrow> bool" where
  "component_char c \<longleftrightarrow> c = CHR ''-'' \<or> (97 \<le> byte c \<and> byte c \<le> 122) \<or> (48 \<le> byte c \<and> byte c \<le> 57)"

definition safeComponent :: "string \<Rightarrow> bool" where
  "safeComponent s \<longleftrightarrow> s \<noteq> '''' \<and> s \<noteq> ''.'' \<and> s \<noteq> ''..'' \<and>
     \<not> list_ex (\<lambda>c. c = CHR ''/'' \<or> byte c = 92 \<or> byte c = 0) s \<and> list_all component_char s"

definition ValidateRef :: "Ref \<Rightarrow> go_error option" where
  "ValidateRef r =
     (if \<not> safeComponent (rf_Group r) then Some (Errorf ''invalid secret group'')
      else if \<not> safeComponent (rf_Key r) then Some (Errorf ''invalid secret key'')
      else None)"

text \<open>The map \<open>merged\<close>, as its values in key order.\<close>

fun merge_ref :: "Ref \<Rightarrow> Ref list \<Rightarrow> Ref list" where
  "merge_ref r [] = [r]"
| "merge_ref r (old # rs) =
     (if ref_path r = ref_path old then r\<lparr>rf_Required := rf_Required r \<or> rf_Required old\<rparr> # rs
      else if ref_path r < ref_path old then r # old # rs
      else old # merge_ref r rs)"

fun merge_refs :: "Ref list \<Rightarrow> Ref list \<Rightarrow> Ref list result" where
  "merge_refs merged [] = Inr merged"
| "merge_refs merged (r # rs) =
     (case ValidateRef r of Some e \<Rightarrow> Inl e | None \<Rightarrow> merge_refs (merge_ref r merged) rs)"

definition Normalize :: "Ref list \<Rightarrow> Ref list result" where
  "Normalize refs = merge_refs [] refs"

section \<open>Replacing\<close>

text \<open>
  \<open>strings.Replacer\<close>: at every position the first pair whose old string is there is replaced, and
  the scan goes on behind it.  No old string is empty.
\<close>

fun match_pair :: "(string \<times> string) list \<Rightarrow> string \<Rightarrow> (string \<times> string) option" where
  "match_pair [] s = None"
| "match_pair ((old, new) # ps) s = (if old \<noteq> [] \<and> has_prefix old s then Some (old, new) else match_pair ps s)"

lemma match_pair_Some: "match_pair ps s = Some (old, new) \<Longrightarrow> (old, new) \<in> set ps \<and> old \<noteq> [] \<and> has_prefix old s"
  by (induction ps s rule: match_pair.induct) (auto split: if_splits)

function replace_all :: "(string \<times> string) list \<Rightarrow> string \<Rightarrow> string" where
  "replace_all ps [] = []"
| "replace_all ps (c # cs) =
     (case match_pair ps (c # cs) of
        None \<Rightarrow> c # replace_all ps cs
      | Some (old, new) \<Rightarrow> new @ replace_all ps (drop (length old) (c # cs)))"
  by pat_completeness auto
termination
  by (relation "measure (\<lambda>(ps, s). length s)") (auto dest!: match_pair_Some simp: Suc_le_eq)

declare replace_all.simps [simp del]

section \<open>Dotenv files\<close>

text \<open>\<open>strings.Index\<close>.\<close>

fun index_of :: "string \<Rightarrow> string \<Rightarrow> nat option" where
  "index_of p [] = (if p = [] then Some 0 else None)"
| "index_of p (c # cs) = (if has_prefix p (c # cs) then Some 0 else map_option Suc (index_of p cs))"

definition backslash :: char where "backslash = char_of (92 :: nat)"
definition quote_char :: char where "quote_char = char_of (34 :: nat)"
definition apostrophe :: char where "apostrophe = char_of (39 :: nat)"
definition carriage_return :: char where "carriage_return = char_of (13 :: nat)"
definition newline :: char where "newline = char_of (10 :: nat)"

definition escapes :: "(string \<times> string) list" where
  "escapes =
     [([backslash, backslash], [backslash]), ([backslash, quote_char], [quote_char]),
      ([backslash, CHR ''n''], [newline]), ([backslash, CHR ''r''], [carriage_return]),
      ([backslash, CHR ''t''], [char_of (9 :: nat)])]"

definition parseValue :: "string \<Rightarrow> string result" where
  "parseValue value =
     (if value = '''' then Inr ''''
      else if hd value \<noteq> apostrophe \<and> hd value \<noteq> quote_char
      then (case index_of '' #'' value of None \<Rightarrow> Inr value | Some i \<Rightarrow> Inr (TrimSpace (take i value)))
      else if length value < 2 \<or> last value \<noteq> hd value then Inl (Errorf ''unterminated quoted value'')
      else let body = butlast (tl value) in
        Inr (if hd value = apostrophe then body else replace_all escapes body))"

definition drop_cr :: "string \<Rightarrow> string" where
  "drop_cr s = (if s \<noteq> [] \<and> last s = carriage_return then butlast s else s)"

definition drop_prefix :: "string \<Rightarrow> string \<Rightarrow> string" where
  "drop_prefix p s = (if has_prefix p s then drop (length p) s else s)"

text \<open>
  A line of the scanner, which drops one carriage return itself; it refuses a line that does not
  fit its buffer of 64 KiB.
\<close>

definition parse_line :: "string \<Rightarrow> (string \<times> string) option result" where
  "parse_line text =
     (let raw = TrimSpace (drop_cr (drop_cr text)) in
      if length text > 65535 then Inl (Errorf ''bufio.Scanner: token too long'')
      else if raw = '''' \<or> has_prefix ''#'' raw then Inr None
      else let raw = (if has_prefix ''export '' raw then TrimSpace (drop_prefix ''export '' raw) else raw) in
        case cut_at (CHR ''='') raw of
          None \<Rightarrow> Inl (Errorf ''dotenv line is invalid'')
        | Some (k, v) \<Rightarrow>
            let key = TrimSpace k in
            if key = '''' then Inl (Errorf ''dotenv line is invalid'')
            else if ValidateRef \<lparr>rf_Group = ''dotenv'', rf_Key = key, rf_Required = False\<rparr> \<noteq> None
            then Inl (Errorf ''dotenv line: invalid secret key'')
            else Inr (Some (key, TrimSpace v)))"

fun parse_lines :: "(string \<times> string) list \<Rightarrow> string list \<Rightarrow> (string \<times> string) list result" where
  "parse_lines values [] = Inr values"
| "parse_lines values (text # texts) =
     (case parse_line text of
        Inl e \<Rightarrow> Inl e
      | Inr None \<Rightarrow> parse_lines values texts
      | Inr (Some (key, value)) \<Rightarrow>
          if map_of values key \<noteq> None then Inl (Errorf ''dotenv line duplicates a key'')
          else (case parseValue value of
              Inl e \<Rightarrow> Inl e
            | Inr parsed \<Rightarrow> parse_lines (values @ [(key, parsed)]) texts))"

definition byte_order_mark :: string where
  "byte_order_mark = map char_of [239, 187, 191 :: nat]"

definition ParseDotenv :: "string \<Rightarrow> (string \<times> string) list result" where
  "ParseDotenv data =
     (let data = drop_prefix byte_order_mark data in
      if \<not> utf8_valid data then Inl (Errorf ''dotenv is not valid UTF-8'')
      else parse_lines [] (split_on newline data))"

section \<open>Resolving\<close>

datatype path = RootEnv | MonitorEnv | GroupEnv string

text \<open>What \<open>Lstat\<close> says of a file, what reading it returns, and whether it changed meanwhile.\<close>

record file_info =
  fi_regular :: bool
  fi_owned :: bool
  fi_perm :: nat
  fi_content :: "string option"
  fi_changed :: bool

datatype lookup = NotExist | StatFailed | Found file_info

definition readSecure :: "lookup \<Rightarrow> (string \<times> string) list result" where
  "readSecure l =
     (case l of
        NotExist \<Rightarrow> Inr []
      | StatFailed \<Rightarrow> Inl (Errorf ''lstat'')
      | Found info \<Rightarrow>
          if \<not> fi_regular info then Inl (Errorf ''secret source is not a regular file'')
          else if \<not> fi_owned info then Inl (Errorf ''secret source is not owned by the daemon user'')
          else if fi_perm info mod 64 \<noteq> 0 then Inl (Errorf ''secret source must not be group/world accessible'')
          else case fi_content info of
            None \<Rightarrow> Inl (Errorf ''read'')
          | Some data \<Rightarrow>
              if fi_changed info then Inl (Errorf ''secret source changed while it was read'')
              else ParseDotenv data)"

record Value =
  va_Ref :: Ref
  va_Value :: string
  va_Source :: string

record Sources =
  so_MonitorDir :: string
  so_Overrides :: "(string \<times> string) list"
  so_Defaults :: "(string \<times> string) list"

definition entry :: "(string \<times> string) list \<Rightarrow> string \<Rightarrow> string" where
  "entry m k = (case map_of m k of None \<Rightarrow> '''' | Some v \<Rightarrow> v)"

text \<open>One reference: the first source with a value that is not empty.\<close>

definition resolve_ref ::
    "(path \<Rightarrow> lookup) \<Rightarrow> Sources \<Rightarrow> (string \<times> string) list \<Rightarrow> (string \<times> string) list \<Rightarrow> Ref \<Rightarrow> Value option result" where
  "resolve_ref files src local global ref =
     (let key = ref_path ref; found = (\<lambda>v name. Inr (Some \<lparr>va_Ref = ref, va_Value = v, va_Source = name\<rparr>)) in
      if entry (so_Overrides src) key \<noteq> '''' then found (entry (so_Overrides src) key) ''override''
      else if entry local (rf_Key ref) \<noteq> '''' then found (entry local (rf_Key ref)) ''monitor''
      else case readSecure (files (GroupEnv (rf_Group ref))) of
        Inl e \<Rightarrow> Inl e
      | Inr grp \<Rightarrow>
          if entry grp (rf_Key ref) \<noteq> '''' then found (entry grp (rf_Key ref)) ''group''
          else if entry global (rf_Key ref) \<noteq> '''' then found (entry global (rf_Key ref)) ''global''
          else if entry (so_Defaults src) key \<noteq> '''' then found (entry (so_Defaults src) key) ''default''
          else if rf_Required ref then Inl (Errorf ''required secret is unresolved'')
          else Inr None)"

fun resolve_refs ::
    "(path \<Rightarrow> lookup) \<Rightarrow> Sources \<Rightarrow> (string \<times> string) list \<Rightarrow> (string \<times> string) list \<Rightarrow> Ref list \<Rightarrow> Value list result" where
  "resolve_refs files src local global [] = Inr []"
| "resolve_refs files src local global (ref # refs) =
     (case resolve_ref files src local global ref of
        Inl e \<Rightarrow> Inl e
      | Inr None \<Rightarrow> resolve_refs files src local global refs
      | Inr (Some v) \<Rightarrow> (case resolve_refs files src local global refs of Inl e \<Rightarrow> Inl e | Inr vs \<Rightarrow> Inr (v # vs)))"

definition Resolve :: "(path \<Rightarrow> lookup) \<Rightarrow> Sources \<Rightarrow> Ref list \<Rightarrow> Value list result" where
  "Resolve files src refs =
     (case Normalize refs of
        Inl e \<Rightarrow> Inl e
      | Inr refs \<Rightarrow> (case readSecure (files RootEnv) of
          Inl e \<Rightarrow> Inl e
        | Inr global \<Rightarrow> (case (if so_MonitorDir src \<noteq> '''' then readSecure (files MonitorEnv) else Inr []) of
            Inl e \<Rightarrow> Inl e
          | Inr local \<Rightarrow> resolve_refs files src local global refs)))"

section \<open>Fingerprint and redaction\<close>

text \<open>The parts of a value, each behind its length in decimal.\<close>

definition framed :: "string \<Rightarrow> string" where
  "framed part = utoa (length part) @ '':'' @ part"

definition value_frame :: "Value \<Rightarrow> string" where
  "value_frame v = concat (map framed [rf_Group (va_Ref v), rf_Key (va_Ref v), va_Value v])"

definition fingerprint_input :: "Value list \<Rightarrow> string" where
  "fingerprint_input values = concat (map value_frame (sort_key (\<lambda>v. ref_path (va_Ref v)) values))"

definition Fingerprint :: "(string \<Rightarrow> string \<Rightarrow> string) \<Rightarrow> string \<Rightarrow> Value list \<Rightarrow> string" where
  "Fingerprint hmac key values = hex_encode (hmac key (fingerprint_input values))"

text \<open>
  The redactor's secrets, longest first; two different secrets of one length never match at the
  same position, so their order does not matter.
\<close>

definition redacted_values :: "Value list \<Rightarrow> string list" where
  "redacted_values values = rev (sort_key length (remdups (filter (\<lambda>v. v \<noteq> '''') (map va_Value values))))"

definition Redact :: "Value list \<Rightarrow> string \<Rightarrow> string" where
  "Redact values message =
     (if redacted_values values = [] then message
      else replace_all (map (\<lambda>v. (v, ''[REDACTED]'')) (redacted_values values)) message)"

end
