(* ===== verification/SecretsTheorems.thy ===== *)
theory SecretsTheorems
  imports Secrets "HOL-Library.Sublist"
begin

text \<open>
  What the redactor hides, what a fingerprint binds, and which secrets \<open>Resolve\<close> returns.
\<close>

section \<open>The redactor\<close>

text \<open>A message as the redactor cuts it: runs of kept text and replaced secrets.\<close>

datatype piece = Kept string | Gone string

primrec original :: "piece \<Rightarrow> string" where
  "original (Kept t) = t"
| "original (Gone t) = t"

primrec shown :: "piece \<Rightarrow> string" where
  "shown (Kept t) = t"
| "shown (Gone t) = ''[REDACTED]''"

primrec piece_ok :: "string list \<Rightarrow> piece \<Rightarrow> bool" where
  "piece_ok secrets (Kept t) \<longleftrightarrow> list_all (\<lambda>s. \<not> sublist s t) secrets"
| "piece_ok secrets (Gone t) \<longleftrightarrow> t \<in> set secrets"

text \<open>Kept runs are maximal: two of them are never neighbours.\<close>

primrec is_kept :: "piece \<Rightarrow> bool" where
  "is_kept (Kept t) \<longleftrightarrow> True"
| "is_kept (Gone t) \<longleftrightarrow> False"

primrec maximal_runs :: "piece list \<Rightarrow> bool" where
  "maximal_runs [] \<longleftrightarrow> True"
| "maximal_runs (p # ps) \<longleftrightarrow> maximal_runs ps \<and> \<not> (is_kept p \<and> ps \<noteq> [] \<and> is_kept (hd ps))"

definition keep :: "char \<Rightarrow> piece list \<Rightarrow> piece list" where
  "keep c ps = (case ps of Kept t # qs \<Rightarrow> Kept (c # t) # qs | _ \<Rightarrow> Kept [c] # ps)"

lemma keep_simps [simp]:
  "concat (map original (keep c ps)) = c # concat (map original ps)"
  "concat (map shown (keep c ps)) = c # concat (map shown ps)"
  by (simp_all add: keep_def split: list.splits piece.splits)

lemma maximal_keep: "maximal_runs ps \<Longrightarrow> maximal_runs (keep c ps)"
  by (auto simp: keep_def split: list.splits piece.splits)

lemma has_prefix_iff: "has_prefix p s \<longleftrightarrow> prefix p s"
  by (induction p s rule: has_prefix.induct) auto

lemma match_pair_None:
  "match_pair ps s = None \<Longrightarrow> (old, new) \<in> set ps \<Longrightarrow> old \<noteq> [] \<Longrightarrow> \<not> prefix old s"
  by (induction ps s rule: match_pair.induct) (auto simp: has_prefix_iff split: if_splits)

abbreviation redactions :: "string list \<Rightarrow> (string \<times> string) list" where
  "redactions secrets \<equiv> map (\<lambda>v. (v, ''[REDACTED]'')) secrets"

lemma keep_ok:
  assumes ps: "list_all (piece_ok secrets) ps" and none: "match_pair (redactions secrets) (c # concat (map original ps)) = None"
    and ne: "'''' \<notin> set secrets"
  shows "list_all (piece_ok secrets) (keep c ps)"
proof -
  have no: "\<not> prefix s (c # t)" if "s \<in> set secrets" "prefix (c # t) (c # concat (map original ps))" for s t
  proof
    assume "prefix s (c # t)"
    then have "prefix s (c # concat (map original ps))" using that(2) by (rule prefix_order.trans)
    then show False using match_pair_None [OF none, of s "''[REDACTED]''"] that(1) ne by auto
  qed
  have nil: "\<not> sublist s ''''" if "s \<in> set secrets" for s using that ne by auto
  show ?thesis
  proof (cases "\<exists>t qs. ps = Kept t # qs")
    case True
    then obtain t qs where t: "ps = Kept t # qs" by blast
    then have "prefix (c # t) (c # concat (map original ps))" by simp
    then show ?thesis using ps no by (auto simp: t keep_def list_all_iff sublist_Cons_right)
  next
    case False
    then have "keep c ps = Kept [c] # ps" by (auto simp: keep_def split: list.splits piece.splits)
    then show ?thesis using ps no [of _ "[]"] nil by (auto simp: list_all_iff sublist_Cons_right)
  qed
qed

lemma redaction_pieces:
  assumes ne: "'''' \<notin> set secrets"
  shows "\<exists>ps. message = concat (map original ps) \<and>
    replace_all (redactions secrets) message = concat (map shown ps) \<and> list_all (piece_ok secrets) ps \<and> maximal_runs ps"
proof (induction "redactions secrets" message rule: replace_all.induct)
  case 1
  then show ?case by (intro exI [of _ "[]"]) (simp add: replace_all.simps)
next
  case (2 c cs)
  show ?case
  proof (cases "match_pair (redactions secrets) (c # cs)")
    case None
    then obtain ps where ps: "cs = concat (map original ps)"
      "replace_all (redactions secrets) cs = concat (map shown ps)" "list_all (piece_ok secrets) ps" "maximal_runs ps"
      using 2(1) by blast
    then show ?thesis
      using None keep_ok [OF ps(3) _ ne, of c] maximal_keep [OF ps(4)]
      by (intro exI [of _ "keep c ps"]) (simp add: replace_all.simps)
  next
    case (Some p)
    obtain old new where p: "p = (old, new)" by fastforce
    have old: "new = ''[REDACTED]''" "old \<in> set secrets" "prefix old (c # cs)"
      using match_pair_Some [OF Some [unfolded p]] by (auto simp: has_prefix_iff)
    then have split: "c # cs = old @ drop (length old) (c # cs)" by (auto simp: prefix_def)
    obtain ps where ps: "drop (length old) (c # cs) = concat (map original ps)"
      "replace_all (redactions secrets) (drop (length old) (c # cs)) = concat (map shown ps)"
      "list_all (piece_ok secrets) ps" "maximal_runs ps"
      using 2(2) [OF Some p [symmetric]] by blast
    have "replace_all (redactions secrets) (c # cs) = new @ replace_all (redactions secrets) (drop (length old) (c # cs))"
      using Some p by (simp add: replace_all.simps)
    then show ?thesis
      using ps old split [unfolded ps(1)] by (intro exI [of _ "Gone old # ps"] conjI) simp_all
  qed
qed

lemma redacted_values_set: "set (redacted_values values) = va_Value ` set values - {''''}"
  by (auto simp: redacted_values_def)

section \<open>Fingerprints\<close>

lemma digits_split:
  assumes "utoa m @ CHR '':'' # x = utoa n @ CHR '':'' # y"
  shows "m = n \<and> x = y"
proof -
  have no: "CHR '':'' \<notin> set (utoa k)" for k using utoa_digits [of "CHR '':''" k] by (auto simp: is_digit_def byte_def)
  have "takeWhile (\<lambda>c. c \<noteq> CHR '':'') (utoa k @ CHR '':'' # z) = utoa k" for k z
    using no by (subst takeWhile_append2) auto
  then have "utoa m = utoa n" using assms by metis
  then show ?thesis using assms by simp
qed

lemma framed_split: "framed p @ x = framed q @ y \<Longrightarrow> p = q \<and> x = y"
proof -
  assume a: "framed p @ x = framed q @ y"
  then have "length p = length q" "p @ x = q @ y"
    using digits_split [of "length p" "p @ x" "length q" "q @ y"] by (simp_all add: framed_def)
  then show "p = q \<and> x = y" by simp
qed

lemma value_frame_split:
  "value_frame v @ x = value_frame w @ y \<Longrightarrow>
    rf_Group (va_Ref v) = rf_Group (va_Ref w) \<and> rf_Key (va_Ref v) = rf_Key (va_Ref w) \<and> va_Value v = va_Value w \<and> x = y"
proof -
  assume a: "value_frame v @ x = value_frame w @ y"
  have parts: "value_frame u @ z = framed (rf_Group (va_Ref u)) @ framed (rf_Key (va_Ref u)) @ framed (va_Value u) @ z" for u z
    by (simp add: value_frame_def)
  note g = framed_split [OF a [unfolded parts]]
  note k = framed_split [OF conjunct2 [OF g]]
  from g k framed_split [OF conjunct2 [OF k]] show ?thesis by blast
qed

abbreviation secret_of :: "Value \<Rightarrow> string \<times> string \<times> string" where
  "secret_of v \<equiv> (rf_Group (va_Ref v), rf_Key (va_Ref v), va_Value v)"

lemma frames_inj: "concat (map value_frame vs) = concat (map value_frame ws) \<Longrightarrow> map secret_of vs = map secret_of ws"
proof (induction vs arbitrary: ws)
  case Nil
  have "value_frame w \<noteq> []" for w by (simp add: value_frame_def framed_def)
  then show ?case using Nil by (cases ws) auto
next
  case (Cons v vs)
  have "value_frame v \<noteq> []" by (simp add: value_frame_def framed_def)
  then obtain w us where ws: "ws = w # us" using Cons.prems by (cases ws) auto
  have "value_frame v @ concat (map value_frame vs) = value_frame w @ concat (map value_frame us)"
    using Cons.prems by (simp add: ws)
  note split = value_frame_split [OF this]
  have "map secret_of vs = map secret_of us" by (rule Cons.IH) (use split in simp)
  then show ?case using split by (simp add: ws)
qed

section \<open>Properties\<close>

text \<open>
  C25: the redactor leaves no secret in what it keeps.  Every message splits into kept runs and
  occurrences of secrets; the output shows the runs unchanged and a mark for each occurrence, and
  no run contains a secret value, also where one secret is part of another.
\<close>

theorem redact_hides:
  "\<exists>ps. message = concat (map original ps) \<and> Redact values message = concat (map shown ps) \<and>
    list_all (piece_ok (redacted_values values)) ps \<and> maximal_runs ps \<and>
    set (redacted_values values) = va_Value ` set values - {''''}"
proof (cases "redacted_values values = []")
  case True
  let ?ps = "if message = [] then [] else [Kept message]"
  have "message = concat (map original ?ps) \<and> Redact values message = concat (map shown ?ps) \<and>
      list_all (piece_ok (redacted_values values)) ?ps \<and> maximal_runs ?ps"
    by (simp add: Redact_def True)
  then show ?thesis using redacted_values_set by blast
next
  case False
  have "'''' \<notin> set (redacted_values values)" by (simp add: redacted_values_set)
  from redaction_pieces [OF this, of message] show ?thesis
    using False by (simp add: Redact_def redacted_values_set)
qed

text \<open>
  A fingerprint binds the secrets.  Two sets of values with one fingerprint, short of a
  collision of the keyed hash on their encodings, are the same groups, keys and values in the order
  of their references: no part can run into the next.
\<close>

theorem fingerprint_binds:
  assumes "Fingerprint hmac key a = Fingerprint hmac key b"
    and "hmac key (fingerprint_input a) = hmac key (fingerprint_input b) \<Longrightarrow> fingerprint_input a = fingerprint_input b"
  shows "map (\<lambda>v. (rf_Group (va_Ref v), rf_Key (va_Ref v), va_Value v)) (sort_key (\<lambda>v. ref_path (va_Ref v)) a) =
    map (\<lambda>v. (rf_Group (va_Ref v), rf_Key (va_Ref v), va_Value v)) (sort_key (\<lambda>v. ref_path (va_Ref v)) b)"
proof -
  have "fingerprint_input a = fingerprint_input b"
    by (rule assms(2)) (use assms(1) in \<open>simp add: Fingerprint_def\<close>)
  then show ?thesis unfolding fingerprint_input_def by (rule frames_inj)
qed

definition sample_value :: "string \<Rightarrow> string \<Rightarrow> Value" where
  "sample_value k v = \<lparr>va_Ref = \<lparr>rf_Group = ''g'', rf_Key = k, rf_Required = True\<rparr>, va_Value = v, va_Source = ''group''\<rparr>"

lemma fingerprint_binds_witness:
  "Fingerprint (\<lambda>k s. s) ''k'' [sample_value ''a'' ''1a''] \<noteq> Fingerprint (\<lambda>k s. s) ''k'' [sample_value ''a1'' ''a'']"
proof
  assume "Fingerprint (\<lambda>k s. s) ''k'' [sample_value ''a'' ''1a''] = Fingerprint (\<lambda>k s. s) ''k'' [sample_value ''a1'' ''a'']"
  from fingerprint_binds [OF this] show False by (simp add: sample_value_def)
qed

end
