(* ===== verification/Supervision.thy ===== *)
theory Supervision
  imports Settlement Secrets History "HOL-Library.AList"
begin

text \<open>
  \<open>internal/daemon\<close>: \<open>reconcile.go\<close>, \<open>registry.go\<close> and the delay of \<open>maintenance.go\<close>.  The
  daemon compares the deployments that should run with the workers it has, starts and stops
  processes, and backs off from deployments that fail.

  A worker is an address of the heap \<open>dm_heap\<close>, so that \<open>slot.worker == worker\<close> is a comparison of
  addresses.  \<open>rn_alive\<close> holds until the daemon kills the process or has waited for its exit, and
  \<open>rn_serving\<close> until the goroutine that serves it returns.  Between two steps of a visit the other
  goroutines and processes call the store: \<open>vi_meanwhile k\<close> are their calls before the k-th step.
  Instants are nanoseconds, those of the store milliseconds.
\<close>

section \<open>Workers and slots\<close>

record running =
  rn_worker :: worker
  rn_fingerprint :: string
  rn_secrets :: "Value list"
  rn_requestedStop :: string
  rn_alive :: bool
  rn_serving :: bool

abbreviation rn_id :: "running \<Rightarrow> string" where
  "rn_id r \<equiv> d_id (wk_row (rn_worker r))"

abbreviation rn_generation :: "running \<Rightarrow> int" where
  "rn_generation r \<equiv> ag_Generation (wk_generation (rn_worker r))"

text \<open>
  \<open>cancel\<close> is set and cleared together with \<open>worker\<close>, so a slot without a worker has nothing to
  cancel.  \<open>None\<close> is the zero time, which is before every other.
\<close>

record workerSlot =
  ws_worker :: "nat option"
  ws_failures :: nat
  ws_nextStart :: "int option"
  ws_startedAt :: "int option"

definition empty_slot :: workerSlot where
  "empty_slot = \<lparr>ws_worker = None, ws_failures = 0, ws_nextStart = None, ws_startedAt = None\<rparr>"

record daemon =
  dm_store :: store
  dm_workers :: "(string \<times> workerSlot) list"
  dm_heap :: "running list"

definition workerStableAfter :: int where
  "workerStableAfter = 60000000000"

text \<open>\<open>now.Add(time.Second << min(failures, 8))\<close>.\<close>

definition back_off :: "int \<Rightarrow> workerSlot \<Rightarrow> workerSlot" where
  "back_off now slot =
     (let failures = ws_failures slot + 1 in
      slot\<lparr>ws_failures := failures, ws_nextStart := Some (now + 1000000000 * 2 ^ min failures 8)\<rparr>)"

definition slot_of :: "string \<Rightarrow> daemon \<Rightarrow> workerSlot" where
  "slot_of i d = (case map_of (dm_workers d) i of None \<Rightarrow> empty_slot | Some slot \<Rightarrow> slot)"

definition put_slot :: "string \<Rightarrow> workerSlot \<Rightarrow> daemon \<Rightarrow> daemon" where
  "put_slot i slot d = d\<lparr>dm_workers := AList.update i slot (dm_workers d)\<rparr>"

definition failed_slot :: "string \<Rightarrow> int \<Rightarrow> daemon \<Rightarrow> daemon" where
  "failed_slot i now d = put_slot i (back_off now (slot_of i d)) d"

section \<open>Stopping\<close>

definition at_heap :: "nat \<Rightarrow> (running \<Rightarrow> running) \<Rightarrow> daemon \<Rightarrow> daemon" where
  "at_heap p f d = (if p < length (dm_heap d) then d\<lparr>dm_heap := (dm_heap d)[p := f (dm_heap d ! p)]\<rparr> else d)"

text \<open>
  \<open>worker.stop\<close> asks the process to stop and returns once it has exited, or kills it at the
  deadline; \<open>worker.kill\<close> kills its process group.
\<close>

definition worker_stop :: "string \<Rightarrow> nat \<Rightarrow> daemon \<Rightarrow> daemon" where
  "worker_stop reason p = at_heap p (\<lambda>r. r\<lparr>rn_requestedStop := reason, rn_alive := False\<rparr>)"

definition worker_kill :: "nat \<Rightarrow> daemon \<Rightarrow> daemon" where
  "worker_kill p = at_heap p (\<lambda>r. r\<lparr>rn_alive := False\<rparr>)"

definition stop_slot :: "string \<Rightarrow> workerSlot \<Rightarrow> daemon \<Rightarrow> daemon" where
  "stop_slot reason slot d = (case ws_worker slot of None \<Rightarrow> d | Some p \<Rightarrow> worker_stop reason p d)"

definition stopWorker :: "string \<Rightarrow> string \<Rightarrow> daemon \<Rightarrow> daemon" where
  "stopWorker i reason d =
     (let d' = d\<lparr>dm_workers := AList.delete i (dm_workers d)\<rparr> in
      case map_of (dm_workers d) i of None \<Rightarrow> d' | Some slot \<Rightarrow> stop_slot reason slot d')"

definition stop_slots :: "string \<Rightarrow> (string \<times> workerSlot) list \<Rightarrow> daemon \<Rightarrow> daemon" where
  "stop_slots reason = fold (\<lambda>(i, slot). stop_slot reason slot)"

definition stopWorkers :: "daemon \<Rightarrow> daemon" where
  "stopWorkers d = stop_slots ''daemon shutdown'' (dm_workers d) (d\<lparr>dm_workers := []\<rparr>)"

definition drop_inactive :: "string list \<Rightarrow> daemon \<Rightarrow> daemon" where
  "drop_inactive active d =
     stop_slots ''deployment inactive'' (filter (\<lambda>(i, slot). i \<notin> set active) (dm_workers d))
       (d\<lparr>dm_workers := filter (\<lambda>(i, slot). i \<in> set active) (dm_workers d)\<rparr>)"

section \<open>Secrets of a deployment\<close>

record daemon_env =
  dn_codec :: daemon_codec
  dn_describe :: "string \<Rightarrow> (Info \<times> PlanDescription) option"
  dn_hmac :: "string \<Rightarrow> string \<Rightarrow> string"
  dn_secretKey :: string
  dn_error_text :: "go_error \<Rightarrow> string"
  dn_canceled :: "go_error \<Rightarrow> bool"

text \<open>The maps of the handshake: group to key to value.\<close>

definition put_secret :: "Value \<Rightarrow> (string \<times> (string \<times> string) list) list \<Rightarrow> (string \<times> (string \<times> string) list) list" where
  "put_secret v m =
     (let old = (case map_of m (rf_Group (va_Ref v)) of None \<Rightarrow> [] | Some keys \<Rightarrow> keys) in
      AList.update (rf_Group (va_Ref v)) (AList.update (rf_Key (va_Ref v)) (va_Value v) old) m)"

definition resolveDeploymentSecrets ::
    "daemon_env \<Rightarrow> (path \<Rightarrow> lookup) \<Rightarrow> string \<Rightarrow> string \<Rightarrow>
     ((string \<times> (string \<times> string) list) list \<times> string \<times> Value list) result" where
  "resolveDeploymentSecrets M files sourceDir describe =
     (case dn_describe M describe of
        None \<Rightarrow> Inl (Errorf ''decode artifact describe'')
      | Some (info, plan) \<Rightarrow>
          (case Resolve files \<lparr>so_MonitorDir = sourceDir, so_Overrides = [], so_Defaults = []\<rparr>
                  (map (\<lambda>r. \<lparr>rf_Group = sr_Group r, rf_Key = sr_Key r, rf_Required = sr_Required r\<rparr>) (SecretRefs plan)) of
             Inl e \<Rightarrow> Inl e
           | Inr values \<Rightarrow> Inr (fold put_secret values [], Fingerprint (dn_hmac M) (dn_secretKey M) values, values)))"

section \<open>Launching\<close>

record visit_env =
  vi_files :: "path \<Rightarrow> lookup"
  vi_meanwhile :: "nat \<Rightarrow> store_call list"
  vi_token :: string
  vi_checkedAt :: int
  vi_activatedAt :: int
  vi_process :: "go_error option"
  vi_written :: "go_error option \<times> go_error option"
  vi_replies :: "WorkerFrame result \<times> WorkerFrame result"
  vi_readyAt :: int
  vi_failureID :: string
  vi_failedAt :: int
  vi_stoppedAt :: int
  vi_startedAt :: int
  vi_cancelled :: "go_error option"

definition meanwhile :: "env \<Rightarrow> store_call list \<Rightarrow> daemon \<Rightarrow> daemon" where
  "meanwhile E cs d = d\<lparr>dm_store := run_calls E cs (dm_store d)\<rparr>"

text \<open>One store operation of the daemon.\<close>

definition on_store :: "(store \<Rightarrow> (store \<times> 'a) result) \<Rightarrow> daemon \<Rightarrow> daemon \<times> 'a result" where
  "on_store f d = (case run_tx f (dm_store d) of (s, r) \<Rightarrow> (d\<lparr>dm_store := s\<rparr>, r))"

definition activation_of :: "RuntimeDeployment \<Rightarrow> string \<Rightarrow> GenerationActivation" where
  "activation_of dep fingerprint =
     (let row = rd_Deployment dep in
      \<lparr>ga_DeploymentID = d_id row, ga_ArtifactID = d_artifact row, ga_ConfigRevision = d_config_revision row,
       ga_StateRevision = d_state_revision row, ga_ActiveGeneration = d_active row, ga_SecretFingerprint = fingerprint\<rparr>)"

definition errors_of :: "'a result \<Rightarrow> go_error list" where
  "errors_of r = (case r of Inl e \<Rightarrow> [e] | Inr _ \<Rightarrow> [])"

text \<open>The error path of a launch, with the error's text redacted; the process has been killed.\<close>

definition launch_failed ::
    "env \<Rightarrow> daemon_env \<Rightarrow> visit_env \<Rightarrow> string \<Rightarrow> string \<Rightarrow> int \<Rightarrow> Value list \<Rightarrow> go_error \<Rightarrow> daemon \<Rightarrow> daemon \<times> go_error list" where
  "launch_failed E M V reason i n values e d =
     (let safeError = Redact values (dn_error_text M e);
          (d1, r1) = on_store (RecordGenerationFailure E i n safeError (vi_failureID V) (vi_failedAt V))
            (meanwhile E (vi_meanwhile V 4) d);
          (d2, r2) = on_store (MarkGenerationStopped i n reason safeError (vi_stoppedAt V))
            (meanwhile E (vi_meanwhile V 5) d1)
      in (d2, Errorf safeError # errors_of r1 @ errors_of r2))"

definition start_process ::
    "daemon_env \<Rightarrow> visit_env \<Rightarrow> RuntimeDeployment \<Rightarrow> ActiveGeneration \<Rightarrow> (string \<times> (string \<times> string) list) list \<Rightarrow> worker result" where
  "start_process M V dep g secretMap =
     (case vi_process V of
        Some e \<Rightarrow> Inl e
      | None \<Rightarrow> startWorker (dn_codec M) (dn_describe M (a_describe (rd_Artifact dep))) dep g secretMap (vi_written V) (vi_replies V))"

definition install ::
    "string \<Rightarrow> string \<Rightarrow> Value list \<Rightarrow> worker \<Rightarrow> int \<Rightarrow> daemon \<Rightarrow> daemon" where
  "install i fingerprint values w startedAt d =
     put_slot i ((slot_of i d)\<lparr>ws_worker := Some (length (dm_heap d)), ws_nextStart := None, ws_startedAt := Some startedAt\<rparr>)
       (d\<lparr>dm_heap := dm_heap d @
         [\<lparr>rn_worker = w, rn_fingerprint = fingerprint, rn_secrets = values, rn_requestedStop = '''', rn_alive = True,
           rn_serving = True\<rparr>]\<rparr>)"

definition launch ::
    "env \<Rightarrow> daemon_env \<Rightarrow> visit_env \<Rightarrow> RuntimeDeployment \<Rightarrow> (string \<times> (string \<times> string) list) list \<Rightarrow> string \<Rightarrow> Value list \<Rightarrow>
     daemon \<Rightarrow> daemon \<times> go_error list" where
  "launch E M V dep secretMap fingerprint values d =
     (let i = d_id (rd_Deployment dep) in
      case on_store (ActivateGeneration E (activation_of dep fingerprint) (vi_token V) (vi_checkedAt V) (vi_activatedAt V))
             (meanwhile E (vi_meanwhile V 2) d) of
        (d1, Inl e) \<Rightarrow> (d1, [e])
      | (d1, Inr g) \<Rightarrow>
          (case start_process M V dep g secretMap of
             Inl e \<Rightarrow> launch_failed E M V ''launch failed'' i (ag_Generation g) values e d1
           | Inr w \<Rightarrow>
               (case on_store (MarkGenerationReady i (ag_Generation g) (vi_readyAt V)) (meanwhile E (vi_meanwhile V 3) d1) of
                  (d2, Inl e) \<Rightarrow> launch_failed E M V ''readiness persistence failed'' i (ag_Generation g) values e d2
                | (d2, Inr _) \<Rightarrow> (install i fingerprint values w (vi_startedAt V) d2, []))))"

section \<open>Reconciling\<close>

text \<open>The four conditions on which a worker is kept.\<close>

definition current :: "string \<Rightarrow> RuntimeMetadata \<Rightarrow> running \<Rightarrow> bool" where
  "current fingerprint dep r \<longleftrightarrow> rn_fingerprint r = fingerprint \<and> rn_generation r = rm_ActiveGeneration dep \<and>
     d_artifact (wk_row (rn_worker r)) = rm_ArtifactID dep \<and>
     d_config_revision (wk_row (rn_worker r)) = rm_ConfigRevision dep"

definition agrees :: "RuntimeDeployment \<Rightarrow> RuntimeMetadata \<Rightarrow> bool" where
  "agrees snapshot dep \<longleftrightarrow>
     (let row = rd_Deployment snapshot in d_artifact row = rm_ArtifactID dep \<and> d_config_revision row = rm_ConfigRevision dep \<and>
        d_active row = rm_ActiveGeneration dep \<and> d_source_dir row = rm_SourceDir dep)"

text \<open>A visit goes on with its errors, or ends the whole pass because the daemon is stopping.\<close>

datatype visited = Went "go_error list" | Aborted go_error

definition visit_failed :: "visit_env \<Rightarrow> string \<Rightarrow> int \<Rightarrow> go_error list \<Rightarrow> daemon \<Rightarrow> daemon \<times> visited" where
  "visit_failed V i now es d =
     (case vi_cancelled V of
        Some e \<Rightarrow> (d, Aborted e)
      | None \<Rightarrow> (failed_slot i now d, Went es))"

definition visit_launch ::
    "env \<Rightarrow> daemon_env \<Rightarrow> visit_env \<Rightarrow> int \<Rightarrow> RuntimeMetadata \<Rightarrow>
     (string \<times> (string \<times> string) list) list \<times> string \<times> Value list \<Rightarrow> daemon \<Rightarrow> daemon \<times> visited" where
  "visit_launch E M V now dep resolved d =
     (let (secretMap, fingerprint, values) = resolved in
      case GetRuntimeDeployment (rm_ID dep) (dm_store d) of
        Inl e \<Rightarrow> visit_failed V (rm_ID dep) now [e] d
      | Inr snapshot \<Rightarrow>
          if \<not> agrees snapshot dep then (d, Went [])
          else (case launch E M V snapshot secretMap fingerprint values d of
              (d', []) \<Rightarrow> (d', Went [])
            | (d', es) \<Rightarrow> visit_failed V (rm_ID dep) now es d'))"

definition secrets_failed ::
    "env \<Rightarrow> daemon_env \<Rightarrow> visit_env \<Rightarrow> int \<Rightarrow> string \<Rightarrow> bool \<Rightarrow> go_error \<Rightarrow> daemon \<Rightarrow> daemon \<times> visited" where
  "secrets_failed E M V now i running e d =
     (let d1 = (if running then stopWorker i ''secret resolution failed'' d else d);
          (d2, r) = on_store (RecordDeploymentFailure E i (dn_error_text M e) (vi_failureID V) (vi_failedAt V))
            (meanwhile E (vi_meanwhile V 1) d1)
      in (failed_slot i now d2, Went [e]))"

definition visit :: "env \<Rightarrow> daemon_env \<Rightarrow> visit_env \<Rightarrow> int \<Rightarrow> RuntimeMetadata \<Rightarrow> daemon \<Rightarrow> daemon \<times> visited" where
  "visit E M V now dep d =
     (let i = rm_ID dep; existing = ws_worker (slot_of i d) in
      if existing = None \<and> (case ws_nextStart (slot_of i d) of None \<Rightarrow> False | Some nx \<Rightarrow> now < nx) then (d, Went [])
      else case resolveDeploymentSecrets M (vi_files V) (rm_SourceDir dep) (rm_Describe dep) of
        Inl e \<Rightarrow> secrets_failed E M V now i (existing \<noteq> None) e d
      | Inr (secretMap, fingerprint, values) \<Rightarrow>
          (case existing of
             None \<Rightarrow> visit_launch E M V now dep (secretMap, fingerprint, values) (meanwhile E (vi_meanwhile V 1) d)
           | Some p \<Rightarrow>
               if current fingerprint dep (dm_heap d ! p) then (d, Went [])
               else visit_launch E M V now dep (secretMap, fingerprint, values)
                 (meanwhile E (vi_meanwhile V 1) (stopWorker i ''deployment snapshot changed'' d))))"

fun visits :: "env \<Rightarrow> daemon_env \<Rightarrow> (string \<Rightarrow> visit_env) \<Rightarrow> int \<Rightarrow> RuntimeMetadata list \<Rightarrow> daemon \<Rightarrow> daemon \<times> visited" where
  "visits E M V now [] d = (d, Went [])"
| "visits E M V now (dep # deps) d =
     (case visit E M (V (rm_ID dep)) now dep (meanwhile E (vi_meanwhile (V (rm_ID dep)) 0) d) of
        (d1, Aborted e) \<Rightarrow> (d1, Aborted e)
      | (d1, Went es) \<Rightarrow>
          (case visits E M V now deps d1 of
             (d2, Aborted e) \<Rightarrow> (d2, Aborted e)
           | (d2, Went es') \<Rightarrow> (d2, Went (es @ es'))))"

text \<open>\<open>between\<close> are the calls of others before the listing, \<open>listedAt\<close> its clock.\<close>

definition reconcile ::
    "env \<Rightarrow> daemon_env \<Rightarrow> (string \<Rightarrow> visit_env) \<Rightarrow> int \<Rightarrow> store_call list \<Rightarrow> int \<Rightarrow> daemon \<Rightarrow> daemon \<times> visited" where
  "reconcile E M V now between listedAt d =
     (let (d1, r) = on_store (DeactivateDueDeployments (now div 1000000)) d;
          d2 = meanwhile E between d1;
          deps = ListRuntimeMetadata listedAt (dm_store d2)
      in case visits E M V now deps d2 of
           (d3, Aborted e) \<Rightarrow> (d3, Aborted e)
         | (d3, Went es) \<Rightarrow> (drop_inactive (map rm_ID deps) d3, Went (errors_of r @ es)))"

section \<open>The end of a worker\<close>

record exit_env =
  xe_failureID :: string
  xe_failedAt :: int
  xe_stoppedAt :: int
  xe_now :: int
  xe_meanwhile :: "store_call list"

definition serve_errors :: "serve_result \<Rightarrow> go_error list" where
  "serve_errors r = (case r of ServeErrors es \<Rightarrow> es | WorkerStopped es _ \<Rightarrow> es | ServeDone es \<Rightarrow> es)"

text \<open>\<open>errors.Is(err, context.Canceled)\<close>: a \<open>workerStoppedError\<close> wraps nothing.\<close>

definition serve_canceled :: "daemon_env \<Rightarrow> serve_result \<Rightarrow> bool" where
  "serve_canceled M r = (case r of WorkerStopped es _ \<Rightarrow> False | _ \<Rightarrow> list_ex (dn_canceled M) (serve_errors r))"

text \<open>\<open>err != nil && !errors.Is(err, context.Canceled)\<close>.\<close>

definition serve_failed :: "daemon_env \<Rightarrow> serve_result \<Rightarrow> bool" where
  "serve_failed M r \<longleftrightarrow> (case r of ServeDone es \<Rightarrow> es \<noteq> [] | _ \<Rightarrow> True) \<and> \<not> serve_canceled M r"

definition failure_reported :: "serve_result \<Rightarrow> bool" where
  "failure_reported r = (case r of WorkerStopped es reported \<Rightarrow> reported | _ \<Rightarrow> False)"

text \<open>What the goroutine of \<open>launch\<close> does after \<open>serve\<close> has returned \<open>r\<close>: the store's part,
  the slot's, and all of it.\<close>

definition record_exit :: "env \<Rightarrow> daemon_env \<Rightarrow> exit_env \<Rightarrow> running \<Rightarrow> serve_result \<Rightarrow> daemon \<Rightarrow> daemon" where
  "record_exit E M X w r d =
     (let i = rn_id w; n = rn_generation w;
          safeError = Redact (rn_secrets w) (concat (map (dn_error_text M) (serve_errors r)));
          d1 = (if serve_failed M r \<and> \<not> failure_reported r
                then fst (on_store (RecordGenerationFailure E i n safeError (xe_failureID X) (xe_failedAt X)) d) else d);
          reason = (if rn_requestedStop w = '''' then ''worker exited'' else rn_requestedStop w);
          stopError = (if serve_failed M r then safeError else '''')
      in fst (on_store (MarkGenerationStopped i n reason stopError (xe_stoppedAt X)) (meanwhile E (xe_meanwhile X) d1)))"

definition exit_slot :: "daemon_env \<Rightarrow> exit_env \<Rightarrow> serve_result \<Rightarrow> workerSlot \<Rightarrow> workerSlot" where
  "exit_slot M X r slot =
     (let slot1 = slot\<lparr>ws_worker := None\<rparr>;
          lasted = xe_now X - (case ws_startedAt slot of None \<Rightarrow> 0 | Some t \<Rightarrow> t) in
      if \<not> serve_failed M r then slot1
      else back_off (xe_now X) (if lasted \<ge> workerStableAfter then slot1\<lparr>ws_failures := 0\<rparr> else slot1))"

definition serve_end :: "env \<Rightarrow> daemon_env \<Rightarrow> exit_env \<Rightarrow> nat \<Rightarrow> serve_result \<Rightarrow> daemon \<Rightarrow> daemon" where
  "serve_end E M X p r d =
     (let w = dm_heap d ! p;
          d1 = record_exit E M X w r (if serve_failed M r then worker_kill p d else d);
          slot = slot_of (rn_id w) d1;
          d2 = (if ws_worker slot = Some p then put_slot (rn_id w) (exit_slot M X r slot) d1 else d1)
      in at_heap p (\<lambda>r. r\<lparr>rn_serving := False\<rparr>) d2)"

section \<open>Maintenance\<close>

text \<open>\<open>maintenanceDelay\<close> on what the two sweeps returned, \<open>None\<close> a failed one; nanoseconds.\<close>

definition sweep_time :: "PruneResult \<Rightarrow> int" where
  "sweep_time r = (case pr_NextSweepAt r of None \<Rightarrow> - 62135596800000000000 | Some t \<Rightarrow> t * 1000000)"

definition maintenanceDelay :: "int \<Rightarrow> PruneResult option \<Rightarrow> PruneResult option \<Rightarrow> int" where
  "maintenanceDelay now outbox ledger =
     (case (outbox, ledger) of
        (Some a, Some b) \<Rightarrow>
          if pr_More a \<or> pr_More b then 1000000000
          else max 1000000000 (min (sweep_time a) (sweep_time b) - now)
      | _ \<Rightarrow> 5000000000)"

end
