(* ===== verification/SupervisionTheorems.thy ===== *)
theory SupervisionTheorems
  imports Supervision Sample
begin

text \<open>
  The supervision of workers: a step relation for everything that happens to the daemon, the
  invariant that at most one live process serves a deployment, what a pass of the reconciler
  leaves running, and how a launch fences the generations before it.
\<close>

section \<open>Slots and the heap\<close>

abbreviation worker_in :: "string \<Rightarrow> daemon \<Rightarrow> nat option" where
  "worker_in i d \<equiv> ws_worker (slot_of i d)"

lemma slot_of_simps [simp]:
  "slot_of i (d\<lparr>dm_store := s\<rparr>) = slot_of i d" "slot_of i (d\<lparr>dm_heap := h\<rparr>) = slot_of i d"
  "slot_of i (put_slot j slot d) = (if i = j then slot else slot_of i d)"
  "slot_of i (d\<lparr>dm_workers := []\<rparr>) = empty_slot"
  "slot_of i (d\<lparr>dm_workers := AList.delete j (dm_workers d)\<rparr>) = (if i = j then empty_slot else slot_of i d)"
  by (simp_all add: slot_of_def put_slot_def update_conv' delete_conv')

lemma map_of_filter_key: "map_of (filter (\<lambda>(i, slot). Q i) xs) k = (if Q k then map_of xs k else None)"
  by (induction xs) auto

lemma put_slot_fields [simp]:
  "dm_store (put_slot i slot d) = dm_store d" "dm_heap (put_slot i slot d) = dm_heap d"
  by (simp_all add: put_slot_def)

lemma at_heap_fields [simp]:
  "dm_store (at_heap p f d) = dm_store d" "dm_workers (at_heap p f d) = dm_workers d"
  "slot_of i (at_heap p f d) = slot_of i d" "length (dm_heap (at_heap p f d)) = length (dm_heap d)"
  by (simp_all add: at_heap_def)

lemma at_heap_nth: "q < length (dm_heap d) \<Longrightarrow> dm_heap (at_heap p f d) ! q = (if q = p then f (dm_heap d ! q) else dm_heap d ! q)"
  by (simp add: at_heap_def)

definition stopped_by :: "string \<Rightarrow> running \<Rightarrow> running" where
  "stopped_by reason r = r\<lparr>rn_requestedStop := reason, rn_alive := False\<rparr>"

definition workers_of :: "(string \<times> workerSlot) list \<Rightarrow> nat set" where
  "workers_of L = {p. \<exists>(i, slot) \<in> set L. ws_worker slot = Some p}"

lemma worker_stop_eq: "worker_stop reason p = at_heap p (stopped_by reason)"
  by (simp add: worker_stop_def stopped_by_def [abs_def])

lemma stop_slot_fields [simp]:
  "dm_store (stop_slot reason slot d) = dm_store d" "dm_workers (stop_slot reason slot d) = dm_workers d"
  "slot_of i (stop_slot reason slot d) = slot_of i d" "length (dm_heap (stop_slot reason slot d)) = length (dm_heap d)"
  by (simp_all add: stop_slot_def worker_stop_eq split: option.split)

lemma stop_slot_nth:
  "q < length (dm_heap d) \<Longrightarrow>
     dm_heap (stop_slot reason slot d) ! q = (if ws_worker slot = Some q then stopped_by reason (dm_heap d ! q) else dm_heap d ! q)"
  by (auto simp: stop_slot_def worker_stop_eq at_heap_nth split: option.split)

lemma stopped_by_twice [simp]: "stopped_by reason (stopped_by reason r) = stopped_by reason r"
  by (simp add: stopped_by_def)

lemma stop_slots:
  "dm_store (stop_slots reason L d) = dm_store d \<and> dm_workers (stop_slots reason L d) = dm_workers d \<and>
    length (dm_heap (stop_slots reason L d)) = length (dm_heap d) \<and>
    (\<forall>q<length (dm_heap d). dm_heap (stop_slots reason L d) ! q =
       (if q \<in> workers_of L then stopped_by reason (dm_heap d ! q) else dm_heap d ! q))"
proof (induction L arbitrary: d)
  case Nil
  show ?case by (simp add: stop_slots_def workers_of_def)
next
  case (Cons x L)
  obtain i slot where x: "x = (i, slot)" by (cases x)
  have "workers_of (x # L) = workers_of L \<union> {p. ws_worker slot = Some p}" by (auto simp: workers_of_def x)
  then show ?case using Cons [of "stop_slot reason slot d"] by (auto simp: stop_slots_def x stop_slot_nth)
qed

section \<open>The invariant of the slots\<close>

text \<open>A slot holds a live worker of its deployment that nobody has stopped, and every live worker
  that is being served is in its slot.\<close>

definition slots_ok :: "daemon \<Rightarrow> bool" where
  "slots_ok d \<longleftrightarrow> distinct (map fst (dm_workers d)) \<and>
     (\<forall>i p. worker_in i d = Some p \<longrightarrow> p < length (dm_heap d) \<and> rn_id (dm_heap d ! p) = i \<and>
        rn_serving (dm_heap d ! p) \<and> rn_alive (dm_heap d ! p) \<and> rn_requestedStop (dm_heap d ! p) = '''') \<and>
     (\<forall>p<length (dm_heap d). rn_serving (dm_heap d ! p) \<and> rn_alive (dm_heap d ! p) \<longrightarrow>
        worker_in (rn_id (dm_heap d ! p)) d = Some p)"

lemma slots_okD:
  assumes "slots_ok d" "worker_in i d = Some p"
  shows "p < length (dm_heap d)" "rn_id (dm_heap d ! p) = i" "rn_serving (dm_heap d ! p)" "rn_alive (dm_heap d ! p)"
    "rn_requestedStop (dm_heap d ! p) = ''''"
  using assms by (auto simp: slots_ok_def)

lemma slots_ok_distinct: "slots_ok d \<Longrightarrow> distinct (map fst (dm_workers d))"
  by (simp add: slots_ok_def)

lemma slots_okI:
  assumes "distinct (map fst (dm_workers d))"
    and "\<And>i p. worker_in i d = Some p \<Longrightarrow> p < length (dm_heap d) \<and> rn_id (dm_heap d ! p) = i \<and>
        rn_serving (dm_heap d ! p) \<and> rn_alive (dm_heap d ! p) \<and> rn_requestedStop (dm_heap d ! p) = ''''"
    and "\<And>p. p < length (dm_heap d) \<Longrightarrow> rn_serving (dm_heap d ! p) \<Longrightarrow> rn_alive (dm_heap d ! p) \<Longrightarrow>
        worker_in (rn_id (dm_heap d ! p)) d = Some p"
  shows "slots_ok d"
  unfolding slots_ok_def using assms by (intro conjI [OF assms(1)] allI impI conjI) blast+

lemma slots_ok_store [simp]: "slots_ok (d\<lparr>dm_store := s\<rparr>) = slots_ok d"
  by (simp add: slots_ok_def)

lemma meanwhile_fields [simp]:
  "dm_workers (meanwhile E cs d) = dm_workers d" "dm_heap (meanwhile E cs d) = dm_heap d"
  "slot_of i (meanwhile E cs d) = slot_of i d" "slots_ok (meanwhile E cs d) = slots_ok d"
  "dm_store (meanwhile E cs d) = run_calls E cs (dm_store d)"
  by (simp_all add: meanwhile_def)

lemma on_store_fields [simp]:
  "dm_workers (fst (on_store f d)) = dm_workers d" "dm_heap (fst (on_store f d)) = dm_heap d"
  "slot_of i (fst (on_store f d)) = slot_of i d" "slots_ok (fst (on_store f d)) = slots_ok d"
  "dm_store (fst (on_store f d)) = fst (run_tx f (dm_store d))"
  by (simp_all add: on_store_def split: prod.split)

lemma distinct_put_slot: "distinct (map fst (dm_workers d)) \<Longrightarrow> distinct (map fst (dm_workers (put_slot i slot d)))"
  by (simp add: put_slot_def distinct_update)

text \<open>A change of a slot that leaves its worker.\<close>

lemma slots_ok_put:
  assumes "slots_ok d" "ws_worker slot = worker_in i d"
  shows "slots_ok (put_slot i slot d)"
  using assms by (auto simp: slots_ok_def distinct_put_slot)

lemma failed_slot_ok: "slots_ok d \<Longrightarrow> slots_ok (failed_slot i now d)"
  unfolding failed_slot_def by (rule slots_ok_put) (simp_all add: back_off_def Let_def)

lemma failed_slot_fields [simp]:
  "dm_store (failed_slot i now d) = dm_store d" "dm_heap (failed_slot i now d) = dm_heap d"
  "worker_in j (failed_slot i now d) = worker_in j d"
  by (simp_all add: failed_slot_def back_off_def Let_def)

lemma stopWorker_store [simp]: "dm_store (stopWorker i reason d) = dm_store d"
  by (simp add: stopWorker_def Let_def split: option.split)

lemma stopWorker_slot [simp]: "worker_in j (stopWorker i reason d) = (if j = i then None else worker_in j d)"
  by (simp add: stopWorker_def Let_def empty_slot_def split: option.split)

lemma stopWorker_length [simp]: "length (dm_heap (stopWorker i reason d)) = length (dm_heap d)"
  by (simp add: stopWorker_def Let_def split: option.split)

lemma stopWorker_nth:
  "q < length (dm_heap d) \<Longrightarrow> dm_heap (stopWorker i reason d) ! q =
     (if worker_in i d = Some q then stopped_by reason (dm_heap d ! q) else dm_heap d ! q)"
  by (auto simp: stopWorker_def Let_def stop_slot_nth slot_of_def empty_slot_def split: option.split)

lemma stopWorker_ok:
  assumes ok: "slots_ok d"
  shows "slots_ok (stopWorker i reason d)"
proof (rule slots_okI)
  show "distinct (map fst (dm_workers (stopWorker i reason d)))"
    using ok by (simp add: stopWorker_def Let_def slots_ok_def distinct_delete split: option.split)
next
  fix j p assume held: "worker_in j (stopWorker i reason d) = Some p"
  have j: "j \<noteq> i" "worker_in j d = Some p" using held by (auto split: if_splits)
  note old = slots_okD [OF ok j(2)]
  have "worker_in i d \<noteq> Some p" using slots_okD(2) [OF ok, of i p] old(2) j(1) by blast
  then show "p < length (dm_heap (stopWorker i reason d)) \<and> rn_id (dm_heap (stopWorker i reason d) ! p) = j \<and>
      rn_serving (dm_heap (stopWorker i reason d) ! p) \<and> rn_alive (dm_heap (stopWorker i reason d) ! p) \<and>
      rn_requestedStop (dm_heap (stopWorker i reason d) ! p) = ''''"
    using old by (simp add: stopWorker_nth)
next
  fix p assume p: "p < length (dm_heap (stopWorker i reason d))" "rn_serving (dm_heap (stopWorker i reason d) ! p)"
    "rn_alive (dm_heap (stopWorker i reason d) ! p)"
  have not: "worker_in i d \<noteq> Some p" using p by (auto simp: stopWorker_nth stopped_by_def)
  then have same: "dm_heap (stopWorker i reason d) ! p = dm_heap d ! p" using p by (simp add: stopWorker_nth)
  then have "worker_in (rn_id (dm_heap d ! p)) d = Some p" using ok p by (simp add: slots_ok_def)
  then show "worker_in (rn_id (dm_heap (stopWorker i reason d) ! p)) (stopWorker i reason d) = Some p"
    using not same by auto
qed

text \<open>Dropping the slots of a set of deployments, all of them at shutdown.\<close>

lemma drop_ok:
  assumes ok: "slots_ok d"
    and d': "d' = stop_slots reason (filter (\<lambda>(i, slot). \<not> Q i) (dm_workers d))
        (d\<lparr>dm_workers := filter (\<lambda>(i, slot). Q i) (dm_workers d)\<rparr>)"
  shows "slots_ok d'" and "worker_in i d' = (if Q i then worker_in i d else None)"
    and "length (dm_heap d') = length (dm_heap d)" and "dm_store d' = dm_store d"
    and "p < length (dm_heap d) \<Longrightarrow> rn_alive (dm_heap d' ! p) \<Longrightarrow> dm_heap d' ! p = dm_heap d ! p"
proof -
  let ?L = "filter (\<lambda>(i, slot). \<not> Q i) (dm_workers d)"
  note st = stop_slots [of reason ?L "d\<lparr>dm_workers := filter (\<lambda>(i, slot). Q i) (dm_workers d)\<rparr>", folded d']
  have workers: "dm_workers d' = filter (\<lambda>(i, slot). Q i) (dm_workers d)" using st by simp
  have slots: "worker_in j d' = (if Q j then worker_in j d else None)" for j
    by (simp add: slot_of_def workers map_of_filter_key empty_slot_def)
  have len: "length (dm_heap d') = length (dm_heap d)" using st by simp
  have dist: "distinct (map fst (dm_workers d))" using ok by (simp add: slots_ok_def)
  have stopped: "q \<in> workers_of ?L \<longleftrightarrow> (\<exists>j. \<not> Q j \<and> worker_in j d = Some q)" for q
  proof
    assume "q \<in> workers_of ?L"
    then obtain j slot where j: "(j, slot) \<in> set (dm_workers d)" "\<not> Q j" "ws_worker slot = Some q"
      by (auto simp: workers_of_def)
    then have "map_of (dm_workers d) j = Some slot" using dist by simp
    then show "\<exists>j. \<not> Q j \<and> worker_in j d = Some q" using j by (intro exI [of _ j]) (simp add: slot_of_def)
  next
    assume "\<exists>j. \<not> Q j \<and> worker_in j d = Some q"
    then obtain j where j: "\<not> Q j" "worker_in j d = Some q" by blast
    then obtain slot where "map_of (dm_workers d) j = Some slot" "ws_worker slot = Some q"
      by (auto simp: slot_of_def empty_slot_def split: option.splits)
    then show "q \<in> workers_of ?L" using j(1) by (force simp: workers_of_def dest: map_of_SomeD)
  qed
  have heap: "dm_heap d' ! q = (if q \<in> workers_of ?L then stopped_by reason (dm_heap d ! q) else dm_heap d ! q)"
    if "q < length (dm_heap d)" for q
    using st that by simp
  show "slots_ok d'"
  proof (rule slots_okI)
    show "distinct (map fst (dm_workers d'))" using dist by (simp add: workers distinct_map_filter)
  next
    fix j q assume held: "worker_in j d' = Some q"
    have j: "Q j" "worker_in j d = Some q" using held by (auto simp: slots split: if_splits)
    note old = slots_okD [OF ok j(2)]
    have "q \<notin> workers_of ?L" using slots_okD(2) [OF ok] old(2) j(1) by (auto simp: stopped)
    then show "q < length (dm_heap d') \<and> rn_id (dm_heap d' ! q) = j \<and> rn_serving (dm_heap d' ! q) \<and>
        rn_alive (dm_heap d' ! q) \<and> rn_requestedStop (dm_heap d' ! q) = ''''"
      using old by (simp add: heap len)
  next
    fix q assume q: "q < length (dm_heap d')" "rn_serving (dm_heap d' ! q)" "rn_alive (dm_heap d' ! q)"
    have not: "q \<notin> workers_of ?L" using q by (auto simp: heap len stopped_by_def)
    then have same: "dm_heap d' ! q = dm_heap d ! q" using q by (simp add: heap len)
    then have "worker_in (rn_id (dm_heap d ! q)) d = Some q" using ok q by (simp add: slots_ok_def len)
    then show "worker_in (rn_id (dm_heap d' ! q)) d' = Some q" using not stopped by (auto simp: same slots)
  qed
  show "worker_in i d' = (if Q i then worker_in i d else None)" by (rule slots)
  show "length (dm_heap d') = length (dm_heap d)" by (rule len)
  show "dm_store d' = dm_store d" using st by simp
  show "dm_heap d' ! p = dm_heap d ! p" if "p < length (dm_heap d)" "rn_alive (dm_heap d' ! p)"
    using that by (auto simp: heap stopped_by_def split: if_splits)
qed

lemmas drop_inactive_ok = drop_ok [where Q = "\<lambda>i. i \<in> set active" and reason = "''deployment inactive''" for active,
    folded drop_inactive_def]

lemma stopWorkers_ok: "slots_ok d \<Longrightarrow> slots_ok (stopWorkers d)"
  by (rule drop_ok(1) [where Q = "\<lambda>i. False" and reason = "''daemon shutdown''"]) (simp_all add: stopWorkers_def)

section \<open>Launching\<close>

text \<open>A store operation of the daemon is a call of the history.\<close>

lemma startWorker_is: "startWorker C persisted dep g secrets written replies = Inr w \<Longrightarrow> wk_deployment w = dep \<and> wk_generation w = g"
  by (auto simp: startWorker_def Let_def split: option.splits sum.splits prod.splits if_splits)

lemma start_process_is: "start_process M V dep g secretMap = Inr w \<Longrightarrow> wk_deployment w = dep \<and> wk_generation w = g"
  by (auto simp: start_process_def startWorker_is split: option.splits)

definition activate_call :: "visit_env \<Rightarrow> RuntimeDeployment \<Rightarrow> string \<Rightarrow> store_call" where
  "activate_call V dep fingerprint =
     CallActivate (activation_of dep fingerprint) (vi_token V) (vi_checkedAt V) (vi_activatedAt V)"

definition ready_call :: "visit_env \<Rightarrow> string \<Rightarrow> int \<Rightarrow> store_call" where
  "ready_call V i n = CallReady i n (vi_readyAt V)"

definition failed_calls :: "daemon_env \<Rightarrow> visit_env \<Rightarrow> string \<Rightarrow> string \<Rightarrow> int \<Rightarrow> Value list \<Rightarrow> go_error \<Rightarrow> store_call list" where
  "failed_calls M V reason i n values e =
     (let safeError = Redact values (dn_error_text M e) in
      vi_meanwhile V 4 @ CallGenerationFailure i n safeError (vi_failureID V) (vi_failedAt V) #
      vi_meanwhile V 5 @ [CallStopped i n reason safeError (vi_stoppedAt V)])"

lemma launch_failed_eq:
  "\<exists>es. launch_failed E M V reason i n values e d =
     (d\<lparr>dm_store := run_calls E (failed_calls M V reason i n values e) (dm_store d)\<rparr>, es) \<and> es \<noteq> []"
  by (simp add: launch_failed_def on_store_def failed_calls_def meanwhile_def run_calls_append exec_call_def Let_def
      split: prod.split)

lemma launch_cases:
  assumes "launch E M V dep secretMap fingerprint values d = (d', es)"
  obtains
    (refused) e where "es = [e]"
      "ActivateGeneration E (activation_of dep fingerprint) (vi_token V) (vi_checkedAt V) (vi_activatedAt V)
         (run_calls E (vi_meanwhile V 2) (dm_store d)) = Inl e"
      "d' = d\<lparr>dm_store := run_calls E (vi_meanwhile V 2 @ [activate_call V dep fingerprint]) (dm_store d)\<rparr>"
  | (failed) s1 g ready reason e where "es \<noteq> []"
      "ActivateGeneration E (activation_of dep fingerprint) (vi_token V) (vi_checkedAt V) (vi_activatedAt V)
         (run_calls E (vi_meanwhile V 2) (dm_store d)) = Inr (s1, g)"
      "ready = [] \<or> ready = vi_meanwhile V 3 @ [ready_call V (d_id (rd_Deployment dep)) (ag_Generation g)]"
      "d' = d\<lparr>dm_store := run_calls E (vi_meanwhile V 2 @ activate_call V dep fingerprint # ready @
         failed_calls M V reason (d_id (rd_Deployment dep)) (ag_Generation g) values e) (dm_store d)\<rparr>"
  | (started) s1 g w where "es = []"
      "ActivateGeneration E (activation_of dep fingerprint) (vi_token V) (vi_checkedAt V) (vi_activatedAt V)
         (run_calls E (vi_meanwhile V 2) (dm_store d)) = Inr (s1, g)"
      "wk_deployment w = dep" "wk_generation w = g"
      "d' = install (d_id (rd_Deployment dep)) fingerprint values w (vi_startedAt V)
         (d\<lparr>dm_store := run_calls E (vi_meanwhile V 2 @ activate_call V dep fingerprint # vi_meanwhile V 3 @
           [ready_call V (d_id (rd_Deployment dep)) (ag_Generation g)]) (dm_store d)\<rparr>)"
proof -
  let ?a = "ActivateGeneration E (activation_of dep fingerprint) (vi_token V) (vi_checkedAt V) (vi_activatedAt V)"
  let ?s = "run_calls E (vi_meanwhile V 2) (dm_store d)"
  let ?i = "d_id (rd_Deployment dep)"
  show thesis
  proof (cases "?a ?s")
    case (Inl e)
    show thesis
      by (rule refused [of e])
        (use assms Inl in \<open>auto simp: launch_def Let_def on_store_def meanwhile_def run_tx_def run_calls_append
          activate_call_def exec_call_def\<close>)
  next
    case (Inr x)
    obtain s1 g where x: "x = (s1, g)" by (cases x)
    let ?n = "ag_Generation g"
    have s1: "exec_call E (activate_call V dep fingerprint) ?s = s1"
      using Inr x by (simp add: activate_call_def exec_call_def run_tx_def)
    let ?d1 = "d\<lparr>dm_store := s1\<rparr>"
    have step1: "on_store ?a (meanwhile E (vi_meanwhile V 2) d) = (?d1, Inr g)"
      using Inr x by (simp add: on_store_def meanwhile_def run_tx_def)
    show thesis
    proof (cases "start_process M V dep g secretMap")
      case (Inl e)
      obtain es' where "launch_failed E M V ''launch failed'' ?i ?n values e ?d1 =
          (?d1\<lparr>dm_store := run_calls E (failed_calls M V ''launch failed'' ?i ?n values e) s1\<rparr>, es')" "es' \<noteq> []"
        using launch_failed_eq [of E M V "''launch failed''" ?i ?n "values" e ?d1] by auto
      then show thesis
        using assms Inl Inr x by (intro failed [of s1 g "[]" "''launch failed''" e])
          (simp_all add: launch_def Let_def step1 run_calls_append s1)
    next
      case up: (Inr w)
      let ?s2 = "exec_call E (ready_call V ?i ?n) (run_calls E (vi_meanwhile V 3) s1)"
      have ready: "on_store (MarkGenerationReady ?i ?n (vi_readyAt V)) (meanwhile E (vi_meanwhile V 3) ?d1) =
          (d\<lparr>dm_store := ?s2\<rparr>, snd (run_tx (MarkGenerationReady ?i ?n (vi_readyAt V)) (run_calls E (vi_meanwhile V 3) s1)))"
        by (simp add: on_store_def meanwhile_def ready_call_def exec_call_def split: prod.split)
      show thesis
      proof (cases "snd (run_tx (MarkGenerationReady ?i ?n (vi_readyAt V)) (run_calls E (vi_meanwhile V 3) s1))")
        case (Inl e)
        let ?d2 = "d\<lparr>dm_store := ?s2\<rparr>"
        obtain es' where "launch_failed E M V ''readiness persistence failed'' ?i ?n values e ?d2 =
            (?d2\<lparr>dm_store := run_calls E (failed_calls M V ''readiness persistence failed'' ?i ?n values e) ?s2\<rparr>, es')"
            "es' \<noteq> []"
          using launch_failed_eq [of E M V "''readiness persistence failed''" ?i ?n "values" e ?d2] by auto
        then show thesis
          using assms up Inl Inr x
          by (intro failed [of s1 g "vi_meanwhile V 3 @ [ready_call V ?i ?n]" "''readiness persistence failed''" e])
            (simp_all add: launch_def Let_def step1 ready run_calls_append s1)
      next
        case ok: (Inr u)
        show thesis
          using assms up ok Inr x start_process_is [OF up]
          by (intro started [of s1 g w]) (simp_all add: launch_def Let_def step1 ready run_calls_append s1)
      qed
    qed
  qed
qed

lemma install_fields [simp]:
  "dm_store (install i fp values w start d) = dm_store d"
  "length (dm_heap (install i fp values w start d)) = Suc (length (dm_heap d))"
  "worker_in j (install i fp values w start d) = (if j = i then Some (length (dm_heap d)) else worker_in j d)"
  "p < length (dm_heap d) \<Longrightarrow> dm_heap (install i fp values w start d) ! p = dm_heap d ! p"
  "dm_heap (install i fp values w start d) ! length (dm_heap d) =
     \<lparr>rn_worker = w, rn_fingerprint = fp, rn_secrets = values, rn_requestedStop = '''', rn_alive = True, rn_serving = True\<rparr>"
  by (simp_all add: install_def nth_append)

lemma install_ok:
  assumes ok: "slots_ok d" and free: "worker_in i d = None" and w: "d_id (wk_row w) = i"
  shows "slots_ok (install i fp values w start d)"
proof (rule slots_okI)
  show "distinct (map fst (dm_workers (install i fp values w start d)))"
    using ok by (simp add: install_def put_slot_def slots_ok_def distinct_update)
next
  fix j p assume held: "worker_in j (install i fp values w start d) = Some p"
  show "p < length (dm_heap (install i fp values w start d)) \<and> rn_id (dm_heap (install i fp values w start d) ! p) = j \<and>
      rn_serving (dm_heap (install i fp values w start d) ! p) \<and> rn_alive (dm_heap (install i fp values w start d) ! p) \<and>
      rn_requestedStop (dm_heap (install i fp values w start d) ! p) = ''''"
  proof (cases "j = i")
    case True
    then have "p = length (dm_heap d)" using held by simp
    then show ?thesis using True w by simp
  next
    case False
    then have "worker_in j d = Some p" using held by simp
    from slots_okD [OF ok this] show ?thesis by simp
  qed
next
  fix p assume p: "p < length (dm_heap (install i fp values w start d))" "rn_serving (dm_heap (install i fp values w start d) ! p)"
    "rn_alive (dm_heap (install i fp values w start d) ! p)"
  show "worker_in (rn_id (dm_heap (install i fp values w start d) ! p)) (install i fp values w start d) = Some p"
  proof (cases "p = length (dm_heap d)")
    case False
    then have old: "p < length (dm_heap d)" using p(1) by simp
    then have "worker_in (rn_id (dm_heap d ! p)) d = Some p" using ok p by (simp add: slots_ok_def)
    moreover have "rn_id (dm_heap d ! p) \<noteq> i" using calculation free by auto
    ultimately show ?thesis using old by simp
  qed (simp add: w)
qed

section \<open>Visits\<close>

text \<open>
  The snapshot is looked up with a selector, which also matches names: this is the case in which
  it finds the deployment itself, that is no deployment is named like the id of a purged one.
\<close>

definition own_snapshot :: "env \<Rightarrow> visit_env \<Rightarrow> string \<Rightarrow> store \<Rightarrow> bool" where
  "own_snapshot E V i s \<longleftrightarrow>
     (case GetRuntimeDeployment i (run_calls E (vi_meanwhile V 1) s) of Inl e \<Rightarrow> True | Inr snapshot \<Rightarrow> d_id (rd_Deployment snapshot) = i)"

text \<open>
  The worker at \<open>p\<close> runs what the row asks for, with the secrets found in this visit: it was kept
  with the row's generation, or launched since the heap had \<open>len\<close> workers.
\<close>

definition matches :: "daemon_env \<Rightarrow> visit_env \<Rightarrow> RuntimeMetadata \<Rightarrow> nat \<Rightarrow> nat \<Rightarrow> running \<Rightarrow> bool" where
  "matches M V dep len p r \<longleftrightarrow>
     (case resolveDeploymentSecrets M (vi_files V) (rm_SourceDir dep) (rm_Describe dep) of
        Inl e \<Rightarrow> False
      | Inr (secretMap, fingerprint, values) \<Rightarrow> rn_fingerprint r = fingerprint) \<and>
     d_artifact (wk_row (rn_worker r)) = rm_ArtifactID dep \<and>
     d_config_revision (wk_row (rn_worker r)) = rm_ConfigRevision dep \<and>
     (rn_generation r = rm_ActiveGeneration dep \<or> len \<le> p)"

text \<open>What a visit of one deployment does to the workers of the others: nothing.\<close>

definition others_kept :: "string \<Rightarrow> daemon \<Rightarrow> daemon \<Rightarrow> bool" where
  "others_kept i d d' \<longleftrightarrow> length (dm_heap d) \<le> length (dm_heap d') \<and>
     (\<forall>j. j \<noteq> i \<longrightarrow> worker_in j d' = worker_in j d) \<and>
     (\<forall>p<length (dm_heap d). rn_id (dm_heap d' ! p) = rn_id (dm_heap d ! p) \<and>
        (worker_in i d \<noteq> Some p \<longrightarrow> dm_heap d' ! p = dm_heap d ! p))"

lemma others_kept_refl: "dm_heap d' = dm_heap d \<Longrightarrow> (\<And>j. worker_in j d' = worker_in j d) \<Longrightarrow> others_kept i d d'"
  by (simp add: others_kept_def)

lemma others_kept_trans:
  assumes "others_kept i d d1" "others_kept i d1 d2" "worker_in i d1 = None \<or> worker_in i d1 = worker_in i d"
  shows "others_kept i d d2"
proof -
  have "dm_heap d2 ! p = dm_heap d ! p" if "p < length (dm_heap d)" "worker_in i d \<noteq> Some p" for p
    using assms that by (auto simp: others_kept_def)
  then show ?thesis using assms(1,2) by (simp add: others_kept_def)
qed

lemma visit_failed_keeps:
  assumes "visit_failed V i now es d = (d', v)" "slots_ok d"
  shows "slots_ok d' \<and> worker_in j d' = worker_in j d \<and> dm_heap d' = dm_heap d \<and> dm_store d' = dm_store d"
  using assms by (auto simp: visit_failed_def failed_slot_ok split: option.splits)

lemma visit_launch_keeps:
  assumes ok: "slots_ok d" and free: "worker_in (rm_ID dep) d = None"
    and own: "case GetRuntimeDeployment (rm_ID dep) (dm_store d) of Inl e \<Rightarrow> True | Inr snapshot \<Rightarrow> d_id (rd_Deployment snapshot) = rm_ID dep"
    and resolved: "resolveDeploymentSecrets M (vi_files V) (rm_SourceDir dep) (rm_Describe dep) = Inr (secretMap, fingerprint, values)"
    and visit: "visit_launch E M V now dep (secretMap, fingerprint, values) d = (d', v)"
  shows "slots_ok d' \<and> others_kept (rm_ID dep) d d' \<and>
    (worker_in (rm_ID dep) d' = None \<or>
     worker_in (rm_ID dep) d' = Some (length (dm_heap d)) \<and>
       matches M V dep (length (dm_heap d)) (length (dm_heap d)) (dm_heap d' ! length (dm_heap d)))"
proof (cases "GetRuntimeDeployment (rm_ID dep) (dm_store d)")
  case (Inl e)
  then have "visit_failed V (rm_ID dep) now [e] d = (d', v)" using visit by (simp add: visit_launch_def)
  from visit_failed_keeps [OF this ok] show ?thesis using free by (simp add: others_kept_refl)
next
  case (Inr snapshot)
  have i: "d_id (rd_Deployment snapshot) = rm_ID dep" using own Inr by simp
  show ?thesis
  proof (cases "agrees snapshot dep")
    case False
    then have "d' = d" using visit Inr by (simp add: visit_launch_def)
    then show ?thesis using ok free by (simp add: others_kept_refl)
  next
    case agree: True
    obtain d1 es where launch: "launch E M V snapshot secretMap fingerprint values d = (d1, es)" by fastforce
    have after: "visit_failed V (rm_ID dep) now es d1 = (d', v) \<and> es \<noteq> [] \<or> d' = d1 \<and> es = []"
      using visit Inr agree launch by (auto simp: visit_launch_def split: list.splits)
    have quiet: ?thesis if "d1 = d\<lparr>dm_store := s\<rparr>" "es \<noteq> []" for s
    proof -
      have "visit_failed V (rm_ID dep) now es d1 = (d', v)" using after that by blast
      from visit_failed_keeps [OF this] show ?thesis using ok free that(1) by (simp add: others_kept_refl)
    qed
    from launch show ?thesis
    proof (cases rule: launch_cases)
      case (refused e)
      then show ?thesis using quiet by blast
    next
      case (failed s1 g ready reason e)
      then show ?thesis using quiet by blast
    next
      case (started s1 g w)
      have d': "d' = d1" using after started(1) by simp
      have "slots_ok d'" unfolding d' started(5) i
        by (rule install_ok) (use ok free started(3) i in simp_all)
      moreover have "others_kept (rm_ID dep) d d'"
        by (simp add: d' started(5) i others_kept_def)
      moreover have "worker_in (rm_ID dep) d' = Some (length (dm_heap d))"
        by (simp add: d' started(5) i)
      moreover have "matches M V dep (length (dm_heap d)) (length (dm_heap d)) (dm_heap d' ! length (dm_heap d))"
      proof -
        have "dm_heap d' ! length (dm_heap d) =
            \<lparr>rn_worker = w, rn_fingerprint = fingerprint, rn_secrets = values, rn_requestedStop = '''', rn_alive = True,
             rn_serving = True\<rparr>"
          by (simp add: d' started(5) install_def nth_append)
        then show ?thesis using agree started(3) resolved by (simp add: matches_def agrees_def Let_def)
      qed
      ultimately show ?thesis by blast
    qed
  qed
qed

lemma stopWorker_others: "slots_ok d \<Longrightarrow> others_kept i d (stopWorker i reason d)"
  by (simp add: others_kept_def stopWorker_nth stopped_by_def)

lemma visit_keeps:
  assumes ok: "slots_ok d" and own: "own_snapshot E V (rm_ID dep) (dm_store d)"
    and visit: "visit E M V now dep d = (d', v)"
  shows "slots_ok d' \<and> others_kept (rm_ID dep) d d' \<and>
    (\<forall>p. worker_in (rm_ID dep) d' = Some p \<longrightarrow> matches M V dep (length (dm_heap d)) p (dm_heap d' ! p))"
proof -
  let ?i = "rm_ID dep"
  consider (wait) "worker_in ?i d = None" "d' = d"
    | (bad) e where "secrets_failed E M V now ?i (worker_in ?i d \<noteq> None) e d = (d', v)"
    | (go) secretMap fingerprint "values" where
        "resolveDeploymentSecrets M (vi_files V) (rm_SourceDir dep) (rm_Describe dep) = Inr (secretMap, fingerprint, values)"
        "(case worker_in ?i d of
             None \<Rightarrow> visit_launch E M V now dep (secretMap, fingerprint, values) (meanwhile E (vi_meanwhile V 1) d)
           | Some p \<Rightarrow>
               if current fingerprint dep (dm_heap d ! p) then (d, Went [])
               else visit_launch E M V now dep (secretMap, fingerprint, values)
                 (meanwhile E (vi_meanwhile V 1) (stopWorker ?i ''deployment snapshot changed'' d))) = (d', v)"
    using visit by (auto simp: visit_def Let_def split: if_splits sum.splits)
  then show ?thesis
  proof cases
    case wait
    then show ?thesis using ok by (simp add: others_kept_refl)
  next
    case bad
    let ?d1 = "if worker_in ?i d \<noteq> None then stopWorker ?i ''secret resolution failed'' d else d"
    have d': "d' = failed_slot ?i now (fst (on_store (RecordDeploymentFailure E ?i (dn_error_text M e) (vi_failureID V) (vi_failedAt V))
        (meanwhile E (vi_meanwhile V 1) ?d1)))"
      using bad by (auto simp: secrets_failed_def Let_def case_prod_beta split del: if_split)
    have "slots_ok d'" unfolding d' by (rule failed_slot_ok) (simp add: ok stopWorker_ok)
    moreover have "others_kept ?i d d'"
      using stopWorker_others [OF ok, of ?i] by (simp add: d' others_kept_def)
    moreover have "worker_in ?i d' = None" by (simp add: d')
    ultimately show ?thesis by simp
  next
    case go
    show ?thesis
    proof (cases "worker_in ?i d")
      case None
      from visit_launch_keeps [OF _ _ _ go(1), of "meanwhile E (vi_meanwhile V 1) d" E now d' v] show ?thesis
        using ok own go(2) None by (auto simp: own_snapshot_def others_kept_def)
    next
      case (Some p)
      show ?thesis
      proof (cases "current fingerprint dep (dm_heap d ! p)")
        case True
        then have "d' = d" using go(2) Some by simp
        then show ?thesis using True ok Some go(1) by (simp add: others_kept_refl matches_def current_def)
      next
        case False
        let ?d1 = "stopWorker ?i ''deployment snapshot changed'' d"
        have launch: "visit_launch E M V now dep (secretMap, fingerprint, values) (meanwhile E (vi_meanwhile V 1) ?d1) = (d', v)"
          using go(2) Some False by simp
        have after: "slots_ok d' \<and> others_kept ?i (meanwhile E (vi_meanwhile V 1) ?d1) d' \<and>
            (worker_in ?i d' = None \<or> worker_in ?i d' = Some (length (dm_heap d)) \<and>
             matches M V dep (length (dm_heap d)) (length (dm_heap d)) (dm_heap d' ! length (dm_heap d)))"
          using visit_launch_keeps [OF _ _ _ go(1) launch] ok own by (simp add: own_snapshot_def stopWorker_ok)
        then have "others_kept ?i ?d1 d'" by (simp add: others_kept_def)
        then have "others_kept ?i d d'"
          by (rule others_kept_trans [OF stopWorker_others [OF ok]]) simp
        then show ?thesis using after by auto
      qed
    qed
  qed
qed

section \<open>A pass\<close>

fun own_snapshots :: "env \<Rightarrow> daemon_env \<Rightarrow> (string \<Rightarrow> visit_env) \<Rightarrow> int \<Rightarrow> RuntimeMetadata list \<Rightarrow> daemon \<Rightarrow> bool" where
  "own_snapshots E M V now [] d \<longleftrightarrow> True"
| "own_snapshots E M V now (dep # deps) d \<longleftrightarrow>
     (let d0 = meanwhile E (vi_meanwhile (V (rm_ID dep)) 0) d in
      own_snapshot E (V (rm_ID dep)) (rm_ID dep) (dm_store d0) \<and>
      own_snapshots E M V now deps (fst (visit E M (V (rm_ID dep)) now dep d0)))"

lemma matches_earlier: "matches M V dep len p r \<Longrightarrow> len' \<le> len \<Longrightarrow> matches M V dep len' p r"
  by (auto simp: matches_def)

lemma visits_keep:
  assumes "slots_ok d" "own_snapshots E M V now deps d" "distinct (map rm_ID deps)"
    and "visits E M V now deps d = (d', v)"
  shows "slots_ok d' \<and> length (dm_heap d) \<le> length (dm_heap d') \<and>
    (\<forall>j. j \<notin> rm_ID ` set deps \<longrightarrow> worker_in j d' = worker_in j d) \<and>
    (\<forall>j p. j \<notin> rm_ID ` set deps \<longrightarrow> worker_in j d = Some p \<longrightarrow> dm_heap d' ! p = dm_heap d ! p) \<and>
    (\<forall>es. v = Went es \<longrightarrow> (\<forall>dep\<in>set deps. \<forall>p. worker_in (rm_ID dep) d' = Some p \<longrightarrow>
       matches M (V (rm_ID dep)) dep (length (dm_heap d)) p (dm_heap d' ! p)))"
  using assms
proof (induction deps arbitrary: d d' v)
  case Nil
  then show ?case by simp
next
  case (Cons dep deps)
  let ?V = "V (rm_ID dep)" and ?i = "rm_ID dep"
  let ?d0 = "meanwhile E (vi_meanwhile ?V 0) d"
  obtain d1 v1 where visit: "visit E M ?V now dep ?d0 = (d1, v1)" by (cases "visit E M ?V now dep ?d0")
  have own: "own_snapshot E ?V ?i (dm_store ?d0)" "own_snapshots E M V now deps d1"
    using Cons.prems(2) visit by (simp_all add: Let_def)
  have ok0: "slots_ok ?d0" using Cons.prems(1) by simp
  have one: "slots_ok d1" "others_kept ?i ?d0 d1"
      "worker_in ?i d1 = Some p \<Longrightarrow> matches M ?V dep (length (dm_heap d)) p (dm_heap d1 ! p)" for p
    using visit_keeps [OF ok0 own(1) visit] by simp_all
  have kept: "worker_in j d1 = worker_in j d" if "j \<noteq> ?i" for j
    using one(2) that by (simp add: others_kept_def)
  have kept_heap: "dm_heap d1 ! p = dm_heap d ! p" if "j \<noteq> ?i" "worker_in j d = Some p" for j p
  proof -
    note old = slots_okD [OF Cons.prems(1) that(2)]
    have "worker_in ?i d \<noteq> Some p" using slots_okD(2) [OF Cons.prems(1), of ?i p] old(2) that(1) by blast
    then show ?thesis using one(2) old(1) by (simp add: others_kept_def)
  qed
  have len: "length (dm_heap d) \<le> length (dm_heap d1)" using one(2) by (simp add: others_kept_def)
  show ?case
  proof (cases v1)
    case (Aborted e)
    then have "d' = d1" "v = Aborted e" using Cons.prems(4) visit by simp_all
    then show ?thesis using one(1) kept kept_heap len by auto
  next
    case (Went es1)
    obtain d2 v2 where rest: "visits E M V now deps d1 = (d2, v2)" by (cases "visits E M V now deps d1")
    have d': "d' = d2" using Cons.prems(4) visit Went rest by (cases v2) simp_all
    have dist: "distinct (map rm_ID deps)" "?i \<notin> rm_ID ` set deps" using Cons.prems(3) by simp_all
    note IH = Cons.IH [OF one(1) own(2) dist(1) rest]
    have first: "matches M ?V dep (length (dm_heap d)) p (dm_heap d2 ! p)" if "worker_in ?i d2 = Some p" for p
      using IH one(3) [of p] that dist(2) by auto
    show ?thesis
    proof (intro conjI allI ballI impI)
      show "slots_ok d'" using IH by (simp add: d')
      show "length (dm_heap d) \<le> length (dm_heap d')" using IH len by (simp add: d')
      fix j p
      assume j: "j \<notin> rm_ID ` set (dep # deps)"
      show "worker_in j d' = worker_in j d" using IH kept j by (simp add: d')
      assume p: "worker_in j d = Some p"
      have j': "j \<noteq> ?i" "j \<notin> rm_ID ` set deps" using j by simp_all
      have "dm_heap d2 ! p = dm_heap d1 ! p"
        by (rule IH [THEN conjunct2, THEN conjunct2, THEN conjunct2, THEN conjunct1, rule_format, OF j'(2)])
          (simp add: kept [OF j'(1)] p)
      then show "dm_heap d' ! p = dm_heap d ! p" using kept_heap [OF j'(1) p] by (simp add: d')
    next
      fix es x p
      assume v: "v = Went es" and x: "x \<in> set (dep # deps)" and p: "worker_in (rm_ID x) d' = Some p"
      have v2: "\<exists>es. v2 = Went es" using Cons.prems(4) visit Went rest v by (cases v2) auto
      show "matches M (V (rm_ID x)) x (length (dm_heap d)) p (dm_heap d' ! p)"
      proof (cases "x = dep")
        case True
        then show ?thesis using first p d' by simp
      next
        case False
        then have "matches M (V (rm_ID x)) x (length (dm_heap d1)) p (dm_heap d2 ! p)"
          using IH v2 x p d' by auto
        then show ?thesis unfolding d' using len by (rule matches_earlier)
      qed
    qed
  qed
qed

section \<open>The end of a worker\<close>

lemma record_exit_fields [simp]:
  "dm_workers (record_exit E M X w r d) = dm_workers d" "dm_heap (record_exit E M X w r d) = dm_heap d"
  "slot_of i (record_exit E M X w r d) = slot_of i d"
  by (simp_all add: record_exit_def Let_def)

lemma worker_kill_fields [simp]:
  "dm_workers (worker_kill p d) = dm_workers d" "length (dm_heap (worker_kill p d)) = length (dm_heap d)"
  "slot_of i (worker_kill p d) = slot_of i d" "dm_store (worker_kill p d) = dm_store d"
  by (simp_all add: worker_kill_def)

lemma exit_slot_worker [simp]: "ws_worker (exit_slot M X r slot) = None"
  by (simp add: exit_slot_def back_off_def Let_def)

lemma serve_end_fields:
  assumes "p < length (dm_heap d)"
  shows "length (dm_heap (serve_end E M X p r d)) = length (dm_heap d)"
    and "worker_in i (serve_end E M X p r d) = (if i = rn_id (dm_heap d ! p) \<and> worker_in i d = Some p then None else worker_in i d)"
    and "q < length (dm_heap d) \<Longrightarrow> q \<noteq> p \<Longrightarrow> dm_heap (serve_end E M X p r d) ! q = dm_heap d ! q"
    and "\<not> rn_serving (dm_heap (serve_end E M X p r d) ! p)"
    and "map fst (dm_workers (serve_end E M X p r d)) =
      map fst (dm_workers (if worker_in (rn_id (dm_heap d ! p)) d = Some p
        then put_slot (rn_id (dm_heap d ! p)) (exit_slot M X r (slot_of (rn_id (dm_heap d ! p)) d)) d else d))"
  using assms
  by (simp_all add: serve_end_def Let_def at_heap_nth) (simp_all add: worker_kill_def at_heap_nth put_slot_def)

lemma serve_end_ok:
  assumes ok: "slots_ok d" and p: "p < length (dm_heap d)"
  shows "slots_ok (serve_end E M X p r d)"
proof (rule slots_okI)
  note fields = serve_end_fields [OF p, where E = E and M = M and X = X and r = r]
  show "distinct (map fst (dm_workers (serve_end E M X p r d)))"
    unfolding fields(5) using slots_ok_distinct [OF ok] distinct_put_slot [OF slots_ok_distinct [OF ok]] by simp
  fix i q assume held: "worker_in i (serve_end E M X p r d) = Some q"
  have i: "worker_in i d = Some q" "q = p \<longrightarrow> i \<noteq> rn_id (dm_heap d ! p)"
    using held by (auto simp: fields(2) split: if_splits)
  note old = slots_okD [OF ok i(1)]
  have "q \<noteq> p" using i(2) old(2) by auto
  then show "q < length (dm_heap (serve_end E M X p r d)) \<and> rn_id (dm_heap (serve_end E M X p r d) ! q) = i \<and>
      rn_serving (dm_heap (serve_end E M X p r d) ! q) \<and> rn_alive (dm_heap (serve_end E M X p r d) ! q) \<and>
      rn_requestedStop (dm_heap (serve_end E M X p r d) ! q) = ''''"
    using old by (simp add: fields(1,3))
next
  note fields = serve_end_fields [OF p, where E = E and M = M and X = X and r = r]
  fix q assume q: "q < length (dm_heap (serve_end E M X p r d))" "rn_serving (dm_heap (serve_end E M X p r d) ! q)"
    "rn_alive (dm_heap (serve_end E M X p r d) ! q)"
  have "q \<noteq> p" using q(2) fields(4) by auto
  then have same: "dm_heap (serve_end E M X p r d) ! q = dm_heap d ! q" using q(1) by (simp add: fields(1,3))
  then have "worker_in (rn_id (dm_heap d ! q)) d = Some q" using ok q by (simp add: slots_ok_def fields(1))
  then show "worker_in (rn_id (dm_heap (serve_end E M X p r d) ! q)) (serve_end E M X p r d) = Some q"
    using same \<open>q \<noteq> p\<close> by (simp add: fields(2))
qed

section \<open>Everything that happens to the daemon\<close>

text \<open>
  A step is a visit with any row, also one of an old listing, the end of the goroutine of a worker,
  the removal of slots, the shutdown, or calls of the store by anyone: the clients, the workers being
  served, the outbox, the maintenance.
\<close>

inductive daemon_step :: "env \<Rightarrow> daemon_env \<Rightarrow> daemon \<Rightarrow> daemon \<Rightarrow> bool" for E M where
  Visit: "own_snapshot E V (rm_ID dep) (dm_store d) \<Longrightarrow> daemon_step E M d (fst (visit E M V now dep d))"
| Drop: "daemon_step E M d (drop_inactive active d)"
| Exit: "p < length (dm_heap d) \<Longrightarrow> rn_serving (dm_heap d ! p) \<Longrightarrow> daemon_step E M d (serve_end E M X p r d)"
| Calls: "daemon_step E M d (meanwhile E cs d)"
| Shutdown: "daemon_step E M d (stopWorkers d)"

text \<open>The daemon starts after the recovery of the generations, without workers.\<close>

definition fresh_daemon :: "env \<Rightarrow> store_call list \<Rightarrow> int \<Rightarrow> daemon" where
  "fresh_daemon E cs now = \<lparr>dm_store = run_calls E (cs @ [CallRecover now]) empty_store, dm_workers = [], dm_heap = []\<rparr>"

inductive daemon_reaches :: "env \<Rightarrow> daemon_env \<Rightarrow> daemon \<Rightarrow> bool" for E M where
  Start: "daemon_reaches E M (fresh_daemon E cs now)"
| Step: "daemon_reaches E M d \<Longrightarrow> daemon_step E M d d' \<Longrightarrow> daemon_reaches E M d'"

lemma fresh_ok: "slots_ok (fresh_daemon E cs now)"
  by (simp add: fresh_daemon_def slots_ok_def slot_of_def empty_slot_def)

lemma step_ok:
  assumes "daemon_step E M d d'" "slots_ok d"
  shows "slots_ok d'"
  using assms(1)
proof (cases rule: daemon_step.cases)
  case (Visit V dep now)
  obtain d1 v where "visit E M V now dep d = (d1, v)" by (cases "visit E M V now dep d")
  then show ?thesis using visit_keeps [OF assms(2) Visit(2)] Visit(1) by simp
qed (use assms(2) in \<open>simp_all add: drop_inactive_ok(1) serve_end_ok stopWorkers_ok\<close>)

lemma reaches_ok: "daemon_reaches E M d \<Longrightarrow> slots_ok d"
  by (induction rule: daemon_reaches.induct) (auto intro: fresh_ok step_ok)

section \<open>What a launch does to the fence\<close>

text \<open>The new generation is the only one of its deployment that is not retired.\<close>

lemma activated:
  assumes inv: "store_inv s" and op: "ActivateGeneration E a token checkedAt now s = Inr (s1, g)"
  shows "ag_WorkerToken g = token" and "ga_DeploymentID a \<noteq> ''''"
    and "\<And>h. h \<in> set (generations s) \<Longrightarrow> g_deployment h = ga_DeploymentID a \<Longrightarrow> g_generation h < ag_Generation g"
    and "\<exists>h. find_generation (ga_DeploymentID a) (ag_Generation g) s1 = Some h \<and> g_token_hash h = sha256 E token"
    and "\<And>h. h \<in> set (generations s1) \<Longrightarrow> g_deployment h = ga_DeploymentID a \<Longrightarrow> g_generation h < ag_Generation g \<Longrightarrow>
      g_status h = GenRetired"
    and "store_inv s1"
proof -
  let ?i = "ga_DeploymentID a" and ?n = "ag_Generation g"
  show inv1: "store_inv s1" by (rule ActivateGeneration_inv [OF inv op])
  obtain d where d: "d \<in> set (deployments s)" "d_id d = ?i" "activation_hit a (d_active d) d"
      and adv: "advanceGeneration E a token (d_active d) now s = Inr (s1, g)"
    using op by (auto simp: ActivateGeneration_def activation_hit_def split: if_splits option.splits dest!: find_SomeD)
  note res = advanceGeneration_Inr [OF adv]
  show "ag_WorkerToken g = token" using res by simp
  show "?i \<noteq> ''''" using op by (auto simp: ActivateGeneration_def split: if_splits)
  show smaller: "g_generation h < ?n" if "h \<in> set (generations s)" "g_deployment h = ?i" for h
    using res fold_max_int_ge [of 0 "map g_generation (filter (\<lambda>g. g_deployment g = ?i) (generations s))"] that
    by (auto simp: maxGeneration_def)
  have gens: "generations s1 = update_where (replaced a (d_active d)) (retire now ''generation replaced'') (generations s) @
      [new_generation E a token ?n now (update_where (replaced a (d_active d)) (retire now ''generation replaced'') (generations s))]"
    using res by (simp add: ensureDeploymentHealth_tables)
  have keys1: "keys_ok s1" "fence_ok s1" using inv1 by (simp_all add: store_inv_def)
  show "\<exists>h. find_generation ?i ?n s1 = Some h \<and> g_token_hash h = sha256 E token"
    unfolding find_generation_iff [OF keys1(1)] gens
    by (rule exI [of _ "new_generation E a token ?n now (update_where (replaced a (d_active d)) (retire now ''generation replaced'') (generations s))"])
      (simp add: new_generation_def)
  fix h assume h: "h \<in> set (generations s1)" "g_deployment h = ?i" "g_generation h < ?n"
  show "g_status h = GenRetired"
  proof (rule ccontr)
    assume "g_status h \<noteq> GenRetired"
    then have "g_status h = GenActive" by (cases "g_status h") simp_all
    then obtain d1 where d1: "d1 \<in> set (deployments s1)" "d_id d1 = ?i" "d_active d1 = g_generation h"
      using keys1(2) h(1,2) by (auto simp: fence_ok_def)
    have "deployments s1 = update_where (activation_hit a (d_active d)) (\<lambda>d. d\<lparr>d_active := ?n, d_updated_at := now\<rparr>) (deployments s)"
      using res by (simp add: ensureDeploymentHealth_tables)
    then have "d\<lparr>d_active := ?n, d_updated_at := now\<rparr> \<in> set (deployments s1)"
      using d(1,3) by (auto intro: update_where_hit)
    then have "d1 = d\<lparr>d_active := ?n, d_updated_at := now\<rparr>"
      using keys1(1) d1 d(2) by (auto simp: keys_ok_def dest: uniqD)
    then show False using d1(3) h(3) by simp
  qed
qed

text \<open>Calls that do not purge a deployment keep a retired past.\<close>

lemma past_stays_retired:
  assumes inv: "store_inv s" and safe: "list_all (spares i) cs"
    and row: "find_generation i n s = Some g"
    and past: "\<And>h. h \<in> set (generations s) \<Longrightarrow> g_deployment h = i \<Longrightarrow> g_generation h < n \<Longrightarrow> g_status h = GenRetired"
  shows "h \<in> set (generations (run_calls E cs s)) \<Longrightarrow> g_deployment h = i \<Longrightarrow> g_generation h < n \<Longrightarrow> g_status h = GenRetired"
    and "\<exists>g'. find_generation i n (run_calls E cs s) = Some g' \<and> gen_later g g'"
    and "store_inv (run_calls E cs s)"
proof -
  let ?s = "run_calls E cs s"
  have safe': "\<forall>c\<in>set cs. spares i c" using safe by (simp add: list_all_iff)
  show inv': "store_inv ?s" unfolding run_calls_def by (rule sh.history_inv [OF inv])
  have keys: "keys_ok s" "keys_ok ?s" using inv inv' by (simp_all add: store_inv_def)
  have adv: "gen_adv i (generations s) (generations ?s)"
    using sh.history_advances [OF inv safe'] by (simp add: advances_def run_calls_def)
  have g: "g \<in> set (generations s)" "g_deployment g = i" "g_generation g = n" using find_generationD [OF row] by simp_all
  show "\<exists>g'. find_generation i n ?s = Some g' \<and> gen_later g g'"
    using gen_advE [OF adv g(1,2)] g(3) by (metis find_generation_iff [OF keys(2)])
  fix h assume h: "h \<in> set (generations ?s)" "g_deployment h = i" "g_generation h < n"
  then consider (old) g1 where "g1 \<in> set (generations s)" "g_deployment g1 = i" "g_generation g1 = g_generation h"
    | (new) "\<forall>g\<in>set (generations s). g_deployment g = i \<longrightarrow> g_generation g < g_generation h"
    using adv by (auto simp: gen_adv_def)
  then show "g_status h = GenRetired"
  proof cases
    case old
    obtain g2 where g2: "g2 \<in> set (generations ?s)" "gen_later g1 g2" "g_deployment g2 = i" "g_generation g2 = g_generation g1"
      by (rule gen_advE [OF adv old(1,2)])
    have "g2 = h" using keys(2) g2(1,3,4) h(1,2) old(3) by (auto simp: keys_ok_def dest: uniqD)
    moreover have "g_status g1 = GenRetired" by (rule past [OF old(1,2)]) (simp add: old(3) h(3))
    ultimately show ?thesis using g2(2) by (simp add: gen_later_def)
  next
    case new
    then show ?thesis using g h(3) by force
  qed
qed

lemma stopped_call_retires:
  assumes inv: "store_inv s" and row: "find_generation i n s = Some g" and i: "i \<noteq> ''''"
  shows "\<exists>h. find_generation i n (exec_call E (CallStopped i n reason err now) s) = Some h \<and> g_status h = GenRetired"
proof -
  have keys: "keys_ok s" "fence_ok s" using inv by (simp_all add: store_inv_def)
  have g: "g \<in> set (generations s)" "g_deployment g = i" "g_generation g = n" using find_generationD [OF row] by simp_all
  have n: "0 < n" using keys(2) g(1,3) by (auto simp: fence_ok_def)
  let ?hit = "\<lambda>g. g_deployment g = i \<and> g_generation g = n"
  have one: "count_where ?hit (generations s) = 1"
    by (rule count_where_uniq [where k = gen_key and r = g]) (use keys(1) g in \<open>auto simp: keys_ok_def\<close>)
  let ?s = "exec_call E (CallStopped i n reason err now) s"
  have gens: "generations ?s = update_where ?hit (stop_row now reason (boundedText err maxStoredErrorBytes)) (generations s)"
    using n i one by (simp add: exec_call_def run_tx_def MarkGenerationStopped_def requireOneRow_def Let_def)
  have "keys_ok ?s" using exec_call_inv [OF inv, of E "CallStopped i n reason err now"] by (simp add: store_inv_def)
  moreover have "stop_row now reason (boundedText err maxStoredErrorBytes) g \<in> set (generations ?s)"
    unfolding gens using g by (auto intro: update_where_hit)
  ultimately show ?thesis
    by (intro exI [of _ "stop_row now reason (boundedText err maxStoredErrorBytes) g"])
      (simp add: find_generation_iff stop_row_def g)
qed

section \<open>What a pass leaves running\<close>

text \<open>The daemon when the deployments are listed, and the rows of the listing.\<close>

definition pass_start :: "env \<Rightarrow> int \<Rightarrow> store_call list \<Rightarrow> daemon \<Rightarrow> daemon" where
  "pass_start E now between d = meanwhile E between (fst (on_store (DeactivateDueDeployments (now div 1000000)) d))"

definition pass_rows :: "env \<Rightarrow> int \<Rightarrow> store_call list \<Rightarrow> int \<Rightarrow> daemon \<Rightarrow> RuntimeMetadata list" where
  "pass_rows E now between listedAt d = ListRuntimeMetadata listedAt (dm_store (pass_start E now between d))"

lemma rows_distinct:
  assumes "keys_ok s"
  shows "distinct (map rm_ID (ListRuntimeMetadata now s))"
proof -
  have flat: "map rm_ID (concat (map (\<lambda>d. case artifact_of d s of None \<Rightarrow> []
       | Some a \<Rightarrow> [\<lparr>rm_ID = d_id d, rm_Name = d_name d, rm_SourceDir = d_source_dir d, rm_ArtifactID = d_artifact d,
           rm_ConfigRevision = d_config_revision d, rm_ActiveGeneration = d_active d, rm_Describe = a_describe a\<rparr>]) L)) =
      map d_id (filter (\<lambda>d. artifact_of d s \<noteq> None) L)" for L
    by (induction L) (simp_all split: option.split)
  have "distinct (map d_id (deployments s))" using assms by (simp add: keys_ok_def uniq_def)
  then show ?thesis unfolding ListRuntimeMetadata_def flat by (simp add: distinct_map inj_on_def)
qed

lemma pass_start_store:
  "dm_store (pass_start E now between d) = run_calls E (CallDeactivateDue (now div 1000000) # between) (dm_store d)"
  by (simp add: pass_start_def on_store_def exec_call_def split: prod.split)

section \<open>Properties\<close>

text \<open>
  C26: one live worker per deployment.  Whatever visits, exits, failures, shutdowns and calls of the
  store happen in whatever order, two processes that are alive and served belong to different
  deployments, each is the worker of its deployment's slot, and nobody has asked it to stop.
\<close>

theorem one_worker_per_deployment:
  assumes "daemon_reaches E M d"
    and "p < length (dm_heap d)" "rn_serving (dm_heap d ! p)" "rn_alive (dm_heap d ! p)"
    and "q < length (dm_heap d)" "rn_serving (dm_heap d ! q)" "rn_alive (dm_heap d ! q)"
  shows "(rn_id (dm_heap d ! p) = rn_id (dm_heap d ! q) \<longrightarrow> p = q) \<and> worker_in (rn_id (dm_heap d ! p)) d = Some p \<and>
    rn_requestedStop (dm_heap d ! p) = ''''"
proof -
  have ok: "slots_ok d" by (rule reaches_ok [OF assms(1)])
  have p: "worker_in (rn_id (dm_heap d ! p)) d = Some p" using ok assms(2-4) by (simp add: slots_ok_def)
  have q: "worker_in (rn_id (dm_heap d ! q)) d = Some q" using ok assms(5-7) by (simp add: slots_ok_def)
  have "p = q" if same: "rn_id (dm_heap d ! p) = rn_id (dm_heap d ! q)"
    using trans [OF p [unfolded same, symmetric] q] by simp
  then show ?thesis using p slots_okD(5) [OF ok p] by (intro conjI impI)
qed


text \<open>The calls of a launch that failed end with the stop of its generation.\<close>

lemma failed_calls_stop:
  assumes "ready = [] \<or> ready = vi_meanwhile V 3 @ [ready_call V i n]"
    and "list_all (spares i) (vi_meanwhile V 3 @ vi_meanwhile V 4 @ vi_meanwhile V 5)"
  obtains before err where "ready @ failed_calls M V reason i n values e = before @ [CallStopped i n reason err (vi_stoppedAt V)]"
    and "list_all (spares i) before"
proof (rule that)
  let ?err = "Redact values (dn_error_text M e)"
  let ?before = "ready @ vi_meanwhile V 4 @ CallGenerationFailure i n ?err (vi_failureID V) (vi_failedAt V) # vi_meanwhile V 5"
  show "ready @ failed_calls M V reason i n values e = ?before @ [CallStopped i n reason ?err (vi_stoppedAt V)]"
    by (simp add: failed_calls_def Let_def)
  show "list_all (spares i) ?before"
    using assms by (auto simp: ready_call_def spares_def)
qed

lemma stopped_for_good:
  assumes inv: "store_inv s" and row: "find_generation i n s = Some h1" and i: "i \<noteq> ''''"
    and past: "\<And>h. h \<in> set (generations s) \<Longrightarrow> g_deployment h = i \<Longrightarrow> g_generation h < n \<Longrightarrow> g_status h = GenRetired"
    and safe: "list_all (spares i) before" "list_all (spares i) later"
  shows "\<exists>h. find_generation i n (run_calls E (before @ CallStopped i n reason err now # later) s) = Some h \<and>
    gen_later h1 h \<and> g_status h = GenRetired"
proof -
  let ?stop = "CallStopped i n reason err now"
  note kept = past_stays_retired [OF inv _ row past]
  obtain h2 where h2: "find_generation i n (run_calls E before s) = Some h2" using kept(2) [OF safe(1)] by blast
  let ?s = "exec_call E ?stop (run_calls E before s)"
  obtain h3 where h3: "find_generation i n ?s = Some h3" "g_status h3 = GenRetired"
    using stopped_call_retires [OF kept(3) [OF safe(1)] h2 i] by blast
  have inv': "store_inv ?s" by (rule exec_call_inv [OF kept(3) [OF safe(1)]])
  have "list_all (spares i) (before @ ?stop # later)" using safe by (simp add: spares_def)
  from kept(2) [OF this] obtain h4
    where h4: "find_generation i n (run_calls E (before @ ?stop # later) s) = Some h4" "gen_later h1 h4" by blast
  have "g_status h4 = GenRetired"
    using fenced_op.retired_stays [OF sh.history_fenced inv' h3, of later E] safe(2) h4(1)
    by (auto simp: run_calls_def list_all_iff)
  then show ?thesis using h4 by blast
qed


section \<open>Samples\<close>

text \<open>A fresh daemon with one deployment, and the visit that launches its worker.\<close>

definition sup_plan :: PlanDescription where
  "sup_plan = \<lparr>pd_Kind = ''continuous'', pd_Interval = 0, pd_Timeout = 0, pd_Secrets = []\<rparr>"

definition sup_info :: Info where
  "sup_info = \<lparr>in_Name = ''info'', in_Description = ''about''\<rparr>"

definition sup_world :: daemon_env where
  "sup_world = \<lparr>dn_codec = \<lparr>dc_parse_time = (\<lambda>_. None), dc_marshal = (\<lambda>_. ''frame'')\<rparr>,
     dn_describe = (\<lambda>_. Some (sup_info, sup_plan)), dn_hmac = (\<lambda>key s. key), dn_secretKey = ''k'',
     dn_error_text = (\<lambda>_. ''error''), dn_canceled = (\<lambda>_. False)\<rparr>"

definition sup_monitor :: WorkerFrame where
  "sup_monitor = \<lparr>wf_Type = ''monitor'', wf_Monitor = Some \<lparr>mf_Info = sup_info, mf_Plan = sup_plan, mf_State = ''{}''\<rparr>, wf_Ready = None,
     wf_Run = None, wf_Transaction = None, wf_Stopped = None\<rparr>"

definition sup_ready :: WorkerFrame where
  "sup_ready = \<lparr>wf_Type = ''ready'', wf_Monitor = None, wf_Ready = Some 1, wf_Run = None, wf_Transaction = None,
     wf_Stopped = None\<rparr>"

definition sup_visit :: visit_env where
  "sup_visit = \<lparr>vi_files = (\<lambda>_. NotExist), vi_meanwhile = (\<lambda>_. []), vi_token = sample_token, vi_checkedAt = 20,
     vi_activatedAt = 20, vi_process = None, vi_written = (None, None),
     vi_replies = (Inr sup_monitor, Inr sup_ready), vi_readyAt = 21, vi_failureID = ''fail'', vi_failedAt = 22,
     vi_stoppedAt = 22, vi_startedAt = 23000000, vi_cancelled = None\<rparr>"

definition sup_fresh :: daemon where
  "sup_fresh = fresh_daemon sample_env [CallDeploy sample_input ''dep'' 10] 15"

definition sup_row :: deployment_row where
  "sup_row = \<lparr>d_id = ''dep'', d_name = ''mon'', d_info_name = ''info'',
        d_source_dir = [], d_status = DepActive, d_artifact = ''hash'', d_config_revision = 1,
        d_config_hash = ''cfg'', d_threshold = 2, d_max_events = 4, d_retention_ms = 3600000,
        d_active = 0, d_state = ''{}'', d_state_revision = 0, d_created_at = 10,
        d_updated_at = 10, d_expires_at = None, d_archived_at = None\<rparr>"

definition sup_art :: artifact_row where
  "sup_art = \<lparr>a_id = ''hash'', a_content_hash = ''hash'', a_path = ''bin'', a_describe = ''{}'', a_created_at = 10\<rparr>"

lemma sup_fresh_store:
  "dm_store sup_fresh = \<lparr>artifacts = [sup_art], deployments = [sup_row], generations = [],
     healths = [(new_health ''dep'' 0 HealthStarting 10)\<lparr>h_generation := 0, h_status := HealthStarting, h_updated_at := 15\<rparr>],
     checkpoints = [], transactions = [],
     bindings = [\<lparr>b_id = ''destination-1'', b_revision = 1, b_deployment = ''dep'',
        b_config = ''{}'', b_config_hash = ''{}'', b_created_at = 10, b_retired_at = None\<rparr>],
     events = [], deliveries = [], cursors = []\<rparr>"
  by (simp add: sup_fresh_def fresh_daemon_def exec_call_def run_tx_def sample_deployed RecoverGenerations_def Let_def
      update_where_def sup_row_def sup_art_def new_health_def) (auto simp: image_iff)

lemma sup_fresh_fields: "dm_workers sup_fresh = []" "dm_heap sup_fresh = []" "slot_of i sup_fresh = empty_slot"
  by (simp_all add: sup_fresh_def fresh_daemon_def slot_of_def)

definition sup_snapshot :: RuntimeDeployment where
  "sup_snapshot = \<lparr>rd_Deployment = sup_row, rd_Artifact = sup_art, rd_Checkpoints = []\<rparr>"

definition sup_metadata :: RuntimeMetadata where
  "sup_metadata = \<lparr>rm_ID = ''dep'', rm_Name = ''mon'', rm_SourceDir = [], rm_ArtifactID = ''hash'', rm_ConfigRevision = 1,
     rm_ActiveGeneration = 0, rm_Describe = ''{}''\<rparr>"

lemma sup_metadata_id: "rm_ID sup_metadata = ''dep''"
  by (simp add: sup_metadata_def)

lemma sup_listing: "ListRuntimeMetadata 20 (dm_store sup_fresh) = [sup_metadata]"
  by (simp add: ListRuntimeMetadata_def sup_fresh_store sup_row_def sup_art_def artifact_of_def sup_metadata_def)

lemma sup_lookup: "GetRuntimeDeployment ''dep'' (dm_store sup_fresh) = Inr sup_snapshot"
  by (simp add: GetRuntimeDeployment_def select_joined_def artifact_of_def checkpoints_of_def Let_def sup_fresh_store
      sup_row_def sup_art_def sup_snapshot_def)

lemma sup_resolved:
  "resolveDeploymentSecrets sup_world (vi_files sup_visit) [] ''{}'' = Inr ([], hex_encode ''k'', [])"
  by (simp add: resolveDeploymentSecrets_def sup_world_def SecretRefs_def sup_plan_def normalizeSecretRefs_def Resolve_def
      Normalize_def sup_visit_def readSecure_def Fingerprint_def)

definition sup_generation :: ActiveGeneration where
  "sup_generation = \<lparr>ag_DeploymentID = ''dep'', ag_Generation = 1, ag_WorkerToken = sample_token\<rparr>"

lemma sup_activated:
  "\<exists>s1. ActivateGeneration sample_env (activation_of sup_snapshot (hex_encode ''k'')) sample_token 20 20 (dm_store sup_fresh)
     = Inr (s1, sup_generation) \<and>
   (\<exists>s2. MarkGenerationReady ''dep'' 1 21 s1 = Inr (s2, ()))"
  by (simp add: sup_fresh_store sup_row_def sup_snapshot_def activation_of_def Let_def
      ActivateGeneration_def advanceGeneration_def activation_hit_def replaced_def maxGeneration_def new_generation_def
      requireOneRow_def count_where_def update_where_def ensureDeploymentHealth_def upsert_def new_health_def
      exists_where_def sup_generation_def MarkGenerationReady_def)

definition sup_up :: worker where
  "sup_up = \<lparr>wk_deployment = sup_snapshot, wk_generation = sup_generation, wk_planKind = ''continuous''\<rparr>"

lemma sup_handshake: "start_process sup_world sup_visit sup_snapshot sup_generation [] = Inr sup_up"
  by (simp add: start_process_def startWorker_def sup_visit_def sup_world_def sup_snapshot_def sup_generation_def Let_def
      worker_send_def DaemonFrame_Validate_def payloads_def hello_frame_def Hello_Validate_def sup_row_def sup_art_def
      json_valid_braces MaxStateBytes_def MaxCheckpointsPerTransaction_def DeploymentPolicy_Validate_def MaxFrameBytes_def MaxEventsPerTransaction_def
      PlanDescription_Validate_def sup_plan_def normalizeSecretRefs_def sup_monitor_def sup_ready_def sup_up_def
      sample_token_def sup_info_def)

lemma sup_launch:
  "\<exists>s. launch sample_env sup_world sup_visit sup_snapshot [] (hex_encode ''k'') [] sup_fresh =
     (install ''dep'' (hex_encode ''k'') [] sup_up 23000000 (sup_fresh\<lparr>dm_store := s\<rparr>), [])"
proof -
  obtain s1 s2 where s1: "ActivateGeneration sample_env (activation_of sup_snapshot (hex_encode ''k'')) sample_token 20 20
      (dm_store sup_fresh) = Inr (s1, sup_generation)"
    and s2: "MarkGenerationReady ''dep'' 1 21 s1 = Inr (s2, ())"
    using sup_activated by blast
  have i: "d_id (rd_Deployment sup_snapshot) = ''dep''" "ag_Generation sup_generation = 1"
    by (simp_all add: sup_snapshot_def sup_row_def sup_generation_def)
  have V: "vi_meanwhile sup_visit k = []" "vi_token sup_visit = sample_token" "vi_checkedAt sup_visit = 20"
    "vi_activatedAt sup_visit = 20" "vi_readyAt sup_visit = 21" "vi_startedAt sup_visit = 23000000" for k
    by (simp_all add: sup_visit_def)
  show ?thesis
    by (intro exI [of _ s2])
      (simp add: launch_def Let_def i V on_store_def meanwhile_def run_tx_def s1 sup_handshake s2 [simplified])
qed

lemma sup_visited:
  "\<exists>s. visit sample_env sup_world sup_visit now sup_metadata sup_fresh =
     (install ''dep'' (hex_encode ''k'') [] sup_up 23000000 (sup_fresh\<lparr>dm_store := s\<rparr>), Went [])"
proof -
  obtain s where s: "launch sample_env sup_world sup_visit sup_snapshot [] (hex_encode ''k'') [] sup_fresh =
     (install ''dep'' (hex_encode ''k'') [] sup_up 23000000 (sup_fresh\<lparr>dm_store := s\<rparr>), [])"
    using sup_launch by blast
  have quiet: "meanwhile sample_env (vi_meanwhile sup_visit k) d = d" for d k
    by (simp add: meanwhile_def sup_visit_def)
  have row: "rm_ID sup_metadata = ''dep''" "rm_SourceDir sup_metadata = []" "rm_Describe sup_metadata = ''{}''"
    by (simp_all add: sup_metadata_def)
  have "agrees sup_snapshot sup_metadata"
    by (simp add: agrees_def sup_snapshot_def sup_row_def sup_metadata_def)
  then show ?thesis
    by (intro exI [of _ s])
      (simp add: visit_def visit_launch_def Let_def quiet row sup_resolved sup_lookup s sup_fresh_fields empty_slot_def)
qed

lemma same_workers: "dm_workers d = W \<Longrightarrow> d\<lparr>dm_workers := W\<rparr> = d"
  by (cases d) simp

lemma sup_own: "own_snapshot sample_env sup_visit ''dep'' (dm_store sup_fresh)"
proof -
  have "vi_meanwhile sup_visit 1 = []" by (simp add: sup_visit_def)
  then show ?thesis using sup_lookup by (simp add: own_snapshot_def sup_snapshot_def sup_row_def)
qed

lemma one_worker_per_deployment_witness:
  "\<exists>d. daemon_reaches sample_env sup_world d \<and> worker_in ''dep'' d = Some 0 \<and> rn_requestedStop (dm_heap d ! 0) = ''''"
proof -
  obtain s where s: "visit sample_env sup_world sup_visit 20 sup_metadata sup_fresh =
      (install ''dep'' (hex_encode ''k'') [] sup_up 23000000 (sup_fresh\<lparr>dm_store := s\<rparr>), Went [])"
    using sup_visited by blast
  let ?d = "install ''dep'' (hex_encode ''k'') [] sup_up 23000000 (sup_fresh\<lparr>dm_store := s\<rparr>)"
  have "daemon_step sample_env sup_world sup_fresh ?d"
    using daemon_step.Visit [of sample_env sup_visit sup_metadata sup_fresh sup_world 20] sup_own
    by (simp add: s sup_metadata_id)
  then have reach: "daemon_reaches sample_env sup_world ?d"
    using daemon_reaches.Step [OF daemon_reaches.Start [of sample_env sup_world "[CallDeploy sample_input ''dep'' 10]" 15]]
    by (simp add: sup_fresh_def)
  have heap: "length (dm_heap ?d) = 1" "rn_id (dm_heap ?d ! 0) = ''dep''" "rn_serving (dm_heap ?d ! 0)" "rn_alive (dm_heap ?d ! 0)"
    by (simp_all add: install_def sup_fresh_fields sup_up_def sup_snapshot_def sup_row_def)
  from one_worker_per_deployment [OF reach, of 0 0] heap show ?thesis using reach by auto
qed

lemma sup_fresh_inv: "store_inv (dm_store sup_fresh)"
  unfolding sup_fresh_def fresh_daemon_def daemon.simps by (rule reachable_inv)



end
