(* ===== verification/Supervisor.thy ===== *)
theory Supervisor
  imports Coordinator
begin

text \<open>
  \<open>supervisor.go\<close>, \<open>runtime.go\<close>, \<open>lifecycle.go\<close> and \<open>deferred.go\<close>: the worker runs the plan's
  callbacks under a deadline, reports every run, and stops.  The goroutines and timers are the lists
  of what their channels deliver, in the order the \<open>select\<close> takes them; an event that is not enabled
  is skipped, and a list that ends first leaves the call waiting.  Instants are nanoseconds.
\<close>

section \<open>Errors\<close>

text \<open>Errors with what \<open>Unwrap\<close> reaches: a panic and a deferral wrap nothing.\<close>

datatype run_error =
    Plain string
  | Canceled
  | DeadlineExceeded
  | deferredError string
  | callbackPanicError string
  | transactionUncertainError run_error
  | callbackStillRunningError run_error
  | reportedRunError run_error
  | Wrapped string run_error
  | Joined "run_error list"

fun Error_text :: "run_error \<Rightarrow> string" where
  "Error_text (Plain s) = s"
| "Error_text Canceled = ''context canceled''"
| "Error_text DeadlineExceeded = ''context deadline exceeded''"
| "Error_text (deferredError reason) = reason"
| "Error_text (callbackPanicError v) = ''callback panicked: '' @ v"
| "Error_text (transactionUncertainError e) = ''transaction settlement failed; durable outcome unknown: '' @ Error_text e"
| "Error_text (callbackStillRunningError e) = Error_text e"
| "Error_text (reportedRunError e) = Error_text e"
| "Error_text (Wrapped prefix e) = prefix @ '': '' @ Error_text e"
| "Error_text (Joined es) = join_with ''\<newline>'' (map Error_text es)"

text \<open>\<open>errors.Is\<close> and \<open>errors.As\<close>: does the error or one it wraps satisfy \<open>P\<close>?\<close>

fun wraps :: "(run_error \<Rightarrow> bool) \<Rightarrow> run_error \<Rightarrow> bool" where
  "wraps P (transactionUncertainError e) = (P (transactionUncertainError e) \<or> wraps P e)"
| "wraps P (callbackStillRunningError e) = (P (callbackStillRunningError e) \<or> wraps P e)"
| "wraps P (reportedRunError e) = (P (reportedRunError e) \<or> wraps P e)"
| "wraps P (Wrapped prefix e) = (P (Wrapped prefix e) \<or> wraps P e)"
| "wraps P (Joined es) = (P (Joined es) \<or> list_ex (wraps P) es)"
| "wraps P e = P e"

definition is_deferred :: "run_error \<Rightarrow> bool" where
  "is_deferred = wraps (\<lambda>e. case e of deferredError _ \<Rightarrow> True | _ \<Rightarrow> False)"

definition is_canceled :: "run_error \<Rightarrow> bool" where
  "is_canceled = wraps (\<lambda>e. e = Canceled)"

definition is_deadline :: "run_error \<Rightarrow> bool" where
  "is_deadline = wraps (\<lambda>e. e = DeadlineExceeded)"

definition is_panic :: "run_error \<Rightarrow> bool" where
  "is_panic = wraps (\<lambda>e. case e of callbackPanicError _ \<Rightarrow> True | _ \<Rightarrow> False)"

definition is_uncertain :: "run_error \<Rightarrow> bool" where
  "is_uncertain = wraps (\<lambda>e. case e of transactionUncertainError _ \<Rightarrow> True | _ \<Rightarrow> False)"

definition callbackStillRunning :: "run_error option \<Rightarrow> bool" where
  "callbackStillRunning e =
     (case e of None \<Rightarrow> False | Some e \<Rightarrow> wraps (\<lambda>e. case e of callbackStillRunningError _ \<Rightarrow> True | _ \<Rightarrow> False) e)"

definition runFailureWasReported :: "run_error option \<Rightarrow> bool" where
  "runFailureWasReported e =
     (case e of None \<Rightarrow> False | Some e \<Rightarrow> wraps (\<lambda>e. case e of reportedRunError _ \<Rightarrow> True | _ \<Rightarrow> False) e)"

definition callbackFatal :: "run_error \<Rightarrow> bool" where
  "callbackFatal e \<longleftrightarrow> callbackStillRunning (Some e) \<or> is_panic e \<or> is_uncertain e"

text \<open>\<open>errors.Join\<close> drops nil errors and is nil when all are.\<close>

definition errors_join :: "run_error option list \<Rightarrow> run_error option" where
  "errors_join es = (let xs = concat (map (\<lambda>e. case e of None \<Rightarrow> [] | Some x \<Rightarrow> [x]) es) in
     if xs = [] then None else Some (Joined xs))"

definition Deferred :: "string \<Rightarrow> run_error" where
  "Deferred reason = deferredError (if reason = '''' then ''source attempt deferred'' else reason)"

section \<open>The scope of a callback's commits\<close>

definition commitSettlementTimeout :: int where
  "commitSettlementTimeout = 30000000000"

text \<open>\<open>changed\<close> has room for one signal; \<open>None\<close> is the zero deadline.\<close>

record callbackCommitScope =
  sc_deadline :: "int option"
  sc_changed :: bool

definition scope_notify :: "callbackCommitScope \<Rightarrow> callbackCommitScope" where
  "scope_notify s = s\<lparr>sc_changed := True\<rparr>"

text \<open>\<open>begin\<close> refuses when the callback's context has ended.\<close>

definition scope_begin :: "int \<Rightarrow> bool \<Rightarrow> callbackCommitScope \<Rightarrow> callbackCommitScope \<times> bool" where
  "scope_begin now ended s =
     (if ended then (s, False) else (scope_notify (s\<lparr>sc_deadline := Some (now + commitSettlementTimeout)\<rparr>), True))"

definition scope_end :: "callbackCommitScope \<Rightarrow> callbackCommitScope" where
  "scope_end s = scope_notify (s\<lparr>sc_deadline := None\<rparr>)"

definition scope_remaining :: "int \<Rightarrow> callbackCommitScope \<Rightarrow> int \<times> bool" where
  "scope_remaining now s = (case sc_deadline s of None \<Rightarrow> (0, False) | Some t \<Rightarrow> (t - now, True))"

section \<open>Running a callback\<close>

text \<open>
  Where the loop of \<open>runCallback\<close> waits: in its first \<open>select\<close> with a settlement timer or without;
  for the result after the worker's own context has ended; or, after the callback's deadline, for the
  result until a timer, which it set when the scope was active or not.
\<close>

datatype callback_phase =
    Waiting "int option"
  | Unwinding
  | Expired run_error int bool

record callback_state =
  cb_phase :: callback_phase
  cb_scope :: callbackCommitScope
  cb_ended :: bool

text \<open>
  \<open>CommitBegins\<close> and \<open>CommitEnds\<close> are the callback's; the flag of \<open>CallbackReturns\<close> and of
  \<open>ContextEnds\<close> is whether the worker's context has ended.
\<close>

datatype callback_event =
    CommitBegins int
  | CommitEnds
  | CallbackReturns "run_error option" bool
  | ScopeChanged int
  | SettlementFires int
  | ContextEnds run_error int bool
  | TimerFires int

definition fresh_callback :: callback_state where
  "fresh_callback = \<lparr>cb_phase = Waiting None, cb_scope = \<lparr>sc_deadline = None, sc_changed = False\<rparr>, cb_ended = False\<rparr>"

definition settled_message :: string where
  "settled_message = ''transaction settlement deadline exceeded; durable outcome unknown''"

text \<open>The timer that the expired loop sets at \<open>now\<close>.\<close>

definition expire :: "run_error \<Rightarrow> int \<Rightarrow> callback_state \<Rightarrow> callback_state" where
  "expire cause now s =
     (let (remaining, active) = scope_remaining now (cb_scope s) in
      s\<lparr>cb_phase := Expired cause (now + max (if active then remaining else 100000000) 0) active, cb_ended := True\<rparr>)"

text \<open>One event: the loop goes on (\<open>Inl\<close>), or \<open>runCallback\<close> returns (\<open>Inr\<close>).\<close>

definition callback_step :: "callback_event \<Rightarrow> callback_state \<Rightarrow> callback_state + run_error option" where
  "callback_step ev s =
     (case ev of
        CommitBegins now \<Rightarrow> Inl (s\<lparr>cb_scope := fst (scope_begin now (cb_ended s) (cb_scope s))\<rparr>)
      | CommitEnds \<Rightarrow> Inl (s\<lparr>cb_scope := scope_end (cb_scope s)\<rparr>)
      | CallbackReturns err parentEnded \<Rightarrow>
          (case cb_phase s of
             Waiting t \<Rightarrow> Inr (if parentEnded then None else err)
           | Unwinding \<Rightarrow> Inr (case err of None \<Rightarrow> None | Some e \<Rightarrow> if is_canceled e then None else Some e)
           | Expired cause due active \<Rightarrow>
               Inr (Some (Wrapped ''callback deadline exceeded'' (Joined (cause # (case err of None \<Rightarrow> [] | Some e \<Rightarrow> [e]))))))
      | ScopeChanged now \<Rightarrow>
          if \<not> sc_changed (cb_scope s) then Inl s
          else let s' = s\<lparr>cb_scope := (cb_scope s)\<lparr>sc_changed := False\<rparr>\<rparr> in
            (case cb_phase s of
               Waiting t \<Rightarrow>
                 let (remaining, active) = scope_remaining now (cb_scope s) in
                 Inl (s'\<lparr>cb_phase := Waiting (if active then Some (now + max remaining 0) else None)\<rparr>)
             | Unwinding \<Rightarrow> Inl s
             | Expired cause due active \<Rightarrow> Inl (expire cause now s'))
      | SettlementFires now \<Rightarrow>
          (case cb_phase s of
             Waiting (Some due) \<Rightarrow>
               if now < due then Inl s
               else let (remaining, active) = scope_remaining now (cb_scope s) in
                 if active \<and> remaining \<le> 0 then Inr (Some (callbackStillRunningError (Plain settled_message)))
                 else Inl (s\<lparr>cb_phase := Waiting None\<rparr>)
           | _ \<Rightarrow> Inl s)
      | ContextEnds cause now parentEnded \<Rightarrow>
          (case cb_phase s of
             Waiting t \<Rightarrow> Inl (if parentEnded then s\<lparr>cb_phase := Unwinding, cb_ended := True\<rparr> else expire cause now s)
           | _ \<Rightarrow> Inl s)
      | TimerFires now \<Rightarrow>
          (case cb_phase s of
             Expired cause due active \<Rightarrow>
               if now < due then Inl s
               else Inr (Some (callbackStillRunningError
                 (Wrapped (if active then settled_message else ''callback deadline exceeded'') cause)))
           | _ \<Rightarrow> Inl s))"

fun run_callback :: "callback_event list \<Rightarrow> callback_state \<Rightarrow> callback_state + run_error option" where
  "run_callback [] s = Inl s"
| "run_callback (ev # evs) s = (case callback_step ev s of Inl s' \<Rightarrow> run_callback evs s' | Inr r \<Rightarrow> Inr r)"

definition runCallback :: "callback_event list \<Rightarrow> callback_state + run_error option" where
  "runCallback evs = run_callback evs fresh_callback"

section \<open>Running the plan\<close>

text \<open>
  One turn of the plan: what the callback's run returned, whether the worker's context had ended by
  then, how long it took, what reporting it returned, and whether the context ended in the pause.
\<close>

record run_turn =
  tu_result :: "run_error option"
  tu_ended :: bool
  tu_duration :: int
  tu_report :: "run_error option"
  tu_stopped :: bool

text \<open>A report as the generation's run frame.\<close>

definition run_frame :: "uint64 \<Rightarrow> string \<Rightarrow> int \<Rightarrow> string \<Rightarrow> RunFrame" where
  "run_frame gen status duration err =
     \<lparr>rf_Generation = gen, rf_Status = status, rf_Duration = duration, rf_Error = err\<rparr>"

definition run_continuous :: "uint64 \<Rightarrow> run_turn \<Rightarrow> RunFrame list \<times> run_error option" where
  "run_continuous gen t =
     (let err = (case tu_result t of
            None \<Rightarrow> if tu_ended t then None else Some (Plain ''continuous callback returned while active'')
          | Some e \<Rightarrow> Some e)
      in case err of
           Some e \<Rightarrow>
             if tu_ended t then ([], Some e)
             else ([run_frame gen ''failure'' (tu_duration t) (boundedOperationalError (Error_text e) ''continuous monitor failed'')],
               (case tu_report t of Some r \<Rightarrow> Some r | None \<Rightarrow> Some (reportedRunError e)))
         | None \<Rightarrow> ([], None))"

definition deferred_run :: "run_error \<Rightarrow> bool" where
  "deferred_run e \<longleftrightarrow> is_deferred e \<and> \<not> callbackFatal e \<and> \<not> is_deadline e"

definition poll_outcome :: "uint64 \<Rightarrow> run_turn \<Rightarrow> RunFrame" where
  "poll_outcome gen t =
     (case tu_result t of
        None \<Rightarrow> run_frame gen ''success'' (tu_duration t) ''''
      | Some e \<Rightarrow> run_frame gen (if deferred_run e then ''deferred'' else ''failure'') (tu_duration t)
          (boundedOperationalError (Error_text e) ''monitor check failed''))"

text \<open>The reports, and the error the plan ends with; \<open>None\<close> while the turns given do not end it.\<close>

fun run_polling :: "uint64 \<Rightarrow> bool \<Rightarrow> run_turn list \<Rightarrow> RunFrame list \<times> run_error option option" where
  "run_polling gen once [] = ([], None)"
| "run_polling gen once (t # ts) =
     (if tu_ended t
      then ([], Some (case tu_result t of None \<Rightarrow> None | Some e \<Rightarrow> if is_canceled e then None else Some e))
      else let outcome = poll_outcome gen t in
        case tu_report t of
          Some r \<Rightarrow> ([outcome], Some (Some r))
        | None \<Rightarrow>
            (case tu_result t of
               Some e \<Rightarrow>
                 if \<not> deferred_run e \<and> (once \<or> callbackFatal e) then ([outcome], Some (Some (reportedRunError e)))
                 else if once \<or> tu_stopped t then ([outcome], Some None)
                 else (case run_polling gen once ts of (fs, r) \<Rightarrow> (outcome # fs, r))
             | None \<Rightarrow>
                 if once \<or> tu_stopped t then ([outcome], Some None)
                 else (case run_polling gen once ts of (fs, r) \<Rightarrow> (outcome # fs, r))))"

definition runPlan :: "planKind \<Rightarrow> uint64 \<Rightarrow> bool \<Rightarrow> run_turn list \<Rightarrow> RunFrame list \<times> run_error option option" where
  "runPlan kind gen once turns =
     (if kind = planContinuous
      then (case turns of [] \<Rightarrow> ([], None) | t # _ \<Rightarrow> (case run_continuous gen t of (fs, r) \<Rightarrow> (fs, Some r)))
      else run_polling gen once turns)"

section \<open>Lifecycle hooks\<close>

text \<open>A hook that a monitor has: it returned, panicked, or the context ended first.\<close>

datatype hook = NoHook | HookReturned "run_error option" | HookTimedOut run_error

definition runLifecycleHook :: "string \<Rightarrow> hook \<Rightarrow> run_error option" where
  "runLifecycleHook name h =
     (case h of
        NoHook \<Rightarrow> None
      | HookReturned None \<Rightarrow> None
      | HookReturned (Some e) \<Rightarrow> Some (Wrapped (''monitor '' @ name) e)
      | HookTimedOut e \<Rightarrow> Some (Wrapped (''monitor '' @ name) e))"

definition monitorStopTimeout :: int where "monitorStopTimeout = 5000000000"
definition stopReportGrace :: int where "stopReportGrace = 1000000000"

text \<open>The instant at which the hook's context ends.\<close>

definition lifecycleContext :: "int \<Rightarrow> int \<Rightarrow> int option \<Rightarrow> int" where
  "lifecycleContext timeout now deadline =
     (case deadline of Some t \<Rightarrow> if t - now < timeout then t else now + timeout | None \<Rightarrow> now + timeout)"

definition stop_context :: "int \<Rightarrow> int option \<Rightarrow> int" where
  "stop_context now stopDeadline = lifecycleContext monitorStopTimeout now (map_option (\<lambda>t. t - stopReportGrace) stopDeadline)"

section \<open>Serving the daemon\<close>

text \<open>
  What wins the main \<open>select\<close> of \<open>serveWorker\<close>.  \<open>sw_turns\<close> are the turns of the plan; when they do
  not end it the worker goes on running, and the result is \<open>None\<close>.
\<close>

datatype worker_end = PlanEnded | StopRequested Stop | ControlFailed run_error

record serve_worker_env =
  sw_hello :: "DaemonFrame result"
  sw_start :: "DaemonFrame result"
  sw_sent_monitor :: write_outcome
  sw_sent_ready :: write_outcome
  sw_sent_stopped :: write_outcome
  sw_startHook :: hook
  sw_stopHook :: hook
  sw_kind :: planKind
  sw_turns :: "run_turn list"
  sw_end :: worker_end

datatype action = Sent WorkerFrame | StartHook | StopHook

definition hook_called :: "hook \<Rightarrow> action \<Rightarrow> action list" where
  "hook_called h a = (if h = NoHook then [] else [a])"

definition empty_frame :: WorkerFrame where
  "empty_frame = \<lparr>wf_Type = '''', wf_Monitor = None, wf_Ready = None, wf_Run = None, wf_Transaction = None, wf_Stopped = None\<rparr>"

definition stopped_out :: "StoppedFrame \<Rightarrow> WorkerFrame" where
  "stopped_out x = empty_frame\<lparr>wf_Type := ''stopped'', wf_Stopped := Some x\<rparr>"

definition run_out :: "RunFrame \<Rightarrow> WorkerFrame" where
  "run_out x = empty_frame\<lparr>wf_Type := ''run'', wf_Run := Some x\<rparr>"

definition sendStopped :: "uint64 \<Rightarrow> run_error option \<Rightarrow> run_error option \<Rightarrow> StoppedFrame" where
  "sendStopped gen runErr stopErr =
     (let resultErr = errors_join [runErr, stopErr] in
      \<lparr>sf_Generation = gen, sf_Clean = (resultErr = None),
       sf_Error = (case resultErr of None \<Rightarrow> ''''
         | Some e \<Rightarrow> boundedOperationalError (Error_text e) ''monitor stopped unsuccessfully''),
       sf_RunFailureReported = runFailureWasReported runErr\<rparr>)"

definition write_error :: "WorkerFrame \<Rightarrow> write_outcome \<Rightarrow> run_error option" where
  "write_error f outcome = (if WorkerFrame_Validate f \<noteq> None then Some (Plain ''invalid frame'')
     else if outcome = WriteOk then None else Some (Plain ''write''))"

definition go_plain :: "go_error \<Rightarrow> run_error" where
  "go_plain e = (case e of Errorf s \<Rightarrow> Plain s | _ \<Rightarrow> Plain ''error'')"

text \<open>The session of the handshake: the secrets by group and key, the checkpoints as they came.\<close>

definition worker_session :: "'v state_codec \<Rightarrow> Hello \<Rightarrow> Session result" where
  "worker_session C hello =
     (case newSession C (he_State hello)
             (concat (map (\<lambda>(g, keys). map (\<lambda>(k, v). (secret_id g k, v)) keys) (he_Secrets hello)))
             (po_MaxPerTransaction (he_Policy hello)) of
        Inl e \<Rightarrow> Inl e
      | Inr session \<Rightarrow> Inr (session\<lparr>ss_checkpoints := put_entries (he_Checkpoints hello) (ss_checkpoints session)\<rparr>))"

text \<open>The actions after \<open>ready\<close>, and what \<open>serveWorker\<close> returns.\<close>

definition worker_finish :: "serve_worker_env \<Rightarrow> uint64 \<Rightarrow> bool \<Rightarrow> action list \<times> run_error option option" where
  "worker_finish W gen once =
     (let (reports, result) = runPlan (sw_kind W) gen once (sw_turns W);
          runs = map (\<lambda>x. Sent (run_out x)) reports;
          stopErr = runLifecycleHook ''stop'' (sw_stopHook W);
          finish = (\<lambda>hooks runErr stopErr. let f = stopped_out (sendStopped gen runErr stopErr) in
            (runs @ hooks @ [Sent f], Some (write_error f (sw_sent_stopped W))))
      in case sw_end W of
           ControlFailed e \<Rightarrow> (runs, Some (Some e))
         | PlanEnded \<Rightarrow>
             (case result of
                None \<Rightarrow> (runs, None)
              | Some runErr \<Rightarrow>
                  if callbackStillRunning runErr then finish [] runErr None
                  else finish (hook_called (sw_stopHook W) StopHook) runErr stopErr)
         | StopRequested request \<Rightarrow>
             (case result of
                None \<Rightarrow> (runs, None)
              | Some runErr \<Rightarrow> finish (hook_called (sw_stopHook W) StopHook) runErr stopErr))"

text \<open>From the session on: the start hook, \<open>ready\<close>, and the plan.\<close>

definition worker_started :: "serve_worker_env \<Rightarrow> uint64 \<Rightarrow> bool \<Rightarrow> action list \<times> run_error option option" where
  "worker_started W gen once =
     (let hook = hook_called (sw_startHook W) StartHook in
      case runLifecycleHook ''start'' (sw_startHook W) of
        Some e \<Rightarrow>
          let f = stopped_out \<lparr>sf_Generation = gen, sf_Clean = False,
                sf_Error = boundedOperationalError (Error_text e) ''monitor start failed'', sf_RunFailureReported = False\<rparr>
          in (hook @ [Sent f], Some (write_error f (sw_sent_stopped W)))
      | None \<Rightarrow>
          let ready = empty_frame\<lparr>wf_Type := ''ready'', wf_Ready := Some gen\<rparr> in
          (case write_error ready (sw_sent_ready W) of
             Some e \<Rightarrow> (hook @ [Sent ready] @ hook_called (sw_stopHook W) StopHook,
               Some (errors_join [Some e, runLifecycleHook ''stop'' (sw_stopHook W)]))
           | None \<Rightarrow> (case worker_finish W gen once of (as, r) \<Rightarrow> (hook @ [Sent ready] @ as, r))))"

text \<open>
  \<open>desc\<close> is the plan of the monitor, validated before; a frame has been validated by \<open>readInbound\<close>,
  so that the payload of its type is there.
\<close>

definition serveWorker ::
    "'v state_codec \<Rightarrow> Info \<Rightarrow> PlanDescription \<Rightarrow> serve_worker_env \<Rightarrow> action list \<times> run_error option option" where
  "serveWorker C info desc W =
     (let monitor = empty_frame\<lparr>wf_Type := ''monitor'',
            wf_Monitor := Some \<lparr>mf_Info = info, mf_Plan = desc, mf_State = ''null''\<rparr>\<rparr>;
          fail = (\<lambda>e. ([Sent monitor], Some (Some e))) in
      case sw_hello W of
        Inl e \<Rightarrow> ([], Some (Some (Wrapped ''read hello'' (go_plain e))))
      | Inr m \<Rightarrow> (case df_Hello m of
          None \<Rightarrow> ([], Some (Some (Plain ''expected hello'')))
        | Some hello \<Rightarrow> (case write_error monitor (sw_sent_monitor W) of
            Some e \<Rightarrow> fail e
          | None \<Rightarrow> (case sw_start W of
              Inl e \<Rightarrow> fail (Wrapped ''read start'' (go_plain e))
            | Inr m2 \<Rightarrow> (case df_Start m2 of
                None \<Rightarrow> fail (Plain ''expected start'')
              | Some start \<Rightarrow>
                  if st_Plan start \<noteq> desc then fail (Plain ''start plan differs from described plan'')
                  else (case validateHandshakeSecrets desc (he_Secrets hello) of
                      Some e \<Rightarrow> fail (go_plain e)
                    | None \<Rightarrow> (case worker_session C hello of
                        Inl e \<Rightarrow> fail (go_plain e)
                      | Inr session \<Rightarrow> (case worker_started W (he_Generation hello) (st_Once start) of
                          (as, r) \<Rightarrow> (Sent monitor # as, r)))))))))"

end
