(* ===== verification/SupervisorTheorems.thy ===== *)
theory SupervisorTheorems
  imports Supervisor SupervisionTheorems
begin

text \<open>
  When a callback may be given up, and how a failure of the plan is counted: from the callback's
  error over the worker's last frame to what the daemon records in the health of the deployment.
\<close>

section \<open>Giving up a callback\<close>

definition context_end :: "callback_event \<Rightarrow> bool" where
  "context_end ev = (case ev of ContextEnds _ _ _ \<Rightarrow> True | _ \<Rightarrow> False)"

definition parent_end :: "callback_event \<Rightarrow> bool" where
  "parent_end ev = (case ev of ContextEnds _ _ parentEnded \<Rightarrow> parentEnded | _ \<Rightarrow> False)"

text \<open>A commit that began at \<open>t\<close>, and a moment at which the grace of the unwinding started.\<close>

definition began :: "int \<Rightarrow> callback_event list \<Rightarrow> bool" where
  "began t evs \<longleftrightarrow> CommitBegins t \<in> set evs"

definition grace_from :: "int \<Rightarrow> callback_event list \<Rightarrow> bool" where
  "grace_from t evs \<longleftrightarrow> (\<exists>cause. ContextEnds cause t False \<in> set evs) \<or> ScopeChanged t \<in> set evs"

text \<open>What the events so far say of the loop's state.\<close>

definition callback_inv :: "callback_event list \<Rightarrow> callback_state \<Rightarrow> bool" where
  "callback_inv evs s \<longleftrightarrow>
     (\<forall>d. sc_deadline (cb_scope s) = Some d \<longrightarrow> (\<exists>t. began t evs \<and> d = t + commitSettlementTimeout)) \<and>
     (case cb_phase s of
        Waiting t \<Rightarrow> find context_end evs = None
      | Unwinding \<Rightarrow> True
      | Expired cause fires active \<Rightarrow>
          (case find context_end evs of None \<Rightarrow> False | Some ev \<Rightarrow> \<not> parent_end ev) \<and>
          (if active then \<exists>t. began t evs \<and> t + commitSettlementTimeout \<le> fires
           else \<exists>t. grace_from t evs \<and> t + 100000000 \<le> fires))"

lemma run_callback_snoc:
  "run_callback (evs @ [ev]) s = (case run_callback evs s of Inl s' \<Rightarrow> callback_step ev s' | Inr r \<Rightarrow> Inr r)"
  by (induction evs arbitrary: s) (simp_all split: sum.split)

lemma began_more: "began t evs \<Longrightarrow> began t (evs @ [ev])"
  by (simp add: began_def)

lemma grace_more: "grace_from t evs \<Longrightarrow> grace_from t (evs @ [ev])"
  by (auto simp: grace_from_def)

lemma expire_inv:
  assumes inv: "\<forall>d. sc_deadline (cb_scope s) = Some d \<longrightarrow> (\<exists>t. began t evs \<and> d = t + commitSettlementTimeout)"
    and first: "case find context_end evs of None \<Rightarrow> False | Some ev \<Rightarrow> \<not> parent_end ev" and grace: "grace_from now evs"
  shows "callback_inv evs (expire cause now s)"
proof (cases "sc_deadline (cb_scope s)")
  case None
  then show ?thesis using first grace by (auto simp: callback_inv_def expire_def scope_remaining_def)
next
  case (Some d)
  then obtain t where "began t evs" "d = t + commitSettlementTimeout" using inv by blast
  then show ?thesis using Some first by (auto simp: callback_inv_def expire_def scope_remaining_def max_def)
qed

text \<open>Every recorded deadline stays justified when one more event is known.\<close>

definition deadline_known :: "callback_event list \<Rightarrow> callback_state \<Rightarrow> bool" where
  "deadline_known evs s \<longleftrightarrow> (\<forall>d. sc_deadline (cb_scope s) = Some d \<longrightarrow> (\<exists>t. began t evs \<and> d = t + commitSettlementTimeout))"

lemma deadline_more: "callback_inv evs s \<Longrightarrow> deadline_known (evs @ [ev]) s"
  using began_more unfolding callback_inv_def deadline_known_def by blast

lemma callback_keep:
  assumes inv: "callback_inv evs s" and same: "\<not> context_end ev" "cb_phase s1 = cb_phase s"
    and deadline: "sc_deadline (cb_scope s1) = sc_deadline (cb_scope s) \<or> sc_deadline (cb_scope s1) = None \<or>
      (\<exists>t. ev = CommitBegins t \<and> sc_deadline (cb_scope s1) = Some (t + commitSettlementTimeout))"
  shows "callback_inv (evs @ [ev]) s1"
proof -
  have "\<forall>d. sc_deadline (cb_scope s1) = Some d \<longrightarrow> (\<exists>t. began t (evs @ [ev]) \<and> d = t + commitSettlementTimeout)"
    using deadline deadline_more [OF inv, of ev] by (auto simp: began_def deadline_known_def)
  moreover have "find context_end (evs @ [ev]) = find context_end evs" using same(1) by (simp add: find_append split: option.split)
  ultimately show ?thesis
    using inv same(2) unfolding callback_inv_def
    by (auto split: callback_phase.splits if_splits option.splits intro: began_more grace_more)
qed

lemma scope_changed_inv:
  assumes inv: "callback_inv evs s" and step: "callback_step (ScopeChanged now) s = Inl s'"
  shows "callback_inv (evs @ [ScopeChanged now]) s'"
proof -
  let ?ev = "ScopeChanged now"
  let ?evs = "evs @ [?ev]"
  note deadline = deadline_more [OF inv, of ?ev, unfolded deadline_known_def] and keep = callback_keep [OF inv, of ?ev]
  show ?thesis
  proof (cases "sc_changed (cb_scope s)")
    case False
    then have "s' = s" using step by (simp add: callback_step_def)
    then show ?thesis by (intro keep) (simp_all add: context_end_def)
  next
    case True
    have same: "find context_end ?evs = find context_end evs"
      by (simp add: context_end_def find_append split: option.split)
    show ?thesis
    proof (cases "cb_phase s")
      case (Waiting t)
      then have "find context_end ?evs = None" using inv same by (simp add: callback_inv_def)
      then show ?thesis
        using step True Waiting deadline
        by (auto simp: callback_step_def Let_def callback_inv_def split: prod.splits)
    next
      case Unwinding
      then have "s' = s" using step True by (simp add: callback_step_def Let_def)
      then show ?thesis by (intro keep) (simp_all add: context_end_def)
    next
      case (Expired cause fires active)
      have "s' = expire cause now (s\<lparr>cb_scope := (cb_scope s)\<lparr>sc_changed := False\<rparr>\<rparr>)"
        using step True Expired by (simp add: callback_step_def Let_def)
      moreover have "case find context_end ?evs of None \<Rightarrow> False | Some ev \<Rightarrow> \<not> parent_end ev"
        unfolding same using inv Expired by (simp add: callback_inv_def)
      ultimately show ?thesis using deadline by (auto intro!: expire_inv simp: grace_from_def)
    qed
  qed
qed

lemma context_ends_inv:
  assumes inv: "callback_inv evs s" and step: "callback_step (ContextEnds cause now parentEnded) s = Inl s'"
  shows "callback_inv (evs @ [ContextEnds cause now parentEnded]) s'"
proof -
  let ?ev = "ContextEnds cause now parentEnded"
  let ?evs = "evs @ [?ev]"
  note deadline = deadline_more [OF inv, of ?ev, unfolded deadline_known_def]
  show ?thesis
  proof (cases "cb_phase s")
    case (Waiting t)
    then have "find context_end evs = None" using inv by (simp add: callback_inv_def)
    then have first: "find context_end ?evs = Some ?ev"
      by (simp add: context_end_def find_append)
    show ?thesis
    proof (cases parentEnded)
      case True
      then have "s' = s\<lparr>cb_phase := Unwinding, cb_ended := True\<rparr>" using step Waiting by (simp add: callback_step_def)
      then show ?thesis using deadline by (simp add: callback_inv_def)
    next
      case False
      then have "s' = expire cause now s" using step Waiting by (simp add: callback_step_def)
      moreover have "callback_inv ?evs (expire cause now s)"
        by (rule expire_inv [OF deadline]) (simp_all only: first option.case, auto simp: False parent_end_def grace_from_def)
      ultimately show ?thesis by simp
    qed
  next
    case Unwinding
    then have "s' = s" using step by (simp add: callback_step_def)
    then show ?thesis using Unwinding deadline by (simp add: callback_inv_def)
  next
    case (Expired cause' fires active)
    then have s': "s' = s" using step by (simp add: callback_step_def)
    have "find context_end ?evs = find context_end evs"
      using inv Expired by (auto simp: callback_inv_def find_append split: option.splits)
    then show ?thesis using inv Expired deadline
      unfolding s' callback_inv_def by (cases active) (simp_all, (blast intro: began_more grace_more)+)
  qed
qed

lemma callback_step_inv:
  assumes inv: "callback_inv evs s" and step: "callback_step ev s = Inl s'"
  shows "callback_inv (evs @ [ev]) s'"
proof -
  let ?evs = "evs @ [ev]"
  note deadline = deadline_more [OF inv, of ev, unfolded deadline_known_def]
  note keep = callback_keep [OF inv, of ev]
  show ?thesis
  proof (cases ev)
    case (CommitBegins t)
    then have "s' = s\<lparr>cb_scope := fst (scope_begin t (cb_ended s) (cb_scope s))\<rparr>" using step by (simp add: callback_step_def)
    then show ?thesis by (intro keep) (simp_all add: CommitBegins context_end_def scope_begin_def scope_notify_def)
  next
    case CommitEnds
    then have "s' = s\<lparr>cb_scope := scope_end (cb_scope s)\<rparr>" using step by (simp add: callback_step_def)
    then show ?thesis by (intro keep) (simp_all add: CommitEnds context_end_def scope_end_def scope_notify_def)
  next
    case (CallbackReturns err b)
    then show ?thesis using step by (simp add: callback_step_def split: callback_phase.splits)
  next
    case (ScopeChanged now)
    then show ?thesis using scope_changed_inv inv step by blast
  next
    case (SettlementFires now)
    have same: "find context_end ?evs = find context_end evs"
      by (simp add: SettlementFires context_end_def find_append split: option.split)
    have "s' = s \<or> (\<exists>t. cb_phase s = Waiting t) \<and> s' = s\<lparr>cb_phase := Waiting None\<rparr>"
      using step by (auto simp: SettlementFires callback_step_def split: callback_phase.splits option.splits if_splits prod.splits)
    then show ?thesis
    proof
      assume "s' = s"
      then show ?thesis by (intro keep) (simp_all add: SettlementFires context_end_def)
    next
      assume "(\<exists>t. cb_phase s = Waiting t) \<and> s' = s\<lparr>cb_phase := Waiting None\<rparr>"
      then show ?thesis using inv deadline by (auto simp: callback_inv_def same)
    qed
  next
    case (ContextEnds cause now parentEnded)
    then show ?thesis using context_ends_inv inv step by blast
  next
    case (TimerFires now)
    have "s' = s" using step by (auto simp: TimerFires callback_step_def split: callback_phase.splits if_splits)
    then show ?thesis by (intro keep) (simp_all add: TimerFires context_end_def)
  qed
qed

lemma run_callback_inv: "run_callback evs fresh_callback = Inl s \<Longrightarrow> callback_inv evs s"
proof (induction evs arbitrary: s rule: rev_induct)
  case Nil
  then show ?case by (auto simp: callback_inv_def fresh_callback_def)
next
  case (snoc ev evs)
  then show ?case by (auto simp: run_callback_snoc intro: callback_step_inv split: sum.splits)
qed

section \<open>Properties\<close>



section \<open>Counting a failure\<close>

text \<open>Callbacks and reports do not return the supervisor's own \<open>reportedRunError\<close>.\<close>

definition clean_turn :: "run_turn \<Rightarrow> bool" where
  "clean_turn t \<longleftrightarrow> \<not> runFailureWasReported (tu_result t) \<and> \<not> runFailureWasReported (tu_report t)"

definition failure_of :: "run_error \<Rightarrow> RunFrame list \<Rightarrow> bool" where
  "failure_of e reports \<longleftrightarrow> reports \<noteq> [] \<and> rf_Status (last reports) = ''failure'' \<and>
     (\<exists>fallback. rf_Error (last reports) = boundedOperationalError (Error_text e) fallback)"

lemma reported_self [simp]: "runFailureWasReported (Some (reportedRunError e))"
  by (simp add: runFailureWasReported_def)

lemma reported_plain [simp]: "\<not> runFailureWasReported (Some (Plain s))"
  by (simp add: runFailureWasReported_def)

lemma failure_of_Cons: "failure_of e reports \<Longrightarrow> failure_of e (f # reports)"
  by (simp add: failure_of_def)

lemma polling_end:
  assumes "run_polling gen once ts = (reports, Some (Some e))" "list_all clean_turn ts"
  shows "(\<exists>e'. e = reportedRunError e' \<and> failure_of e' reports) \<or> \<not> runFailureWasReported (Some e)"
  using assms
proof (induction ts arbitrary: reports)
  case (Cons t ts)
  have clean: "\<not> runFailureWasReported (tu_result t)" "\<not> runFailureWasReported (tu_report t)" "list_all clean_turn ts"
    using Cons.prems(2) by (auto simp: clean_turn_def list_all_iff)
  consider (ended) "tu_ended t" "tu_result t = Some e"
    | (report) "tu_report t = Some e"
    | (fatal) e' where "tu_result t = Some e'" "\<not> deferred_run e'" "e = reportedRunError e'" "reports = [poll_outcome gen t]"
    | (on) reports' where "run_polling gen once ts = (reports', Some (Some e))" "reports = poll_outcome gen t # reports'"
    using Cons.prems(1) by (auto simp: Let_def split: if_splits option.splits prod.splits)
  then show ?case
  proof cases
    case fatal
    then have "failure_of e' reports" by (auto simp: failure_of_def poll_outcome_def run_frame_def)
    then show ?thesis using fatal(3) by blast
  next
    case on
    from Cons.IH [OF on(1) clean(3)] show ?thesis using on(2) by (auto intro: failure_of_Cons)
  qed (use clean in simp_all)
qed simp

lemma plan_end:
  assumes "runPlan kind gen once turns = (reports, Some (Some e))" "list_all clean_turn turns"
  shows "(\<exists>e'. e = reportedRunError e' \<and> failure_of e' reports) \<or> \<not> runFailureWasReported (Some e)"
proof (cases "kind = planContinuous")
  case False
  then show ?thesis using assms by (simp add: runPlan_def polling_end)
next
  case True
  then obtain t ts where turns: "turns = t # ts" using assms(1) by (cases turns) (simp_all add: runPlan_def)
  have clean: "\<not> runFailureWasReported (tu_result t)" "\<not> runFailureWasReported (tu_report t)"
    using assms(2) by (simp_all add: turns clean_turn_def)
  have run: "run_continuous gen t = (reports, Some e)"
    using assms(1) True by (auto simp: runPlan_def turns split: prod.splits)
  show ?thesis
    using run clean
    by (auto simp: run_continuous_def Let_def failure_of_def run_frame_def split: option.splits if_splits)
qed


definition sample_panic :: run_turn where
  "sample_panic = \<lparr>tu_result = Some (callbackPanicError ''boom''), tu_ended = False, tu_duration = 5, tu_report = None, tu_stopped = False\<rparr>"


end
