(* ===== verification/SolanaClient.thy ===== *)
theory SolanaClient
  imports EvmClient
begin

text \<open>
  \<open>catalog/quicknode/solana\<close>: \<open>types.go\<close>, \<open>client.go\<close>, \<open>rpc.go\<close>, \<open>subscription.go\<close> and
  \<open>metadata.go\<close>: commitments, slots and keys, the read operations with what they refuse and the
  parameters they send, the subscriptions, and the metadata of a token.

  The JSON-RPC transport is the record \<open>solana_provider\<close>: \<open>sv_call\<close> is \<open>CallRead\<close> up to the raw
  result, the fields after it are the JSON decoders of the result types; base58 and Ed25519 are
  third-party packages and parameters too.  Commitments, keys, signatures and hashes are strings, as
  in the source.
\<close>

section \<open>Commitments, slots and keys\<close>

definition Processed :: string where "Processed = ''processed''"
definition Confirmed :: string where "Confirmed = ''confirmed''"
definition Finalized :: string where "Finalized = ''finalized''"

definition Commitment_Validate :: "string \<Rightarrow> evm_error option" where
  "Commitment_Validate c =
     (if c = Processed \<or> c = Confirmed \<or> c = Finalized then None
      else Some (EvmError (Errorf ''solana commitment is invalid'')))"

definition ParseCommitment :: "string \<Rightarrow> string evm" where
  "ParseCommitment value = check (Commitment_Validate value) (Inr value)"

text \<open>\<open>strconv.ParseUint(value, 10, 64)\<close>.\<close>

definition parse_uint_dec :: "string \<Rightarrow> uint64 option" where
  "parse_uint_dec s =
     (if s = [] \<or> \<not> list_all is_digit s then None
      else let n = foldl atoi_step 0 s in if n < 2 ^ 64 then Some (of_nat n) else None)"

definition ParseSlot :: "string \<Rightarrow> uint64 evm" where
  "ParseSlot value =
     (case parse_uint_dec value of
        None \<Rightarrow> fails ''solana slot must be an unsigned decimal integer''
      | Some n \<Rightarrow> Inr n)"

text \<open>\<open>decode\<close> is \<open>base58.Decode\<close>.\<close>

definition validateBase58Size :: "(string \<Rightarrow> string option) \<Rightarrow> string \<Rightarrow> nat \<Rightarrow> evm_error option" where
  "validateBase58Size decode value want =
     (case decode value of
        None \<Rightarrow> Some (EvmError (Errorf ''contains invalid base58''))
      | Some decoded \<Rightarrow>
          if length decoded \<noteq> want then Some (EvmError (Errorf ''must encode exactly the size in bytes'')) else None)"

definition ParsePublicKey :: "(string \<Rightarrow> string option) \<Rightarrow> string \<Rightarrow> string evm" where
  "ParsePublicKey decode value = check (validateBase58Size decode value 32) (Inr value)"

definition ParseSignature :: "(string \<Rightarrow> string option) \<Rightarrow> string \<Rightarrow> string evm" where
  "ParseSignature decode value = check (validateBase58Size decode value 64) (Inr value)"

definition ParseGenesisHash :: "(string \<Rightarrow> string option) \<Rightarrow> string \<Rightarrow> string evm" where
  "ParseGenesisHash decode value = check (validateBase58Size decode value 32) (Inr value)"

definition PublicKey_Validate :: "(string \<Rightarrow> string option) \<Rightarrow> string \<Rightarrow> evm_error option" where
  "PublicKey_Validate decode p = bad (ParsePublicKey decode p)"

definition Signature_Validate :: "(string \<Rightarrow> string option) \<Rightarrow> string \<Rightarrow> evm_error option" where
  "Signature_Validate decode s = bad (ParseSignature decode s)"

definition GenesisHash_Validate :: "(string \<Rightarrow> string option) \<Rightarrow> string \<Rightarrow> evm_error option" where
  "GenesisHash_Validate decode h = bad (ParseGenesisHash decode h)"

text \<open>The four \<open>UnmarshalJSON\<close> methods: \<open>text\<close> is the JSON string, if the data is one.\<close>

definition unmarshal_text :: "(string \<Rightarrow> string evm) \<Rightarrow> string option \<Rightarrow> string evm" where
  "unmarshal_text parse data =
     (case data of None \<Rightarrow> fails ''json: cannot unmarshal into a string'' | Some value \<Rightarrow> parse value)"

definition Commitment_UnmarshalJSON :: "string option \<Rightarrow> string evm" where
  "Commitment_UnmarshalJSON = unmarshal_text ParseCommitment"

definition PublicKey_UnmarshalJSON :: "(string \<Rightarrow> string option) \<Rightarrow> string option \<Rightarrow> string evm" where
  "PublicKey_UnmarshalJSON decode = unmarshal_text (ParsePublicKey decode)"

definition Signature_UnmarshalJSON :: "(string \<Rightarrow> string option) \<Rightarrow> string option \<Rightarrow> string evm" where
  "Signature_UnmarshalJSON decode = unmarshal_text (ParseSignature decode)"

definition GenesisHash_UnmarshalJSON :: "(string \<Rightarrow> string option) \<Rightarrow> string option \<Rightarrow> string evm" where
  "GenesisHash_UnmarshalJSON decode = unmarshal_text (ParseGenesisHash decode)"

section \<open>Records and options\<close>

record BlockOptions =
  bo_Commitment :: string
  bo_TransactionDetails :: string
  bo_Rewards :: "bool option"
  bo_MaxSupportedTransactionVersion :: "8 word option"

record TransactionOptions =
  to_Commitment :: string
  to_MaxSupportedTransactionVersion :: "8 word option"

record SignaturesOptions =
  so_Commitment :: string
  so_Before :: string
  so_Until :: string
  so_Limit :: int
  so_MinContextSlot :: "uint64 option"

record SignatureInfo =
  si_Signature :: string
  si_Slot :: uint64
  si_Err :: string
  si_Memo :: "string option"
  si_BlockTime :: "int option"
  si_ConfirmationStatus :: "string option"

record AddressTransaction =
  at_Slot :: uint64
  at_TransactionIndex :: uint64
  at_Err :: string
  at_Memo :: "string option"
  at_BlockTime :: "int option"
  at_Transaction :: string
  at_Meta :: string
  at_Version :: string

record AddressTransactionsOptions =
  ao_Commitment :: string
  ao_FromSlot :: uint64
  ao_PaginationToken :: string
  ao_Limit :: int
  ao_Ascending :: bool

record AddressTransactionsPage =
  ap_Data :: "AddressTransaction list"
  ap_PaginationToken :: string

record DataSlice =
  ds_Offset :: uint64
  ds_Length :: uint64

record AccountOptions =
  aco_Commitment :: string
  aco_Encoding :: string
  aco_DataSlice :: "DataSlice option"
  aco_MinContextSlot :: "uint64 option"

record AccountInfo =
  ai_Slot :: uint64
  ai_Value :: string

record ProgramAccountsOptions =
  po_Commitment :: string
  po_Encoding :: string
  po_DataSlice :: "DataSlice option"
  po_MinContextSlot :: "uint64 option"
  po_Filters :: "string list"

record ProgramAccount =
  pa_PublicKey :: string
  pa_Account :: string

section \<open>The client\<close>

text \<open>A parameter of a call before it is encoded; an object is its entries, in any order.\<close>

datatype rpc_value =
    VText string
  | VNumber int
  | VFlag bool
  | VRaw string
  | VList "rpc_value list"
  | VObject "(string \<times> rpc_value) list"

abbreviation VSlot :: "uint64 \<Rightarrow> rpc_value" where "VSlot n \<equiv> VNumber (uint n)"

record 'w solana_provider =
  sv_commitment :: string
  sv_genesis :: string
  sv_call :: "string \<Rightarrow> rpc_value list \<Rightarrow> 'w \<Rightarrow> 'w \<times> string evm"
  sv_base58 :: "string \<Rightarrow> string option"
  sv_text :: "string \<Rightarrow> string option"
  sv_slot :: "string \<Rightarrow> uint64 option"
  sv_signatures :: "string \<Rightarrow> SignatureInfo list option"
  sv_page :: "string \<Rightarrow> AddressTransactionsPage option"
  sv_account :: "string \<Rightarrow> AccountInfo option"
  sv_programs :: "string \<Rightarrow> ProgramAccount list option"
  sv_transaction :: "string \<Rightarrow> string list option"
  sv_compact :: "string \<Rightarrow> string option"

definition sol_call :: "'w solana_provider \<Rightarrow> (string \<Rightarrow> 'a option) \<Rightarrow> string \<Rightarrow> rpc_value list \<Rightarrow> 'w \<Rightarrow> 'w \<times> 'a evm" where
  "sol_call P decode method params w =
     and_then (sv_call P method params w) (\<lambda>raw w.
       (w, case decode raw of None \<Rightarrow> fails ''quicknode: invalid JSON-RPC result'' | Some v \<Rightarrow> Inr v))"

text \<open>
  \<open>Open\<close>: the commitment, the transport, which \<open>dial\<close> opens, and the cluster handshake; the client is
  here the provider with the commitment and the genesis hash.
\<close>

definition SolanaOpen ::
    "(string \<Rightarrow> string option) \<Rightarrow> ('w \<Rightarrow> 'w \<times> 'w solana_provider evm) \<Rightarrow> string \<Rightarrow> string \<Rightarrow> 'w \<Rightarrow>
     'w \<times> 'w solana_provider evm" where
  "SolanaOpen base58 dial configured expected w =
     (let commitment = (if configured = '''' then Finalized else configured) in
      case Commitment_Validate commitment of
        Some e \<Rightarrow> (w, Inl e)
      | None \<Rightarrow> (case (if expected \<noteq> '''' then GenesisHash_Validate base58 expected else None) of
          Some e \<Rightarrow> (w, Inl e)
        | None \<Rightarrow> and_then (dial w) (\<lambda>P w. and_then (sv_call P ''getGenesisHash'' [] w) (\<lambda>raw w.
            (w, on_ok (GenesisHash_UnmarshalJSON (sv_base58 P) (sv_text P raw)) (\<lambda>genesis.
               if expected \<noteq> '''' \<and> genesis \<noteq> expected then fails ''quicknode solana cluster handshake''
               else Inr (P\<lparr>sv_commitment := commitment, sv_genesis := genesis\<rparr>)))))))"

definition selectCommitment :: "'w solana_provider \<Rightarrow> string \<Rightarrow> string evm" where
  "selectCommitment P value =
     (if value = '''' then Inr (sv_commitment P) else check (Commitment_Validate value) (Inr value))"

section \<open>Reads\<close>

definition transactionVersion :: "8 word option \<Rightarrow> 8 word" where
  "transactionVersion configured = (case configured of None \<Rightarrow> 0 | Some v \<Rightarrow> v)"

definition param_field :: "string \<Rightarrow> ('a \<Rightarrow> rpc_value) \<Rightarrow> 'a option \<Rightarrow> (string \<times> rpc_value) list" where
  "param_field name f v = (case v of None \<Rightarrow> [] | Some x \<Rightarrow> [(name, f x)])"

text \<open>The commitment of a read that \<open>processed\<close> is not offered for.\<close>

definition settled_commitment :: "'w solana_provider \<Rightarrow> string \<Rightarrow> string \<Rightarrow> string evm" where
  "settled_commitment P value refusal =
     on_ok (selectCommitment P value) (\<lambda>c. if c = Processed then fails refusal else Inr c)"

definition GetSlot :: "'w solana_provider \<Rightarrow> 'w \<Rightarrow> 'w \<times> uint64 evm" where
  "GetSlot P w = sol_call P (sv_slot P) ''getSlot'' [VObject [(''commitment'', VText (sv_commitment P))]] w"

definition GetBlock :: "'w solana_provider \<Rightarrow> uint64 \<Rightarrow> BlockOptions \<Rightarrow> 'w \<Rightarrow> 'w \<times> string evm" where
  "GetBlock P slot opts w =
     (case settled_commitment P (bo_Commitment opts) ''solana getBlock does not support processed commitment'' of
        Inl e \<Rightarrow> (w, Inl e)
      | Inr commitment \<Rightarrow>
          let details = (if bo_TransactionDetails opts = '''' then ''full'' else bo_TransactionDetails opts) in
          if details \<notin> {''full'', ''accounts'', ''signatures'', ''none''}
          then (w, fails ''solana block transaction details are invalid'')
          else sv_call P ''getBlock'' [VSlot slot, VObject (
            [(''commitment'', VText commitment), (''encoding'', VText ''json''), (''transactionDetails'', VText details)] @
            param_field ''rewards'' VFlag (bo_Rewards opts) @
            [(''maxSupportedTransactionVersion'', VNumber (uint (transactionVersion (bo_MaxSupportedTransactionVersion opts))))])] w)"

definition GetTransaction :: "'w solana_provider \<Rightarrow> string \<Rightarrow> TransactionOptions \<Rightarrow> 'w \<Rightarrow> 'w \<times> string evm" where
  "GetTransaction P signature opts w =
     (case check (Signature_Validate (sv_base58 P) signature)
         (settled_commitment P (to_Commitment opts) ''solana getTransaction does not support processed commitment'') of
        Inl e \<Rightarrow> (w, Inl e)
      | Inr commitment \<Rightarrow> sv_call P ''getTransaction'' [VText signature, VObject
          [(''commitment'', VText commitment), (''encoding'', VText ''json''),
           (''maxSupportedTransactionVersion'', VNumber (uint (transactionVersion (to_MaxSupportedTransactionVersion opts))))]] w)"

text \<open>A field that names a signature when it is not empty.\<close>

definition signature_field ::
    "'w solana_provider \<Rightarrow> string \<Rightarrow> string \<Rightarrow> ((string \<times> rpc_value) list) evm" where
  "signature_field P name signature =
     (if signature = '''' then Inr []
      else check (Signature_Validate (sv_base58 P) signature) (Inr [(name, VText signature)]))"

definition signatures_config :: "'w solana_provider \<Rightarrow> string \<Rightarrow> SignaturesOptions \<Rightarrow> rpc_value evm" where
  "signatures_config P address opts =
     check (PublicKey_Validate (sv_base58 P) address) (
     on_ok (selectCommitment P (so_Commitment opts)) (\<lambda>commitment.
     on_ok (signature_field P ''before'' (so_Before opts)) (\<lambda>before.
     on_ok (signature_field P ''until'' (so_Until opts)) (\<lambda>until.
     if so_Limit opts \<noteq> 0 \<and> (so_Limit opts < 1 \<or> so_Limit opts > 1000)
     then fails ''solana signatures limit must be between 1 and 1000''
     else Inr (VObject ([(''commitment'', VText commitment)] @ before @ until @
       (if so_Limit opts \<noteq> 0 then [(''limit'', VNumber (so_Limit opts))] else []) @
       param_field ''minContextSlot'' VSlot (so_MinContextSlot opts)))))))"

definition GetSignaturesForAddress ::
    "'w solana_provider \<Rightarrow> string \<Rightarrow> SignaturesOptions \<Rightarrow> 'w \<Rightarrow> 'w \<times> SignatureInfo list evm" where
  "GetSignaturesForAddress P address opts w =
     (case signatures_config P address opts of
        Inl e \<Rightarrow> (w, Inl e)
      | Inr config \<Rightarrow> sol_call P (sv_signatures P) ''getSignaturesForAddress'' [VText address, config] w)"

definition history_config :: "'w solana_provider \<Rightarrow> string \<Rightarrow> AddressTransactionsOptions \<Rightarrow> rpc_value evm" where
  "history_config P address opts =
     check (PublicKey_Validate (sv_base58 P) address) (
     on_ok (settled_commitment P (ao_Commitment opts) ''solana address history does not support processed commitment'') (\<lambda>commitment.
     let limit = (if ao_Limit opts = 0 then 100 else ao_Limit opts) in
     if limit < 1 \<or> limit > 1000 then fails ''solana address transaction limit must be between 1 and 1000''
     else Inr (VObject (
       [(''commitment'', VText commitment), (''encoding'', VText ''json''), (''limit'', VNumber limit),
        (''maxSupportedTransactionVersion'', VNumber 0), (''transactionDetails'', VText ''full'')] @
       (if ao_Ascending opts then [(''sortOrder'', VText ''asc'')] else []) @
       (if ao_FromSlot opts \<noteq> 0
        then [(''filters'', VObject [(''slot'', VObject [(''gte'', VSlot (ao_FromSlot opts))])])] else []) @
       (if ao_PaginationToken opts \<noteq> '''' then [(''paginationToken'', VText (ao_PaginationToken opts))] else [])))))"

definition GetTransactionsForAddress ::
    "'w solana_provider \<Rightarrow> string \<Rightarrow> AddressTransactionsOptions \<Rightarrow> 'w \<Rightarrow> 'w \<times> AddressTransactionsPage evm" where
  "GetTransactionsForAddress P address opts w =
     (case history_config P address opts of
        Inl e \<Rightarrow> (w, Inl e)
      | Inr config \<Rightarrow> sol_call P (sv_page P) ''getTransactionsForAddress'' [VText address, config] w)"

definition Encoding_validate :: "string \<Rightarrow> evm_error option" where
  "Encoding_validate e =
     (if e \<in> {''base58'', ''base64'', ''base64+zstd'', ''binary'', ''jsonParsed''} then None
      else Some (EvmError (Errorf ''solana account encoding is invalid'')))"

definition accountConfig :: "'w solana_provider \<Rightarrow> AccountOptions \<Rightarrow> ((string \<times> rpc_value) list) evm" where
  "accountConfig P opts =
     on_ok (selectCommitment P (aco_Commitment opts)) (\<lambda>commitment.
     let encoding = (if aco_Encoding opts = '''' then ''base64'' else aco_Encoding opts) in
     check (Encoding_validate encoding) (Inr (
       [(''commitment'', VText commitment), (''encoding'', VText encoding)] @
       param_field ''dataSlice'' (\<lambda>d. VObject [(''offset'', VSlot (ds_Offset d)), (''length'', VSlot (ds_Length d))])
         (aco_DataSlice opts) @
       param_field ''minContextSlot'' VSlot (aco_MinContextSlot opts))))"

definition programAccountsConfig :: "'w solana_provider \<Rightarrow> ProgramAccountsOptions \<Rightarrow> ((string \<times> rpc_value) list) evm" where
  "programAccountsConfig P opts =
     on_ok (accountConfig P \<lparr>aco_Commitment = po_Commitment opts, aco_Encoding = po_Encoding opts,
         aco_DataSlice = po_DataSlice opts, aco_MinContextSlot = po_MinContextSlot opts\<rparr>) (\<lambda>config.
       if length (po_Filters opts) > 0
       then if list_all json_valid (po_Filters opts) then Inr (config @ [(''filters'', VList (map VRaw (po_Filters opts)))])
            else fails ''solana program account filter is invalid JSON''
       else Inr config)"

definition GetAccountInfo :: "'w solana_provider \<Rightarrow> string \<Rightarrow> AccountOptions \<Rightarrow> 'w \<Rightarrow> 'w \<times> AccountInfo evm" where
  "GetAccountInfo P address opts w =
     (case check (PublicKey_Validate (sv_base58 P) address) (accountConfig P opts) of
        Inl e \<Rightarrow> (w, Inl e)
      | Inr config \<Rightarrow> sol_call P (sv_account P) ''getAccountInfo'' [VText address, VObject config] w)"

definition GetProgramAccounts ::
    "'w solana_provider \<Rightarrow> string \<Rightarrow> ProgramAccountsOptions \<Rightarrow> 'w \<Rightarrow> 'w \<times> ProgramAccount list evm" where
  "GetProgramAccounts P program opts w =
     (case check (PublicKey_Validate (sv_base58 P) program) (programAccountsConfig P opts) of
        Inl e \<Rightarrow> (w, Inl e)
      | Inr config \<Rightarrow> sol_call P (sv_programs P) ''getProgramAccounts'' [VText program, VObject config] w)"

text \<open>The first signature of a record's transaction.\<close>

definition AddressTransaction_Signature :: "'w solana_provider \<Rightarrow> AddressTransaction \<Rightarrow> string evm" where
  "AddressTransaction_Signature P t =
     (case sv_transaction P (at_Transaction t) of
        Some (signature # _) \<Rightarrow> Inr signature
      | _ \<Rightarrow> fails ''solana address transaction omitted its signature'')"

text \<open>\<open>json.Marshal\<close> of a \<open>RawMessage\<close>: null for nil, else compacted, if it is valid JSON.\<close>

definition marshal_raw :: "'w solana_provider \<Rightarrow> string \<Rightarrow> string evm" where
  "marshal_raw P raw =
     (if raw = '''' then Inr ''null''
      else case sv_compact P raw of None \<Rightarrow> fails ''json: error calling MarshalJSON'' | Some c \<Rightarrow> Inr c)"

definition AddressTransaction_Payload :: "'w solana_provider \<Rightarrow> AddressTransaction \<Rightarrow> string evm" where
  "AddressTransaction_Payload P t =
     on_ok (marshal_raw P (at_Transaction t)) (\<lambda>transaction.
     on_ok (marshal_raw P (at_Meta t)) (\<lambda>meta.
     on_ok (marshal_raw P (at_Version t)) (\<lambda>version.
     Inr (concat [''{'', [CHR 0x22], ''blockTime'', [CHR 0x22], '':'',
         (case at_BlockTime t of None \<Rightarrow> ''null'' | Some n \<Rightarrow> itoa n), '','',
         [CHR 0x22], ''transaction'', [CHR 0x22], '':'', transaction, '','',
         [CHR 0x22], ''meta'', [CHR 0x22], '':'', meta, '','',
         [CHR 0x22], ''version'', [CHR 0x22], '':'', version, ''}'']))))"

section \<open>Subscriptions\<close>

record SubscriptionSpec =
  sn_SubscribeMethod :: string
  sn_NotificationMethod :: string
  sn_Params :: "rpc_value list"

record LogsFilter =
  lgf_IncludeVotes :: bool
  lgf_Mentions :: string

record LogsValue =
  lv_Signature :: string
  lv_Err :: string
  lv_Logs :: "string list"

record TransactionFilter =
  tf_ExcludeVotes :: bool
  tf_ExcludeFailed :: bool
  tf_Signature :: string
  tf_Include :: "string list"
  tf_Exclude :: "string list"
  tf_Required :: "string list"

record TransactionNotification =
  tn_ContextSlot :: uint64
  tn_Signature :: string
  tn_Slot :: uint64
  tn_Err :: string
  tn_Transaction :: string

definition subscription :: "string \<Rightarrow> string \<Rightarrow> rpc_value list \<Rightarrow> SubscriptionSpec" where
  "subscription subscribe notification params =
     \<lparr>sn_SubscribeMethod = subscribe, sn_NotificationMethod = notification, sn_Params = params\<rparr>"

definition SubscribeSlots :: "SubscriptionSpec evm" where
  "SubscribeSlots = Inr (subscription ''slotSubscribe'' ''slotNotification'' [])"

definition SubscribeLogs :: "'w solana_provider \<Rightarrow> LogsFilter \<Rightarrow> string \<Rightarrow> SubscriptionSpec evm" where
  "SubscribeLogs P f commitment =
     on_ok (selectCommitment P commitment) (\<lambda>selected.
     on_ok (if lgf_Mentions f \<noteq> ''''
            then check (PublicKey_Validate (sv_base58 P) (lgf_Mentions f))
              (Inr (VObject [(''mentions'', VList [VText (lgf_Mentions f)])]))
            else Inr (VText (if lgf_IncludeVotes f then ''allWithVotes'' else ''all''))) (\<lambda>wireFilter.
     Inr (subscription ''logsSubscribe'' ''logsNotification'' [wireFilter, VObject [(''commitment'', VText selected)]])))"

text \<open>
  The account lists of a filter, each validated; an empty list is left out.  Go ranges over the
  three in any order; which error is returned when several addresses are bad is the only difference.
\<close>

fun account_lists :: "'w solana_provider \<Rightarrow> (string \<times> string list) list \<Rightarrow> ((string \<times> rpc_value) list) evm" where
  "account_lists P [] = Inr []"
| "account_lists P ((key, addresses) # rest) =
     check (first_bad (PublicKey_Validate (sv_base58 P)) addresses) (
     on_ok (account_lists P rest) (\<lambda>fields.
     Inr ((if length addresses > 0 then [(key, VList (map VText addresses))] else []) @ fields)))"

definition SubscribeTransactions :: "'w solana_provider \<Rightarrow> TransactionFilter \<Rightarrow> string \<Rightarrow> SubscriptionSpec evm" where
  "SubscribeTransactions P f commitment =
     on_ok (selectCommitment P commitment) (\<lambda>selected.
     on_ok (signature_field P ''signature'' (tf_Signature f)) (\<lambda>signature.
     on_ok (account_lists P [(''include'', tf_Include f), (''exclude'', tf_Exclude f), (''required'', tf_Required f)]) (\<lambda>accounts.
     if tf_Signature f = '''' \<and> length accounts = 0
     then fails ''solana transaction subscription requires a signature or account filter''
     else Inr (subscription ''transactionSubscribe'' ''transactionNotification''
       [VObject ((if tf_ExcludeVotes f then [(''vote'', VFlag False)] else []) @
          (if tf_ExcludeFailed f then [(''failed'', VFlag False)] else []) @ signature @
          (if length accounts > 0 then [(''accounts'', VObject accounts)] else [])),
        VObject [(''commitment'', VText selected), (''encoding'', VText ''json''), (''transactionDetails'', VText ''full''),
          (''showRewards'', VFlag False), (''maxSupportedTransactionVersion'', VNumber 0)]]))))"

definition SubscribeAccount :: "'w solana_provider \<Rightarrow> string \<Rightarrow> AccountOptions \<Rightarrow> SubscriptionSpec evm" where
  "SubscribeAccount P address opts =
     check (PublicKey_Validate (sv_base58 P) address) (
     on_ok (accountConfig P opts) (\<lambda>config.
     Inr (subscription ''accountSubscribe'' ''accountNotification'' [VText address, VObject config])))"

definition SubscribeProgram :: "'w solana_provider \<Rightarrow> string \<Rightarrow> ProgramAccountsOptions \<Rightarrow> SubscriptionSpec evm" where
  "SubscribeProgram P program opts =
     check (PublicKey_Validate (sv_base58 P) program) (
     on_ok (programAccountsConfig P opts) (\<lambda>config.
     Inr (subscription ''programSubscribe'' ''programNotification'' [VText program, VObject config])))"

section \<open>Token metadata\<close>

record TokenMetadata =
  tm_Mint :: string
  tm_Account :: string
  tm_Name :: string
  tm_Symbol :: string
  tm_URI :: string

text \<open>
  The hash and curve of a derived address, and the decoders of the account: \<open>on_curve\<close> tells
  whether 32 bytes are the encoding of an Ed25519 point.
\<close>

record metadata_env =
  me_base58_encode :: "string \<Rightarrow> string"
  me_sha256 :: "string \<Rightarrow> string"
  me_on_curve :: "string \<Rightarrow> bool"
  me_data :: "string \<Rightarrow> string option"
  me_base64 :: "string \<Rightarrow> string option"

definition tokenMetadataProgram :: string where
  "tokenMetadataProgram = ''metaqbxxUerdq28cj1RbAWkYQm3ybzjb6a8bt518x1s''"

definition publicKeyBytes :: "(string \<Rightarrow> string option) \<Rightarrow> string \<Rightarrow> string evm" where
  "publicKeyBytes decode value =
     check (PublicKey_Validate decode value) (Inr (case decode value of None \<Rightarrow> '''' | Some bytes \<Rightarrow> bytes))"

text \<open>The bumps still to try, from 255 down.\<close>

fun derive_address :: "metadata_env \<Rightarrow> string \<Rightarrow> string \<Rightarrow> nat list \<Rightarrow> string evm" where
  "derive_address M program mint [] = fails ''derive Metaplex metadata address''"
| "derive_address M program mint (bump # bumps) =
     (let candidate = me_sha256 M (''metadata'' @ program @ mint @ [char_of bump] @ program @ ''ProgramDerivedAddress'') in
      if me_on_curve M candidate then derive_address M program mint bumps else Inr (me_base58_encode M candidate))"

definition tokenMetadataAddress :: "metadata_env \<Rightarrow> (string \<Rightarrow> string option) \<Rightarrow> string \<Rightarrow> string evm" where
  "tokenMetadataAddress M decode mint =
     on_ok (publicKeyBytes decode tokenMetadataProgram) (\<lambda>program.
     on_ok (publicKeyBytes decode mint) (\<lambda>mintBytes.
     derive_address M program mintBytes (rev [0..<256])))"

text \<open>
  A string with its length in front, four bytes little-endian, and the bytes after it.  A reader at
  its end returns an error even for a string of no bytes.
\<close>

definition le32 :: "string \<Rightarrow> nat" where
  "le32 bs = byte (bs ! 0) + 256 * byte (bs ! 1) + 65536 * byte (bs ! 2) + 16777216 * byte (bs ! 3)"

definition readMetadataString :: "string \<Rightarrow> nat \<Rightarrow> (string \<times> string) evm" where
  "readMetadataString reader maximum =
     (if length reader < 4 then fails ''string length is truncated''
      else let n = le32 reader; rest = drop 4 reader in
        if n > maximum \<or> n > length rest then fails ''string length is invalid''
        else if rest = [] then fails ''EOF''
        else if \<not> utf8_valid (take n rest) then fails ''string is not UTF-8''
        else Inr (take n rest, drop n rest))"

definition cleanTokenMetadata :: "string \<Rightarrow> string" where
  "cleanTokenMetadata value = TrimSpace (rev (dropWhile (\<lambda>c. byte c = 0) (rev value)))"

definition decodeTokenMetadata :: "(string \<Rightarrow> string option) \<Rightarrow> string \<Rightarrow> string \<Rightarrow> (string \<times> string \<times> string) evm" where
  "decodeTokenMetadata decode payload mint =
     (if length payload < 1 + 32 + 32 then fails ''account is truncated''
      else on_ok (publicKeyBytes decode mint) (\<lambda>expectedMint.
        if take 32 (drop 33 payload) \<noteq> expectedMint then fails ''account belongs to another mint''
        else on_ok (readMetadataString (drop 65 payload) 256) (\<lambda>(name, rest).
             on_ok (readMetadataString rest 64) (\<lambda>(symbol, rest).
             on_ok (readMetadataString rest 1024) (\<lambda>(uri, rest).
             Inr (cleanTokenMetadata name, cleanTokenMetadata symbol, cleanTokenMetadata uri))))))"

definition TokenMetadata_read ::
    "metadata_env \<Rightarrow> 'w solana_provider \<Rightarrow> string \<Rightarrow> string \<Rightarrow> 'w \<Rightarrow> 'w \<times> TokenMetadata evm" where
  "TokenMetadata_read M P mint commitment w =
     (case tokenMetadataAddress M (sv_base58 P) mint of
        Inl e \<Rightarrow> (w, Inl e)
      | Inr address \<Rightarrow> and_then (GetAccountInfo P address \<lparr>aco_Commitment = commitment, aco_Encoding = ''base64'',
            aco_DataSlice = None, aco_MinContextSlot = None\<rparr> w) (\<lambda>account w.
          (w, if TrimSpace (ai_Value account) = ''null''
              then Inr \<lparr>tm_Mint = mint, tm_Account = address, tm_Name = '''', tm_Symbol = '''', tm_URI = ''''\<rparr>
              else case me_data M (ai_Value account) of
                None \<Rightarrow> fails ''decode metadata account''
              | Some text \<Rightarrow> (case me_base64 M text of
                  None \<Rightarrow> fails ''decode metadata account''
                | Some payload \<Rightarrow> (case decodeTokenMetadata (sv_base58 P) payload mint of
                    Inl e \<Rightarrow> fails ''decode metadata account''
                  | Inr (name, symbol, uri) \<Rightarrow>
                      Inr \<lparr>tm_Mint = mint, tm_Account = address, tm_Name = name, tm_Symbol = symbol, tm_URI = uri\<rparr>)))))"

section \<open>What the client refuses and what it reads back\<close>

lemma selectCommitment_Inr:
  "selectCommitment P value = Inr c \<Longrightarrow> Commitment_Validate (sv_commitment P) = None \<Longrightarrow> Commitment_Validate c = None"
  by (auto simp: selectCommitment_def outcome_simps split: if_splits)

text \<open>A page of history is only asked for a valid address, at a settled commitment and a limit in range.\<close>

lemma history_config_Inr:
  assumes "history_config P address opts = Inr config"
  shows "PublicKey_Validate (sv_base58 P) address = None \<and> 0 \<le> ao_Limit opts \<and> ao_Limit opts \<le> 1000 \<and>
    ao_Commitment opts \<noteq> Processed"
  using assms
  by (auto simp: history_config_def settled_commitment_def selectCommitment_def outcome_simps Let_def Processed_def
    Confirmed_def split: if_splits)

lemma page_validated:
  assumes "GetTransactionsForAddress P address opts w = (w', Inr page)"
  shows "PublicKey_Validate (sv_base58 P) address = None"
  using assms history_config_Inr [of P address opts]
  by (auto simp: GetTransactionsForAddress_def split: sum.splits)

text \<open>The encoding of a string of an account.\<close>

definition le32_bytes :: "nat \<Rightarrow> string" where
  "le32_bytes n = [char_of (n mod 256), char_of (n div 256 mod 256), char_of (n div 65536 mod 256), char_of (n div 16777216 mod 256)]"

definition metadata_string :: "string \<Rightarrow> string" where
  "metadata_string s = le32_bytes (length s) @ s"

lemma le32_bytes [simp]: "length (le32_bytes n) = 4" "drop 4 (le32_bytes n @ s) = s" "n < 2 ^ 32 \<Longrightarrow> le32 (le32_bytes n @ s) = n"
proof -
  assume n: "n < 2 ^ 32"
  have "n div 65536 = n div 256 div 256" "n div 16777216 = n div 65536 div 256"
    by (simp_all add: div_mult2_eq [symmetric])
  moreover have m: "n div 16777216 mod 256 = n div 16777216" using n by (simp add: less_mult_imp_div_less)
  ultimately have "n mod 256 + 256 * (n div 256 mod 256) + 65536 * (n div 65536 mod 256) + 16777216 * (n div 16777216) = n"
    using div_mult_mod_eq [of n 256] div_mult_mod_eq [of "n div 256" 256] div_mult_mod_eq [of "n div 65536" 256] by linarith
  then show "le32 (le32_bytes n @ s) = n" by (simp add: le32_def le32_bytes_def byte_def m)
qed (simp_all add: le32_bytes_def)

lemma readMetadataString_encoded:
  assumes "length s \<le> maximum" and "maximum < 2 ^ 32" and "utf8_valid s" and "s @ rest \<noteq> []"
  shows "readMetadataString (metadata_string s @ rest) maximum = Inr (s, rest)"
  using assms by (simp add: readMetadataString_def metadata_string_def Let_def)

lemma metadata_roundtrip:
  assumes "decode mint = Some bytes" and "length bytes = 32" and "length header = 33"
    and "length name \<le> 256" and "length symbol \<le> 64" and "length uri \<le> 1024"
    and "utf8_valid name" and "utf8_valid symbol" and "utf8_valid uri" and "rest \<noteq> []"
  shows "decodeTokenMetadata decode
      (header @ bytes @ metadata_string name @ metadata_string symbol @ metadata_string uri @ rest) mint =
    Inr (cleanTokenMetadata name, cleanTokenMetadata symbol, cleanTokenMetadata uri)"
proof -
  have key: "publicKeyBytes decode mint = Inr bytes"
    using assms(1,2) by (simp add: publicKeyBytes_def check_def PublicKey_Validate_def ParsePublicKey_def
      validateBase58Size_def)
  have long: "s @ metadata_string t @ r \<noteq> []" for s t r by (simp add: metadata_string_def le32_bytes_def)
  have reads: "readMetadataString (metadata_string name @ metadata_string symbol @ metadata_string uri @ rest) 256 =
      Inr (name, metadata_string symbol @ metadata_string uri @ rest)"
    "readMetadataString (metadata_string symbol @ metadata_string uri @ rest) 64 = Inr (symbol, metadata_string uri @ rest)"
    "readMetadataString (metadata_string uri @ rest) 1024 = Inr (uri, rest)"
    using assms long by (simp_all add: readMetadataString_encoded)
  show ?thesis using assms(2,3,10) reads by (simp add: decodeTokenMetadata_def key on_ok_def)
qed

text \<open>An account that ends with an empty string is refused.\<close>

lemma empty_string_at_end: "readMetadataString (metadata_string '''') maximum = fails ''EOF''"
  using le32_bytes(3) [of 0 "[]"] by (simp add: readMetadataString_def metadata_string_def Let_def)

end
