(* ===== verification/SolanaEvents.thy ===== *)
theory SolanaEvents
  imports SolanaClient
begin

text \<open>
  \<open>catalog/quicknode/solana/events.go\<close>: the transactions of one address, live from a subscription
  and recovered from the finalized history.  The cursor is the last record of the history that was
  passed, the journal the signatures handled live that the history has not reached, and the hints
  what the subscription already told about a transaction; only the first two are checkpoints.
\<close>

section \<open>Checkpoints and events\<close>

definition addressEventsCursorSource :: string where
  "addressEventsCursorSource = ''quicknode.solana.address-events-cursor''"
definition addressEventsLiveSource :: string where
  "addressEventsLiveSource = ''quicknode.solana.address-events-live''"
definition maxAddressLiveEvents :: nat where "maxAddressLiveEvents = 256"

record AddressEvent =
  av_Signature :: string
  av_Slot :: uint64
  av_Err :: string
  av_Memo :: "string option"
  av_BlockTime :: "int option"
  av_Transaction :: string

definition AddressEvent_ID :: "AddressEvent \<Rightarrow> string" where
  "AddressEvent_ID e = ''solana:transaction:'' @ av_Signature e"

record addressEventsCursor =
  ak_GenesisHash :: string
  ak_Address :: string
  ak_Signature :: string
  ak_Slot :: uint64
  ak_TransactionIndex :: uint64

record addressEventsLiveJournal =
  aj_Signatures :: "string list"

record addressEventHint =
  ah_Matched :: bool
  ah_Handled :: bool
  ah_Event :: AddressEvent

type_synonym hints = "string \<rightharpoonup> addressEventHint"

section \<open>The source\<close>

record AddressEvents =
  ae_Name :: string
  ae_Description :: string
  ae_Address :: string
  ae_ExpectedGenesisHash :: string
  ae_HTTPURL :: string
  ae_WSSURL :: string
  ae_HTTPSecret :: SecretRef
  ae_WSSSecret :: SecretRef
  ae_BackfillFrom :: "uint64 option"
  ae_PollInterval :: int
  ae_LiveCommitment :: string

text \<open>
  \<open>az_handle\<close> and \<open>az_matches\<close> are \<open>Handle\<close> and \<open>MatchLogs\<close>, absent when nil; \<open>az_meta\<close> decodes the
  error and the log messages of a transaction.
\<close>

record ('v, 'w) address_env = "('v, 'w) session_env" +
  az_provider :: "'w solana_provider"
  az_handle :: "(AddressEvent \<Rightarrow> 'w \<Rightarrow> 'w \<times> 'v closure option evm) option"
  az_matches :: "(LogsValue \<Rightarrow> bool) option"
  az_meta :: "string \<Rightarrow> (string \<times> string list) option"
  az_encode_cursor :: "addressEventsCursor \<Rightarrow> string option"
  az_decode_cursor :: "string \<Rightarrow> (addressEventsCursor \<times> bool) option"
  az_encode_live :: "addressEventsLiveJournal \<Rightarrow> string option"
  az_decode_live :: "string \<Rightarrow> (addressEventsLiveJournal \<times> bool) option"

definition AddressEvents_Info :: "AddressEvents \<Rightarrow> Info" where
  "AddressEvents_Info e =
     \<lparr>in_Name = (if ae_Name e = '''' then ''quicknode-solana-address-events'' else ae_Name e),
      in_Description = (if ae_Description e = '''' then ''Live Solana transactions with finalized HTTP recovery''
                        else ae_Description e)\<rparr>"

definition solanaMainnetHTTP :: SecretRef where
  "solanaMainnetHTTP = \<lparr>sr_Group = ''quicknode'', sr_Key = ''solana-mainnet-http-url'', sr_Required = True\<rparr>"

definition solanaMainnetWSS :: SecretRef where
  "solanaMainnetWSS = \<lparr>sr_Group = ''quicknode'', sr_Key = ''solana-mainnet-websocket-url'', sr_Required = True\<rparr>"

definition MainnetGenesisHash :: string where
  "MainnetGenesisHash = ''5eykt4UsFv8P8NJdTREpY1vzqKqZKvdpKuc147dw2N9d''"

definition secretConfigured :: "SecretRef \<Rightarrow> bool" where
  "secretConfigured ref \<longleftrightarrow> sr_Group ref \<noteq> '''' \<or> sr_Key ref \<noteq> ''''"

definition address_httpSecret :: "AddressEvents \<Rightarrow> SecretRef \<times> bool" where
  "address_httpSecret e =
     (if \<not> secretConfigured (ae_HTTPSecret e) then (solanaMainnetHTTP, True) else (ae_HTTPSecret e, False))"

definition AddressEvents_Plan :: "AddressEvents \<Rightarrow> planNode" where
  "AddressEvents_Plan e =
     Continuous True [Some (WithSecrets (
       (if ae_HTTPURL e = '''' then [fst (address_httpSecret e)] else []) @
       (if ae_WSSURL e = ''''
        then (if secretConfigured (ae_WSSSecret e) then [(ae_WSSSecret e)\<lparr>sr_Required := True\<rparr>]
              else if ae_HTTPURL e = '''' \<and> snd (address_httpSecret e) then [solanaMainnetWSS] else [])
        else [])))]"

section \<open>Saving progress\<close>

text \<open>The closure that writes checkpoints in order, stopping at the first error.\<close>

fun save_all :: "(string \<times> string option) list \<Rightarrow> 'v closure" where
  "save_all [] = Return None"
| "save_all ((source, raw) # rest) =
     DoCheckpoint source raw (\<lambda>err. case err of Some e \<Rightarrow> Return (Some e) | None \<Rightarrow> save_all rest)"

definition commitAddressProgress ::
    "('v, 'w) address_env \<Rightarrow> addressEventsCursor \<Rightarrow> addressEventsLiveJournal \<Rightarrow> 'v closure option \<Rightarrow> Session \<Rightarrow> 'w \<Rightarrow>
     Session \<times> 'w \<times> evm_error option" where
  "commitAddressProgress M cursor journal update s w =
     session_commit M (with_update update (save_all
       [(addressEventsCursorSource, az_encode_cursor M cursor), (addressEventsLiveSource, az_encode_live M journal)])) s w"

definition address_loadLive :: "('v, 'w) address_env \<Rightarrow> Session \<Rightarrow> addressEventsLiveJournal evm" where
  "address_loadLive M s =
     (case Session_Checkpoint (az_decode_live M) addressEventsLiveSource s of
        Inl err \<Rightarrow> Inl (EvmError err)
      | Inr found \<Rightarrow>
          let journal = (case found of None \<Rightarrow> \<lparr>aj_Signatures = []\<rparr> | Some j \<Rightarrow> j) in
          if length (aj_Signatures journal) > maxAddressLiveEvents
          then fails ''quicknode solana: live event journal exceeds its bound'' else Inr journal)"

definition history_options :: "uint64 \<Rightarrow> string \<Rightarrow> int \<Rightarrow> bool \<Rightarrow> AddressTransactionsOptions" where
  "history_options from token limit ascending =
     \<lparr>ao_Commitment = Finalized, ao_FromSlot = from, ao_PaginationToken = token, ao_Limit = limit, ao_Ascending = ascending\<rparr>"

text \<open>Where a source without a cursor starts: at its backfill slot, else after the newest finalized record.\<close>

definition first_cursor ::
    "AddressEvents \<Rightarrow> ('v, 'w) address_env \<Rightarrow> 'w \<Rightarrow> 'w \<times> addressEventsCursor evm" where
  "first_cursor e M w =
     (let P = az_provider M;
          cursor = \<lparr>ak_GenesisHash = sv_genesis P, ak_Address = ae_Address e, ak_Signature = '''', ak_Slot = 0,
                    ak_TransactionIndex = 0\<rparr> in
      case ae_BackfillFrom e of
        Some n \<Rightarrow> (w, Inr (if n > 0 then cursor\<lparr>ak_Slot := n - 1\<rparr> else cursor))
      | None \<Rightarrow> and_then (GetTransactionsForAddress P (ae_Address e) (history_options 0 '''' 1 False) w) (\<lambda>latest w.
          case ap_Data latest of
            newest # _ \<Rightarrow> (w, on_ok (AddressTransaction_Signature P newest) (\<lambda>signature.
              Inr (cursor\<lparr>ak_Signature := signature, ak_Slot := at_Slot newest,
                ak_TransactionIndex := at_TransactionIndex newest\<rparr>)))
          | [] \<Rightarrow> and_then (GetSlot P w) (\<lambda>slot w.
              (w, Inr (cursor\<lparr>ak_Slot := slot, ak_TransactionIndex := - 1\<rparr>)))))"

definition address_loadCursor ::
    "AddressEvents \<Rightarrow> ('v, 'w) address_env \<Rightarrow> Session \<Rightarrow> 'w \<Rightarrow> Session \<times> 'w \<times> addressEventsCursor evm" where
  "address_loadCursor e M s w =
     (case Session_Checkpoint (az_decode_cursor M) addressEventsCursorSource s of
        Inl err \<Rightarrow> (s, w, Inl (EvmError err))
      | Inr (Some cursor) \<Rightarrow>
          (s, w, if ak_GenesisHash cursor \<noteq> sv_genesis (az_provider M)
                 then fails ''quicknode solana: cursor genesis hash differs from the endpoint''
                 else if ak_Address cursor \<noteq> ae_Address e
                 then fails ''quicknode solana: cursor address differs from the monitor address''
                 else Inr cursor)
      | Inr None \<Rightarrow> (case first_cursor e M w of
          (w1, Inl err) \<Rightarrow> (s, w1, Inl err)
        | (w1, Inr cursor) \<Rightarrow>
            (case session_commit M (save_all [(addressEventsCursorSource, az_encode_cursor M cursor)]) s w1 of
               (s', w2, Some err) \<Rightarrow> (s', w2, Inl err)
             | (s', w2, None) \<Rightarrow> (s', w2, Inr cursor))))"

section \<open>Live transactions\<close>

definition matchesTransaction :: "('v, 'w) address_env \<Rightarrow> AddressEvent \<Rightarrow> bool evm" where
  "matchesTransaction M event =
     (case az_matches M of
        None \<Rightarrow> Inr True
      | Some match_logs \<Rightarrow> (case az_meta M (av_Transaction event) of
          None \<Rightarrow> fails ''quicknode solana: decode subscribed transaction logs''
        | Some (err, logs) \<Rightarrow> Inr (match_logs \<lparr>lv_Signature = av_Signature event, lv_Err = err, lv_Logs = logs\<rparr>)))"

fun liveSignatureIndex :: "string list \<Rightarrow> string \<Rightarrow> nat option" where
  "liveSignatureIndex [] target = None"
| "liveSignatureIndex (s # ss) target = (if s = target then Some 0 else map_option Suc (liveSignatureIndex ss target))"

definition address_handle :: "('v, 'w) address_env \<Rightarrow> AddressEvent \<Rightarrow> 'w \<Rightarrow> 'w \<times> 'v closure option evm" where
  "address_handle M event w =
     (case az_handle M of None \<Rightarrow> (w, fails ''panic: nil handler'') | Some handle \<Rightarrow> handle event w)"

definition live_event :: "TransactionNotification \<Rightarrow> AddressEvent" where
  "live_event n =
     \<lparr>av_Signature = tn_Signature n, av_Slot = (if tn_Slot n = 0 then tn_ContextSlot n else tn_Slot n), av_Err = tn_Err n,
      av_Memo = None, av_BlockTime = None, av_Transaction = tn_Transaction n\<rparr>"

definition address_handleLive ::
    "('v, 'w) address_env \<Rightarrow> addressEventsCursor \<Rightarrow> addressEventsLiveJournal \<Rightarrow> hints \<Rightarrow> TransactionNotification \<Rightarrow>
     Session \<Rightarrow> 'w \<Rightarrow> addressEventsLiveJournal \<times> hints \<times> Session \<times> 'w \<times> evm_error option" where
  "address_handleLive M cursor journal hs n s w =
     (if tn_Signature n = ''''
      then (journal, hs, s, w, Some (EvmError (Errorf ''quicknode solana: transaction notification omitted its signature'')))
      else if tn_Signature n = ak_Signature cursor \<or> liveSignatureIndex (aj_Signatures journal) (tn_Signature n) \<noteq> None
      then (journal, hs, s, w, None)
      else let event = live_event n in
        case matchesTransaction M event of
          Inl e \<Rightarrow> (journal, hs, s, w, Some e)
        | Inr matched \<Rightarrow>
            let hint = \<lparr>ah_Matched = matched, ah_Handled = False, ah_Event = event\<rparr> in
            if \<not> matched \<or> length (aj_Signatures journal) \<ge> maxAddressLiveEvents
            then (journal, hs(tn_Signature n \<mapsto> hint), s, w, None)
            else (case address_handle M event w of
                (w1, Inl e) \<Rightarrow> (journal, hs, s, w1, Some e)
              | (w1, Inr update) \<Rightarrow>
                  let journal' = journal\<lparr>aj_Signatures := aj_Signatures journal @ [tn_Signature n]\<rparr> in
                  (case session_commit M (with_update update (save_all [(addressEventsLiveSource, az_encode_live M journal')])) s w1 of
                     (s', w2, Some e) \<Rightarrow> (journal, hs, s', w2, Some e)
                   | (s', w2, None) \<Rightarrow>
                       (journal', hs(tn_Signature n \<mapsto> hint\<lparr>ah_Handled := True\<rparr>), s', w2, None))))"

section \<open>Recovery from the history\<close>

record progress =
  pg_cursor :: addressEventsCursor
  pg_journal :: addressEventsLiveJournal
  pg_hints :: hints
  pg_dirty :: bool

definition passed :: "addressEventsCursor \<Rightarrow> AddressTransaction \<Rightarrow> bool" where
  "passed cursor record \<longleftrightarrow>
     at_Slot record < ak_Slot cursor \<or>
     at_Slot record = ak_Slot cursor \<and> at_TransactionIndex record \<le> ak_TransactionIndex cursor"

definition cursor_at ::
    "AddressEvents \<Rightarrow> ('v, 'w) address_env \<Rightarrow> string \<Rightarrow> AddressTransaction \<Rightarrow> addressEventsCursor" where
  "cursor_at e M signature record =
     \<lparr>ak_GenesisHash = sv_genesis (az_provider M), ak_Address = ae_Address e, ak_Signature = signature,
      ak_Slot = at_Slot record, ak_TransactionIndex = at_TransactionIndex record\<rparr>"

definition history_event :: "string \<Rightarrow> AddressTransaction \<Rightarrow> string \<Rightarrow> AddressEvent" where
  "history_event signature record payload =
     \<lparr>av_Signature = signature, av_Slot = at_Slot record, av_Err = at_Err record, av_Memo = at_Memo record,
      av_BlockTime = at_BlockTime record, av_Transaction = payload\<rparr>"

text \<open>The update of a record that is not in the journal, from its hint or from the record.\<close>

definition record_update ::
    "('v, 'w) address_env \<Rightarrow> addressEventHint option \<Rightarrow> string \<Rightarrow> AddressTransaction \<Rightarrow> 'w \<Rightarrow> 'w \<times> 'v closure option evm" where
  "record_update M hinted signature record w =
     (case hinted of
        Some hint \<Rightarrow> if ah_Matched hint \<and> \<not> ah_Handled hint then address_handle M (ah_Event hint) w else (w, Inr None)
      | None \<Rightarrow> (case AddressTransaction_Payload (az_provider M) record of
          Inl e \<Rightarrow> (w, Inl e)
        | Inr payload \<Rightarrow>
            let event = history_event signature record payload in
            (case matchesTransaction M event of
               Inl e \<Rightarrow> (w, Inl e)
             | Inr matched \<Rightarrow> if matched then address_handle M event w else (w, Inr None))))"

definition handle_record ::
    "AddressEvents \<Rightarrow> ('v, 'w) address_env \<Rightarrow> AddressTransaction \<Rightarrow> progress \<Rightarrow> Session \<Rightarrow> 'w \<Rightarrow>
     progress \<times> Session \<times> 'w \<times> evm_error option" where
  "handle_record e M record p s w =
     (case AddressTransaction_Signature (az_provider M) record of
        Inl err \<Rightarrow> (p, s, w, Some err)
      | Inr signature \<Rightarrow>
          let hinted = pg_hints p signature;
              p0 = p\<lparr>pg_hints := (pg_hints p)(signature := None)\<rparr>;
              sigs = aj_Signatures (pg_journal p);
              at_index = liveSignatureIndex sigs signature;
              journal' = (case at_index of None \<Rightarrow> pg_journal p
                | Some k \<Rightarrow> (pg_journal p)\<lparr>aj_Signatures := take k sigs @ drop (Suc k) sigs\<rparr>);
              cursor' = cursor_at e M signature record in
          (case (if at_index = None then record_update M hinted signature record w else (w, Inr None)) of
             (w1, Inl err) \<Rightarrow> (p0, s, w1, Some err)
           | (w1, Inr update) \<Rightarrow>
               if update \<noteq> None \<or> at_index \<noteq> None
               then (case commitAddressProgress M cursor' journal' update s w1 of
                   (s', w2, Some err) \<Rightarrow> (p0, s', w2, Some err)
                 | (s', w2, None) \<Rightarrow> (p0\<lparr>pg_journal := journal', pg_dirty := False, pg_cursor := cursor'\<rparr>, s', w2, None))
               else (p0\<lparr>pg_dirty := True, pg_cursor := cursor'\<rparr>, s, w1, None)))"

fun handle_page ::
    "AddressEvents \<Rightarrow> ('v, 'w) address_env \<Rightarrow> AddressTransaction list \<Rightarrow> progress \<Rightarrow> Session \<Rightarrow> 'w \<Rightarrow>
     progress \<times> Session \<times> 'w \<times> evm_error option" where
  "handle_page e M [] p s w = (p, s, w, None)"
| "handle_page e M (record # records) p s w =
     (if passed (pg_cursor p) record then handle_page e M records p s w
      else case handle_record e M record p s w of
        (p', s', w', Some err) \<Rightarrow> (p', s', w', Some err)
      | (p', s', w', None) \<Rightarrow> handle_page e M records p' s' w')"

text \<open>One turn of the loop over the pages: the token of the next page, or nothing when the history ends.\<close>

definition page_turn ::
    "AddressEvents \<Rightarrow> ('v, 'w) address_env \<Rightarrow> uint64 \<Rightarrow> string \<Rightarrow> progress \<Rightarrow> Session \<Rightarrow> 'w \<Rightarrow>
     progress \<times> Session \<times> 'w \<times> string option evm" where
  "page_turn e M fromSlot token p s w =
     (case GetTransactionsForAddress (az_provider M) (ae_Address e) (history_options fromSlot token 100 True) w of
        (w1, Inl err) \<Rightarrow> (p, s, w1, Inl err)
      | (w1, Inr page) \<Rightarrow> (case handle_page e M (ap_Data page) (p\<lparr>pg_dirty := False\<rparr>) s w1 of
          (p1, s1, w2, Some err) \<Rightarrow> (p1, s1, w2, Inl err)
        | (p1, s1, w2, None) \<Rightarrow>
            (case (if pg_dirty p1 then commitAddressProgress M (pg_cursor p1) (pg_journal p1) None s1 w2 else (s1, w2, None)) of
               (s2, w3, Some err) \<Rightarrow> (p1, s2, w3, Inl err)
             | (s2, w3, None) \<Rightarrow>
                 (p1, s2, w3,
                  if length (ap_Data page) < 100 \<or> ap_PaginationToken page = '''' then Inr None
                  else if ap_PaginationToken page = token
                  then fails ''quicknode solana: address history pagination did not advance''
                  else Inr (Some (ap_PaginationToken page))))))"

text \<open>The loop; a node whose tokens go round keeps it from ending, which is the value \<open>None\<close>.\<close>

partial_function (option) pages ::
    "AddressEvents \<Rightarrow> ('v, 'w) address_env \<Rightarrow> uint64 \<Rightarrow> string \<Rightarrow> progress \<Rightarrow> Session \<Rightarrow> 'w \<Rightarrow>
     (progress \<times> Session \<times> 'w \<times> evm_error option) option" where
  "pages e M fromSlot token p s w =
     (case page_turn e M fromSlot token p s w of
        (p1, s1, w1, r) \<Rightarrow> (case r of
          Inl err \<Rightarrow> Some (p1, s1, w1, Some err)
        | Inr again \<Rightarrow> (case again of
            None \<Rightarrow> Some (p1, s1, w1, None)
          | Some token' \<Rightarrow> pages e M fromSlot token' p1 s1 w1)))"

definition catchUp ::
    "AddressEvents \<Rightarrow> ('v, 'w) address_env \<Rightarrow> progress \<Rightarrow> Session \<Rightarrow> 'w \<Rightarrow>
     (progress \<times> Session \<times> 'w \<times> evm_error option) option" where
  "catchUp e M p s w = pages e M (ak_Slot (pg_cursor p)) '''' p s w"

section \<open>The run\<close>

text \<open>
  What the \<open>select\<close> of the loop receives.  The run goes on while the result is \<open>Inr\<close>; \<open>None\<close> is a
  recovery that does not end.
\<close>

datatype address_input =
    AddressCancelled go_error
  | AddressTick
  | AddressNotified TransactionNotification
  | AddressClosed
  | AddressStreamErr "evm_error option"

definition caught_up :: "(progress \<times> Session \<times> 'w \<times> evm_error option) \<Rightarrow> Session \<times> 'w \<times> progress evm" where
  "caught_up r = (case r of (p, s, w, Some err) \<Rightarrow> (s, w, Inl err) | (p, s, w, None) \<Rightarrow> (s, w, Inr p))"

definition address_step ::
    "AddressEvents \<Rightarrow> ('v, 'w) address_env \<Rightarrow> address_input \<Rightarrow> progress \<Rightarrow> Session \<Rightarrow> 'w \<Rightarrow>
     (Session \<times> 'w \<times> progress evm) option" where
  "address_step e M input p s w =
     (case input of
        AddressCancelled err \<Rightarrow> Some (s, w, Inl (EvmError err))
      | AddressTick \<Rightarrow> map_option caught_up (catchUp e M p s w)
      | AddressNotified n \<Rightarrow> Some (case address_handleLive M (pg_cursor p) (pg_journal p) (pg_hints p) n s w of
          (journal, hs, s', w', Some err) \<Rightarrow> (s', w', Inl err)
        | (journal, hs, s', w', None) \<Rightarrow> (s', w', Inr (p\<lparr>pg_journal := journal, pg_hints := hs\<rparr>)))
      | AddressClosed \<Rightarrow> Some (s, w, fails ''quicknode solana: transaction subscription closed'')
      | AddressStreamErr (Some err) \<Rightarrow> Some (s, w, Inl err)
      | AddressStreamErr None \<Rightarrow> Some (s, w, fails ''quicknode solana: transaction subscription stopped''))"

fun address_loop ::
    "AddressEvents \<Rightarrow> ('v, 'w) address_env \<Rightarrow> address_input list \<Rightarrow> progress \<Rightarrow> Session \<Rightarrow> 'w \<Rightarrow>
     (Session \<times> 'w \<times> progress evm) option" where
  "address_loop e M [] p s w = Some (s, w, Inr p)"
| "address_loop e M (input # inputs) p s w =
     (case address_step e M input p s w of
        None \<Rightarrow> None
      | Some (s', w', Inl err) \<Rightarrow> Some (s', w', Inl err)
      | Some (s', w', Inr p') \<Rightarrow> address_loop e M inputs p' s' w')"

definition poll_interval :: "AddressEvents \<Rightarrow> int" where
  "poll_interval e = (if ae_PollInterval e \<le> 0 then 5 * 1000000000 else ae_PollInterval e)"

text \<open>The endpoints of a run, and whether both are the defaults.\<close>

definition address_endpoints :: "AddressEvents \<Rightarrow> Session \<Rightarrow> (string \<times> string \<times> bool) evm" where
  "address_endpoints e s =
     (let (httpRef, defaultSecret) = address_httpSecret e; defaults = (ae_HTTPURL e = '''' \<and> defaultSecret) in
      on_ok (required_url (ae_HTTPURL e) httpRef s) (\<lambda>httpURL.
      on_ok (if ae_WSSURL e \<noteq> '''' then Inr (ae_WSSURL e)
             else let wssRef = (if \<not> secretConfigured (ae_WSSSecret e) \<and> defaults then solanaMainnetWSS else ae_WSSSecret e) in
               if \<not> secretConfigured wssRef then fails ''quicknode solana: AddressEvents requires WSSURL or WSSSecret''
               else required_url '''' wssRef s) (\<lambda>wssURL.
      Inr (httpURL, wssURL, defaults))))"

definition address_filter :: "AddressEvents \<Rightarrow> TransactionFilter" where
  "address_filter e =
     \<lparr>tf_ExcludeVotes = True, tf_ExcludeFailed = True, tf_Signature = '''', tf_Include = [ae_Address e], tf_Exclude = [],
      tf_Required = []\<rparr>"

text \<open>
  \<open>run\<close> over the transport \<open>dial\<close> opens for the two endpoints; \<open>subscribe\<close> opens the subscription.
\<close>

definition address_opened ::
    "AddressEvents \<Rightarrow> ('v, 'w) address_env \<Rightarrow> (SubscriptionSpec \<Rightarrow> 'w \<Rightarrow> 'w \<times> evm_error option) \<Rightarrow> address_input list \<Rightarrow>
     Session \<Rightarrow> 'w \<Rightarrow> (Session \<times> 'w \<times> progress evm) option" where
  "address_opened e M subscribe inputs s w =
     (case SubscribeTransactions (az_provider M) (address_filter e)
         (if ae_LiveCommitment e = '''' then Confirmed else ae_LiveCommitment e) of
        Inl err \<Rightarrow> Some (s, w, Inl err)
      | Inr spec \<Rightarrow> (case subscribe spec w of
          (w1, Some err) \<Rightarrow> Some (s, w1, Inl err)
        | (w1, None) \<Rightarrow> (case address_loadCursor e M s w1 of
            (s1, w2, Inl err) \<Rightarrow> Some (s1, w2, Inl err)
          | (s1, w2, Inr cursor) \<Rightarrow> (case address_loadLive M s1 of
              Inl err \<Rightarrow> Some (s1, w2, Inl err)
            | Inr journal \<Rightarrow> address_loop e M (AddressTick # inputs)
                \<lparr>pg_cursor = cursor, pg_journal = journal, pg_hints = Map.empty, pg_dirty = False\<rparr> s1 w2))))"

definition address_run ::
    "AddressEvents \<Rightarrow> ('v, 'w) address_env \<Rightarrow> (string \<Rightarrow> string \<Rightarrow> 'w \<Rightarrow> 'w \<times> 'w solana_provider evm) \<Rightarrow>
     (SubscriptionSpec \<Rightarrow> 'w \<Rightarrow> 'w \<times> evm_error option) \<Rightarrow> address_input list \<Rightarrow> Session \<Rightarrow> 'w \<Rightarrow>
     (Session \<times> 'w \<times> progress evm) option" where
  "address_run e M dial subscribe inputs s w =
     (case az_handle M of
        None \<Rightarrow> Some (s, w, fails ''quicknode solana: AddressEvents.Handle is required'')
      | Some _ \<Rightarrow> (case PublicKey_Validate (sv_base58 (az_provider M)) (ae_Address e) of
          Some err \<Rightarrow> Some (s, w, Inl err)
        | None \<Rightarrow> (case address_endpoints e s of
            Inl err \<Rightarrow> Some (s, w, Inl err)
          | Inr (httpURL, wssURL, defaults) \<Rightarrow>
              (case SolanaOpen (sv_base58 (az_provider M)) (dial httpURL wssURL) Finalized
                  (if ae_ExpectedGenesisHash e = '''' \<and> defaults then MainnetGenesisHash else ae_ExpectedGenesisHash e) w of
                 (w1, Inl err) \<Rightarrow> Some (s, w1, Inl err)
               | (w1, Inr P) \<Rightarrow> address_opened e (M\<lparr>az_provider := P\<rparr>) subscribe inputs s w1))))"

end
