(* ===== verification/SolanaTheorems.thy ===== *)
theory SolanaTheorems
  imports SolanaEvents SessionCommits
begin

text \<open>
  What the address source of \<open>SolanaEvents\<close> guarantees: its checkpoints always resume where it
  durably is, a page of the history takes every record once, and the recovery ends when the node's
  pages do.
\<close>

section \<open>Saving checkpoints\<close>

text \<open>An update that leaves the checkpoints of \<open>K\<close> alone.\<close>

definition leaves :: "(Event \<Rightarrow> Event result) \<Rightarrow> string set \<Rightarrow> 'v closure option \<Rightarrow> bool" where
  "leaves clone K u \<longleftrightarrow>
     (\<forall>tx tx'. run_closure clone (with_update u (Return None)) tx = (tx', None) \<longrightarrow>
        (\<forall>k\<in>K. map_of (tx_checkpoints tx') k = map_of (tx_checkpoints tx) k))"

lemma leaves_None: "leaves clone K None"
  by (simp add: leaves_def with_update_def)

lemma run_save_all:
  assumes "entries_ok (tx_checkpoints tx)" and "distinct (map fst cps)"
    and "run_closure clone (save_all cps) tx = (tx', None)"
  shows "tx_State tx' = tx_State tx \<and> entries_ok (tx_checkpoints tx') \<and>
    (\<forall>k raw. (k, raw) \<in> set cps \<longrightarrow> raw \<noteq> None \<and> map_of (tx_checkpoints tx') k = raw) \<and>
    (\<forall>k. k \<notin> fst ` set cps \<longrightarrow> map_of (tx_checkpoints tx') k = map_of (tx_checkpoints tx) k)"
  using assms
proof (induction cps arbitrary: tx)
  case (Cons p cps)
  obtain k raw where p: "p = (k, raw)" by fastforce
  obtain r where r: "raw = Some r" "k \<noteq> ''''"
    using Cons.prems(3) by (auto simp: p Tx_Checkpoint_def split: if_splits option.splits)
  let ?tx = "tx\<lparr>tx_checkpoints := put_entry k r (tx_checkpoints tx)\<rparr>"
  have run: "run_closure clone (save_all cps) ?tx = (tx', None)"
    using Cons.prems(3) r by (simp add: p Tx_Checkpoint_def)
  have fresh: "k \<notin> fst ` set cps" "distinct (map fst cps)" using Cons.prems(2) by (simp_all add: p)
  have ok: "entries_ok (tx_checkpoints ?tx)" using put_entry_ok [OF Cons.prems(1)] by simp
  from Cons.IH [OF ok fresh(2) run] show ?case
    using fresh(1) r(1) by (auto simp: p map_of_put_entry [OF Cons.prems(1)])
qed simp

lemma commit_saves:
  assumes law: "lawful M" and ok: "entries_ok (ss_checkpoints s)" and dist: "distinct (map fst cps)"
    and full: "Some '''' \<notin> snd ` set cps" and left: "leaves (mv_clone M) K u" "fst ` set cps \<subseteq> K"
    and run: "session_commit M (with_update u (save_all cps)) s w = (s', w', None)"
  obtains v tx where "decodeState (mv_codec M) (ss_state s) = Inr v"
    "run_closure (mv_clone M) (with_update u (Return None)) (start_tx v s) = (tx, None)"
    "decodeState (mv_codec M) (ss_state s') = Inr (tx_State tx)" "entries_ok (ss_checkpoints s')"
    "\<And>k raw. (k, raw) \<in> set cps \<Longrightarrow> raw \<noteq> None \<and> map_of (ss_checkpoints s') k = raw"
    "\<And>k. k \<in> K \<Longrightarrow> k \<notin> fst ` set cps \<Longrightarrow> map_of (ss_checkpoints s') k = map_of (ss_checkpoints s) k"
proof -
  obtain v tx where tx: "decodeState (mv_codec M) (ss_state s) = Inr v"
    "run_closure (mv_clone M) (with_update u (save_all cps)) (start_tx v s) = (tx, None)"
    "decodeState (mv_codec M) (ss_state s') = Inr (tx_State tx)"
    "ss_checkpoints s' = put_entries (changed_checkpoints s (tx_checkpoints tx)) (ss_checkpoints s)"
    by (rule session_commit_success [OF law run])
  obtain tx1 where tx1: "run_closure (mv_clone M) (with_update u (Return None)) (start_tx v s) = (tx1, None)"
    "run_closure (mv_clone M) (save_all cps) tx1 = (tx, None)"
    using run_with_update [OF tx(2)] by (elim exE conjE)
  have ok1: "entries_ok (tx_checkpoints tx1)" using start_tx_ok [OF tx1(1)] by (simp add: tx_ok_def)
  note saved = run_save_all [OF ok1 dist tx1(2)]
  then have ok2: "entries_ok (tx_checkpoints tx)" by simp
  have none: "map_of (tx_checkpoints tx1) k = None" if "k \<in> K" for k
    using left(1) [unfolded leaves_def, rule_format, OF tx1(1) that] by (simp add: start_tx_def)
  show thesis
  proof (rule that [OF tx(1) tx1(1)])
    show "decodeState (mv_codec M) (ss_state s') = Inr (tx_State tx1)" using tx(3) saved by simp
    show "entries_ok (ss_checkpoints s')" unfolding tx(4) by (rule put_entries_ok [OF ok])
    show "raw \<noteq> None \<and> map_of (ss_checkpoints s') k = raw" if p: "(k, raw) \<in> set cps" for k raw
    proof -
      obtain r where r: "raw = Some r" "map_of (tx_checkpoints tx) k = Some r" using saved p by (cases raw) auto
      then have "r \<noteq> ''''" using full p by force
      then show ?thesis using changed_checkpoints_covers [OF ok ok2 r(2)] by (simp add: tx(4) r(1))
    qed
    show "map_of (ss_checkpoints s') k = map_of (ss_checkpoints s) k" if "k \<in> K" "k \<notin> fst ` set cps" for k
      unfolding tx(4) by (rule changed_checkpoints_other [OF ok ok2]) (use saved none [OF that(1)] that(2) in simp)
  qed
qed

section \<open>Hypotheses about the parameters\<close>

definition address_json :: "('v, 'w) address_env \<Rightarrow> bool" where
  "address_json M \<longleftrightarrow>
     (\<forall>c. az_encode_cursor M c \<noteq> Some '''') \<and> (\<forall>j. az_encode_live M j \<noteq> Some '''') \<and>
     (\<forall>c raw. az_encode_cursor M c = Some raw \<longrightarrow> az_decode_cursor M raw = Some (c, True)) \<and>
     (\<forall>j raw. az_encode_live M j = Some raw \<longrightarrow> az_decode_live M raw = Some (j, True))"

abbreviation own_sources :: "string set" where
  "own_sources \<equiv> {addressEventsCursorSource, addressEventsLiveSource}"

text \<open>The monitor's updates do not write the two checkpoints of the source.\<close>

definition address_private :: "('v, 'w) address_env \<Rightarrow> bool" where
  "address_private M \<longleftrightarrow>
     (\<forall>event w w' u. address_handle M event w = (w', Inr u) \<longrightarrow> leaves (mv_clone M) own_sources u)"

lemma address_sources [simp]:
  "addressEventsCursorSource \<noteq> addressEventsLiveSource" "addressEventsLiveSource \<noteq> addressEventsCursorSource"
  "addressEventsCursorSource \<noteq> ''''" "addressEventsLiveSource \<noteq> ''''"
  by (simp_all add: addressEventsCursorSource_def addressEventsLiveSource_def)

section \<open>Invariants\<close>

definition address_cursor_ok :: "AddressEvents \<Rightarrow> ('v, 'w) address_env \<Rightarrow> addressEventsCursor \<Rightarrow> bool" where
  "address_cursor_ok e M c \<longleftrightarrow> ak_GenesisHash c = sv_genesis (az_provider M) \<and> ak_Address c = ae_Address e"

definition journal_ok :: "addressEventsLiveJournal \<Rightarrow> bool" where
  "journal_ok j \<longleftrightarrow> length (aj_Signatures j) \<le> maxAddressLiveEvents \<and> distinct (aj_Signatures j)"

text \<open>The session holds the cursor and the journal; an empty journal need not be saved.\<close>

definition address_saved ::
    "('v, 'w) address_env \<Rightarrow> addressEventsCursor \<Rightarrow> addressEventsLiveJournal \<Rightarrow> Session \<Rightarrow> bool" where
  "address_saved M c j s \<longleftrightarrow> entries_ok (ss_checkpoints s) \<and>
     az_encode_cursor M c \<noteq> None \<and> map_of (ss_checkpoints s) addressEventsCursorSource = az_encode_cursor M c \<and>
     (az_encode_live M j \<noteq> None \<and> map_of (ss_checkpoints s) addressEventsLiveSource = az_encode_live M j \<or>
      map_of (ss_checkpoints s) addressEventsLiveSource = None \<and> aj_Signatures j = [])"

text \<open>
  What holds within a page: the session has the journal in memory and a cursor, which is the one in
  memory unless that is dirty.
\<close>

definition page_inv :: "AddressEvents \<Rightarrow> ('v, 'w) address_env \<Rightarrow> progress \<Rightarrow> Session \<Rightarrow> bool" where
  "page_inv e M p s \<longleftrightarrow> address_cursor_ok e M (pg_cursor p) \<and> journal_ok (pg_journal p) \<and>
     (\<exists>c. address_cursor_ok e M c \<and> address_saved M c (pg_journal p) s \<and> (\<not> pg_dirty p \<longrightarrow> c = pg_cursor p))"

definition settled :: "AddressEvents \<Rightarrow> ('v, 'w) address_env \<Rightarrow> progress \<Rightarrow> Session \<Rightarrow> bool" where
  "settled e M p s \<longleftrightarrow> address_cursor_ok e M (pg_cursor p) \<and> journal_ok (pg_journal p) \<and>
     address_saved M (pg_cursor p) (pg_journal p) s"

text \<open>What a restart can load, whatever is lost with the memory.\<close>

definition address_resumable :: "AddressEvents \<Rightarrow> ('v, 'w) address_env \<Rightarrow> Session \<Rightarrow> bool" where
  "address_resumable e M s \<longleftrightarrow> (\<exists>c j. address_cursor_ok e M c \<and> journal_ok j \<and> address_saved M c j s)"

lemma page_inv_resumable: "page_inv e M p s \<Longrightarrow> address_resumable e M s"
  unfolding page_inv_def address_resumable_def by blast

lemma settled_resumable: "settled e M p s \<Longrightarrow> address_resumable e M s"
  unfolding settled_def address_resumable_def by blast

lemma settled_page_inv: "settled e M p s \<Longrightarrow> page_inv e M (p\<lparr>pg_dirty := d\<rparr>) s"
  by (auto simp: settled_def page_inv_def)

lemma page_inv_settled: "page_inv e M p s \<Longrightarrow> \<not> pg_dirty p \<Longrightarrow> settled e M p s"
  by (auto simp: settled_def page_inv_def)

lemma progress_saved:
  assumes law: "lawful M" "address_json M" and ok: "entries_ok (ss_checkpoints s)"
    and u: "leaves (mv_clone M) own_sources u" and run: "commitAddressProgress M c j u s w = (s', w', None)"
  obtains v tx where "decodeState (mv_codec M) (ss_state s) = Inr v"
    "run_closure (mv_clone M) (with_update u (Return None)) (start_tx v s) = (tx, None)"
    "decodeState (mv_codec M) (ss_state s') = Inr (tx_State tx)" "address_saved M c j s'"
proof -
  have full: "Some '''' \<notin> snd ` set [(addressEventsCursorSource, az_encode_cursor M c), (addressEventsLiveSource, az_encode_live M j)]"
    using law(2) by (simp add: address_json_def) (metis)
  obtain v tx where tx: "decodeState (mv_codec M) (ss_state s) = Inr v"
      "run_closure (mv_clone M) (with_update u (Return None)) (start_tx v s) = (tx, None)"
      "decodeState (mv_codec M) (ss_state s') = Inr (tx_State tx)" and saved: "entries_ok (ss_checkpoints s')"
      "\<And>k raw. (k, raw) \<in> set [(addressEventsCursorSource, az_encode_cursor M c), (addressEventsLiveSource, az_encode_live M j)] \<Longrightarrow>
         raw \<noteq> None \<and> map_of (ss_checkpoints s') k = raw"
    by (rule commit_saves [OF law(1) ok _ full u _ run [unfolded commitAddressProgress_def]]) simp_all
  have "address_saved M c j s'"
    using saved(1) saved(2) [of addressEventsCursorSource "az_encode_cursor M c"]
      saved(2) [of addressEventsLiveSource "az_encode_live M j"] by (simp add: address_saved_def)
  with tx show thesis by (rule that)
qed

lemma progress_error: "lawful M \<Longrightarrow> commitAddressProgress M c j u s w = (s', w', Some err) \<Longrightarrow> s' = s"
  unfolding commitAddressProgress_def by (rule session_commit_error)

lemma journal_ok_remove:
  assumes "journal_ok j"
  shows "journal_ok (j\<lparr>aj_Signatures := take k (aj_Signatures j) @ drop (Suc k) (aj_Signatures j)\<rparr>)"
proof -
  have "set (take k xs) \<inter> set (drop (Suc k) xs) = {}" if "distinct xs" for xs :: "string list"
    using set_take_disj_set_drop_if_distinct [OF that, of k "Suc k"] by simp
  then show ?thesis using assms by (auto simp: journal_ok_def)
qed

lemma record_update_private:
  "address_private M \<Longrightarrow> record_update M h signature r w = (w', Inr u) \<Longrightarrow> leaves (mv_clone M) own_sources u"
  unfolding address_private_def
  by (auto simp: record_update_def Let_def leaves_None split: option.splits if_splits sum.splits)

section \<open>Records and pages\<close>

text \<open>The journal once the signature has left it.\<close>

definition journal_without :: "string \<Rightarrow> addressEventsLiveJournal \<Rightarrow> addressEventsLiveJournal" where
  "journal_without signature j =
     (case liveSignatureIndex (aj_Signatures j) signature of
        None \<Rightarrow> j
      | Some k \<Rightarrow> j\<lparr>aj_Signatures := take k (aj_Signatures j) @ drop (Suc k) (aj_Signatures j)\<rparr>)"

lemma journal_without_ok: "journal_ok j \<Longrightarrow> journal_ok (journal_without signature j)"
  by (auto simp: journal_without_def journal_ok_remove split: option.splits)

lemma liveSignatureIndex_None: "liveSignatureIndex ss x = None \<longleftrightarrow> x \<notin> set ss"
  by (induction ss) auto

lemma filter_absent: "x \<notin> set ss \<Longrightarrow> filter (\<lambda>s. s \<noteq> x) ss = ss"
  by (induction ss) auto

lemma remove_signature:
  "distinct ss \<Longrightarrow> liveSignatureIndex ss x = Some k \<Longrightarrow> take k ss @ drop (Suc k) ss = filter (\<lambda>s. s \<noteq> x) ss"
proof (induction ss arbitrary: k)
  case (Cons s ss)
  then show ?case by (auto simp: filter_absent split: if_splits)
qed simp

lemma journal_without_filter:
  "distinct (aj_Signatures j) \<Longrightarrow> aj_Signatures (journal_without x j) = filter (\<lambda>s. s \<noteq> x) (aj_Signatures j)"
  by (auto simp: journal_without_def liveSignatureIndex_None remove_signature filter_absent split: option.splits)

text \<open>
  How a record ends: an error that leaves the session alone, a commit of the update with the new
  cursor and journal, or no update, which moves only the cursor in memory.
\<close>

lemma handle_record_cases:
  assumes law: "lawful M" and run: "handle_record e M r p s w = (p', s', w', err)"
  obtains (failed) err0 where "err = Some err0" "s' = s" "pg_cursor p' = pg_cursor p" "pg_journal p' = pg_journal p"
      "pg_dirty p' = pg_dirty p"
  | (committed) signature u w1 w2 where "err = None" "AddressTransaction_Signature (az_provider M) r = Inr signature"
      "(if signature \<in> set (aj_Signatures (pg_journal p)) then (w, Inr None)
        else record_update M (pg_hints p signature) signature r w) = (w1, Inr u)"
      "commitAddressProgress M (cursor_at e M signature r) (journal_without signature (pg_journal p)) u s w1 = (s', w2, None)"
      "p' = p\<lparr>pg_hints := (pg_hints p)(signature := None), pg_journal := journal_without signature (pg_journal p),
         pg_dirty := False, pg_cursor := cursor_at e M signature r\<rparr>"
  | (idle) signature where "err = None" "s' = s" "AddressTransaction_Signature (az_provider M) r = Inr signature"
      "signature \<notin> set (aj_Signatures (pg_journal p))"
      "record_update M (pg_hints p signature) signature r w = (w', Inr None)"
      "p' = p\<lparr>pg_hints := (pg_hints p)(signature := None), pg_dirty := True, pg_cursor := cursor_at e M signature r\<rparr>"
proof (cases "AddressTransaction_Signature (az_provider M) r")
  case (Inl err0)
  then show thesis using run failed [of err0] by (simp add: handle_record_def)
next
  case (Inr signature)
  let ?in = "signature \<in> set (aj_Signatures (pg_journal p))"
  have index: "(liveSignatureIndex (aj_Signatures (pg_journal p)) signature = None) \<longleftrightarrow> \<not> ?in"
    by (simp add: liveSignatureIndex_None)
  have index2: "(liveSignatureIndex (aj_Signatures (pg_journal p)) signature \<noteq> None) \<longleftrightarrow> ?in"
    using index by simp
  obtain w1 q where q: "(if \<not> ?in then record_update M (pg_hints p signature) signature r w else (w, Inr None)) = (w1, q)"
    by fastforce
  note body = run [unfolded handle_record_def Inr sum.case Let_def index index2 journal_without_def [symmetric] q]
  show thesis
  proof (cases q)
    case (Inl err0)
    then show thesis using body failed [of err0] by auto
  next
    case q1: (Inr u)
    have upd: "(if ?in then (w, Inr None) else record_update M (pg_hints p signature) signature r w) = (w1, Inr u)"
      using q q1 by (simp split: if_splits)
    show thesis
    proof (cases "u \<noteq> None \<or> ?in")
      case True
      obtain s1 w2 res where c: "commitAddressProgress M (cursor_at e M signature r)
          (journal_without signature (pg_journal p)) u s w1 = (s1, w2, res)" by (metis prod_cases3)
      show thesis
      proof (cases res)
        case None
        then show thesis using body c q1 True committed [OF _ Inr upd] by auto
      next
        case (Some err0)
        then show thesis using body c q1 True failed [of err0] progress_error [OF law, of "cursor_at e M signature r"] by auto
      qed
    next
      case False
      then show thesis using body q1 upd idle [OF _ _ Inr] by auto
    qed
  qed
qed

lemma cursor_at_ok [simp]: "address_cursor_ok e M (cursor_at e M signature r)"
  by (simp add: address_cursor_ok_def cursor_at_def)

lemma chosen_private:
  assumes "address_private M" and "(if b then (w, Inr None) else record_update M h signature r w) = (w1, Inr u)"
  shows "leaves (mv_clone M) own_sources u"
  using assms record_update_private [OF assms(1)] by (auto simp: leaves_None split: if_splits)

lemma handle_record_keeps:
  assumes law: "lawful M" "address_json M" "address_private M" and inv: "page_inv e M p s"
    and run: "handle_record e M r p s w = (p', s', w', err)"
  shows "page_inv e M p' s'"
proof (cases rule: handle_record_cases [OF law(1) run])
  case (2 signature u w1 w2)
  note committed = this
  have "entries_ok (ss_checkpoints s)" using inv by (auto simp: page_inv_def address_saved_def)
  from progress_saved [OF law(1,2) this chosen_private [OF law(3) committed(3)] committed(4)]
  have "address_saved M (cursor_at e M signature r) (journal_without signature (pg_journal p)) s'" by blast
  then show ?thesis using committed(5) inv by (simp add: page_inv_def journal_without_ok)
qed (use inv in \<open>auto simp: page_inv_def\<close>)

lemma handle_page_keeps:
  assumes law: "lawful M" "address_json M" "address_private M"
  shows "handle_page e M rs p s w = (p', s', w', err) \<Longrightarrow> page_inv e M p s \<Longrightarrow> page_inv e M p' s'"
proof (induction rs arbitrary: p s w)
  case (Cons r rs)
  obtain p1 s1 w1 err1 where r: "handle_record e M r p s w = (p1, s1, w1, err1)" by (metis prod_cases4)
  have "page_inv e M p1 s1" by (rule handle_record_keeps [OF law Cons.prems(2) r])
  then show ?case using Cons r by (auto split: if_splits option.splits)
qed simp

lemma page_turn_keeps:
  assumes law: "lawful M" "address_json M" "address_private M" and inv: "settled e M p s"
    and run: "page_turn e M from token p s w = (p', s', w', r)"
  shows "address_resumable e M s' \<and> (\<forall>again. r = Inr again \<longrightarrow> settled e M p' s')"
proof -
  obtain w1 q where q: "GetTransactionsForAddress (az_provider M) (ae_Address e) (history_options from token 100 True) w = (w1, q)"
    by fastforce
  show ?thesis
  proof (cases q)
    case (Inl err)
    then show ?thesis using run q settled_resumable [OF inv] by (auto simp: page_turn_def)
  next
    case (Inr page)
    obtain p1 s1 w2 err where h: "handle_page e M (ap_Data page) (p\<lparr>pg_dirty := False\<rparr>) s w1 = (p1, s1, w2, err)"
      by (metis prod_cases4)
    have inv1: "page_inv e M p1 s1" by (rule handle_page_keeps [OF law h settled_page_inv [OF inv]])
    note resume1 = page_inv_resumable [OF inv1]
    show ?thesis
    proof (cases err)
      case (Some e1)
      then show ?thesis using run q Inr h resume1 by (auto simp: page_turn_def)
    next
      case None
      show ?thesis
      proof (cases "pg_dirty p1")
        case False
        then show ?thesis using run q Inr h None resume1 page_inv_settled [OF inv1 False]
          by (auto simp: page_turn_def split: if_splits)
      next
        case True
        obtain s2 w3 res where c: "commitAddressProgress M (pg_cursor p1) (pg_journal p1) None s1 w2 = (s2, w3, res)"
          by (metis prod_cases3)
        show ?thesis
        proof (cases res)
          case (Some e2)
          then show ?thesis using run q Inr h None True c resume1 progress_error [OF law(1) c [unfolded Some]]
            by (auto simp: page_turn_def)
        next
          case res: None
          have "entries_ok (ss_checkpoints s1)" using inv1 by (auto simp: page_inv_def address_saved_def)
          from progress_saved [OF law(1,2) this leaves_None c [unfolded res]]
          have "settled e M p1 s2" using inv1 unfolding settled_def page_inv_def by blast
          then show ?thesis using run q Inr h None True c res settled_resumable
            by (auto simp: page_turn_def split: if_splits)
        qed
      qed
    qed
  qed
qed

lemma pages_keep:
  assumes law: "lawful M" "address_json M" "address_private M"
  shows "pages e M from token p s w = Some (p', s', w', r) \<Longrightarrow> settled e M p s \<Longrightarrow>
    address_resumable e M s' \<and> (r = None \<longrightarrow> settled e M p' s')"
proof -
  let ?Q = "\<lambda>e (p', s', w', r). address_resumable e M s' \<and> (r = None \<longrightarrow> settled e M p' s')"
  assume run: "pages e M from token p s w = Some (p', s', w', r)" and inv: "settled e M p s"
  have "M = M \<longrightarrow> settled e M p s \<longrightarrow> ?Q e (p', s', w', r)"
  proof (rule pages.raw_induct [where P = "\<lambda>e M' fromSlot token p s w y. M' = M \<longrightarrow> settled e M p s \<longrightarrow> ?Q e y", OF _ run])
    fix "rec" e M' fromSlot token p s w y
    assume ih: "\<And>e M' fromSlot token p s w y. rec e M' fromSlot token p s w = Some y \<Longrightarrow> M' = M \<longrightarrow> settled e M p s \<longrightarrow> ?Q e y"
      and body: "(case page_turn e M' fromSlot token p s w of (p1, s1, w1, Inl err) \<Rightarrow> Some (p1, s1, w1, Some err)
        | (p1, s1, w1, Inr None) \<Rightarrow> Some (p1, s1, w1, None)
        | (p1, s1, w1, Inr (Some token')) \<Rightarrow> rec e M' fromSlot token' p1 s1 w1) = Some y"
    show "M' = M \<longrightarrow> settled e M p s \<longrightarrow> ?Q e y"
    proof (intro impI)
      assume m: "M' = M" and inv: "settled e M p s"
      obtain p1 s1 w1 q where t: "page_turn e M fromSlot token p s w = (p1, s1, w1, q)" by (metis prod_cases4)
      note kept = page_turn_keeps [OF law inv t]
      show "?Q e y"
      proof (cases q)
        case (Inl err)
        then show ?thesis using body m t kept by auto
      next
        case (Inr again)
        show ?thesis
        proof (cases again)
          case None
          then show ?thesis using body m t kept Inr by auto
        next
          case (Some token')
          then have "rec e M fromSlot token' p1 s1 w1 = Some y" using body m t Inr by simp
          from ih [OF this] show ?thesis using kept Inr by simp
        qed
      qed
    qed
  qed
  then show ?thesis using inv by simp
qed

section \<open>Live transactions\<close>

lemma live_saved:
  assumes law: "lawful M" "address_json M" and saved: "address_saved M c j0 s"
    and u: "leaves (mv_clone M) own_sources u"
    and run: "session_commit M (with_update u (save_all [(addressEventsLiveSource, az_encode_live M j)])) s w = (s', w', None)"
  shows "address_saved M c j s'"
proof -
  have ok: "entries_ok (ss_checkpoints s)" using saved by (simp add: address_saved_def)
  have full: "Some '''' \<notin> snd ` set [(addressEventsLiveSource, az_encode_live M j)]"
    using law(2) by (simp add: address_json_def) (metis)
  obtain v tx where "decodeState (mv_codec M) (ss_state s) = Inr v"
    and k: "entries_ok (ss_checkpoints s')"
      "\<And>k raw. (k, raw) \<in> set [(addressEventsLiveSource, az_encode_live M j)] \<Longrightarrow> raw \<noteq> None \<and> map_of (ss_checkpoints s') k = raw"
      "\<And>k. k \<in> own_sources \<Longrightarrow> k \<notin> fst ` set [(addressEventsLiveSource, az_encode_live M j)] \<Longrightarrow>
         map_of (ss_checkpoints s') k = map_of (ss_checkpoints s) k"
    by (rule commit_saves [OF law(1) ok _ full u _ run]) simp_all
  show ?thesis
    using k(1) k(2) [of addressEventsLiveSource "az_encode_live M j"] k(3) [of addressEventsCursorSource] saved
    by (simp add: address_saved_def)
qed

lemma address_handleLive_cases:
  assumes law: "lawful M" and run: "address_handleLive M c j hs n s w = (j', hs', s', w', err)"
  obtains (same) "j' = j" "s' = s"
  | (handled) w1 w2 u where "err = None" "address_handle M (live_event n) w1 = (w2, Inr u)"
      "tn_Signature n \<notin> set (aj_Signatures j)" "length (aj_Signatures j) < maxAddressLiveEvents"
      "j' = j\<lparr>aj_Signatures := aj_Signatures j @ [tn_Signature n]\<rparr>"
      "session_commit M (with_update u (save_all [(addressEventsLiveSource, az_encode_live M j')])) s w2 = (s', w', None)"
proof (cases "tn_Signature n = '''' \<or> tn_Signature n = ak_Signature c \<or> tn_Signature n \<in> set (aj_Signatures j)")
  case True
  then have "tn_Signature n = '''' \<or> tn_Signature n = ak_Signature c \<or>
      liveSignatureIndex (aj_Signatures j) (tn_Signature n) \<noteq> None"
    using liveSignatureIndex_None [of "aj_Signatures j" "tn_Signature n"] by auto
  then have "j' = j \<and> s' = s" using run unfolding address_handleLive_def by (simp split: if_splits)
  then show thesis using same by simp
next
  case False
  then have new: "tn_Signature n \<noteq> ''''" "tn_Signature n \<noteq> ak_Signature c"
    "liveSignatureIndex (aj_Signatures j) (tn_Signature n) = None" "tn_Signature n \<notin> set (aj_Signatures j)"
    by (simp_all add: liveSignatureIndex_None)
  show thesis
  proof (cases "matchesTransaction M (live_event n)")
    case (Inl e)
    then show thesis using run new same by (auto simp: address_handleLive_def)
  next
    case (Inr matched)
    show thesis
    proof (cases "\<not> matched \<or> length (aj_Signatures j) \<ge> maxAddressLiveEvents")
      case True
      then show thesis using run new Inr same by (auto simp: address_handleLive_def)
    next
      case False
      obtain w1 q where h: "address_handle M (live_event n) w = (w1, q)" by fastforce
      let ?j = "j\<lparr>aj_Signatures := aj_Signatures j @ [tn_Signature n]\<rparr>"
      show thesis
      proof (cases q)
        case (Inl e)
        then show thesis using run new Inr False h same by (auto simp: address_handleLive_def)
      next
        case q: (Inr u)
        obtain s1 w2 res where c: "session_commit M (with_update u (save_all [(addressEventsLiveSource, az_encode_live M ?j)])) s w1 =
            (s1, w2, res)" by (metis prod_cases3)
        show thesis
        proof (cases res)
          case None
          then show thesis using run new Inr False h q c handled [OF _ h [unfolded q]]
            by (auto simp: address_handleLive_def)
        next
          case (Some e)
          then show thesis using run new Inr False h q c same session_commit_error [OF law c [unfolded Some]]
            by (auto simp: address_handleLive_def)
        qed
      qed
    qed
  qed
qed

lemma address_handleLive_keeps:
  assumes law: "lawful M" "address_json M" "address_private M" and ok: "journal_ok j" "address_saved M c j s"
    and run: "address_handleLive M c j hs n s w = (j', hs', s', w', err)"
  shows "journal_ok j' \<and> address_saved M c j' s'"
proof (cases rule: address_handleLive_cases [OF law(1) run])
  case (2 w1 w2 u)
  have "leaves (mv_clone M) own_sources u" using law(3) 2(2) unfolding address_private_def by blast
  from live_saved [OF law(1,2) ok(2) this 2(6)] have "address_saved M c j' s'" .
  then show ?thesis using ok(1) 2(3-5) by (simp add: journal_ok_def)
qed (use ok in simp)

lemma address_step_keeps:
  assumes law: "lawful M" "address_json M" "address_private M" and inv: "settled e M p s"
    and run: "address_step e M input p s w = Some (s', w', r)"
  shows "address_resumable e M s' \<and> (\<forall>p'. r = Inr p' \<longrightarrow> settled e M p' s')"
proof -
  note here = settled_resumable [OF inv]
  have tick: "address_resumable e M s' \<and> (\<forall>p'. r = Inr p' \<longrightarrow> settled e M p' s')"
    if "map_option caught_up (catchUp e M p s w) = Some (s', w', r)"
  proof -
    obtain p1 s1 w1 q where c: "catchUp e M p s w = Some (p1, s1, w1, q)" "(s', w', r) = caught_up (p1, s1, w1, q)"
      using \<open>map_option caught_up (catchUp e M p s w) = Some (s', w', r)\<close> that
      by (cases "catchUp e M p s w") (simp, metis prod_cases4 option.map(2) option.inject)
    from pages_keep [OF law c(1) [unfolded catchUp_def] inv] c(2) show ?thesis
      by (auto simp: caught_up_def split: option.splits)
  qed
  show ?thesis
  proof (cases input)
    case (AddressNotified n)
    obtain j hs s1 w1 err where l: "address_handleLive M (pg_cursor p) (pg_journal p) (pg_hints p) n s w = (j, hs, s1, w1, err)"
      by (metis prod_cases5)
    have "settled e M (p\<lparr>pg_journal := j, pg_hints := hs\<rparr>) s1"
      using address_handleLive_keeps [OF law _ _ l] inv by (simp add: settled_def)
    then show ?thesis using run AddressNotified l settled_resumable
      by (fastforce simp: address_step_def split: option.splits)
  next
    case AddressTick
    then show ?thesis using run tick by (simp add: address_step_def)
  next
    case (AddressStreamErr err)
    then show ?thesis using run here by (cases err) (auto simp: address_step_def)
  qed (use run here in \<open>auto simp: address_step_def\<close>)
qed

lemma address_loop_keeps:
  assumes law: "lawful M" "address_json M" "address_private M"
  shows "address_loop e M inputs p s w = Some (s', w', r) \<Longrightarrow> settled e M p s \<Longrightarrow>
    address_resumable e M s' \<and> (\<forall>p'. r = Inr p' \<longrightarrow> settled e M p' s')"
proof (induction inputs arbitrary: p s w)
  case (Cons i inputs)
  from Cons.prems(1) obtain s1 w1 q where step: "address_step e M i p s w = Some (s1, w1, q)"
    by (cases "address_step e M i p s w") auto
  from address_step_keeps [OF law Cons.prems(2) this] show ?case
    using Cons step by (cases q) auto
qed (auto simp: settled_resumable)

section \<open>Exactly once\<close>

definition earlier :: "AddressTransaction \<Rightarrow> AddressTransaction \<Rightarrow> bool" where
  "earlier a b \<longleftrightarrow> at_Slot a < at_Slot b \<or> at_Slot a = at_Slot b \<and> at_TransactionIndex a < at_TransactionIndex b"

definition ahead :: "addressEventsCursor \<Rightarrow> AddressTransaction list \<Rightarrow> AddressTransaction list" where
  "ahead c rs = filter (\<lambda>r. \<not> passed c r) rs"

definition record_signature :: "('v, 'w) address_env \<Rightarrow> AddressTransaction \<Rightarrow> string" where
  "record_signature M r = (case AddressTransaction_Signature (az_provider M) r of Inl e \<Rightarrow> '''' | Inr x \<Rightarrow> x)"

text \<open>
  The event of a record that the monitor is to handle: none for a record in the journal, which was
  handled live, what a hint says for a hinted one, else the record's own if it matches.
\<close>

definition event_of ::
    "('v, 'w) address_env \<Rightarrow> hints \<Rightarrow> string list \<Rightarrow> AddressTransaction \<Rightarrow> AddressEvent option" where
  "event_of M hs handled r =
     (let x = record_signature M r in
      if x \<in> set handled then None
      else case hs x of
        Some h \<Rightarrow> if ah_Matched h \<and> \<not> ah_Handled h then Some (ah_Event h) else None
      | None \<Rightarrow> (case AddressTransaction_Payload (az_provider M) r of
          Inl e \<Rightarrow> None
        | Inr payload \<Rightarrow> if matchesTransaction M (history_event x r payload) = Inr True
                         then Some (history_event x r payload) else None))"

text \<open>What handling an event does to the monitor's state; no update is no effect.\<close>

definition address_effect :: "('v, 'w) address_env \<Rightarrow> (AddressEvent \<Rightarrow> 'v \<Rightarrow> 'v) \<Rightarrow> bool" where
  "address_effect M effect \<longleftrightarrow>
     (\<forall>event w w' u tx tx'. address_handle M event w = (w', Inr u) \<longrightarrow>
        run_closure (mv_clone M) (with_update u (Return None)) tx = (tx', None) \<longrightarrow>
        tx_State tx' = effect event (tx_State tx))"

definition apply_event :: "(AddressEvent \<Rightarrow> 'v \<Rightarrow> 'v) \<Rightarrow> AddressEvent option \<Rightarrow> 'v \<Rightarrow> 'v" where
  "apply_event effect event v = (case event of None \<Rightarrow> v | Some e \<Rightarrow> effect e v)"

lemma passed_at: "passed (cursor_at e M x r) q \<longleftrightarrow> \<not> earlier r q"
  by (auto simp: passed_def cursor_at_def earlier_def)

lemma ahead_after: "\<forall>q\<in>set rs. earlier r q \<Longrightarrow> ahead (cursor_at e M x r) rs = rs"
  by (auto simp: ahead_def passed_at intro: filter_True)

lemma ahead_before: "\<not> passed c r \<Longrightarrow> \<forall>q\<in>set rs. earlier r q \<Longrightarrow> ahead c rs = rs"
  by (auto simp: ahead_def passed_def earlier_def intro!: filter_True)

lemma chosen_update:
  assumes effect: "address_effect M effect"
    and sig: "AddressTransaction_Signature (az_provider M) r = Inr x"
    and chosen: "(if x \<in> set handled then (w, Inr None) else record_update M (hs x) x r w) = (w1, Inr u)"
    and run: "run_closure (mv_clone M) (with_update u (Return None)) tx = (tx', None)"
  shows "tx_State tx' = apply_event effect (event_of M hs handled r) (tx_State tx)"
proof -
  have x: "record_signature M r = x" by (simp add: record_signature_def sig)
  have idle: "u = None \<Longrightarrow> tx_State tx' = tx_State tx" using run by (auto simp: with_update_def)
  have handled: "address_handle M event w = (w1, Inr u) \<Longrightarrow> tx_State tx' = effect event (tx_State tx)" for event
    using effect run unfolding address_effect_def by blast
  show ?thesis
  proof (cases "x \<in> set handled")
    case True
    then show ?thesis using chosen idle by (simp add: event_of_def x apply_event_def)
  next
    case False
    then have "record_update M (hs x) x r w = (w1, Inr u)" using chosen by simp
    then show ?thesis using False idle handled
      by (auto simp: record_update_def event_of_def x apply_event_def Let_def split: option.splits sum.splits if_splits)
  qed
qed

lemma event_of_other:
  "record_signature M r \<noteq> x \<Longrightarrow>
    event_of M (hs(x := None)) (filter (\<lambda>s. s \<noteq> x) handled) r = event_of M hs handled r"
  by (simp add: event_of_def Let_def)

lemma event_of_unhinted:
  "record_signature M r \<noteq> x \<Longrightarrow> x \<notin> set handled \<Longrightarrow> event_of M (hs(x := None)) handled r = event_of M hs handled r"
  by (simp add: event_of_def Let_def)

lemma idle_effect:
  assumes "address_effect M effect" and "AddressTransaction_Signature (az_provider M) r = Inr x"
    and "x \<notin> set handled" and "record_update M (hs x) x r w = (w1, Inr None)"
  shows "apply_event effect (event_of M hs handled r) v = v"
proof -
  let ?tx = "\<lparr>tx_State = v, tx_events = [], tx_checkpoints = [], tx_maxEvents = 0\<rparr>"
  have "run_closure (mv_clone M) (with_update None (Return None)) ?tx = (?tx, None)" by (simp add: with_update_def)
  from chosen_update [where handled = handled and hs = hs, OF assms(1,2) _ this, of w w1] assms(3,4) show ?thesis by simp
qed

lemma handle_page_ahead:
  "sorted_wrt earlier rs \<Longrightarrow> handle_page e M rs p s w = handle_page e M (ahead (pg_cursor p) rs) p s w"
proof (induction rs)
  case (Cons r rs)
  show ?case
  proof (cases "passed (pg_cursor p) r")
    case True
    then show ?thesis using Cons by (simp add: ahead_def)
  next
    case False
    then have "ahead (pg_cursor p) (r # rs) = r # rs" using ahead_before [of "pg_cursor p" r "r # rs"] Cons.prems
      by (simp add: ahead_def ahead_before [unfolded ahead_def])
    then show ?thesis by simp
  qed
qed (simp add: ahead_def)

text \<open>Where the session durably is after \<open>m\<close> of the records.\<close>

definition cursor_after ::
    "AddressEvents \<Rightarrow> ('v, 'w) address_env \<Rightarrow> addressEventsCursor \<Rightarrow> AddressTransaction list \<Rightarrow> addressEventsCursor" where
  "cursor_after e M c rs = (if rs = [] then c else cursor_at e M (record_signature M (last rs)) (last rs))"

definition left_in :: "('v, 'w) address_env \<Rightarrow> AddressTransaction list \<Rightarrow> string list \<Rightarrow> string list" where
  "left_in M rs handled = filter (\<lambda>x. x \<notin> record_signature M ` set rs) handled"

definition effect_of ::
    "('v, 'w) address_env \<Rightarrow> (AddressEvent \<Rightarrow> 'v \<Rightarrow> 'v) \<Rightarrow> hints \<Rightarrow> string list \<Rightarrow> AddressTransaction list \<Rightarrow> 'v \<Rightarrow> 'v" where
  "effect_of M effect hs handled rs v = fold (\<lambda>r. apply_event effect (event_of M hs handled r)) rs v"

lemma effect_of_Cons:
  assumes "\<And>q. q \<in> set rs \<Longrightarrow> event_of M hs' handled' q = event_of M hs handled q"
  shows "effect_of M effect hs' handled' rs (apply_event effect (event_of M hs handled r) v) =
    effect_of M effect hs handled (r # rs) v"
proof -
  have "fold (\<lambda>r. apply_event effect (event_of M hs' handled' r)) rs x =
      fold (\<lambda>r. apply_event effect (event_of M hs handled r)) rs x" for x
    by (rule fold_cong) (use assms in auto)
  then show ?thesis by (simp add: effect_of_def)
qed

lemma left_in_Cons:
  "left_in M rs (filter (\<lambda>s. s \<noteq> record_signature M r) handled) = left_in M (r # rs) handled"
  by (auto simp: left_in_def intro: filter_cong)

lemma left_in_skip: "record_signature M r \<notin> set handled \<Longrightarrow> left_in M rs handled = left_in M (r # rs) handled"
  by (auto simp: left_in_def intro!: filter_cong)

lemma cursor_after_Cons:
  "cursor_after e M (cursor_at e M (record_signature M r) r) rs = cursor_after e M c (r # rs)"
  by (simp add: cursor_after_def)

definition saved_after ::
    "AddressEvents \<Rightarrow> ('v, 'w) address_env \<Rightarrow> (AddressEvent \<Rightarrow> 'v \<Rightarrow> 'v) \<Rightarrow> hints \<Rightarrow> string list \<Rightarrow> 'v \<Rightarrow> addressEventsCursor \<Rightarrow>
     AddressTransaction list \<Rightarrow> progress \<Rightarrow> Session \<Rightarrow> bool" where
  "saved_after e M effect hs handled v c rs p s \<longleftrightarrow>
     address_saved M (cursor_after e M c rs) (pg_journal p) s \<and> aj_Signatures (pg_journal p) = left_in M rs handled \<and>
     decodeState (mv_codec M) (ss_state s) = Inr (effect_of M effect hs handled rs v)"

lemma handle_page_exact:
  assumes law: "lawful M" "address_json M" "address_private M" and effect: "address_effect M effect"
  shows "handle_page e M todo p s w = (p', s', w', err) \<Longrightarrow> sorted_wrt earlier todo \<Longrightarrow>
    distinct (map (record_signature M) todo) \<Longrightarrow> \<forall>r\<in>set todo. \<not> passed (pg_cursor p) r \<Longrightarrow>
    distinct (aj_Signatures (pg_journal p)) \<Longrightarrow> address_saved M c (pg_journal p) s \<Longrightarrow> (\<not> pg_dirty p \<longrightarrow> c = pg_cursor p) \<Longrightarrow>
    decodeState (mv_codec M) (ss_state s) = Inr v \<Longrightarrow>
    \<exists>m\<le>length todo. saved_after e M effect (pg_hints p) (aj_Signatures (pg_journal p)) v c (take m todo) p' s' \<and>
      (err = None \<longrightarrow> pg_cursor p' = cursor_after e M (pg_cursor p) todo \<and>
        (\<not> pg_dirty p' \<longrightarrow> cursor_after e M c (take m todo) = pg_cursor p') \<and>
        left_in M (take m todo) (aj_Signatures (pg_journal p)) = left_in M todo (aj_Signatures (pg_journal p)) \<and>
        effect_of M effect (pg_hints p) (aj_Signatures (pg_journal p)) (take m todo) v =
          effect_of M effect (pg_hints p) (aj_Signatures (pg_journal p)) todo v)"
proof (induction todo arbitrary: p s w c v)
  case Nil
  then show ?case by (auto simp: saved_after_def cursor_after_def left_in_def effect_of_def)
next
  case (Cons r todo)
  let ?J = "aj_Signatures (pg_journal p)" and ?hs = "pg_hints p"
  have order: "sorted_wrt earlier todo" "distinct (map (record_signature M) todo)" "\<forall>q\<in>set todo. earlier r q"
    "\<And>q. q \<in> set todo \<Longrightarrow> record_signature M q \<noteq> record_signature M r"
    using Cons.prems(2,3) by (auto simp: image_iff)
  obtain p1 s1 w1 err1 where h: "handle_record e M r p s w = (p1, s1, w1, err1)" by (metis prod_cases4)
  have run: "(case err1 of Some x \<Rightarrow> (p1, s1, w1, Some x) | None \<Rightarrow> handle_page e M todo p1 s1 w1) = (p', s', w', err)"
    using Cons.prems(1,4) h by (simp split: option.splits)
  have ahead1: "\<forall>q\<in>set todo. \<not> passed (cursor_at e M x r) q" for x using order(3) by (simp add: passed_at)
  note ok = Cons.prems(6)
  show ?case
  proof (cases rule: handle_record_cases [OF law(1) h])
    case (1 err0)
    then show ?thesis using run ok Cons.prems(8)
      by (intro exI [of _ 0]) (auto simp: saved_after_def cursor_after_def left_in_def effect_of_def)
  next
    case (2 x u w2 w3)
    have x: "record_signature M r = x" by (simp add: record_signature_def 2(2))
    have "entries_ok (ss_checkpoints s)" using ok by (simp add: address_saved_def)
    from progress_saved [OF law(1,2) this chosen_private [OF law(3) 2(3)] 2(4)] obtain v1 tx where
      v1: "decodeState (mv_codec M) (ss_state s) = Inr v1"
      and tx: "run_closure (mv_clone M) (with_update u (Return None)) (start_tx v1 s) = (tx, None)"
      and d: "decodeState (mv_codec M) (ss_state s1) = Inr (tx_State tx)"
      and saved: "address_saved M (cursor_at e M x r) (journal_without x (pg_journal p)) s1" by blast
    have "tx_State tx = apply_event effect (event_of M ?hs ?J r) v"
      using chosen_update [where hs = ?hs and handled = ?J, OF effect 2(2,3) tx] v1 Cons.prems(8) by (simp add: start_tx_def)
    then have d: "decodeState (mv_codec M) (ss_state s1) = Inr (apply_event effect (event_of M ?hs ?J r) v)" using d by simp
    have J: "aj_Signatures (pg_journal p1) = filter (\<lambda>s. s \<noteq> record_signature M r) ?J"
      using journal_without_filter [OF Cons.prems(5)] 2(5) x by simp
    have same: "event_of M (pg_hints p1) (aj_Signatures (pg_journal p1)) q = event_of M ?hs ?J q" if "q \<in> set todo" for q
      using event_of_other [OF order(4) [OF that]] 2(5) J x by simp
    have rest: "handle_page e M todo p1 s1 w1 = (p', s', w', err)" using run 2(1) by simp
    have c1: "pg_cursor p1 = cursor_at e M (record_signature M r) r" "pg_journal p1 = journal_without x (pg_journal p)"
      "\<not> pg_dirty p1" using 2(5) x by simp_all
    have "\<forall>q\<in>set todo. \<not> passed (pg_cursor p1) q" "distinct (aj_Signatures (pg_journal p1))"
      "address_saved M (pg_cursor p1) (pg_journal p1) s1"
      using ahead1 c1 J Cons.prems(5) saved x by simp_all
    from Cons.IH [OF rest order(1,2) this _ d] obtain m where m: "m \<le> length todo"
      "saved_after e M effect (pg_hints p1) (aj_Signatures (pg_journal p1)) (apply_event effect (event_of M ?hs ?J r) v)
         (pg_cursor p1) (take m todo) p' s'"
      "err = None \<longrightarrow> pg_cursor p' = cursor_after e M (pg_cursor p1) todo \<and>
        (\<not> pg_dirty p' \<longrightarrow> cursor_after e M (pg_cursor p1) (take m todo) = pg_cursor p') \<and>
        left_in M (take m todo) (aj_Signatures (pg_journal p1)) = left_in M todo (aj_Signatures (pg_journal p1)) \<and>
        effect_of M effect (pg_hints p1) (aj_Signatures (pg_journal p1)) (take m todo) (apply_event effect (event_of M ?hs ?J r) v) =
          effect_of M effect (pg_hints p1) (aj_Signatures (pg_journal p1)) todo (apply_event effect (event_of M ?hs ?J r) v)"
      by auto
    have part: "\<And>q. q \<in> set (take m todo) \<Longrightarrow> event_of M (pg_hints p1) (aj_Signatures (pg_journal p1)) q = event_of M ?hs ?J q"
      using same by (meson in_set_takeD)
    note shift = effect_of_Cons [OF part, unfolded J] effect_of_Cons [OF same, unfolded J] J left_in_Cons c1(1)
      cursor_after_Cons [symmetric]
    show ?thesis
      by (intro exI [of _ "Suc m"] conjI) (use m in \<open>simp_all add: saved_after_def shift\<close>)
  next
    case (3 x)
    have x: "record_signature M r = x" by (simp add: record_signature_def 3(3))
    note still = idle_effect [where hs = ?hs and handled = ?J, OF effect 3(3,4,5)]
    have p1: "pg_journal p1 = pg_journal p" "pg_hints p1 = ?hs(x := None)" "pg_dirty p1"
      "pg_cursor p1 = cursor_at e M (record_signature M r) r" using 3(6) x by simp_all
    have same: "event_of M (pg_hints p1) ?J q = event_of M ?hs ?J q" if "q \<in> set todo" for q
      using event_of_unhinted [OF _ 3(4)] order(4) [OF that] p1(2) x by simp
    have rest: "handle_page e M todo p1 s w1 = (p', s', w', err)" using run 3(1,2) by simp
    have "\<forall>q\<in>set todo. \<not> passed (pg_cursor p1) q" "distinct (aj_Signatures (pg_journal p1))"
      "address_saved M c (pg_journal p1) s" "\<not> pg_dirty p1 \<longrightarrow> c = pg_cursor p1"
      "decodeState (mv_codec M) (ss_state s) = Inr v"
      using ahead1 p1 ok Cons.prems(5,8) 3(2) by simp_all
    from Cons.IH [OF rest order(1,2) this] obtain m where m: "m \<le> length todo"
      "saved_after e M effect (pg_hints p1) ?J v c (take m todo) p' s'"
      "err = None \<longrightarrow> pg_cursor p' = cursor_after e M (pg_cursor p1) todo \<and>
        (\<not> pg_dirty p' \<longrightarrow> cursor_after e M c (take m todo) = pg_cursor p') \<and>
        left_in M (take m todo) ?J = left_in M todo ?J \<and>
        effect_of M effect (pg_hints p1) ?J (take m todo) v = effect_of M effect (pg_hints p1) ?J todo v"
      unfolding p1(1) by (elim exE conjE)
    have part: "\<And>q. q \<in> set (take m todo) \<Longrightarrow> event_of M (pg_hints p1) ?J q = event_of M ?hs ?J q"
      using same by (meson in_set_takeD)
    have skip: "record_signature M r \<notin> set ?J" using 3(4) x by simp
    have moved: "effect_of M effect (pg_hints p1) ?J (take m todo) v = effect_of M effect ?hs ?J (r # take m todo) v"
      "effect_of M effect (pg_hints p1) ?J todo v = effect_of M effect ?hs ?J (r # todo) v"
      using effect_of_Cons [where effect = effect and r = r and v = v, OF part] effect_of_Cons [where effect = effect and r = r and v = v, OF same] by (simp_all add: still)
    note shift = left_in_skip [OF skip, symmetric] p1(4) cursor_after_Cons [symmetric]
    show ?thesis
    proof (cases "m = 0")
      case True
      have "effect_of M effect ?hs ?J [] v = effect_of M effect (pg_hints p1) ?J [] v" by (simp add: effect_of_def)
      then show ?thesis
        using m unfolding True
        by (intro exI [of _ 0] conjI impI) (auto simp: saved_after_def shift moved)
    next
      case False
      have "cursor_after e M c (take m todo) = cursor_after e M (cursor_at e M (record_signature M r) r) (take m todo)"
        using False m(1) by (auto simp: cursor_after_def)
      note shift = shift this
      show ?thesis
        by (intro exI [of _ "Suc m"] conjI) (use m in \<open>simp_all add: saved_after_def shift moved\<close>)
    qed
  qed
qed

lemma ahead_suffix: "sorted_wrt earlier rs \<Longrightarrow> \<exists>pre. rs = pre @ ahead c rs"
proof (induction rs)
  case (Cons r rs)
  show ?case
  proof (cases "passed c r")
    case True
    from Cons obtain pre where "rs = pre @ ahead c rs" by auto
    then show ?thesis using True by (intro exI [of _ "r # pre"]) (simp add: ahead_def)
  next
    case False
    then have "ahead c (r # rs) = r # rs" using ahead_before [OF False] Cons.prems by (simp add: ahead_def)
    then show ?thesis by simp
  qed
qed (simp add: ahead_def)

lemma earlier_asym: "earlier a b \<Longrightarrow> \<not> earlier b a"
  by (auto simp: earlier_def)

lemma ahead_split:
  assumes "sorted_wrt earlier (pre @ r # post)"
  shows "ahead (cursor_at e M x r) (pre @ r # post) = post"
proof -
  have "\<forall>q\<in>set pre. earlier q r" "\<forall>q\<in>set post. earlier r q" using assms by (simp_all add: sorted_wrt_append)
  then have "\<forall>q\<in>set pre. \<not> earlier r q" "\<forall>q\<in>set post. earlier r q" "\<not> earlier r r"
    using earlier_asym by blast+
  then show ?thesis by (simp add: ahead_def passed_at filter_empty_conv)
qed

lemma ahead_cursor_after:
  assumes sorted: "sorted_wrt earlier rs" and m: "m \<le> length (ahead c rs)"
  shows "ahead (cursor_after e M c (take m (ahead c rs))) rs = drop m (ahead c rs)"
proof (cases m)
  case 0
  then show ?thesis by (simp add: cursor_after_def)
next
  case (Suc k)
  let ?todo = "ahead c rs"
  obtain pre where pre: "rs = pre @ ?todo" using ahead_suffix [OF sorted] by blast
  have k: "k < length ?todo" using m Suc by simp
  have t: "take m ?todo = take k ?todo @ [?todo ! k]" unfolding Suc by (rule take_Suc_conv_app_nth [OF k])
  have t2: "?todo = take k ?todo @ ?todo ! k # drop m ?todo" unfolding Suc by (rule id_take_nth_drop [OF k])
  have rs: "rs = (pre @ take k ?todo) @ ?todo ! k # drop m ?todo" using pre t2 by (metis append_assoc)
  have "cursor_after e M c (take m ?todo) = cursor_at e M (record_signature M (?todo ! k)) (?todo ! k)"
    by (simp add: cursor_after_def t)
  then show ?thesis using ahead_split [of "pre @ take k ?todo" "?todo ! k" "drop m ?todo"] rs sorted by simp
qed

text \<open>The session is durably after \<open>m\<close> records of what was ahead of the cursor.\<close>

definition durably ::
    "AddressEvents \<Rightarrow> ('v, 'w) address_env \<Rightarrow> (AddressEvent \<Rightarrow> 'v \<Rightarrow> 'v) \<Rightarrow> AddressTransaction list \<Rightarrow> progress \<Rightarrow> 'v \<Rightarrow> nat \<Rightarrow>
     addressEventsCursor \<Rightarrow> progress \<Rightarrow> Session \<Rightarrow> bool" where
  "durably e M effect rs p v m c p' s' \<longleftrightarrow>
     (let todo = ahead (pg_cursor p) rs; handled = aj_Signatures (pg_journal p) in
      m \<le> length todo \<and> address_saved M c (pg_journal p') s' \<and> ahead c rs = drop m todo \<and>
      aj_Signatures (pg_journal p') = left_in M (take m todo) handled \<and>
      decodeState (mv_codec M) (ss_state s') = Inr (effect_of M effect (pg_hints p) handled (take m todo) v))"

lemma saved_durably:
  assumes "sorted_wrt earlier rs" and "m \<le> length (ahead (pg_cursor p) rs)"
    and "saved_after e M effect (pg_hints p) (aj_Signatures (pg_journal p)) v (pg_cursor p) (take m (ahead (pg_cursor p) rs)) p' s'"
  shows "durably e M effect rs p v m (cursor_after e M (pg_cursor p) (take m (ahead (pg_cursor p) rs))) p' s'"
  using assms ahead_cursor_after [OF assms(1,2)] by (simp add: durably_def saved_after_def Let_def)

lemma page_turn_exact:
  assumes law: "lawful M" "address_json M" "address_private M" "address_effect M effect"
    and inv: "settled e M p s" and v: "decodeState (mv_codec M) (ss_state s) = Inr v"
    and page: "GetTransactionsForAddress (az_provider M) (ae_Address e) (history_options from token 100 True) w = (w1, Inr page)"
    and order: "sorted_wrt earlier (ap_Data page)" "distinct (map (record_signature M) (ap_Data page))"
    and run: "page_turn e M from token p s w = (p', s', w', r)"
  shows "\<exists>m c. durably e M effect (ap_Data page) p v m c p' s' \<and>
    (\<forall>again. r = Inr again \<longrightarrow> m = length (ahead (pg_cursor p) (ap_Data page)) \<and> c = pg_cursor p')"
proof -
  let ?rs = "ap_Data page" and ?p = "p\<lparr>pg_dirty := False\<rparr>" and ?J = "aj_Signatures (pg_journal p)"
  let ?todo = "ahead (pg_cursor p) ?rs"
  obtain p1 s1 w2 err where "handle_page e M ?rs ?p s w1 = (p1, s1, w2, err)" by (metis prod_cases4)
  then have h: "handle_page e M ?todo ?p s w1 = (p1, s1, w2, err)" "handle_page e M ?rs ?p s w1 = (p1, s1, w2, err)"
    using handle_page_ahead [OF order(1), of e M ?p s w1] by simp_all
  have todo: "sorted_wrt earlier ?todo" "distinct (map (record_signature M) ?todo)" "\<forall>r\<in>set ?todo. \<not> passed (pg_cursor ?p) r"
    using order by (auto simp: ahead_def sorted_wrt_filter distinct_map_filter)
  have start: "distinct (aj_Signatures (pg_journal ?p))" "address_saved M (pg_cursor ?p) (pg_journal ?p) s"
    "\<not> pg_dirty ?p \<longrightarrow> pg_cursor ?p = pg_cursor ?p"
    using inv by (simp_all add: settled_def journal_ok_def)
  from handle_page_exact [OF law h(1) todo start v] obtain m where m: "m \<le> length ?todo"
    "saved_after e M effect (pg_hints p) ?J v (pg_cursor p) (take m ?todo) p1 s1"
    and finished: "err = None \<Longrightarrow> pg_cursor p1 = cursor_after e M (pg_cursor p) ?todo \<and>
        (\<not> pg_dirty p1 \<longrightarrow> cursor_after e M (pg_cursor p) (take m ?todo) = pg_cursor p1) \<and>
        left_in M (take m ?todo) ?J = left_in M ?todo ?J \<and>
        effect_of M effect (pg_hints p) ?J (take m ?todo) v = effect_of M effect (pg_hints p) ?J ?todo v"
    by auto
  note part = saved_durably [OF order(1) m]
  have saved: "saved_after e M effect (pg_hints p) ?J v (pg_cursor p) (take (length ?todo) ?todo) p1 s2"
    if "err = None" "address_saved M (pg_cursor p1) (pg_journal p1) s2" "ss_state s2 = ss_state s1 \<or>
      decodeState (mv_codec M) (ss_state s2) = decodeState (mv_codec M) (ss_state s1)" for s2
    using that finished [OF that(1)] m(2) by (auto simp: saved_after_def)
  have all: "\<exists>m c. durably e M effect ?rs p v m c p1 s2 \<and> m = length ?todo \<and> c = pg_cursor p1"
    if "err = None" "address_saved M (pg_cursor p1) (pg_journal p1) s2"
      "decodeState (mv_codec M) (ss_state s2) = decodeState (mv_codec M) (ss_state s1)" for s2
    using saved_durably [OF order(1) order_refl saved [OF that(1,2) disjI2 [OF that(3)]]] finished [OF that(1)]
    by (intro exI [of _ "length ?todo"] exI [of _ "pg_cursor p1"]) simp
  note turn = run [unfolded page_turn_def page prod.case sum.case h(2)]
  show ?thesis
  proof (cases err)
    case (Some e1)
    then have "p' = p1" "s' = s1" "r = Inl e1" using turn by simp_all
    then show ?thesis using part by blast
  next
    case None
    show ?thesis
    proof (cases "pg_dirty p1")
      case False
      then have "p' = p1" "s' = s1" using turn None by (simp_all split: if_splits)
      moreover have "address_saved M (pg_cursor p1) (pg_journal p1) s1"
        using m(2) finished [OF None] False by (simp add: saved_after_def)
      ultimately show ?thesis using all [OF None _ refl] by metis
    next
      case True
      obtain s2 w3 res where c: "commitAddressProgress M (pg_cursor p1) (pg_journal p1) None s1 w2 = (s2, w3, res)"
        by (metis prod_cases3)
      show ?thesis
      proof (cases res)
        case (Some e2)
        then have "p' = p1" "s' = s1" "r = Inl e2"
          using turn None True c progress_error [OF law(1) c [unfolded Some]] by simp_all
        then show ?thesis using part by blast
      next
        case res: None
        have "entries_ok (ss_checkpoints s1)" using m(2) by (simp add: saved_after_def address_saved_def)
        from progress_saved [OF law(1,2) this leaves_None c [unfolded res]] obtain v1 tx where
          "decodeState (mv_codec M) (ss_state s1) = Inr v1"
          "run_closure (mv_clone M) (with_update None (Return None)) (start_tx v1 s1) = (tx, None)"
          "decodeState (mv_codec M) (ss_state s2) = Inr (tx_State tx)"
          and saved2: "address_saved M (pg_cursor p1) (pg_journal p1) s2" by blast
        then have "decodeState (mv_codec M) (ss_state s2) = decodeState (mv_codec M) (ss_state s1)"
          by (auto simp: with_update_def start_tx_def)
        from all [OF None saved2 this] show ?thesis
          using turn None True c res by (auto split: if_splits)
      qed
    qed
  qed
qed

section \<open>The end of a recovery\<close>

text \<open>The tokens a node pages with cannot go round: each is smaller than the one that led to it.\<close>

definition pages_descend :: "AddressEvents \<Rightarrow> ('v, 'w) address_env \<Rightarrow> (string \<Rightarrow> nat) \<Rightarrow> bool" where
  "pages_descend e M rank \<longleftrightarrow>
     (\<forall>slot token w w' page.
        GetTransactionsForAddress (az_provider M) (ae_Address e) (history_options slot token 100 True) w = (w', Inr page) \<longrightarrow>
        length (ap_Data page) \<ge> 100 \<longrightarrow> ap_PaginationToken page \<noteq> '''' \<longrightarrow> ap_PaginationToken page \<noteq> token \<longrightarrow>
        rank (ap_PaginationToken page) < rank token)"

lemma page_turn_descends:
  assumes "pages_descend e M rank" and "page_turn e M from token p s w = (p', s', w', Inr (Some token'))"
  shows "rank token' < rank token"
proof -
  obtain w1 page where page: "GetTransactionsForAddress (az_provider M) (ae_Address e) (history_options from token 100 True) w =
      (w1, Inr page)" "length (ap_Data page) \<ge> 100" "ap_PaginationToken page \<noteq> ''''" "ap_PaginationToken page \<noteq> token"
      "token' = ap_PaginationToken page"
    using assms(2) by (auto simp: page_turn_def split: prod.splits sum.splits option.splits if_splits)
  then show ?thesis using assms(1) unfolding pages_descend_def by blast
qed

lemma pages_end:
  assumes "pages_descend e M rank"
  shows "pages e M from token p s w \<noteq> None"
proof (induction "rank token" arbitrary: token p s w rule: less_induct)
  case less
  obtain p1 s1 w1 r where t: "page_turn e M from token p s w = (p1, s1, w1, r)" by (metis prod_cases4)
  show ?case
  proof (cases r)
    case (Inl err)
    then show ?thesis by (simp add: pages.simps [of e M "from" token] t)
  next
    case (Inr again)
    then show ?thesis
      using less page_turn_descends [OF assms, of "from" token p s w p1 s1 w1] t
      by (cases again) (simp_all add: pages.simps [of e M "from" token])
  qed
qed

section \<open>What the source does not catch\<close>

text \<open>
  A live transaction that the recovery has passed, other than the last one, is handled again: the
  live side compares it only with the signature of the cursor and with the journal.
\<close>

lemma late_notification:
  assumes "tn_Slot n \<noteq> 0" and "tn_Slot n < ak_Slot c" and "tn_Signature n \<noteq> ak_Signature c" and "tn_Signature n \<noteq> ''''"
    and "aj_Signatures j = []" and "az_matches M = None" and "address_handle M (live_event n) w = (w1, Inr u)"
    and "session_commit M (with_update u (save_all [(addressEventsLiveSource,
           az_encode_live M (j\<lparr>aj_Signatures := [tn_Signature n]\<rparr>))])) s w1 = (s', w2, None)"
  shows "\<exists>hs'. address_handleLive M c j hs n s w = (j\<lparr>aj_Signatures := [tn_Signature n]\<rparr>, hs', s', w2, None)"
  using assms by (simp add: address_handleLive_def matchesTransaction_def maxAddressLiveEvents_def)

text \<open>The signature of a transaction that no page brings any more stays in the journal.\<close>

lemma journal_keeps:
  assumes "x \<notin> record_signature M ` set rs" and "x \<in> set handled"
  shows "x \<in> set (left_in M rs handled)"
  using assms by (simp add: left_in_def)

text \<open>A backfill from slot \<open>n\<close> also brings the records of slot \<open>n - 1\<close> after its first.\<close>

lemma backfill_starts_early:
  assumes "ae_BackfillFrom e = Some n" and "0 < n" and "first_cursor e M w = (w', Inr c)"
  shows "passed c r \<longleftrightarrow> at_Slot r < n - 1 \<or> at_Slot r = n - 1 \<and> at_TransactionIndex r = 0"
  using assms by (auto simp: first_cursor_def Let_def passed_def)

section \<open>Properties\<close>

text \<open>
  C31: whatever the subscription, the ticker and the node bring, the address source is durable at every
  point: a restart loads a cursor of this chain and address and a live journal of at most 256
  distinct signatures, also after an error, and after a step without error they are the ones in memory.
\<close>

theorem address_resume:
  assumes "lawful M" and "address_json M" and "address_private M" and "settled e M p s"
    and "address_loop e M inputs p s w = Some (s', w', r)"
  shows "\<exists>c j. (\<forall>x. address_loadCursor e M s' x = (s', x, Inr c)) \<and> address_loadLive M s' = Inr j \<and>
    length (aj_Signatures j) \<le> 256 \<and> distinct (aj_Signatures j) \<and>
    (case r of Inl err \<Rightarrow> True | Inr p' \<Rightarrow> pg_cursor p' = c \<and> pg_journal p' = j)"
proof -
  have loads: "(\<forall>x. address_loadCursor e M s' x = (s', x, Inr c)) \<and> address_loadLive M s' = Inr j \<and>
      length (aj_Signatures j) \<le> 256 \<and> distinct (aj_Signatures j)"
    if "address_cursor_ok e M c" "journal_ok j" "address_saved M c j s'" for c j
    using that assms(2)
    by (auto simp: address_loadCursor_def address_loadLive_def Session_Checkpoint_def address_saved_def address_json_def
      address_cursor_ok_def journal_ok_def maxAddressLiveEvents_def)
  note keeps = address_loop_keeps [OF assms(1-3,5,4)]
  show ?thesis
  proof (cases r)
    case (Inl err)
    then show ?thesis using keeps loads unfolding address_resumable_def by auto
  next
    case (Inr p')
    then have "settled e M p' s'" using keeps by simp
    then show ?thesis using loads [of "pg_cursor p'" "pg_journal p'"] Inr unfolding settled_def by auto
  qed
qed

text \<open>
  C32: a page of the history takes every record once.  However a turn of the recovery ends, the session
  is durably after some number of the records that were ahead of the cursor, and no other: its state
  is the fold of the effect of exactly their events, without those the journal says were handled live,
  its cursor leaves exactly the rest ahead and the journal has lost exactly their signatures; a turn
  without error is after all of them.
\<close>

theorem history_exactly_once:
  assumes "lawful M" and "address_json M" and "address_private M" and "address_effect M effect"
    and "settled e M p s" and "decodeState (mv_codec M) (ss_state s) = Inr v"
    and "GetTransactionsForAddress (az_provider M) (ae_Address e) (history_options from token 100 True) w = (w1, Inr page)"
    and "sorted_wrt earlier (ap_Data page)" and "distinct (map (record_signature M) (ap_Data page))"
    and "page_turn e M from token p s w = (p', s', w', r)"
  shows "\<exists>m c. durably e M effect (ap_Data page) p v m c p' s' \<and>
    (\<forall>again. r = Inr again \<longrightarrow> m = length (ahead (pg_cursor p) (ap_Data page)) \<and> c = pg_cursor p')"
  by (rule page_turn_exact [OF assms])


section \<open>Samples\<close>

text \<open>Two transactions of slot 7, the first handled live.\<close>

definition sol_record :: "uint64 \<Rightarrow> string \<Rightarrow> AddressTransaction" where
  "sol_record i t = \<lparr>at_Slot = 7, at_TransactionIndex = i, at_Err = '''', at_Memo = None, at_BlockTime = None,
     at_Transaction = t, at_Meta = '''', at_Version = ''''\<rparr>"

definition sol_page :: AddressTransactionsPage where
  "sol_page = \<lparr>ap_Data = [sol_record 0 ''t'', sol_record 1 ''u''], ap_PaginationToken = ''''\<rparr>"

definition sol_provider :: "unit solana_provider" where
  "sol_provider = \<lparr>sv_commitment = Finalized, sv_genesis = ''g'', sv_call = (\<lambda>_ _ w. (w, Inr '''')),
     sv_base58 = (\<lambda>_. Some (replicate 32 CHR ''a'')), sv_text = (\<lambda>_. None), sv_slot = (\<lambda>_. None),
     sv_signatures = (\<lambda>_. None), sv_page = (\<lambda>_. Some sol_page), sv_account = (\<lambda>_. None), sv_programs = (\<lambda>_. None),
     sv_transaction = (\<lambda>t. Some [t]), sv_compact = Some\<rparr>"

definition sol_cursor :: "uint64 \<Rightarrow> string \<Rightarrow> uint64 \<Rightarrow> addressEventsCursor" where
  "sol_cursor slot x i = \<lparr>ak_GenesisHash = ''g'', ak_Address = ''a'', ak_Signature = x, ak_Slot = slot, ak_TransactionIndex = i\<rparr>"

definition sol_cursors :: "(addressEventsCursor \<times> string) list" where
  "sol_cursors = [(sol_cursor 6 '''' 0, ''A''), (sol_cursor 7 ''t'' 0, ''B''), (sol_cursor 7 ''u'' 1, ''C'')]"

definition sol_journals :: "(addressEventsLiveJournal \<times> string) list" where
  "sol_journals = [(\<lparr>aj_Signatures = []\<rparr>, ''D''), (\<lparr>aj_Signatures = [''t'']\<rparr>, ''E'')]"

definition sol_env :: "(bool, unit) address_env" where
  "sol_env = \<lparr>mv_codec = bit_codec, mv_clone = Inr,
     mv_commit = (\<lambda>t w. (w, Inr (tc_NextState t))), mv_ctx_before = (\<lambda>_. None), mv_ctx_after = (\<lambda>_. None),
     az_provider = sol_provider, az_handle = Some (\<lambda>event w. (w, Inr flip)), az_matches = None, az_meta = (\<lambda>_. None),
     az_encode_cursor = map_of sol_cursors,
     az_decode_cursor = (\<lambda>raw. map_option (\<lambda>c. (c, True)) (map_of (map (\<lambda>(c, r). (r, c)) sol_cursors) raw)),
     az_encode_live = map_of sol_journals,
     az_decode_live = (\<lambda>raw. map_option (\<lambda>l. (l, True)) (map_of (map (\<lambda>(l, r). (r, l)) sol_journals) raw))\<rparr>"

definition sol_source :: AddressEvents where
  "sol_source = \<lparr>ae_Name = '''', ae_Description = '''', ae_Address = ''a'', ae_ExpectedGenesisHash = '''', ae_HTTPURL = '''',
     ae_WSSURL = '''', ae_HTTPSecret = solanaMainnetHTTP, ae_WSSSecret = solanaMainnetWSS, ae_BackfillFrom = None,
     ae_PollInterval = 0, ae_LiveCommitment = ''''\<rparr>"

definition sol_session :: "bool \<Rightarrow> string \<Rightarrow> string \<Rightarrow> Session" where
  "sol_session v c j = \<lparr>ss_state = (if v then ''true'' else ''false''),
     ss_checkpoints = [(addressEventsCursorSource, c), (addressEventsLiveSource, j)], ss_secrets = [], ss_maxEvents = 1\<rparr>"

definition sol_progress :: "addressEventsCursor \<Rightarrow> string list \<Rightarrow> progress" where
  "sol_progress c j = \<lparr>pg_cursor = c, pg_journal = \<lparr>aj_Signatures = j\<rparr>, pg_hints = Map.empty, pg_dirty = False\<rparr>"

definition sol_flips :: "AddressEvent \<Rightarrow> bool \<Rightarrow> bool" where
  "sol_flips event v = (\<not> v)"

lemma sol_laws: "lawful sol_env" "address_json sol_env" "address_private sol_env" "address_effect sol_env sol_flips"
  by (auto simp: lawful_def sol_env_def)
    (auto simp: address_json_def address_private_def address_effect_def leaves_def sol_env_def sol_cursors_def
      sol_journals_def address_handle_def with_update_def flip_def sol_flips_def sol_cursor_def split: if_splits)

lemma sol_settled: "settled sol_source sol_env (sol_progress (sol_cursor 6 '''' 0) [''t'']) (sol_session True ''A'' ''E'')"
  by (simp add: settled_def address_cursor_ok_def journal_ok_def address_saved_def entries_ok_def sol_progress_def
    sol_cursor_def sol_session_def sol_env_def sol_provider_def sol_source_def sol_cursors_def sol_journals_def
    maxAddressLiveEvents_def addressEventsCursorSource_def addressEventsLiveSource_def)

lemma sol_fetch: "GetTransactionsForAddress (az_provider sol_env) (ae_Address sol_source) (history_options slot token 100 True) w =
  (w, Inr sol_page)"
  by (simp add: GetTransactionsForAddress_def history_config_def history_options_def sol_env_def sol_provider_def
    check_def PublicKey_Validate_def ParsePublicKey_def validateBase58Size_def on_ok_def settled_commitment_def
    selectCommitment_def Commitment_Validate_def Finalized_def Processed_def Confirmed_def sol_call_def and_then_def)

lemma sol_commit:
  assumes "map_of sol_cursors c = Some x" "map_of sol_journals j = Some y"
  shows "commitAddressProgress sol_env c j flip (sol_session v a b) w = (sol_session (\<not> v) x y, w, None)"
    "commitAddressProgress sol_env c j None (sol_session v a b) w = (sol_session v x y, w, None)"
  using assms
  by (cases v; auto simp: commitAddressProgress_def session_commit_def Session_Commit_def sol_session_def
    sol_env_def with_update_def flip_def Tx_Checkpoint_def changed_checkpoints_def Let_def
    addressEventsCursorSource_def addressEventsLiveSource_def)+

lemma sol_records [simp]:
  "AddressTransaction_Signature (az_provider sol_env) (sol_record i x) = Inr x" "record_signature sol_env (sol_record i x) = x"
  "at_Slot (sol_record i x) = 7" "at_TransactionIndex (sol_record i x) = i"
  by (simp_all add: record_signature_def AddressTransaction_Signature_def sol_env_def sol_provider_def sol_record_def)

lemma sol_handled: "\<exists>event. record_update sol_env None x (sol_record i y) w = address_handle sol_env event w"
  "address_handle sol_env event w = (w, Inr flip)"
  by (simp_all add: record_update_def AddressTransaction_Payload_def marshal_raw_def on_ok_def matchesTransaction_def
    sol_env_def sol_provider_def sol_record_def address_handle_def Let_def)

lemma sol_update: "record_update sol_env None x (sol_record i y) w = (w, Inr flip)"
  using sol_handled by metis

lemma sol_turn:
  "page_turn sol_source sol_env from token (sol_progress (sol_cursor 6 '''' 0) [''t'']) (sol_session True ''A'' ''E'') () =
    (sol_progress (sol_cursor 7 ''u'' 1) [], sol_session False ''C'' ''D'', (), Inr None)"
proof -
  have maps: "map_of sol_cursors (sol_cursor 7 ''t'' 0) = Some ''B''" "map_of sol_cursors (sol_cursor 7 ''u'' 1) = Some ''C''"
    "map_of sol_journals \<lparr>aj_Signatures = []\<rparr> = Some ''D''"
    by (simp_all add: sol_cursors_def sol_cursor_def sol_journals_def)
  have at: "cursor_at sol_source sol_env x (sol_record i x) = sol_cursor 7 x i" for x i
    by (simp add: cursor_at_def sol_cursor_def sol_env_def sol_provider_def sol_source_def)
  have open_records: "\<not> passed (sol_cursor 6 '''' 0) (sol_record 0 ''t'')" "\<not> passed (sol_cursor 7 ''t'' 0) (sol_record 1 ''u'')"
    by (simp_all add: passed_def sol_cursor_def)
  have first: "handle_record sol_source sol_env (sol_record 0 ''t'') (sol_progress (sol_cursor 6 '''' 0) [''t''])
      (sol_session True ''A'' ''E'') () = (sol_progress (sol_cursor 7 ''t'' 0) [], sol_session True ''B'' ''D'', (), None)"
    using sol_commit(2) [OF maps(1,3)] by (simp add: handle_record_def at sol_progress_def Let_def)
  have second: "handle_record sol_source sol_env (sol_record 1 ''u'') (sol_progress (sol_cursor 7 ''t'' 0) [])
      (sol_session True ''B'' ''D'') () = (sol_progress (sol_cursor 7 ''u'' 1) [], sol_session False ''C'' ''D'', (), None)"
    using sol_commit(1) [OF maps(2,3), of True] sol_update [of "''u''" 1 "''u''" "()"]
    by (simp add: handle_record_def at sol_progress_def Let_def flip_def)
  have clean: "sol_progress c j\<lparr>pg_dirty := False\<rparr> = sol_progress c j" "pg_cursor (sol_progress c j) = c"
    "\<not> pg_dirty (sol_progress c j)" for c j
    by (simp_all add: sol_progress_def)
  show ?thesis
    unfolding page_turn_def sol_fetch
    by (simp add: sol_page_def clean open_records first second)
qed

lemma history_exactly_once_witness:
  "\<exists>m c. durably sol_source sol_env sol_flips [sol_record 0 ''t'', sol_record 1 ''u'']
      (sol_progress (sol_cursor 6 '''' 0) [''t'']) True m c (sol_progress (sol_cursor 7 ''u'' 1) []) (sol_session False ''C'' ''D'') \<and>
    (\<forall>again. Inr None = (Inr again :: string option evm) \<longrightarrow>
       m = length (ahead (sol_cursor 6 '''' 0) [sol_record 0 ''t'', sol_record 1 ''u'']) \<and> c = sol_cursor 7 ''u'' 1)"
proof -
  have v: "decodeState (mv_codec sol_env) (ss_state (sol_session True ''A'' ''E'')) = Inr True"
    by (simp add: sol_env_def sol_session_def)
  have order: "sorted_wrt earlier (ap_Data sol_page)" "distinct (map (record_signature sol_env) (ap_Data sol_page))"
    by (simp_all add: sol_page_def earlier_def)
  from history_exactly_once [OF sol_laws sol_settled v sol_fetch order sol_turn] show ?thesis
    by (simp add: sol_page_def sol_progress_def)
qed

lemma sol_loop:
  "address_loop sol_source sol_env [AddressTick] (sol_progress (sol_cursor 6 '''' 0) [''t'']) (sol_session True ''A'' ''E'') () =
    Some (sol_session False ''C'' ''D'', (), Inr (sol_progress (sol_cursor 7 ''u'' 1) []))"
  by (simp add: address_step_def catchUp_def pages.simps sol_turn caught_up_def)

lemma address_resume_witness:
  "\<exists>c j. (\<forall>x. address_loadCursor sol_source sol_env (sol_session False ''C'' ''D'') x = (sol_session False ''C'' ''D'', x, Inr c)) \<and>
    address_loadLive sol_env (sol_session False ''C'' ''D'') = Inr j \<and>
    length (aj_Signatures j) \<le> 256 \<and> distinct (aj_Signatures j) \<and>
    sol_cursor 7 ''u'' 1 = c \<and> \<lparr>aj_Signatures = []\<rparr> = j"
  using address_resume [OF sol_laws(1-3) sol_settled sol_loop] by (simp add: sol_progress_def)


end
