(* ===== verification/Quicknode.thy ===== *)
theory Quicknode
  imports Discord Secrets EvmTypes
begin

text \<open>
  \<open>catalog/quicknode/client.go\<close> and \<open>subscription.go\<close>: the chain-neutral JSON-RPC transport, over HTTP
  with its retries and over a web socket, and the subscriptions that reconnect.

  What is outside is in the record \<open>transport\<close>: the rate limiter, HTTP, the web socket library, timers,
  the decoding of JSON.  \<open>'w\<close> is the world these run in.  The counter of request IDs is atomic, so
  it is threaded through as a number.
\<close>

section \<open>Endpoints\<close>

record Endpoint =
  ep_HTTPURL :: string
  ep_WSSURL :: string

record QuicknodeConfig =
  qc_Endpoint :: Endpoint
  qc_RequestsPerSecond :: float64
  qc_Burst :: int
  qc_MaxResponseBytes :: int
  qc_WebSocketReadLimit :: int

text \<open>
  An open client: the parsed endpoints, the limits and the rate and burst of its limiter.
\<close>

record quicknodeClient =
  qn_Endpoint :: Endpoint
  qn_http :: "url option"
  qn_wss :: "url option"
  qn_limiter :: "(float64 \<times> int) option"
  qn_maxResponseBytes :: int
  qn_webSocketReadLimit :: int

definition parseEndpoint :: "web \<Rightarrow> string \<Rightarrow> string list \<Rightarrow> url result" where
  "parseEndpoint W raw schemes =
     (case url_Parse W raw of
        None \<Rightarrow> Inl (Errorf ''invalid endpoint URL'')
      | Some u \<Rightarrow>
          if u_Host u = '''' \<or> u_User u \<noteq> None \<or> u_Fragment u \<noteq> '''' then Inl (Errorf ''invalid endpoint URL'')
          else if u_Scheme u \<in> set schemes then Inr u else Inl (Errorf ''invalid endpoint scheme''))"

text \<open>An endpoint that is not configured is \<open>None\<close>.\<close>

definition optional_endpoint :: "web \<Rightarrow> string \<Rightarrow> string list \<Rightarrow> url option result" where
  "optional_endpoint W raw schemes =
     (if raw = '''' then Inr None
      else case parseEndpoint W raw schemes of Inl e \<Rightarrow> Inl (Errorf ''quicknode endpoint'') | Inr u \<Rightarrow> Inr (Some u))"

text \<open>Comparisons of a \<open>float64\<close> with zero, false for NaN as in Go.\<close>

definition float_neg :: "float64 \<Rightarrow> bool" where
  "float_neg f = (case f of NegInf \<Rightarrow> True | Finite r \<Rightarrow> r < 0 | _ \<Rightarrow> False)"

definition float_pos :: "float64 \<Rightarrow> bool" where
  "float_pos f = (case f of PosInf \<Rightarrow> True | Finite r \<Rightarrow> r > 0 | _ \<Rightarrow> False)"

definition defaultLimit :: int where "defaultLimit = 32 * 1024 * 1024"

definition QuicknodeOpen :: "web \<Rightarrow> QuicknodeConfig \<Rightarrow> quicknodeClient result" where
  "QuicknodeOpen W cfg =
     (let endpoint = qc_Endpoint cfg; rps = qc_RequestsPerSecond cfg in
      if ep_HTTPURL endpoint = '''' \<and> ep_WSSURL endpoint = '''' then Inl (Errorf ''quicknode: HTTPURL or WSSURL is required'')
      else if float_neg rps then Inl (Errorf ''quicknode: requests per second cannot be negative'')
      else if qc_Burst cfg < 0 then Inl (Errorf ''quicknode: burst cannot be negative'')
      else if rps = Finite 0 \<and> qc_Burst cfg \<noteq> 0 then Inl (Errorf ''quicknode: burst requires a positive request rate'')
      else let maximum = (if qc_MaxResponseBytes cfg = 0 then defaultLimit else qc_MaxResponseBytes cfg);
               read_limit = (if qc_WebSocketReadLimit cfg = 0 then defaultLimit else qc_WebSocketReadLimit cfg) in
        if maximum < 0 then Inl (Errorf ''quicknode: max response bytes cannot be negative'')
        else if read_limit < 0 then Inl (Errorf ''quicknode: websocket read limit cannot be negative'')
        else case optional_endpoint W (ep_HTTPURL endpoint) [''http'', ''https''] of
          Inl e \<Rightarrow> Inl e
        | Inr h \<Rightarrow> (case optional_endpoint W (ep_WSSURL endpoint) [''ws'', ''wss''] of
            Inl e \<Rightarrow> Inl e
          | Inr s \<Rightarrow> Inr \<lparr>qn_Endpoint = endpoint, qn_http = h, qn_wss = s,
              qn_limiter = (if float_pos rps then Some (rps, if qc_Burst cfg = 0 then 1 else qc_Burst cfg) else None),
              qn_maxResponseBytes = maximum, qn_webSocketReadLimit = read_limit\<rparr>))"

definition RedactEndpoint :: "web \<Rightarrow> string \<Rightarrow> string" where
  "RedactEndpoint W raw =
     (case url_Parse W raw of
        None \<Rightarrow> ''<redacted-endpoint>''
      | Some u \<Rightarrow>
          if u_Host u = '''' then ''<redacted-endpoint>''
          else let v = u\<lparr>u_User := None, u_RawQuery := '''', u_Fragment := ''''\<rparr> in
            url_String W (if u_Path v \<noteq> '''' \<and> u_Path v \<noteq> ''/'' then v\<lparr>u_Path := ''/<redacted>''\<rparr> else v))"

section \<open>Messages\<close>

record rpcRequest =
  rq_ID :: uint64
  rq_Method :: string
  rq_Params :: string

record rpcError =
  re_Code :: int
  re_Message :: string

record rpcResponse =
  rp_JSONRPC :: string
  rp_ID :: uint64
  rp_Result :: string
  rp_Error :: "rpcError option"

datatype call_error = Remote rpcError | Local go_error

abbreviation local :: "string \<Rightarrow> call_error + 'a" where "local msg \<equiv> Inl (Local (Errorf msg))"

text \<open>
  \<open>safeRPCError\<close>: each configured endpoint is replaced in the message, then every part of its path and
  every value of its query, which \<open>values\<close> returns in the order the map is visited.
\<close>

definition replace_nonempty :: "string \<Rightarrow> string \<Rightarrow> string \<Rightarrow> string" where
  "replace_nonempty old new message = (if old = '''' then message else replace_all [(old, new)] message)"

definition hide_endpoint :: "web \<Rightarrow> (url \<Rightarrow> string list) \<Rightarrow> string \<Rightarrow> string \<Rightarrow> string" where
  "hide_endpoint W query raw message =
     (if raw = '''' then message
      else let message = replace_all [(raw, RedactEndpoint W raw)] message in
        case url_Parse W raw of
          None \<Rightarrow> message
        | Some u \<Rightarrow> fold (\<lambda>part. replace_nonempty part ''<redacted>'')
            (split_on (CHR ''/'') (trim_char (CHR ''/'') (u_Path u)) @ query u) message)"

definition safeRPCError :: "web \<Rightarrow> (url \<Rightarrow> string list) \<Rightarrow> quicknodeClient \<Rightarrow> rpcError \<Rightarrow> call_error" where
  "safeRPCError W query c e =
     Remote (e\<lparr>re_Message := fold (hide_endpoint W query) [ep_HTTPURL (qn_Endpoint c), ep_WSSURL (qn_Endpoint c)]
       (re_Message e)\<rparr>)"

section \<open>The outside\<close>

text \<open>
  An HTTP exchange fails or has a status, its \<open>Retry-After\<close> header and a body, which can fail to be
  read.  A web socket is named by a number.  \<open>tp_first\<close> and \<open>tp_whole\<close> decode an answer: its first value,
  and the whole of it, which leaves what it decoded before an error.  \<open>tp_sleep\<close> is a timer against \<open>ctx.Done()\<close>.
\<close>

record http_reply =
  hr_Status :: int
  hr_RetryAfter :: string
  hr_Body :: "string option"

record 'w transport =
  tp_web :: web
  tp_query :: "url \<Rightarrow> string list"
  tp_ctx :: "'w \<Rightarrow> go_error option"
  tp_rate :: "'w \<Rightarrow> 'w \<times> go_error option"
  tp_sleep :: "int \<Rightarrow> 'w \<Rightarrow> 'w \<times> go_error option"
  tp_marshal :: "rpcRequest \<Rightarrow> string option"
  tp_request :: "string \<Rightarrow> bool"
  tp_do :: "string \<Rightarrow> string \<Rightarrow> 'w \<Rightarrow> 'w \<times> http_reply option"
  tp_dial :: "string \<Rightarrow> int \<Rightarrow> 'w \<Rightarrow> 'w \<times> nat option"
  tp_write :: "nat \<Rightarrow> string \<Rightarrow> 'w \<Rightarrow> 'w \<times> go_error option"
  tp_read :: "nat \<Rightarrow> 'w \<Rightarrow> 'w \<times> string option"
  tp_close :: "nat \<Rightarrow> 'w \<Rightarrow> 'w"
  tp_first :: "string \<Rightarrow> rpcResponse option"
  tp_whole :: "string \<Rightarrow> bool \<times> rpcResponse"

definition waitRate :: "'w transport \<Rightarrow> quicknodeClient \<Rightarrow> 'w \<Rightarrow> 'w \<times> go_error option" where
  "waitRate E c w = (case qn_limiter c of None \<Rightarrow> (w, None) | Some _ \<Rightarrow> tp_rate E w)"

text \<open>Delays are nanoseconds.  \<open>strconv.Atoi\<close> is \<open>atoi\<close>, with an optional sign.\<close>

definition atoi :: "string \<Rightarrow> int option" where
  "atoi s =
     (let (neg, digits) = (case s of c # cs \<Rightarrow> if c = CHR ''-'' then (True, cs) else if c = CHR ''+'' then (False, cs) else (False, s)
                           | [] \<Rightarrow> (False, s));
          n = int (foldl atoi_step 0 digits); v = (if neg then - n else n) in
      if digits = [] \<or> \<not> list_all is_digit digits \<or> v < - (2 ^ 63) \<or> v \<ge> 2 ^ 63 then None else Some v)"

definition retryAfter :: "string \<Rightarrow> int" where
  "retryAfter value =
     (case atoi value of None \<Rightarrow> 0 | Some s \<Rightarrow> if s \<ge> 0 \<and> s \<le> 30 then s * 1000000000 else 0)"

definition backoff_delay :: "nat \<Rightarrow> int \<Rightarrow> int" where
  "backoff_delay attempt requested = max (2 ^ attempt * 100 * 1000000) requested"

definition backoff :: "'w transport \<Rightarrow> nat \<Rightarrow> int \<Rightarrow> 'w \<Rightarrow> 'w \<times> go_error option" where
  "backoff E attempt requested w = tp_sleep E (backoff_delay attempt requested) w"

section \<open>Calls\<close>

text \<open>\<open>decode\<close> is \<open>json.Unmarshal\<close> into the caller's target.\<close>

definition decodeResponse ::
    "'w transport \<Rightarrow> quicknodeClient \<Rightarrow> string \<Rightarrow> uint64 \<Rightarrow> (string \<Rightarrow> 'a option) \<Rightarrow> call_error + 'a" where
  "decodeResponse E c payload i decode =
     (case tp_first E payload of
        None \<Rightarrow> local ''quicknode: invalid JSON-RPC response''
      | Some response \<Rightarrow>
          if rp_JSONRPC response \<noteq> ''2.0'' \<or> rp_ID response \<noteq> i then local ''quicknode: invalid JSON-RPC response''
          else case rp_Error response of
            Some e \<Rightarrow> Inl (safeRPCError (tp_web E) (tp_query E) c e)
          | None \<Rightarrow>
              if length (rp_Result response) = 0 then local ''quicknode: JSON-RPC response has no result''
              else case decode (rp_Result response) of
                None \<Rightarrow> local ''quicknode: invalid JSON-RPC result''
              | Some v \<Rightarrow> Inr v)"

text \<open>
  One post of the body, with at most one byte more of the answer than is allowed; the limit is an
  \<open>int64\<close>, whose successor wraps.
\<close>

definition int64_succ :: "int \<Rightarrow> int" where "int64_succ n = (n + 1 + 2 ^ 63) mod 2 ^ 64 - 2 ^ 63"

datatype 'a posted = Again int | Final "call_error + 'a"

definition post_once ::
    "'w transport \<Rightarrow> quicknodeClient \<Rightarrow> string \<Rightarrow> uint64 \<Rightarrow> string \<Rightarrow> (string \<Rightarrow> 'a option) \<Rightarrow> bool \<Rightarrow> 'w \<Rightarrow> 'w \<times> 'a posted" where
  "post_once E c url i body decode last_attempt w =
     (case tp_do E url body w of
        (w1, None) \<Rightarrow> (w1, if \<not> last_attempt \<and> tp_ctx E w1 = None then Again 0 else Final (local ''quicknode: request failed''))
      | (w1, Some reply) \<Rightarrow>
          (w1, case hr_Body reply of
            None \<Rightarrow> Final (local ''quicknode: read response'')
          | Some received \<Rightarrow>
              let payload = take (nat (int64_succ (qn_maxResponseBytes c))) received in
              if int (length payload) > qn_maxResponseBytes c then Final (local ''quicknode: response exceeds the limit'')
              else if (hr_Status reply = 429 \<or> hr_Status reply \<ge> 500) \<and> \<not> last_attempt then Again (retryAfter (hr_RetryAfter reply))
              else if hr_Status reply \<noteq> 200 then Final (local ''quicknode: HTTP status'')
              else Final (decodeResponse E c payload i decode)))"

text \<open>The attempts that are left, of \<open>attempts\<close>.\<close>

fun http_attempts ::
    "'w transport \<Rightarrow> quicknodeClient \<Rightarrow> string \<Rightarrow> uint64 \<Rightarrow> string \<Rightarrow> (string \<Rightarrow> 'a option) \<Rightarrow> nat \<Rightarrow> nat list \<Rightarrow> 'w \<Rightarrow>
     'w \<times> (call_error + 'a)" where
  "http_attempts E c url i body decode attempts [] w = (w, local ''quicknode: retries exhausted'')"
| "http_attempts E c url i body decode attempts (attempt # rest) w =
     (case waitRate E c w of
        (w1, Some e) \<Rightarrow> (w1, Inl (Local e))
      | (w1, None) \<Rightarrow>
          if \<not> tp_request E url then (w1, local ''quicknode: create request'')
          else (case post_once E c url i body decode (Suc attempt \<ge> attempts) w1 of
            (w2, Final r) \<Rightarrow> (w2, r)
          | (w2, Again requested) \<Rightarrow> (case backoff E attempt requested w2 of
              (w3, Some e) \<Rightarrow> (w3, Inl (Local e))
            | (w3, None) \<Rightarrow> http_attempts E c url i body decode attempts rest w3)))"

definition callHTTP ::
    "'w transport \<Rightarrow> quicknodeClient \<Rightarrow> url \<Rightarrow> string \<Rightarrow> string \<Rightarrow> (string \<Rightarrow> 'a option) \<Rightarrow> bool \<Rightarrow> uint64 \<Rightarrow> 'w \<Rightarrow>
     uint64 \<times> 'w \<times> (call_error + 'a)" where
  "callHTTP E c u method params decode retry seq w =
     (let i = seq + 1; attempts = (if retry then 4 else 1) in
      case tp_marshal E \<lparr>rq_ID = i, rq_Method = method, rq_Params = params\<rparr> of
        None \<Rightarrow> (i, w, local ''json: unsupported value'')
      | Some body \<Rightarrow> (i, http_attempts E c (url_String (tp_web E) u) i body decode attempts [0..<attempts] w))"

definition callWSOnce ::
    "'w transport \<Rightarrow> quicknodeClient \<Rightarrow> string \<Rightarrow> string \<Rightarrow> (string \<Rightarrow> 'a option) \<Rightarrow> uint64 \<Rightarrow> 'w \<Rightarrow> uint64 \<times> 'w \<times> (call_error + 'a)" where
  "callWSOnce E c method params decode seq w =
     (case qn_wss c of
        None \<Rightarrow> (seq, w, local ''quicknode: WSS endpoint is required'')
      | Some u \<Rightarrow> (case waitRate E c w of
          (w1, Some e) \<Rightarrow> (seq, w1, Inl (Local e))
        | (w1, None) \<Rightarrow> (case tp_dial E (url_String (tp_web E) u) (qn_webSocketReadLimit c) w1 of
            (w2, None) \<Rightarrow> (seq, w2, local ''quicknode: websocket dial failed'')
          | (w2, Some conn) \<Rightarrow>
              let i = seq + 1 in
              (case tp_marshal E \<lparr>rq_ID = i, rq_Method = method, rq_Params = params\<rparr> of
                 None \<Rightarrow> (i, tp_close E conn w2, local ''quicknode: websocket write failed'')
               | Some request \<Rightarrow> (case tp_write E conn request w2 of
                   (w3, Some e) \<Rightarrow> (i, tp_close E conn w3, local ''quicknode: websocket write failed'')
                 | (w3, None) \<Rightarrow> (case tp_read E conn w3 of
                     (w4, None) \<Rightarrow> (i, tp_close E conn w4, local ''quicknode: websocket response failed'')
                   | (w4, Some payload) \<Rightarrow> (i, tp_close E conn w4, decodeResponse E c payload i decode)))))))"

text \<open>\<open>decode\<close> is \<open>None\<close> for a nil target.\<close>

definition Call ::
    "'w transport \<Rightarrow> quicknodeClient \<Rightarrow> string \<Rightarrow> string \<Rightarrow> (string \<Rightarrow> 'a option) option \<Rightarrow> uint64 \<Rightarrow> 'w \<Rightarrow>
     uint64 \<times> 'w \<times> (call_error + 'a)" where
  "Call E c method params out seq w =
     (if method = '''' then (seq, w, local ''quicknode: JSON-RPC method is required'')
      else case out of
        None \<Rightarrow> (seq, w, local ''quicknode: JSON-RPC result target is required'')
      | Some decode \<Rightarrow> (case qn_http c of
          Some u \<Rightarrow> callHTTP E c u method params decode False seq w
        | None \<Rightarrow> callWSOnce E c method params decode seq w))"

definition CallRead ::
    "'w transport \<Rightarrow> quicknodeClient \<Rightarrow> string \<Rightarrow> string \<Rightarrow> (string \<Rightarrow> 'a option) option \<Rightarrow> uint64 \<Rightarrow> 'w \<Rightarrow>
     uint64 \<times> 'w \<times> (call_error + 'a)" where
  "CallRead E c method params out seq w =
     (case out of
        None \<Rightarrow> Call E c method params out seq w
      | Some decode \<Rightarrow>
          if method = '''' then Call E c method params out seq w
          else (case qn_http c of
            Some u \<Rightarrow> callHTTP E c u method params decode True seq w
          | None \<Rightarrow> callWSOnce E c method params decode seq w))"

definition CallWebSocketRead ::
    "'w transport \<Rightarrow> quicknodeClient \<Rightarrow> string \<Rightarrow> string \<Rightarrow> (string \<Rightarrow> 'a option) option \<Rightarrow> uint64 \<Rightarrow> 'w \<Rightarrow>
     uint64 \<times> 'w \<times> (call_error + 'a)" where
  "CallWebSocketRead E c method params out seq w =
     (if method = '''' then (seq, w, local ''quicknode: JSON-RPC method is required'')
      else case out of
        None \<Rightarrow> (seq, w, local ''quicknode: JSON-RPC result target is required'')
      | Some decode \<Rightarrow> callWSOnce E c method params decode seq w)"

section \<open>Subscriptions\<close>

record wsSpec =
  wp_SubscribeMethod :: string
  wp_NotificationMethod :: string
  wp_Params :: string

text \<open>
  The value of a raw message is a string or a number: what the first byte of valid JSON, after white
  space, decides.
\<close>

definition validSubscriptionID :: "string \<Rightarrow> bool" where
  "validSubscriptionID raw \<longleftrightarrow>
     length raw \<noteq> 0 \<and> raw \<noteq> ''null'' \<and> json_valid raw \<and>
     (case dropWhile json_ws raw of [] \<Rightarrow> False | c # _ \<Rightarrow> c = CHR 0x22 \<or> c = CHR ''-'' \<or> is_digit c)"

text \<open>The handshake of a subscription: the connection and the subscription ID.\<close>

definition subscription_reply ::
    "'w transport \<Rightarrow> quicknodeClient \<Rightarrow> uint64 \<Rightarrow> string \<Rightarrow> call_error + string" where
  "subscription_reply E c i payload =
     (case tp_whole E payload of (decoded, response) \<Rightarrow>
        if \<not> decoded \<or> rp_JSONRPC response \<noteq> ''2.0'' \<or> rp_ID response \<noteq> i \<or> rp_Error response \<noteq> None
        then (case rp_Error response of
          Some e \<Rightarrow> Inl (safeRPCError (tp_web E) (tp_query E) c e)
        | None \<Rightarrow> local ''quicknode: invalid subscription response'')
        else if \<not> validSubscriptionID (rp_Result response) then local ''quicknode: invalid subscription ID''
        else Inr (rp_Result response))"

definition sub_open ::
    "'w transport \<Rightarrow> quicknodeClient \<Rightarrow> url \<Rightarrow> wsSpec \<Rightarrow> uint64 \<Rightarrow> 'w \<Rightarrow> uint64 \<times> 'w \<times> (call_error + nat \<times> string)" where
  "sub_open E c u spec seq w =
     (case waitRate E c w of
        (w1, Some e) \<Rightarrow> (seq, w1, Inl (Local e))
      | (w1, None) \<Rightarrow> (case tp_dial E (url_String (tp_web E) u) (qn_webSocketReadLimit c) w1 of
          (w2, None) \<Rightarrow> (seq, w2, local ''quicknode: websocket dial failed'')
        | (w2, Some conn) \<Rightarrow>
            let i = seq + 1 in
            (case tp_marshal E \<lparr>rq_ID = i, rq_Method = wp_SubscribeMethod spec, rq_Params = wp_Params spec\<rparr> of
               None \<Rightarrow> (i, tp_close E conn w2, local ''quicknode: subscription write failed'')
             | Some request \<Rightarrow> (case tp_write E conn request w2 of
                 (w3, Some e) \<Rightarrow> (i, tp_close E conn w3, local ''quicknode: subscription write failed'')
               | (w3, None) \<Rightarrow> (case tp_read E conn w3 of
                   (w4, None) \<Rightarrow> (i, tp_close E conn w4, local ''quicknode: subscription handshake failed'')
                 | (w4, Some payload) \<Rightarrow> (case subscription_reply E c i payload of
                     Inl e \<Rightarrow> (i, tp_close E conn w4, Inl e)
                   | Inr subscription_id \<Rightarrow> (i, w4, Inr (conn, subscription_id))))))))"

text \<open>
  A subscription: its client, the open connection and its ID.  The goroutine of \<open>read\<close> is the
  function \<open>sub_read\<close>: one turn of its loop with what the world brings.  \<open>Stopped\<close> is the end of
  the loop, after which both channels and the connection are closed, with the error sent first, if any.
  \<open>Crashed\<close> is the nil dereference of \<open>conn.Read\<close> when \<open>Close\<close> has taken the connection away.
\<close>

record subscriptionState =
  su_conn :: "nat option"
  su_id :: string

datatype 'a turn = Delivered 'a | Reconnected | Stopped "call_error option" | Crashed

record notification =
  no_JSONRPC :: string
  no_Method :: string
  no_Subscription :: string
  no_Result :: string

definition Subscribe ::
    "'w transport \<Rightarrow> quicknodeClient option \<Rightarrow> wsSpec \<Rightarrow> uint64 \<Rightarrow> 'w \<Rightarrow> uint64 \<times> 'w \<times> (call_error + subscriptionState)" where
  "Subscribe E client spec seq w =
     (case client of
        None \<Rightarrow> (seq, w, local ''quicknode: subscription client is required'')
      | Some c \<Rightarrow> (case qn_wss c of
          None \<Rightarrow> (seq, w, local ''quicknode: WSS endpoint is required'')
        | Some u \<Rightarrow>
            if wp_SubscribeMethod spec = '''' \<or> wp_NotificationMethod spec = ''''
            then (seq, w, local ''quicknode: subscription and notification methods are required'')
            else (case sub_open E c u spec seq w of
              (seq', w', Inl e) \<Rightarrow> (seq', w', Inl e)
            | (seq', w', Inr (conn, subscription_id)) \<Rightarrow> (seq', w', Inr \<lparr>su_conn = Some conn, su_id = subscription_id\<rparr>))))"

text \<open>The attempts of \<open>reconnect\<close> that are left; the context here is the subscription's own.\<close>

fun reconnect_attempts ::
    "'w transport \<Rightarrow> quicknodeClient \<Rightarrow> url \<Rightarrow> wsSpec \<Rightarrow> subscriptionState \<Rightarrow> nat list \<Rightarrow> uint64 \<Rightarrow> 'w \<Rightarrow>
     uint64 \<times> 'w \<times> subscriptionState \<times> call_error option" where
  "reconnect_attempts E c u spec s [] seq w = (seq, w, s, Some (Local (Errorf ''quicknode: subscription reconnect failed'')))"
| "reconnect_attempts E c u spec s (attempt # rest) seq w =
     (case tp_ctx E w of
        Some e \<Rightarrow> (seq, w, s, Some (Local e))
      | None \<Rightarrow> (case sub_open E c u spec seq w of
          (seq1, w1, Inr (conn, subscription_id)) \<Rightarrow>
            (case tp_ctx E w1 of
               Some e \<Rightarrow> (seq1, tp_close E conn w1, s, Some (Local e))
             | None \<Rightarrow> (seq1, (case su_conn s of None \<Rightarrow> w1 | Some old \<Rightarrow> tp_close E old w1),
                 s\<lparr>su_conn := Some conn, su_id := subscription_id\<rparr>, None))
        | (seq1, w1, Inl _) \<Rightarrow> (case backoff E attempt 0 w1 of
            (w2, Some e) \<Rightarrow> (seq1, w2, s, Some (Local e))
          | (w2, None) \<Rightarrow> reconnect_attempts E c u spec s rest seq1 w2)))"

definition reconnect ::
    "'w transport \<Rightarrow> quicknodeClient \<Rightarrow> url \<Rightarrow> wsSpec \<Rightarrow> subscriptionState \<Rightarrow> uint64 \<Rightarrow> 'w \<Rightarrow>
     uint64 \<times> 'w \<times> subscriptionState \<times> call_error option" where
  "reconnect E c u spec s = reconnect_attempts E c u spec s [0..<4]"

text \<open>\<open>parse\<close> decodes a notification, \<open>decode\<close> its record; \<open>cancelled\<close>: the context ends before the value is taken.\<close>

definition notified ::
    "wsSpec \<Rightarrow> (string \<Rightarrow> notification option) \<Rightarrow> (string \<Rightarrow> 'a option) \<Rightarrow> string \<Rightarrow> string \<Rightarrow> call_error + 'a" where
  "notified spec parse decode subscription_id payload =
     (case parse payload of
        None \<Rightarrow> local ''quicknode: invalid subscription notification''
      | Some n \<Rightarrow>
          if no_JSONRPC n \<noteq> ''2.0'' \<or> no_Method n \<noteq> wp_NotificationMethod spec \<or> no_Subscription n \<noteq> subscription_id
          then local ''quicknode: invalid subscription notification''
          else case decode (no_Result n) of
            None \<Rightarrow> local ''quicknode: invalid subscription record''
          | Some v \<Rightarrow> Inr v)"

definition sub_read ::
    "'w transport \<Rightarrow> quicknodeClient \<Rightarrow> url \<Rightarrow> wsSpec \<Rightarrow> (string \<Rightarrow> notification option) \<Rightarrow> (string \<Rightarrow> 'a option) \<Rightarrow>
     ('w \<Rightarrow> bool) \<Rightarrow> subscriptionState \<Rightarrow> uint64 \<Rightarrow> 'w \<Rightarrow> uint64 \<times> 'w \<times> subscriptionState \<times> 'a turn" where
  "sub_read E c u spec parse decode cancelled s seq w =
     (case su_conn s of
        None \<Rightarrow> (seq, w, s, Crashed)
      | Some conn \<Rightarrow> (case tp_read E conn w of
          (w1, None) \<Rightarrow>
            if tp_ctx E w1 \<noteq> None then (seq, w1, s, Stopped None)
            else (case reconnect E c u spec s seq w1 of
              (seq2, w2, s2, Some e) \<Rightarrow> (seq2, w2, s2, Stopped (Some e))
            | (seq2, w2, s2, None) \<Rightarrow> (seq2, w2, s2, Reconnected))
        | (w1, Some payload) \<Rightarrow> (seq, w1, s, (case notified spec parse decode (su_id s) payload of
              Inl e \<Rightarrow> Stopped (Some e)
            | Inr v \<Rightarrow> if cancelled w1 then Stopped None else Delivered v))))"

text \<open>Closing, which happens once: it cancels the context and closes the connection.\<close>

definition sub_close :: "'w transport \<Rightarrow> ('w \<Rightarrow> 'w) \<Rightarrow> subscriptionState \<Rightarrow> 'w \<Rightarrow> subscriptionState \<times> 'w" where
  "sub_close E cancel s w =
     (s\<lparr>su_conn := None\<rparr>, case su_conn s of None \<Rightarrow> cancel w | Some conn \<Rightarrow> tp_close E conn (cancel w))"

text \<open>
  The loop, with a flag for each turn: whether the owner calls \<open>Close\<close> before it begins.  The result has
  the values delivered and the end, if it came: the error that was sent, or a crash.  A \<open>Close\<close> during
  a turn is what \<open>tp_ctx\<close> and \<open>cancelled\<close> say.
\<close>

datatype finish = Finished "call_error option" | Crash

fun sub_run ::
    "'w transport \<Rightarrow> quicknodeClient \<Rightarrow> url \<Rightarrow> wsSpec \<Rightarrow> (string \<Rightarrow> notification option) \<Rightarrow> (string \<Rightarrow> 'a option) \<Rightarrow>
     ('w \<Rightarrow> bool) \<Rightarrow> ('w \<Rightarrow> 'w) \<Rightarrow> bool list \<Rightarrow> subscriptionState \<Rightarrow> uint64 \<Rightarrow> 'w \<Rightarrow>
     uint64 \<times> 'w \<times> subscriptionState \<times> 'a list \<times> finish option" where
  "sub_run E c u spec parse decode cancelled cancel [] s seq w = (seq, w, s, [], None)"
| "sub_run E c u spec parse decode cancelled cancel (closing # rest) s seq w =
     (case (if closing then sub_close E cancel s w else (s, w)) of (s0, w0) \<Rightarrow>
      (case sub_read E c u spec parse decode cancelled s0 seq w0 of
        (seq1, w1, s1, Stopped e) \<Rightarrow> (case sub_close E cancel s1 w1 of (s2, w2) \<Rightarrow> (seq1, w2, s2, [], Some (Finished e)))
      | (seq1, w1, s1, Crashed) \<Rightarrow> (case sub_close E cancel s1 w1 of (s2, w2) \<Rightarrow> (seq1, w2, s2, [], Some Crash))
      | (seq1, w1, s1, Reconnected) \<Rightarrow> sub_run E c u spec parse decode cancelled cancel rest s1 seq1 w1
      | (seq1, w1, s1, Delivered v) \<Rightarrow>
          (case sub_run E c u spec parse decode cancelled cancel rest s1 seq1 w1 of
             (seq2, w2, s2, vs, e) \<Rightarrow> (seq2, w2, s2, v # vs, e))))"

end
