(* ===== verification/QuicknodeTheorems.thy ===== *)
theory QuicknodeTheorems
  imports Quicknode
begin

text \<open>
  What the transport of \<open>Quicknode\<close> guarantees: how often a request can be submitted, and that every
  web socket it opens is closed or held by a subscription.
\<close>

section \<open>Submissions\<close>

text \<open>\<open>posts\<close> counts the HTTP exchanges of a world; nothing else makes one.\<close>

definition posts_counted :: "'w transport \<Rightarrow> ('w \<Rightarrow> nat) \<Rightarrow> bool" where
  "posts_counted E posts \<longleftrightarrow>
     (\<forall>w. posts (fst (tp_rate E w)) = posts w) \<and> (\<forall>d w. posts (fst (tp_sleep E d w)) = posts w) \<and>
     (\<forall>url body w. posts (fst (tp_do E url body w)) = Suc (posts w)) \<and>
     (\<forall>url n w. posts (fst (tp_dial E url n w)) = posts w) \<and> (\<forall>conn m w. posts (fst (tp_write E conn m w)) = posts w) \<and>
     (\<forall>conn w. posts (fst (tp_read E conn w)) = posts w) \<and> (\<forall>conn w. posts (tp_close E conn w) = posts w)"

lemma posts_waitRate: "posts_counted E posts \<Longrightarrow> posts (fst (waitRate E c w)) = posts w"
  by (simp add: waitRate_def posts_counted_def split: option.splits)

lemma posts_post_once: "posts_counted E posts \<Longrightarrow> posts (fst (post_once E c url i body decode l w)) = Suc (posts w)"
proof -
  assume counted: "posts_counted E posts"
  obtain w1 r where d: "tp_do E url body w = (w1, r)" by fastforce
  then have "posts w1 = Suc (posts w)" using counted by (metis fst_conv posts_counted_def)
  then show ?thesis by (cases r) (simp_all add: post_once_def d)
qed

lemma posts_attempts:
  assumes counted: "posts_counted E posts"
  shows "posts (fst (http_attempts E c url i body decode n attempts w)) \<le> posts w + length attempts"
proof (induction attempts arbitrary: w)
  case (Cons a attempts)
  obtain w1 e where r: "waitRate E c w = (w1, e)" by fastforce
  obtain w2 p where p: "post_once E c url i body decode (Suc a \<ge> n) w1 = (w2, p)" by fastforce
  have same: "posts w1 = posts w" "posts w2 = Suc (posts w)"
    using posts_waitRate [OF counted, of c w] posts_post_once [OF counted, of c url i body decode "Suc a \<ge> n" w1] r p
    by simp_all
  show ?case
  proof (cases p)
    case (Again requested)
    obtain w3 e3 where b: "backoff E a requested w2 = (w3, e3)" by fastforce
    have "posts w3 = posts w2" using counted b by (metis backoff_def fst_conv posts_counted_def)
    then show ?thesis using Cons.IH [of w3] same r p b Again by (simp split: option.splits)
  next
    case (Final x)
    then show ?thesis using same r p by (simp split: option.splits)
  qed
qed simp

lemma posts_callHTTP:
  assumes "posts_counted E posts"
  shows "posts (fst (snd (callHTTP E c u name args decode retry seq w))) \<le> posts w + (if retry then 4 else 1)"
proof -
  define n :: nat where "n = (if retry then 4 else 1)"
  have "posts (fst (http_attempts E c url i body decode n [0..<n] w)) \<le> posts w + n" for url i body
    using posts_attempts [OF assms, of c url i body decode n "[0..<n]" w] by simp
  then show ?thesis by (simp add: callHTTP_def Let_def n_def [symmetric] split: option.splits)
qed

lemma posts_callWSOnce:
  assumes counted: "posts_counted E posts"
  shows "posts (fst (snd (callWSOnce E c name args decode seq w))) = posts w"
proof -
  have steps: "\<And>w w' r. tp_rate E w = (w', r) \<Longrightarrow> posts w' = posts w" "\<And>url n w w' r. tp_dial E url n w = (w', r) \<Longrightarrow> posts w' = posts w"
    "\<And>conn m w w' r. tp_write E conn m w = (w', r) \<Longrightarrow> posts w' = posts w"
    "\<And>conn w w' r. tp_read E conn w = (w', r) \<Longrightarrow> posts w' = posts w" "\<And>conn w. posts (tp_close E conn w) = posts w"
    using counted unfolding posts_counted_def by (metis fst_conv)+
  have rate: "\<And>w' r. waitRate E c w = (w', r) \<Longrightarrow> posts w' = posts w"
    using posts_waitRate [OF counted] by (metis fst_conv)
  show ?thesis
    by (auto simp: callWSOnce_def Let_def steps(5) dest!: steps(1-4) rate split: option.splits prod.splits)
qed

section \<open>Sockets\<close>

text \<open>\<open>live\<close> is the set of the open web sockets of a world; only dialling and closing change it.\<close>

definition sockets_counted :: "'w transport \<Rightarrow> ('w \<Rightarrow> nat set) \<Rightarrow> bool" where
  "sockets_counted E live \<longleftrightarrow>
     (\<forall>w. live (fst (tp_rate E w)) = live w) \<and> (\<forall>d w. live (fst (tp_sleep E d w)) = live w) \<and>
     (\<forall>url n w. case tp_dial E url n w of (w', None) \<Rightarrow> live w' = live w
        | (w', Some conn) \<Rightarrow> conn \<notin> live w \<and> live w' = insert conn (live w)) \<and>
     (\<forall>conn m w. live (fst (tp_write E conn m w)) = live w) \<and> (\<forall>conn w. live (fst (tp_read E conn w)) = live w) \<and>
     (\<forall>conn w. live (tp_close E conn w) = live w - {conn})"

lemma socket_steps:
  assumes "sockets_counted E live"
  shows "waitRate E c w = (w', e) \<Longrightarrow> live w' = live w" "tp_sleep E d w = (w', e) \<Longrightarrow> live w' = live w"
    "tp_dial E url n w = (w', None) \<Longrightarrow> live w' = live w"
    "tp_dial E url n w = (w', Some conn) \<Longrightarrow> conn \<notin> live w \<and> live w' = insert conn (live w)"
    "tp_write E conn m w = (w', e) \<Longrightarrow> live w' = live w" "tp_read E conn w = (w', x) \<Longrightarrow> live w' = live w"
    "live (tp_close E conn w) = live w - {conn}"
proof -
  note all = assms [unfolded sockets_counted_def]
  note c = all [THEN conjunct1, THEN spec] all [THEN conjunct2, THEN conjunct1, THEN spec, THEN spec]
    all [THEN conjunct2, THEN conjunct2, THEN conjunct1, THEN spec, THEN spec, THEN spec]
    all [THEN conjunct2, THEN conjunct2, THEN conjunct2, THEN conjunct1, THEN spec, THEN spec, THEN spec]
    all [THEN conjunct2, THEN conjunct2, THEN conjunct2, THEN conjunct2, THEN conjunct1, THEN spec, THEN spec]
    all [THEN conjunct2, THEN conjunct2, THEN conjunct2, THEN conjunct2, THEN conjunct2, THEN spec, THEN spec]
  have f: "live (fst (tp_rate E w)) = live w" "live (fst (tp_sleep E d w)) = live w"
    "case tp_dial E url n w of (w', None) \<Rightarrow> live w' = live w
        | (w', Some conn) \<Rightarrow> conn \<notin> live w \<and> live w' = insert conn (live w)"
    "live (fst (tp_write E conn m w)) = live w" "live (fst (tp_read E conn w)) = live w"
    by (rule c)+
  show "waitRate E c w = (w', e) \<Longrightarrow> live w' = live w" using f(1) by (cases "qn_limiter c") (auto simp: waitRate_def)
  show "tp_sleep E d w = (w', e) \<Longrightarrow> live w' = live w" using f(2) by simp
  show "tp_dial E url n w = (w', None) \<Longrightarrow> live w' = live w" using f(3) by simp
  show "tp_dial E url n w = (w', Some conn) \<Longrightarrow> conn \<notin> live w \<and> live w' = insert conn (live w)" using f(3) by simp
  show "tp_write E conn m w = (w', e) \<Longrightarrow> live w' = live w" using f(4) by simp
  show "tp_read E conn w = (w', x) \<Longrightarrow> live w' = live w" using f(5) by simp
  show "live (tp_close E conn w) = live w - {conn}" by (rule c)
qed

lemma sub_open_sockets:
  assumes counted: "sockets_counted E live" and run: "sub_open E c u spec seq w = (seq', w', r)"
  shows "case r of Inl e \<Rightarrow> live w' = live w | Inr (conn, i) \<Rightarrow> conn \<notin> live w \<and> live w' = insert conn (live w)"
proof -
  note steps = socket_steps [OF counted]
  obtain w1 e1 where w1: "waitRate E c w = (w1, e1)" by fastforce
  obtain w2 d where w2: "tp_dial E (url_String (tp_web E) u) (qn_webSocketReadLimit c) w1 = (w2, d)" by fastforce
  note simps = run [unfolded sub_open_def w1 w2 Let_def]
  show ?thesis
  proof (cases "e1 = None \<and> d \<noteq> None")
    case False
    then show ?thesis using simps steps(1) [OF w1] steps(3) w2 by (cases e1; cases d) auto
  next
    case True
    then obtain conn where d: "d = Some conn" by auto
    have conn: "conn \<notin> live w" "live w2 = insert conn (live w)"
      using steps(4) [OF w2 [unfolded d]] steps(1) [OF w1] by simp_all
    obtain w3 e3 where w3: "\<And>request. tp_marshal E \<lparr>rq_ID = seq + 1, rq_Method = wp_SubscribeMethod spec,
        rq_Params = wp_Params spec\<rparr> = Some request \<Longrightarrow> tp_write E conn request w2 = (w3, e3)"
      by (metis option.inject surj_pair)
    obtain w4 x where w4: "tp_read E conn w3 = (w4, x)" by fastforce
    show ?thesis
    proof (cases "tp_marshal E \<lparr>rq_ID = seq + 1, rq_Method = wp_SubscribeMethod spec, rq_Params = wp_Params spec\<rparr>")
      case None
      then show ?thesis using simps True d conn steps(7) w2 by auto
    next
      case (Some request)
      have l: "live w3 = live w2" "live w4 = live w2" using steps(5) [OF w3 [OF Some]] steps(6) [OF w4] by simp_all
      show ?thesis
        using simps True d conn steps(7) l Some w2 w3 [OF Some] w4
        by (cases e3; cases x; cases "subscription_reply E c (seq + 1) (the x)") auto
    qed
  qed
qed

text \<open>The sockets that are open besides the one of the subscription.\<close>

definition holds :: "('w \<Rightarrow> nat set) \<Rightarrow> nat set \<Rightarrow> subscriptionState \<Rightarrow> 'w \<Rightarrow> bool" where
  "holds live others s w \<longleftrightarrow> live w = others \<union> set_option (su_conn s) \<and> others \<inter> set_option (su_conn s) = {}"

lemma reconnect_sockets:
  assumes counted: "sockets_counted E live"
  shows "reconnect_attempts E c u spec s attempts seq w = (seq', w', s', e) \<Longrightarrow> holds live others s w \<Longrightarrow> holds live others s' w'"
proof (induction attempts arbitrary: seq w)
  case (Cons a attempts)
  obtain seq1 w1 r where o: "sub_open E c u spec seq w = (seq1, w1, r)" by (metis prod_cases3)
  note kept = sub_open_sockets [OF counted o]
  show ?case
  proof (cases "tp_ctx E w")
    case (Some e)
    then show ?thesis using Cons.prems by simp
  next
    case None
    show ?thesis
    proof (cases r)
      case (Inl e1)
      obtain w2 e2 where b: "backoff E a 0 w1 = (w2, e2)" by fastforce
      have "live w2 = live w" using kept Inl socket_steps(2) [OF counted] b by (simp add: backoff_def)
      then have "holds live others s w2" using Cons.prems(2) by (simp add: holds_def)
      then show ?thesis using Cons None o Inl b by (cases e2) auto
    next
      case (Inr x)
      obtain conn i where x: "x = (conn, i)" by fastforce
      have new: "conn \<notin> live w" "live w1 = insert conn (live w)" using kept Inr x by simp_all
      show ?thesis
        using Cons.prems None o Inr x new socket_steps(7) [OF counted]
        by (auto simp: holds_def split: option.splits)
    qed
  qed
qed simp

lemma sub_read_sockets:
  assumes counted: "sockets_counted E live" and held: "holds live others s w"
    and run: "sub_read E c u spec parse decode cancelled s seq w = (seq', w', s', t)"
  shows "holds live others s' w'"
proof (cases "su_conn s")
  case None
  then show ?thesis using run held by (simp add: sub_read_def)
next
  case (Some conn)
  obtain w1 x where r: "tp_read E conn w = (w1, x)" by fastforce
  have held1: "holds live others s w1" using held socket_steps(6) [OF counted r] by (simp add: holds_def)
  obtain seq2 w2 s2 e where rc: "reconnect E c u spec s seq w1 = (seq2, w2, s2, e)" by (metis prod_cases4)
  have "holds live others s2 w2" by (rule reconnect_sockets [OF counted rc [unfolded reconnect_def] held1])
  then show ?thesis using run held1 Some r rc by (cases x; cases e) (auto simp: sub_read_def split: if_splits)
qed

lemma sub_run_sockets:
  assumes counted: "sockets_counted E live" and cancel: "\<And>w. live (cancel w) = live w"
  shows "sub_run E c u spec parse decode cancelled cancel closes s seq w = (seq', w', s', vs, e) \<Longrightarrow> holds live others s w \<Longrightarrow>
    holds live others s' w' \<and> (e \<noteq> None \<longrightarrow> su_conn s' = None)"
proof (induction closes arbitrary: s seq w vs seq' w' s' e)
  case (Cons b closes)
  have close: "holds live others s w \<Longrightarrow> sub_close E cancel s w = (s', w') \<Longrightarrow> holds live others s' w' \<and> su_conn s' = None"
    for s w s' w'
    using cancel socket_steps(7) [OF counted] by (cases "su_conn s") (auto simp: sub_close_def holds_def)
  obtain s0 w0 where c0: "(if b then sub_close E cancel s w else (s, w)) = (s0, w0)" by fastforce
  have held0: "holds live others s0 w0" using Cons.prems(2) close [OF Cons.prems(2), of s0 w0] c0 by (cases b) simp_all
  obtain seq1 w1 s1 t where r: "sub_read E c u spec parse decode cancelled s0 seq w0 = (seq1, w1, s1, t)" by (metis prod_cases4)
  have held: "holds live others s1 w1" by (rule sub_read_sockets [OF counted held0 r])
  obtain s2 w2 where c2: "sub_close E cancel s1 w1 = (s2, w2)" by fastforce
  obtain seq3 w3 s3 vs3 e3 where run: "sub_run E c u spec parse decode cancelled cancel closes s1 seq1 w1 = (seq3, w3, s3, vs3, e3)"
    by (metis prod_cases5)
  show ?case
    using Cons.prems(1) Cons.IH [OF run held] close [OF held c2]
    by (cases t) (auto simp: c0 r c2 run)
qed simp

section \<open>Closing a subscription\<close>

text \<open>
  Without a \<open>Close\<close> from outside the goroutine never crashes; one that comes between a value and the
  next read takes the connection away and it does.
\<close>

lemma reconnect_conn:
  "reconnect_attempts E c u spec s attempts seq w = (seq', w', s', e) \<Longrightarrow> su_conn s \<noteq> None \<Longrightarrow> su_conn s' \<noteq> None"
proof (induction attempts arbitrary: seq w)
  case (Cons a attempts)
  obtain seq1 w1 r where o: "sub_open E c u spec seq w = (seq1, w1, r)" by (metis prod_cases3)
  obtain w2 e2 where b: "backoff E a 0 w1 = (w2, e2)" by fastforce
  show ?case
    using Cons.prems Cons.IH [of seq1 w2]
    by (cases "tp_ctx E w"; cases r; cases e2) (auto simp: o b split: option.splits)
qed simp

lemma sub_read_conn:
  "sub_read E c u spec parse decode cancelled s seq w = (seq', w', s', t) \<Longrightarrow> su_conn s \<noteq> None \<Longrightarrow>
     su_conn s' \<noteq> None \<and> t \<noteq> Crashed"
proof -
  assume run: "sub_read E c u spec parse decode cancelled s seq w = (seq', w', s', t)" and some: "su_conn s \<noteq> None"
  then obtain conn where conn: "su_conn s = Some conn" by blast
  obtain w1 x where r: "tp_read E conn w = (w1, x)" by fastforce
  obtain seq2 w2 s2 e where rc: "reconnect E c u spec s seq w1 = (seq2, w2, s2, e)" by (metis prod_cases4)
  have "su_conn s2 \<noteq> None" by (rule reconnect_conn [OF rc [unfolded reconnect_def] some])
  then show ?thesis using run conn r rc some
    by (cases x; cases e; cases "notified spec parse decode (su_id s) (the x)") (auto simp: sub_read_def split: if_splits)
qed

lemma unclosed_never_crashes:
  assumes "sub_run E c u spec parse decode cancelled cancel closes s seq w = (seq', w', s', vs, e)"
    and "\<forall>b\<in>set closes. \<not> b" and "su_conn s \<noteq> None"
  shows "e \<noteq> Some Crash"
  using assms
proof (induction closes arbitrary: s seq w vs seq' w' s' e)
  case (Cons b closes)
  obtain seq1 w1 s1 t where r: "sub_read E c u spec parse decode cancelled s seq w = (seq1, w1, s1, t)" by (metis prod_cases4)
  obtain s2 w2 where c2: "sub_close E cancel s1 w1 = (s2, w2)" by fastforce
  obtain seq3 w3 s3 vs3 e3 where run: "sub_run E c u spec parse decode cancelled cancel closes s1 seq1 w1 = (seq3, w3, s3, vs3, e3)"
    by (metis prod_cases5)
  show ?case
    using Cons.prems(1,2) Cons.IH [OF run] sub_read_conn [OF r Cons.prems(3)]
    by (cases t) (auto simp: r c2 run)
qed simp

lemma close_can_crash:
  assumes "sub_read E c u spec parse decode cancelled s seq w = (seq1, w1, s1, Delivered v)"
  shows "\<exists>seq' w' s'. sub_run E c u spec parse decode cancelled cancel [False, True] s seq w = (seq', w', s', [v], Some Crash)"
proof -
  have "sub_read E c u spec parse decode cancelled (s1\<lparr>su_conn := None\<rparr>) seq1 w2 = (seq1, w2, s1\<lparr>su_conn := None\<rparr>, Crashed)" for w2
    by (simp add: sub_read_def)
  then show ?thesis by (simp add: assms sub_close_def)
qed

section \<open>A limit that reads nothing\<close>

text \<open>
  With the largest \<open>int64\<close> as the limit, an unlimited answer, the limit of the reader wraps below zero
  and every answer is read as empty.
\<close>

lemma unlimited_reads_nothing:
  "take (nat (int64_succ (2 ^ 63 - 1))) payload = []"
  by (simp add: int64_succ_def)

section \<open>Properties\<close>

text \<open>
  C35: a call that is not a read is submitted over HTTP at most once, whatever fails, since a
  submission can have side effects; a read at most four times.
\<close>

theorem call_submits_once:
  assumes "posts_counted E posts"
  shows "posts (fst (snd (Call E c name args out seq w))) \<le> posts w + 1 \<and>
    posts (fst (snd (CallRead E c name args out seq w))) \<le> posts w + 4"
proof -
  have call: "posts (fst (snd (Call E c name args out seq w))) \<le> posts w + 1"
    using posts_callHTTP [OF assms, of c _ name args "the out" False seq w]
    by (auto simp: Call_def posts_callWSOnce [OF assms] split: option.splits)
  then show ?thesis
    using posts_callHTTP [OF assms, of c _ name args "the out" True seq w]
    by (auto simp: CallRead_def posts_callWSOnce [OF assms] split: option.splits)
qed

text \<open>
  C36: no web socket leaks.  Whatever the other end and the network do, over every reconnection the
  sockets that are open are those that were open before the subscription and the one it holds, and
  when its goroutine has ended it holds none, whenever its owner calls \<open>Close\<close>.
\<close>

theorem sockets_accounted:
  assumes "sockets_counted E live" and "\<And>w. live (cancel w) = live w"
    and "Subscribe E (Some c) spec seq w = (seq1, w1, Inr s)" and "qn_wss c = Some u"
    and "sub_run E c u spec parse decode cancelled cancel closes s seq1 w1 = (seq2, w2, s2, vs, e)"
  shows "live w2 = live w \<union> set_option (su_conn s2) \<and> live w \<inter> set_option (su_conn s2) = {} \<and>
    (e \<noteq> None \<longrightarrow> live w2 = live w)"
proof -
  obtain conn i where o: "sub_open E c u spec seq w = (seq1, w1, Inr (conn, i))" and s: "su_conn s = Some conn"
    using assms(3,4) by (auto simp: Subscribe_def split: if_splits prod.splits sum.splits)
  have "holds live (live w) s w1" using sub_open_sockets [OF assms(1) o] s by (simp add: holds_def)
  from sub_run_sockets [OF assms(1,2,5) this] show ?thesis by (auto simp: holds_def)
qed

section \<open>Samples\<close>

text \<open>A world of how many exchanges there were and which sockets are open; nothing answers twice.\<close>

definition qn_url :: url where
  "qn_url = \<lparr>u_Scheme = ''wss'', u_Host = ''h'', u_Path = '''', u_RawQuery = '''', u_Fragment = '''', u_User = None\<rparr>"

definition qn_web :: web where
  "qn_web = \<lparr>url_Parse = (\<lambda>_. Some qn_url), query_Has = (\<lambda>_ _. False), query_Set = (\<lambda>_ _ _. ''''), url_String = (\<lambda>_. ''u''),
     rfc3339 = (\<lambda>_. '''')\<rparr>"

definition qn_transport :: "(nat \<times> nat set) transport" where
  "qn_transport = \<lparr>tp_web = qn_web, tp_query = (\<lambda>_. []), tp_ctx = (\<lambda>_. None), tp_rate = (\<lambda>w. (w, None)),
     tp_sleep = (\<lambda>_ w. (w, None)), tp_marshal = (\<lambda>r. Some (rq_Method r)), tp_request = (\<lambda>_. True),
     tp_do = (\<lambda>_ _ (n, l). ((Suc n, l), None)),
     tp_dial = (\<lambda>_ _ (n, l). if 0 \<in> l then ((n, l), None) else ((n, insert 0 l), Some 0)),
     tp_write = (\<lambda>_ _ w. (w, None)), tp_read = (\<lambda>_ w. (w, Some ''x'')), tp_close = (\<lambda>conn (n, l). (n, l - {conn})),
     tp_first = (\<lambda>_. None), tp_whole = (\<lambda>_. (True, \<lparr>rp_JSONRPC = ''2.0'', rp_ID = 1, rp_Result = ''7'', rp_Error = None\<rparr>))\<rparr>"

definition qn_client :: quicknodeClient where
  "qn_client = \<lparr>qn_Endpoint = \<lparr>ep_HTTPURL = ''u'', ep_WSSURL = ''u''\<rparr>, qn_http = Some qn_url, qn_wss = Some qn_url,
     qn_limiter = None, qn_maxResponseBytes = 10, qn_webSocketReadLimit = 10\<rparr>"

definition qn_spec :: wsSpec where
  "qn_spec = \<lparr>wp_SubscribeMethod = ''s'', wp_NotificationMethod = ''n'', wp_Params = ''''\<rparr>"

lemma call_submits_once_witness:
  "fst (fst (snd (Call qn_transport qn_client ''m'' '''' (Some Some) 0 (0, {})))) \<le> 0 + 1 \<and>
    fst (fst (snd (CallRead qn_transport qn_client ''m'' '''' (Some Some) 0 (0, {})))) \<le> 0 + 4"
  using call_submits_once [of qn_transport fst qn_client "''m''" "''''" "Some Some" 0 "(0, {})"]
  by (simp add: posts_counted_def qn_transport_def split_beta)

lemma sockets_accounted_witness:
  "\<exists>seq w s e. sub_run qn_transport qn_client qn_url qn_spec (\<lambda>_. None) Some (\<lambda>_. False) (\<lambda>w. w) [False]
      \<lparr>su_conn = Some 0, su_id = ''7''\<rparr> 1 (0, {0, 5}) = (seq, w, s, [], Some e) \<and> snd w = {5}"
proof -
  have counted: "sockets_counted qn_transport snd"
    by (auto simp: sockets_counted_def qn_transport_def split_beta)
  have valid: "validSubscriptionID ''7''"
    by (simp add: validSubscriptionID_def json_valid_def is_digit_def byte_def) code_simp
  have opened: "Subscribe qn_transport (Some qn_client) qn_spec 0 (0, {5}) = (1, (0, {0, 5}), Inr \<lparr>su_conn = Some 0, su_id = ''7''\<rparr>)"
    by (simp add: Subscribe_def sub_open_def waitRate_def subscription_reply_def valid qn_transport_def qn_client_def
      qn_spec_def Let_def)
  have run: "sub_run qn_transport qn_client qn_url qn_spec (\<lambda>_. None) Some (\<lambda>_. False) (\<lambda>w. w) [False]
      \<lparr>su_conn = Some 0, su_id = ''7''\<rparr> 1 (0, {0, 5}) =
      (1, (0, {5}), \<lparr>su_conn = None, su_id = ''7''\<rparr>, [], Some (Finished (Some (Local (Errorf ''quicknode: invalid subscription notification'')))))"
    by (simp add: sub_read_def sub_close_def notified_def qn_transport_def)
  have "qn_wss qn_client = Some qn_url" by (simp add: qn_client_def)
  from sockets_accounted [OF counted refl opened this run] show ?thesis using run by simp
qed

end
