(* ===== verification/MonitorConfig.thy ===== *)
theory MonitorConfig
  imports Discord Protocol
begin

text \<open>
  \<open>internal/monitor/config.go\<close> and \<open>internal/model/types.go\<close>: the authored configuration of a monitor,
  after YAML, and what it is validated to; the names of monitors.

  The YAML decoder is a parameter: it gives the documents of the file, each a \<open>fileConfig\<close> or an
  error.  \<open>time.ParseDuration\<close> is the argument \<open>go_duration\<close>.  Durations are nanoseconds in an \<open>int64\<close>.
\<close>

section \<open>Names\<close>

definition name_rune :: "nat \<Rightarrow> bool" where
  "name_rune r \<longleftrightarrow> 97 \<le> r \<and> r \<le> 122 \<or> 48 \<le> r \<and> r \<le> 57 \<or> r = 45 \<or> r = 95 \<or> r = 46"

definition validName :: "string \<Rightarrow> bool" where
  "validName name \<longleftrightarrow> name \<noteq> '''' \<and> list_all (\<lambda>(r, _). name_rune r) (runes name)"

definition ParseMonitorName :: "string \<Rightarrow> string result" where
  "ParseMonitorName value = (if \<not> validName value then Inl (Errorf ''invalid monitor name'') else Inr value)"

definition MonitorName_Validate :: "string \<Rightarrow> go_error option" where
  "MonitorName_Validate n = (if \<not> validName n then Some (Errorf ''invalid monitor name'') else None)"

section \<open>The file\<close>

record fileDelivery =
  fd_Discord :: "Discord option"
  fd_OpenClaw :: "OpenClaw option"
  fd_RateLimit :: RateLimit

record fileConfig =
  fc_TTL :: string
  fc_Persistent :: bool
  fc_Deliveries :: "fileDelivery list"
  fc_FailureThreshold :: "int option"
  fc_MaxPerTransaction :: "int option"
  fc_Retention :: string

record Config =
  cf_TTL :: int
  cf_Persistent :: bool
  cf_Deliveries :: "Delivery list"
  cf_Policy :: DeploymentPolicy

section \<open>Durations\<close>

text \<open>An \<open>int64\<close> result, and \<open>strconv.ParseInt(s, 10, 32)\<close>.\<close>

definition int64_wrap :: "int \<Rightarrow> int" where "int64_wrap n = (n + 2 ^ 63) mod 2 ^ 64 - 2 ^ 63"

definition parse_int32 :: "string \<Rightarrow> int option" where
  "parse_int32 s =
     (let (neg, digits) = (case s of c # cs \<Rightarrow> if c = CHR ''-'' then (True, cs) else if c = CHR ''+'' then (False, cs) else (False, s)
                           | [] \<Rightarrow> (False, s));
          n = int (foldl atoi_step 0 digits); v = (if neg then - n else n) in
      if digits = [] \<or> \<not> list_all is_digit digits \<or> v < - (2 ^ 31) \<or> v \<ge> 2 ^ 31 then None else Some v)"

definition day :: int where "day = 24 * 60 * 60 * 1000000000"

definition parseDuration :: "(string \<Rightarrow> int option) \<Rightarrow> string \<Rightarrow> int result" where
  "parseDuration go_duration value =
     (if value \<noteq> '''' \<and> last value = CHR ''d''
      then (case parse_int32 (butlast value) of
          None \<Rightarrow> Inl (Errorf ''not a positive duration'')
        | Some days \<Rightarrow> if days \<le> 0 then Inl (Errorf ''not a positive duration'') else Inr (int64_wrap (days * day)))
      else case go_duration value of
        None \<Rightarrow> Inl (Errorf ''time: invalid duration'')
      | Some d \<Rightarrow> if d \<le> 0 then Inl (Errorf ''must be positive'') else Inr d)"

definition requiredDuration :: "(string \<Rightarrow> int option) \<Rightarrow> string \<Rightarrow> int result" where
  "requiredDuration go_duration value =
     (if TrimSpace value = '''' then Inl (Errorf ''duration is required'')
      else case go_duration value of
        None \<Rightarrow> Inl (Errorf ''time: invalid duration'')
      | Some d \<Rightarrow> if d \<le> 0 then Inl (Errorf ''duration must be positive'') else Inr d)"

section \<open>Validation\<close>

definition file_policy :: "(string \<Rightarrow> int option) \<Rightarrow> fileConfig \<Rightarrow> DeploymentPolicy result" where
  "file_policy go_duration raw =
     (let value = TrimSpace (fc_Retention raw) in
      case (if value \<noteq> '''' then parseDuration go_duration value else Inr (30 * day)) of
        Inl e \<Rightarrow> Inl (Errorf ''events.retention'')
      | Inr retention \<Rightarrow>
          let policy = \<lparr>po_FailureThreshold = (case fc_FailureThreshold raw of None \<Rightarrow> 3 | Some n \<Rightarrow> n),
                po_MaxPerTransaction = (case fc_MaxPerTransaction raw of None \<Rightarrow> MaxEventsPerTransaction | Some n \<Rightarrow> n),
                po_Retention = retention\<rparr> in
          (case DeploymentPolicy_Validate policy of Some e \<Rightarrow> Inl e | None \<Rightarrow> Inr policy))"

definition file_ttl :: "(string \<Rightarrow> int option) \<Rightarrow> fileConfig \<Rightarrow> int result" where
  "file_ttl go_duration raw =
     (if fc_Persistent raw
      then (if TrimSpace (fc_TTL raw) \<noteq> '''' then Inl (Errorf ''ttl cannot be combined with persistent: true'') else Inr 0)
      else requiredDuration go_duration (fc_TTL raw))"

definition file_destination :: "fileDelivery \<Rightarrow> Delivery" where
  "file_destination item =
     \<lparr>dl_Discord = map_option (\<lambda>d. \<lparr>dc_Account = TrimSpace (dc_Account d), dc_ChannelID = TrimSpace (dc_ChannelID d),
        dc_ThreadID = TrimSpace (dc_ThreadID d), dc_WebhookURL = TrimSpace (dc_WebhookURL d),
        dc_Mentions = TrimSpace (dc_Mentions d)\<rparr>) (fd_Discord item),
      dl_OpenClaw = map_option (\<lambda>c. \<lparr>oc_Account = TrimSpace (oc_Account c), oc_Prompt = TrimSpace (oc_Prompt c),
        oc_AgentID = TrimSpace (oc_AgentID c), oc_URL = TrimSpace (oc_URL c)\<rparr>) (fd_OpenClaw item),
      dl_RateLimit = fd_RateLimit item\<rparr>"

fun file_deliveries :: "web \<Rightarrow> fileDelivery list \<Rightarrow> Delivery list result" where
  "file_deliveries W [] = Inr []"
| "file_deliveries W (item # items) =
     (case Delivery_Validate W (file_destination item) of
        Some e \<Rightarrow> Inl (Errorf ''deliveries'')
      | None \<Rightarrow> (case file_deliveries W items of
          Inl e \<Rightarrow> Inl e
        | Inr ds \<Rightarrow> Inr (file_destination item # ds)))"

definition fileConfig_validate :: "web \<Rightarrow> (string \<Rightarrow> int option) \<Rightarrow> fileConfig \<Rightarrow> Config result" where
  "fileConfig_validate W go_duration raw =
     (case file_policy go_duration raw of
        Inl e \<Rightarrow> Inl e
      | Inr policy \<Rightarrow> (case file_ttl go_duration raw of
          Inl e \<Rightarrow> Inl e
        | Inr ttl \<Rightarrow> (case file_deliveries W (fc_Deliveries raw) of
            Inl e \<Rightarrow> Inl e
          | Inr ds \<Rightarrow> Inr \<lparr>cf_TTL = ttl, cf_Persistent = fc_Persistent raw, cf_Deliveries = ds, cf_Policy = policy\<rparr>)))"

text \<open>\<open>documents\<close> is the file, if it opens: what each call of the decoder returns.\<close>

definition LoadConfig ::
    "web \<Rightarrow> (string \<Rightarrow> int option) \<Rightarrow> fileConfig option list option \<Rightarrow> Config result" where
  "LoadConfig W go_duration documents =
     (case documents of
        None \<Rightarrow> Inl (Errorf ''open monitor.yaml'')
      | Some (Some raw # []) \<Rightarrow> (case fileConfig_validate W go_duration raw of
          Inl e \<Rightarrow> Inl (Errorf ''invalid monitor.yaml'')
        | Inr c \<Rightarrow> Inr c)
      | Some (Some raw # Some _ # _) \<Rightarrow> Inl (Errorf ''parse monitor.yaml: multiple YAML documents are not supported'')
      | Some _ \<Rightarrow> Inl (Errorf ''parse monitor.yaml''))"

section \<open>What a valid configuration is\<close>

definition config_ok :: "web \<Rightarrow> Config \<Rightarrow> bool" where
  "config_ok W c \<longleftrightarrow> DeploymentPolicy_Validate (cf_Policy c) = None \<and>
     list_all (\<lambda>d. Delivery_Validate W d = None) (cf_Deliveries c) \<and> (if cf_Persistent c then cf_TTL c = 0 else 0 < cf_TTL c)"

lemma file_deliveries_Inr:
  "file_deliveries W items = Inr ds \<Longrightarrow> ds = map file_destination items \<and> list_all (\<lambda>d. Delivery_Validate W d = None) ds"
  by (induction items arbitrary: ds) (auto split: option.splits sum.splits)

lemma LoadConfig_ok: "LoadConfig W go_duration documents = Inr c \<Longrightarrow> config_ok W c"
proof -
  assume "LoadConfig W go_duration documents = Inr c"
  then obtain raw where "fileConfig_validate W go_duration raw = Inr c"
    by (auto simp: LoadConfig_def split: option.splits list.splits sum.splits)
  then show ?thesis
    using file_deliveries_Inr [of W "fc_Deliveries raw"]
    by (auto simp: fileConfig_validate_def config_ok_def file_policy_def file_ttl_def requiredDuration_def Let_def
      split: sum.splits option.splits if_splits)
qed

text \<open>
  A retention in days is multiplied in an \<open>int64\<close>: from 106752 days it wraps, and 213504 days, over
  584 years, are accepted as less than one day.
\<close>

lemma retention_wraps: "0 < int64_wrap (213504 * day) \<and> int64_wrap (213504 * day) < day"
  by (simp add: int64_wrap_def day_def)

text \<open>Days are only understood in \<open>events.retention\<close>; a \<open>ttl\<close> goes to \<open>time.ParseDuration\<close> as it is.\<close>

lemma ttl_without_days:
  assumes "go_duration ''30d'' = None" and "\<not> fc_Persistent raw" and "fc_TTL raw = ''30d''"
  shows "\<exists>e. fileConfig_validate W go_duration raw = Inl e"
  using assms
  by (auto simp: fileConfig_validate_def file_ttl_def requiredDuration_def split: sum.splits)

end
