(* ===== verification/Operate.thy ===== *)
theory Operate
  imports MonitorConfig Queries Outbox
begin

text \<open>
  The commands that change deployments: \<open>internal/cli\<close> (\<open>deploy.go\<close>, \<open>lifecycle.go\<close>, \<open>state.go\<close>,
  \<open>checkpoints.go\<close>, \<open>events.go\<close>) over \<open>internal/monitor\<close> (\<open>source.go\<close>, \<open>build.go\<close>, \<open>describe.go\<close>).

  A command reads the store and writes it in two transactions; the daemon can commit between them,
  which is the argument \<open>between\<close>.  The file system and the processes a build runs are the records
  \<open>files\<close> and \<open>toolchain\<close>, parameters.  What a command prints is not modelled.
\<close>

section \<open>Paths and sources\<close>

definition path_Join :: "string \<Rightarrow> string \<Rightarrow> string" where
  "path_Join a b = path_Clean (a @ ''/'' @ b)"

definition path_Base :: "string \<Rightarrow> string" where
  "path_Base p =
     (if p = '''' then ''.''
      else let q = rev (dropWhile (\<lambda>c. c = CHR ''/'') (rev p)) in
        if q = '''' then ''/'' else rev (takeWhile (\<lambda>c. c \<noteq> CHR ''/'') (rev q)))"

datatype stat_result = Missing | Directory | RegularFile

record files =
  fs_abs :: "string \<Rightarrow> string option"
  fs_stat :: "string \<Rightarrow> stat_result"
  fs_entries :: "string \<Rightarrow> (string \<times> bool) list option"
  fs_documents :: "string \<Rightarrow> fileConfig option list option"

definition ResolveDir :: "files \<Rightarrow> string \<Rightarrow> string \<Rightarrow> (string \<times> string) result" where
  "ResolveDir F monitorsDir target =
     (if validName target \<and> fs_stat F (path_Join monitorsDir target) = Directory
      then Inr (path_Join monitorsDir target, target)
      else case fs_abs F target of
        None \<Rightarrow> Inl (Errorf ''resolve monitor path'')
      | Some dir \<Rightarrow> (case fs_stat F dir of
          Missing \<Rightarrow> Inl (Errorf ''monitor not found'')
        | RegularFile \<Rightarrow> Inl (Errorf ''monitor source must be a directory'')
        | Directory \<Rightarrow> (case ParseMonitorName (path_Base dir) of
            Inl e \<Rightarrow> Inl (Errorf ''monitor directory name is not a valid monitor name'')
          | Inr name \<Rightarrow> Inr (dir, name))))"

section \<open>Building\<close>

record Request =
  rb_Dir :: string
  rb_Name :: string
  rb_Config :: Config
  rb_Current :: string

record BuildResult =
  br_Artifact :: Artifact
  br_Description :: MonitorFrame
  br_State :: string

text \<open>
  The outside of a build: \<open>go mod tidy\<close>, the directories, \<open>go build\<close>, the binary it leaves, the
  binary run with \<open>--describe\<close> on a state, the JSON of its frame both ways, a hash, and whether the
  build directory could be renamed or the artifact was there.
\<close>

record toolchain =
  tc_tidy :: "go_error option"
  tc_dirs :: "go_error option"
  tc_compile :: "string \<Rightarrow> go_error option"
  tc_describe :: "string \<Rightarrow> string option"
  tc_parse :: "string \<Rightarrow> MonitorFrame option"
  tc_marshal :: "MonitorFrame \<Rightarrow> string option"
  tc_binary :: "string option"
  tc_hash :: "string \<Rightarrow> string"
  tc_published :: "string \<Rightarrow> bool"

definition go_file :: "string \<times> bool \<Rightarrow> bool" where
  "go_file entry \<longleftrightarrow> \<not> snd entry \<and> has_prefix (rev ''.go'') (rev (fst entry))"

definition validateDir :: "files \<Rightarrow> Request \<Rightarrow> string result" where
  "validateDir F req =
     (case MonitorName_Validate (rb_Name req) of
        Some e \<Rightarrow> Inl e
      | None \<Rightarrow>
          if length (cf_Deliveries (rb_Config req)) = 0 then Inl (Errorf ''monitor requires at least one delivery'')
          else case fs_abs F (rb_Dir req) of
            None \<Rightarrow> Inl (Errorf ''resolve monitor dir'')
          | Some dir \<Rightarrow> (case fs_stat F dir of
              Missing \<Rightarrow> Inl (Errorf ''stat monitor dir'')
            | RegularFile \<Rightarrow> Inl (Errorf ''monitor source must be a directory'')
            | Directory \<Rightarrow> (case fs_entries F dir of
                None \<Rightarrow> Inl (Errorf ''read monitor dir'')
              | Some entries \<Rightarrow>
                  if \<not> list_ex go_file entries then Inl (Errorf ''monitor dir contains no .go files'') else Inr dir)))"

definition describe :: "toolchain \<Rightarrow> string \<Rightarrow> MonitorFrame result" where
  "describe T state =
     (case tc_describe T state of
        None \<Rightarrow> Inl (Errorf ''describe monitor'')
      | Some output \<Rightarrow> (case tc_parse T output of
          None \<Rightarrow> Inl (Errorf ''parse monitor description'')
        | Some described \<Rightarrow>
            if Info_Validate (mf_Info described) \<noteq> None then Inl (Errorf ''invalid monitor description'')
            else if \<not> json_valid (mf_State described) then Inl (Errorf ''invalid monitor description state'')
            else Inr described))"

definition ValidateState :: "toolchain \<Rightarrow> string \<Rightarrow> string result" where
  "ValidateState T state = (case describe T state of Inl e \<Rightarrow> Inl e | Inr described \<Rightarrow> Inr (mf_State described))"

definition Build :: "files \<Rightarrow> toolchain \<Rightarrow> string \<Rightarrow> Request \<Rightarrow> BuildResult result" where
  "Build F T artifactsDir req =
     (case validateDir F req of
        Inl e \<Rightarrow> Inl e
      | Inr dir \<Rightarrow> (case tc_tidy T of
          Some e \<Rightarrow> Inl e
        | None \<Rightarrow> (case tc_dirs T of
            Some e \<Rightarrow> Inl e
          | None \<Rightarrow> (case tc_compile T dir of
              Some e \<Rightarrow> Inl e
            | None \<Rightarrow> (case describe T (rb_Current req) of
                Inl e \<Rightarrow> Inl e
              | Inr description \<Rightarrow> (case tc_marshal T (description\<lparr>mf_State := ''''\<rparr>) of
                  None \<Rightarrow> Inl (Errorf ''encode description'')
                | Some describeJSON \<Rightarrow> (case tc_binary T of
                    None \<Rightarrow> Inl (Errorf ''read built monitor'')
                  | Some contents \<Rightarrow>
                      let contentHash = hex_encode (tc_hash T contents);
                          finalPath = path_Join (path_Join artifactsDir contentHash) ''monitor'' in
                      if \<not> tc_published T contentHash then Inl (Errorf ''publish artifact'')
                      else Inr \<lparr>br_Artifact = \<lparr>art_ID = contentHash, art_ContentHash = contentHash, art_Path = finalPath,
                                  art_Describe = describeJSON, art_CreatedAt = None\<rparr>,
                                br_Description = description\<lparr>mf_State := ''''\<rparr>, br_State = mf_State description\<rparr>)))))))"

section \<open>Deploying\<close>

text \<open>The JSON of a configuration and of a delivery, and the hash of the former.\<close>

record deploy_codec =
  dp_config :: "Config \<Rightarrow> string option"
  dp_delivery :: "Delivery \<Rightarrow> string option"
  dp_hash :: "string \<Rightarrow> string"

fun encode_destinations :: "deploy_codec \<Rightarrow> Delivery list \<Rightarrow> string list result" where
  "encode_destinations C [] = Inr []"
| "encode_destinations C (d # ds) =
     (case dp_delivery C d of
        None \<Rightarrow> Inl (Errorf ''encode destination'')
      | Some raw \<Rightarrow> (case encode_destinations C ds of Inl e \<Rightarrow> Inl e | Inr raws \<Rightarrow> Inr (raw # raws)))"

text \<open>
  What is deployed for a directory, name and configuration; \<open>existing\<close> is what the first read of the
  store found.
\<close>

definition deploy_request ::
    "files \<Rightarrow> toolchain \<Rightarrow> deploy_codec \<Rightarrow> string \<Rightarrow> string \<Rightarrow> string \<Rightarrow> Config \<Rightarrow> bool \<Rightarrow> int \<Rightarrow> deployment_row result \<Rightarrow>
     DeployInput result" where
  "deploy_request F T C artifactsDir dir name c resetState now existing =
     (if (\<exists>d. existing = Inr d \<and> d_status d = DepArchived)
      then Inl (Errorf ''archived deployments cannot be redeployed; purge it or choose another name'')
      else if resetState \<and> existing = Inl ErrNotFound then Inl (Errorf ''--reset-state requires an existing deployment'')
      else case Build F T artifactsDir \<lparr>rb_Dir = dir, rb_Name = name, rb_Config = c,
          rb_Current = (case existing of Inr d \<Rightarrow> if resetState then '''' else d_state d | Inl _ \<Rightarrow> '''')\<rparr> of
        Inl e \<Rightarrow> Inl e
      | Inr built \<Rightarrow> (case dp_config C c of
          None \<Rightarrow> Inl (Errorf ''json: unsupported value'')
        | Some configRaw \<Rightarrow>
            if existing \<noteq> Inl ErrNotFound \<and> (\<exists>e. existing = Inl e) then Inl (case existing of Inl e \<Rightarrow> e | Inr _ \<Rightarrow> ErrNotFound)
            else case encode_destinations C (cf_Deliveries c) of
              Inl e \<Rightarrow> Inl e
            | Inr destinations \<Rightarrow> Inr \<lparr>di_Name = name, di_InfoName = in_Name (mf_Info (br_Description built)),
                di_SourceDir = dir, di_ConfigHash = hex_encode (dp_hash C configRaw), di_Artifact = br_Artifact built,
                di_State = br_State built, di_FailureThreshold = po_FailureThreshold (cf_Policy c),
                di_MaxEvents = po_MaxPerTransaction (cf_Policy c), di_EventRetention = po_Retention (cf_Policy c),
                di_ExpiresAt = (if cf_Persistent c then None else Some (now + cf_TTL c)), di_Destinations = destinations,
                di_ExpectedStateRevision = (case existing of Inr d \<Rightarrow> Some (d_state_revision d) | Inl _ \<Rightarrow> None)\<rparr>))"

text \<open>\<open>deploy\<close>: \<open>now\<close> is the clock, \<open>newID\<close> the random ID of a new deployment.\<close>

definition cli_deploy ::
    "env \<Rightarrow> web \<Rightarrow> (string \<Rightarrow> int option) \<Rightarrow> files \<Rightarrow> toolchain \<Rightarrow> deploy_codec \<Rightarrow> string \<Rightarrow> string \<Rightarrow> string \<Rightarrow> string \<Rightarrow> bool \<Rightarrow>
     string \<Rightarrow> int \<Rightarrow> (store \<Rightarrow> store) \<Rightarrow> store \<Rightarrow> (store \<times> string) result" where
  "cli_deploy E W go_duration F T C monitorsDir artifactsDir target overrideName resetState newID now between s =
     (case ResolveDir F monitorsDir target of
        Inl e \<Rightarrow> Inl e
      | Inr (dir, resolved) \<Rightarrow>
          (case (if overrideName \<noteq> '''' then ParseMonitorName overrideName else Inr resolved) of
             Inl e \<Rightarrow> Inl e
           | Inr name \<Rightarrow> (case LoadConfig W go_duration (fs_documents F dir) of
               Inl e \<Rightarrow> Inl e
             | Inr c \<Rightarrow> (case deploy_request F T C artifactsDir dir name c resetState now (GetDeployment name s) of
                 Inl e \<Rightarrow> Inl e
               | Inr input \<Rightarrow> Deploy E input newID now (between s)))))"

section \<open>Life cycle\<close>

definition cli_archive :: "string \<Rightarrow> int \<Rightarrow> (store \<Rightarrow> store) \<Rightarrow> store \<Rightarrow> (store \<times> unit) result" where
  "cli_archive selector now between s =
     (case GetDeployment selector s of
        Inl e \<Rightarrow> Inl e
      | Inr d \<Rightarrow> if d_status d = DepActive then Inl (Errorf ''pause the deployment before archiving it'')
                 else ArchiveDeployment (d_id d) now (between s))"

definition cli_purge :: "string \<Rightarrow> bool \<Rightarrow> (store \<Rightarrow> store) \<Rightarrow> store \<Rightarrow> (store \<times> unit) result" where
  "cli_purge selector force between s =
     (case GetDeployment selector s of
        Inl e \<Rightarrow> Inl e
      | Inr d \<Rightarrow> if d_status d \<noteq> DepArchived then Inl (Errorf ''archive the deployment before purging it'')
                 else (case PurgeDeploymentSafe (d_id d) force (between s) of
                   Inl (Errorf m) \<Rightarrow>
                     Inl (Errorf (if m = ''queued deliveries remain''
                       then ''queued deliveries remain; retry later or use --force'' else m))
                 | r \<Rightarrow> r))"

definition cli_pause :: "string \<Rightarrow> int \<Rightarrow> (store \<Rightarrow> store) \<Rightarrow> store \<Rightarrow> (store \<times> unit) result" where
  "cli_pause selector now between s =
     (case GetDeployment selector s of Inl e \<Rightarrow> Inl e | Inr d \<Rightarrow> PauseDeployment (d_id d) now (between s))"

definition cli_resume :: "string \<Rightarrow> int \<Rightarrow> bool \<Rightarrow> int \<Rightarrow> (store \<Rightarrow> store) \<Rightarrow> store \<Rightarrow> (store \<times> unit) result" where
  "cli_resume selector ttl persistent now between s =
     (if persistent = (ttl > 0) then Inl (Errorf ''set exactly one of --ttl or --persistent'')
      else case GetDeployment selector s of
        Inl e \<Rightarrow> Inl e
      | Inr d \<Rightarrow> ResumeDeployment (d_id d) (if ttl > 0 then Some (now + ttl) else None) now (between s))"

section \<open>State, checkpoints and events\<close>

definition cli_stateGet :: "string \<Rightarrow> store \<Rightarrow> string result" where
  "cli_stateGet selector s = (case GetDeployment selector s of Inl e \<Rightarrow> Inl e | Inr d \<Rightarrow> Inr (d_state d))"

text \<open>\<open>T\<close> is the deployed binary; \<open>raw\<close> is the file, if it could be read.\<close>

definition replace_validated ::
    "toolchain \<Rightarrow> string \<Rightarrow> string \<Rightarrow> int \<Rightarrow> (store \<Rightarrow> store) \<Rightarrow> store \<Rightarrow> (store \<times> int) result" where
  "replace_validated T selector candidate now between s =
     (case GetRuntimeDeployment selector s of
        Inl e \<Rightarrow> Inl e
      | Inr m \<Rightarrow> (case ValidateState T candidate of
          Inl e \<Rightarrow> Inl e
        | Inr canonical \<Rightarrow>
            ReplaceState (d_id (rd_Deployment m)) (d_state_revision (rd_Deployment m)) canonical now (between s)))"

definition cli_stateSet ::
    "toolchain \<Rightarrow> string \<Rightarrow> string option \<Rightarrow> int \<Rightarrow> (store \<Rightarrow> store) \<Rightarrow> store \<Rightarrow> (store \<times> int) result" where
  "cli_stateSet T selector raw now between s =
     (case raw of
        None \<Rightarrow> Inl (Errorf ''read state file'')
      | Some text \<Rightarrow> if \<not> json_valid text then Inl (Errorf ''file does not contain valid JSON'')
                  else replace_validated T selector text now between s)"

definition cli_stateClear ::
    "toolchain \<Rightarrow> string \<Rightarrow> int \<Rightarrow> (store \<Rightarrow> store) \<Rightarrow> store \<Rightarrow> (store \<times> int) result" where
  "cli_stateClear T selector now between s = replace_validated T selector '''' now between s"

definition cli_checkpointsClear :: "string \<Rightarrow> bool \<Rightarrow> int \<Rightarrow> (store \<Rightarrow> store) \<Rightarrow> store \<Rightarrow> (store \<times> nat) result" where
  "cli_checkpointsClear selector all_flag now between s =
     (if \<not> all_flag then Inl (Errorf ''pass --all to clear every checkpoint'')
      else case GetDeployment selector s of
        Inl e \<Rightarrow> Inl e
      | Inr d \<Rightarrow>
          if d_status d \<noteq> DepInactive then Inl (Errorf ''pause the deployment before clearing checkpoints'')
          else case ClearCheckpoints (d_id d) now (between s) of
            Inl e \<Rightarrow> Inl (if e = ErrInvalidStatus then Errorf ''pause the deployment before clearing checkpoints'' else e)
          | Inr r \<Rightarrow> Inr r)"

definition cli_listEvents :: "string \<Rightarrow> int \<Rightarrow> bool \<Rightarrow> (store \<Rightarrow> store) \<Rightarrow> store \<Rightarrow> OutboxHistory list result" where
  "cli_listEvents selector limit dead between s =
     (case GetDeployment selector s of
        Inl e \<Rightarrow> Inl e
      | Inr d \<Rightarrow> Inr (ListOutboxHistory (d_id d) limit dead (between s)))"

definition cli_retryEvent :: "string \<Rightarrow> string \<Rightarrow> int \<Rightarrow> store \<Rightarrow> (store \<times> unit) result" where
  "cli_retryEvent outboxID destination now s = RetryDeadDelivery outboxID destination now s"

end
