(* ===== verification/OperateTheorems.thy ===== *)
theory OperateTheorems
  imports Operate DeliveryTheorems Sample
begin

text \<open>
  What the commands guarantee: what \<open>deploy\<close> hands to the store is always admissible there, it installs
  the new binary's reading of the state the store has at that moment, and \<open>state set\<close> is refused when
  the state moved after it was read.
\<close>

section \<open>Valid names\<close>

lemma name_rune_plain: "name_rune (byte c) \<Longrightarrow> plain_char c"
  by (auto simp: name_rune_def plain_char_def)

lemma validName_plain:
  assumes "validName s"
  shows "\<forall>c\<in>set s. plain_char c"
proof
  fix c assume c: "c \<in> set s"
  have runes: "\<forall>p\<in>set (runes s). name_rune (fst p)"
    using assms by (auto simp: validName_def list_all_iff)
  then have "\<forall>p\<in>set (runes s). fst p < 128" by (auto simp: name_rune_def)
  then have "(byte c, [c]) \<in> set (runes s)" using runes_ascii_only c by blast
  then show "plain_char c" using runes name_rune_plain by fastforce
qed

lemma validName_trim: "validName s \<Longrightarrow> TrimSpace s = s \<and> s \<noteq> ''''"
  using TrimSpace_plain [OF validName_plain] by (simp add: validName_def)

lemma split_on_chars: "c \<in> set s \<Longrightarrow> c = sep \<or> (\<exists>w\<in>set (split_on sep s). c \<in> set w)"
proof (induction s)
  case (Cons d s)
  then show ?case by (cases "split_on sep s") auto
qed simp

lemma info_name_trim:
  assumes "infoNamePattern s"
  shows "TrimSpace s = s"
proof (rule TrimSpace_plain, rule ballI)
  fix c assume "c \<in> set s"
  from split_on_chars [OF this, of "CHR ''-''"]
  consider "c = CHR ''-''" | w where "w \<in> set (split_on (CHR ''-'') s)" "c \<in> set w" by blast
  then show "plain_char c"
  proof cases
    case 2
    then have "kebab_char c" using assms by (auto simp: infoNamePattern_def list_all_iff)
    then show ?thesis by (auto simp: kebab_char_def plain_char_def)
  qed (simp add: plain_char_def byte_def)
qed

lemma Info_Validate_trim: "Info_Validate i = None \<Longrightarrow> TrimSpace (in_Name i) \<noteq> ''''"
  using info_name_trim [of "in_Name i"] by (auto simp: Info_Validate_def split: if_splits)

section \<open>What deploy hands to the store\<close>

lemma encode_destinations_length: "encode_destinations C ds = Inr raws \<Longrightarrow> length raws = length ds"
  by (induction ds arbitrary: raws) (auto split: option.splits sum.splits)

lemma Build_Inr:
  assumes "Build F T artifactsDir req = Inr built"
  obtains described where "describe T (rb_Current req) = Inr described" "mf_Info (br_Description built) = mf_Info described"
    "br_State built = mf_State described" "Info_Validate (mf_Info described) = None" "json_valid (mf_State described)"
    "cf_Deliveries (rb_Config req) \<noteq> []"
  using assms
  by (auto simp: Build_def validateDir_def describe_def Let_def split: sum.splits option.splits if_splits stat_result.splits)

lemma deploy_request_Inr:
  assumes "deploy_request F T C artifactsDir dir name c resetState now existing = Inr input"
  obtains described where
    "describe T (case existing of Inr d \<Rightarrow> if resetState then '''' else d_state d | Inl _ \<Rightarrow> '''') = Inr described"
    "Info_Validate (mf_Info described) = None" "json_valid (mf_State described)" "cf_Deliveries c \<noteq> []"
    "di_Name input = name" "di_InfoName input = in_Name (mf_Info described)" "di_State input = mf_State described"
    "di_ExpectedStateRevision input = (case existing of Inr d \<Rightarrow> Some (d_state_revision d) | Inl _ \<Rightarrow> None)"
    "\<exists>raws. encode_destinations C (cf_Deliveries c) = Inr raws \<and> di_Destinations input = raws"
    "di_FailureThreshold input = po_FailureThreshold (cf_Policy c)" "di_MaxEvents input = po_MaxPerTransaction (cf_Policy c)"
    "di_EventRetention input = po_Retention (cf_Policy c)" "\<exists>raw. di_ConfigHash input = hex_encode (dp_hash C raw)"
    "existing = Inl ErrNotFound \<or> (\<exists>d. existing = Inr d \<and> d_status d \<noteq> DepArchived)"
proof -
  let ?req = "\<lparr>rb_Dir = dir, rb_Name = name, rb_Config = c,
      rb_Current = (case existing of Inr d \<Rightarrow> if resetState then '''' else d_state d | Inl _ \<Rightarrow> '''')\<rparr>"
  obtain built where built: "Build F T artifactsDir ?req = Inr built"
    using assms by (auto simp: deploy_request_def split: if_splits sum.splits)
  from Build_Inr [OF built] obtain described where d:
    "describe T (case existing of Inr d \<Rightarrow> if resetState then '''' else d_state d | Inl _ \<Rightarrow> '''') = Inr described"
    "mf_Info (br_Description built) = mf_Info described" "br_State built = mf_State described"
    "Info_Validate (mf_Info described) = None" "json_valid (mf_State described)" "cf_Deliveries c \<noteq> []"
    by auto
  have ex: "existing = Inl ErrNotFound \<or> (\<exists>d. existing = Inr d \<and> d_status d \<noteq> DepArchived)"
    using assms built by (cases existing) (auto simp: deploy_request_def split: if_splits option.splits)
  show ?thesis
    by (rule that [OF d(1,4,5,6)]; use assms built d ex in \<open>simp add: deploy_request_def split: if_splits option.splits sum.splits\<close>)
      auto
qed

lemma policy_bounds:
  "DeploymentPolicy_Validate p = None \<Longrightarrow>
     1 \<le> po_FailureThreshold p \<and> 1 \<le> po_MaxPerTransaction p \<and> po_MaxPerTransaction p \<le> 256 \<and> 0 < po_Retention p"
  by (auto simp: DeploymentPolicy_Validate_def MaxEventsPerTransaction_def split: if_splits)

text \<open>
  Whatever the build and the configuration are, what \<open>deploy\<close> hands to the store passes the
  store's own check of a deployment: a valid configuration and name and a binary whose description
  was accepted leave nothing that \<open>Deploy\<close> refuses as incomplete.
\<close>

theorem deploy_admissible:
  assumes "deploy_request F T C artifactsDir dir name c resetState now existing = Inr input"
    and "config_ok W c" and "validName name" and "\<forall>raw. dp_hash C raw \<noteq> ''''"
  shows "\<not> invalidDeploy input"
  using assms(1)
proof (cases rule: deploy_request_Inr)
  case (1 described)
  then obtain raws raw where e: "encode_destinations C (cf_Deliveries c) = Inr raws" "di_Destinations input = raws"
    "di_ConfigHash input = hex_encode (dp_hash C raw)" by blast
  have "raws \<noteq> []" using encode_destinations_length [OF e(1)] 1(4) by auto
  moreover have "DeploymentPolicy_Validate (cf_Policy c) = None" using assms(2) by (simp add: config_ok_def)
  ultimately show ?thesis
    using 1(3,5-7,10-12) e(2,3) policy_bounds [of "cf_Policy c"] validName_trim [OF assms(3)] Info_Validate_trim [OF 1(2)] assms(4)
    by (simp add: invalidDeploy_def not_less not_le)
qed

section \<open>The state that is installed\<close>

lemma Deploy_existing:
  assumes inv: "store_inv s" and op: "Deploy E input newID now s = Inr (s', i)"
    and old: "old \<in> set (deployments s)" "d_name old = di_Name input"
  shows "i = d_id old" "di_ExpectedStateRevision input = Some (d_state_revision old)"
    "\<exists>d'. find_deployment i s' = Some d' \<and> d_state d' = di_State input \<and> d_state_revision d' = d_state_revision old + 1"
proof -
  have names: "find (\<lambda>d. d_name d = di_Name input) (deployments s) = Some old"
  proof -
    obtain x where x: "find (\<lambda>d. d_name d = di_Name input) (deployments s) = Some x"
      using old by (cases "find (\<lambda>d. d_name d = di_Name input) (deployments s)") (auto simp: find_None_iff)
    then have "x \<in> set (deployments s)" "d_name x = di_Name input" by (auto simp: find_Some_iff)
    then have "x = old" using old store_invD(1) [OF inv] by (auto simp: keys_ok_def dest: uniqD)
    then show ?thesis using x by simp
  qed
  from op have *: "i = d_id old \<and> di_ExpectedStateRevision input = Some (d_state_revision old) \<and>
     (\<exists>d'. find_deployment i s' = Some d' \<and> d_state d' = di_State input \<and> d_state_revision d' = d_state_revision old + 1)"
  proof (cases rule: Deploy_Inr)
    case (updated s1 art s2 old')
    have [simp]: "old' = old" using updated(3) names by simp
    obtain f where up: "i = d_id old" "di_ExpectedStateRevision input = Some (d_state_revision old)"
      "deployments s2 = update_where (\<lambda>d. d_id d = d_id old) f (deployments s1)"
      "\<And>d. d_id (f d) = d_id d \<and> d_state (f d) = di_State input \<and> d_state_revision (f d) = d_state_revision d + 1"
      using updated(4) by (auto simp: updateDeployment_def split: if_splits)
    have "f old \<in> set (deployments s')"
      using updated(5) up(3) old(1) artifacts_only(1) [OF updated(1)] by (auto simp: finishDeploy_rows intro: update_where_hit)
    moreover have "keys_ok s'" using Deploy_inv [OF inv op] by (rule store_invD)
    ultimately show ?thesis using up(1,2,4) by (auto simp: find_deployment_iff intro!: exI [of _ "f old"])
  qed (simp add: names)
  then show "i = d_id old" "di_ExpectedStateRevision input = Some (d_state_revision old)"
    "\<exists>d'. find_deployment i s' = Some d' \<and> d_state d' = di_State input \<and> d_state_revision d' = d_state_revision old + 1"
    by blast+
qed


section \<open>A sample deploy\<close>

definition sample_file :: fileConfig where
  "sample_file = \<lparr>fc_TTL = '''', fc_Persistent = True,
     fc_Deliveries = [\<lparr>fd_Discord = dl_Discord sample_discord, fd_OpenClaw = None, fd_RateLimit = dl_RateLimit sample_discord\<rparr>],
     fc_FailureThreshold = None, fc_MaxPerTransaction = None, fc_Retention = ''''\<rparr>"

definition sample_config :: Config where
  "sample_config = \<lparr>cf_TTL = 0, cf_Persistent = True, cf_Deliveries = [sample_discord],
     cf_Policy = \<lparr>po_FailureThreshold = 3, po_MaxPerTransaction = 256, po_Retention = 30 * day\<rparr>\<rparr>"

definition sample_files :: files where
  "sample_files = \<lparr>fs_abs = Some, fs_stat = (\<lambda>_. Directory), fs_entries = (\<lambda>_. Some [(''main.go'', False)]),
     fs_documents = (\<lambda>_. Some [Some sample_file])\<rparr>"

text \<open>The sample binary reads an empty state as \<open>{}\<close> and any other as \<open>1\<close>.\<close>

definition sample_frame_of :: "string \<Rightarrow> MonitorFrame" where
  "sample_frame_of state = \<lparr>mf_Info = \<lparr>in_Name = ''info'', in_Description = ''''\<rparr>,
     mf_Plan = \<lparr>pd_Kind = ''run'', pd_Interval = 0, pd_Timeout = 0, pd_Secrets = []\<rparr>,
     mf_State = (if state = '''' then ''{}'' else ''1'')\<rparr>"

definition sample_toolchain :: toolchain where
  "sample_toolchain = \<lparr>tc_tidy = None, tc_dirs = None, tc_compile = (\<lambda>_. None), tc_describe = Some,
     tc_parse = (\<lambda>out. Some (sample_frame_of out)), tc_marshal = (\<lambda>_. Some ''{}''), tc_binary = Some ''bin'',
     tc_hash = (\<lambda>s. s), tc_published = (\<lambda>_. True)\<rparr>"

definition sample_codec :: deploy_codec where
  "sample_codec = \<lparr>dp_config = (\<lambda>_. Some ''c''), dp_delivery = (\<lambda>_. Some ''{}''), dp_hash = (\<lambda>_. ''c'')\<rparr>"

lemma sample_discord_valid: "Delivery_Validate sample_web sample_discord = None"
  by (simp add: Delivery_Validate_def RateLimit_Validate_def Discord_Validate_def sample_discord_def TrimSpace_plain
      plain_char_def byte_def ParseMentions_def MentionNone_def isAccountName_def isSnowflake_def runes_ascii)

lemma sample_config_ok: "config_ok sample_web sample_config"
  by (simp add: config_ok_def sample_config_def sample_discord_valid DeploymentPolicy_Validate_def
      MaxEventsPerTransaction_def day_def)

lemma sample_file_loads: "LoadConfig sample_web go_duration (fs_documents sample_files dir) = Inr sample_config"
proof -
  have "file_destination \<lparr>fd_Discord = dl_Discord sample_discord, fd_OpenClaw = None,
      fd_RateLimit = dl_RateLimit sample_discord\<rparr> = sample_discord"
    by (simp add: file_destination_def sample_discord_def TrimSpace_plain plain_char_def byte_def)
  then show ?thesis
    by (simp add: LoadConfig_def sample_files_def fileConfig_validate_def file_policy_def file_ttl_def sample_file_def
        sample_config_def sample_discord_valid DeploymentPolicy_Validate_def MaxEventsPerTransaction_def day_def Let_def)
qed

lemma mon_valid: "validName ''mon''"
  by (simp add: validName_def name_rune_def runes_ascii byte_def)

lemma info_valid: "Info_Validate \<lparr>in_Name = ''info'', in_Description = ''''\<rparr> = None"
  by (simp add: Info_Validate_def infoNamePattern_def kebab_char_def byte_def)

lemmas sample_build = deploy_request_def Build_def validateDir_def MonitorName_Validate_def mon_valid describe_def
  sample_files_def sample_toolchain_def sample_codec_def sample_frame_of_def info_valid json_valid_braces
  go_file_def Let_def

definition sample_built :: Artifact where
  "sample_built = \<lparr>art_ID = hex_encode ''bin'', art_ContentHash = hex_encode ''bin'',
     art_Path = path_Join (path_Join ''/a'' (hex_encode ''bin'')) ''monitor'', art_Describe = ''{}'', art_CreatedAt = None\<rparr>"

lemma json_valid_one: "json_valid ''1''"
  by (simp add: json_eval)

lemma sample_request:
  assumes "existing = Inl ErrNotFound \<or> (\<exists>d. existing = Inr d \<and> d_status d \<noteq> DepArchived)"
  shows "\<exists>input. deploy_request sample_files sample_toolchain sample_codec ''/a'' dir ''mon'' sample_config False now existing =
      Inr input \<and> di_Name input = ''mon'' \<and> di_Destinations input = [''{}''] \<and> di_Artifact input = sample_built \<and>
      di_EventRetention input = 30 * day \<and> di_InfoName input = ''info'' \<and> json_valid (di_State input) \<and>
      di_ConfigHash input = hex_encode ''c'' \<and> di_FailureThreshold input = 3 \<and> di_MaxEvents input = 256 \<and>
      di_ExpectedStateRevision input = (case existing of Inr d \<Rightarrow> Some (d_state_revision d) | Inl _ \<Rightarrow> None)"
  using assms
  by (auto simp: sample_build sample_config_def sample_built_def json_valid_one split: sum.splits)

lemma deploy_admissible_witness:
  "\<exists>input. deploy_request sample_files sample_toolchain sample_codec ''/a'' ''/m/mon'' ''mon'' sample_config False 5
      (Inl ErrNotFound) = Inr input \<and> \<not> invalidDeploy input"
proof -
  obtain input where "deploy_request sample_files sample_toolchain sample_codec ''/a'' ''/m/mon'' ''mon'' sample_config False 5
      (Inl ErrNotFound) = Inr input" using sample_request by blast
  from this deploy_admissible [OF this sample_config_ok mon_valid] show ?thesis by (simp add: sample_codec_def)
qed

lemma sample_deploy:
  "\<exists>s'. cli_deploy sample_env sample_web (\<lambda>_. None) sample_files sample_toolchain sample_codec ''/m'' ''/a'' ''mon'' '''' False
      ''new'' 50 (run_calls sample_env []) sample_store = Inr (s', ''dep'')"
proof -
  obtain d where d: "GetDeployment ''mon'' sample_store = Inr d" "d_status d \<noteq> DepArchived" "d_state_revision d = 0"
    by (simp add: GetDeployment_def sample_eval)
  obtain input where
    req: "deploy_request sample_files sample_toolchain sample_codec ''/a'' (path_Join ''/m'' ''mon'') ''mon'' sample_config False 50
      (Inr d) = Inr input"
    and i: "di_Name input = ''mon''" "di_Destinations input = [''{}'']" "di_EventRetention input = 30 * day"
      "di_ExpectedStateRevision input = Some 0" "di_Artifact input = sample_built" "di_InfoName input = ''info''"
      "json_valid (di_State input)" "di_ConfigHash input = hex_encode ''c''" "di_FailureThreshold input = 3"
      "di_MaxEvents input = 256"
    using d sample_request [of "Inr d" "path_Join ''/m'' ''mon''" 50] by auto
  have "\<not> invalidDeploy input"
    by (simp add: invalidDeploy_def i trim_eval day_def)
  moreover obtain s1 art where put: "putArtifact sample_built 50 sample_store = Inr (s1, art)"
    "deployments s1 = deployments sample_store"
    by (simp add: putArtifact_def sample_built_def path_Join_def path_Clean_def json_valid_braces hex_encode_def hex_digit_def
        byte_def sample_eval default_text_def)
  ultimately have "\<exists>s'. Deploy sample_env input ''new'' 50 sample_store = Inr (s', ''dep'')"
    by (simp add: Deploy_def i json_valid_braces updateDeployment_def sample_store_eq Milliseconds_def day_def)
  moreover have "fs_stat sample_files p = Directory" for p by (simp add: sample_files_def)
  ultimately show ?thesis by (simp add: cli_deploy_def ResolveDir_def mon_valid sample_file_loads d(1) req)
qed


section \<open>The default target\<close>

text \<open>
  \<open>deploy\<close> without an argument resolves the target \<open>.\<close>, which is also a valid monitor name: when the
  directory of monitors exists, that is what is deployed, under the name \<open>.\<close>, and not the current
  directory.
\<close>

lemma default_target:
  assumes "fs_stat F (path_Join monitorsDir ''.'') = Directory"
  shows "ResolveDir F monitorsDir ''.'' = Inr (path_Join monitorsDir ''.'', ''.'')"
proof -
  have "validName ''.''" by (simp add: validName_def name_rune_def runes_ascii byte_def)
  then show ?thesis using assms by (simp add: ResolveDir_def)
qed

lemma default_target_directory: "path_Join ''/home/me/.monitord/monitors'' ''.'' = ''/home/me/.monitord/monitors''"
  by (simp add: path_Join_def path_Clean_def)

end
