(* ===== verification/Database.thy ===== *)
theory Database
  imports Retention
begin

text \<open>
  \<open>internal/storage/schema.go\<close>: the creation and the migrations of the database's schema, with
  \<open>schema.sql\<close> as statements.  SQLite is modelled as far as these use it: a statement that creates
  what exists, or changes what does not, fails, and a transaction that fails leaves the database as
  it was.
\<close>

section \<open>The schema\<close>

record cursor_values =
  cv_after_rowid :: int
  cv_through_rowid :: int
  cv_next_sweep_at :: int

text \<open>Tables have their columns, indexes their table and columns; the rows are those the scripts change.\<close>

record database =
  db_version :: int
  db_tables :: "(string \<times> string list) list"
  db_indexes :: "(string \<times> string \<times> string list) list"
  db_cursors :: "(string \<times> cursor_values) list"

datatype statement =
    CreateTable string "string list"
  | CreateIndex string string "string list"
  | AddColumn string string
  | ResetCursor string

definition reset_cursor :: "string \<Rightarrow> string \<times> cursor_values \<Rightarrow> string \<times> cursor_values" where
  "reset_cursor name row =
     (if fst row = name then (fst row, \<lparr>cv_after_rowid = 0, cv_through_rowid = 0, cv_next_sweep_at = 0\<rparr>) else row)"

fun exec_statement :: "statement \<Rightarrow> database \<Rightarrow> database result" where
  "exec_statement (CreateTable t cols) db =
     (if map_of (db_tables db) t \<noteq> None then Inl (Errorf ''table already exists'')
      else Inr (db\<lparr>db_tables := db_tables db @ [(t, cols)]\<rparr>))"
| "exec_statement (CreateIndex i t cols) db =
     (if map_of (db_indexes db) i \<noteq> None then Inl (Errorf ''index already exists'')
      else case map_of (db_tables db) t of
        None \<Rightarrow> Inl (Errorf ''no such table'')
      | Some present \<Rightarrow> if \<not> list_all (\<lambda>c. c \<in> set present) cols then Inl (Errorf ''no such column'')
          else Inr (db\<lparr>db_indexes := db_indexes db @ [(i, t, cols)]\<rparr>))"
| "exec_statement (AddColumn t c) db =
     (case map_of (db_tables db) t of
        None \<Rightarrow> Inl (Errorf ''no such table'')
      | Some present \<Rightarrow> if c \<in> set present then Inl (Errorf ''duplicate column name'')
          else Inr (db\<lparr>db_tables := map (\<lambda>(n, cols). (n, if n = t then cols @ [c] else cols)) (db_tables db)\<rparr>))"
| "exec_statement (ResetCursor name) db =
     (if map_of (db_tables db) ''maintenance_cursors'' = None then Inl (Errorf ''no such table'')
      else Inr (db\<lparr>db_cursors := map (reset_cursor name) (db_cursors db)\<rparr>))"

fun exec_script :: "statement list \<Rightarrow> database \<Rightarrow> database result" where
  "exec_script [] db = Inr db"
| "exec_script (st # sts) db = (case exec_statement st db of Inl e \<Rightarrow> Inl e | Inr db' \<Rightarrow> exec_script sts db')"

definition schemaVersion :: int where "schemaVersion = 3"

definition initialSchema :: "statement list" where
  "initialSchema =
     [CreateTable ''artifacts'' [''id'', ''content_hash'', ''path'', ''describe_json'', ''created_at''],
      CreateTable ''deployments'' [''id'', ''name'', ''info_name'', ''source_dir'', ''status'', ''artifact_id'',
        ''config_revision'', ''config_hash'', ''failure_threshold'', ''max_events_per_transaction'', ''event_retention_ms'',
        ''active_generation'', ''state'', ''state_revision'', ''created_at'', ''updated_at'', ''expires_at'', ''archived_at''],
      CreateTable ''deployment_generations'' [''deployment_id'', ''generation'', ''worker_token_hash'', ''artifact_id'',
        ''config_revision'', ''secret_fingerprint'', ''status'', ''last_transaction_seq'', ''started_at'', ''ready_at'',
        ''stopped_at'', ''stop_reason'', ''stop_error'', ''retired_at''],
      CreateTable ''deployment_health'' [''deployment_id'', ''generation'', ''status'', ''consecutive_failures'',
        ''last_run_status'', ''last_run_at'', ''last_duration_ms'', ''last_success_at'', ''last_failure_at'', ''last_error'',
        ''unhealthy_notified'', ''updated_at''],
      CreateTable ''checkpoints'' [''deployment_id'', ''source'', ''value'', ''value_hash'', ''updated_generation'',
        ''updated_seq'', ''updated_at''],
      CreateTable ''transactions'' [''deployment_id'', ''generation'', ''seq'', ''payload_hash'', ''base_revision'',
        ''result_revision'', ''ack_payload'', ''committed_at''],
      CreateTable ''destination_bindings'' [''id'', ''revision'', ''deployment_id'', ''config'', ''config_hash'',
        ''created_at'', ''retired_at''],
      CreateTable ''outbox_events'' [''outbox_id'', ''deployment_id'', ''kind'', ''generation'', ''transaction_seq'',
        ''event_id'', ''payload'', ''payload_hash'', ''created_at''],
      CreateTable ''outbox_deliveries'' [''outbox_id'', ''deployment_id'', ''destination_id'', ''destination_revision'',
        ''status'', ''attempt_count'', ''next_attempt_at'', ''lease_owner'', ''lease_expires_at'', ''delivered_at'',
        ''last_error'', ''dead_at''],
      CreateIndex ''outbox_deliveries_ready'' ''outbox_deliveries'' [''status'', ''next_attempt_at''],
      CreateIndex ''transactions_committed'' ''transactions'' [''deployment_id'', ''generation'', ''committed_at''],
      CreateIndex ''outbox_deliveries_lease'' ''outbox_deliveries'' [''status'', ''lease_expires_at''],
      CreateIndex ''outbox_events_retention'' ''outbox_events'' [''deployment_id'', ''created_at''],
      CreateIndex ''outbox_events_transaction'' ''outbox_events'' [''deployment_id'', ''generation'', ''transaction_seq''],
      CreateIndex ''outbox_deliveries_deployment'' ''outbox_deliveries'' [''deployment_id'', ''status''],
      CreateIndex ''outbox_deliveries_event'' ''outbox_deliveries'' [''outbox_id'', ''deployment_id''],
      CreateTable ''maintenance_cursors'' [''name'', ''after_rowid'', ''through_rowid'', ''next_sweep_at'',
        ''generation_rowid'', ''after_seq'']]"

definition performanceMigration :: "statement list" where
  "performanceMigration =
     [CreateIndex ''outbox_events_transaction'' ''outbox_events'' [''deployment_id'', ''generation'', ''transaction_seq''],
      CreateIndex ''outbox_deliveries_deployment'' ''outbox_deliveries'' [''deployment_id'', ''status''],
      CreateIndex ''outbox_deliveries_event'' ''outbox_deliveries'' [''outbox_id'', ''deployment_id''],
      CreateTable ''maintenance_cursors'' [''name'', ''after_rowid'', ''through_rowid'', ''next_sweep_at'']]"

definition isolationMigration :: "statement list" where
  "isolationMigration =
     [AddColumn ''maintenance_cursors'' ''generation_rowid'', AddColumn ''maintenance_cursors'' ''after_seq'',
      ResetCursor ''transactions'']"

text \<open>\<open>name LIKE 'sqlite_%'\<close>, where \<open>_\<close> is any character and ASCII letters match in both cases.\<close>

definition internal_table :: "string \<Rightarrow> bool" where
  "internal_table n \<longleftrightarrow> 7 \<le> length n \<and> lower (take 6 n) = ''sqlite''"

text \<open>Errors of the database itself, by the call they hit.\<close>

record sql_errors =
  sq_read :: "go_error option"
  sq_conn :: "go_error option"
  sq_begin :: "go_error option"
  sq_reread :: "go_error option"
  sq_inspect :: "go_error option"
  sq_exec :: "statement list \<Rightarrow> go_error option"
  sq_record :: "go_error option"
  sq_commit :: "go_error option"

definition run_script :: "sql_errors \<Rightarrow> statement list \<Rightarrow> database \<Rightarrow> database result" where
  "run_script F script db = (case sq_exec F script of Some e \<Rightarrow> Inl e | None \<Rightarrow> exec_script script db)"

text \<open>What the transaction does; an error rolls it back.\<close>

definition migrate :: "sql_errors \<Rightarrow> database \<Rightarrow> database result" where
  "migrate F db =
     (let version = db_version db in
      case sq_reread F of Some e \<Rightarrow> Inl e | None \<Rightarrow>
      (case (if version = 0 then
               (case sq_inspect F of Some e \<Rightarrow> Inl e | None \<Rightarrow>
                if filter (\<lambda>(n, cols). \<not> internal_table n) (db_tables db) \<noteq> []
                then Inl (Errorf ''database has an incompatible unversioned schema; create a clean monitord root'')
                else run_script F initialSchema db)
             else if version = 1 then run_script F performanceMigration db
             else if version = 2 \<or> version = schemaVersion then Inr db
             else Inl (Errorf ''unsupported database schema'')) of
         Inl e \<Rightarrow> Inl e
       | Inr db1 \<Rightarrow>
           (case (if version = 1 \<or> version = 2 then run_script F isolationMigration db1 else Inr db1) of
              Inl e \<Rightarrow> Inl e
            | Inr db2 \<Rightarrow>
                (case sq_record F of Some e \<Rightarrow> Inl e | None \<Rightarrow>
                 (case sq_commit F of Some e \<Rightarrow> Inl e | None \<Rightarrow> Inr (db2\<lparr>db_version := schemaVersion\<rparr>))))))"

text \<open>\<open>between\<close> is what other openers do before \<open>BEGIN IMMEDIATE\<close>, which waits for them.\<close>

definition initializeSchema :: "sql_errors \<Rightarrow> (database \<Rightarrow> database) \<Rightarrow> database \<Rightarrow> database \<times> go_error option" where
  "initializeSchema F between db =
     (case sq_read F of Some e \<Rightarrow> (db, Some e) | None \<Rightarrow>
      if db_version db = schemaVersion then (db, None)
      else if db_version db < 0 \<or> db_version db > schemaVersion then (db, Some (Errorf ''unsupported database schema''))
      else let db1 = between db in
        case sq_conn F of Some e \<Rightarrow> (db1, Some e) | None \<Rightarrow>
        (case sq_begin F of Some e \<Rightarrow> (db1, Some e) | None \<Rightarrow>
         (case migrate F db1 of Inl e \<Rightarrow> (db1, Some e) | Inr db2 \<Rightarrow> (db2, None))))"

section \<open>Databases the program has written\<close>

text \<open>
  The database of each version: the current one is what the schema creates; versions 2 and 1 lack what
  the migrations add.
\<close>

definition fresh_database :: database where
  "fresh_database = \<lparr>db_version = 0, db_tables = [], db_indexes = [], db_cursors = []\<rparr>"

definition current_schema :: database where
  "current_schema = (case exec_script initialSchema fresh_database of Inr db \<Rightarrow> db\<lparr>db_version := schemaVersion\<rparr> | Inl _ \<Rightarrow> fresh_database)"

definition isolation_columns :: "string list" where "isolation_columns = [''generation_rowid'', ''after_seq'']"

definition performance_indexes :: "string list" where
  "performance_indexes = [''outbox_events_transaction'', ''outbox_deliveries_deployment'', ''outbox_deliveries_event'']"

definition version_tables :: "int \<Rightarrow> (string \<times> string list) list" where
  "version_tables v =
     (if v = 0 then []
      else let all = db_tables current_schema in
        if v = 3 then all
        else let older = map (\<lambda>(n, cols). (n, filter (\<lambda>c. c \<notin> set isolation_columns) cols)) all in
          if v = 2 then older else filter (\<lambda>(n, cols). n \<noteq> ''maintenance_cursors'') older)"

definition version_indexes :: "int \<Rightarrow> (string \<times> string \<times> string list) list" where
  "version_indexes v =
     (if v = 0 then []
      else if v = 1 then filter (\<lambda>(i, t, cols). i \<notin> set performance_indexes) (db_indexes current_schema)
      else db_indexes current_schema)"

definition supported :: "database \<Rightarrow> bool" where
  "supported db \<longleftrightarrow> 0 \<le> db_version db \<and> db_version db \<le> schemaVersion \<and>
     db_tables db = version_tables (db_version db) \<and> db_indexes db = version_indexes (db_version db)"

definition no_sql_errors :: "sql_errors \<Rightarrow> bool" where
  "no_sql_errors F \<longleftrightarrow> sq_read F = None \<and> sq_conn F = None \<and> sq_begin F = None \<and> sq_reread F = None \<and>
     sq_inspect F = None \<and> (\<forall>script. sq_exec F script = None) \<and> sq_record F = None \<and> sq_commit F = None"

lemma current_parts:
  "db_tables current_schema = map (\<lambda>st. case st of CreateTable t cols \<Rightarrow> (t, cols) | _ \<Rightarrow> ([], []))
     (filter (\<lambda>st. case st of CreateTable t cols \<Rightarrow> True | _ \<Rightarrow> False) initialSchema)"
  "db_indexes current_schema = map (\<lambda>st. case st of CreateIndex i t cols \<Rightarrow> (i, t, cols) | _ \<Rightarrow> ([], [], []))
     (filter (\<lambda>st. case st of CreateIndex i t cols \<Rightarrow> True | _ \<Rightarrow> False) initialSchema)"
  "db_version current_schema = 3"
  by (simp_all add: current_schema_def initialSchema_def fresh_database_def schemaVersion_def)

lemmas version_eval = version_tables_def version_indexes_def current_parts initialSchema_def isolation_columns_def
  performance_indexes_def Let_def

lemma create_current:
  assumes "supported db" "db_version db = 0"
  shows "exec_script initialSchema db = Inr (db\<lparr>db_tables := version_tables 3, db_indexes := version_indexes 3\<rparr>)"
proof -
  have "db_tables db = []" "db_indexes db = []" using assms by (simp_all add: supported_def version_tables_def version_indexes_def)
  then show ?thesis by (simp add: version_eval)
qed

lemma add_performance:
  assumes "supported db" "db_version db = 1"
  shows "exec_script performanceMigration db = Inr (db\<lparr>db_tables := version_tables 2, db_indexes := version_indexes 2\<rparr>)"
proof -
  have "db_tables db = version_tables 1" "db_indexes db = version_indexes 1" using assms by (simp_all add: supported_def)
  then show ?thesis by (simp add: version_eval performanceMigration_def)
qed

lemma add_isolation:
  assumes "db_tables db = version_tables 2"
  shows "exec_script isolationMigration db =
    Inr (db\<lparr>db_tables := version_tables 3, db_cursors := map (reset_cursor ''transactions'') (db_cursors db)\<rparr>)"
  using assms by (simp add: version_eval isolationMigration_def)

lemma version_indexes_same: "version_indexes 2 = version_indexes 3"
  by (simp add: version_indexes_def)

lemma supported_versions: "supported db \<Longrightarrow> db_version db \<in> {0, 1, 2, 3}"
  by (auto simp: supported_def schemaVersion_def)

text \<open>The migration of a supported database, if nothing outside fails.\<close>

definition migrated :: "database \<Rightarrow> database" where
  "migrated db = db\<lparr>db_version := 3, db_tables := version_tables 3, db_indexes := version_indexes 3,
     db_cursors := (if db_version db = 1 \<or> db_version db = 2 then map (reset_cursor ''transactions'') (db_cursors db)
       else db_cursors db)\<rparr>"

lemma migrate_supported:
  assumes "supported db"
  shows "migrate F db = Inr (migrated db) \<or> (\<exists>e. migrate F db = Inl e \<and> \<not> no_sql_errors F)"
proof -
  have same: "db\<lparr>db_tables := version_tables 3, db_indexes := version_indexes 3\<rparr> = db"
    if "db_version db = 3" using assms that by (simp add: supported_def)
  from supported_versions [OF assms] consider "db_version db = 0" | "db_version db = 1" | "db_version db = 2" | "db_version db = 3"
    by auto
  then show ?thesis
  proof cases
    case 1
    have none: "db_tables db = []" using assms 1 by (simp add: supported_def version_tables_def)
    show ?thesis using create_current [OF assms 1] 1 none
      by (auto simp: migrate_def run_script_def migrated_def no_sql_errors_def schemaVersion_def split: option.splits)
  next
    case 2
    show ?thesis using add_performance [OF assms 2] add_isolation 2
      by (auto simp: migrate_def run_script_def migrated_def no_sql_errors_def schemaVersion_def version_indexes_same
          split: option.splits)
  next
    case 3
    have t: "db_tables db = version_tables 2" "db_indexes db = version_indexes 3"
      using assms 3 by (simp_all add: supported_def version_indexes_same)
    show ?thesis using add_isolation [OF t(1)] t(2) 3
      by (auto simp: migrate_def run_script_def migrated_def no_sql_errors_def schemaVersion_def split: option.splits)
  next
    case 4
    show ?thesis using same [OF 4] assms 4
      by (auto simp: migrate_def run_script_def migrated_def no_sql_errors_def schemaVersion_def supported_def
          split: option.splits)
  qed
qed

lemma migrated_supported: "supported (migrated db)"
  by (simp add: supported_def migrated_def schemaVersion_def)

text \<open>Another opener, or none: it leaves a supported database supported.\<close>

definition keeps_supported :: "(database \<Rightarrow> database) \<Rightarrow> bool" where
  "keeps_supported f \<longleftrightarrow> (\<forall>db. supported db \<longrightarrow> supported (f db))"

lemma initializeSchema_supported:
  assumes "supported db" and "keeps_supported between" and "initializeSchema F between db = (db', e)"
  shows "supported db' \<and> (e = None \<longrightarrow> db_version db' = schemaVersion) \<and> (no_sql_errors F \<longrightarrow> e = None)"
proof -
  have b: "supported (between db)" using assms(1,2) by (simp add: keeps_supported_def)
  have v: "0 \<le> db_version db" "db_version db \<le> 3" using assms(1) by (simp_all add: supported_def schemaVersion_def)
  show ?thesis
    using assms(3) migrate_supported [OF b, of F] v assms(1) b migrated_supported [of "between db"]
    by (auto simp: initializeSchema_def Let_def no_sql_errors_def migrated_def schemaVersion_def split: option.splits if_splits)
qed

lemma openers_keep_supported: "keeps_supported (\<lambda>db. fst (initializeSchema F (\<lambda>x. x) db))"
  unfolding keeps_supported_def
proof (intro allI impI)
  fix db assume db: "supported db"
  obtain db' e where r: "initializeSchema F (\<lambda>x. x) db = (db', e)" by fastforce
  have "keeps_supported (\<lambda>x. x)" by (simp add: keeps_supported_def)
  from initializeSchema_supported [OF db this r] show "supported (fst (initializeSchema F (\<lambda>x. x) db))" by (simp add: r)
qed


definition quiet_sql :: sql_errors where
  "quiet_sql = \<lparr>sq_read = None, sq_conn = None, sq_begin = None, sq_reread = None, sq_inspect = None,
     sq_exec = (\<lambda>_. None), sq_record = None, sq_commit = None\<rparr>"


end
