(* ===== verification/Checkpointer.thy ===== *)
theory Checkpointer
  imports Database Supervision
begin

text \<open>
  \<open>internal/storage/checkpoint.go\<close>, the background checkpointer of the write-ahead log, \<open>store.go\<close>, which
  opens a store with it, and the loop of \<open>internal/daemon/maintenance.go\<close>, which pauses while
  checkpointing is behind.  Times and durations are nanoseconds; the readings of the clock and of the
  log are inputs.
\<close>

section \<open>The write-ahead log\<close>

definition checkpointInterval :: int where "checkpointInterval = 1000000000"
definition checkpointMaxAge :: int where "checkpointMaxAge = 5 * 1000000000"
definition checkpointBackoffMax :: int where "checkpointBackoffMax = 30 * 1000000000"
definition checkpointFrames :: int where "checkpointFrames = 1000"
definition checkpointWarningBytes :: int where "checkpointWarningBytes = 64 * 1024 * 1024"

record walStatus =
  ws_Busy :: int
  ws_Frames :: int
  ws_Checkpointed :: int

definition backlog :: "walStatus \<Rightarrow> int" where
  "backlog s = max 0 (ws_Frames s - ws_Checkpointed s)"

text \<open>What \<open>readWAL\<close> found, and when it counts as pressure.\<close>

definition pressing :: "int \<Rightarrow> walStatus result \<Rightarrow> bool" where
  "pressing pageSize r =
     (case r of Inl _ \<Rightarrow> True | Inr s \<Rightarrow> ws_Busy s \<noteq> 0 \<or> backlog s * pageSize \<ge> checkpointWarningBytes)"

section \<open>The checkpointer\<close>

text \<open>\<open>None\<close> is the zero time, which is longer ago than any duration.\<close>

record checkpointer =
  ck_delay :: int
  ck_lastAttempt :: "int option"
  ck_lastWarning :: "int option"
  ck_stalledSince :: "int option"
  ck_pressure :: bool

definition since_at_least :: "int \<Rightarrow> int option \<Rightarrow> int \<Rightarrow> bool" where
  "since_at_least now t d = (case t of None \<Rightarrow> True | Some a \<Rightarrow> now - a \<ge> d)"

text \<open>
  One turn of the timer: both readings (the second is a \<open>PASSIVE\<close> checkpoint), the clock at the check
  of the age, before and after the attempt and at the log, and whether the context has ended.
\<close>

record wal_turn =
  wl_before :: "walStatus result"
  wl_checked :: int
  wl_start :: int
  wl_after :: "walStatus result"
  wl_cancelled :: bool
  wl_end :: int
  wl_logged :: int

datatype wal_log = Quiet | Attention | Slow

datatype wal_action = Idle | Waited | Progressed wal_log | Stalled wal_log

definition wal_progress :: "walStatus result \<Rightarrow> walStatus result \<Rightarrow> bool" where
  "wal_progress before after =
     (case (before, after) of
        (Inr b, Inr a) \<Rightarrow> ws_Busy a = 0 \<and> ws_Frames a \<ge> 0 \<and>
          (backlog a = 0 \<or> ws_Checkpointed a > ws_Checkpointed b \<or> ws_Frames a < ws_Frames b)
      | _ \<Rightarrow> False)"

definition settle_attempt :: "int \<Rightarrow> bool \<Rightarrow> checkpointer \<Rightarrow> checkpointer" where
  "settle_attempt start progress s =
     (if progress then s\<lparr>ck_delay := checkpointInterval, ck_stalledSince := None\<rparr>
      else s\<lparr>ck_stalledSince := Some (case ck_stalledSince s of None \<Rightarrow> start | Some t \<Rightarrow> t),
             ck_delay := min checkpointBackoffMax (ck_delay s * 2)\<rparr>)"

definition log_attempt :: "int \<Rightarrow> wal_turn \<Rightarrow> walStatus result \<Rightarrow> checkpointer \<Rightarrow> checkpointer \<times> wal_log" where
  "log_attempt pageSize i after s =
     (let stalledFor = (case ck_stalledSince s of None \<Rightarrow> 0 | Some t \<Rightarrow> wl_end i - t);
          warn = pressing pageSize after \<or> stalledFor \<ge> checkpointBackoffMax in
      if warn \<and> since_at_least (wl_logged i) (ck_lastWarning s) checkpointBackoffMax
      then (s\<lparr>ck_lastWarning := Some (wl_logged i)\<rparr>, Attention)
      else (s, if wl_end i - wl_start i \<ge> 1000000000 then Slow else Quiet))"

definition wal_attempt :: "int \<Rightarrow> wal_turn \<Rightarrow> checkpointer \<Rightarrow> checkpointer \<times> (wal_action \<times> int) option" where
  "wal_attempt pageSize i s =
     (let after = (case wl_before i of Inl e \<Rightarrow> Inl e | Inr _ \<Rightarrow> wl_after i);
          s1 = (case wl_before i of Inl _ \<Rightarrow> s | Inr _ \<Rightarrow> s\<lparr>ck_lastAttempt := Some (wl_start i)\<rparr>) in
      if wl_cancelled i then (s1, None)
      else let progress = wal_progress (wl_before i) after;
               s2 = settle_attempt (wl_start i) progress (s1\<lparr>ck_pressure := pressing pageSize after\<rparr>);
               (s3, line) = log_attempt pageSize i after s2
           in (s3, Some (if progress then Progressed line else Stalled line, ck_delay s3)))"

text \<open>A turn ends with the action and the next sleep, or with the context.\<close>

definition checkpoint_turn :: "int \<Rightarrow> wal_turn \<Rightarrow> checkpointer \<Rightarrow> checkpointer \<times> (wal_action \<times> int) option" where
  "checkpoint_turn pageSize i s =
     (let s1 = s\<lparr>ck_pressure := pressing pageSize (wl_before i)\<rparr> in
      case wl_before i of
        Inr b \<Rightarrow>
          if ws_Busy b = 0 \<and> backlog b = 0
          then (s1\<lparr>ck_delay := checkpointInterval, ck_stalledSince := None\<rparr>, Some (Idle, checkpointInterval))
          else if ws_Busy b = 0 \<and> backlog b < checkpointFrames \<and>
            \<not> since_at_least (wl_checked i) (ck_lastAttempt s) checkpointMaxAge
          then (s1, Some (Waited, checkpointInterval))
          else wal_attempt pageSize i s1
      | Inl _ \<Rightarrow> wal_attempt pageSize i s1)"

fun runCheckpointer :: "int \<Rightarrow> wal_turn list \<Rightarrow> checkpointer \<Rightarrow> checkpointer \<times> (wal_action \<times> int) list" where
  "runCheckpointer pageSize [] s = (s, [])"
| "runCheckpointer pageSize (i # is) s =
     (case checkpoint_turn pageSize i s of
        (s1, None) \<Rightarrow> (s1, [])
      | (s1, Some out) \<Rightarrow> (case runCheckpointer pageSize is s1 of (s2, outs) \<Rightarrow> (s2, out # outs)))"

definition CheckpointPressure :: "checkpointer \<Rightarrow> bool" where
  "CheckpointPressure s = ck_pressure s"

section \<open>Opening and closing a store\<close>

datatype handle = Writer | Reader | CheckpointHandle

text \<open>Each opening, the initial reading and the page size can fail; \<open>op_schema\<close> is \<open>initializeSchema\<close>.\<close>

record open_env =
  op_mkdir :: "go_error option"
  op_writer :: "go_error option"
  op_schema :: "go_error option"
  op_reader :: "go_error option"
  op_checkpoint :: "go_error option"
  op_wal :: "walStatus result"
  op_page :: "int result"

record opened_store =
  os_handles :: "handle list"
  os_checkpointer :: "(int \<times> checkpointer) option"

definition fresh_checkpointer :: "int \<Rightarrow> walStatus \<Rightarrow> checkpointer" where
  "fresh_checkpointer pageSize initial =
     \<lparr>ck_delay = checkpointInterval, ck_lastAttempt = None, ck_lastWarning = None, ck_stalledSince = None,
      ck_pressure = pressing pageSize (Inr initial)\<rparr>"

text \<open>The first component is what is open afterwards.\<close>

definition openStore :: "open_env \<Rightarrow> bool \<Rightarrow> handle list \<times> opened_store result" where
  "openStore V checkpointer =
     (case op_mkdir V of Some e \<Rightarrow> ([], Inl e) | None \<Rightarrow>
     (case op_writer V of Some e \<Rightarrow> ([], Inl e) | None \<Rightarrow>
     (case op_schema V of Some e \<Rightarrow> (remove1 Writer [Writer], Inl e) | None \<Rightarrow>
     (case op_reader V of Some e \<Rightarrow> (remove1 Writer [Writer], Inl e) | None \<Rightarrow>
      if \<not> checkpointer then ([Writer, Reader], Inr \<lparr>os_handles = [Writer, Reader], os_checkpointer = None\<rparr>)
      else (case op_checkpoint V of
        Some e \<Rightarrow> (remove1 Writer (remove1 Reader [Writer, Reader]), Inl e)
      | None \<Rightarrow>
          let live = [Writer, Reader, CheckpointHandle];
              closed = remove1 Writer (remove1 Reader (remove1 CheckpointHandle live)) in
          (case op_wal V of
             Inl e \<Rightarrow> (closed, Inl (Errorf ''initialize checkpointer''))
           | Inr initial \<Rightarrow> (case op_page V of
               Inl e \<Rightarrow> (closed, Inl (Errorf ''read page size''))
             | Inr pageSize \<Rightarrow> (live, Inr \<lparr>os_handles = live,
                 os_checkpointer = Some (pageSize, fresh_checkpointer pageSize initial)\<rparr>))))))))"

text \<open>\<open>Close\<close>: the checkpointer is joined first; every pool is closed whatever the others return.\<close>

definition closeStore :: "opened_store \<Rightarrow> handle list \<Rightarrow> handle list" where
  "closeStore s live =
     (let live1 = remove1 Writer (remove1 Reader live) in
      if os_checkpointer s = None then live1 else remove1 CheckpointHandle live1)"

lemma openStore_accounts:
  "openStore V c = (live, r) \<Longrightarrow> live = (case r of Inl _ \<Rightarrow> [] | Inr s \<Rightarrow> os_handles s)"
  by (auto simp: openStore_def Let_def split: option.splits sum.splits if_splits)

lemma closeStore_closes: "openStore V c = (live, Inr s) \<Longrightarrow> closeStore s live = []"
  by (auto simp: openStore_def closeStore_def Let_def split: option.splits sum.splits if_splits)

section \<open>Maintenance\<close>

text \<open>
  One turn of the maintenance loop: the pressure it reads, the time of both sweeps, what other writers
  do between them, and the clock when the delay is computed.  The result has the next delay.
\<close>

record maintenance_turn_env =
  mn_pressure :: bool
  mn_now :: int
  mn_slow :: "int \<Rightarrow> bool"
  mn_between :: "store \<Rightarrow> store"
  mn_later :: int

definition swept :: "(store \<Rightarrow> (store \<times> PruneResult) result) \<Rightarrow> store \<Rightarrow> store \<times> PruneResult option" where
  "swept f s = (case f s of Inl _ \<Rightarrow> (s, None) | Inr (s', r) \<Rightarrow> (s', Some r))"

definition maintenance_turn :: "maintenance_turn_env \<Rightarrow> store \<Rightarrow> store \<times> int" where
  "maintenance_turn V s =
     (if mn_pressure V then (s, 5000000000)
      else let (s1, outbox) = swept (PruneTerminalOutbox (mn_now V) (mn_slow V)) s;
               (s2, ledger) = swept (PruneRetiredTransactions (mn_now V) (mn_slow V)) (mn_between V s1)
           in (s2, maintenanceDelay (mn_later V) outbox ledger))"

fun runMaintenance :: "maintenance_turn_env list \<Rightarrow> store \<Rightarrow> store \<times> int list" where
  "runMaintenance [] s = (s, [])"
| "runMaintenance (V # Vs) s =
     (case maintenance_turn V s of (s1, d) \<Rightarrow> (case runMaintenance Vs s1 of (s2, ds) \<Rightarrow> (s2, d # ds)))"

section \<open>What the checkpointer guarantees\<close>

text \<open>The attempts in a row that made no progress, waiting turns not counted.\<close>

fun stalls :: "(wal_action \<times> int) list \<Rightarrow> nat \<Rightarrow> nat" where
  "stalls [] n = n"
| "stalls ((a, d) # outs) n =
     stalls outs (case a of Idle \<Rightarrow> 0 | Progressed _ \<Rightarrow> 0 | Waited \<Rightarrow> n | Stalled _ \<Rightarrow> Suc n)"

definition backed_off :: "nat \<Rightarrow> checkpointer \<Rightarrow> bool" where
  "backed_off n s \<longleftrightarrow> ck_delay s = min checkpointBackoffMax (2 ^ n * checkpointInterval) \<and> (ck_stalledSince s = None \<longleftrightarrow> n = 0)"

lemma backoff_bounds: "checkpointInterval \<le> min checkpointBackoffMax (2 ^ n * checkpointInterval)"
  by (simp add: checkpointBackoffMax_def checkpointInterval_def)

lemma log_attempt_keeps:
  "log_attempt pageSize i after s = (s', l) \<Longrightarrow>
     ck_delay s' = ck_delay s \<and> ck_stalledSince s' = ck_stalledSince s \<and> ck_pressure s' = ck_pressure s"
  by (auto simp: log_attempt_def Let_def split: if_splits)

lemma settle_backed_off:
  assumes "backed_off n s"
  shows "backed_off (if progress then 0 else Suc n) (settle_attempt start progress s)"
proof -
  have "min checkpointBackoffMax (min checkpointBackoffMax (2 ^ n * checkpointInterval) * 2) =
      min checkpointBackoffMax (2 ^ Suc n * checkpointInterval)"
    by (simp add: checkpointBackoffMax_def checkpointInterval_def min_def)
  then show ?thesis using assms
    by (simp add: backed_off_def settle_attempt_def checkpointBackoffMax_def checkpointInterval_def)
qed

definition last_reading :: "wal_turn \<Rightarrow> walStatus result" where
  "last_reading i = (case wl_before i of Inl e \<Rightarrow> Inl e | Inr _ \<Rightarrow> wl_after i)"

lemma wal_attempt_cases:
  assumes "wal_attempt pageSize i s = (s', r)"
  obtains (cancelled) "r = None" "ck_delay s' = ck_delay s" "ck_stalledSince s' = ck_stalledSince s" "ck_pressure s' = ck_pressure s"
  | (attempted) progress t line where "r = Some (if progress then Progressed line else Stalled line, ck_delay s')"
    "ck_delay t = ck_delay s" "ck_stalledSince t = ck_stalledSince s" "ck_pressure s' = pressing pageSize (last_reading i)"
    "ck_delay s' = ck_delay (settle_attempt (wl_start i) progress t)"
    "ck_stalledSince s' = ck_stalledSince (settle_attempt (wl_start i) progress t)"
proof (cases "wl_cancelled i")
  case True
  then show ?thesis using assms cancelled by (cases "wl_before i") (auto simp: wal_attempt_def)
next
  case False
  define t where "t = (case wl_before i of Inl _ \<Rightarrow> s | Inr _ \<Rightarrow> s\<lparr>ck_lastAttempt := Some (wl_start i)\<rparr>)
      \<lparr>ck_pressure := pressing pageSize (last_reading i)\<rparr>"
  define progress where "progress = wal_progress (wl_before i) (last_reading i)"
  obtain s3 line where l: "log_attempt pageSize i (last_reading i) (settle_attempt (wl_start i) progress t) = (s3, line)"
    by fastforce
  have "s' = s3" "r = Some (if progress then Progressed line else Stalled line, ck_delay s3)"
    using assms False l
    by (auto simp: wal_attempt_def Let_def last_reading_def [symmetric] t_def progress_def simp del: if_split)
  moreover have "ck_pressure (settle_attempt (wl_start i) progress t) = pressing pageSize (last_reading i)"
    by (simp add: settle_attempt_def t_def)
  ultimately show ?thesis
    using attempted [of progress line t] log_attempt_keeps [OF l] by (simp add: t_def split: sum.splits)
qed

lemma attempt_backed_off:
  assumes "wal_attempt pageSize i s = (s', r)" and "backed_off n s"
  shows "case r of None \<Rightarrow> backed_off n s'
    | Some (a, d) \<Rightarrow> d = ck_delay s' \<and> backed_off (stalls [(a, d)] n) s'"
  using assms(1)
proof (cases rule: wal_attempt_cases)
  case cancelled
  then show ?thesis using assms(2) by (simp add: backed_off_def)
next
  case (attempted progress t line)
  then show ?thesis using settle_backed_off [of n t progress "wl_start i"] assms(2) by (simp add: backed_off_def)
qed

lemma turn_backed_off:
  assumes "checkpoint_turn pageSize i s = (s', r)" and "backed_off n s"
  shows "case r of None \<Rightarrow> backed_off n s'
    | Some (a, d) \<Rightarrow> checkpointInterval \<le> d \<and> d \<le> checkpointBackoffMax \<and> backed_off (stalls [(a, d)] n) s'"
proof -
  let ?s = "s\<lparr>ck_pressure := pressing pageSize (wl_before i)\<rparr>"
  have kept: "backed_off n ?s" using assms(2) by (simp add: backed_off_def)
  have attempt: ?thesis if "wal_attempt pageSize i ?s = (s', r)"
    using attempt_backed_off [OF that kept] backoff_bounds by (auto simp: backed_off_def split: option.splits)
  show ?thesis
  proof (cases "wal_attempt pageSize i ?s = (s', r)")
    case False
    then show ?thesis using assms(1) kept
      by (auto simp: checkpoint_turn_def Let_def backed_off_def checkpointBackoffMax_def checkpointInterval_def
          split: sum.splits if_splits)
  qed (rule attempt)
qed

lemma run_backed_off:
  "runCheckpointer pageSize is s = (s', outs) \<Longrightarrow> backed_off n s \<Longrightarrow>
     backed_off (stalls outs n) s' \<and> (\<forall>(a, d)\<in>set outs. checkpointInterval \<le> d \<and> d \<le> checkpointBackoffMax)"
proof (induction "is" arbitrary: s n outs s')
  case (Cons i "is")
  obtain s1 r where t: "checkpoint_turn pageSize i s = (s1, r)" by fastforce
  note turn = turn_backed_off [OF t Cons.prems(2)]
  show ?case
  proof (cases r)
    case None
    then show ?thesis using Cons.prems(1) t turn by auto
  next
    case (Some out)
    obtain a d where out: "out = (a, d)" by fastforce
    obtain s2 outs2 where rest: "runCheckpointer pageSize is s1 = (s2, outs2)" by fastforce
    show ?thesis
      using Cons.IH [OF rest, of "stalls [(a, d)] n"] Cons.prems(1) t turn Some out rest by auto
  qed
qed simp

text \<open>A turn only waits while little is to be done and something was tried less than five seconds ago.\<close>

lemma waits_briefly:
  assumes "checkpoint_turn pageSize i s = (s', Some (Waited, d))"
  shows "\<exists>b t. wl_before i = Inr b \<and> backlog b < checkpointFrames \<and> ck_lastAttempt s = Some t \<and>
    wl_checked i - t < checkpointMaxAge"
proof (cases "wal_attempt pageSize i (s\<lparr>ck_pressure := pressing pageSize (wl_before i)\<rparr>) = (s', Some (Waited, d))")
  case True
  then show ?thesis by (cases rule: wal_attempt_cases) (auto split: if_splits)
next
  case False
  then show ?thesis using assms
    by (auto simp: checkpoint_turn_def since_at_least_def Let_def split: sum.splits if_splits option.splits)
qed

text \<open>The pressure is what the last reading says.\<close>

lemma pressure_tracks:
  assumes "checkpoint_turn pageSize i s = (s', r)"
  shows "CheckpointPressure s' \<longleftrightarrow> pressing pageSize
    (case r of Some (Progressed l, d) \<Rightarrow> last_reading i | Some (Stalled l, d) \<Rightarrow> last_reading i | _ \<Rightarrow> wl_before i)"
proof (cases "wal_attempt pageSize i (s\<lparr>ck_pressure := pressing pageSize (wl_before i)\<rparr>) = (s', r)")
  case True
  then show ?thesis by (cases rule: wal_attempt_cases) (simp_all add: CheckpointPressure_def)
next
  case False
  then show ?thesis using assms
    by (auto simp: CheckpointPressure_def checkpoint_turn_def Let_def split: sum.splits if_splits)
qed


definition sample_wal :: "int \<Rightarrow> wal_turn" where
  "sample_wal t = \<lparr>wl_before = Inr \<lparr>ws_Busy = 0, ws_Frames = 2000, ws_Checkpointed = 0\<rparr>, wl_checked = t, wl_start = t,
     wl_after = Inl (Errorf ''locked''), wl_cancelled = False, wl_end = t, wl_logged = t\<rparr>"


end
