(* ===== verification/Httpx.thy ===== *)
theory Httpx
  imports Session Discord "HOL-Library.Multiset"
begin

text \<open>
  \<open>catalog/httpx\<close>: browser-compatible HTTP clients.  \<open>options.go\<close> resolves the options of a client,
  \<open>proxy.go\<close> distributes requests over a pool with one client for each proxy.

  The third-party packages that build a browser profile and a transport are the arguments \<open>chromium\<close> and
  \<open>mimic\<close>, whose types \<open>'p\<close> and \<open>'c\<close> stay abstract.
\<close>

section \<open>Options\<close>

definition DefaultChromeVersion :: string where "DefaultChromeVersion = ''154.0.0.0''"

record 'p clientOptions =
  co_chromeVersion :: string
  co_profile :: "'p option"

text \<open>\<open>strconv.ParseUint(part, 10, 32)\<close>.\<close>

definition parse_uint32 :: "string \<Rightarrow> nat option" where
  "parse_uint32 s =
     (if s = [] \<or> \<not> list_all is_digit s then None
      else let n = foldl atoi_step 0 s in if n < 2 ^ 32 then Some n else None)"

fun version_parts :: "nat \<Rightarrow> string list \<Rightarrow> go_error option" where
  "version_parts i [] = None"
| "version_parts i (part # parts) =
     (case parse_uint32 part of
        None \<Rightarrow> Some (Errorf ''chrome version must contain four unsigned decimal components'')
      | Some n \<Rightarrow> if i = 0 \<and> n < 107 then Some (Errorf ''chrome major version must be at least 107'')
                else version_parts (Suc i) parts)"

type_synonym 'p http_option = "'p clientOptions \<Rightarrow> 'p clientOptions result"

definition WithChromeVersion :: "string \<Rightarrow> 'p http_option" where
  "WithChromeVersion version options =
     (let parts = split_on (CHR ''.'') version in
      if length parts \<noteq> 4 then Inl (Errorf ''chrome version must contain four unsigned decimal components'')
      else case version_parts 0 parts of Some e \<Rightarrow> Inl e | None \<Rightarrow> Inr (options\<lparr>co_chromeVersion := version\<rparr>))"

text \<open>An option is \<open>None\<close> when it is nil.\<close>

fun apply_options :: "'p http_option option list \<Rightarrow> 'p clientOptions \<Rightarrow> 'p clientOptions result" where
  "apply_options [] config = Inr config"
| "apply_options (None # os) config = Inl (Errorf ''httpx option must not be nil'')"
| "apply_options (Some opt # os) config = (case opt config of Inl e \<Rightarrow> Inl e | Inr config' \<Rightarrow> apply_options os config')"

definition resolveOptions :: "(string \<Rightarrow> 'p result) \<Rightarrow> 'p http_option option list \<Rightarrow> 'p clientOptions result" where
  "resolveOptions chromium options =
     (case apply_options options \<lparr>co_chromeVersion = DefaultChromeVersion, co_profile = None\<rparr> of
        Inl e \<Rightarrow> Inl e
      | Inr config \<Rightarrow> (case chromium (co_chromeVersion config) of
          Inl e \<Rightarrow> Inl e
        | Inr profile \<Rightarrow> Inr (config\<lparr>co_profile := Some profile\<rparr>)))"

section \<open>Clients\<close>

text \<open>A parsed URL has these parts too.\<close>

record proxy_url = url +
  pu_Opaque :: string
  pu_Hostname :: string
  pu_ForceQuery :: bool

definition parseProxy :: "(string \<Rightarrow> proxy_url option) \<Rightarrow> string \<Rightarrow> proxy_url option" where
  "parseProxy parse raw =
     (case parse raw of
        None \<Rightarrow> None
      | Some proxy \<Rightarrow>
          if pu_Opaque proxy \<noteq> '''' \<or> pu_Hostname proxy = '''' \<or> u_Fragment proxy \<noteq> '''' \<or> u_RawQuery proxy \<noteq> '''' \<or>
            pu_ForceQuery proxy
          then None
          else if u_Path proxy \<noteq> '''' \<and> u_Path proxy \<noteq> ''/'' then None
          else if u_Scheme proxy \<in> {''http'', ''https'', ''socks5''} then Some proxy else None)"

text \<open>The transport settings are constants; the proxy and the profile are what differs.\<close>

definition newClient ::
    "(proxy_url option \<Rightarrow> 'p option \<Rightarrow> 'c result) \<Rightarrow> proxy_url option \<Rightarrow> 'p clientOptions \<Rightarrow> 'c result" where
  "newClient mimic proxy config = mimic proxy (co_profile config)"

definition NewClient ::
    "(string \<Rightarrow> 'p result) \<Rightarrow> (proxy_url option \<Rightarrow> 'p option \<Rightarrow> 'c result) \<Rightarrow> 'p http_option option list \<Rightarrow> 'c result" where
  "NewClient chromium mimic options =
     (case resolveOptions chromium options of Inl e \<Rightarrow> Inl e | Inr config \<Rightarrow> newClient mimic None config)"

record 'c ProxyClient =
  pc_clients :: "'c list"
  pc_next :: uint64

fun proxy_clients ::
    "(string \<Rightarrow> proxy_url option) \<Rightarrow> (proxy_url option \<Rightarrow> 'p option \<Rightarrow> 'c result) \<Rightarrow> 'p clientOptions \<Rightarrow> string list \<Rightarrow>
     'c list result" where
  "proxy_clients parse mimic config [] = Inr []"
| "proxy_clients parse mimic config (value # values) =
     (case parseProxy parse value of
        None \<Rightarrow> Inl (Errorf ''proxy entry is not a supported URL'')
      | Some proxy \<Rightarrow> (case newClient mimic (Some proxy) config of
          Inl e \<Rightarrow> Inl (Errorf ''create client for proxy entry'')
        | Inr client \<Rightarrow> (case proxy_clients parse mimic config values of
            Inl e \<Rightarrow> Inl e
          | Inr clients \<Rightarrow> Inr (client # clients))))"

text \<open>\<open>secrets\<close> is \<open>None\<close> when nil, \<open>decode\<close> is \<open>json.Unmarshal\<close> into a \<open>[]string\<close>, \<open>shuffle\<close> the random swaps.\<close>

definition NewProxyClient ::
    "(string \<Rightarrow> 'p result) \<Rightarrow> (proxy_url option \<Rightarrow> 'p option \<Rightarrow> 'c result) \<Rightarrow> (string \<Rightarrow> proxy_url option) \<Rightarrow>
     (string \<Rightarrow> string list option) \<Rightarrow> ('c list \<Rightarrow> 'c list) \<Rightarrow> (SecretRef \<Rightarrow> string result) option \<Rightarrow> SecretRef \<Rightarrow>
     'p http_option option list \<Rightarrow> 'c ProxyClient result" where
  "NewProxyClient chromium mimic parse decode shuffle secrets ref options =
     (case resolveOptions chromium options of
        Inl e \<Rightarrow> Inl e
      | Inr config \<Rightarrow> (case secrets of
          None \<Rightarrow> Inl (Errorf ''proxy secrets are unavailable'')
        | Some require \<Rightarrow> (case require ref of
            Inl e \<Rightarrow> Inl (Errorf ''proxy secret is unavailable'')
          | Inr raw \<Rightarrow> (case decode raw of
              None \<Rightarrow> Inl (Errorf ''proxy secret must be a JSON array of URL strings'')
            | Some values \<Rightarrow>
                if length values = 0 then Inl (Errorf ''proxy secret contains no URLs'')
                else (case proxy_clients parse mimic config values of
                  Inl e \<Rightarrow> Inl e
                | Inr clients \<Rightarrow> Inr \<lparr>pc_clients = shuffle clients, pc_next = 0\<rparr>)))))"

text \<open>The client a request goes to; the counter is an atomic \<open>uint64\<close>.  \<open>None\<close> is a nil pool.\<close>

definition ProxyClient_Do :: "'c ProxyClient option \<Rightarrow> 'c ProxyClient option \<times> 'c result" where
  "ProxyClient_Do pool =
     (case pool of
        None \<Rightarrow> (None, Inl (Errorf ''proxy client is not initialized''))
      | Some c \<Rightarrow>
          if pc_clients c = [] then (Some c, Inl (Errorf ''proxy client is not initialized''))
          else let counter = pc_next c + 1; index = counter - 1 in
            (Some (c\<lparr>pc_next := counter\<rparr>), Inr (pc_clients c ! unat (index mod of_nat (length (pc_clients c))))))"

fun requests :: "nat \<Rightarrow> 'c ProxyClient option \<Rightarrow> 'c ProxyClient option \<times> 'c result list" where
  "requests 0 pool = (pool, [])"
| "requests (Suc n) pool =
     (case ProxyClient_Do pool of (pool1, r) \<Rightarrow> (case requests n pool1 of (pool2, rs) \<Rightarrow> (pool2, r # rs)))"

section \<open>Rotation\<close>

lemma proxy_clients_length: "proxy_clients parse mimic config values = Inr clients \<Longrightarrow> length clients = length values"
  by (induction "values" arbitrary: clients) (auto split: option.splits sum.splits)

lemma mset_rotate1: "mset (rotate1 xs) = mset xs"
  by (cases xs) simp_all

lemma mset_rotate: "mset (rotate n xs) = mset xs"
  by (induction n) (simp_all add: rotate_def mset_rotate1)

lemma Do_at:
  assumes "pc_clients c \<noteq> []" "length (pc_clients c) < 2 ^ 64" "pc_next c = of_nat k" "k < 2 ^ 64"
  shows "ProxyClient_Do (Some c) = (Some (c\<lparr>pc_next := of_nat (Suc k)\<rparr>), Inr (pc_clients c ! (k mod length (pc_clients c))))"
proof -
  have "unat (of_nat k mod of_nat (length (pc_clients c)) :: uint64) = k mod length (pc_clients c)"
    using assms(2,4) by (simp add: unat_mod_distrib unat_of_nat)
  then show ?thesis using assms(1,3) by (simp add: ProxyClient_Do_def Let_def)
qed

lemma requests_at:
  assumes "pc_clients c \<noteq> []" "length (pc_clients c) < 2 ^ 64"
  shows "pc_next c = of_nat k \<Longrightarrow> k + n < 2 ^ 64 \<Longrightarrow>
    requests n (Some c) = (Some (c\<lparr>pc_next := of_nat (k + n)\<rparr>),
      map (\<lambda>i. Inr (pc_clients c ! ((k + i) mod length (pc_clients c)))) [0..<n])"
  using assms
proof (induction n arbitrary: c k)
  case (Suc n)
  let ?c = "c\<lparr>pc_next := of_nat (Suc k)\<rparr>"
  have k: "k < 2 ^ 64" using Suc.prems(2) by simp
  have "requests n (Some ?c) = (Some (?c\<lparr>pc_next := of_nat (Suc k + n)\<rparr>),
      map (\<lambda>i. Inr (pc_clients ?c ! ((Suc k + i) mod length (pc_clients ?c)))) [0..<n])"
    using Suc.prems by (intro Suc.IH) simp_all
  then show ?case
    using Do_at [OF Suc.prems(3,4,1) k] by (simp add: upt_conv_Cons map_Suc_upt [symmetric] del: upt_Suc)
qed simp

text \<open>
  A proxy pool rotates fairly.  In a pool of \<open>n\<close> proxies any \<open>n\<close> requests in a row go through every
  proxy's client exactly once, whatever came before and however the clients were shuffled, until the
  counter wraps after \<open>2 ^ 64\<close> requests.
\<close>

theorem proxies_rotate:
  assumes "NewProxyClient chromium mimic parse decode shuffle secrets ref options = Inr pool"
    and "\<forall>xs. mset (shuffle xs) = mset xs"
    and "n = length (pc_clients pool)" and "before + n < 2 ^ 64"
    and "requests before (Some pool) = (later, earlier)" and "requests n later = (pool', used)"
  shows "\<exists>config values clients. proxy_clients parse mimic config values = Inr clients \<and> length values = n \<and>
    mset (pc_clients pool) = mset clients \<and> mset used = mset (map Inr clients)"
proof -
  obtain config "values" clients where made: "proxy_clients parse mimic config values = Inr clients" "values \<noteq> []"
    "pool = \<lparr>pc_clients = shuffle clients, pc_next = 0\<rparr>"
    using assms(1) by (auto simp: NewProxyClient_def split: sum.splits option.splits if_splits)
  have same: "mset (pc_clients pool) = mset clients" using assms(2) made(3) by simp
  then have count: "n = length clients" using assms(3) by (metis size_mset)
  then have n: "n = length values" using proxy_clients_length [OF made(1)] by simp
  have some: "pc_clients pool \<noteq> []" using assms(3) n made(2) by auto
  have fits: "length (pc_clients pool) < 2 ^ 64" using assms(3,4) by simp
  have "later = Some (pool\<lparr>pc_next := of_nat before\<rparr>)"
    using requests_at [OF some fits, of 0 before] assms(4,5) made(3) by simp
  then have "used = map (\<lambda>i. Inr (pc_clients pool ! ((before + i) mod n))) [0..<n]"
    using requests_at [of "pool\<lparr>pc_next := of_nat before\<rparr>" before n] some fits assms(3,4,6) by simp
  also have "\<dots> = map Inr (map (\<lambda>i. pc_clients pool ! ((before + i) mod n)) [0..<n])" by simp
  also have "map (\<lambda>i. pc_clients pool ! ((before + i) mod n)) [0..<n] = rotate before (pc_clients pool)"
    using assms(3) by (intro nth_equalityI) (simp_all add: nth_rotate)
  finally have "mset used = mset (map Inr (pc_clients pool))" by (simp add: mset_rotate)
  then have "mset used = mset (map Inr clients)" using same by simp
  then show ?thesis using made(1) n same by auto
qed

lemma proxies_rotate_witness:
  "\<exists>pool' used. requests 2 (fst (requests 1 (Some \<lparr>pc_clients = [1, 2 :: nat], pc_next = 0\<rparr>))) = (pool', used) \<and>
     mset used = mset (map Inr [1, 2])"
proof -
  let ?parse = "\<lambda>raw. Some \<lparr>u_Scheme = ''http'', u_Host = raw, u_Path = '''', u_RawQuery = '''', u_Fragment = '''',
      u_User = None, pu_Opaque = '''', pu_Hostname = raw, pu_ForceQuery = False\<rparr>"
  let ?mimic = "\<lambda>p (_ :: unit option). case p of None \<Rightarrow> Inr 0 | Some u \<Rightarrow> Inr (length (pu_Hostname u))"
  let ?pool = "\<lparr>pc_clients = [1, 2 :: nat], pc_next = 0\<rparr>"
  have made: "NewProxyClient (\<lambda>_. Inr ()) ?mimic ?parse (\<lambda>_. Some [''a'', ''bb'']) (\<lambda>xs. xs) (Some (\<lambda>_. Inr '''')) ref [] = Inr ?pool"
    for ref
    by (simp add: NewProxyClient_def resolveOptions_def parseProxy_def newClient_def)
  obtain later earlier where r1: "requests 1 (Some ?pool) = (later, earlier)" by fastforce
  obtain pool' used where r2: "requests 2 later = (pool', used)" by fastforce
  have "\<exists>config values clients. proxy_clients ?parse ?mimic config values = Inr clients \<and> length values = 2 \<and>
      mset (pc_clients ?pool) = mset clients \<and> mset used = mset (map Inr clients)"
    by (rule proxies_rotate [OF made _ _ _ r1 r2]) simp_all
  then obtain clients where "mset (pc_clients ?pool) = mset clients" "mset used = mset (map Inr clients)" by blast
  then have "mset used = mset (map Inr (pc_clients ?pool))" by (metis mset_map)
  then show ?thesis using r1 r2 by simp
qed

end
