(* ===== verification/Layout.thy ===== *)
theory Layout
  imports Operate
begin

text \<open>
  \<open>internal/config/config.go\<close>: the directories of a monitord root, its \<open>config.json\<close>, and the \<open>go.mod\<close>
  the monitors share.

  The disk is the contents of its files and its directories.  Each system call can fail, and a
  failing write can leave a part of what it wrote; this is the record \<open>disk_errors\<close>, by path.
\<close>

section \<open>Paths\<close>

record Paths =
  pt_Root :: string
  pt_MonitorsDir :: string
  pt_ArtifactsDir :: string
  pt_LibDir :: string
  pt_BinDir :: string
  pt_StateDir :: string
  pt_LogsDir :: string
  pt_DBPath :: string
  pt_ConfigPath :: string

definition Paths_MonitorDir :: "Paths \<Rightarrow> string \<Rightarrow> string" where
  "Paths_MonitorDir p name = path_Join (pt_MonitorsDir p) name"

definition Paths_ModulePath :: "Paths \<Rightarrow> string" where
  "Paths_ModulePath p = path_Join (pt_MonitorsDir p) ''go.mod''"

text \<open>\<open>home\<close> is \<open>os.UserHomeDir\<close>, \<open>absolute\<close> is \<open>filepath.Abs\<close>, \<open>getenv\<close> the environment.\<close>

definition Resolve_root :: "(string \<Rightarrow> string) \<Rightarrow> string option \<Rightarrow> string \<Rightarrow> string result" where
  "Resolve_root getenv home base =
     (if base \<noteq> '''' then Inr base
      else if getenv ''MONITORD_ROOT'' \<noteq> '''' then Inr (getenv ''MONITORD_ROOT'')
      else case home of None \<Rightarrow> Inl (Errorf ''resolve home dir'') | Some h \<Rightarrow> Inr (path_Join h ''.monitord''))"

definition Resolve_paths :: "string \<Rightarrow> Paths" where
  "Resolve_paths base =
     (let stateDir = path_Join base ''state'' in
      \<lparr>pt_Root = base, pt_MonitorsDir = path_Join base ''monitors'', pt_ArtifactsDir = path_Join base ''artifacts'',
       pt_LibDir = path_Join base ''lib'', pt_BinDir = path_Join base ''bin'', pt_StateDir = stateDir,
       pt_LogsDir = path_Join base ''logs'', pt_DBPath = path_Join stateDir ''monitord.db'',
       pt_ConfigPath = path_Join base ''config.json''\<rparr>)"

definition config_Resolve :: "(string \<Rightarrow> string) \<Rightarrow> string option \<Rightarrow> (string \<Rightarrow> string option) \<Rightarrow> string \<Rightarrow> Paths result" where
  "config_Resolve getenv home absolute base =
     (case Resolve_root getenv home base of
        Inl e \<Rightarrow> Inl e
      | Inr r \<Rightarrow> (case absolute r of None \<Rightarrow> Inl (Errorf ''resolve root'') | Some full \<Rightarrow> Inr (Resolve_paths full)))"

section \<open>The disk\<close>

record disk =
  dk_files :: "string \<Rightarrow> string option"
  dk_dirs :: "string set"

record disk_errors =
  de_mkdir :: "string \<Rightarrow> go_error option"
  de_stat :: "string \<Rightarrow> go_error option"
  de_open :: "string \<Rightarrow> go_error option"
  de_write :: "string \<Rightarrow> (nat \<times> go_error) option"
  de_close :: "string \<Rightarrow> go_error option"
  de_rename :: "string \<Rightarrow> go_error option"

definition put_file :: "string \<Rightarrow> string \<Rightarrow> disk \<Rightarrow> disk" where
  "put_file p contents d = d\<lparr>dk_files := (dk_files d)(p \<mapsto> contents)\<rparr>"

definition rename_file :: "string \<Rightarrow> string \<Rightarrow> disk \<Rightarrow> disk" where
  "rename_file old new d = d\<lparr>dk_files := (dk_files d)(new := dk_files d old, old := None)\<rparr>"

text \<open>\<open>os.MkdirAll\<close> of the directories one after the other.\<close>

fun make_dirs :: "disk_errors \<Rightarrow> string list \<Rightarrow> disk \<Rightarrow> disk \<times> go_error option" where
  "make_dirs E [] d = (d, None)"
| "make_dirs E (p # ps) d =
     (case de_mkdir E p of Some e \<Rightarrow> (d, Some e) | None \<Rightarrow> make_dirs E ps (d\<lparr>dk_dirs := insert p (dk_dirs d)\<rparr>))"

text \<open>A stat finds a file, finds nothing or fails.\<close>

definition stat_file :: "disk_errors \<Rightarrow> string \<Rightarrow> disk \<Rightarrow> bool result" where
  "stat_file E p d = (case de_stat E p of Some e \<Rightarrow> Inl e | None \<Rightarrow> Inr (dk_files d p \<noteq> None))"

text \<open>\<open>os.WriteFile\<close>.\<close>

definition write_file :: "disk_errors \<Rightarrow> string \<Rightarrow> string \<Rightarrow> disk \<Rightarrow> disk \<times> go_error option" where
  "write_file E p contents d =
     (case de_open E p of Some e \<Rightarrow> (d, Some e) | None \<Rightarrow>
      (case de_write E p of
         Some (n, e) \<Rightarrow> (put_file p (take n contents) d, Some e)
       | None \<Rightarrow> (put_file p contents d, de_close E p)))"

section \<open>The configuration file\<close>

text \<open>
  \<open>Save\<close> writes a temporary file and renames it.  \<open>encode\<close> is the JSON of a configuration, which is its
  paths; what the encoder wrote before an error is the prefix of \<open>de_write\<close>.
\<close>

definition Save :: "disk_errors \<Rightarrow> (Paths \<Rightarrow> string option) \<Rightarrow> Paths \<Rightarrow> disk \<Rightarrow> disk \<times> go_error option" where
  "Save E encode cfg d =
     (if pt_ConfigPath cfg = '''' then (d, Some (Errorf ''config path is required''))
      else let tmp = pt_ConfigPath cfg @ ''.tmp'' in
        case de_open E tmp of Some e \<Rightarrow> (d, Some (Errorf ''create config temp file'')) | None \<Rightarrow>
        (case encode cfg of
           None \<Rightarrow> (put_file tmp '''' d, Some (Errorf ''write config''))
         | Some raw \<Rightarrow> (case de_write E tmp of
             Some (n, e) \<Rightarrow> (put_file tmp (take n raw) d, Some (Errorf ''write config''))
           | None \<Rightarrow>
               let d1 = put_file tmp raw d in
               (case de_close E tmp of
                  Some e \<Rightarrow> (d1, Some (Errorf ''close config''))
                | None \<Rightarrow> (case de_rename E tmp of
                    Some e \<Rightarrow> (d1, Some (Errorf ''replace config''))
                  | None \<Rightarrow> (rename_file tmp (pt_ConfigPath cfg) d1, None))))))"

section \<open>The shared module\<close>

definition SDKModule :: string where "SDKModule = ''github.com/saucesteals/monitord''"

definition ModuleName :: string where "ModuleName = ''monitord.local/monitors''"

definition module_contents :: string where
  "module_contents = ''module '' @ ModuleName @ ''\<newline>\<newline>go 1.24\<newline>\<newline>require '' @ SDKModule @ '' v0.0.0\<newline>''"

text \<open>The first candidate with a \<open>go.mod\<close>, or nothing.\<close>

definition SDKPath :: "disk_errors \<Rightarrow> (string \<Rightarrow> string) \<Rightarrow> Paths \<Rightarrow> disk \<Rightarrow> string" where
  "SDKPath E getenv p d =
     (case find (\<lambda>c. c \<noteq> '''' \<and> stat_file E (path_Join c ''go.mod'') d = Inr True) [getenv ''MONITORD_SDK_PATH'', pt_LibDir p] of
        None \<Rightarrow> '''' | Some c \<Rightarrow> c)"

fun contains :: "string \<Rightarrow> string \<Rightarrow> bool" where
  "contains needle [] \<longleftrightarrow> needle = []"
| "contains needle (c # cs) \<longleftrightarrow> has_prefix needle (c # cs) \<or> contains needle cs"

text \<open>\<open>edit\<close> is the command \<open>go mod edit -replace\<close>: the new \<open>go.mod\<close>, if it succeeds.\<close>

definition setSDKReplace ::
    "disk_errors \<Rightarrow> (string \<Rightarrow> string \<Rightarrow> string option) \<Rightarrow> Paths \<Rightarrow> string \<Rightarrow> disk \<Rightarrow> disk \<times> go_error option" where
  "setSDKReplace E edit p sdk d =
     (case (case de_open E (Paths_ModulePath p) of Some e \<Rightarrow> None | None \<Rightarrow> dk_files d (Paths_ModulePath p)) of
        None \<Rightarrow> (d, Some (Errorf ''read monitors go.mod''))
      | Some current \<Rightarrow>
          if contains (''=> '' @ sdk) current then (d, None)
          else case edit sdk current of
            None \<Rightarrow> (d, Some (Errorf ''point monitors module''))
          | Some changed \<Rightarrow> (put_file (Paths_ModulePath p) changed d, None))"

definition ensureModule ::
    "disk_errors \<Rightarrow> (string \<Rightarrow> string) \<Rightarrow> (string \<Rightarrow> string \<Rightarrow> string option) \<Rightarrow> Paths \<Rightarrow> disk \<Rightarrow> disk \<times> go_error option" where
  "ensureModule E getenv edit p d =
     (let sdk = SDKPath E getenv p d in
      case stat_file E (Paths_ModulePath p) d of
        Inl e \<Rightarrow> (d, Some (Errorf ''stat monitors go.mod''))
      | Inr present \<Rightarrow>
          (case (if present then (d, None) else write_file E (Paths_ModulePath p) module_contents d) of
             (d1, Some e) \<Rightarrow> (d1, Some (Errorf ''create monitors go.mod''))
           | (d1, None) \<Rightarrow> if sdk = '''' then (d1, None) else setSDKReplace E edit p sdk d1))"

section \<open>Initialising and loading\<close>

definition Init ::
    "disk_errors \<Rightarrow> (string \<Rightarrow> string) \<Rightarrow> string option \<Rightarrow> (string \<Rightarrow> string option) \<Rightarrow> (string \<Rightarrow> string \<Rightarrow> string option) \<Rightarrow>
     (Paths \<Rightarrow> string option) \<Rightarrow> string \<Rightarrow> disk \<Rightarrow> disk \<times> Paths result" where
  "Init E getenv home absolute edit encode base d =
     (case config_Resolve getenv home absolute base of
        Inl e \<Rightarrow> (d, Inl e)
      | Inr p \<Rightarrow>
          (case make_dirs E [pt_Root p, pt_MonitorsDir p, pt_ArtifactsDir p, pt_BinDir p, pt_StateDir p, pt_LogsDir p] d of
             (d1, Some e) \<Rightarrow> (d1, Inl (Errorf ''create directory''))
           | (d1, None) \<Rightarrow> (case ensureModule E getenv edit p d1 of
               (d2, Some e) \<Rightarrow> (d2, Inl e)
             | (d2, None) \<Rightarrow> (case stat_file E (pt_ConfigPath p) d2 of
                 Inl e \<Rightarrow> (d2, Inl (Errorf ''stat config''))
               | Inr True \<Rightarrow> (d2, Inr p)
               | Inr False \<Rightarrow> (case Save E encode p d2 of
                   (d3, Some e) \<Rightarrow> (d3, Inl e)
                 | (d3, None) \<Rightarrow> (d3, Inr p))))))"

text \<open>\<open>decode\<close> is the JSON of the file into a configuration; the paths in it are then replaced.\<close>

definition Load ::
    "disk_errors \<Rightarrow> (string \<Rightarrow> string) \<Rightarrow> string option \<Rightarrow> (string \<Rightarrow> string option) \<Rightarrow> (string \<Rightarrow> string \<Rightarrow> string option) \<Rightarrow>
     (Paths \<Rightarrow> string option) \<Rightarrow> (string \<Rightarrow> Paths option) \<Rightarrow> string \<Rightarrow> disk \<Rightarrow> disk \<times> Paths result" where
  "Load E getenv home absolute edit encode decode base d =
     (case Init E getenv home absolute edit encode base d of
        (d1, Inl e) \<Rightarrow> (d1, Inl e)
      | (d1, Inr p) \<Rightarrow>
          (d1, case (case de_open E (pt_ConfigPath p) of Some e \<Rightarrow> None | None \<Rightarrow> dk_files d1 (pt_ConfigPath p)) of
             None \<Rightarrow> Inl (Errorf ''open config'')
           | Some raw \<Rightarrow> (case decode raw of None \<Rightarrow> Inl (Errorf ''decode config'') | Some cfg \<Rightarrow> Inr p)))"

section \<open>What initialising keeps\<close>

lemma make_dirs_files: "make_dirs E ps d = (d', e) \<Longrightarrow> dk_files d' = dk_files d"
  by (induction ps arbitrary: d) (auto split: option.splits)

lemma write_file_others: "write_file E p contents d = (d', e) \<Longrightarrow> q \<noteq> p \<Longrightarrow> dk_files d' q = dk_files d q"
  by (auto simp: write_file_def put_file_def split: option.splits)

lemma ensureModule_others:
  assumes "ensureModule E getenv edit p d = (d', e)" and "q \<noteq> Paths_ModulePath p"
  shows "dk_files d' q = dk_files d q"
proof (cases "stat_file E (Paths_ModulePath p) d")
  case (Inr present)
  obtain d1 e1 where w: "(if present then (d, None) else write_file E (Paths_ModulePath p) module_contents d) = (d1, e1)"
    by fastforce
  then have "dk_files d1 q = dk_files d q" using write_file_others assms(2) by (auto split: if_splits)
  then show ?thesis using assms Inr w
    by (auto simp: ensureModule_def setSDKReplace_def put_file_def Let_def split: option.splits if_splits)
qed (use assms in \<open>simp add: ensureModule_def Let_def\<close>)

lemma Save_atomic:
  assumes "Save E encode p d = (d', e)"
  shows "(e \<noteq> None \<longrightarrow> dk_files d' (pt_ConfigPath p) = dk_files d (pt_ConfigPath p)) \<and>
    (e = None \<longrightarrow> encode p \<noteq> None \<and> dk_files d' (pt_ConfigPath p) = encode p)"
proof -
  have "pt_ConfigPath p \<noteq> pt_ConfigPath p @ ''.tmp''" by simp
  then show ?thesis using assms
    by (auto simp: Save_def put_file_def rename_file_def Let_def split: if_splits option.splits)
qed

text \<open>
  The configuration is never torn.  Whatever system call fails while a root is initialised and
  loaded, its \<open>config.json\<close> is afterwards the file it was, or, where there was none, the whole new one;
  and what is loaded are always the paths of the root that was asked for, never those in the file.
\<close>

theorem config_whole:
  assumes "config_Resolve getenv home absolute base = Inr p" and "Paths_ModulePath p \<noteq> pt_ConfigPath p"
    and "Load E getenv home absolute edit encode decode base d = (d', r)"
  shows "(dk_files d' (pt_ConfigPath p) = dk_files d (pt_ConfigPath p) \<or>
      dk_files d (pt_ConfigPath p) = None \<and> encode p \<noteq> None \<and> dk_files d' (pt_ConfigPath p) = encode p) \<and>
    (\<forall>q. r = Inr q \<longrightarrow> q = p \<and> dk_files d' (pt_ConfigPath p) \<noteq> None)"
proof -
  obtain d1 e1 where m: "make_dirs E [pt_Root p, pt_MonitorsDir p, pt_ArtifactsDir p, pt_BinDir p, pt_StateDir p, pt_LogsDir p] d =
      (d1, e1)" by fastforce
  obtain d2 e2 where n: "ensureModule E getenv edit p d1 = (d2, e2)" by fastforce
  obtain d3 e3 where s: "Save E encode p d2 = (d3, e3)" by fastforce
  have same: "dk_files d1 (pt_ConfigPath p) = dk_files d (pt_ConfigPath p)" "dk_files d2 (pt_ConfigPath p) = dk_files d (pt_ConfigPath p)"
    using make_dirs_files [OF m] ensureModule_others [OF n] assms(2) by simp_all
  note save = Save_atomic [OF s]
  obtain d4 r4 where i: "Init E getenv home absolute edit encode base d = (d4, r4)" by fastforce
  have "(dk_files d4 (pt_ConfigPath p) = dk_files d (pt_ConfigPath p) \<or>
      dk_files d (pt_ConfigPath p) = None \<and> encode p \<noteq> None \<and> dk_files d4 (pt_ConfigPath p) = encode p) \<and>
    (\<forall>q. r4 = Inr q \<longrightarrow> q = p)"
    using i m n s same save assms(1)
    by (auto simp: Init_def stat_file_def split: option.splits sum.splits bool.splits)
  then show ?thesis using assms(3) i
    by (auto simp: Load_def split: sum.splits option.splits)
qed

text \<open>
  The shared \<open>go.mod\<close> has no such guarantee: a write that fails leaves a part of it, and since a file
  that exists is kept, every later \<open>Init\<close> goes on with that part.
\<close>

lemma torn_module_kept:
  assumes "dk_files d (Paths_ModulePath p) = None" "de_stat E (Paths_ModulePath p) = None" "de_open E (Paths_ModulePath p) = None"
    and "de_write E (Paths_ModulePath p) = Some (n, e)" and "\<forall>c. SDKPath E2 getenv p c = ''''"
    and "de_stat E2 (Paths_ModulePath p) = None"
  shows "\<exists>d' e'. ensureModule E getenv edit p d = (d', Some e') \<and>
    dk_files d' (Paths_ModulePath p) = Some (take n module_contents) \<and> ensureModule E2 getenv edit p d' = (d', None)"
  using assms by (simp add: ensureModule_def write_file_def stat_file_def put_file_def Let_def)

text \<open>A replacement that points to a longer path is taken for the right one.\<close>

lemma stale_replace_kept:
  assumes "de_open E (Paths_ModulePath p) = None" "dk_files d (Paths_ModulePath p) = Some ''replace m => /opt/monitord-old''"
  shows "setSDKReplace E edit p ''/opt/monitord'' d = (d, None)"
  using assms by (simp add: setSDKReplace_def)

definition calm :: disk_errors where
  "calm = \<lparr>de_mkdir = (\<lambda>_. None), de_stat = (\<lambda>_. None), de_open = (\<lambda>_. None), de_write = (\<lambda>_. None), de_close = (\<lambda>_. None),
     de_rename = (\<lambda>p. if p = ''/r/config.json.tmp'' then Some (Errorf ''EIO'') else None)\<rparr>"

lemma config_whole_witness:
  "let d' = fst (Load calm (\<lambda>_. '''') None Some (\<lambda>_ _. None) (\<lambda>_. Some ''{}'') (\<lambda>_. None) ''/r''
     \<lparr>dk_files = (\<lambda>_. None), dk_dirs = {}\<rparr>) in
   dk_files d' ''/r/config.json'' = None \<or> dk_files d' ''/r/config.json'' = Some ''{}''"
proof -
  have r: "config_Resolve (\<lambda>_. '''') None Some ''/r'' = Inr (Resolve_paths ''/r'')"
    by (simp add: config_Resolve_def Resolve_root_def)
  have paths: "pt_ConfigPath (Resolve_paths ''/r'') = ''/r/config.json''" "Paths_ModulePath (Resolve_paths ''/r'') = ''/r/monitors/go.mod''"
    by (simp_all add: Resolve_paths_def Paths_ModulePath_def path_Join_def path_Clean_def)
  obtain d' x where l: "Load calm (\<lambda>_. '''') None Some (\<lambda>_ _. None) (\<lambda>_. Some ''{}'') (\<lambda>_. None) ''/r''
      \<lparr>dk_files = (\<lambda>_. None), dk_dirs = {}\<rparr> = (d', x)" by fastforce
  have "Paths_ModulePath (Resolve_paths ''/r'') \<noteq> pt_ConfigPath (Resolve_paths ''/r'')" by (simp add: paths)
  from config_whole [OF r this l] show ?thesis by (auto simp: l paths Let_def)
qed

end
