(* ===== verification/LocalTest.thy ===== *)
theory LocalTest
  imports Operate Coordinator Supervision
begin

text \<open>
  \<open>internal/cli/test.go\<close>: a monitor built and run locally.  The command stands in for the daemon over the
  worker's pipes and keeps nothing; polling plans run once.

  What the pipes bring is the list of inputs: a line of the worker's output with the outcome of the
  write it may cause, an error of the scanner, or the end of the context.  Printing is not modelled.
\<close>

section \<open>The hash of a frame, as text\<close>

text \<open>\<open>hex.DecodeString\<close> returns what it decoded before an error.\<close>

fun hex_prefix :: "string \<Rightarrow> string" where
  "hex_prefix (a # b # s) = (case (unhex a, unhex b) of
     (Some x, Some y) \<Rightarrow> char_of (16 * x + y) # hex_prefix s | _ \<Rightarrow> [])"
| "hex_prefix s = []"

definition mustHash :: "string \<Rightarrow> string" where
  "mustHash value = take 32 (hex_prefix value @ replicate 32 (char_of (0 :: nat)))"

section \<open>A local run\<close>

text \<open>\<open>ContextEnds\<close> comes once; \<open>StopExpires\<close> is the timer the stop arms, five seconds later.\<close>

datatype local_input =
    Line string "go_error option" | ScanError | ContextEnds string string "go_error option" | StopExpires

datatype local_result = LocalDone string string | LocalError go_error | LocalPanic

record local_state =
  lc_started :: bool
  lc_current :: string
  lc_revision :: int
  lc_status :: string
  lc_sent :: "DaemonFrame list"
  lc_ended :: bool
  lc_killed :: bool

definition max_line :: nat where "max_line = 1024 * 1024"

abbreviation frame_of :: "string \<Rightarrow> DaemonFrame" where
  "frame_of t \<equiv> \<lparr>df_Type = t, df_Hello = None, df_Start = None, df_Ack = None, df_Stop = None\<rparr>"

definition local_send :: "DaemonFrame \<Rightarrow> go_error option \<Rightarrow> local_state \<Rightarrow> local_state \<times> go_error option" where
  "local_send f failed s = (case failed of Some e \<Rightarrow> (s, Some e) | None \<Rightarrow> (s\<lparr>lc_sent := lc_sent s @ [f]\<rparr>, None))"

definition local_hello :: "string \<Rightarrow> string \<Rightarrow> (string \<times> (string \<times> string) list) list \<Rightarrow> DeploymentPolicy \<Rightarrow> DaemonFrame" where
  "local_hello name state secrets policy =
     (frame_of ''hello'')\<lparr>df_Hello := Some \<lparr>he_Major = ProtocolMajor, he_Minor = 0, he_DeploymentID = ''local-test'',
        he_DeploymentName = name, he_Generation = 1, he_WorkerToken = ''local-test-token'', he_ArtifactHash = ''local'',
        he_ConfigHash = ''local'', he_StateRevision = 0, he_State = state, he_Checkpoints = [], he_Secrets = secrets,
        he_Policy = policy\<rparr>\<rparr>"

definition local_start :: "PlanDescription \<Rightarrow> DaemonFrame" where
  "local_start plan = (frame_of ''start'')\<lparr>df_Start := Some \<lparr>st_Plan = plan, st_Once = (pd_Kind plan = ''every'')\<rparr>\<rparr>"

definition local_ack :: "WireTransaction \<Rightarrow> int \<Rightarrow> DaemonFrame" where
  "local_ack t revision =
     (frame_of ''ack'')\<lparr>df_Ack := Some \<lparr>ta_DeploymentID = wt_DeploymentID t, ta_Generation = wt_Generation t,
        ta_Sequence = wt_Sequence t, ta_PayloadHash = wt_PayloadHash t, ta_ResultRevision = revision,
        ta_Status = ''accepted''\<rparr>\<rparr>"

text \<open>One frame of the worker; the frames are not validated, so a missing payload is dereferenced.\<close>

definition local_frame ::
    "hashing \<Rightarrow> PlanDescription \<Rightarrow> WorkerFrame \<Rightarrow> go_error option \<Rightarrow> local_state \<Rightarrow> local_state \<times> local_result option" where
  "local_frame H plan msg failed s =
     (if wf_Type msg = ''monitor'' then
        (case local_send (local_start plan) failed s of
           (s1, Some e) \<Rightarrow> (s1, Some (LocalError e))
         | (s1, None) \<Rightarrow> (s1\<lparr>lc_started := True\<rparr>, None))
      else if wf_Type msg = ''run'' then
        (case wf_Run msg of None \<Rightarrow> (s, Some LocalPanic) | Some r \<Rightarrow> (s\<lparr>lc_status := rf_Status r\<rparr>, None))
      else if wf_Type msg = ''transaction'' then
        (case wf_Transaction msg of
           None \<Rightarrow> (s, Some LocalPanic)
         | Some t \<Rightarrow>
             if HashTransactionFrame H t \<noteq> mustHash (wt_PayloadHash t)
             then (s, Some (LocalError (Errorf ''worker transaction hash mismatch'')))
             else let s1 = s\<lparr>lc_current := wt_NextState t, lc_revision := lc_revision s + 1\<rparr> in
               (case local_send (local_ack t (lc_revision s1)) failed s1 of
                  (s2, Some e) \<Rightarrow> (s2, Some (LocalError e))
                | (s2, None) \<Rightarrow> (s2, None)))
      else if wf_Type msg = ''stopped'' then
        (case wf_Stopped msg of
           None \<Rightarrow> (s, Some LocalPanic)
         | Some st \<Rightarrow>
             let s1 = (if sf_Error st \<noteq> '''' then s\<lparr>lc_status := ''failure''\<rparr> else s) in
             (s1, Some (LocalDone (lc_current s1) (lc_status s1))))
      else (s, None))"

definition local_context :: "string \<Rightarrow> string \<Rightarrow> go_error option \<Rightarrow> local_state \<Rightarrow> local_state" where
  "local_context reason deadline failed s =
     (if lc_ended s then s
      else let s1 = s\<lparr>lc_ended := True\<rparr> in
        if \<not> lc_started s1 then s1\<lparr>lc_killed := True\<rparr>
        else (case local_send ((frame_of ''stop'')\<lparr>df_Stop := Some \<lparr>sp_Reason = reason, sp_Deadline = deadline\<rparr>\<rparr>) failed s1 of
            (s2, Some e) \<Rightarrow> s2\<lparr>lc_killed := True\<rparr>
          | (s2, None) \<Rightarrow> s2))"

text \<open>\<open>parse\<close> is \<open>json.Unmarshal\<close> into a worker frame; other output of the monitor is passed on.\<close>

definition local_input_step ::
    "hashing \<Rightarrow> (string \<Rightarrow> WorkerFrame option) \<Rightarrow> PlanDescription \<Rightarrow> local_input \<Rightarrow> local_state \<Rightarrow>
     local_state \<times> local_result option" where
  "local_input_step H parse plan inp s =
     (case inp of
        ScanError \<Rightarrow> (s, Some (LocalError (Errorf ''read monitor output'')))
      | ContextEnds reason deadline failed \<Rightarrow> (local_context reason deadline failed s, None)
      | StopExpires \<Rightarrow> (if lc_ended s then s\<lparr>lc_killed := True\<rparr> else s, None)
      | Line text failed \<Rightarrow>
          if length text \<ge> max_line then (s, Some (LocalError (Errorf ''read monitor output'')))
          else let line = TrimSpace text in
            if line = '''' then (s, None)
            else (case parse line of None \<Rightarrow> (s, None) | Some msg \<Rightarrow> local_frame H plan msg failed s))"

fun local_loop ::
    "hashing \<Rightarrow> (string \<Rightarrow> WorkerFrame option) \<Rightarrow> PlanDescription \<Rightarrow> local_input list \<Rightarrow> local_state \<Rightarrow> local_state \<times> local_result" where
  "local_loop H parse plan [] s = (s, LocalError (Errorf ''monitor exited without a stopped frame''))"
| "local_loop H parse plan (i # is) s =
     (case local_input_step H parse plan i s of
        (s1, Some r) \<Rightarrow> (s1, r)
      | (s1, None) \<Rightarrow> local_loop H parse plan is s1)"

definition runLocal ::
    "hashing \<Rightarrow> (string \<Rightarrow> WorkerFrame option) \<Rightarrow> string \<Rightarrow> string \<Rightarrow> PlanDescription \<Rightarrow>
     (string \<times> (string \<times> string) list) list \<Rightarrow> DeploymentPolicy \<Rightarrow> go_error option \<Rightarrow> go_error option \<Rightarrow> local_input list \<Rightarrow>
     local_state \<times> local_result" where
  "runLocal H parse name state plan secrets policy started hello_written inputs =
     (let s = \<lparr>lc_started = False, lc_current = state, lc_revision = 0, lc_status = ''success'', lc_sent = [], lc_ended = False, lc_killed = False\<rparr> in
      case started of
        Some e \<Rightarrow> (s, LocalError (Errorf ''start monitor''))
      | None \<Rightarrow> (case local_send (local_hello name state secrets policy) hello_written s of
          (s1, Some e) \<Rightarrow> (s1\<lparr>lc_killed := True\<rparr>, LocalError e)
        | (s1, None) \<Rightarrow> (case local_loop H parse plan inputs s1 of (s2, r) \<Rightarrow> (s2\<lparr>lc_killed := True\<rparr>, r))))"

section \<open>The command\<close>

record test_env =
  te_init :: "go_error option"
  te_tempdir :: "go_error option"
  te_started :: "go_error option"
  te_hello :: "go_error option"
  te_inputs :: "local_input list"

text \<open>
  The result has the state the run began with, the state it ended with and whether it would be saved.
  The store is read for \<open>--stored-state\<close> and never written.
\<close>

definition cli_test ::
    "hashing \<Rightarrow> (string \<Rightarrow> WorkerFrame option) \<Rightarrow> web \<Rightarrow> (string \<Rightarrow> int option) \<Rightarrow> files \<Rightarrow> toolchain \<Rightarrow> (path \<Rightarrow> lookup) \<Rightarrow> test_env \<Rightarrow>
     string \<Rightarrow> string \<Rightarrow> bool \<Rightarrow> int \<Rightarrow> store \<Rightarrow> (local_state \<times> string \<times> string \<times> bool) result option" where
  "cli_test H parse W go_duration F T secret_files V monitorsDir target useStored duration s =
     (if duration \<le> 0 then Some (Inl (Errorf ''--duration must be positive''))
      else case te_init V of Some e \<Rightarrow> Some (Inl e) | None \<Rightarrow>
      (case ResolveDir F monitorsDir target of Inl e \<Rightarrow> Some (Inl e) | Inr (dir, name) \<Rightarrow>
      (case LoadConfig W go_duration (fs_documents F dir) of Inl e \<Rightarrow> Some (Inl e) | Inr c \<Rightarrow>
      (case te_tempdir V of Some e \<Rightarrow> Some (Inl e) | None \<Rightarrow>
      (case tc_tidy T of Some e \<Rightarrow> Some (Inl e) | None \<Rightarrow>
      (case tc_compile T dir of Some e \<Rightarrow> Some (Inl e) | None \<Rightarrow>
      (case describe T '''' of Inl e \<Rightarrow> Some (Inl e) | Inr described \<Rightarrow>
      (case Resolve secret_files \<lparr>so_MonitorDir = dir, so_Overrides = [], so_Defaults = []\<rparr>
          (map (\<lambda>r. \<lparr>rf_Group = sr_Group r, rf_Key = sr_Key r, rf_Required = sr_Required r\<rparr>) (SecretRefs (mf_Plan described))) of
         Inl e \<Rightarrow> Some (Inl (Errorf ''resolve test secrets''))
       | Inr values \<Rightarrow>
      (case (if useStored
             then (case GetDeployment name s of Inl e \<Rightarrow> Inl e | Inr d \<Rightarrow> ValidateState T (d_state d))
             else Inr (mf_State described)) of
         Inl e \<Rightarrow> Some (Inl e)
       | Inr before \<Rightarrow>
      (case runLocal H parse name before (mf_Plan described) (fold put_secret values []) (cf_Policy c) (te_started V) (te_hello V)
          (te_inputs V) of
         (l, LocalPanic) \<Rightarrow> None
       | (l, LocalError e) \<Rightarrow> Some (Inl e)
       | (l, LocalDone final status) \<Rightarrow>
           if status = ''failure'' then Some (Inl (Errorf ''monitor callback failed''))
           else Some (Inr (l, before, final, before \<noteq> final \<and> length final > 0))))))))))))"

section \<open>What a local run accounts for\<close>

definition frame_in :: "(string \<Rightarrow> WorkerFrame option) \<Rightarrow> local_input \<Rightarrow> WorkerFrame option" where
  "frame_in parse i =
     (case i of Line t _ \<Rightarrow> if TrimSpace t = '''' then None else parse (TrimSpace t) | _ \<Rightarrow> None)"

abbreviation frames_of :: "(string \<Rightarrow> WorkerFrame option) \<Rightarrow> local_input list \<Rightarrow> WorkerFrame list" where
  "frames_of parse \<equiv> List.map_filter (frame_in parse)"

abbreviation goes_on :: "WorkerFrame \<Rightarrow> bool" where "goes_on m \<equiv> wf_Type m \<noteq> ''stopped''"

definition shown_transactions :: "WorkerFrame list \<Rightarrow> WireTransaction list" where
  "shown_transactions ms = map (the \<circ> wf_Transaction) (filter (\<lambda>m. wf_Type m = ''transaction'') ms)"

definition shown_statuses :: "WorkerFrame list \<Rightarrow> string list" where
  "shown_statuses ms = map (rf_Status \<circ> the \<circ> wf_Run) (filter (\<lambda>m. wf_Type m = ''run'') ms)"

fun acked :: "WireTransaction list \<Rightarrow> int \<Rightarrow> DaemonFrame list" where
  "acked [] n = []"
| "acked (t # ts) n = local_ack t (n + 1) # acked ts (n + 1)"

abbreviation acks_in :: "DaemonFrame list \<Rightarrow> DaemonFrame list" where
  "acks_in \<equiv> filter (\<lambda>f. df_Ack f \<noteq> None)"

text \<open>The frames \<open>ms\<close> before the stopped one, and \<open>st\<close>, the payload of that one, explain the outcome.\<close>

definition explains ::
    "hashing \<Rightarrow> WorkerFrame list \<Rightarrow> StoppedFrame \<Rightarrow> local_state \<Rightarrow> local_state \<Rightarrow> string \<Rightarrow> string \<Rightarrow> bool" where
  "explains H ms st s s' final status =
     (final = last (lc_current s # map wt_NextState (shown_transactions ms)) \<and>
      status = (if sf_Error st \<noteq> '''' then ''failure'' else last (lc_status s # shown_statuses ms)) \<and>
      acks_in (lc_sent s') = acks_in (lc_sent s) @ acked (shown_transactions ms) (lc_revision s) \<and>
      list_all (\<lambda>t. HashTransactionFrame H t = mustHash (wt_PayloadHash t)) (shown_transactions ms))"

lemma shown_simps [simp]:
  "shown_transactions [] = []" "shown_statuses [] = []"
  "shown_transactions (m # ms) =
     (if wf_Type m = ''transaction'' then the (wf_Transaction m) # shown_transactions ms else shown_transactions ms)"
  "shown_statuses (m # ms) =
     (if wf_Type m = ''run'' then rf_Status (the (wf_Run m)) # shown_statuses ms else shown_statuses ms)"
  by (simp_all add: shown_transactions_def shown_statuses_def)

lemma local_send_cases:
  "local_send f failed s = (s', r) \<Longrightarrow>
     (s' = s \<and> r \<noteq> None) \<or> (s' = s\<lparr>lc_sent := lc_sent s @ [f]\<rparr> \<and> r = None)"
  by (auto simp: local_send_def split: option.splits)

abbreviation same_account :: "local_state \<Rightarrow> local_state \<Rightarrow> bool" where
  "same_account s s' \<equiv> lc_current s' = lc_current s \<and> lc_revision s' = lc_revision s \<and> lc_status s' = lc_status s \<and>
     acks_in (lc_sent s') = acks_in (lc_sent s)"

lemma context_same: "same_account s (local_context reason deadline failed s)"
  by (simp add: local_context_def local_send_def Let_def split: option.splits)

lemma quiet_step:
  assumes "local_input_step H parse plan i s = (s1, r)" and "frame_in parse i = None"
  shows "(r = None \<and> same_account s s1) \<or> (\<exists>e. r = Some (LocalError e))"
  using assms
  by (cases i) (auto simp: context_same [simplified] local_input_step_def frame_in_def Let_def split: if_splits option.splits)

lemma frame_step:
  assumes "local_input_step H parse plan i s = (s1, r)" and "frame_in parse i = Some m"
  shows "(\<exists>e. r = Some (LocalError e)) \<or> (\<exists>failed. local_frame H plan m failed s = (s1, r))"
  using assms by (cases i) (auto simp: local_input_step_def frame_in_def Let_def split: if_splits)

lemma frame_goes_on:
  assumes "local_frame H plan m failed s = (s1, None)"
  shows "goes_on m \<and>
     (if wf_Type m = ''transaction'' then
        (let t = the (wf_Transaction m) in HashTransactionFrame H t = mustHash (wt_PayloadHash t) \<and>
          lc_current s1 = wt_NextState t \<and> lc_revision s1 = lc_revision s + 1 \<and> lc_status s1 = lc_status s \<and>
          acks_in (lc_sent s1) = acks_in (lc_sent s) @ [local_ack t (lc_revision s + 1)])
      else if wf_Type m = ''run'' then
        lc_status s1 = rf_Status (the (wf_Run m)) \<and> lc_current s1 = lc_current s \<and> lc_revision s1 = lc_revision s \<and>
        acks_in (lc_sent s1) = acks_in (lc_sent s)
      else same_account s s1)"
  using assms by (auto simp: local_frame_def local_start_def local_ack_def local_send_def Let_def
      split: if_splits option.splits)

lemma frame_done:
  assumes "local_frame H plan m failed s = (s1, Some (LocalDone final status))"
  shows "wf_Type m = ''stopped'' \<and> (\<exists>st. wf_Stopped m = Some st \<and> explains H [] st s s1 final status)"
  using assms by (auto simp: local_frame_def local_send_def explains_def Let_def split: if_splits option.splits)

lemma explains_Cons:
  assumes "local_frame H plan m failed s = (s1, None)" and "explains H ms st s1 s2 final status"
  shows "explains H (m # ms) st s s2 final status"
  using assms(2) frame_goes_on [OF assms(1)]
  by (auto simp: explains_def Let_def split: if_splits)

lemma explains_same:
  "same_account s s1 \<Longrightarrow> explains H ms st s1 s2 final status \<Longrightarrow> explains H ms st s s2 final status"
  by (simp add: explains_def)

definition stopped_in :: "WorkerFrame list \<Rightarrow> WorkerFrame list \<Rightarrow> StoppedFrame \<Rightarrow> bool" where
  "stopped_in all ms st = (\<exists>m rest. all = ms @ m # rest \<and> list_all goes_on ms \<and> wf_Type m = ''stopped'' \<and> wf_Stopped m = Some st)"

lemma loop_accounts:
  "local_loop H parse plan is s = (s', LocalDone final status) \<Longrightarrow>
     \<exists>ms st. stopped_in (frames_of parse is) ms st \<and> explains H ms st s s' final status"
proof (induction "is" arbitrary: s)
  case (Cons i "is")
  obtain s1 r where step: "local_input_step H parse plan i s = (s1, r)" by fastforce
  show ?case
  proof (cases "frame_in parse i")
    case None
    with quiet_step [OF step] Cons.prems step
    have "same_account s s1" "local_loop H parse plan is s1 = (s', LocalDone final status)" by auto
    moreover from Cons.IH [OF this(2)] obtain ms st
      where "stopped_in (frames_of parse is) ms st" "explains H ms st s1 s' final status" by blast
    moreover from None have "frames_of parse (i # is) = frames_of parse is" by (simp add: List.map_filter_simps)
    ultimately show ?thesis using explains_same by metis
  next
    case (Some m)
    with frame_step [OF step Some] Cons.prems step
    obtain failed where f: "local_frame H plan m failed s = (s1, r)" by auto
    show ?thesis
    proof (cases r)
      case None
      with Cons.prems step have "local_loop H parse plan is s1 = (s', LocalDone final status)" by simp
      with Cons.IH obtain ms st where ih: "stopped_in (frames_of parse is) ms st" "explains H ms st s1 s' final status"
        by blast
      from f None have f': "local_frame H plan m failed s = (s1, None)" by simp
      have "stopped_in (frames_of parse (i # is)) (m # ms) st"
        using ih(1) frame_goes_on [OF f'] Some by (auto simp: stopped_in_def List.map_filter_simps)
      with explains_Cons [OF f' ih(2)] show ?thesis by blast
    next
      case (Some x)
      with Cons.prems step f have "local_frame H plan m failed s = (s', Some (LocalDone final status))" by auto
      from frame_done [OF this] \<open>frame_in parse i = Some m\<close> show ?thesis
        by (fastforce simp: stopped_in_def List.map_filter_simps intro: exI [of _ "[]"])
    qed
  qed
qed simp

section \<open>The frames the coordinator sends pass the check\<close>

lemma hex_prefix_encode: "hex_prefix (hex_encode s) = s"
proof (induction s)
  case (Cons c s)
  have "unhex (hex_digit (byte c div 16)) = Some (byte c div 16)" by (rule unhex_hex_digit) (use byte_less [of c] in linarith)
  moreover have "char_of (16 * (byte c div 16) + byte c mod 16) = c" by (simp add: byte_def)
  ultimately show ?case using Cons by (simp add: hex_encode_def)
qed (simp add: hex_encode_def)

lemma mustHash_encode [simp]: "length h = 32 \<Longrightarrow> mustHash (hex_encode h) = h"
  by (simp add: mustHash_def hex_prefix_encode)

lemma local_accepts_commit:
  assumes "\<And>x. length (sum256 H x) = 32"
  shows "HashTransactionFrame H (commit_frame H tx c) = mustHash (wt_PayloadHash (commit_frame H tx c))"
  using assms by (simp add: commit_frame_def Let_def HashTransactionFrame_def transaction_fields_def)

section \<open>The property\<close>

definition local_accounts ::
    "hashing \<Rightarrow> (string \<Rightarrow> WorkerFrame option) \<Rightarrow> string \<Rightarrow> local_input list \<Rightarrow> local_state \<Rightarrow> string \<Rightarrow> string \<Rightarrow> bool" where
  "local_accounts H parse state inputs l final status =
     (\<exists>ms st. stopped_in (frames_of parse inputs) ms st \<and>
        final = last (state # map wt_NextState (shown_transactions ms)) \<and>
        status = (if sf_Error st \<noteq> '''' then ''failure'' else last (''success'' # shown_statuses ms)) \<and>
        acks_in (lc_sent l) = acked (shown_transactions ms) 0 \<and>
        list_all (\<lambda>t. HashTransactionFrame H t = mustHash (wt_PayloadHash t)) (shown_transactions ms) \<and>
        lc_killed l)"

text \<open>
  A local run that succeeds is accounted for by what the worker wrote before its stopped frame: the state it
  shows is the next state of the last transaction (the initial state when there was none), every transaction
  carried its own hash, the acknowledgements are one per transaction, in order, with the revisions from 1 on,
  and the status is that of the last run unless the stopped frame reports an error.  The process is killed on return.
\<close>

theorem local_run_accounts:
  assumes "runLocal H parse name state plan secrets policy started hello_written inputs = (l, LocalDone final status)"
  shows "local_accounts H parse state inputs l final status"
proof -
  let ?s = "\<lparr>lc_started = False, lc_current = state, lc_revision = 0, lc_status = ''success'',
      lc_sent = [local_hello name state secrets policy], lc_ended = False, lc_killed = False\<rparr>"
  obtain l' where "local_loop H parse plan inputs ?s = (l', LocalDone final status)" and l: "l = l'\<lparr>lc_killed := True\<rparr>"
    using assms by (auto simp: runLocal_def Let_def local_send_def split: option.splits prod.splits)
  from loop_accounts [OF this(1)] obtain ms st
    where "stopped_in (frames_of parse inputs) ms st" "explains H ms st ?s l' final status" by blast
  then show ?thesis by (auto simp: local_accounts_def explains_def l local_hello_def)
qed

definition local_sample_hashing :: hashing where
  "local_sample_hashing = \<lparr>sum256 = (\<lambda>_. replicate 32 (CHR ''A'')), json_string = (\<lambda>s. s), json_raw = (\<lambda>s. s),
     json_map = (\<lambda>_. ''{}''), json_events = (\<lambda>_. ''[]'')\<rparr>"

definition local_sample_transaction :: WireTransaction where
  "local_sample_transaction = \<lparr>wt_DeploymentID = ''local-test'', wt_Generation = 1, wt_WorkerToken = ''local-test-token'',
     wt_Sequence = 1, wt_BaseStateRevision = 0, wt_NextState = ''{}'', wt_Checkpoints = [], wt_Events = [],
     wt_PayloadHash = hex_encode (replicate 32 (CHR ''A''))\<rparr>"

definition local_sample_parse :: "string \<Rightarrow> WorkerFrame option" where
  "local_sample_parse t =
     (if t = ''t'' then Some (transaction_out local_sample_transaction)
      else Some \<lparr>wf_Type = ''stopped'', wf_Monitor = None, wf_Ready = None, wf_Run = None, wf_Transaction = None,
        wf_Stopped = Some \<lparr>sf_Generation = 1, sf_Clean = True, sf_Error = '''', sf_RunFailureReported = False\<rparr>\<rparr>)"

lemma local_sample_hash: "HashTransactionFrame local_sample_hashing local_sample_transaction = replicate 32 (CHR ''A'')"
  by (simp add: HashTransactionFrame_def local_sample_hashing_def)

theorem local_run_accounts_witness:
  "\<exists>l. runLocal local_sample_hashing local_sample_parse ''mon'' ''[]''
       \<lparr>pd_Kind = ''every'', pd_Interval = 1, pd_Timeout = 1, pd_Secrets = []\<rparr> []
       \<lparr>po_FailureThreshold = 1, po_MaxPerTransaction = 1, po_Retention = 1\<rparr> None None
       [Line ''t'' None, Line ''s'' None] = (l, LocalDone ''{}'' ''success'') \<and>
     local_accounts local_sample_hashing local_sample_parse ''[]'' [Line ''t'' None, Line ''s'' None] l ''{}'' ''success''"
proof -
  have trim: "TrimSpace ''t'' = ''t''" "TrimSpace ''s'' = ''s''" by (simp_all add: TrimSpace_plain plain_char_def byte_def)
  have "\<exists>l. runLocal local_sample_hashing local_sample_parse ''mon'' ''[]''
       \<lparr>pd_Kind = ''every'', pd_Interval = 1, pd_Timeout = 1, pd_Secrets = []\<rparr> []
       \<lparr>po_FailureThreshold = 1, po_MaxPerTransaction = 1, po_Retention = 1\<rparr> None None
       [Line ''t'' None, Line ''s'' None] = (l, LocalDone ''{}'' ''success'')"
    by (simp add: runLocal_def local_send_def local_input_step_def max_line_def trim local_sample_parse_def
        local_frame_def transaction_out_def local_sample_hash Let_def)
      (simp add: local_sample_transaction_def)
  then show ?thesis using local_run_accounts by blast
qed

end
