(* ===== verification/Accounts.thy ===== *)
theory Accounts
  imports Discord "HOL-Library.Char_ord" "HOL-Library.List_Lexorder"
begin

text \<open>
  \<open>internal/delivery/accounts.go\<close>: delivery credentials in the user's Keychain, with a registry of their
  names kept there as one more entry, and the commands of \<open>internal/cli/account.go\<close> over them.

  The command \<open>security\<close> is a parameter, on a state \<open>'k\<close> of its own: what it prints, or the text of its
  error.  \<open>keychain_laws\<close> is its documented behaviour for printable values, which it prints followed by a
  newline.  The codec of the registry is \<open>encoding/json\<close>.
\<close>

section \<open>The Keychain\<close>

datatype security_error = CommandMissing | CommandOutput string

record 'k security =
  sec_set :: "string \<Rightarrow> string \<Rightarrow> string \<Rightarrow> 'k \<Rightarrow> 'k \<times> security_error option"
  sec_get :: "string \<Rightarrow> string \<Rightarrow> 'k \<Rightarrow> security_error + string"
  sec_delete :: "string \<Rightarrow> string \<Rightarrow> 'k \<Rightarrow> 'k \<times> security_error option"

record account =
  ac_Kind :: string
  ac_Name :: string

record account_codec =
  acc_encode :: "account list \<Rightarrow> string option"
  acc_decode :: "string \<Rightarrow> account list option"

definition accountRegistryService :: string where "accountRegistryService = ''monitord.accounts''"
definition accountRegistryName :: string where "accountRegistryName = ''registry''"

definition keychainService :: "string \<Rightarrow> string" where "keychainService kind = ''monitord.account.'' @ kind"

definition keychainGet :: "'k security \<Rightarrow> string \<Rightarrow> string \<Rightarrow> 'k \<Rightarrow> security_error + string" where
  "keychainGet S service account k = (case sec_get S service account k of Inl e \<Rightarrow> Inl e | Inr out \<Rightarrow> Inr (TrimSpace out))"

fun text_contains :: "string \<Rightarrow> string \<Rightarrow> bool" where
  "text_contains needle [] \<longleftrightarrow> needle = []"
| "text_contains needle (c # cs) \<longleftrightarrow> take (length needle) (c # cs) = needle \<or> text_contains needle cs"

definition isKeychainNotFound :: "security_error \<Rightarrow> bool" where
  "isKeychainNotFound e = (case e of CommandMissing \<Rightarrow> True | CommandOutput t \<Rightarrow> text_contains ''could not be found'' t)"

section \<open>Accounts\<close>

definition isAccountKind :: "string \<Rightarrow> bool" where
  "isAccountKind kind \<longleftrightarrow> kind = ''discord'' \<or> kind = ''openclaw''"

definition validateAccount :: "string \<Rightarrow> string \<Rightarrow> go_error option" where
  "validateAccount kind account =
     (if \<not> isAccountKind kind then Some (Errorf ''invalid account kind'')
      else if \<not> isAccountName account then Some (Errorf ''invalid account'') else None)"

definition account_key :: "account \<Rightarrow> string" where
  "account_key a = ac_Kind a @ '':'' @ ac_Name a"

definition ListAccounts :: "'k security \<Rightarrow> account_codec \<Rightarrow> 'k \<Rightarrow> account list result" where
  "ListAccounts S J k =
     (case keychainGet S accountRegistryService accountRegistryName k of
        Inl e \<Rightarrow> if isKeychainNotFound e then Inr [] else Inl (Errorf ''load account registry from Keychain'')
      | Inr raw \<Rightarrow> (case acc_decode J raw of
          None \<Rightarrow> Inl (Errorf ''decode account registry'')
        | Some accounts \<Rightarrow>
            if list_ex (\<lambda>a. validateAccount (ac_Kind a) (ac_Name a) \<noteq> None) accounts
            then Inl (Errorf ''invalid account registry'')
            else Inr (sort_key account_key accounts)))"

definition storeAccountRegistry ::
    "'k security \<Rightarrow> account_codec \<Rightarrow> account list \<Rightarrow> 'k \<Rightarrow> 'k \<times> go_error option" where
  "storeAccountRegistry S J accounts k =
     (case acc_encode J accounts of
        None \<Rightarrow> (k, Some (Errorf ''encode account registry''))
      | Some raw \<Rightarrow> (case sec_set S accountRegistryService accountRegistryName raw k of
          (k1, Some e) \<Rightarrow> (k1, Some (Errorf ''store account registry in Keychain''))
        | (k1, None) \<Rightarrow> (k1, None)))"

definition AccountToken :: "'k security \<Rightarrow> string \<Rightarrow> string \<Rightarrow> 'k \<Rightarrow> string result" where
  "AccountToken S kind account k =
     (case validateAccount kind account of Some e \<Rightarrow> Inl e | None \<Rightarrow>
      (case keychainGet S (keychainService kind) account k of
         Inl e \<Rightarrow> Inl (Errorf ''load account from Keychain'')
       | Inr token \<Rightarrow> if token = '''' then Inl (Errorf ''account has an empty Keychain token'') else Inr token))"

definition StoreAccountToken ::
    "'k security \<Rightarrow> account_codec \<Rightarrow> string \<Rightarrow> string \<Rightarrow> string \<Rightarrow> 'k \<Rightarrow> 'k \<times> go_error option" where
  "StoreAccountToken S J kind account raw_token k =
     (case validateAccount kind account of Some e \<Rightarrow> (k, Some e) | None \<Rightarrow>
      let token = TrimSpace raw_token in
      if token = '''' then (k, Some (Errorf ''token for account is empty''))
      else (case sec_set S (keychainService kind) account token k of
          (k1, Some e) \<Rightarrow> (k1, Some (Errorf ''store account in Keychain''))
        | (k1, None) \<Rightarrow> (case ListAccounts S J k1 of
            Inl e \<Rightarrow> (k1, Some e)
          | Inr accounts \<Rightarrow>
              let entry = \<lparr>ac_Kind = kind, ac_Name = account\<rparr> in
              storeAccountRegistry S J (if entry \<in> set accounts then accounts else accounts @ [entry]) k1)))"

definition RemoveAccount ::
    "'k security \<Rightarrow> account_codec \<Rightarrow> string \<Rightarrow> string \<Rightarrow> 'k \<Rightarrow> 'k \<times> go_error option" where
  "RemoveAccount S J kind account k =
     (case validateAccount kind account of Some e \<Rightarrow> (k, Some e) | None \<Rightarrow>
      (case sec_delete S (keychainService kind) account k of
         (k1, Some e) \<Rightarrow> (k1, Some (Errorf ''remove account from Keychain''))
       | (k1, None) \<Rightarrow> (case ListAccounts S J k1 of
           Inl e \<Rightarrow> (k1, Some e)
         | Inr accounts \<Rightarrow>
             storeAccountRegistry S J (filter (\<lambda>a. \<not> (ac_Kind a = kind \<and> ac_Name a = account)) accounts) k1)))"

definition cli_accountSet ::
    "'k security \<Rightarrow> account_codec \<Rightarrow> string \<Rightarrow> string \<Rightarrow> string \<Rightarrow> 'k \<Rightarrow> 'k \<times> go_error option" where
  "cli_accountSet S J kind name token k =
     (if token = '''' then (k, Some (Errorf ''--token is required'')) else StoreAccountToken S J kind name (TrimSpace token) k)"

section \<open>What the commands rely on\<close>

definition printable :: "string \<Rightarrow> bool" where
  "printable s \<longleftrightarrow> list_all (\<lambda>c. 32 \<le> byte c \<and> byte c \<le> 126) s"

definition same_entries :: "'k security \<Rightarrow> string \<times> string \<Rightarrow> 'k \<Rightarrow> 'k \<Rightarrow> bool" where
  "same_entries S p k k' \<longleftrightarrow> (\<forall>s a. (s, a) \<noteq> p \<longrightarrow> sec_get S s a k' = sec_get S s a k)"

definition keychain_laws :: "'k security \<Rightarrow> bool" where
  "keychain_laws S \<longleftrightarrow>
     (\<forall>s a v k k'. sec_set S s a v k = (k', None) \<longrightarrow> same_entries S (s, a) k k' \<and>
        (printable v \<longrightarrow> sec_get S s a k' = Inr (v @ ''\<newline>''))) \<and>
     (\<forall>s a k k' e. sec_delete S s a k = (k', e) \<longrightarrow>
        (e = None \<longrightarrow> same_entries S (s, a) k k' \<and> (\<exists>e. sec_get S s a k' = Inl e)) \<and>
        ((\<exists>e. sec_get S s a k = Inl e) \<longrightarrow> k' = k \<and> e \<noteq> None))"

definition valid_account :: "account \<Rightarrow> bool" where
  "valid_account a \<longleftrightarrow> validateAccount (ac_Kind a) (ac_Name a) = None"

text \<open>JSON written without indentation has no space around it; the names are ASCII.\<close>

definition registry_codec :: "account_codec \<Rightarrow> bool" where
  "registry_codec J \<longleftrightarrow> (\<forall>as raw. list_all valid_account as \<longrightarrow> acc_encode J as = Some raw \<longrightarrow>
     printable raw \<and> TrimSpace (raw @ ''\<newline>'') = raw \<and> acc_decode J raw = Some as)"

lemma keychainService_not_registry [simp]:
  "keychainService kind \<noteq> accountRegistryService" "accountRegistryService \<noteq> keychainService kind"
  by (auto simp: keychainService_def accountRegistryService_def)

lemma keychainService_inj [simp]: "keychainService a = keychainService b \<longleftrightarrow> a = b"
  by (simp add: keychainService_def)

section \<open>Trimming\<close>

lemma trim_segs_snoc: "is_space (fst n) \<Longrightarrow> trim_segs (ps @ [n]) = trim_segs ps"
proof -
  assume n: "is_space (fst n)"
  show ?thesis
  proof (cases "\<forall>p\<in>set ps. is_space (fst p)")
    case True
    then have "dropWhile (is_space \<circ> fst) ps = []" by simp
    with True n show ?thesis by (simp add: trim_segs_def dropWhile_append del: dropWhile_eq_Nil_conv)
  next
    case False
    with n show ?thesis by (auto simp: trim_segs_def dropWhile_append)
  qed
qed

lemma rev_dropWhile_take: "rev (dropWhile P (rev ys)) = take (length ys - length (takeWhile P (rev ys))) ys"
  by (simp only: dropWhile_eq_drop rev_drop length_rev rev_rev_ident)

lemma trim_segs_part: "\<exists>m n. trim_segs ps = take n (drop m ps)"
  unfolding trim_segs_def rev_dropWhile_take by (metis dropWhile_eq_drop)

lemma dropWhile_prefix: "dropWhile P (take n (dropWhile P ps)) = take n (dropWhile P ps)"
proof (cases "take n (dropWhile P ps)")
  case (Cons x xs)
  then have "hd (dropWhile P ps) = x" "dropWhile P ps \<noteq> []" by (cases "dropWhile P ps"; cases n; simp)+
  then have "\<not> P x" using hd_dropWhile by metis
  then show ?thesis by (simp add: Cons)
next
  case Nil
  then show ?thesis by (simp only: dropWhile.simps)
qed

lemma trim_segs_twice: "trim_segs (trim_segs ps) = trim_segs ps"
proof -
  let ?P = "is_space \<circ> fst"
  have "dropWhile ?P (trim_segs ps) = trim_segs ps" unfolding trim_segs_def rev_dropWhile_take by (rule dropWhile_prefix)
  then show ?thesis by (simp add: trim_segs_def)
qed

lemma TrimSpace_twice [simp]: "TrimSpace (TrimSpace s) = TrimSpace s"
proof -
  obtain m n where part: "trim_segs (runes s) = take n (drop m (runes s))" using trim_segs_part by blast
  let ?t = "concat (map snd (drop m (runes s)))"
  have "runes (TrimSpace s) = trim_segs (runes s)"
    using runes_concat_take [of n ?t] by (simp add: TrimSpace_def part runes_concat_drop)
  then show ?thesis by (simp add: TrimSpace_def trim_segs_twice)
qed

lemma TrimSpace_newline [simp]: "TrimSpace (s @ ''\<newline>'') = TrimSpace s"
proof -
  have "runes (s @ ''\<newline>'') = runes s @ [(10, ''\<newline>'')]"
    by (subst runes_append) (simp_all add: starts_rune_def runes_ascii byte_def cont_def)
  then show ?thesis by (simp add: TrimSpace_def trim_segs_snoc is_space_def)
qed

section \<open>Storing and removing\<close>

lemma valid_listed: "ListAccounts S J k = Inr as \<Longrightarrow> list_all valid_account as"
  by (auto simp: ListAccounts_def valid_account_def list_all_iff list_ex_iff split: sum.splits option.splits if_splits)

lemma list_unchanged:
  "same_entries S (keychainService kind, name) k k' \<Longrightarrow> ListAccounts S J k' = ListAccounts S J k"
  by (simp add: ListAccounts_def keychainGet_def same_entries_def)

lemma registry_stored:
  assumes "keychain_laws S" and "registry_codec J" and "list_all valid_account as"
    and "storeAccountRegistry S J as k = (k', None)"
  shows "ListAccounts S J k' = Inr (sort_key account_key as) \<and>
    same_entries S (accountRegistryService, accountRegistryName) k k'"
proof -
  obtain raw where raw: "acc_encode J as = Some raw" "sec_set S accountRegistryService accountRegistryName raw k = (k', None)"
    using assms(4) by (auto simp: storeAccountRegistry_def split: option.splits prod.splits)
  then have "printable raw" "TrimSpace (raw @ ''\<newline>'') = raw" "acc_decode J raw = Some as"
    using assms(2,3) by (auto simp: registry_codec_def)
  moreover have "same_entries S (accountRegistryService, accountRegistryName) k k'"
    and "printable raw \<longrightarrow> sec_get S accountRegistryService accountRegistryName k' = Inr (raw @ ''\<newline>'')"
    using assms(1) raw(2) unfolding keychain_laws_def by blast+
  ultimately show ?thesis using assms(3)
    by (auto simp: ListAccounts_def keychainGet_def valid_account_def list_all_iff list_ex_iff)
qed

definition untouched_entries :: "'k security \<Rightarrow> string \<Rightarrow> string \<Rightarrow> 'k \<Rightarrow> 'k \<Rightarrow> bool" where
  "untouched_entries S kind name k k' \<longleftrightarrow>
     (\<forall>s a. (s, a) \<noteq> (keychainService kind, name) \<longrightarrow> (s, a) \<noteq> (accountRegistryService, accountRegistryName) \<longrightarrow>
        sec_get S s a k' = sec_get S s a k)"

lemma untouched_both:
  assumes "same_entries S (keychainService kind, name) k k1" "same_entries S (accountRegistryService, accountRegistryName) k1 k'"
  shows "untouched_entries S kind name k k'"
  using assms by (simp add: untouched_entries_def same_entries_def)

text \<open>
  A credential that is stored is the one that is used.  When storing succeeds the token is what
  \<open>AccountToken\<close> returns, the account is listed beside those listed before, and no other entry of the
  Keychain has changed.
\<close>

theorem account_stored:
  assumes "keychain_laws S" and "registry_codec J" and "printable (TrimSpace token)"
    and "StoreAccountToken S J kind name token k = (k', None)"
  shows "AccountToken S kind name k' = Inr (TrimSpace token) \<and>
    (\<exists>old new. ListAccounts S J k = Inr old \<and> ListAccounts S J k' = Inr new \<and>
       set new = insert \<lparr>ac_Kind = kind, ac_Name = name\<rparr> (set old)) \<and>
    untouched_entries S kind name k k'"
proof -
  let ?entry = "\<lparr>ac_Kind = kind, ac_Name = name\<rparr>"
  obtain k1 old where v: "validateAccount kind name = None" "TrimSpace token \<noteq> ''''"
    and set: "sec_set S (keychainService kind) name (TrimSpace token) k = (k1, None)"
    and list: "ListAccounts S J k1 = Inr old"
    and store: "storeAccountRegistry S J (if ?entry \<in> set old then old else old @ [?entry]) k1 = (k', None)"
    using assms(4) by (auto simp: StoreAccountToken_def Let_def split: option.splits if_splits prod.splits sum.splits)
  have kept: "same_entries S (keychainService kind, name) k k1"
    and got: "sec_get S (keychainService kind) name k1 = Inr (TrimSpace token @ ''\<newline>'')"
    using assms(1,3) set unfolding keychain_laws_def by blast+
  have "list_all valid_account (if ?entry \<in> set old then old else old @ [?entry])"
    using valid_listed [OF list] v(1) by (simp add: valid_account_def)
  note reg = registry_stored [OF assms(1,2) this store]
  have "sec_get S (keychainService kind) name k' = Inr (TrimSpace token @ ''\<newline>'')"
    using reg got by (simp add: same_entries_def)
  then have "AccountToken S kind name k' = Inr (TrimSpace token)"
    using v by (simp add: AccountToken_def keychainGet_def)
  moreover have "ListAccounts S J k = Inr old" using list list_unchanged [OF kept] by simp
  moreover have "untouched_entries S kind name k k'" using untouched_both [OF kept] reg by blast
  ultimately show ?thesis using reg by (auto split: if_splits)
qed

text \<open>An account that is removed has no credential and is not listed; nothing else changes.\<close>

theorem account_removed:
  assumes "keychain_laws S" and "registry_codec J" and "RemoveAccount S J kind name k = (k', None)"
  shows "(\<exists>e. AccountToken S kind name k' = Inl e) \<and>
    (\<exists>old new. ListAccounts S J k = Inr old \<and> ListAccounts S J k' = Inr new \<and>
       set new = set old - {\<lparr>ac_Kind = kind, ac_Name = name\<rparr>}) \<and>
    untouched_entries S kind name k k'"
proof -
  let ?other = "\<lambda>a. \<not> (ac_Kind a = kind \<and> ac_Name a = name)"
  obtain k1 old where del: "sec_delete S (keychainService kind) name k = (k1, None)"
    and list: "ListAccounts S J k1 = Inr old" and store: "storeAccountRegistry S J (filter ?other old) k1 = (k', None)"
    using assms(3) by (auto simp: RemoveAccount_def split: option.splits prod.splits sum.splits)
  have kept: "same_entries S (keychainService kind, name) k k1" and gone: "\<exists>e. sec_get S (keychainService kind) name k1 = Inl e"
    using assms(1) del unfolding keychain_laws_def by blast+
  have "list_all valid_account (filter ?other old)" using valid_listed [OF list] by (simp add: list_all_iff)
  note reg = registry_stored [OF assms(1,2) this store]
  have "\<exists>e. AccountToken S kind name k' = Inl e"
    using reg gone by (auto simp: AccountToken_def keychainGet_def same_entries_def split: option.splits)
  moreover have "ListAccounts S J k = Inr old" using list list_unchanged [OF kept] by simp
  moreover have "untouched_entries S kind name k k'" using untouched_both [OF kept] reg by blast
  moreover have "set (filter ?other old) = set old - {\<lparr>ac_Kind = kind, ac_Name = name\<rparr>}" by auto
  ultimately show ?thesis using reg by auto
qed

text \<open>
  An account that lost its credential, as when a removal failed at the registry, cannot be removed from the
  registry: every further removal fails at the credential and changes nothing.
\<close>

lemma stale_entry_stuck:
  assumes "keychain_laws S" and "sec_get S (keychainService kind) name k = Inl e"
  shows "\<exists>e. RemoveAccount S J kind name k = (k, Some e)"
proof -
  obtain k1 r where "sec_delete S (keychainService kind) name k = (k1, r)" by fastforce
  moreover from this have "k1 = k \<and> r \<noteq> None" using assms unfolding keychain_laws_def by blast
  ultimately show ?thesis by (auto simp: RemoveAccount_def split: option.splits)
qed

section \<open>A Keychain\<close>

text \<open>Entries are strings, the registry of this sample has at most one account, written as its name.\<close>

definition map_keychain :: "(string \<times> string \<Rightarrow> string option) security" where
  "map_keychain = \<lparr>sec_set = (\<lambda>s a v k. (k((s, a) \<mapsto> v), None)),
     sec_get = (\<lambda>s a k. case k (s, a) of None \<Rightarrow> Inl (CommandOutput ''The specified item could not be found in the keychain.'')
       | Some v \<Rightarrow> Inr (v @ ''\<newline>'')),
     sec_delete = (\<lambda>s a k. case k (s, a) of None \<Rightarrow> (k, Some (CommandOutput ''could not be found'')) | Some v \<Rightarrow> (k((s, a) := None), None))\<rparr>"

definition small_codec :: account_codec where
  "small_codec = \<lparr>acc_encode = (\<lambda>as. if as = [] then Some ''null'' else if as = [\<lparr>ac_Kind = ''discord'', ac_Name = ''alerts''\<rparr>] then Some ''one'' else None),
     acc_decode = (\<lambda>raw. if raw = ''null'' then Some [] else if raw = ''one'' then Some [\<lparr>ac_Kind = ''discord'', ac_Name = ''alerts''\<rparr>] else None)\<rparr>"

lemma map_keychain_laws: "keychain_laws map_keychain"
  by (auto simp: keychain_laws_def map_keychain_def same_entries_def split: option.splits)

lemma small_codec_laws: "registry_codec small_codec"
  by (auto simp: registry_codec_def small_codec_def printable_def byte_def TrimSpace_plain plain_char_def split: if_splits)

lemma account_stored_witness:
  "\<exists>k'. StoreAccountToken map_keychain small_codec ''discord'' ''alerts'' '' t '' (\<lambda>_. None) = (k', None) \<and>
     AccountToken map_keychain ''discord'' ''alerts'' k' = Inr ''t''"
proof -
  have trim: "TrimSpace '' t '' = ''t''" by (simp add: TrimSpace_def trim_segs_def runes_ascii byte_def is_space_def)
  have name: "isAccountName ''alerts''" by (simp add: isAccountName_def runes_ascii byte_def)
  have "\<exists>k'. StoreAccountToken map_keychain small_codec ''discord'' ''alerts'' '' t '' (\<lambda>_. None) = (k', None)"
    by (simp add: StoreAccountToken_def trim validateAccount_def isAccountKind_def name map_keychain_def ListAccounts_def
        keychainGet_def isKeychainNotFound_def storeAccountRegistry_def small_codec_def keychainService_def
        accountRegistryService_def accountRegistryName_def)
  then obtain k' where "StoreAccountToken map_keychain small_codec ''discord'' ''alerts'' '' t '' (\<lambda>_. None) = (k', None)" by blast
  from account_stored [OF map_keychain_laws small_codec_laws _ this] this show ?thesis
    by (simp add: trim printable_def byte_def)
qed

end
