(* ===== verification/Lifetime.thy ===== *)
theory Lifetime
  imports Checkpointer SupervisionTheorems
begin

text \<open>
  \<open>internal/daemon/daemon.go\<close> and \<open>lock_unix.go\<close>: the life of a daemon, from the lock of its root over the
  recovery of the generations and the passes of the reconciler to the shutdown.

  The kernel keeps which descriptors are open on the lock file and which of them has the lock; closing a
  descriptor gives its lock back.  Every call can fail.  What the other goroutines do after a pass (the ends
  of workers, and the calls of the store by workers, outbox and maintenance) is a list of events.
\<close>

section \<open>The lock\<close>

record lock_env =
  lk_mkdir :: "go_error option"
  lk_open :: "go_error option"
  lk_flock :: "go_error option"
  lk_truncate :: "go_error option"
  lk_seek :: "go_error option"
  lk_write :: "go_error option"
  lk_unlock :: "go_error option"
  lk_close :: "go_error option"

record kernel =
  kn_open :: "nat list"
  kn_locked :: "nat option"

definition close_lock :: "nat \<Rightarrow> kernel \<Rightarrow> kernel" where
  "close_lock fd K = K\<lparr>kn_open := remove1 fd (kn_open K), kn_locked := (if kn_locked K = Some fd then None else kn_locked K)\<rparr>"

definition acquireDaemonLock :: "lock_env \<Rightarrow> nat \<Rightarrow> kernel \<Rightarrow> kernel \<times> go_error option" where
  "acquireDaemonLock V fd K =
     (case lk_mkdir V of Some e \<Rightarrow> (K, Some (Errorf ''create state dir'')) | None \<Rightarrow>
     (case lk_open V of Some e \<Rightarrow> (K, Some (Errorf ''open daemon lock'')) | None \<Rightarrow>
      let K1 = K\<lparr>kn_open := fd # kn_open K\<rparr> in
      if kn_locked K1 \<noteq> None then (close_lock fd K1, Some (Errorf ''monitord daemon already running''))
      else (case lk_flock V of Some e \<Rightarrow> (close_lock fd K1, Some (Errorf ''acquire daemon lock'')) | None \<Rightarrow>
        let K2 = K1\<lparr>kn_locked := Some fd\<rparr> in
        (case lk_truncate V of Some e \<Rightarrow> (close_lock fd K2, Some (Errorf ''truncate daemon lock'')) | None \<Rightarrow>
        (case lk_seek V of Some e \<Rightarrow> (close_lock fd K2, Some (Errorf ''seek daemon lock'')) | None \<Rightarrow>
        (case lk_write V of Some e \<Rightarrow> (close_lock fd K2, Some (Errorf ''write daemon lock'')) | None \<Rightarrow> (K2, None)))))))"

definition daemonLock_Close :: "lock_env \<Rightarrow> nat \<Rightarrow> kernel \<Rightarrow> kernel \<times> go_error option" where
  "daemonLock_Close V fd K =
     (let K1 = (case lk_unlock V of Some e \<Rightarrow> K | None \<Rightarrow> K\<lparr>kn_locked := None\<rparr>) in
      (close_lock fd K1,
       case lk_unlock V of Some e \<Rightarrow> Some (Errorf ''release daemon lock'')
       | None \<Rightarrow> (case lk_close V of Some e \<Rightarrow> Some (Errorf ''close daemon lock'') | None \<Rightarrow> None)))"

section \<open>The run\<close>

datatype daemon_event = ServeEnds exit_env nat serve_result | OtherCalls "store_call list"

text \<open>Only a worker that is being served has a goroutine that ends.\<close>

fun daemon_event_step :: "env \<Rightarrow> daemon_env \<Rightarrow> daemon_event \<Rightarrow> daemon \<Rightarrow> daemon" where
  "daemon_event_step E M (ServeEnds X p r) d =
     (if p < length (dm_heap d) \<and> rn_serving (dm_heap d ! p) then serve_end E M X p r d else d)"
| "daemon_event_step E M (OtherCalls cs) d = meanwhile E cs d"

record pass_env =
  ps_visits :: "string \<Rightarrow> visit_env"
  ps_now :: int
  ps_between :: "store_call list"
  ps_listedAt :: int
  ps_events :: "daemon_event list"

definition daemon_pass :: "env \<Rightarrow> daemon_env \<Rightarrow> pass_env \<Rightarrow> daemon \<Rightarrow> daemon" where
  "daemon_pass E M P d =
     fold (daemon_event_step E M) (ps_events P)
       (fst (reconcile E M (ps_visits P) (ps_now P) (ps_between P) (ps_listedAt P) d))"

text \<open>
  \<open>run\<close>: the passes until the context ends, then the workers are stopped and the goroutines that serve
  them waited for; \<open>ends\<close> says how each of them ends.
\<close>

definition daemon_run ::
    "env \<Rightarrow> daemon_env \<Rightarrow> pass_env list \<Rightarrow> (nat \<Rightarrow> exit_env \<times> serve_result) \<Rightarrow> daemon \<Rightarrow> daemon" where
  "daemon_run E M passes ends d =
     (let d1 = stopWorkers (fold (daemon_pass E M) passes d) in
      fold (\<lambda>p. daemon_event_step E M (ServeEnds (fst (ends p)) p (snd (ends p)))) [0..<length (dm_heap d1)] d1)"

record run_env =
  re_lock :: lock_env
  re_open :: open_env
  re_recover :: "go_error option"
  re_recoveredAt :: int
  re_passes :: "pass_env list"
  re_ends :: "nat \<Rightarrow> exit_env \<times> serve_result"
  re_close :: "go_error option"

record system =
  sy_kernel :: kernel
  sy_handles :: "handle list"
  sy_daemon :: daemon

definition recovered_run :: "env \<Rightarrow> daemon_env \<Rightarrow> run_env \<Rightarrow> daemon \<Rightarrow> daemon \<times> go_error list" where
  "recovered_run E M V d =
     (case re_recover V of Some e \<Rightarrow> (d, [e]) | None \<Rightarrow>
      (case on_store (RecoverGenerations (re_recoveredAt V)) d of
         (d1, Inl e) \<Rightarrow> (d1, [e])
       | (d1, Inr _) \<Rightarrow> (daemon_run E M (re_passes V) (re_ends V) d1, [])))"

abbreviation opt_list :: "'a option \<Rightarrow> 'a list" where "opt_list r \<equiv> (case r of None \<Rightarrow> [] | Some e \<Rightarrow> [e])"

text \<open>\<open>Run\<close>; the errors are those that are joined.\<close>

definition daemon_Run :: "env \<Rightarrow> daemon_env \<Rightarrow> run_env \<Rightarrow> nat \<Rightarrow> system \<Rightarrow> system \<times> go_error list" where
  "daemon_Run E M V fd Y =
     (case acquireDaemonLock (re_lock V) fd (sy_kernel Y) of
        (K1, Some e) \<Rightarrow> (Y\<lparr>sy_kernel := K1\<rparr>, [e])
      | (K1, None) \<Rightarrow>
          let (K2, unlocked) = daemonLock_Close (re_lock V) fd K1 in
          (case openStore (re_open V) True of
             (live, Inl e) \<Rightarrow> (Y\<lparr>sy_kernel := K2, sy_handles := live\<rparr>, e # opt_list unlocked)
           | (live, Inr st) \<Rightarrow>
               (case recovered_run E M V (sy_daemon Y) of
                  (d, es) \<Rightarrow> (Y\<lparr>sy_kernel := K2, sy_handles := closeStore st live, sy_daemon := d\<rparr>,
                    es @ opt_list (re_close V) @ opt_list unlocked))))"

section \<open>What a run leaves\<close>

definition kernel_ok :: "kernel \<Rightarrow> bool" where
  "kernel_ok K \<longleftrightarrow> (case kn_locked K of None \<Rightarrow> True | Some fd \<Rightarrow> fd \<in> set (kn_open K))"

lemma acquire_failed:
  assumes "acquireDaemonLock V fd K = (K', Some e)" "kernel_ok K" "fd \<notin> set (kn_open K)"
  shows "K' = K"
  using assms by (auto simp: acquireDaemonLock_def close_lock_def kernel_ok_def Let_def split: option.splits if_splits)

lemma acquire_taken:
  assumes "acquireDaemonLock V fd K = (K', None)"
  shows "kn_locked K = None \<and> K' = K\<lparr>kn_open := fd # kn_open K, kn_locked := Some fd\<rparr>"
  using assms by (auto simp: acquireDaemonLock_def Let_def split: option.splits if_splits)

lemma release:
  assumes "kn_locked K = None"
  shows "fst (daemonLock_Close V fd (K\<lparr>kn_open := fd # kn_open K, kn_locked := Some fd\<rparr>)) = K"
  using assms by (auto simp: daemonLock_Close_def close_lock_def Let_def split: option.splits)

text \<open>While a daemon has the lock no other one gets it, and a failed attempt changes nothing.\<close>

lemma daemon_single:
  assumes "acquireDaemonLock V fd K = (K1, None)" and "other \<notin> set (kn_open K1)"
  shows "\<exists>e. acquireDaemonLock V2 other K1 = (K1, Some e)"
proof -
  obtain K2 r where a: "acquireDaemonLock V2 other K1 = (K2, r)" by fastforce
  have k: "kn_locked K1 = Some fd" "fd \<in> set (kn_open K1)" using acquire_taken [OF assms(1)] by simp_all
  then have "r \<noteq> None" using acquire_taken [of V2 other K1 K2] a by auto
  moreover have "kernel_ok K1" using k by (simp add: kernel_ok_def)
  ultimately show ?thesis using acquire_failed [of V2 other K1 K2] a assms(2) by auto
qed

lemma stopWorkers_empty: "dm_workers (stopWorkers d) = []"
  using stop_slots [of "''daemon shutdown''" "dm_workers d" "d\<lparr>dm_workers := []\<rparr>"] by (simp add: stopWorkers_def)

lemma event_unslotted:
  assumes "dm_workers d = []"
  shows "dm_workers (daemon_event_step E M (ServeEnds X p r) d) = []"
    and "length (dm_heap (daemon_event_step E M (ServeEnds X p r) d)) = length (dm_heap d)"
    and "q < length (dm_heap d) \<Longrightarrow> rn_serving (dm_heap (daemon_event_step E M (ServeEnds X p r) d) ! q) \<longleftrightarrow>
      rn_serving (dm_heap d ! q) \<and> q \<noteq> p"
proof -
  note fields = serve_end_fields [where p = p and d = d and E = E and M = M and X = X and r = r]
  show "dm_workers (daemon_event_step E M (ServeEnds X p r) d) = []"
    and "length (dm_heap (daemon_event_step E M (ServeEnds X p r) d)) = length (dm_heap d)"
    using assms fields(1,5) by (auto simp: slot_of_def empty_slot_def)
  show "rn_serving (dm_heap (daemon_event_step E M (ServeEnds X p r) d) ! q) \<longleftrightarrow> rn_serving (dm_heap d ! q) \<and> q \<noteq> p"
    if "q < length (dm_heap d)"
    using that fields(3) [of q] fields(4) by (cases "q = p") auto
qed

lemma waited:
  "dm_workers d = [] \<Longrightarrow>
   d' = fold (\<lambda>p. daemon_event_step E M (ServeEnds (fst (ends p)) p (snd (ends p)))) ps d \<Longrightarrow>
   dm_workers d' = [] \<and> length (dm_heap d') = length (dm_heap d) \<and>
   (\<forall>q<length (dm_heap d). rn_serving (dm_heap d' ! q) \<longleftrightarrow> rn_serving (dm_heap d ! q) \<and> q \<notin> set ps)"
proof (induction ps arbitrary: d)
  case (Cons p ps)
  let ?d1 = "daemon_event_step E M (ServeEnds (fst (ends p)) p (snd (ends p))) d"
  note one = event_unslotted [OF Cons.prems(1), where E = E and M = M and X = "fst (ends p)" and p = p and r = "snd (ends p)"]
  show ?case using Cons.IH [of ?d1] Cons.prems(2) one by auto
qed simp

lemma daemon_run_ends:
  assumes "d' = daemon_run E M passes ends d"
  shows "dm_workers d' = []" and "list_all (\<lambda>r. \<not> rn_serving r) (dm_heap d')"
proof -
  let ?d1 = "stopWorkers (fold (daemon_pass E M) passes d)"
  note w = waited [OF stopWorkers_empty assms [unfolded daemon_run_def Let_def]]
  show "dm_workers d' = []" using w by blast
  show "list_all (\<lambda>r. \<not> rn_serving r) (dm_heap d')" using w by (simp add: list_all_length)
qed

text \<open>The passes start from a store in which no generation is active, whoever ran before.\<close>

lemma recovered_none_active:
  "list_all (\<lambda>g. g_status g \<noteq> GenActive) (generations (dm_store (fst (on_store (RecoverGenerations now) d))))"
  by (auto simp: on_store_def RecoverGenerations_def run_tx_def Let_def list_all_iff update_where_def retire_once_def retire_def)

lemma recovered_run_clean:
  assumes "recovered_run E M V d = (d', es)" and "dm_workers d = []" "dm_heap d = []"
  shows "dm_workers d' = [] \<and> list_all (\<lambda>r. \<not> rn_serving r) (dm_heap d')"
proof -
  obtain d1 r where o: "on_store (RecoverGenerations (re_recoveredAt V)) d = (d1, r)" by fastforce
  have "dm_workers d1 = []" "dm_heap d1 = []"
    using assms(2,3) on_store_fields [where f = "RecoverGenerations (re_recoveredAt V)" and d = d] by (simp_all add: o)
  with assms o daemon_run_ends [OF refl, of E M "re_passes V" "re_ends V" d1] show ?thesis
    by (auto simp: recovered_run_def split: option.splits sum.splits)
qed


definition quiet_lock :: lock_env where
  "quiet_lock = \<lparr>lk_mkdir = None, lk_open = None, lk_flock = None, lk_truncate = None, lk_seek = None, lk_write = None,
     lk_unlock = None, lk_close = None\<rparr>"

definition quiet_run :: run_env where
  "quiet_run = \<lparr>re_lock = quiet_lock,
     re_open = \<lparr>op_mkdir = None, op_writer = None, op_schema = None, op_reader = None, op_checkpoint = None,
       op_wal = Inr \<lparr>ws_Busy = 0, ws_Frames = 0, ws_Checkpointed = 0\<rparr>, op_page = Inr 4096\<rparr>,
     re_recover = None, re_recoveredAt = 7, re_passes = [\<lparr>ps_visits = (\<lambda>_. sup_visit), ps_now = 20, ps_between = [], ps_listedAt = 20, ps_events = []\<rparr>],
     re_ends = (\<lambda>_. (\<lparr>xe_failureID = ''f'', xe_failedAt = 30, xe_stoppedAt = 30, xe_now = 30, xe_meanwhile = []\<rparr>, ServeDone [])),
     re_close = None\<rparr>"


end
