(* ===== verification/Reading.thy ===== *)
theory Reading
  imports Protocol
begin

text \<open>
  \<open>readLoop\<close> of \<open>internal/daemon/worker.go\<close>: the frames of a worker's output, read through a buffer.

  What \<open>bufio.Reader.ReadSlice\<close> returns is a list of slices, which depends on the size of the buffer and on how the
  operating system cuts the pipe.  The property is that the frames do not.
\<close>

section \<open>The loop\<close>

text \<open>A slice ends with the newline, or fills the buffer without one, or comes with an error.\<close>

datatype buffer_slice = LineEnd string | BufferFull string | ReadError string go_error

text \<open>\<open>decode\<close> is \<open>DecodeWorkerFrame\<close>; \<open>raw\<close> is what has been read of the frame.\<close>

fun read_loop :: "(string \<Rightarrow> 'f result) \<Rightarrow> buffer_slice list \<Rightarrow> string \<Rightarrow> 'f result list" where
  "read_loop decode [] raw = []"
| "read_loop decode (s # ss) raw =
     (let part = (case s of LineEnd p \<Rightarrow> p | BufferFull p \<Rightarrow> p | ReadError p _ \<Rightarrow> p) in
      if length raw + length part > MaxFrameBytes then [Inl (Errorf ''protocol frame exceeds maximum size'')]
      else case s of
        BufferFull p \<Rightarrow> read_loop decode ss (raw @ p)
      | ReadError p e \<Rightarrow> [Inl e]
      | LineEnd p \<Rightarrow> (case decode (raw @ p) of Inl e \<Rightarrow> [Inl e] | Inr v \<Rightarrow> Inr v # read_loop decode ss []))"

text \<open>\<open>publishRead\<close>: the results the worker's reader takes before \<open>closeReaders\<close>.\<close>

definition readLoop ::
    "(string \<Rightarrow> (WorkerFrame \<times> string) option) \<Rightarrow> (string \<Rightarrow> bool) \<Rightarrow> nat \<Rightarrow> buffer_slice list \<Rightarrow> WorkerFrame result list" where
  "readLoop decode at_eof taken ss = take taken (read_loop (DecodeWorkerFrame decode at_eof) ss [])"

section \<open>The stream\<close>

abbreviation newline :: char where "newline \<equiv> CHR ''\<newline>''"

text \<open>The lines of a stream with their newlines, and what is left after the last one.\<close>

fun lines_of :: "string \<Rightarrow> string \<Rightarrow> string list \<times> string" where
  "lines_of raw [] = ([], raw)"
| "lines_of raw (c # cs) =
     (if c = newline then (case lines_of [] cs of (ls, t) \<Rightarrow> ((raw @ [c]) # ls, t)) else lines_of (raw @ [c]) cs)"

fun read_lines :: "(string \<Rightarrow> 'f result) \<Rightarrow> string list \<Rightarrow> string \<Rightarrow> go_error \<Rightarrow> 'f result list" where
  "read_lines decode [] rest e =
     [Inl (if length rest > MaxFrameBytes then Errorf ''protocol frame exceeds maximum size'' else e)]"
| "read_lines decode (l # ls) rest e =
     (if length l > MaxFrameBytes then [Inl (Errorf ''protocol frame exceeds maximum size'')]
      else case decode l of Inl x \<Rightarrow> [Inl x] | Inr v \<Rightarrow> Inr v # read_lines decode ls rest e)"

text \<open>The slices of a stream that ends with \<open>e\<close>, whatever the buffer.\<close>

fun slices_of :: "buffer_slice list \<Rightarrow> string \<Rightarrow> go_error \<Rightarrow> bool" where
  "slices_of [] xs e \<longleftrightarrow> False"
| "slices_of (LineEnd p # ss) xs e \<longleftrightarrow> p \<noteq> [] \<and> last p = newline \<and> newline \<notin> set (butlast p) \<and>
     take (length p) xs = p \<and> slices_of ss (drop (length p) xs) e"
| "slices_of (BufferFull p # ss) xs e \<longleftrightarrow> newline \<notin> set p \<and> take (length p) xs = p \<and> slices_of ss (drop (length p) xs) e"
| "slices_of (ReadError p x # ss) xs e \<longleftrightarrow> newline \<notin> set p \<and> xs = p \<and> x = e \<and> ss = []"

lemma lines_of_skip: "newline \<notin> set p \<Longrightarrow> lines_of raw (p @ xs) = lines_of (raw @ p) xs"
  by (induction p arbitrary: raw) auto

lemma lines_of_line:
  assumes "p \<noteq> []" "last p = newline" "newline \<notin> set (butlast p)"
  shows "lines_of raw (p @ xs) = (case lines_of [] xs of (ls, t) \<Rightarrow> ((raw @ p) # ls, t))"
proof -
  have p: "p = butlast p @ [newline]" using assms(1,2) by (metis append_butlast_last_id)
  have "lines_of raw (butlast p @ newline # xs) = (case lines_of [] xs of (ls, t) \<Rightarrow> ((raw @ butlast p @ [newline]) # ls, t))"
    using lines_of_skip [OF assms(3), of raw "newline # xs"] by simp
  then show ?thesis by (subst (1 2) p) simp
qed

lemma take_append_drop_eq: "take (length p) xs = p \<Longrightarrow> xs = p @ drop (length p) xs"
  by (metis append_take_drop_id)

text \<open>A frame that grows beyond the limit is refused however it goes on.\<close>

lemma too_long:
  assumes "length raw > MaxFrameBytes" "lines_of raw xs = (ls, t)"
  shows "read_lines decode ls t e = [Inl (Errorf ''protocol frame exceeds maximum size'')]"
  using assms
proof (induction xs arbitrary: raw ls t)
  case (Cons c xs)
  show ?case
  proof (cases "c = newline")
    case False
    then show ?thesis using Cons.IH [of "raw @ [c]" ls t] Cons.prems by simp
  qed (use Cons.prems in \<open>auto split: prod.splits\<close>)
qed simp

lemma read_loop_lines:
  "slices_of ss xs e \<Longrightarrow> length raw \<le> MaxFrameBytes \<Longrightarrow> lines_of raw xs = (ls, t) \<Longrightarrow>
     read_loop decode ss raw = read_lines decode ls t e"
proof (induction ss arbitrary: raw xs ls t)
  case (Cons s ss)
  show ?case
  proof (cases s)
    case (LineEnd p)
    then have p: "p \<noteq> []" "last p = newline" "newline \<notin> set (butlast p)" and rest: "slices_of ss (drop (length p) xs) e"
      and xs: "xs = p @ drop (length p) xs"
      using Cons.prems(1) take_append_drop_eq by auto
    obtain ls' t' where l: "lines_of [] (drop (length p) xs) = (ls', t')" by fastforce
    have "ls = (raw @ p) # ls'" "t = t'"
      using Cons.prems(3) lines_of_line [OF p, of raw "drop (length p) xs"] l xs by auto
    then show ?thesis using LineEnd Cons.IH [OF rest _ l] by (auto split: sum.splits)
  next
    case (BufferFull p)
    then have p: "newline \<notin> set p" and rest: "slices_of ss (drop (length p) xs) e" and xs: "xs = p @ drop (length p) xs"
      using Cons.prems(1) take_append_drop_eq by auto
    have l: "lines_of (raw @ p) (drop (length p) xs) = (ls, t)"
      using Cons.prems(3) lines_of_skip [OF p, of raw "drop (length p) xs"] xs by simp
    show ?thesis
    proof (cases "length (raw @ p) > MaxFrameBytes")
      case True
      then show ?thesis using BufferFull by (simp add: too_long [OF True l])
    next
      case False
      then show ?thesis using BufferFull Cons.IH [OF rest _ l] by simp
    qed
  next
    case (ReadError p x)
    then have p: "newline \<notin> set p" "xs = p" "x = e" using Cons.prems(1) by auto
    then have "ls = []" "t = raw @ p" using Cons.prems(3) lines_of_skip [OF p(1), of raw "[]"] by auto
    then show ?thesis using ReadError p by simp
  qed
qed simp

text \<open>
  C40: the frames a worker is heard to send do not depend on buffering.  However the stream of its output is cut
  into slices, what the reader publishes are the frames of the stream's lines, in order, up to the first line
  that does not decode or exceeds the limit, and otherwise the error the stream ends with.
\<close>

theorem framing_unbuffered:
  assumes "slices_of ss xs e" and "lines_of [] xs = (ls, rest)"
  shows "readLoop decode at_eof taken ss = take taken (read_lines (DecodeWorkerFrame decode at_eof) ls rest e)"
  using read_loop_lines [OF assms(1) _ assms(2), of "DecodeWorkerFrame decode at_eof"] by (simp add: readLoop_def)

lemma framing_unbuffered_witness:
  "readLoop (\<lambda>_. None) (\<lambda>_. True) 1 [BufferFull ''{'', LineEnd ''}\<newline>'', ReadError '''' (Errorf ''EOF'')] =
     take 1 (read_lines (DecodeWorkerFrame (\<lambda>_. None) (\<lambda>_. True)) [''{}\<newline>''] '''' (Errorf ''EOF''))"
  by (rule framing_unbuffered [where xs = "''{}\<newline>''"]) simp_all

end
