(* ===== verification/Spec2Isabelle.thy ===== *)
theory Spec2Isabelle
  imports StoreTheorems LifecycleTheorems OutboxTheorems DeliveryTheorems DispatchTheorems ProtocolTheorems CommitTheorems SettlementTheorems BlocksTheorems EventsTheorems EvmTheorems Erc20 SecretsTheorems SupervisionTheorems SupervisorTheorems SolanaTheorems QuicknodeTheorems OperateTheorems Checkpointer Httpx Layout LocalTest Accounts Lifetime Reading
begin

text \<open>
  Verification library of monitord, a daemon that runs monitors (Go programs built from the user's
  sources) as worker processes, makes their state and events durable in SQLite and delivers the
  events to Discord and OpenClaw.

  The parts and how they interact.  A monitor's callback changes a \<^emph>\<open>session\<close> by committing: its
  closure's new state, checkpoints and events become one transaction frame, which the worker's
  \<^emph>\<open>coordinator\<close> sends on the \<^emph>\<open>wire\<close> and for which it waits until the daemon acknowledges it.  The
  daemon's end of the wire checks the frame and hands it to the \<^emph>\<open>store\<close>, which applies it at most
  once under the \<^emph>\<open>generation\<close> that fences all earlier workers of the deployment, and puts its events
  in the \<^emph>\<open>outbox\<close>, from which the outbox worker leases, sends and settles deliveries.  The
  \<^emph>\<open>reconciler\<close> keeps one worker running for each active deployment, with the artifact, configuration
  and secrets it should have; the worker's \<^emph>\<open>supervisor\<close> runs the plan and reports its outcome, which
  the store counts as health.  The \<^emph>\<open>catalog\<close> has sources a monitor can use: EVM blocks and logs and
  the transactions of a Solana address, resumed from checkpoints.  The \<^emph>\<open>commands\<close> build and deploy
  monitors and change the store beside the daemon.

  Conventions.  A Go string or byte slice is the list of its bytes.  An error is an \<open>Inl\<close>, of the
  sentinel errors by name and of the others by the text of their format (\<open>Errorf\<close>); wrapping and
  interpolated values are dropped where nothing reads them.  A table is the list of its rows; a
  statement is an update of it, and a transaction a function whose error leaves the store as it was.
  Times of the store are milliseconds and durations nanoseconds, as \<open>int\<close>; sequences, generations and
  block numbers on the wire are \<open>64 word\<close>, and arithmetic that can wrap is written with its wrap-around.
  What lies outside the sources (SQLite's commit, the network, clocks, random identifiers, hashes, the
  encoding of JSON, YAML, processes and files) is an argument of the definitions that use it, often a
  record such as \<open>env\<close>, \<open>web\<close> or \<open>transport\<close>; theorems quantify over it, and the few laws they need of
  it are named hypotheses.  What can happen between two statements of a caller is an argument too
  (\<open>between\<close>, \<open>vi_meanwhile\<close>), a function on the store.

  The theories, with the sources they model:

  \<^item> \<open>Prelude\<close>, \<open>GoStrings\<close>, \<open>Json\<close>: results and transactions, the row operations all tables share and
    their \<open>simp\<close> rules; UTF-8, trimming, splitting, numbers and hex of the Go library; \<open>json.Valid\<close> as its
    scanner is written.
  \<^item> \<open>Message\<close>, \<open>Store\<close>, \<open>Advance\<close>: the rows of \<open>internal/storage/schema.sql\<close>, the invariant \<open>store_inv\<close>
    (keys, references, fence, ledger, health, deliveries), and the relation \<open>advances\<close> that every writer
    respects.  The locale \<open>fenced_op\<close> is the contract of a writer; each of the next theories interprets it
    on its own operations.
  \<^item> \<open>Transactions\<close>, \<open>Generations\<close>, \<open>Deployments\<close>, \<open>Health\<close>, \<open>Outbox\<close>, \<open>Retention\<close>, \<open>Queries\<close>:
    \<open>internal/storage\<close>, file by file.  \<open>History\<close> has a constructor for each exported writer and the
    locale \<open>store_history\<close>, interpreted on them; \<open>Sample\<close> is a small concrete history for witnesses.
  \<^item> \<open>StoreTheorems\<close>, \<open>LifecycleTheorems\<close>, \<open>OutboxTheorems\<close>: at-most-once application, the fence, the
    linear history of state, leases, pruning, health against an automaton.
  \<^item> \<open>Database\<close>: \<open>schema.go\<close> and \<open>schema.sql\<close>, the creation and the migrations of the tables; they converge.
    \<open>Checkpointer\<close>: \<open>checkpoint.go\<close>, opening and closing in \<open>store.go\<close>, and the loop of
    \<open>internal/daemon/maintenance.go\<close>; the bounds of the checkpointer's delay.
  \<^item> \<open>Mentions\<close>, \<open>Discord\<close>, \<open>DeliveryTheorems\<close>: \<open>internal/delivery\<close>, limits of what is sent.
    \<open>Dispatch\<close>, \<open>DispatchTheorems\<close>: the outbox worker, \<open>internal/daemon/outbox.go\<close>, over the locale
    \<open>outbox_store\<close>, which the store's outbox interprets.
    \<open>Accounts\<close>: \<open>internal/delivery/accounts.go\<close>, credentials in the Keychain.
  \<^item> \<open>Protocol\<close>, \<open>WireHash\<close>, \<open>ProtocolTheorems\<close>: \<open>protocol.go\<close>, \<open>plan.go\<close>, \<open>info.go\<close>, \<open>event.go\<close>: the frames,
    their validation, and what the payload hash binds.
  \<^item> \<open>Session\<close>, \<open>Coordinator\<close>, \<open>CommitTheorems\<close>: \<open>session.go\<close>, \<open>state.go\<close>, \<open>wire.go\<close>, \<open>coordinator.go\<close>; the
    locale \<open>session_committer\<close> is what a session asks of its committer, interpreted on the coordinator
    and on the local committer of tests.
  \<^item> \<open>Settlement\<close>, \<open>SettlementTheorems\<close>: the daemon's end, \<open>internal/daemon/worker.go\<close>, and both ends together.
    \<open>Reading\<close>: its \<open>readLoop\<close>, which cuts the output of a worker into frames.
  \<^item> \<open>Secrets\<close>, \<open>SecretsTheorems\<close>: \<open>internal/secrets\<close>.  \<open>Supervision\<close>, \<open>SupervisionTheorems\<close>: the
    reconciler and its registry of workers, a step relation with its invariant.  \<open>Lifetime\<close>:
    \<open>internal/daemon/daemon.go\<close> and the lock, a run of the daemon from start to shutdown.  \<open>Supervisor\<close>,
    \<open>SupervisorTheorems\<close>: \<open>supervisor.go\<close>, \<open>runtime.go\<close>, \<open>lifecycle.go\<close>, \<open>deferred.go\<close>.
  \<^item> \<open>EvmTypes\<close>, \<open>EvmClient\<close>, \<open>EvmBlocks\<close>, \<open>EvmEvents\<close>, \<open>Erc20\<close>, with \<open>SessionCommits\<close>, \<open>EvmTheorems\<close>,
    \<open>BlocksTheorems\<close>, \<open>EventsTheorems\<close>: \<open>catalog/quicknode/evm\<close>.
  \<^item> \<open>SolanaClient\<close>, \<open>SolanaEvents\<close>, \<open>SolanaTheorems\<close>: \<open>catalog/quicknode/solana\<close>.
  \<^item> \<open>Quicknode\<close>, \<open>QuicknodeTheorems\<close>: the JSON-RPC transport below both.
    \<open>Httpx\<close>: \<open>catalog/httpx\<close>, pools of proxy-bound clients.
  \<^item> \<open>MonitorConfig\<close>, \<open>Operate\<close>, \<open>OperateTheorems\<close>: \<open>internal/monitor\<close>, \<open>internal/model\<close> and the commands of
    \<open>internal/cli\<close> that change deployments.  \<open>Layout\<close>: \<open>internal/config\<close>, the directories of a root and its
    files, over a disk whose every call can fail.  \<open>LocalTest\<close>: the command \<open>test\<close>, which stands in for the
    daemon over a worker's pipes.

  Bounds and fuel.  Loops of the sources that end are structural recursions or functions with a measure.
  The pages of the Solana history, which end only if the node's tokens do not go round, are a
  \<open>partial_function (option)\<close>, and \<open>recovery_ends\<close> proves that they end then.  The long-running loops (a
  source, the daemon's reader, a subscription, the outbox) are recursions over the list of what their
  channels deliver, so they stop only where the list does, and their theorems are about every such list.
  Retries keep the counts of the sources.

  Not modelled: flags and printing of \<open>cmd\<close> and \<open>internal/cli\<close>, the scaffolding of new monitors, process
  groups and signals, the pragmas and pools of SQLite's connections, logging, and the settings of HTTP
  transports; these are calls of the system or of third-party code with no decision of the program's own.
\<close>

section \<open>Histories of the store\<close>

text \<open>
  C1: at-most-once application of a frame.  Once \<open>ApplyTransaction\<close> has acknowledged a frame
  (whatever the commit reported), then after any further history of store calls that does not
  purge its deployment, pruning included, sending the same frame again changes nothing and
  returns the very same ACK, or \<open>ErrGenerationFenced\<close> when the receipt has been pruned.
\<close>

theorem replay_stable:
  assumes "ApplyTransaction E commit readable frame now (run_calls E before empty_store) = (s, Inr ack)"
    and "\<forall>c\<in>set later. spares (fr_DeploymentID frame) c"
  shows "ApplyTransaction E commit' readable' frame now' (run_calls E later s) = (run_calls E later s, Inr ack) \<or>
    ApplyTransaction E commit' readable' frame now' (run_calls E later s) =
      (run_calls E later s, Inl ErrGenerationFenced)"
proof -
  let ?s = "run_calls E later s"
  note inv0 = reachable_inv [of E before]
  have inv: "store_inv s" using ApplyTransaction_keeps [OF inv0, of E commit readable frame now] assms(1) by simp
  obtain t where t: "t \<in> set (transactions s)" "receipt_of frame ack t" and valid: "validateFrame frame = None"
    using acknowledged_receipt [OF inv0 assms(1)] by blast
  have key: "t_deployment t = fr_DeploymentID frame" "t_generation t = fr_Generation frame"
    "t_seq t = fr_Sequence frame" using t(2) by (simp_all add: receipt_of_def)
  have keys: "keys_ok ?s"
    using sh.history_inv [OF inv, of E later] by (simp add: run_calls_def store_inv_def)
  from sh.receipt_kept_or_fenced [OF inv _ t(1), of later E] assms(2)
  consider "t \<in> set (transactions ?s)" | g where "tx_key t \<notin> tx_key ` set (transactions ?s)"
      "find_generation (t_deployment t) (t_generation t) ?s = Some g" "g_status g = GenRetired"
    by (auto simp: key(1) run_calls_def)
  then show ?thesis
  proof cases
    case 1
    then show ?thesis using replay_found [OF keys valid _ t(2)] by blast
  next
    case 2
    then show ?thesis using retired_refused [OF valid, of ?s g] by (simp add: key)
  qed
qed

lemma replay_stable_witness:
  "ApplyTransaction sample_env CommitOk True sample_frame 99
     (run_calls sample_env [CallRecover 40, CallPause ''dep'' 50] sample_applied) =
     (run_calls sample_env [CallRecover 40, CallPause ''dep'' 50] sample_applied, Inr sample_ack) \<or>
   ApplyTransaction sample_env CommitOk True sample_frame 99
     (run_calls sample_env [CallRecover 40, CallPause ''dep'' 50] sample_applied) =
     (run_calls sample_env [CallRecover 40, CallPause ''dep'' 50] sample_applied, Inl ErrGenerationFenced)"
  by (rule replay_stable [OF sample_apply [unfolded sample_store_def]]) (simp add: spares_def)

end
